(* ===== verification/Prelude.thy ===== *)
theory Prelude
  imports Main "HOL-Library.AList" "HOL-Library.Sublist" "HOL-Library.Char_ord"
    "HOL-Library.List_Lexorder"
begin

text \<open>
  Shared vocabulary of the development.

  \<^item> The error monad: a Python function that may raise is a function into \<open>'e + 'a\<close>;
    \<open>Inl\<close> is the raised exception, \<open>Inr\<close> the returned value.
  \<^item> Python strings: a \<open>string\<close> stands for the UTF-8 bytes of the Python \<open>str\<close>; the
    functions below are the ASCII part of \<open>str.split\<close>, \<open>str.strip\<close>, \<open>str.lower\<close> and
    \<open>str.casefold\<close> (bytes above 127 are left alone).
  \<^item> Python dictionaries with string keys: association lists in insertion order.
  \<^item> Transition systems whose operations may be refused: the locales that say what an
    invariant, an append-only log and a monotone measure give for every run.
\<close>

section \<open>The error monad\<close>

named_theorems result_simps "equations and inversion rules for computations that may raise"

fun bindE :: "'e + 'a \<Rightarrow> ('a \<Rightarrow> 'e + 'b) \<Rightarrow> 'e + 'b" where
  "bindE (Inl e) f = Inl e"
| "bindE (Inr x) f = f x"

definition requireE :: "bool \<Rightarrow> 'e \<Rightarrow> 'e + unit" where
  "requireE b e = (if b then Inr () else Inl e)"

definition of_option :: "'e \<Rightarrow> 'a option \<Rightarrow> 'e + 'a" where
  "of_option e x = (case x of None \<Rightarrow> Inl e | Some y \<Rightarrow> Inr y)"

definition raise_if :: "'e option \<Rightarrow> 'e + unit" where
  "raise_if x = (case x of None \<Rightarrow> Inr () | Some e \<Rightarrow> Inl e)"

lemma bindE_Inr_iff [result_simps]:
  "bindE m f = Inr y \<longleftrightarrow> (\<exists>x. m = Inr x \<and> f x = Inr y)"
  by (cases m) auto

lemma bindE_Inl_iff [result_simps]:
  "bindE m f = Inl e \<longleftrightarrow> m = Inl e \<or> (\<exists>x. m = Inr x \<and> f x = Inl e)"
  by (cases m) auto

lemma requireE_Inr_iff [result_simps]: "requireE b e = Inr u \<longleftrightarrow> b"
  by (simp add: requireE_def)

lemma requireE_Inl_iff [result_simps]: "requireE b e = Inl e' \<longleftrightarrow> \<not> b \<and> e' = e"
  by (auto simp: requireE_def)

lemma of_option_Inr_iff [result_simps]: "of_option e x = Inr y \<longleftrightarrow> x = Some y"
  by (cases x) (auto simp: of_option_def)

lemma of_option_Inl_iff [result_simps]: "of_option e x = Inl e' \<longleftrightarrow> x = None \<and> e' = e"
  by (cases x) (auto simp: of_option_def)

lemma raise_if_Inr_iff [result_simps]: "raise_if x = Inr u \<longleftrightarrow> x = None"
  by (cases x) (auto simp: raise_if_def)

lemma raise_if_Inl_iff [result_simps]: "raise_if x = Inl e \<longleftrightarrow> x = Some e"
  by (cases x) (auto simp: raise_if_def)

lemma requireE_True [simp]: "requireE True e = Inr ()"
  and requireE_False [simp]: "requireE False e = Inl e"
  by (simp_all add: requireE_def)

lemma of_option_simps [simp]: "of_option e None = Inl e" "of_option e (Some x) = Inr x"
  by (simp_all add: of_option_def)

lemma raise_if_simps [simp]: "raise_if None = Inr ()" "raise_if (Some e) = Inl e"
  by (simp_all add: raise_if_def)

text \<open>A loop whose body appends to a result list or raises.\<close>

fun collectE :: "('a \<Rightarrow> 'e + 'b list) \<Rightarrow> 'a list \<Rightarrow> 'e + 'b list" where
  "collectE f [] = Inr []"
| "collectE f (x # xs) = bindE (f x) (\<lambda>ys. bindE (collectE f xs) (\<lambda>zs. Inr (ys @ zs)))"

lemma collectE_all: "(\<And>x. x \<in> set xs \<Longrightarrow> f x = Inr (g x)) \<Longrightarrow> collectE f xs = Inr (concat (map g xs))"
  by (induction xs) simp_all

lemma collectE_empty: "collectE f xs = Inr [] \<longleftrightarrow> (\<forall>x\<in>set xs. f x = Inr [])"
  by (induction xs) (auto simp: bindE_Inr_iff)

text \<open>The loop that appends one result per element.\<close>

lemma collectE_each:
  "collectE (\<lambda>x. bindE (g x) (\<lambda>y. Inr [y])) xs = Inr ys \<longleftrightarrow> list_all2 (\<lambda>x y. g x = Inr y) xs ys"
proof (induction xs arbitrary: ys)
  case (Cons x xs)
  then show ?case by (auto simp: bindE_Inr_iff list_all2_Cons1)
qed auto

section \<open>Python strings\<close>

text \<open>ASCII white space as \<open>str.split()\<close> and \<open>str.strip()\<close> see it.\<close>

definition is_space :: "char \<Rightarrow> bool" where
  "is_space c = (let n = of_char c :: nat in (9 \<le> n \<and> n \<le> 13) \<or> (28 \<le> n \<and> n \<le> 32))"

definition lower_char :: "char \<Rightarrow> char" where
  "lower_char c = (let n = of_char c :: nat in if 65 \<le> n \<and> n \<le> 90 then char_of (n + 32) else c)"

abbreviation lower :: "string \<Rightarrow> string" where
  "lower \<equiv> map lower_char"

definition lstrip :: "string \<Rightarrow> string" where
  "lstrip s = dropWhile is_space s"

definition strip :: "string \<Rightarrow> string" where
  "strip s = rev (lstrip (rev (lstrip s)))"

fun split_ws :: "string \<Rightarrow> string \<Rightarrow> string list" where
  "split_ws acc [] = (if acc = [] then [] else [rev acc])"
| "split_ws acc (c # cs) =
     (if is_space c then (if acc = [] then split_ws [] cs else rev acc # split_ws [] cs)
      else split_ws (c # acc) cs)"

text \<open>\<open>s.split()\<close>\<close>
abbreviation py_split :: "string \<Rightarrow> string list" where
  "py_split s \<equiv> split_ws [] s"

text \<open>\<open>sep.join(xs)\<close>\<close>
fun join_with :: "string \<Rightarrow> string list \<Rightarrow> string" where
  "join_with sep [] = []"
| "join_with sep [x] = x"
| "join_with sep (x # y # ys) = x @ sep @ join_with sep (y # ys)"

lemma is_space_lower [simp]: "is_space (lower_char c) = is_space c"
  by (auto simp: is_space_def lower_char_def Let_def)

lemma lower_char_idem [simp]: "lower_char (lower_char c) = lower_char c"
  by (auto simp: lower_char_def Let_def)

lemma lower_idem [simp]: "lower (lower s) = lower s"
  by simp

lemma lower_char_space [simp]: "is_space c \<Longrightarrow> lower_char c = c"
  by (auto simp: is_space_def lower_char_def Let_def)

lemma space_is_space [simp]: "is_space CHR '' ''"
  by (simp add: is_space_def)

text \<open>The words of a string: non-empty, free of white space, and stable under re-joining.\<close>

lemma split_ws_words:
  "(\<forall>c\<in>set acc. \<not> is_space c) \<Longrightarrow> w \<in> set (split_ws acc s) \<Longrightarrow>
     w \<noteq> [] \<and> (\<forall>c\<in>set w. \<not> is_space c)"
proof (induction s arbitrary: acc)
  case Nil
  then show ?case by (simp split: if_splits)
next
  case (Cons c s)
  show ?case
  proof (cases "is_space c")
    case True
    with Cons.prems consider "w = rev acc" "acc \<noteq> []" | "w \<in> set (split_ws [] s)"
      by (auto split: if_splits)
    then show ?thesis
      by cases (use Cons.prems Cons.IH [of "[]"] in simp_all)
  next
    case False
    with Cons.prems show ?thesis by (intro Cons.IH [of "c # acc"]) simp_all
  qed
qed

lemma split_ws_word:
  "(\<And>c. c \<in> set w \<Longrightarrow> \<not> is_space c) \<Longrightarrow> split_ws acc (w @ s) = split_ws (rev w @ acc) s"
  by (induction w arbitrary: acc) auto

lemma split_join_words:
  assumes "\<And>w. w \<in> set ws \<Longrightarrow> w \<noteq> [] \<and> (\<forall>c\<in>set w. \<not> is_space c)"
  shows "py_split (join_with '' '' ws) = ws"
  using assms
proof (induction "'' ''" ws rule: join_with.induct)
  case 1
  then show ?case by simp
next
  case (2 x)
  then show ?case using split_ws_word [of x "[]" "[]"] by simp
next
  case (3 x y ys)
  then have "split_ws [] (x @ '' '' @ join_with '' '' (y # ys)) =
      split_ws (rev x) ('' '' @ join_with '' '' (y # ys))"
    by (subst split_ws_word) auto
  moreover have "split_ws [] (join_with '' '' (y # ys)) = y # ys"
    using 3 by (metis list.set_intros(2))
  ultimately show ?case using 3 by simp
qed

lemma split_lower: "split_ws (map lower_char acc) (map lower_char s) = map lower (split_ws acc s)"
proof (induction s arbitrary: acc)
  case Nil
  then show ?case by (simp add: rev_map)
next
  case (Cons c s)
  then show ?case using Cons [of "[]"] Cons [of "c # acc"] by (simp add: rev_map)
qed

lemma lower_join: "lower (join_with '' '' ws) = join_with '' '' (map lower ws)"
  by (induction "'' ''" ws rule: join_with.induct) auto

text \<open>Blank strings: the ones Python's \<open>s.strip()\<close> makes empty.\<close>

lemma dropWhile_all: "(\<forall>c\<in>set (dropWhile P s). P c) \<longleftrightarrow> (\<forall>c\<in>set s. P c)"
  by (induction s) simp_all

lemma strip_empty_iff: "strip s = [] \<longleftrightarrow> (\<forall>c\<in>set s. is_space c)"
  by (simp add: strip_def lstrip_def dropWhile_eq_Nil_conv dropWhile_all)

lemma split_empty_iff: "split_ws acc s = [] \<longleftrightarrow> acc = [] \<and> (\<forall>c\<in>set s. is_space c)"
proof (induction s arbitrary: acc)
  case Nil
  then show ?case by simp
next
  case (Cons c s)
  then show ?case using Cons [of "[]"] Cons [of "c # acc"] by simp
qed

section \<open>Python dictionaries with string keys\<close>

text \<open>
  A \<open>dict[str, str]\<close> is an association list in insertion order; \<open>d[k] = v\<close> replaces the
  value in place or appends a new pair, which is \<open>AList.update\<close>.
\<close>

type_synonym dict = "(string \<times> string) list"

abbreviation dict_get :: "(string \<times> 'v) list \<Rightarrow> string \<Rightarrow> 'v option" where
  "dict_get d k \<equiv> map_of d k"

definition dict_get_or :: "(string \<times> 'v) list \<Rightarrow> string \<Rightarrow> 'v \<Rightarrow> 'v" where
  "dict_get_or d k x = (case map_of d k of None \<Rightarrow> x | Some v \<Rightarrow> v)"

abbreviation dict_set :: "string \<Rightarrow> 'v \<Rightarrow> (string \<times> 'v) list \<Rightarrow> (string \<times> 'v) list" where
  "dict_set \<equiv> AList.update"

text \<open>\<open>d.update(other)\<close>\<close>
definition dict_update :: "(string \<times> 'v) list \<Rightarrow> (string \<times> 'v) list \<Rightarrow> (string \<times> 'v) list" where
  "dict_update d e = foldl (\<lambda>m (k, v). dict_set k v m) d e"

definition dict_ok :: "(string \<times> 'v) list \<Rightarrow> bool" where
  "dict_ok d \<longleftrightarrow> distinct (map fst d)"

lemma dict_ok_Nil [simp]: "dict_ok []"
  by (simp add: dict_ok_def)

lemma dict_ok_set [simp, intro]: "dict_ok d \<Longrightarrow> dict_ok (dict_set k v d)"
  by (simp add: dict_ok_def distinct_update)

lemma dict_ok_update [simp, intro]: "dict_ok d \<Longrightarrow> dict_ok (dict_update d e)"
  by (induction e arbitrary: d) (auto simp: dict_update_def)

lemma dict_ok_filter [simp, intro]: "dict_ok d \<Longrightarrow> dict_ok (filter P d)"
  by (simp add: dict_ok_def distinct_map_filter)

lemma dict_get_set [simp]: "map_of (dict_set k v d) = (map_of d)(k \<mapsto> v)"
  by (rule update_conv')

lemma dict_get_update:
  "map_of (dict_update d e) k = (case map_of (rev e) k of None \<Rightarrow> map_of d k | Some v \<Rightarrow> Some v)"
proof (induction e arbitrary: d)
  case Nil
  then show ?case by (simp add: dict_update_def)
next
  case (Cons p e)
  obtain a b where p: "p = (a, b)" by (cases p)
  have "dict_update d (p # e) = dict_update (dict_set a b d) e"
    by (simp add: dict_update_def p)
  then show ?case
    by (simp add: Cons.IH p map_add_def split: option.splits)
qed

lemma dict_get_update_notin [simp]:
  "k \<notin> fst ` set e \<Longrightarrow> map_of (dict_update d e) k = map_of d k"
  by (simp add: dict_get_update map_of_eq_None_iff split: option.splits)
     (metis image_set map_of_eq_None_iff not_None_eq option.discI rev_map set_rev)

text \<open>A dictionary built in a loop holds, for every key, what the last matching element gave.\<close>

lemma map_of_foldl_update:
  "map_of (foldl (\<lambda>m x. if P x then AList.update (f x) (g x) m else m) m0 xs) k =
     (case find (\<lambda>x. P x \<and> f x = k) (rev xs) of None \<Rightarrow> map_of m0 k | Some x \<Rightarrow> Some (g x))"
proof (induction xs rule: rev_induct)
  case (snoc x xs)
  then show ?case by (simp add: update_conv')
qed simp

lemma map_of_foldl_update_all:
  "map_of (foldl (\<lambda>m x. AList.update (f x) (g x) m) [] xs) k = map_option g (find (\<lambda>x. f x = k) (rev xs))"
  using map_of_foldl_update [of "\<lambda>_. True" f g "[]" xs k] by (simp split: option.splits)

lemma find_SomeD: "find P xs = Some x \<Longrightarrow> x \<in> set xs \<and> P x"
  by (auto simp: find_Some_iff)

lemma find_unique:
  assumes x: "x \<in> set xs" "P x" and unique: "\<And>y. y \<in> set xs \<Longrightarrow> P y \<Longrightarrow> y = x"
  shows "find P xs = Some x"
proof (cases "find P xs")
  case None
  then show ?thesis using x by (simp add: find_None_iff)
next
  case (Some y)
  then show ?thesis using unique find_SomeD by metis
qed

section \<open>Runs of operations that may be refused\<close>

text \<open>
  \<open>attempt\<close> is what a caller of an API sees: an operation that raises leaves the state as it
  was, and the next request is tried on that state. \<open>attempts\<close> is a whole session.
\<close>

definition attempt :: "('s \<Rightarrow> 'op \<Rightarrow> 'e + 's) \<Rightarrow> 's \<Rightarrow> 'op \<Rightarrow> 's" where
  "attempt step s x = (case step s x of Inl e \<Rightarrow> s | Inr t \<Rightarrow> t)"

fun attempts :: "('s \<Rightarrow> 'op \<Rightarrow> 'e + 's) \<Rightarrow> 's \<Rightarrow> 'op list \<Rightarrow> 's" where
  "attempts step s [] = s"
| "attempts step s (x # xs) = attempts step (attempt step s x) xs"

lemma attempts_append: "attempts step s (xs @ ys) = attempts step (attempts step s xs) ys"
  by (induction xs arbitrary: s) auto

text \<open>The accepted operations of a session, in order.\<close>

fun accepted :: "('s \<Rightarrow> 'op \<Rightarrow> 'e + 's) \<Rightarrow> 's \<Rightarrow> 'op list \<Rightarrow> 'op list" where
  "accepted step s [] = []"
| "accepted step s (x # xs) =
     (case step s x of Inl e \<Rightarrow> accepted step s xs | Inr t \<Rightarrow> x # accepted step t xs)"

text \<open>An invariant kept by every accepted operation holds after every session.\<close>

locale step_invariant =
  fixes step :: "'s \<Rightarrow> 'op \<Rightarrow> 'e + 's" and inv :: "'s \<Rightarrow> bool"
  assumes step_inv: "inv s \<Longrightarrow> step s x = Inr t \<Longrightarrow> inv t"
begin

lemma attempt_inv: "inv s \<Longrightarrow> inv (attempt step s x)"
  by (auto simp: attempt_def step_inv split: sum.splits)

lemma attempts_inv: "inv s \<Longrightarrow> inv (attempts step s xs)"
  by (induction xs arbitrary: s) (auto simp: attempt_inv)

end

text \<open>A log every accepted operation only appends to.\<close>

locale append_only = step_invariant step inv
  for step :: "'s \<Rightarrow> 'op \<Rightarrow> 'e + 's" and inv :: "'s \<Rightarrow> bool" +
  fixes log :: "'s \<Rightarrow> 'x list"
  assumes step_log: "inv s \<Longrightarrow> step s x = Inr t \<Longrightarrow> prefix (log s) (log t)"
begin

lemma attempt_log: "inv s \<Longrightarrow> prefix (log s) (log (attempt step s x))"
  by (auto simp: attempt_def step_log split: sum.splits)

lemma attempts_log: "inv s \<Longrightarrow> prefix (log s) (log (attempts step s xs))"
proof (induction xs arbitrary: s)
  case Nil
  then show ?case by simp
next
  case (Cons x xs)
  then have "prefix (log (attempt step s x)) (log (attempts step (attempt step s x) xs))"
    by (simp add: attempt_inv)
  with attempt_log [OF Cons.prems] show ?case
    by (auto intro: prefix_order.trans)
qed

lemma attempts_log_nth:
  "inv s \<Longrightarrow> i < length (log s) \<Longrightarrow> log (attempts step s xs) ! i = log s ! i"
  using attempts_log [of s xs] by (auto simp: prefix_def nth_append)

end

text \<open>A measure no accepted operation lowers.\<close>

locale monotone_run = step_invariant step inv
  for step :: "'s \<Rightarrow> 'op \<Rightarrow> 'e + 's" and inv :: "'s \<Rightarrow> bool" +
  fixes level :: "'s \<Rightarrow> 'l::order"
  assumes step_mono: "inv s \<Longrightarrow> step s x = Inr t \<Longrightarrow> level s \<le> level t"
begin

lemma attempts_mono: "inv s \<Longrightarrow> level s \<le> level (attempts step s xs)"
proof (induction xs arbitrary: s)
  case Nil
  then show ?case by simp
next
  case (Cons x xs)
  have "level s \<le> level (attempt step s x)"
    using Cons.prems by (auto simp: attempt_def step_mono split: sum.splits)
  also have "\<dots> \<le> level (attempts step (attempt step s x) xs)"
    by (rule Cons.IH) (simp add: attempt_inv Cons.prems)
  finally show ?case by simp
qed

end

end
