(* ===== verification/Json.thy ===== *)
theory Json
  imports Prelude
begin

text \<open>
  The JSON text the code hashes: \<open>json.dumps(value, sort_keys=True, separators=(",", ":"),
  ensure_ascii=False)\<close> of Python's standard library, as used by \<open>_canonical\<close> in
  \<open>src/swarm/trail.py\<close>, \<open>_digest_input\<close> in \<open>src/swarm/evidence.py\<close> and
  \<open>compute_ipe_population_digest\<close> in \<open>src/swarm/sampling.py\<close>. The main result is that the
  canonical text determines the value up to the order of keys, so a digest over it covers
  everything in the value.
\<close>

section \<open>Values and their text\<close>

datatype json =
    JNull
  | JBool bool
  | JInt int
  | JStr string
  | JList "json list"
  | JObj "(string \<times> json) list"

definition digit_char :: "nat \<Rightarrow> char" where
  "digit_char d = char_of (48 + d)"

fun nat_str :: "nat \<Rightarrow> string" where
  "nat_str n = (if n < 10 then [digit_char n] else nat_str (n div 10) @ [digit_char (n mod 10)])"

declare nat_str.simps [simp del]

text \<open>\<open>str(n)\<close> for an integer\<close>
definition int_str :: "int \<Rightarrow> string" where
  "int_str n = (if n < 0 then CHR ''-'' # nat_str (nat (- n)) else nat_str (nat n))"

definition hex_char :: "nat \<Rightarrow> char" where
  "hex_char d = (if d < 10 then char_of (48 + d) else char_of (87 + d))"

text \<open>The escapes of \<open>json.encoder.ESCAPE_DCT\<close>; every other character is copied.\<close>

definition escape_char :: "char \<Rightarrow> string" where
  "escape_char c = (let n = of_char c :: nat in
     if n = 34 then [CHR 0x5C, CHR 0x22]
     else if n = 92 then [CHR 0x5C, CHR 0x5C]
     else if n = 8 then [CHR 0x5C, CHR ''b'']
     else if n = 12 then [CHR 0x5C, CHR ''f'']
     else if n = 10 then [CHR 0x5C, CHR ''n'']
     else if n = 13 then [CHR 0x5C, CHR ''r'']
     else if n = 9 then [CHR 0x5C, CHR ''t'']
     else if n < 32 then CHR 0x5C # ''u00'' @ [hex_char (n div 16), hex_char (n mod 16)]
     else [c])"

definition dump_str :: "string \<Rightarrow> string" where
  "dump_str s = CHR 0x22 # concat (map escape_char s) @ [CHR 0x22]"

primrec dumps :: "json \<Rightarrow> string" where
  "dumps JNull = ''null''"
| "dumps (JBool b) = (if b then ''true'' else ''false'')"
| "dumps (JInt n) = int_str n"
| "dumps (JStr s) = dump_str s"
| "dumps (JList xs) = ''['' @ join_with '','' (map dumps xs) @ '']''"
| "dumps (JObj ps) =
     ''{'' @ join_with '','' (map (\<lambda>(k, t). dump_str k @ '':'' @ t) (map (map_prod id dumps) ps)) @ ''}''"

text \<open>\<open>sort_keys=True\<close>: every object's pairs in the order of their keys.\<close>

primrec sort_keys :: "json \<Rightarrow> json" where
  "sort_keys JNull = JNull"
| "sort_keys (JBool b) = JBool b"
| "sort_keys (JInt n) = JInt n"
| "sort_keys (JStr s) = JStr s"
| "sort_keys (JList xs) = JList (map sort_keys xs)"
| "sort_keys (JObj ps) = JObj (sort_key fst (map (map_prod id sort_keys) ps))"

definition canonical :: "json \<Rightarrow> string" where
  "canonical j = dumps (sort_keys j)"

section \<open>Unique readability\<close>

subsection \<open>Strings\<close>

text \<open>Reading one escaped character back.\<close>

definition hex_val :: "char \<Rightarrow> nat" where
  "hex_val c = (let n = of_char c in if n < 58 then n - 48 else n - 87)"

fun read_char :: "string \<Rightarrow> (char \<times> string) option" where
  "read_char [] = None"
| "read_char (c # cs) =
     (if c \<noteq> CHR 0x5C then Some (c, cs)
      else case cs of
        [] \<Rightarrow> None
      | d # ds \<Rightarrow>
          if d = CHR ''b'' then Some (char_of (8::nat), ds)
          else if d = CHR ''f'' then Some (char_of (12::nat), ds)
          else if d = CHR ''n'' then Some (char_of (10::nat), ds)
          else if d = CHR ''r'' then Some (char_of (13::nat), ds)
          else if d = CHR ''t'' then Some (char_of (9::nat), ds)
          else if d = CHR ''u'' then
            (case ds of _ # _ # x # y # r \<Rightarrow> Some (char_of (16 * hex_val x + hex_val y), r)
             | _ \<Rightarrow> None)
          else Some (d, ds))"

lemma hex_val_char: "d < 16 \<Longrightarrow> hex_val (hex_char d) = d"
  by (auto simp: hex_val_def hex_char_def Let_def of_char_of)

lemma char_eq_code: "c = d \<longleftrightarrow> of_char c = (of_char d :: nat)"
  by simp

lemma char_of_code: "of_char c = (n :: nat) \<Longrightarrow> char_of n = c"
  by (metis char_of_char)

lemma read_char_plain: "c \<noteq> CHR 0x5C \<Longrightarrow> read_char (c # r) = Some (c, r)"
  by simp

lemma read_escape: "read_char (escape_char c @ r) = Some (c, r)"
proof -
  define n :: nat where "n = of_char c"
  have c: "char_of n = c" by (simp add: n_def)
  consider "n \<in> {34, 92, 8, 12, 10, 13, 9}" | "n \<notin> {34, 92, 8, 12, 10, 13, 9}" "n < 32"
    | "n \<notin> {34, 92, 8, 12, 10, 13, 9}" "\<not> n < 32"
    by blast
  then show ?thesis
  proof cases
    case 1
    moreover have "c = CHR 0x22 \<longleftrightarrow> n = 34" "c = CHR 0x5C \<longleftrightarrow> n = 92"
      unfolding n_def char_eq_code by simp_all
    ultimately show ?thesis
      using c by (auto simp: escape_char_def n_def [symmetric])
  next
    case 2
    then have "escape_char c =
        CHR 0x5C # CHR ''u'' # CHR ''0'' # CHR ''0'' # [hex_char (n div 16), hex_char (n mod 16)]"
      by (simp add: escape_char_def n_def [symmetric])
    then show ?thesis using 2 c by (simp add: hex_val_char)
  next
    case 3
    then have "escape_char c = [c]" by (simp add: escape_char_def n_def [symmetric])
    moreover have "c \<noteq> CHR 0x5C" using 3 by (auto simp: n_def)
    ultimately show ?thesis by simp
  qed
qed

lemma escape_head: "\<exists>x xs. escape_char c = x # xs \<and> x \<noteq> CHR 0x22"
proof (cases "of_char c = (34 :: nat)")
  case True
  then show ?thesis by (simp add: escape_char_def)
next
  case False
  then have "c \<noteq> CHR 0x22" by auto
  with False show ?thesis by (auto simp: escape_char_def Let_def)
qed

lemma escape_unique:
  "concat (map escape_char s) @ CHR 0x22 # r = concat (map escape_char t) @ CHR 0x22 # r' \<Longrightarrow>
     s = t \<and> r = r'"
proof (induction s arbitrary: t)
  case Nil
  show ?case
  proof (cases t)
    case (Cons d t')
    then show ?thesis using Nil.prems escape_head [of d] by auto
  qed (use Nil.prems in simp)
next
  case (Cons c s)
  show ?case
  proof (cases t)
    case Nil
    then show ?thesis using Cons.prems escape_head [of c] by auto
  next
    case (Cons d t')
    let ?x = "concat (map escape_char s) @ CHR 0x22 # r"
    let ?y = "concat (map escape_char t') @ CHR 0x22 # r'"
    have "escape_char c @ ?x = escape_char d @ ?y"
      using Cons.prems Cons by simp
    then have "read_char (escape_char c @ ?x) = read_char (escape_char d @ ?y)"
      by (rule arg_cong)
    then have "c = d \<and> ?x = ?y" by (simp add: read_escape)
    then show ?thesis using Cons.IH Cons by blast
  qed
qed

lemma dump_str_unique: "dump_str s @ r = dump_str t @ r' \<Longrightarrow> s = t \<and> r = r'"
  using escape_unique [of s r t r'] by (simp add: dump_str_def)

subsection \<open>Numbers\<close>

definition is_digit :: "char \<Rightarrow> bool" where
  "is_digit c = (let n = of_char c :: nat in 48 \<le> n \<and> n \<le> 57)"

text \<open>What may follow a number in JSON text: anything but another digit.\<close>
definition no_digit :: "string \<Rightarrow> bool" where
  "no_digit s = (case s of [] \<Rightarrow> True | c # _ \<Rightarrow> \<not> is_digit c)"

definition str_nat :: "string \<Rightarrow> nat" where
  "str_nat s = foldl (\<lambda>n c. 10 * n + (of_char c - 48)) 0 s"

lemma is_digit_char: "d < 10 \<Longrightarrow> is_digit (digit_char d)"
  by (simp add: is_digit_def digit_char_def of_char_of)

lemma nat_str_digits: "\<forall>c\<in>set (nat_str n). is_digit c"
proof (induction n rule: nat_str.induct)
  case (1 n)
  then show ?case by (subst nat_str.simps) (auto simp: is_digit_char)
qed

lemma str_nat_str [simp]: "str_nat (nat_str n) = n"
proof (induction n rule: nat_str.induct)
  case (1 n)
  then show ?case
    by (subst nat_str.simps) (auto simp: str_nat_def digit_char_def of_char_of)
qed

lemma nat_str_nonempty [simp]: "nat_str n \<noteq> []"
  by (subst nat_str.simps) simp

lemma takeWhile_digits: "\<forall>c\<in>set s. is_digit c \<Longrightarrow> no_digit r \<Longrightarrow> takeWhile is_digit (s @ r) = s"
  by (induction s) (auto simp: no_digit_def split: list.splits)

lemma nat_str_unique:
  assumes eq: "nat_str m @ r = nat_str n @ r'" and r: "no_digit r" "no_digit r'"
  shows "m = n \<and> r = r'"
proof -
  have "nat_str m = takeWhile is_digit (nat_str m @ r)"
    using nat_str_digits r(1) by (rule takeWhile_digits [symmetric])
  also have "\<dots> = takeWhile is_digit (nat_str n @ r')" by (simp only: eq)
  also have "\<dots> = nat_str n" using nat_str_digits r(2) by (rule takeWhile_digits)
  finally have "nat_str m = nat_str n" .
  moreover from this have "m = n" by (metis str_nat_str)
  ultimately show ?thesis using eq by simp
qed

lemma nat_str_head: "\<exists>c s. nat_str n = c # s \<and> is_digit c"
  using nat_str_digits [of n] by (cases "nat_str n") auto

lemma minus_no_digit [simp]: "\<not> is_digit CHR ''-''"
  by (simp add: is_digit_def)

lemma nat_str_no_minus: "nat_str n @ r \<noteq> CHR ''-'' # s"
  using nat_str_head [of n] minus_no_digit by auto

lemma int_str_neg: "n < 0 \<Longrightarrow> int_str n = CHR ''-'' # nat_str (nat (- n))"
  and int_str_nonneg: "\<not> n < 0 \<Longrightarrow> int_str n = nat_str (nat n)"
  by (simp_all add: int_str_def)

lemma int_str_sign:
  assumes "int_str m @ r = int_str n @ r'" and "m < 0"
  shows "n < 0"
proof (rule ccontr)
  assume "\<not> n < 0"
  then have "nat_str (nat n) @ r' = CHR ''-'' # (nat_str (nat (- m)) @ r)"
    using assms by (simp add: int_str_neg int_str_nonneg)
  then show False using nat_str_no_minus by blast
qed

lemma int_str_unique:
  assumes eq: "int_str m @ r = int_str n @ r'" and r: "no_digit r" "no_digit r'"
  shows "m = n \<and> r = r'"
proof (cases "m < 0")
  case True
  have n: "n < 0" using eq True by (rule int_str_sign)
  with True eq have "nat_str (nat (- m)) @ r = nat_str (nat (- n)) @ r'"
    by (simp add: int_str_neg)
  from nat_str_unique [OF this r] True n show ?thesis by linarith
next
  case False
  have n: "\<not> n < 0" using int_str_sign [OF eq [symmetric]] False by blast
  with False eq have "nat_str (nat m) @ r = nat_str (nat n) @ r'"
    by (simp add: int_str_nonneg)
  from nat_str_unique [OF this r] False n show ?thesis by linarith
qed

lemma int_str_head: "\<exists>c s. int_str n = c # s \<and> (c = CHR ''-'' \<or> is_digit c)"
  using nat_str_head [of "nat n"] by (auto simp: int_str_def)

subsection \<open>Sequences\<close>

lemma join_Cons: "join_with sep (x # xs) = x @ concat (map (\<lambda>y. sep @ y) xs)"
  by (induction xs arbitrary: x) simp_all

text \<open>The characters that can follow a value.\<close>

lemma no_digit_close [simp]:
  "no_digit (CHR '','' # r)" "no_digit (CHR '']'' # r)" "no_digit (CHR ''}'' # r)" "no_digit []"
  by (simp_all add: no_digit_def is_digit_def)

lemma items_unique:
  assumes item: "\<And>x y r r'. x \<in> set xs \<Longrightarrow> enc x @ r = enc y @ r' \<Longrightarrow>
      no_digit r \<Longrightarrow> no_digit r' \<Longrightarrow> x = y \<and> r = r'"
    and close: "close \<in> {CHR '']'', CHR ''}''}"
    and eq: "concat (map (\<lambda>x. '','' @ enc x) xs) @ close # r =
      concat (map (\<lambda>x. '','' @ enc x) ys) @ close # r'"
  shows "xs = ys \<and> r = r'"
  using item eq
proof (induction xs arbitrary: ys)
  case Nil
  then show ?case using close by (cases ys) auto
next
  case (Cons x xs)
  let ?tail = "\<lambda>zs q. concat (map (\<lambda>x. '','' @ enc x) zs) @ close # q"
  have stop: "no_digit (?tail zs q)" for zs q
    using close by (cases zs) auto
  show ?case
  proof (cases ys)
    case Nil
    then show ?thesis using Cons.prems close by auto
  next
    case (Cons y ys')
    then have "enc x @ ?tail xs r = enc y @ ?tail ys' r'"
      using Cons.prems by simp
    then have "x = y \<and> ?tail xs r = ?tail ys' r'"
      using Cons.prems(1) [of x] stop by simp
    moreover from this have "xs = ys' \<and> r = r'"
      using Cons.IH [of ys'] Cons.prems(1) by (metis list.set_intros(2))
    ultimately show ?thesis using Cons by simp
  qed
qed

lemma join_unique:
  assumes item: "\<And>x y r r'. x \<in> set xs \<Longrightarrow> enc x @ r = enc y @ r' \<Longrightarrow>
      no_digit r \<Longrightarrow> no_digit r' \<Longrightarrow> x = y \<and> r = r'"
    and head: "\<And>x. \<exists>c s. enc x = c # s \<and> c \<noteq> close"
    and close: "close \<in> {CHR '']'', CHR ''}''}"
    and eq: "join_with '','' (map enc xs) @ close # r = join_with '','' (map enc ys) @ close # r'"
  shows "xs = ys \<and> r = r'"
proof -
  let ?tail = "\<lambda>zs q. concat (map (\<lambda>x. '','' @ enc x) zs) @ close # q"
  have stop: "no_digit (?tail zs q)" for zs q
    using close by (cases zs) auto
  have join: "join_with '','' (map enc (z # zs)) @ close # q = enc z @ ?tail zs q" for z zs q
    by (simp add: join_Cons comp_def)
  have ne: "enc z @ q \<noteq> close # q'" for z q q'
    using head [of z] by auto
  show ?thesis
  proof (cases xs; cases ys)
    fix x xs' y ys'
    assume xs: "xs = x # xs'" and ys: "ys = y # ys'"
    from eq have "enc x @ ?tail xs' r = enc y @ ?tail ys' r'"
      unfolding xs ys join .
    from item [OF _ this stop stop] have *: "x = y" "?tail xs' r = ?tail ys' r'"
      by (simp_all add: xs)
    have "xs' = ys' \<and> r = r'"
      by (rule items_unique [OF _ close *(2)]) (rule item; simp add: xs)
    with * show ?thesis by (simp add: xs ys)
  next
    fix x xs' assume xs: "xs = x # xs'" and ys: "ys = []"
    from eq have "enc x @ ?tail xs' r = close # r'"
      unfolding xs ys join by simp
    with ne show ?thesis by blast
  next
    fix y ys' assume xs: "xs = []" and ys: "ys = y # ys'"
    from eq have "enc y @ ?tail ys' r' = close # r"
      unfolding xs ys join by simp
    with ne show ?thesis by blast
  qed (use eq in simp)
qed

subsection \<open>Values\<close>

definition dump_pair :: "string \<times> json \<Rightarrow> string" where
  "dump_pair p = dump_str (fst p) @ '':'' @ dumps (snd p)"

lemma dumps_JObj: "dumps (JObj ps) = ''{'' @ join_with '','' (map dump_pair ps) @ ''}''"
  by (simp add: dump_pair_def comp_def case_prod_beta cong: map_cong)

lemma dump_str_head: "\<exists>s'. dump_str s = CHR 0x22 # s'"
  by (simp add: dump_str_def)

datatype json_kind = KNull | KTrue | KFalse | KInt | KStr | KList | KObj

fun kind_of :: "json \<Rightarrow> json_kind" where
  "kind_of JNull = KNull"
| "kind_of (JBool b) = (if b then KTrue else KFalse)"
| "kind_of (JInt n) = KInt"
| "kind_of (JStr s) = KStr"
| "kind_of (JList xs) = KList"
| "kind_of (JObj ps) = KObj"

definition kind_of_char :: "char \<Rightarrow> json_kind" where
  "kind_of_char c = (if c = CHR ''n'' then KNull else if c = CHR ''t'' then KTrue
     else if c = CHR ''f'' then KFalse else if c = CHR 0x22 then KStr
     else if c = CHR ''['' then KList else if c = CHR ''{'' then KObj else KInt)"

lemma digit_kind: "is_digit c \<Longrightarrow> kind_of_char c = KInt"
  and digit_not_close: "is_digit c \<Longrightarrow> c \<noteq> CHR '']'' \<and> c \<noteq> CHR ''}''"
  by (auto simp: is_digit_def kind_of_char_def)

lemma dumps_head:
  "\<exists>c s. dumps j = c # s \<and> kind_of_char c = kind_of j \<and> c \<noteq> CHR '']'' \<and> c \<noteq> CHR ''}''"
proof (cases j)
  case (JInt n)
  obtain c s where c: "int_str n = c # s" "c = CHR ''-'' \<or> is_digit c"
    using int_str_head by blast
  then have "kind_of_char c = KInt \<and> c \<noteq> CHR '']'' \<and> c \<noteq> CHR ''}''"
    using digit_kind digit_not_close by (elim disjE) (simp_all add: kind_of_char_def)
  with c JInt show ?thesis by simp
next
  case (JStr s)
  then show ?thesis using dump_str_head [of s] by (auto simp: kind_of_char_def)
qed (auto simp: kind_of_char_def)

lemma dumps_kind:
  assumes "dumps a @ r = dumps b @ r'"
  shows "kind_of a = kind_of b"
proof -
  obtain c s d t where "dumps a = c # s" "kind_of_char c = kind_of a"
    "dumps b = d # t" "kind_of_char d = kind_of b"
    using dumps_head [of a] dumps_head [of b] by blast
  then show ?thesis using assms by simp
qed

lemma kind_simps:
  "kind_of b = KNull \<longleftrightarrow> b = JNull" "kind_of b = KTrue \<longleftrightarrow> b = JBool True"
  "kind_of b = KFalse \<longleftrightarrow> b = JBool False" "kind_of b = KInt \<longleftrightarrow> (\<exists>n. b = JInt n)"
  "kind_of b = KStr \<longleftrightarrow> (\<exists>s. b = JStr s)" "kind_of b = KList \<longleftrightarrow> (\<exists>xs. b = JList xs)"
  "kind_of b = KObj \<longleftrightarrow> (\<exists>ps. b = JObj ps)"
  by (cases b; simp)+

text \<open>What can follow \<open>a\<close> in JSON text does not blur where \<open>a\<close> ends.\<close>

definition readable :: "json \<Rightarrow> bool" where
  "readable a \<longleftrightarrow> (\<forall>b r r'. dumps a @ r = dumps b @ r' \<longrightarrow> no_digit r \<longrightarrow> no_digit r' \<longrightarrow>
     a = b \<and> r = r')"

lemma readableD:
  "readable a \<Longrightarrow> dumps a @ r = dumps b @ r' \<Longrightarrow> no_digit r \<Longrightarrow> no_digit r' \<Longrightarrow> a = b \<and> r = r'"
  by (simp add: readable_def)

lemma readableI:
  "(\<And>b r r'. dumps a @ r = dumps b @ r' \<Longrightarrow> kind_of a = kind_of b \<Longrightarrow> no_digit r \<Longrightarrow> no_digit r' \<Longrightarrow>
     a = b \<and> r = r') \<Longrightarrow> readable a"
  unfolding readable_def using dumps_kind by blast

lemma readable_list:
  assumes "\<And>x. x \<in> set xs \<Longrightarrow> readable x"
  shows "readable (JList xs)"
proof (rule readableI)
  fix b r r'
  assume eq: "dumps (JList xs) @ r = dumps b @ r'" and "kind_of (JList xs) = kind_of b"
  then obtain ys where b: "b = JList ys" by (auto simp: kind_simps eq_commute [of KList])
  have eq': "join_with '','' (map dumps xs) @ CHR '']'' # r = join_with '','' (map dumps ys) @ CHR '']'' # r'"
    using eq unfolding b by simp
  have head: "\<exists>c s. dumps x = c # s \<and> c \<noteq> CHR '']''" for x
    using dumps_head [of x] by blast
  have "xs = ys \<and> r = r'"
    by (rule join_unique [OF _ head _ eq']) (use assms readableD in blast, simp)
  then show "JList xs = b \<and> r = r'" by (simp add: b)
qed

lemma pair_unique:
  assumes "readable (snd p)" "dump_pair p @ s = dump_pair q @ s'" "no_digit s" "no_digit s'"
  shows "p = q \<and> s = s'"
proof -
  have "dump_str (fst p) @ (CHR '':'' # dumps (snd p) @ s) = dump_str (fst q) @ (CHR '':'' # dumps (snd q) @ s')"
    using assms(2) by (simp add: dump_pair_def)
  from dump_str_unique [OF this] have k: "fst p = fst q" "dumps (snd p) @ s = dumps (snd q) @ s'"
    by simp_all
  from readableD [OF assms(1) k(2) assms(3,4)] k show ?thesis by (simp add: prod_eq_iff)
qed

lemma readable_obj:
  assumes "\<And>p. p \<in> set ps \<Longrightarrow> readable (snd p)"
  shows "readable (JObj ps)"
proof (rule readableI)
  fix b r r'
  assume eq: "dumps (JObj ps) @ r = dumps b @ r'" and "kind_of (JObj ps) = kind_of b"
  then obtain qs where b: "b = JObj qs" by (auto simp: kind_simps eq_commute [of KObj])
  have eq': "join_with '','' (map dump_pair ps) @ CHR ''}'' # r = join_with '','' (map dump_pair qs) @ CHR ''}'' # r'"
    using eq unfolding b dumps_JObj by simp
  have head: "\<exists>c s. dump_pair x = c # s \<and> c \<noteq> CHR ''}''" for x
    using dump_str_head [of "fst x"] by (auto simp: dump_pair_def)
  have "ps = qs \<and> r = r'"
    by (rule join_unique [OF _ head _ eq']) (use assms pair_unique in blast, simp)
  then show "JObj ps = b \<and> r = r'" by (simp add: b)
qed

lemma all_readable: "readable a"
proof (induction a)
  case (JInt n)
  show ?case
  proof (rule readableI)
    fix b r r'
    assume eq: "dumps (JInt n) @ r = dumps b @ r'" "kind_of (JInt n) = kind_of b" "no_digit r" "no_digit r'"
    then obtain m where "b = JInt m" by (auto simp: kind_simps eq_commute [of KInt])
    with eq int_str_unique [of n r m r'] show "JInt n = b \<and> r = r'" by simp
  qed
next
  case (JStr s)
  show ?case
  proof (rule readableI)
    fix b r r'
    assume eq: "dumps (JStr s) @ r = dumps b @ r'" "kind_of (JStr s) = kind_of b"
    then obtain t where "b = JStr t" by (auto simp: kind_simps eq_commute [of KStr])
    with eq dump_str_unique [of s r t r'] show "JStr s = b \<and> r = r'" by simp
  qed
next
  case (JList xs)
  then show ?case by (rule readable_list)
next
  case (JObj ps)
  show ?case
  proof (rule readable_obj)
    fix p assume "p \<in> set ps"
    then show "readable (snd p)" using JObj [of p "snd p"] by (simp add: snds.simps)
  qed
qed (rule readableI; auto simp: kind_simps eq_commute [of KNull] eq_commute [of KTrue] eq_commute [of KFalse] split: if_splits)+

lemma dumps_inject: "dumps a = dumps b \<longleftrightarrow> a = b"
  using readableD [OF all_readable, of a "[]" b "[]"] by auto

section \<open>Canonical text\<close>

lemma canonical_eq_iff: "canonical a = canonical b \<longleftrightarrow> sort_keys a = sort_keys b"
  by (simp add: canonical_def dumps_inject)

text \<open>An object's field.\<close>

fun json_get :: "json \<Rightarrow> string \<Rightarrow> json option" where
  "json_get (JObj ps) k = map_of ps k"
| "json_get _ k = None"

lemma map_of_sort_key:
  assumes "distinct (map fst ps)"
  shows "map_of (sort_key fst ps) = map_of ps"
proof (rule map_of_inject_set [THEN iffD2])
  show "distinct (map fst (sort_key fst ps))"
    using assms by (simp add: distinct_map)
qed (use assms in simp_all)

lemma map_of_map_prod: "map_of (map (map_prod id f) ps) k = map_option f (map_of ps k)"
  by (induction ps) auto

lemma json_get_sort_keys:
  assumes "distinct (map fst ps)"
  shows "json_get (sort_keys (JObj ps)) k = map_option sort_keys (map_of ps k)"
proof -
  have "distinct (map fst (map (map_prod id sort_keys) ps))"
    using assms by (simp add: comp_def)
  then show ?thesis by (simp add: map_of_sort_key map_of_map_prod)
qed

text \<open>
  Encodings of typed values: \<open>faithful f\<close> says the canonical text of \<open>f x\<close> determines \<open>x\<close>.
  The combinators below are the encodings of optional values, lists and objects.
\<close>

definition faithful :: "('a \<Rightarrow> json) \<Rightarrow> bool" where
  "faithful f \<longleftrightarrow> (\<forall>x y. sort_keys (f x) = sort_keys (f y) \<longrightarrow> x = y)"

named_theorems faithful_rules "encodings whose canonical text determines the value"

lemma faithfulD: "faithful f \<Longrightarrow> sort_keys (f x) = sort_keys (f y) \<Longrightarrow> x = y"
  by (simp add: faithful_def)

lemma faithful_canonical: "faithful f \<Longrightarrow> canonical (f x) = canonical (f y) \<longleftrightarrow> x = y"
  by (auto simp: canonical_eq_iff faithful_def)

lemma faithful_basic [faithful_rules]: "faithful JStr" "faithful JBool" "faithful JInt"
  by (simp_all add: faithful_def)

lemma faithful_nat [faithful_rules]: "faithful (\<lambda>n. JInt (int n))"
  by (simp add: faithful_def)

definition opt_json :: "('a \<Rightarrow> json) \<Rightarrow> 'a option \<Rightarrow> json" where
  "opt_json f x = (case x of None \<Rightarrow> JNull | Some y \<Rightarrow> f y)"

definition list_json :: "('a \<Rightarrow> json) \<Rightarrow> 'a list \<Rightarrow> json" where
  "list_json f xs = JList (map f xs)"

lemma faithful_list [faithful_rules]:
  assumes "faithful f"
  shows "faithful (list_json f)"
proof -
  have "inj (\<lambda>x. sort_keys (f x))"
    using assms by (simp add: faithful_def inj_def)
  then have "inj (map (\<lambda>x. sort_keys (f x)))" by (rule inj_mapI)
  then show ?thesis by (simp add: faithful_def list_json_def comp_def inj_def)
qed

lemma faithful_opt [faithful_rules]:
  assumes "faithful f" and "\<And>x. f x \<noteq> JNull"
  shows "faithful (opt_json f)"
proof -
  have "sort_keys j = JNull \<longleftrightarrow> j = JNull" for j by (cases j) simp_all
  then show ?thesis
    using assms by (auto simp: faithful_def opt_json_def eq_commute [of JNull] split: option.splits)
qed

lemma faithful_comp: "faithful f \<Longrightarrow> inj g \<Longrightarrow> faithful (\<lambda>x. f (g x))"
  by (auto simp: faithful_def inj_def)

text \<open>Two objects with the same canonical text agree on every field.\<close>

lemma obj_field_eq:
  assumes "sort_keys (JObj ps) = sort_keys (JObj qs)"
    and "distinct (map fst ps)" "distinct (map fst qs)"
    and "map_of ps k = Some (f x)" "map_of qs k = Some (f y)" and "faithful f"
  shows "x = y"
proof -
  have "json_get (sort_keys (JObj ps)) k = json_get (sort_keys (JObj qs)) k"
    by (simp only: assms(1))
  then have "sort_keys (f x) = sort_keys (f y)"
    by (simp only: json_get_sort_keys [OF assms(2)] json_get_sort_keys [OF assms(3)] assms(4,5) option.map option.inject)
  with assms(6) show ?thesis by (rule faithfulD)
qed

section \<open>Dictionaries of strings\<close>

definition dict_json :: "dict \<Rightarrow> json" where
  "dict_json d = JObj (map (map_prod id JStr) d)"

lemma dict_json_get:
  "dict_ok d \<Longrightarrow> json_get (sort_keys (dict_json d)) k = map_option JStr (map_of d k)"
  unfolding dict_json_def
  by (subst json_get_sort_keys)
     (simp_all add: dict_ok_def comp_def map_of_map_prod option.map_comp cong: option.map_cong)

text \<open>The canonical text of a dictionary is the text of its content.\<close>

lemma canonical_dict_eq:
  assumes "dict_ok d" "dict_ok e" "canonical (dict_json d) = canonical (dict_json e)"
  shows "map_of d = map_of e"
proof
  fix k
  have "map_option JStr (map_of d k) = map_option JStr (map_of e k)"
    using assms by (metis canonical_eq_iff dict_json_get)
  then show "map_of d k = map_of e k"
    by (cases "map_of d k"; cases "map_of e k") simp_all
qed

end
