(* ===== verification/Labels.thy ===== *)
theory Labels
  imports Json
begin

text \<open>
  The string enums of \<open>src/swarm/schema.py\<close> and their lenient reading. Each \<open>StrEnum\<close> is a
  datatype with the source's members (prefixed where two enums share a member name), a
  \<open>_value\<close> function that gives the member's string, and the list of members in source order.
  \<open>norm_label\<close> is \<open>_norm\<close>, \<open>lenient\<close> the coercion \<open>_lenient\<close>. The locale \<open>label_enum\<close> is what
  the lenient reading relies on; it is interpreted for every enum.
\<close>

section \<open>Lenient labels\<close>

text \<open>\<open>re.sub(r"[\s_\-/]+", " ", value).strip().lower()\<close>\<close>

definition is_separator :: "char \<Rightarrow> bool" where
  "is_separator c \<longleftrightarrow> is_space c \<or> c = CHR ''_'' \<or> c = CHR ''-'' \<or> c = CHR ''/''"

definition norm_label :: "string \<Rightarrow> string" where
  "norm_label v = lower (join_with '' '' (py_split (map (\<lambda>c. if is_separator c then CHR '' '' else c) v)))"

definition lenient :: "('m \<Rightarrow> string) \<Rightarrow> 'm list \<Rightarrow> string \<Rightarrow> 'm option" where
  "lenient val members v = find (\<lambda>m. norm_label (val m) = norm_label v) members"

text \<open>\<open>EnumClass(value)\<close>: the member with exactly this value, or \<open>ValueError\<close> (None).\<close>

definition by_value :: "('m \<Rightarrow> string) \<Rightarrow> 'm list \<Rightarrow> string \<Rightarrow> 'm option" where
  "by_value val members v = find (\<lambda>m. val m = v) members"

lemmas norm_simps = norm_label_def is_separator_def is_space_def lower_char_def Let_def

text \<open>\<open>_lenient_int\<close> on a string: the first run of digits, or None.\<close>

definition lenient_int :: "string \<Rightarrow> nat option" where
  "lenient_int v = (let ds = takeWhile is_digit (dropWhile (\<lambda>c. \<not> is_digit c) v)
     in if ds = [] then None else Some (str_nat ds))"

locale label_enum =
  fixes val :: "'m \<Rightarrow> string" and members :: "'m list"
  assumes all_members: "x \<in> set members"
    and labels_distinct: "distinct (map (\<lambda>x. norm_label (val x)) members)"
begin

lemma distinct_labels: "norm_label (val x) = norm_label (val y) \<Longrightarrow> x = y"
  using labels_distinct all_members by (auto simp: distinct_map inj_on_def)

lemma val_inject: "val x = val y \<longleftrightarrow> x = y"
  using distinct_labels by metis

lemma lenient_eq_iff: "lenient val members v = Some x \<longleftrightarrow> norm_label (val x) = norm_label v"
proof
  assume "lenient val members v = Some x"
  then show "norm_label (val x) = norm_label v"
    by (auto simp: lenient_def find_Some_iff)
next
  assume eq: "norm_label (val x) = norm_label v"
  then have "find (\<lambda>m. norm_label (val m) = norm_label v) members \<noteq> None"
    using all_members [of x] by (auto simp: find_None_iff)
  then obtain y where "find (\<lambda>m. norm_label (val m) = norm_label v) members = Some y"
    by blast
  moreover from this have "norm_label (val y) = norm_label (val x)"
    using eq by (auto simp: find_Some_iff)
  ultimately show "lenient val members v = Some x"
    using distinct_labels by (auto simp: lenient_def)
qed

lemma lenient_val: "lenient val members (val x) = Some x"
  by (simp add: lenient_eq_iff)

lemma by_value_eq_iff: "by_value val members v = Some x \<longleftrightarrow> val x = v"
proof
  assume "by_value val members v = Some x"
  then show "val x = v" by (auto simp: by_value_def find_Some_iff)
next
  assume v: "val x = v"
  then have "by_value val members v \<noteq> None"
    using all_members [of x] by (auto simp: by_value_def find_None_iff)
  then obtain y where y: "by_value val members v = Some y" by blast
  then have "val y = v" by (auto simp: by_value_def find_Some_iff)
  with v y show "by_value val members v = Some x" using val_inject by metis
qed

lemma by_value_val: "by_value val members (val x) = Some x"
  by (simp add: by_value_eq_iff)

lemma faithful_val: "faithful (\<lambda>x. JStr (val x))"
  by (simp add: faithful_def val_inject)

end

section \<open>The enums\<close>

datatype risk_rating = RATING_LOW | RATING_MEDIUM | RATING_HIGH

fun rating_value :: "risk_rating \<Rightarrow> string" where
  "rating_value RATING_LOW = ''Low''"
| "rating_value RATING_MEDIUM = ''Medium''"
| "rating_value RATING_HIGH = ''High''"

definition all_rating :: "risk_rating list" where
  "all_rating = [RATING_LOW, RATING_MEDIUM, RATING_HIGH]"

datatype control_frequency =
    ANNUAL
  | QUARTERLY
  | MONTHLY
  | WEEKLY
  | DAILY
  | MULTIPLE_TIMES_PER_DAY
  | EVENT_DRIVEN
  | CONTINUOUS

fun frequency_value :: "control_frequency \<Rightarrow> string" where
  "frequency_value ANNUAL = ''Annual''"
| "frequency_value QUARTERLY = ''Quarterly''"
| "frequency_value MONTHLY = ''Monthly''"
| "frequency_value WEEKLY = ''Weekly''"
| "frequency_value DAILY = ''Daily''"
| "frequency_value MULTIPLE_TIMES_PER_DAY = ''Multiple times per day''"
| "frequency_value EVENT_DRIVEN = ''Event-driven''"
| "frequency_value CONTINUOUS = ''Continuous''"

definition all_frequency :: "control_frequency list" where
  "all_frequency = [ANNUAL, QUARTERLY, MONTHLY, WEEKLY,
     DAILY, MULTIPLE_TIMES_PER_DAY, EVENT_DRIVEN, CONTINUOUS]"

datatype control_nature = MANUAL | AUTOMATED | IT_DEPENDENT_MANUAL

fun nature_value :: "control_nature \<Rightarrow> string" where
  "nature_value MANUAL = ''Manual''"
| "nature_value AUTOMATED = ''Automated''"
| "nature_value IT_DEPENDENT_MANUAL = ''IT-dependent manual''"

definition all_nature :: "control_nature list" where
  "all_nature = [MANUAL, AUTOMATED, IT_DEPENDENT_MANUAL]"

datatype control_type = PREVENTIVE | DETECTIVE

fun ctype_value :: "control_type \<Rightarrow> string" where
  "ctype_value PREVENTIVE = ''Preventive''"
| "ctype_value DETECTIVE = ''Detective''"

definition all_ctype :: "control_type list" where
  "all_ctype = [PREVENTIVE, DETECTIVE]"

datatype sampling_method =
    TEST_OF_ONE
  | RANDOM
  | SYSTEMATIC
  | HAPHAZARD
  | JUDGMENTAL
  | FULL_POPULATION
  | NOT_APPLICABLE

fun sampling_value :: "sampling_method \<Rightarrow> string" where
  "sampling_value TEST_OF_ONE = ''Test of one''"
| "sampling_value RANDOM = ''Random''"
| "sampling_value SYSTEMATIC = ''Systematic''"
| "sampling_value HAPHAZARD = ''Haphazard''"
| "sampling_value JUDGMENTAL = ''Judgmental''"
| "sampling_value FULL_POPULATION = ''Full population''"
| "sampling_value NOT_APPLICABLE = ''Not applicable''"

definition all_sampling :: "sampling_method list" where
  "all_sampling = [TEST_OF_ONE, RANDOM, SYSTEMATIC,
     HAPHAZARD, JUDGMENTAL, FULL_POPULATION, NOT_APPLICABLE]"

datatype design_conclusion = TOD_EFFECTIVE | TOD_INEFFECTIVE | TOD_NOT_TESTED

fun tod_value :: "design_conclusion \<Rightarrow> string" where
  "tod_value TOD_EFFECTIVE = ''Effective''"
| "tod_value TOD_INEFFECTIVE = ''Ineffective''"
| "tod_value TOD_NOT_TESTED = ''Not tested''"

definition all_tod :: "design_conclusion list" where
  "all_tod = [TOD_EFFECTIVE, TOD_INEFFECTIVE, TOD_NOT_TESTED]"

datatype operating_conclusion =
    TOE_EFFECTIVE
  | TOE_EXCEPTIONS_NOTED
  | TOE_INEFFECTIVE
  | TOE_NOT_TESTED

fun toe_value :: "operating_conclusion \<Rightarrow> string" where
  "toe_value TOE_EFFECTIVE = ''Effective''"
| "toe_value TOE_EXCEPTIONS_NOTED = ''Exceptions noted''"
| "toe_value TOE_INEFFECTIVE = ''Ineffective''"
| "toe_value TOE_NOT_TESTED = ''Not tested''"

definition all_toe :: "operating_conclusion list" where
  "all_toe = [TOE_EFFECTIVE, TOE_EXCEPTIONS_NOTED, TOE_INEFFECTIVE, TOE_NOT_TESTED]"

datatype finding_result = NO_EXCEPTION | EXCEPTION | NOT_TESTED

fun result_value :: "finding_result \<Rightarrow> string" where
  "result_value NO_EXCEPTION = ''No exception''"
| "result_value EXCEPTION = ''Exception''"
| "result_value NOT_TESTED = ''Not tested''"

definition all_result :: "finding_result list" where
  "all_result = [NO_EXCEPTION, EXCEPTION, NOT_TESTED]"

datatype deficiency_scale = ICFR | RISK_RATING

fun scale_value :: "deficiency_scale \<Rightarrow> string" where
  "scale_value ICFR = ''ICFR deficiency scale''"
| "scale_value RISK_RATING = ''Risk rating''"

definition all_scale :: "deficiency_scale list" where
  "all_scale = [ICFR, RISK_RATING]"

datatype deficiency_classification =
    CONTROL_DEFICIENCY
  | SIGNIFICANT_DEFICIENCY
  | MATERIAL_WEAKNESS
  | CLASS_LOW
  | CLASS_MEDIUM
  | CLASS_HIGH
  | NOT_A_DEFICIENCY

fun classification_value :: "deficiency_classification \<Rightarrow> string" where
  "classification_value CONTROL_DEFICIENCY = ''Control Deficiency''"
| "classification_value SIGNIFICANT_DEFICIENCY = ''Significant Deficiency''"
| "classification_value MATERIAL_WEAKNESS = ''Material Weakness''"
| "classification_value CLASS_LOW = ''Low''"
| "classification_value CLASS_MEDIUM = ''Medium''"
| "classification_value CLASS_HIGH = ''High''"
| "classification_value NOT_A_DEFICIENCY = ''Not a deficiency''"

definition all_classification :: "deficiency_classification list" where
  "all_classification = [CONTROL_DEFICIENCY, SIGNIFICANT_DEFICIENCY, MATERIAL_WEAKNESS,
     CLASS_LOW, CLASS_MEDIUM, CLASS_HIGH, NOT_A_DEFICIENCY]"

datatype decision_type =
    SIGN_OFF
  | CHALLENGE
  | CLASSIFY
  | SCOPE_LIMITATION
  | WRITEUP
  | MANAGEMENT_RESPONSE
  | ENGAGEMENT_CONCLUSION
  | REMEDIATION_VERIFICATION

fun dtype_value :: "decision_type \<Rightarrow> string" where
  "dtype_value SIGN_OFF = ''sign_off''"
| "dtype_value CHALLENGE = ''challenge''"
| "dtype_value CLASSIFY = ''classify''"
| "dtype_value SCOPE_LIMITATION = ''scope_limitation''"
| "dtype_value WRITEUP = ''writeup''"
| "dtype_value MANAGEMENT_RESPONSE = ''management_response''"
| "dtype_value ENGAGEMENT_CONCLUSION = ''engagement_conclusion''"
| "dtype_value REMEDIATION_VERIFICATION = ''remediation_verification''"

definition all_dtype :: "decision_type list" where
  "all_dtype = [SIGN_OFF, CHALLENGE, CLASSIFY, SCOPE_LIMITATION,
     WRITEUP, MANAGEMENT_RESPONSE, ENGAGEMENT_CONCLUSION, REMEDIATION_VERIFICATION]"

datatype subject_type = FINDING | DEFICIENCY | ENGAGEMENT

fun stype_value :: "subject_type \<Rightarrow> string" where
  "stype_value FINDING = ''finding''"
| "stype_value DEFICIENCY = ''deficiency''"
| "stype_value ENGAGEMENT = ''engagement''"

definition all_stype :: "subject_type list" where
  "all_stype = [FINDING, DEFICIENCY, ENGAGEMENT]"

datatype identity_source = DECLARED | AUTHENTICATED

fun source_value :: "identity_source \<Rightarrow> string" where
  "source_value DECLARED = ''declared''"
| "source_value AUTHENTICATED = ''authenticated''"

definition all_source :: "identity_source list" where
  "all_source = [DECLARED, AUTHENTICATED]"

datatype engagement_rating = SATISFACTORY | NEEDS_IMPROVEMENT | UNSATISFACTORY

fun engagement_value :: "engagement_rating \<Rightarrow> string" where
  "engagement_value SATISFACTORY = ''Satisfactory''"
| "engagement_value NEEDS_IMPROVEMENT = ''Needs improvement''"
| "engagement_value UNSATISFACTORY = ''Unsatisfactory''"

definition all_engagement :: "engagement_rating list" where
  "all_engagement = [SATISFACTORY, NEEDS_IMPROVEMENT, UNSATISFACTORY]"

datatype management_agreement = AGREE | PARTIAL | DISAGREE

fun agreement_value :: "management_agreement \<Rightarrow> string" where
  "agreement_value AGREE = ''agree''"
| "agreement_value PARTIAL = ''partial''"
| "agreement_value DISAGREE = ''disagree''"

definition all_agreement :: "management_agreement list" where
  "all_agreement = [AGREE, PARTIAL, DISAGREE]"

datatype remediation_status = REMEDIATED | PARTIALLY_REMEDIATED | OPEN

fun remediation_value :: "remediation_status \<Rightarrow> string" where
  "remediation_value REMEDIATED = ''remediated''"
| "remediation_value PARTIALLY_REMEDIATED = ''partially_remediated''"
| "remediation_value OPEN = ''open''"

definition all_remediation :: "remediation_status list" where
  "all_remediation = [REMEDIATED, PARTIALLY_REMEDIATED, OPEN]"

lemma rating_value_inject [simp]: "rating_value x = rating_value y \<longleftrightarrow> x = y"
  by (cases x; cases y) simp_all

lemma frequency_value_inject [simp]: "frequency_value x = frequency_value y \<longleftrightarrow> x = y"
  by (cases x; cases y) simp_all

lemma nature_value_inject [simp]: "nature_value x = nature_value y \<longleftrightarrow> x = y"
  by (cases x; cases y) simp_all

lemma ctype_value_inject [simp]: "ctype_value x = ctype_value y \<longleftrightarrow> x = y"
  by (cases x; cases y) simp_all

lemma sampling_value_inject [simp]: "sampling_value x = sampling_value y \<longleftrightarrow> x = y"
  by (cases x; cases y) simp_all

lemma tod_value_inject [simp]: "tod_value x = tod_value y \<longleftrightarrow> x = y"
  by (cases x; cases y) simp_all

lemma toe_value_inject [simp]: "toe_value x = toe_value y \<longleftrightarrow> x = y"
  by (cases x; cases y) simp_all

lemma result_value_inject [simp]: "result_value x = result_value y \<longleftrightarrow> x = y"
  by (cases x; cases y) simp_all

lemma scale_value_inject [simp]: "scale_value x = scale_value y \<longleftrightarrow> x = y"
  by (cases x; cases y) simp_all

lemma classification_value_inject [simp]: "classification_value x = classification_value y \<longleftrightarrow> x = y"
  by (cases x; cases y) simp_all

lemma dtype_value_inject [simp]: "dtype_value x = dtype_value y \<longleftrightarrow> x = y"
  by (cases x; cases y) simp_all

lemma stype_value_inject [simp]: "stype_value x = stype_value y \<longleftrightarrow> x = y"
  by (cases x; cases y) simp_all

lemma source_value_inject [simp]: "source_value x = source_value y \<longleftrightarrow> x = y"
  by (cases x; cases y) simp_all

lemma engagement_value_inject [simp]: "engagement_value x = engagement_value y \<longleftrightarrow> x = y"
  by (cases x; cases y) simp_all

lemma agreement_value_inject [simp]: "agreement_value x = agreement_value y \<longleftrightarrow> x = y"
  by (cases x; cases y) simp_all

lemma remediation_value_inject [simp]: "remediation_value x = remediation_value y \<longleftrightarrow> x = y"
  by (cases x; cases y) simp_all

section \<open>Every enum reads back leniently\<close>

interpretation rating_label: label_enum rating_value all_rating
proof unfold_locales
  show "x \<in> set all_rating" for x :: risk_rating by (cases x) (simp_all add: all_rating_def)
qed (simp add: all_rating_def norm_simps)

interpretation frequency_label: label_enum frequency_value all_frequency
proof unfold_locales
  show "x \<in> set all_frequency" for x :: control_frequency by (cases x) (simp_all add: all_frequency_def)
qed (simp add: all_frequency_def norm_simps)

interpretation nature_label: label_enum nature_value all_nature
proof unfold_locales
  show "x \<in> set all_nature" for x :: control_nature by (cases x) (simp_all add: all_nature_def)
qed (simp add: all_nature_def norm_simps)

interpretation ctype_label: label_enum ctype_value all_ctype
proof unfold_locales
  show "x \<in> set all_ctype" for x :: control_type by (cases x) (simp_all add: all_ctype_def)
qed (simp add: all_ctype_def norm_simps)

interpretation sampling_label: label_enum sampling_value all_sampling
proof unfold_locales
  show "x \<in> set all_sampling" for x :: sampling_method by (cases x) (simp_all add: all_sampling_def)
qed (simp add: all_sampling_def norm_simps)

interpretation tod_label: label_enum tod_value all_tod
proof unfold_locales
  show "x \<in> set all_tod" for x :: design_conclusion by (cases x) (simp_all add: all_tod_def)
qed (simp add: all_tod_def norm_simps)

interpretation toe_label: label_enum toe_value all_toe
proof unfold_locales
  show "x \<in> set all_toe" for x :: operating_conclusion by (cases x) (simp_all add: all_toe_def)
qed (simp add: all_toe_def norm_simps)

interpretation result_label: label_enum result_value all_result
proof unfold_locales
  show "x \<in> set all_result" for x :: finding_result by (cases x) (simp_all add: all_result_def)
qed (simp add: all_result_def norm_simps)

interpretation scale_label: label_enum scale_value all_scale
proof unfold_locales
  show "x \<in> set all_scale" for x :: deficiency_scale by (cases x) (simp_all add: all_scale_def)
qed (simp add: all_scale_def norm_simps)

interpretation classification_label: label_enum classification_value all_classification
proof unfold_locales
  show "x \<in> set all_classification" for x :: deficiency_classification by (cases x) (simp_all add: all_classification_def)
qed (simp add: all_classification_def norm_simps)

interpretation dtype_label: label_enum dtype_value all_dtype
proof unfold_locales
  show "x \<in> set all_dtype" for x :: decision_type by (cases x) (simp_all add: all_dtype_def)
qed (simp add: all_dtype_def norm_simps)

interpretation stype_label: label_enum stype_value all_stype
proof unfold_locales
  show "x \<in> set all_stype" for x :: subject_type by (cases x) (simp_all add: all_stype_def)
qed (simp add: all_stype_def norm_simps)

interpretation source_label: label_enum source_value all_source
proof unfold_locales
  show "x \<in> set all_source" for x :: identity_source by (cases x) (simp_all add: all_source_def)
qed (simp add: all_source_def norm_simps)

interpretation engagement_label: label_enum engagement_value all_engagement
proof unfold_locales
  show "x \<in> set all_engagement" for x :: engagement_rating by (cases x) (simp_all add: all_engagement_def)
qed (simp add: all_engagement_def norm_simps)

interpretation agreement_label: label_enum agreement_value all_agreement
proof unfold_locales
  show "x \<in> set all_agreement" for x :: management_agreement by (cases x) (simp_all add: all_agreement_def)
qed (simp add: all_agreement_def norm_simps)

interpretation remediation_label: label_enum remediation_value all_remediation
proof unfold_locales
  show "x \<in> set all_remediation" for x :: remediation_status by (cases x) (simp_all add: all_remediation_def)
qed (simp add: all_remediation_def norm_simps)

lemmas faithful_enums [faithful_rules] =
  rating_label.faithful_val
  frequency_label.faithful_val
  nature_label.faithful_val
  ctype_label.faithful_val
  sampling_label.faithful_val
  tod_label.faithful_val
  toe_label.faithful_val
  result_label.faithful_val
  scale_label.faithful_val
  classification_label.faithful_val
  dtype_label.faithful_val
  stype_label.faithful_val
  source_label.faithful_val
  engagement_label.faithful_val
  agreement_label.faithful_val
  remediation_label.faithful_val

end
