(* ===== verification/Machine.thy ===== *)
theory Machine
  imports Prelude
begin

text \<open>
  The audit life cycle: \<open>src/swarm/state/machine.py\<close>.

  \<open>audit_status\<close> is the enum \<open>AuditStatus\<close>, \<open>transitions\<close> the table \<open>_TRANSITIONS\<close>, and
  the state of \<open>AuditStateMachine\<close> is its \<open>_status\<close>. Every named transition is a function
  from the current status to the new one or to \<open>InvalidTransitionError\<close>. The Python methods
  that take a phase number build the status from an f-string; every caller has checked the
  number against \<open>1..3\<close> first, so the model's phase is the type \<open>phase\<close> (\<open>phase_of_int\<close>
  is that check).
\<close>

section \<open>Phases\<close>

datatype phase = P1 | P2 | P3

fun phase_num :: "phase \<Rightarrow> nat" where
  "phase_num P1 = 1"
| "phase_num P2 = 2"
| "phase_num P3 = 3"

definition phase_of_int :: "int \<Rightarrow> phase option" where
  "phase_of_int n = (if n = 1 then Some P1 else if n = 2 then Some P2
     else if n = 3 then Some P3 else None)"

lemma phase_of_int_num [simp]: "phase_of_int (int (phase_num p)) = Some p"
  by (cases p) (simp_all add: phase_of_int_def)

lemma phase_num_inject: "phase_num p = phase_num q \<Longrightarrow> p = q"
  by (cases p; cases q) simp_all

instantiation phase :: linorder
begin

definition less_eq_phase :: "phase \<Rightarrow> phase \<Rightarrow> bool" where
  "less_eq_phase p q \<longleftrightarrow> phase_num p \<le> phase_num q"

definition less_phase :: "phase \<Rightarrow> phase \<Rightarrow> bool" where
  "less_phase p q \<longleftrightarrow> phase_num p < phase_num q"

instance
  by standard (auto simp: less_eq_phase_def less_phase_def intro: phase_num_inject)

end

section \<open>Statuses and the transition table\<close>

datatype audit_status =
    WAITING_FOR_SCOPE
  | RUNNING_PHASE phase
  | WAITING_HUMAN_GATE phase
  | QA_REJECTED_PHASE phase
  | ERROR_PHASE phase
  | COMPLETED

definition all_statuses :: "audit_status list" where
  "all_statuses = WAITING_FOR_SCOPE #
     concat (map (\<lambda>p. [RUNNING_PHASE p, WAITING_HUMAN_GATE p, QA_REJECTED_PHASE p, ERROR_PHASE p])
       [P1, P2, P3]) @ [COMPLETED]"

fun phase_digit :: "phase \<Rightarrow> string" where
  "phase_digit P1 = ''1''"
| "phase_digit P2 = ''2''"
| "phase_digit P3 = ''3''"

text \<open>\<open>AuditStatus.value\<close>, and \<open>AuditStatus(value)\<close>, which raises for any other string.\<close>

fun status_value :: "audit_status \<Rightarrow> string" where
  "status_value WAITING_FOR_SCOPE = ''WAITING_FOR_SCOPE''"
| "status_value (RUNNING_PHASE p) = ''RUNNING_PHASE_'' @ phase_digit p"
| "status_value (WAITING_HUMAN_GATE p) = ''WAITING_HUMAN_GATE_'' @ phase_digit p"
| "status_value (QA_REJECTED_PHASE p) = ''QA_REJECTED_PHASE_'' @ phase_digit p"
| "status_value (ERROR_PHASE p) = ''ERROR_PHASE_'' @ phase_digit p"
| "status_value COMPLETED = ''COMPLETED''"

definition status_of_value :: "string \<Rightarrow> audit_status option" where
  "status_of_value v = find (\<lambda>s. status_value s = v) all_statuses"

fun transitions :: "audit_status \<Rightarrow> audit_status list" where
  "transitions WAITING_FOR_SCOPE = [RUNNING_PHASE P1]"
| "transitions (RUNNING_PHASE P1) =
     [WAITING_HUMAN_GATE P1, QA_REJECTED_PHASE P1, ERROR_PHASE P1]"
| "transitions (WAITING_HUMAN_GATE P1) = [RUNNING_PHASE P2, RUNNING_PHASE P1]"
| "transitions (QA_REJECTED_PHASE P1) = [RUNNING_PHASE P1, WAITING_HUMAN_GATE P1]"
| "transitions (ERROR_PHASE P1) = [RUNNING_PHASE P1]"
| "transitions (RUNNING_PHASE P2) =
     [WAITING_HUMAN_GATE P2, QA_REJECTED_PHASE P2, ERROR_PHASE P2]"
| "transitions (WAITING_HUMAN_GATE P2) = [RUNNING_PHASE P3, RUNNING_PHASE P2]"
| "transitions (QA_REJECTED_PHASE P2) = [RUNNING_PHASE P2, WAITING_HUMAN_GATE P2]"
| "transitions (ERROR_PHASE P2) = [RUNNING_PHASE P2]"
| "transitions (RUNNING_PHASE P3) =
     [WAITING_HUMAN_GATE P3, QA_REJECTED_PHASE P3, ERROR_PHASE P3]"
| "transitions (WAITING_HUMAN_GATE P3) = [COMPLETED, RUNNING_PHASE P3]"
| "transitions (QA_REJECTED_PHASE P3) = [RUNNING_PHASE P3, WAITING_HUMAN_GATE P3]"
| "transitions (ERROR_PHASE P3) = [RUNNING_PHASE P3]"
| "transitions COMPLETED = []"

section \<open>The machine\<close>

datatype invalid_transition = InvalidTransitionError audit_status audit_status

definition can :: "audit_status \<Rightarrow> audit_status \<Rightarrow> audit_status list \<Rightarrow> bool" where
  "can current target sources \<longleftrightarrow>
     \<not> (sources \<noteq> [] \<and> current \<notin> set sources) \<and> target \<in> set (transitions current)"

definition transition ::
  "audit_status \<Rightarrow> audit_status \<Rightarrow> audit_status list \<Rightarrow> invalid_transition + audit_status" where
  "transition current target sources =
     (if \<not> can current target sources then Inl (InvalidTransitionError current target)
      else Inr target)"

definition complete_phase :: "phase \<Rightarrow> audit_status \<Rightarrow> invalid_transition + audit_status" where
  "complete_phase p s = transition s (WAITING_HUMAN_GATE p) [RUNNING_PHASE p]"

definition reject_phase :: "phase \<Rightarrow> audit_status \<Rightarrow> invalid_transition + audit_status" where
  "reject_phase p s = transition s (QA_REJECTED_PHASE p) [RUNNING_PHASE p]"

definition error_phase :: "phase \<Rightarrow> audit_status \<Rightarrow> invalid_transition + audit_status" where
  "error_phase p s = transition s (ERROR_PHASE p) [RUNNING_PHASE p]"

definition retry_phase :: "phase \<Rightarrow> audit_status \<Rightarrow> invalid_transition + audit_status" where
  "retry_phase p s = transition s (RUNNING_PHASE p) [QA_REJECTED_PHASE p, ERROR_PHASE p]"

definition return_for_rework :: "phase \<Rightarrow> audit_status \<Rightarrow> invalid_transition + audit_status" where
  "return_for_rework p s = transition s (RUNNING_PHASE p) [WAITING_HUMAN_GATE p]"

definition override_qa :: "phase \<Rightarrow> audit_status \<Rightarrow> invalid_transition + audit_status" where
  "override_qa p s = transition s (WAITING_HUMAN_GATE p) [QA_REJECTED_PHASE p]"

definition start_phase_1 :: "audit_status \<Rightarrow> invalid_transition + audit_status" where
  "start_phase_1 s = transition s (RUNNING_PHASE P1) [WAITING_FOR_SCOPE]"

definition approve_gate_1 :: "audit_status \<Rightarrow> invalid_transition + audit_status" where
  "approve_gate_1 s = transition s (RUNNING_PHASE P2) [WAITING_HUMAN_GATE P1]"

definition approve_gate_2 :: "audit_status \<Rightarrow> invalid_transition + audit_status" where
  "approve_gate_2 s = transition s (RUNNING_PHASE P3) [WAITING_HUMAN_GATE P2]"

definition approve_gate_3 :: "audit_status \<Rightarrow> invalid_transition + audit_status" where
  "approve_gate_3 s = transition s COMPLETED [WAITING_HUMAN_GATE P3]"

text \<open>The table \<open>{1: approve_gate_1, 2: approve_gate_2, 3: approve_gate_3}\<close> of the flow.\<close>

fun approve_gate :: "phase \<Rightarrow> audit_status \<Rightarrow> invalid_transition + audit_status" where
  "approve_gate P1 s = approve_gate_1 s"
| "approve_gate P2 s = approve_gate_2 s"
| "approve_gate P3 s = approve_gate_3 s"

lemmas machine_defs = can_def transition_def complete_phase_def reject_phase_def error_phase_def
  retry_phase_def return_for_rework_def override_qa_def start_phase_1_def approve_gate_1_def
  approve_gate_2_def approve_gate_3_def

text \<open>The methods of the class as one alphabet of operations.\<close>

datatype machine_op =
    StartPhase1
  | Complete phase
  | Reject phase
  | Fail phase
  | Retry phase
  | Return phase
  | Override phase
  | Approve phase

fun machine_step :: "audit_status \<Rightarrow> machine_op \<Rightarrow> invalid_transition + audit_status" where
  "machine_step s StartPhase1 = start_phase_1 s"
| "machine_step s (Complete p) = complete_phase p s"
| "machine_step s (Reject p) = reject_phase p s"
| "machine_step s (Fail p) = error_phase p s"
| "machine_step s (Retry p) = retry_phase p s"
| "machine_step s (Return p) = return_for_rework p s"
| "machine_step s (Override p) = override_qa p s"
| "machine_step s (Approve p) = approve_gate p s"

section \<open>The machine as a step relation\<close>

fun after_gate :: "phase \<Rightarrow> audit_status" where
  "after_gate P1 = RUNNING_PHASE P2"
| "after_gate P2 = RUNNING_PHASE P3"
| "after_gate P3 = COMPLETED"

text \<open>
  The life cycle stated without the table: what each operation does, from which statuses.
\<close>

inductive lifecycle :: "audit_status \<Rightarrow> machine_op \<Rightarrow> audit_status \<Rightarrow> bool" where
  start: "lifecycle WAITING_FOR_SCOPE StartPhase1 (RUNNING_PHASE P1)"
| complete: "lifecycle (RUNNING_PHASE p) (Complete p) (WAITING_HUMAN_GATE p)"
| reject: "lifecycle (RUNNING_PHASE p) (Reject p) (QA_REJECTED_PHASE p)"
| fail: "lifecycle (RUNNING_PHASE p) (Fail p) (ERROR_PHASE p)"
| retry_rejected: "lifecycle (QA_REJECTED_PHASE p) (Retry p) (RUNNING_PHASE p)"
| retry_failed: "lifecycle (ERROR_PHASE p) (Retry p) (RUNNING_PHASE p)"
| rework: "lifecycle (WAITING_HUMAN_GATE p) (Return p) (RUNNING_PHASE p)"
| override: "lifecycle (QA_REJECTED_PHASE p) (Override p) (WAITING_HUMAN_GATE p)"
| approve: "lifecycle (WAITING_HUMAN_GATE p) (Approve p) (after_gate p)"

inductive_cases lifecycle_startE: "lifecycle s StartPhase1 t"
inductive_cases lifecycle_completeE: "lifecycle s (Complete p) t"
inductive_cases lifecycle_rejectE: "lifecycle s (Reject p) t"
inductive_cases lifecycle_failE: "lifecycle s (Fail p) t"
inductive_cases lifecycle_retryE: "lifecycle s (Retry p) t"
inductive_cases lifecycle_returnE: "lifecycle s (Return p) t"
inductive_cases lifecycle_overrideE: "lifecycle s (Override p) t"
inductive_cases lifecycle_approveE: "lifecycle s (Approve p) t"

lemmas lifecycle_elims = lifecycle_startE lifecycle_completeE lifecycle_rejectE lifecycle_failE
  lifecycle_retryE lifecycle_returnE lifecycle_overrideE lifecycle_approveE

lemma phase_transitions [simp]:
  "set (transitions (RUNNING_PHASE p)) = {WAITING_HUMAN_GATE p, QA_REJECTED_PHASE p, ERROR_PHASE p}"
  "set (transitions (WAITING_HUMAN_GATE p)) = {after_gate p, RUNNING_PHASE p}"
  "set (transitions (QA_REJECTED_PHASE p)) = {RUNNING_PHASE p, WAITING_HUMAN_GATE p}"
  "set (transitions (ERROR_PHASE p)) = {RUNNING_PHASE p}"
  by (cases p; auto)+

lemma approve_gate_eq: "approve_gate p s = transition s (after_gate p) [WAITING_HUMAN_GATE p]"
  by (cases p) (simp_all add: machine_defs)

lemma machine_step_lifecycle: "machine_step s x = Inr t \<Longrightarrow> lifecycle s x t"
  by (cases x)
     (auto simp: machine_defs approve_gate_eq split: if_splits intro: lifecycle.intros)

lemma lifecycle_machine_step: "lifecycle s x t \<Longrightarrow> machine_step s x = Inr t"
  by (induction rule: lifecycle.induct) (simp_all add: machine_defs approve_gate_eq)

lemma machine_step_iff: "machine_step s x = Inr t \<longleftrightarrow> lifecycle s x t"
  using machine_step_lifecycle lifecycle_machine_step by blast

section \<open>Gates passed\<close>

text \<open>The gates a status implies have been approved, in order.\<close>

fun gates_before :: "phase \<Rightarrow> phase list" where
  "gates_before P1 = []"
| "gates_before P2 = [P1]"
| "gates_before P3 = [P1, P2]"

fun gates_passed :: "audit_status \<Rightarrow> phase list" where
  "gates_passed WAITING_FOR_SCOPE = []"
| "gates_passed (RUNNING_PHASE p) = gates_before p"
| "gates_passed (WAITING_HUMAN_GATE p) = gates_before p"
| "gates_passed (QA_REJECTED_PHASE p) = gates_before p"
| "gates_passed (ERROR_PHASE p) = gates_before p"
| "gates_passed COMPLETED = [P1, P2, P3]"

fun approvals :: "machine_op list \<Rightarrow> phase list" where
  "approvals [] = []"
| "approvals (Approve p # xs) = p # approvals xs"
| "approvals (x # xs) = approvals xs"

lemma approvals_Cons: "approvals (x # xs) = approvals [x] @ approvals xs"
  by (cases x) simp_all

lemma gates_after [simp]: "gates_passed (after_gate p) = gates_before p @ [p]"
  by (cases p) simp_all

lemma lifecycle_gates: "lifecycle s x t \<Longrightarrow> gates_passed t = gates_passed s @ approvals [x]"
  by (induction rule: lifecycle.induct) simp_all

lemma run_gates:
  "gates_passed (attempts machine_step s xs) = gates_passed s @ approvals (accepted machine_step s xs)"
proof (induction xs arbitrary: s)
  case Nil
  then show ?case by simp
next
  case (Cons x xs)
  show ?case
  proof (cases "machine_step s x")
    case (Inl e)
    then show ?thesis using Cons by (simp add: attempt_def)
  next
    case (Inr t)
    then have "gates_passed t = gates_passed s @ approvals [x]"
      by (simp add: machine_step_iff lifecycle_gates)
    then show ?thesis
      using Cons [of t] Inr by (simp add: attempt_def approvals_Cons [of x "accepted machine_step t xs"])
  qed
qed

text \<open>The length of \<open>gates_passed\<close> never goes down, so a phase is never re-entered later.\<close>

interpretation lifecycle_run: monotone_run machine_step "\<lambda>_. True" "\<lambda>s. length (gates_passed s)"
  by unfold_locales (auto simp: machine_step_iff dest!: lifecycle_gates)

lemma status_of_value_value [simp]: "status_of_value (status_value s) = Some s"
proof (cases s)
  case (RUNNING_PHASE p)
  then show ?thesis by (cases p) (simp_all add: status_of_value_def all_statuses_def)
next
  case (WAITING_HUMAN_GATE p)
  then show ?thesis by (cases p) (simp_all add: status_of_value_def all_statuses_def)
next
  case (QA_REJECTED_PHASE p)
  then show ?thesis by (cases p) (simp_all add: status_of_value_def all_statuses_def)
next
  case (ERROR_PHASE p)
  then show ?thesis by (cases p) (simp_all add: status_of_value_def all_statuses_def)
qed (simp_all add: status_of_value_def all_statuses_def)

lemma status_value_inject [simp]: "status_value s = status_value t \<longleftrightarrow> s = t"
  by (metis option.inject status_of_value_value)

lemma status_of_value_Some: "status_of_value v = Some s \<Longrightarrow> status_value s = v"
  by (auto simp: status_of_value_def find_Some_iff)

section \<open>Properties\<close>

text \<open>The named transitions of the state machine do exactly what
  the life cycle says, and together they realise exactly the transition table: an operation
  takes status \<open>s\<close> to \<open>t\<close> if and only if the life cycle has that step, and some operation
  leads from \<open>s\<close> to \<open>t\<close> if and only if \<open>t\<close> is in the table's entry for \<open>s\<close>. So no table
  entry is dead and no method bypasses the table.\<close>
lemma machine_refines_lifecycle:
  "(machine_step s x = Inr t \<longleftrightarrow> lifecycle s x t) \<and>
   ((\<exists>y. machine_step s y = Inr t) \<longleftrightarrow> t \<in> set (transitions s))"
proof -
  have "t \<in> set (transitions s) \<Longrightarrow> \<exists>y. lifecycle s y t"
    by (cases s) (auto intro: lifecycle.intros)
  moreover have "lifecycle s y t \<Longrightarrow> t \<in> set (transitions s)" for y
    by (induction rule: lifecycle.induct) simp_all
  ultimately show ?thesis by (auto simp: machine_step_iff)
qed

text \<open>C16. [gates_approved_in_order] No gate can be skipped, repeated or taken out of order:
  after any sequence of requests on a new audit (refused ones change nothing), the gate
  approvals that were accepted are exactly the gates the current status lies behind, in
  order. In particular a completed audit has had Gate 1, Gate 2 and Gate 3 approved, once
  each and in that order.\<close>
theorem gates_approved_in_order:
  "approvals (accepted machine_step WAITING_FOR_SCOPE xs) =
     gates_passed (attempts machine_step WAITING_FOR_SCOPE xs)"
  by (simp add: run_gates)

fun finish_from :: "phase \<Rightarrow> machine_op list" where
  "finish_from P1 = [Complete P1, Approve P1, Complete P2, Approve P2, Complete P3, Approve P3]"
| "finish_from P2 = [Complete P2, Approve P2, Complete P3, Approve P3]"
| "finish_from P3 = [Complete P3, Approve P3]"

fun finish :: "audit_status \<Rightarrow> machine_op list" where
  "finish WAITING_FOR_SCOPE = StartPhase1 # finish_from P1"
| "finish (RUNNING_PHASE p) = finish_from p"
| "finish (WAITING_HUMAN_GATE p) = tl (finish_from p)"
| "finish (QA_REJECTED_PHASE p) = Retry p # finish_from p"
| "finish (ERROR_PHASE p) = Retry p # finish_from p"
| "finish COMPLETED = []"

lemma finish_completes: "attempts machine_step s (finish s) = COMPLETED"
proof (cases s)
  case (RUNNING_PHASE p)
  then show ?thesis by (cases p) (simp_all add: attempt_def machine_defs)
next
  case (WAITING_HUMAN_GATE p)
  then show ?thesis by (cases p) (simp_all add: attempt_def machine_defs)
next
  case (QA_REJECTED_PHASE p)
  then show ?thesis by (cases p) (simp_all add: attempt_def machine_defs)
next
  case (ERROR_PHASE p)
  then show ?thesis by (cases p) (simp_all add: attempt_def machine_defs)
qed (simp_all add: attempt_def machine_defs)

text \<open>The life cycle has no dead end and one terminal status: from every
  status some sequence of operations completes the audit, and a completed audit accepts no
  operation at all.\<close>
lemma no_dead_end:
  "(\<exists>xs. attempts machine_step s xs = COMPLETED) \<and>
   \<not> (\<exists>x t. machine_step COMPLETED x = Inr t)"
proof -
  have "\<not> lifecycle COMPLETED x t" for x t
    by (auto elim: lifecycle.cases)
  then show ?thesis using finish_completes [of s] by (auto simp: machine_step_iff)
qed

end
