(* ===== verification/Schema.thy ===== *)
theory Schema
  imports Labels Machine
begin

text \<open>
  The artifacts of an audit: \<open>src/swarm/schema.py\<close>. A Pydantic model is a record with the
  source's fields (prefixed by the model: \<open>f_\<close> finding, \<open>c_\<close> control, \<open>t_\<close> control testing,
  \<open>r_\<close> risk, \<open>e_\<close> deficiency evaluation, \<open>rp_\<close> final report, \<open>o_\<close> OSCAL observation, result and
  report, \<open>d_\<close> reviewer decision). The model's own validators are functions that return the
  validated record or the error they raise; Pydantic's field coercion itself is not modelled
  (a record is what it hands to the \<open>mode="after"\<close> validators). \<open>..._json\<close> is
  \<open>model_dump(mode="json")\<close>; \<open>faithful\<close> says nothing of the artifact is missing from it.
\<close>

section \<open>Planning: the risk and control matrix\<close>

record test_step =
  step_description :: string
  expected_result :: string

record population =
  p_source :: string
  completeness_procedure :: string

text \<open>The \<open>mode="before"\<close> validator of \<open>Population\<close>: a bare string is its source.\<close>

definition population_of_string :: "string \<Rightarrow> population" where
  "population_of_string s = \<lparr>p_source = s, completeness_procedure = ''Not specified''\<rparr>"

record control_testing =
  test_of_design :: "test_step list"
  test_of_effectiveness :: "test_step list"
  substantive_testing :: "test_step list option"
  t_population :: "population option"
  sample_size :: "nat option"
  t_sampling_method :: "sampling_method option"
  period_of_reliance :: "string option"

record control =
  c_control_id :: string
  c_description :: string
  control_owner :: "string option"
  frequency :: "control_frequency option"
  nature :: "control_nature option"
  c_control_type :: "control_type option"
  key_control :: "bool option"
  assertions :: "string list"
  ipe :: "string list"
  testing_procedures :: control_testing

record risk =
  r_risk_id :: string
  r_description :: string
  r_likelihood :: "risk_rating option"
  impact :: "risk_rating option"
  rating_rationale :: "string option"
  regulatory_mapping :: "string list"
  controls :: "control list"

record racm =
  rm_theme :: string
  risks :: "risk list"

record qa_pushback =
  qa_approved :: bool
  rejection_reason :: "string option"

section \<open>Fieldwork: working papers\<close>

text \<open>\<open>_derive_result\<close>; \<open>(exceptions or 0) > 0\<close>\<close>

definition or_zero :: "nat option \<Rightarrow> nat" where
  "or_zero n = (case n of None \<Rightarrow> 0 | Some k \<Rightarrow> k)"

definition derive_result ::
  "design_conclusion \<Rightarrow> operating_conclusion \<Rightarrow> nat option \<Rightarrow> finding_result" where
  "derive_result tod toe exceptions =
     (if tod = TOD_INEFFECTIVE \<or> toe \<in> {TOE_EXCEPTIONS_NOTED, TOE_INEFFECTIVE} \<or> or_zero exceptions > 0
      then EXCEPTION
      else if tod = TOD_NOT_TESTED \<and> toe = TOE_NOT_TESTED then NOT_TESTED
      else NO_EXCEPTION)"

record finding =
  f_control_id :: string
  vault_id_reference :: string
  exact_quote :: string
  tod_conclusion :: design_conclusion
  toe_conclusion :: operating_conclusion
  toe_basis :: "string option"
  items_tested :: "nat option"
  exceptions_noted :: "nat option"
  f_result :: "finding_result option"
  preliminary_deficiency :: "bool option"
  test_conclusion :: string
  legacy_severity :: "string option"

record working_papers =
  wp_theme :: string
  findings :: "finding list"

datatype schema_error =
    EffectiveWithExceptions string nat
  | ResultContradicts string finding_result
  | DeficiencyNeedsException string
  | MissingEvidence string
  | MaterialWeaknessFloor string
  | MixedScales
  | StrayClassifications "deficiency_classification list" deficiency_scale

text \<open>
  \<open>AuditFindingSchema._consistent\<close>: check the conclusions against each other, fill in the
  result and the preliminary flag when they were omitted, and require evidence for a tested
  control.
\<close>

definition consistent :: "finding \<Rightarrow> schema_error + finding" where
  "consistent f =
     (let derived = derive_result (tod_conclusion f) (toe_conclusion f) (exceptions_noted f) in
      if toe_conclusion f = TOE_EFFECTIVE \<and> or_zero (exceptions_noted f) > 0
        then Inl (EffectiveWithExceptions (f_control_id f) (or_zero (exceptions_noted f)))
      else if f_result f \<noteq> None \<and> f_result f \<noteq> Some derived
        then Inl (ResultContradicts (f_control_id f) derived)
      else
        let f1 = f\<lparr>f_result := Some derived\<rparr> in
        if preliminary_deficiency f = Some True \<and> derived \<noteq> EXCEPTION
          then Inl (DeficiencyNeedsException (f_control_id f))
        else
          let f2 = (if preliminary_deficiency f = None
                    then f1\<lparr>preliminary_deficiency := Some (derived = EXCEPTION)\<rparr> else f1) in
          if derived \<noteq> NOT_TESTED \<and>
             \<not> (strip (exact_quote f) \<noteq> [] \<and> strip (vault_id_reference f) \<noteq> [])
            then Inl (MissingEvidence (f_control_id f))
          else Inr f2)"

text \<open>What the validator establishes.\<close>

definition finding_ok :: "finding \<Rightarrow> bool" where
  "finding_ok f \<longleftrightarrow>
     f_result f = Some (derive_result (tod_conclusion f) (toe_conclusion f) (exceptions_noted f)) \<and>
     \<not> (toe_conclusion f = TOE_EFFECTIVE \<and> or_zero (exceptions_noted f) > 0) \<and>
     preliminary_deficiency f \<noteq> None \<and>
     (preliminary_deficiency f = Some True \<longrightarrow> f_result f = Some EXCEPTION) \<and>
     (f_result f \<noteq> Some NOT_TESTED \<longrightarrow>
        strip (exact_quote f) \<noteq> [] \<and> strip (vault_id_reference f) \<noteq> [])"

definition papers_ok :: "working_papers \<Rightarrow> bool" where
  "papers_ok p \<longleftrightarrow> (\<forall>f\<in>set (findings p). finding_ok f)"

subsection \<open>Sessions from before the result split\<close>

text \<open>
  \<open>_migrate_legacy_severity\<close>: \<open>severity\<close> is the value popped from the stored finding (None
  for a JSON null), \<open>data\<close> the other fields.
\<close>

definition legacy_pass :: "string list" where
  "legacy_pass = [''pass'', ''passed'', ''effective'', ''no exception'']"

definition legacy_not_tested :: "string list" where
  "legacy_not_tested = [''not tested'', ''n/a'', ''not applicable'', ''none'', []]"

definition set_conclusions ::
  "design_conclusion \<Rightarrow> operating_conclusion \<Rightarrow> finding_result \<Rightarrow> bool \<Rightarrow>
   (string \<times> json) list \<Rightarrow> (string \<times> json) list" where
  "set_conclusions tod toe res prelim data = dict_update data
     [(''tod_conclusion'', JStr (tod_value tod)), (''toe_conclusion'', JStr (toe_value toe)),
      (''result'', JStr (result_value res)), (''preliminary_deficiency'', JBool prelim)]"

definition migrate_legacy_severity ::
  "string option \<Rightarrow> (string \<times> json) list \<Rightarrow> (string \<times> json) list" where
  "migrate_legacy_severity severity data =
     (if \<exists>k\<in>{''tod_conclusion'', ''toe_conclusion'', ''result''}. map_of data k \<noteq> None then data
      else
        let label = norm_label (case severity of None \<Rightarrow> [] | Some s \<Rightarrow> s);
            data1 = dict_set ''legacy_severity''
              (JStr (case severity of None \<Rightarrow> ''None'' | Some s \<Rightarrow> s)) data in
        if label \<in> set legacy_pass
          then set_conclusions TOD_EFFECTIVE TOE_EFFECTIVE NO_EXCEPTION False data1
        else if label \<in> set legacy_not_tested
          then set_conclusions TOD_NOT_TESTED TOE_NOT_TESTED NOT_TESTED False data1
        else set_conclusions TOD_NOT_TESTED TOE_INEFFECTIVE EXCEPTION True data1)"

section \<open>Reporting: deficiency evaluations and the final report\<close>

fun scale_classifications :: "deficiency_scale \<Rightarrow> deficiency_classification list" where
  "scale_classifications ICFR =
     [CONTROL_DEFICIENCY, SIGNIFICANT_DEFICIENCY, MATERIAL_WEAKNESS, NOT_A_DEFICIENCY]"
| "scale_classifications RISK_RATING = [CLASS_LOW, CLASS_MEDIUM, CLASS_HIGH, NOT_A_DEFICIENCY]"

record deficiency =
  deficiency_id :: string
  e_title :: string
  related_findings :: "string list"
  related_risks :: "string list"
  compensating_controls :: string
  likelihood :: risk_rating
  magnitude :: risk_rating
  classification :: deficiency_classification
  e_rationale :: string

definition material_weakness_ok :: "deficiency_classification \<Rightarrow> risk_rating \<Rightarrow> risk_rating \<Rightarrow> bool" where
  "material_weakness_ok cls lik mag \<longleftrightarrow>
     \<not> (cls = MATERIAL_WEAKNESS \<and> (lik = RATING_LOW \<or> mag \<noteq> RATING_HIGH))"

text \<open>\<open>DeficiencyEvaluationSchema._material_weakness_needs_magnitude\<close>\<close>

definition validate_deficiency :: "deficiency \<Rightarrow> schema_error + deficiency" where
  "validate_deficiency e =
     (if \<not> material_weakness_ok (classification e) (likelihood e) (magnitude e)
      then Inl (MaterialWeaknessFloor (deficiency_id e)) else Inr e)"

text \<open>
  \<open>_check_scale\<close>: the scale of a set of evaluations, inferred when it is unset and the
  classifications determine it.
\<close>

definition check_scale ::
  "deficiency_scale option \<Rightarrow> deficiency list \<Rightarrow> schema_error + deficiency_scale option" where
  "check_scale scale evaluations =
     (let used = map classification evaluations in
      case scale of
        None \<Rightarrow>
          (case filter (\<lambda>s. set used \<subseteq> set (scale_classifications s)) [ICFR, RISK_RATING] of
             [] \<Rightarrow> Inl MixedScales
           | [s] \<Rightarrow> Inr (Some s)
           | _ \<Rightarrow> Inr None)
      | Some s \<Rightarrow>
          (let stray = filter (\<lambda>c. c \<notin> set (scale_classifications s)) used in
           if stray \<noteq> [] then Inl (StrayClassifications stray s) else Inr (Some s)))"

record oscal_observation =
  observation_id :: string
  o_description :: string
  methods :: "string list"
  subjects :: "string list"
  relevant_evidence :: "string list"

record oscal_result =
  assessment_result_id :: string
  start_date :: string
  end_date :: string
  observations :: "oscal_observation list"

record oscal_metadata =
  o_title :: string
  last_modified :: string
  o_version :: string
  oscal_version :: string

record oscal_import_ap =
  import_href :: string
  import_remarks :: "string option"

record oscal_sar =
  o_metadata :: oscal_metadata
  o_import_ap :: oscal_import_ap
  o_results :: "oscal_result list"

record final_report =
  executive_summary :: string
  detailed_report :: string
  compliance_tone_approved :: bool
  deficiency_evaluations :: "deficiency list"
  rp_scale :: "deficiency_scale option"
  rp_oscal_sar :: "oscal_sar option"

text \<open>The field validator of \<open>FinalReportSchema.deficiency_scale\<close>.\<close>

definition validate_report :: "final_report \<Rightarrow> schema_error + final_report" where
  "validate_report r = bindE (check_scale (rp_scale r) (deficiency_evaluations r))
     (\<lambda>s. Inr (r\<lparr>rp_scale := s\<rparr>))"

definition report_ok :: "final_report \<Rightarrow> bool" where
  "report_ok r \<longleftrightarrow>
     (\<forall>e\<in>set (deficiency_evaluations r). material_weakness_ok (classification e) (likelihood e) (magnitude e)) \<and>
     (case rp_scale r of
        None \<Rightarrow> (\<forall>e\<in>set (deficiency_evaluations r). classification e = NOT_A_DEFICIENCY)
      | Some s \<Rightarrow> classification ` set (deficiency_evaluations r) \<subseteq> set (scale_classifications s))"

section \<open>Reviewer decisions\<close>

record review_decision =
  decision_id :: string
  d_phase :: phase
  d_artifact :: string
  draft_digest :: string
  d_subject_type :: subject_type
  subject_id :: string
  d_decision_type :: decision_type
  d_values :: dict
  rationale :: string
  decided_by :: string
  d_identity_source :: identity_source
  decided_at :: string
  supersedes :: "string option"

end
