(* ===== verification/Dump.thy ===== *)
theory Dump
  imports Schema
begin

text \<open>
  \<open>model_dump(mode="json")\<close> of the artifacts in \<open>src/swarm/schema.py\<close>: for each model the
  list of its fields in declaration order and the JSON object they make. \<open>faithful\<close> is proved
  for every model, so the canonical text of an artifact, which the trail hashes, leaves out
  nothing of it. \<open>artifact\<close> is what a gate approves.
\<close>

section \<open>Objects with a fixed list of fields\<close>

named_theorems faithful_iffs "equality of canonical encodings is equality of values"

lemma faithfulI:
  "(\<And>x y. sort_keys (f x) = sort_keys (f y) \<Longrightarrow> x = y) \<Longrightarrow> faithful f"
  by (simp add: faithful_def)

lemma faithful_eq: "faithful f \<Longrightarrow> sort_keys (f x) = sort_keys (f y) \<longleftrightarrow> x = y"
  by (auto simp: faithful_def)

lemma obj_fields_eq:
  assumes eq: "sort_keys (JObj ps) = sort_keys (JObj qs)"
    and keys: "map fst ps = map fst qs" "distinct (map fst ps)"
  shows "map (\<lambda>p. sort_keys (snd p)) ps = map (\<lambda>p. sort_keys (snd p)) qs"
proof (rule nth_equalityI)
  show len: "length (map (\<lambda>p. sort_keys (snd p)) ps) = length (map (\<lambda>p. sort_keys (snd p)) qs)"
    using map_eq_imp_length_eq [OF keys(1)] by simp
  fix i assume "i < length (map (\<lambda>p. sort_keys (snd p)) ps)"
  then have i: "i < length ps" "i < length qs" using len by simp_all
  obtain k where k: "fst (ps ! i) = k" "fst (qs ! i) = k"
    using keys(1) i by (metis nth_map)
  have "map_of ps k = Some (snd (ps ! i))" "map_of qs k = Some (snd (qs ! i))"
    using keys i k by (metis map_of_eq_Some_iff nth_mem prod.collapse)+
  moreover have "json_get (sort_keys (JObj ps)) k = json_get (sort_keys (JObj qs)) k"
    by (simp only: eq)
  moreover have "distinct (map fst qs)" using keys by simp
  ultimately show "map (\<lambda>p. sort_keys (snd p)) ps ! i = map (\<lambda>p. sort_keys (snd p)) qs ! i"
    using i keys(2) by (simp only: json_get_sort_keys nth_map option.map option.inject)
qed

lemmas basic_iffs [faithful_iffs] =
  faithful_list [OF faithful_basic(1), THEN faithful_eq]
  faithful_opt [OF faithful_basic(1) json.distinct(5) [symmetric], THEN faithful_eq]
  faithful_opt [OF faithful_basic(2) json.distinct(1) [symmetric], THEN faithful_eq]
  faithful_opt [OF faithful_nat json.distinct(3) [symmetric], THEN faithful_eq]

lemma list_json_shape [simp]: "list_json f xs \<noteq> JNull"
  by (simp add: list_json_def)

lemma faithful_opt_label:
  assumes "\<And>x y. val x = val y \<longleftrightarrow> x = y"
  shows "sort_keys (opt_json (\<lambda>v. JStr (val v)) x) = sort_keys (opt_json (\<lambda>v. JStr (val v)) y) \<longleftrightarrow> x = y"
  by (rule faithful_eq, rule faithful_opt) (simp_all add: faithful_def assms)

lemmas label_iffs [faithful_iffs] =
  faithful_opt_label [OF rating_value_inject] faithful_opt_label [OF frequency_value_inject]
  faithful_opt_label [OF nature_value_inject] faithful_opt_label [OF ctype_value_inject]
  faithful_opt_label [OF sampling_value_inject] faithful_opt_label [OF result_value_inject]
  faithful_opt_label [OF scale_value_inject]

section \<open>The models\<close>

definition test_step_fields :: "test_step \<Rightarrow> (string \<times> json) list" where
  "test_step_fields x =
     [(''step_description'', JStr (step_description x)),
      (''expected_result'', JStr (expected_result x))]"

definition test_step_json :: "test_step \<Rightarrow> json" where
  "test_step_json x = JObj (test_step_fields x)"

lemma test_step_json_shape [simp]: "test_step_json x \<noteq> JNull"
  by (simp add: test_step_json_def)

lemma faithful_test_step [faithful_rules]: "faithful test_step_json"
proof (rule faithfulI)
  fix x y :: test_step
  assume "sort_keys (test_step_json x) = sort_keys (test_step_json y)"
  then have "map (\<lambda>p. sort_keys (snd p)) (test_step_fields x) = map (\<lambda>p. sort_keys (snd p)) (test_step_fields y)"
    unfolding test_step_json_def by (rule obj_fields_eq) (simp_all add: test_step_fields_def)
  then show "x = y" by (simp add: test_step_fields_def faithful_iffs)
qed

lemmas test_step_iffs [faithful_iffs] = faithful_test_step [THEN faithful_eq]
  faithful_list [OF faithful_test_step, THEN faithful_eq]
  faithful_opt [OF faithful_test_step test_step_json_shape, THEN faithful_eq]

definition population_fields :: "population \<Rightarrow> (string \<times> json) list" where
  "population_fields x =
     [(''source'', JStr (p_source x)),
      (''completeness_procedure'', JStr (completeness_procedure x))]"

definition population_json :: "population \<Rightarrow> json" where
  "population_json x = JObj (population_fields x)"

lemma population_json_shape [simp]: "population_json x \<noteq> JNull"
  by (simp add: population_json_def)

lemma faithful_population [faithful_rules]: "faithful population_json"
proof (rule faithfulI)
  fix x y :: population
  assume "sort_keys (population_json x) = sort_keys (population_json y)"
  then have "map (\<lambda>p. sort_keys (snd p)) (population_fields x) = map (\<lambda>p. sort_keys (snd p)) (population_fields y)"
    unfolding population_json_def by (rule obj_fields_eq) (simp_all add: population_fields_def)
  then show "x = y" by (simp add: population_fields_def faithful_iffs)
qed

lemmas population_iffs [faithful_iffs] = faithful_population [THEN faithful_eq]
  faithful_list [OF faithful_population, THEN faithful_eq]
  faithful_opt [OF faithful_population population_json_shape, THEN faithful_eq]

definition control_testing_fields :: "control_testing \<Rightarrow> (string \<times> json) list" where
  "control_testing_fields x =
     [(''test_of_design'', list_json test_step_json (test_of_design x)),
      (''test_of_effectiveness'', list_json test_step_json (test_of_effectiveness x)),
      (''substantive_testing'', opt_json (list_json test_step_json) (substantive_testing x)),
      (''population'', opt_json population_json (t_population x)),
      (''sample_size'', opt_json (\<lambda>n. JInt (int n)) (sample_size x)),
      (''sampling_method'', opt_json (\<lambda>v. JStr (sampling_value v)) (t_sampling_method x)),
      (''period_of_reliance'', opt_json JStr (period_of_reliance x))]"

definition control_testing_json :: "control_testing \<Rightarrow> json" where
  "control_testing_json x = JObj (control_testing_fields x)"

lemmas test_step_list_iff [faithful_iffs] =
  faithful_opt [OF faithful_list [OF faithful_test_step] list_json_shape, THEN faithful_eq]

lemma control_testing_json_shape [simp]: "control_testing_json x \<noteq> JNull"
  by (simp add: control_testing_json_def)

lemma faithful_control_testing [faithful_rules]: "faithful control_testing_json"
proof (rule faithfulI)
  fix x y :: control_testing
  assume "sort_keys (control_testing_json x) = sort_keys (control_testing_json y)"
  then have "map (\<lambda>p. sort_keys (snd p)) (control_testing_fields x) = map (\<lambda>p. sort_keys (snd p)) (control_testing_fields y)"
    unfolding control_testing_json_def by (rule obj_fields_eq) (simp_all add: control_testing_fields_def)
  then show "x = y" by (simp add: control_testing_fields_def faithful_iffs)
qed

lemmas control_testing_iffs [faithful_iffs] = faithful_control_testing [THEN faithful_eq]
  faithful_list [OF faithful_control_testing, THEN faithful_eq]
  faithful_opt [OF faithful_control_testing control_testing_json_shape, THEN faithful_eq]

definition control_fields :: "control \<Rightarrow> (string \<times> json) list" where
  "control_fields x =
     [(''control_id'', JStr (c_control_id x)),
      (''description'', JStr (c_description x)),
      (''control_owner'', opt_json JStr (control_owner x)),
      (''frequency'', opt_json (\<lambda>v. JStr (frequency_value v)) (frequency x)),
      (''nature'', opt_json (\<lambda>v. JStr (nature_value v)) (nature x)),
      (''control_type'', opt_json (\<lambda>v. JStr (ctype_value v)) (c_control_type x)),
      (''key_control'', opt_json JBool (key_control x)),
      (''assertions'', list_json JStr (assertions x)),
      (''ipe'', list_json JStr (ipe x)),
      (''testing_procedures'', control_testing_json (testing_procedures x))]"

definition control_json :: "control \<Rightarrow> json" where
  "control_json x = JObj (control_fields x)"

lemma control_json_shape [simp]: "control_json x \<noteq> JNull"
  by (simp add: control_json_def)

lemma faithful_control [faithful_rules]: "faithful control_json"
proof (rule faithfulI)
  fix x y :: control
  assume "sort_keys (control_json x) = sort_keys (control_json y)"
  then have "map (\<lambda>p. sort_keys (snd p)) (control_fields x) = map (\<lambda>p. sort_keys (snd p)) (control_fields y)"
    unfolding control_json_def by (rule obj_fields_eq) (simp_all add: control_fields_def)
  then show "x = y" by (simp add: control_fields_def faithful_iffs)
qed

lemmas control_iffs [faithful_iffs] = faithful_control [THEN faithful_eq]
  faithful_list [OF faithful_control, THEN faithful_eq]
  faithful_opt [OF faithful_control control_json_shape, THEN faithful_eq]

definition risk_fields :: "risk \<Rightarrow> (string \<times> json) list" where
  "risk_fields x =
     [(''risk_id'', JStr (r_risk_id x)),
      (''description'', JStr (r_description x)),
      (''likelihood'', opt_json (\<lambda>v. JStr (rating_value v)) (r_likelihood x)),
      (''impact'', opt_json (\<lambda>v. JStr (rating_value v)) (impact x)),
      (''rating_rationale'', opt_json JStr (rating_rationale x)),
      (''regulatory_mapping'', list_json JStr (regulatory_mapping x)),
      (''controls'', list_json control_json (controls x))]"

definition risk_json :: "risk \<Rightarrow> json" where
  "risk_json x = JObj (risk_fields x)"

lemma risk_json_shape [simp]: "risk_json x \<noteq> JNull"
  by (simp add: risk_json_def)

lemma faithful_risk [faithful_rules]: "faithful risk_json"
proof (rule faithfulI)
  fix x y :: risk
  assume "sort_keys (risk_json x) = sort_keys (risk_json y)"
  then have "map (\<lambda>p. sort_keys (snd p)) (risk_fields x) = map (\<lambda>p. sort_keys (snd p)) (risk_fields y)"
    unfolding risk_json_def by (rule obj_fields_eq) (simp_all add: risk_fields_def)
  then show "x = y" by (simp add: risk_fields_def faithful_iffs)
qed

lemmas risk_iffs [faithful_iffs] = faithful_risk [THEN faithful_eq]
  faithful_list [OF faithful_risk, THEN faithful_eq]
  faithful_opt [OF faithful_risk risk_json_shape, THEN faithful_eq]

definition racm_fields :: "racm \<Rightarrow> (string \<times> json) list" where
  "racm_fields x =
     [(''theme'', JStr (rm_theme x)),
      (''risks'', list_json risk_json (risks x))]"

definition racm_json :: "racm \<Rightarrow> json" where
  "racm_json x = JObj (racm_fields x)"

lemma racm_json_shape [simp]: "racm_json x \<noteq> JNull"
  by (simp add: racm_json_def)

lemma faithful_racm [faithful_rules]: "faithful racm_json"
proof (rule faithfulI)
  fix x y :: racm
  assume "sort_keys (racm_json x) = sort_keys (racm_json y)"
  then have "map (\<lambda>p. sort_keys (snd p)) (racm_fields x) = map (\<lambda>p. sort_keys (snd p)) (racm_fields y)"
    unfolding racm_json_def by (rule obj_fields_eq) (simp_all add: racm_fields_def)
  then show "x = y" by (simp add: racm_fields_def faithful_iffs)
qed

lemmas racm_iffs [faithful_iffs] = faithful_racm [THEN faithful_eq]
  faithful_list [OF faithful_racm, THEN faithful_eq]
  faithful_opt [OF faithful_racm racm_json_shape, THEN faithful_eq]

definition finding_fields :: "finding \<Rightarrow> (string \<times> json) list" where
  "finding_fields x =
     [(''control_id'', JStr (f_control_id x)),
      (''vault_id_reference'', JStr (vault_id_reference x)),
      (''exact_quote_from_evidence'', JStr (exact_quote x)),
      (''tod_conclusion'', JStr (tod_value (tod_conclusion x))),
      (''toe_conclusion'', JStr (toe_value (toe_conclusion x))),
      (''toe_basis'', opt_json JStr (toe_basis x)),
      (''items_tested'', opt_json (\<lambda>n. JInt (int n)) (items_tested x)),
      (''exceptions_noted'', opt_json (\<lambda>n. JInt (int n)) (exceptions_noted x)),
      (''result'', opt_json (\<lambda>v. JStr (result_value v)) (f_result x)),
      (''preliminary_deficiency'', opt_json JBool (preliminary_deficiency x)),
      (''test_conclusion'', JStr (test_conclusion x)),
      (''legacy_severity'', opt_json JStr (legacy_severity x))]"

definition finding_json :: "finding \<Rightarrow> json" where
  "finding_json x = JObj (finding_fields x)"

lemma finding_json_shape [simp]: "finding_json x \<noteq> JNull"
  by (simp add: finding_json_def)

lemma faithful_finding [faithful_rules]: "faithful finding_json"
proof (rule faithfulI)
  fix x y :: finding
  assume "sort_keys (finding_json x) = sort_keys (finding_json y)"
  then have "map (\<lambda>p. sort_keys (snd p)) (finding_fields x) = map (\<lambda>p. sort_keys (snd p)) (finding_fields y)"
    unfolding finding_json_def by (rule obj_fields_eq) (simp_all add: finding_fields_def)
  then show "x = y" by (simp add: finding_fields_def faithful_iffs)
qed

lemmas finding_iffs [faithful_iffs] = faithful_finding [THEN faithful_eq]
  faithful_list [OF faithful_finding, THEN faithful_eq]
  faithful_opt [OF faithful_finding finding_json_shape, THEN faithful_eq]

definition working_papers_fields :: "working_papers \<Rightarrow> (string \<times> json) list" where
  "working_papers_fields x =
     [(''theme'', JStr (wp_theme x)),
      (''findings'', list_json finding_json (findings x))]"

definition working_papers_json :: "working_papers \<Rightarrow> json" where
  "working_papers_json x = JObj (working_papers_fields x)"

lemma working_papers_json_shape [simp]: "working_papers_json x \<noteq> JNull"
  by (simp add: working_papers_json_def)

lemma faithful_working_papers [faithful_rules]: "faithful working_papers_json"
proof (rule faithfulI)
  fix x y :: working_papers
  assume "sort_keys (working_papers_json x) = sort_keys (working_papers_json y)"
  then have "map (\<lambda>p. sort_keys (snd p)) (working_papers_fields x) = map (\<lambda>p. sort_keys (snd p)) (working_papers_fields y)"
    unfolding working_papers_json_def by (rule obj_fields_eq) (simp_all add: working_papers_fields_def)
  then show "x = y" by (simp add: working_papers_fields_def faithful_iffs)
qed

lemmas working_papers_iffs [faithful_iffs] = faithful_working_papers [THEN faithful_eq]
  faithful_list [OF faithful_working_papers, THEN faithful_eq]
  faithful_opt [OF faithful_working_papers working_papers_json_shape, THEN faithful_eq]

definition deficiency_fields :: "deficiency \<Rightarrow> (string \<times> json) list" where
  "deficiency_fields x =
     [(''deficiency_id'', JStr (deficiency_id x)),
      (''title'', JStr (e_title x)),
      (''related_findings'', list_json JStr (related_findings x)),
      (''related_risks'', list_json JStr (related_risks x)),
      (''compensating_controls'', JStr (compensating_controls x)),
      (''likelihood'', JStr (rating_value (likelihood x))),
      (''magnitude'', JStr (rating_value (magnitude x))),
      (''classification'', JStr (classification_value (classification x))),
      (''rationale'', JStr (e_rationale x))]"

definition deficiency_json :: "deficiency \<Rightarrow> json" where
  "deficiency_json x = JObj (deficiency_fields x)"

lemma deficiency_json_shape [simp]: "deficiency_json x \<noteq> JNull"
  by (simp add: deficiency_json_def)

lemma faithful_deficiency [faithful_rules]: "faithful deficiency_json"
proof (rule faithfulI)
  fix x y :: deficiency
  assume "sort_keys (deficiency_json x) = sort_keys (deficiency_json y)"
  then have "map (\<lambda>p. sort_keys (snd p)) (deficiency_fields x) = map (\<lambda>p. sort_keys (snd p)) (deficiency_fields y)"
    unfolding deficiency_json_def by (rule obj_fields_eq) (simp_all add: deficiency_fields_def)
  then show "x = y" by (simp add: deficiency_fields_def faithful_iffs)
qed

lemmas deficiency_iffs [faithful_iffs] = faithful_deficiency [THEN faithful_eq]
  faithful_list [OF faithful_deficiency, THEN faithful_eq]
  faithful_opt [OF faithful_deficiency deficiency_json_shape, THEN faithful_eq]

definition oscal_observation_fields :: "oscal_observation \<Rightarrow> (string \<times> json) list" where
  "oscal_observation_fields x =
     [(''observation_id'', JStr (observation_id x)),
      (''description'', JStr (o_description x)),
      (''methods'', list_json JStr (methods x)),
      (''subjects'', list_json JStr (subjects x)),
      (''relevant_evidence'', list_json JStr (relevant_evidence x))]"

definition oscal_observation_json :: "oscal_observation \<Rightarrow> json" where
  "oscal_observation_json x = JObj (oscal_observation_fields x)"

lemma oscal_observation_json_shape [simp]: "oscal_observation_json x \<noteq> JNull"
  by (simp add: oscal_observation_json_def)

lemma faithful_oscal_observation [faithful_rules]: "faithful oscal_observation_json"
proof (rule faithfulI)
  fix x y :: oscal_observation
  assume "sort_keys (oscal_observation_json x) = sort_keys (oscal_observation_json y)"
  then have "map (\<lambda>p. sort_keys (snd p)) (oscal_observation_fields x) = map (\<lambda>p. sort_keys (snd p)) (oscal_observation_fields y)"
    unfolding oscal_observation_json_def by (rule obj_fields_eq) (simp_all add: oscal_observation_fields_def)
  then show "x = y" by (simp add: oscal_observation_fields_def faithful_iffs)
qed

lemmas oscal_observation_iffs [faithful_iffs] = faithful_oscal_observation [THEN faithful_eq]
  faithful_list [OF faithful_oscal_observation, THEN faithful_eq]
  faithful_opt [OF faithful_oscal_observation oscal_observation_json_shape, THEN faithful_eq]

definition oscal_result_fields :: "oscal_result \<Rightarrow> (string \<times> json) list" where
  "oscal_result_fields x =
     [(''assessment_result_id'', JStr (assessment_result_id x)),
      (''start_date'', JStr (start_date x)),
      (''end_date'', JStr (end_date x)),
      (''observations'', list_json oscal_observation_json (observations x))]"

definition oscal_result_json :: "oscal_result \<Rightarrow> json" where
  "oscal_result_json x = JObj (oscal_result_fields x)"

lemma oscal_result_json_shape [simp]: "oscal_result_json x \<noteq> JNull"
  by (simp add: oscal_result_json_def)

lemma faithful_oscal_result [faithful_rules]: "faithful oscal_result_json"
proof (rule faithfulI)
  fix x y :: oscal_result
  assume "sort_keys (oscal_result_json x) = sort_keys (oscal_result_json y)"
  then have "map (\<lambda>p. sort_keys (snd p)) (oscal_result_fields x) = map (\<lambda>p. sort_keys (snd p)) (oscal_result_fields y)"
    unfolding oscal_result_json_def by (rule obj_fields_eq) (simp_all add: oscal_result_fields_def)
  then show "x = y" by (simp add: oscal_result_fields_def faithful_iffs)
qed

lemmas oscal_result_iffs [faithful_iffs] = faithful_oscal_result [THEN faithful_eq]
  faithful_list [OF faithful_oscal_result, THEN faithful_eq]
  faithful_opt [OF faithful_oscal_result oscal_result_json_shape, THEN faithful_eq]

definition oscal_metadata_fields :: "oscal_metadata \<Rightarrow> (string \<times> json) list" where
  "oscal_metadata_fields x =
     [(''title'', JStr (o_title x)),
      (''last_modified'', JStr (last_modified x)),
      (''version'', JStr (o_version x)),
      (''oscal_version'', JStr (oscal_version x))]"

definition oscal_metadata_json :: "oscal_metadata \<Rightarrow> json" where
  "oscal_metadata_json x = JObj (oscal_metadata_fields x)"

lemma oscal_metadata_json_shape [simp]: "oscal_metadata_json x \<noteq> JNull"
  by (simp add: oscal_metadata_json_def)

lemma faithful_oscal_metadata [faithful_rules]: "faithful oscal_metadata_json"
proof (rule faithfulI)
  fix x y :: oscal_metadata
  assume "sort_keys (oscal_metadata_json x) = sort_keys (oscal_metadata_json y)"
  then have "map (\<lambda>p. sort_keys (snd p)) (oscal_metadata_fields x) = map (\<lambda>p. sort_keys (snd p)) (oscal_metadata_fields y)"
    unfolding oscal_metadata_json_def by (rule obj_fields_eq) (simp_all add: oscal_metadata_fields_def)
  then show "x = y" by (simp add: oscal_metadata_fields_def faithful_iffs)
qed

lemmas oscal_metadata_iffs [faithful_iffs] = faithful_oscal_metadata [THEN faithful_eq]
  faithful_list [OF faithful_oscal_metadata, THEN faithful_eq]
  faithful_opt [OF faithful_oscal_metadata oscal_metadata_json_shape, THEN faithful_eq]

definition oscal_import_ap_fields :: "oscal_import_ap \<Rightarrow> (string \<times> json) list" where
  "oscal_import_ap_fields x =
     [(''href'', JStr (import_href x)),
      (''remarks'', opt_json JStr (import_remarks x))]"

definition oscal_import_ap_json :: "oscal_import_ap \<Rightarrow> json" where
  "oscal_import_ap_json x = JObj (oscal_import_ap_fields x)"

lemma oscal_import_ap_json_shape [simp]: "oscal_import_ap_json x \<noteq> JNull"
  by (simp add: oscal_import_ap_json_def)

lemma faithful_oscal_import_ap [faithful_rules]: "faithful oscal_import_ap_json"
proof (rule faithfulI)
  fix x y :: oscal_import_ap
  assume "sort_keys (oscal_import_ap_json x) = sort_keys (oscal_import_ap_json y)"
  then have "map (\<lambda>p. sort_keys (snd p)) (oscal_import_ap_fields x) = map (\<lambda>p. sort_keys (snd p)) (oscal_import_ap_fields y)"
    unfolding oscal_import_ap_json_def by (rule obj_fields_eq) (simp_all add: oscal_import_ap_fields_def)
  then show "x = y" by (simp add: oscal_import_ap_fields_def faithful_iffs)
qed

lemmas oscal_import_ap_iffs [faithful_iffs] = faithful_oscal_import_ap [THEN faithful_eq]
  faithful_list [OF faithful_oscal_import_ap, THEN faithful_eq]
  faithful_opt [OF faithful_oscal_import_ap oscal_import_ap_json_shape, THEN faithful_eq]

definition oscal_sar_fields :: "oscal_sar \<Rightarrow> (string \<times> json) list" where
  "oscal_sar_fields x =
     [(''metadata'', oscal_metadata_json (o_metadata x)),
      (''import_ap'', oscal_import_ap_json (o_import_ap x)),
      (''results'', list_json oscal_result_json (o_results x))]"

definition oscal_sar_json :: "oscal_sar \<Rightarrow> json" where
  "oscal_sar_json x = JObj (oscal_sar_fields x)"

lemma oscal_sar_json_shape [simp]: "oscal_sar_json x \<noteq> JNull"
  by (simp add: oscal_sar_json_def)

lemma faithful_oscal_sar [faithful_rules]: "faithful oscal_sar_json"
proof (rule faithfulI)
  fix x y :: oscal_sar
  assume "sort_keys (oscal_sar_json x) = sort_keys (oscal_sar_json y)"
  then have "map (\<lambda>p. sort_keys (snd p)) (oscal_sar_fields x) = map (\<lambda>p. sort_keys (snd p)) (oscal_sar_fields y)"
    unfolding oscal_sar_json_def by (rule obj_fields_eq) (simp_all add: oscal_sar_fields_def)
  then show "x = y" by (simp add: oscal_sar_fields_def faithful_iffs)
qed

lemmas oscal_sar_iffs [faithful_iffs] = faithful_oscal_sar [THEN faithful_eq]
  faithful_list [OF faithful_oscal_sar, THEN faithful_eq]
  faithful_opt [OF faithful_oscal_sar oscal_sar_json_shape, THEN faithful_eq]

definition final_report_fields :: "final_report \<Rightarrow> (string \<times> json) list" where
  "final_report_fields x =
     [(''executive_summary'', JStr (executive_summary x)),
      (''detailed_report'', JStr (detailed_report x)),
      (''compliance_tone_approved'', JBool (compliance_tone_approved x)),
      (''deficiency_evaluations'', list_json deficiency_json (deficiency_evaluations x)),
      (''deficiency_scale'', opt_json (\<lambda>v. JStr (scale_value v)) (rp_scale x)),
      (''oscal_sar'', opt_json oscal_sar_json (rp_oscal_sar x))]"

definition final_report_json :: "final_report \<Rightarrow> json" where
  "final_report_json x = JObj (final_report_fields x)"

lemma final_report_json_shape [simp]: "final_report_json x \<noteq> JNull"
  by (simp add: final_report_json_def)

lemma faithful_final_report [faithful_rules]: "faithful final_report_json"
proof (rule faithfulI)
  fix x y :: final_report
  assume "sort_keys (final_report_json x) = sort_keys (final_report_json y)"
  then have "map (\<lambda>p. sort_keys (snd p)) (final_report_fields x) = map (\<lambda>p. sort_keys (snd p)) (final_report_fields y)"
    unfolding final_report_json_def by (rule obj_fields_eq) (simp_all add: final_report_fields_def)
  then show "x = y" by (simp add: final_report_fields_def faithful_iffs)
qed

lemmas final_report_iffs [faithful_iffs] = faithful_final_report [THEN faithful_eq]
  faithful_list [OF faithful_final_report, THEN faithful_eq]
  faithful_opt [OF faithful_final_report final_report_json_shape, THEN faithful_eq]


section \<open>Reviewer decisions\<close>

definition review_decision_fields :: "review_decision \<Rightarrow> (string \<times> json) list" where
  "review_decision_fields x =
     [(''decision_id'', JStr (decision_id x)),
      (''phase'', JInt (int (phase_num (d_phase x)))),
      (''artifact'', JStr (d_artifact x)),
      (''draft_digest'', JStr (draft_digest x)),
      (''subject_type'', JStr (stype_value (d_subject_type x))),
      (''subject_id'', JStr (subject_id x)),
      (''decision_type'', JStr (dtype_value (d_decision_type x))),
      (''values'', dict_json (d_values x)),
      (''rationale'', JStr (rationale x)),
      (''decided_by'', JStr (decided_by x)),
      (''identity_source'', JStr (source_value (d_identity_source x))),
      (''decided_at'', JStr (decided_at x)),
      (''supersedes'', opt_json JStr (supersedes x))]"

definition decision_json :: "review_decision \<Rightarrow> json" where
  "decision_json x = JObj (review_decision_fields x)"

text \<open>
  The canonical text of a decision determines all of it; its \<open>values\<close> are determined as a
  dictionary, whatever order they were entered in.
\<close>

definition same_decision :: "review_decision \<Rightarrow> review_decision \<Rightarrow> bool" where
  "same_decision x y \<longleftrightarrow>
     x\<lparr>d_values := []\<rparr> = y\<lparr>d_values := []\<rparr> \<and> map_of (d_values x) = map_of (d_values y)"

lemma canonical_decision_eq:
  assumes ok: "dict_ok (d_values x)" "dict_ok (d_values y)"
    and eq: "canonical (decision_json x) = canonical (decision_json y)"
  shows "same_decision x y"
proof -
  from eq have "sort_keys (decision_json x) = sort_keys (decision_json y)"
    by (simp add: canonical_eq_iff)
  then have *: "map (\<lambda>p. sort_keys (snd p)) (review_decision_fields x) =
      map (\<lambda>p. sort_keys (snd p)) (review_decision_fields y)"
    unfolding decision_json_def by (rule obj_fields_eq) (simp_all add: review_decision_fields_def)
  then have "sort_keys (dict_json (d_values x)) = sort_keys (dict_json (d_values y))"
    by (simp add: review_decision_fields_def del: sort_keys.simps)
  then have "map_of (d_values x) = map_of (d_values y)"
    using ok by (intro canonical_dict_eq) (simp_all add: canonical_eq_iff)
  moreover have "x\<lparr>d_values := []\<rparr> = y\<lparr>d_values := []\<rparr>"
    using * by (simp add: review_decision_fields_def faithful_iffs phase_num_inject)
  ultimately show ?thesis by (simp add: same_decision_def)
qed

end
