(* ===== verification/Digest.thy ===== *)
theory Digest
  imports Json
begin

text \<open>
  Digests and keys: the uses \<open>src/swarm/evidence.py\<close> and \<open>src/swarm/trail.py\<close> make of
  \<open>hashlib\<close>, \<open>hmac\<close> and \<open>base64\<close>. The hash functions themselves are a parameter (record
  \<open>crypto\<close>): no theorem depends on which functions they are. What is documented of them and
  used is \<open>crypto_ok\<close> (a digest is never empty; SHA-256's has 32 bytes). That two texts do not collide is never
  assumed of the function: it is a hypothesis on the finitely many texts that were hashed.
\<close>

section \<open>The hash functions\<close>

record crypto =
  sha256 :: "string \<Rightarrow> string"
  hmac_sha256 :: "string \<Rightarrow> string \<Rightarrow> string"
  urlsafe_b64decode :: "string \<Rightarrow> string option"

definition crypto_ok :: "crypto \<Rightarrow> bool" where
  "crypto_ok cr \<longleftrightarrow> (\<forall>x. sha256 cr x \<noteq> []) \<and> (\<forall>k x. hmac_sha256 cr k x \<noteq> [])"

lemma crypto_nonempty: "crypto_ok cr \<Longrightarrow> sha256 cr x \<noteq> [] \<and> hmac_sha256 cr k x \<noteq> []"
  by (simp add: crypto_ok_def)

text \<open>\<open>digest.hex()\<close>, what \<open>hexdigest()\<close> returns\<close>

definition hexdigest :: "string \<Rightarrow> string" where
  "hexdigest bs = concat (map (\<lambda>b. let n = of_char b :: nat in [hex_char (n div 16), hex_char (n mod 16)]) bs)"

text \<open>A concrete instance: digests that contain what they were computed from.\<close>

definition toy_crypto :: crypto where
  "toy_crypto = \<lparr>sha256 = \<lambda>x. CHR ''h'' # x, hmac_sha256 = \<lambda>k x. CHR ''m'' # k @ x,
     urlsafe_b64decode = Some\<rparr>"

lemma toy_crypto_ok [simp]: "crypto_ok toy_crypto"
  by (simp add: crypto_ok_def toy_crypto_def)

definition ascii :: "string \<Rightarrow> bool" where
  "ascii s \<longleftrightarrow> (\<forall>c\<in>set s. of_char c < (128 :: nat))"

lemma ascii_simps [simp]: "ascii []" "ascii (c # s) \<longleftrightarrow> of_char c < (128 :: nat) \<and> ascii s"
  "ascii (s @ t) \<longleftrightarrow> ascii s \<and> ascii t"
  by (auto simp: ascii_def)

lemma hex_char_ascii [simp]: "d < 16 \<Longrightarrow> of_char (hex_char d) < (128 :: nat)"
  by (simp add: hex_char_def of_char_of)

lemma div_less_dividend_16: "n < 256 \<Longrightarrow> n div 16 < (16 :: nat)"
  by (simp add: div_less_iff_less_mult)

lemma hexdigest_ascii [simp]: "ascii (hexdigest bs)"
proof (induction bs)
  case (Cons b bs)
  have "of_char b < (256 :: nat)"
    by simp
  then have "(of_char b :: nat) div 16 < 16" by (rule div_less_dividend_16)
  then show ?case using Cons by (simp add: hexdigest_def Let_def)
qed (simp add: hexdigest_def)

lemma hexdigest_length: "length (hexdigest bs) = 2 * length bs"
  by (induction bs) (simp_all add: hexdigest_def Let_def)

lemma hexdigest_empty_iff [simp]: "hexdigest bs = [] \<longleftrightarrow> bs = []"
  using hexdigest_length [of bs] by (cases bs) auto

lemma hexdigest_inject [simp]: "hexdigest a = hexdigest b \<longleftrightarrow> a = b"
proof
  show "hexdigest a = hexdigest b \<Longrightarrow> a = b"
  proof (induction a arbitrary: b)
    case Nil
    then have "length (hexdigest b) = 0" by (simp add: hexdigest_def)
    then show ?case by (simp add: hexdigest_length)
  next
    case (Cons x a)
    let ?hi = "\<lambda>x. of_char x div 16 :: nat" and ?lo = "\<lambda>x. of_char x mod 16 :: nat"
    obtain y b' where b: "b = y # b'"
      using Cons.prems hexdigest_length [of "x # a"] hexdigest_length [of b] by (cases b) simp_all
    have hi: "?hi z < 16" for z
      by (rule div_less_dividend_16) simp
    from Cons.prems b have eq: "hex_char (?hi x) = hex_char (?hi y)" "hex_char (?lo x) = hex_char (?lo y)"
      "hexdigest a = hexdigest b'"
      by (simp_all add: hexdigest_def Let_def)
    from eq have "?hi x = ?hi y" "?lo x = ?lo y"
      by (metis hi hex_val_char, metis hex_val_char mod_less_divisor zero_less_numeral)
    then have "(of_char x :: nat) = of_char y"
      by (metis div_mult_mod_eq)
    with eq Cons.IH b show ?case by simp
  qed
qed simp

section \<open>Comparing digests\<close>

text \<open>
  \<open>hmac.compare_digest(a, b)\<close> on two \<open>str\<close>: raises \<open>TypeError\<close> unless both are ASCII.
  \<open>raised\<close> are the exceptions of the standard library that the modelled code meets.
\<close>

datatype raised = TypeError | ValueError | KeyError | AttributeError | RuntimeError

definition compare_digest :: "string \<Rightarrow> string \<Rightarrow> raised + bool" where
  "compare_digest a b = (if ascii a \<and> ascii b then Inr (a = b) else Inl TypeError)"

lemma compare_digest_simps [result_simps]:
  "compare_digest a b = Inr r \<longleftrightarrow> ascii a \<and> ascii b \<and> r = (a = b)"
  "compare_digest a b = Inl e \<longleftrightarrow> \<not> (ascii a \<and> ascii b) \<and> e = TypeError"
  by (auto simp: compare_digest_def)

lemma compare_digest_refl: "ascii a \<Longrightarrow> compare_digest a a = Inr True"
  by (simp add: compare_digest_def)

section \<open>Keys derived from \<open>VAULT_ENCRYPTION_KEY\<close>\<close>

datatype key_error = BadBase64

definition derive_hmac_key :: "crypto \<Rightarrow> string \<Rightarrow> string \<Rightarrow> key_error + string" where
  "derive_hmac_key cr key_b64 label_bytes =
     bindE (of_option BadBase64 (urlsafe_b64decode cr key_b64))
       (\<lambda>raw. Inr (hmac_sha256 cr raw label_bytes))"

text \<open>\<open>env\<close> is the value of the environment variable.\<close>

definition derive_labelled_key :: "crypto \<Rightarrow> string option \<Rightarrow> string \<Rightarrow> key_error + string option" where
  "derive_labelled_key cr env label_bytes =
     (case env of None \<Rightarrow> Inr None
      | Some k \<Rightarrow> if k = [] then Inr None
          else bindE (derive_hmac_key cr k label_bytes) (\<lambda>d. Inr (Some d)))"

definition HMAC_KEY_LABEL :: string where
  "HMAC_KEY_LABEL = ''grc-audit-swarm/evidence-vault/hmac-sha256/v1''"

definition TRAIL_KEY_LABEL :: string where
  "TRAIL_KEY_LABEL = ''grc-audit-swarm/approval-trail/hmac-sha256/v1''"

text \<open>\<open>_keyed_digest\<close>\<close>
definition keyed_digest :: "crypto \<Rightarrow> string \<Rightarrow> string \<Rightarrow> key_error + string" where
  "keyed_digest cr payload key_b64 =
     bindE (derive_hmac_key cr key_b64 HMAC_KEY_LABEL) (\<lambda>k. Inr (hexdigest (hmac_sha256 cr k payload)))"

definition sha256_hex :: "crypto \<Rightarrow> string \<Rightarrow> string" where
  "sha256_hex cr x = hexdigest (sha256 cr x)"

lemma sha256_hex_ascii [simp]: "ascii (sha256_hex cr x)"
  by (simp add: sha256_hex_def)

lemma sha256_hex_nonempty: "crypto_ok cr \<Longrightarrow> sha256_hex cr x \<noteq> []"
  by (simp add: sha256_hex_def crypto_ok_def)

text \<open>The digest of a set of texts without a collision among them.\<close>

definition no_collision :: "('a \<Rightarrow> 'b) \<Rightarrow> 'a set \<Rightarrow> bool" where
  "no_collision H A \<longleftrightarrow> inj_on H A"

lemma no_collisionD: "no_collision H A \<Longrightarrow> x \<in> A \<Longrightarrow> y \<in> A \<Longrightarrow> H x = H y \<Longrightarrow> x = y"
  by (auto simp: no_collision_def inj_on_def)

text \<open>
  The two purposes of the key never share an HMAC message: the labels differ, so equal derived
  keys would already be a collision of the derivation.
\<close>

lemma key_labels_differ: "HMAC_KEY_LABEL \<noteq> TRAIL_KEY_LABEL"
  by (simp add: HMAC_KEY_LABEL_def TRAIL_KEY_LABEL_def)

end
