(* ===== verification/Trail.thy ===== *)
theory Trail
  imports Dump Digest
begin

text \<open>
  The hash-chained approval trail: \<open>src/swarm/trail.py\<close>. An entry is a dictionary of strings,
  the trail a list of entries, \<open>key\<close> what \<open>_trail_key()\<close> returns. \<open>append_entry\<close> and
  \<open>verify_trail\<close> are translated with every branch; the prose of \<open>detail\<close> and of the decision
  problems is replaced by constructors. \<open>Inl\<close> is an exception that leaves \<open>verify_trail\<close>.

  The lemmas show that the chain is what the module promises: appended entries always verify,
  and a trail that verifies against an anchor is the anchored trail, extended, unless two of
  the texts that were hashed collide. The locale \<open>hash_chain\<close> holds the argument; it is
  interpreted on the trail's own entries.
\<close>

section \<open>Entries and digests\<close>

type_synonym entry = dict
type_synonym trail = "entry list"

definition GENESIS_HASH :: string where
  "GENESIS_HASH = replicate 64 CHR ''0''"

definition ALG_KEYED :: string where
  "ALG_KEYED = ''hmac-sha256''"

definition ALG_PLAIN :: string where
  "ALG_PLAIN = ''sha256''"

definition HASH_FIELDS :: "string list" where
  "HASH_FIELDS = [''prev_hash'', ''entry_hash'', ''hash_alg'']"

definition entry_json :: "entry \<Rightarrow> json" where
  "entry_json e = dict_json (filter (\<lambda>(k, v). k \<noteq> ''entry_hash'') e)"

definition canonical_entry :: "entry \<Rightarrow> string" where
  "canonical_entry e = canonical (entry_json e)"

definition digest :: "crypto \<Rightarrow> string \<Rightarrow> string \<Rightarrow> string option \<Rightarrow> raised + string" where
  "digest cr data alg key =
     (if alg = ALG_KEYED then
        (case key of None \<Rightarrow> Inl ValueError | Some k \<Rightarrow> Inr (hexdigest (hmac_sha256 cr k data)))
      else Inr (sha256_hex cr data))"

definition is_chained :: "entry \<Rightarrow> bool" where
  "is_chained e \<longleftrightarrow> (\<exists>f\<in>set HASH_FIELDS. map_of e f \<noteq> None)"

text \<open>The text \<open>_legacy_seal\<close> hashes: the canonical JSON list of the unchained entries.\<close>

definition seal_text :: "trail \<Rightarrow> string" where
  "seal_text legacy = canonical (JList (map dict_json legacy))"

definition legacy_seal :: "crypto \<Rightarrow> trail \<Rightarrow> string \<Rightarrow> string option \<Rightarrow> raised + string" where
  "legacy_seal cr legacy alg key =
     (if legacy = [] then Inr GENESIS_HASH else digest cr (seal_text legacy) alg key)"

section \<open>Appending\<close>

definition append_entry :: "crypto \<Rightarrow> string option \<Rightarrow> trail \<Rightarrow> entry \<Rightarrow> raised + trail" where
  "append_entry cr key tr e =
     (let alg = (if key \<noteq> None then ALG_KEYED else ALG_PLAIN);
          stored = filter (\<lambda>(k, v). k \<notin> set HASH_FIELDS) e in
      bindE (if \<exists>x\<in>set tr. is_chained x then Inr (dict_get_or (last tr) ''entry_hash'' [])
             else legacy_seal cr tr alg key)
        (\<lambda>prev.
          let stored1 = dict_set ''prev_hash'' prev (dict_set ''hash_alg'' alg stored) in
          bindE (digest cr (canonical_entry stored1) alg key)
            (\<lambda>h. Inr (tr @ [dict_set ''entry_hash'' h stored1]))))"

definition trail_head :: "trail \<Rightarrow> nat \<times> string option" where
  "trail_head tr =
     (if tr = [] then (0, None)
      else let h = dict_get_or (last tr) ''entry_hash'' [] in
        (length tr, if h \<noteq> [] then Some h else None))"

section \<open>Digests of artifacts and decisions\<close>

definition artifact_digest :: "crypto \<Rightarrow> json \<Rightarrow> string" where
  "artifact_digest cr a = sha256_hex cr (canonical a)"

definition decision_digest :: "crypto \<Rightarrow> review_decision \<Rightarrow> string" where
  "decision_digest cr d = artifact_digest cr (decision_json d)"

definition decisions_digest :: "crypto \<Rightarrow> review_decision list \<Rightarrow> string" where
  "decisions_digest cr ds = sha256_hex cr (canonical (JList (map decision_json ds)))"

section \<open>What changed since an approval\<close>

text \<open>Python's \<open>int(s)\<close> on an ASCII string: white space, a sign, digits with single underscores.\<close>

fun int_digits :: "bool \<Rightarrow> string \<Rightarrow> string option" where
  "int_digits p [] = (if p then Some [] else None)"
| "int_digits p (c # cs) =
     (if is_digit c then map_option ((#) c) (int_digits True cs)
      else if c = CHR ''_'' \<and> p then int_digits False cs else None)"

definition py_int :: "string \<Rightarrow> int option" where
  "py_int s =
     (case strip s of
        [] \<Rightarrow> None
      | c # cs \<Rightarrow>
          if c = CHR ''-'' then map_option (\<lambda>d. - int (str_nat d)) (int_digits False cs)
          else map_option (\<lambda>d. int (str_nat d)) (int_digits False (if c = CHR ''+'' then cs else c # cs)))"

definition ARTIFACT_PHASE :: "(string \<times> int) list" where
  "ARTIFACT_PHASE = [(''racm_plan'', 1), (''working_papers'', 2), (''final_report'', 3)]"

record approval =
  a_gate :: string
  a_digest :: string
  a_sealed :: "string option"
  a_ids :: "string list"

text \<open>
  The two dictionaries \<open>changed_since_approval\<close> builds while it reads the trail: the decision
  ids recorded per phase, and the latest approval per artifact field.
\<close>

type_synonym approvals_seen = "(string \<times> approval) list \<times> (int \<times> string list) list"

definition see_entry :: "approvals_seen \<Rightarrow> entry \<Rightarrow> approvals_seen" where
  "see_entry s e =
     (if map_of e ''action'' = Some ''review_decision'' then
        (case py_int (dict_get_or e ''phase'' []) of
           None \<Rightarrow> s
         | Some p \<Rightarrow> (fst s, AList.update p
             ((case map_of (snd s) p of None \<Rightarrow> [] | Some ids \<Rightarrow> ids) @ [dict_get_or e ''decision_id'' []])
             (snd s)))
      else if map_of e ''action'' = Some ''gate_approval'' \<and> dict_get_or e ''artifact_digest'' [] \<noteq> [] then
        (let field = dict_get_or e ''artifact'' [];
             sealed = dict_get_or e ''decisions_digest'' [];
             phase = (case map_of ARTIFACT_PHASE field of None \<Rightarrow> 0 | Some p \<Rightarrow> p) in
         (dict_set field
            \<lparr>a_gate = dict_get_or e ''gate'' [], a_digest = dict_get_or e ''artifact_digest'' [],
             a_sealed = (if sealed \<noteq> [] then Some sealed else None),
             a_ids = (case map_of (snd s) phase of None \<Rightarrow> [] | Some ids \<Rightarrow> ids)\<rparr> (fst s),
          snd s))
      else s)"

definition latest_approvals :: "trail \<Rightarrow> (string \<times> approval) list" where
  "latest_approvals tr = fst (foldl see_entry ([], []) tr)"

definition by_id :: "review_decision list \<Rightarrow> (string \<times> review_decision) list" where
  "by_id ds = foldl (\<lambda>m d. dict_set (decision_id d) d m) [] ds"

text \<open>\<open>artifacts\<close> maps an artifact field to what is stored in it (None for a JSON null).\<close>

type_synonym artifacts = "(string \<times> json option) list"

definition check_approval ::
  "crypto \<Rightarrow> artifacts \<Rightarrow> review_decision list option \<Rightarrow> string \<times> approval \<Rightarrow> raised + string list" where
  "check_approval cr artifacts decisions = (\<lambda>(field, a).
     case (case map_of artifacts field of None \<Rightarrow> None | Some x \<Rightarrow> x) of
       None \<Rightarrow> Inr [a_gate a]
     | Some current \<Rightarrow>
         bindE (compare_digest (artifact_digest cr current) (a_digest a)) (\<lambda>same.
           if \<not> same then Inr [a_gate a]
           else case (a_sealed a, decisions) of
             (Some sealed, Some ds) \<Rightarrow>
               if \<exists>i\<in>set (a_ids a). map_of (by_id ds) i = None then Inr [a_gate a]
               else bindE (compare_digest
                   (decisions_digest cr (map (\<lambda>i. the (map_of (by_id ds) i)) (a_ids a))) sealed)
                 (\<lambda>same. Inr (if same then [] else [a_gate a]))
           | _ \<Rightarrow> Inr []))"

definition changed_since_approval ::
  "crypto \<Rightarrow> trail \<Rightarrow> artifacts \<Rightarrow> review_decision list option \<Rightarrow> raised + string list" where
  "changed_since_approval cr tr artifacts decisions =
     collectE (check_approval cr artifacts decisions) (latest_approvals tr)"

section \<open>Decisions that do not match their trail entries\<close>

datatype decision_problem =
    NoTrailEntry string decision_type string
  | ChangedAfterRecorded string decision_type string
  | RemovedDecision string

definition record_digest :: "dict \<Rightarrow> entry \<Rightarrow> dict" where
  "record_digest m e =
     (if map_of e ''action'' = Some ''review_decision'' \<and> dict_get_or e ''decision_id'' [] \<noteq> []
      then dict_set (dict_get_or e ''decision_id'' []) (dict_get_or e ''decision_digest'' []) m
      else m)"

definition recorded_digests :: "trail \<Rightarrow> dict" where
  "recorded_digests tr = foldl record_digest [] tr"

definition check_decision ::
  "crypto \<Rightarrow> dict \<Rightarrow> review_decision \<Rightarrow> raised + decision_problem list" where
  "check_decision cr recorded d =
     (case map_of recorded (decision_id d) of
        None \<Rightarrow> Inr [NoTrailEntry (decision_id d) (d_decision_type d) (subject_id d)]
      | Some h \<Rightarrow> bindE (compare_digest (decision_digest cr d) h)
          (\<lambda>same. Inr (if same then []
             else [ChangedAfterRecorded (decision_id d) (d_decision_type d) (subject_id d)])))"

definition decisions_changed ::
  "crypto \<Rightarrow> trail \<Rightarrow> review_decision list \<Rightarrow> raised + decision_problem list" where
  "decisions_changed cr tr ds =
     (let recorded = recorded_digests tr in
      bindE (collectE (check_decision cr recorded) ds) (\<lambda>ps.
        Inr (ps @ map RemovedDecision
          (filter (\<lambda>i. i \<notin> set (map decision_id ds)) (map fst recorded)))))"

section \<open>Verifying a trail\<close>

datatype trail_status =
    STATUS_OK
  | STATUS_LEGACY
  | STATUS_BROKEN
  | STATUS_TRUNCATED
  | STATUS_UNKEYED
  | STATUS_KEY_UNAVAILABLE
  | STATUS_ARTIFACT_CHANGED
  | STATUS_DECISION_CHANGED
  | STATUS_ANCHOR_MISMATCH

definition tamper_status :: "trail_status \<Rightarrow> bool" where
  "tamper_status s \<longleftrightarrow> s \<in> {STATUS_BROKEN, STATUS_TRUNCATED, STATUS_ANCHOR_MISMATCH,
     STATUS_ARTIFACT_CHANGED, STATUS_DECISION_CHANGED}"

record verification =
  v_ok :: bool
  v_status :: trail_status
  v_entries :: nat
  v_legacy_entries :: nat
  v_first_broken_index :: "nat option"
  v_keyed :: bool
  v_anchored :: bool
  v_head_hash :: "string option"
  v_changed :: "string list"
  v_decisions_changed :: "decision_problem list"

definition verification_result :: "trail_status \<Rightarrow> trail \<Rightarrow> verification" where
  "verification_result status tr =
     \<lparr>v_ok = (status = STATUS_OK), v_status = status, v_entries = fst (trail_head tr),
      v_legacy_entries = 0, v_first_broken_index = None, v_keyed = False, v_anchored = False,
      v_head_hash = snd (trail_head tr), v_changed = [], v_decisions_changed = []\<rparr>"

text \<open>The loop over the chained entries; \<open>Inl\<close> is its early exit.\<close>

datatype chain_stop = Broken nat | KeyUnavailable nat | Raise raised

record chain_state =
  expected_prev :: "string option"
  keyed_entries :: nat
  last_plain :: "nat option"

fun raising :: "raised + 'a \<Rightarrow> chain_stop + 'a" where
  "raising (Inl e) = Inl (Raise e)"
| "raising (Inr x) = Inr x"

definition check_entry ::
  "crypto \<Rightarrow> string option \<Rightarrow> trail \<Rightarrow> nat \<Rightarrow> entry \<Rightarrow> chain_state \<Rightarrow> chain_stop + chain_state" where
  "check_entry cr key legacy i e st =
     (let stored_hash = dict_get_or e ''entry_hash'' []; alg = dict_get_or e ''hash_alg'' [] in
      if stored_hash = [] \<or> alg \<notin> {ALG_KEYED, ALG_PLAIN} then Inl (Broken i)
      else if alg = ALG_KEYED \<and> key = None then Inl (KeyUnavailable i)
      else
        bindE (case expected_prev st of Some p \<Rightarrow> Inr p | None \<Rightarrow> raising (legacy_seal cr legacy alg key))
        (\<lambda>prev. bindE (raising (compare_digest (dict_get_or e ''prev_hash'' []) prev))
        (\<lambda>same. if \<not> same then Inl (Broken i) else
          bindE (raising (digest cr (canonical_entry e) alg key))
          (\<lambda>d. bindE (raising (compare_digest d stored_hash))
          (\<lambda>same. if \<not> same then Inl (Broken i) else
            Inr (if alg = ALG_KEYED
                 then \<lparr>expected_prev = Some stored_hash, keyed_entries = Suc (keyed_entries st), last_plain = None\<rparr>
                 else \<lparr>expected_prev = Some stored_hash, keyed_entries = keyed_entries st,
                   last_plain = (if last_plain st = None then Some i else last_plain st)\<rparr>))))))"

fun check_chain ::
  "crypto \<Rightarrow> string option \<Rightarrow> trail \<Rightarrow> nat \<Rightarrow> entry list \<Rightarrow> chain_state \<Rightarrow> chain_stop + chain_state" where
  "check_chain cr key legacy i [] st = Inr st"
| "check_chain cr key legacy i (e # es) st =
     bindE (check_entry cr key legacy i e st) (check_chain cr key legacy (Suc i) es)"

definition chain_start :: chain_state where
  "chain_start = \<lparr>expected_prev = None, keyed_entries = 0, last_plain = None\<rparr>"

definition first_chained :: "trail \<Rightarrow> nat option" where
  "first_chained tr = find (\<lambda>i. is_chained (tr ! i)) [0..<length tr]"

text \<open>The part of \<open>verify_trail\<close> after the anchor check: keys, artifacts and decisions.\<close>

definition verify_content ::
  "crypto \<Rightarrow> string option \<Rightarrow> trail \<Rightarrow> nat \<Rightarrow> bool \<Rightarrow> chain_state \<Rightarrow> artifacts option \<Rightarrow>
   review_decision list option \<Rightarrow> raised + verification" where
  "verify_content cr key tr first anchored st artifacts decisions =
     (let all_keyed = (keyed_entries st = length tr - first);
          result = (\<lambda>s. (verification_result s tr)\<lparr>v_legacy_entries := first, v_anchored := anchored\<rparr>) in
      if key \<noteq> None \<and> last_plain st \<noteq> None then Inr (result STATUS_UNKEYED)
      else
        bindE (case artifacts of None \<Rightarrow> Inr [] | Some a \<Rightarrow> changed_since_approval cr tr a decisions)
        (\<lambda>changed. bindE (case decisions of None \<Rightarrow> Inr [] | Some ds \<Rightarrow> decisions_changed cr tr ds)
        (\<lambda>problems.
          if changed \<noteq> [] then Inr ((result STATUS_ARTIFACT_CHANGED)
              \<lparr>v_keyed := all_keyed, v_changed := changed, v_decisions_changed := problems\<rparr>)
          else if problems \<noteq> [] then Inr ((result STATUS_DECISION_CHANGED)
              \<lparr>v_keyed := all_keyed, v_decisions_changed := problems\<rparr>)
          else Inr ((result STATUS_OK)\<lparr>v_keyed := all_keyed\<rparr>))))"

text \<open>
  \<open>anchor\<close> is the recorded \<open>(count, head_hash)\<close>; a missing or malformed record is None, which
  the code treats as a count of 0.
\<close>

definition verify_trail ::
  "crypto \<Rightarrow> string option \<Rightarrow> trail \<Rightarrow> (int \<times> string) option \<Rightarrow> artifacts option \<Rightarrow>
   review_decision list option \<Rightarrow> raised + verification" where
  "verify_trail cr key tr anchor artifacts decisions =
     (let anchor_count = (case anchor of None \<Rightarrow> 0 | Some (n, h) \<Rightarrow> nat n);
          anchor_head = (case anchor of None \<Rightarrow> [] | Some (n, h) \<Rightarrow> h);
          anchored = (anchor_count > 0) in
      case first_chained tr of
        None \<Rightarrow>
          if anchored then Inr ((verification_result (if tr = [] then STATUS_TRUNCATED else STATUS_BROKEN) tr)
              \<lparr>v_first_broken_index := Some 0, v_legacy_entries := length tr, v_anchored := True\<rparr>)
          else if tr = [] then Inr (verification_result STATUS_OK tr)
          else Inr ((verification_result STATUS_LEGACY tr)\<lparr>v_legacy_entries := length tr\<rparr>)
      | Some first \<Rightarrow>
          (case check_chain cr key (take first tr) first (drop first tr) chain_start of
             Inl (Broken i) \<Rightarrow> Inr ((verification_result STATUS_BROKEN tr)
               \<lparr>v_first_broken_index := Some i, v_legacy_entries := first, v_anchored := anchored\<rparr>)
           | Inl (KeyUnavailable i) \<Rightarrow> Inr ((verification_result STATUS_KEY_UNAVAILABLE tr)
               \<lparr>v_legacy_entries := first, v_anchored := anchored\<rparr>)
           | Inl (Raise e) \<Rightarrow> Inl e
           | Inr st \<Rightarrow>
               if anchored \<and> length tr < anchor_count then Inr ((verification_result STATUS_TRUNCATED tr)
                 \<lparr>v_first_broken_index := Some (length tr), v_legacy_entries := first, v_anchored := True\<rparr>)
               else if anchored then
                 bindE (compare_digest (dict_get_or (tr ! (anchor_count - 1)) ''entry_hash'' []) anchor_head)
                 (\<lambda>same. if \<not> same then Inr ((verification_result STATUS_ANCHOR_MISMATCH tr)
                     \<lparr>v_first_broken_index := Some (anchor_count - 1), v_legacy_entries := first, v_anchored := True\<rparr>)
                   else verify_content cr key tr first anchored st artifacts decisions)
               else verify_content cr key tr first anchored st artifacts decisions))"

section \<open>Hash chains\<close>

text \<open>
  The chain argument, over any entries whose digest is computed from a body that covers the
  reference to the previous digest: \<open>chained p es\<close> says the entries follow one another from
  \<open>p\<close>. Two chains that end in the same digest are the same from there back, unless two of the
  bodies collide.
\<close>

locale hash_chain =
  fixes body :: "'e \<Rightarrow> 'b" and dig :: "'b \<Rightarrow> 'r + 'h" and prev_of :: "'e \<Rightarrow> 'h"
    and own_of :: "'e \<Rightarrow> 'h" and ok :: "'e \<Rightarrow> bool" and same :: "'e \<Rightarrow> 'e \<Rightarrow> bool"
  assumes body_covers_prev: "ok e \<Longrightarrow> ok e' \<Longrightarrow> body e = body e' \<Longrightarrow> prev_of e = prev_of e'"
    and body_covers_rest: "ok e \<Longrightarrow> ok e' \<Longrightarrow> body e = body e' \<Longrightarrow> own_of e = own_of e' \<Longrightarrow> same e e'"
begin

primrec chained :: "'h \<Rightarrow> 'e list \<Rightarrow> bool" where
  "chained p [] = True"
| "chained p (e # es) \<longleftrightarrow> prev_of e = p \<and> dig (body e) = Inr (own_of e) \<and> chained (own_of e) es"

definition head_of :: "'h \<Rightarrow> 'e list \<Rightarrow> 'h" where
  "head_of p es = (if es = [] then p else own_of (last es))"

lemma chained_append: "chained p (xs @ ys) \<longleftrightarrow> chained p xs \<and> chained (head_of p xs) ys"
  by (induction xs arbitrary: p) (auto simp: head_of_def)

lemma same_from_end:
  assumes "chained p xs" "chained q ys" "length xs = length ys" "xs \<noteq> []"
    and "own_of (last xs) = own_of (last ys)"
    and "\<forall>e\<in>set xs \<union> set ys. ok e" "inj_on dig (body ` (set xs \<union> set ys))"
  shows "list_all2 same xs ys \<and> p = q"
  using assms
proof (induction xs arbitrary: ys rule: rev_induct)
  case (snoc x xs)
  obtain ys' y where ys: "ys = ys' @ [y]" using snoc.prems(3) by (cases ys rule: rev_cases) auto
  have link: "prev_of x = head_of p xs" "prev_of y = head_of q ys'"
    and dig: "dig (body x) = Inr (own_of x)" "dig (body y) = Inr (own_of y)"
    and init: "chained p xs" "chained q ys'"
    using snoc.prems(1,2) by (simp_all add: ys chained_append)
  have own: "own_of x = own_of y" using snoc.prems(5) by (simp add: ys)
  have ok: "ok x" "ok y" using snoc.prems(6) by (simp_all add: ys)
  have body: "body x = body y"
    by (rule inj_onD [OF snoc.prems(7)]) (simp_all add: dig own ys)
  then have eq: "same x y" "head_of p xs = head_of q ys'"
    using body_covers_rest [OF ok body own] body_covers_prev [OF ok body] link by simp_all
  show ?case
  proof (cases "xs = []")
    case True
    then show ?thesis using eq snoc.prems(3) by (simp add: ys head_of_def)
  next
    case False
    then have "ys' \<noteq> []" using snoc.prems(3) by (auto simp: ys)
    with False eq(2) have "own_of (last xs) = own_of (last ys')" by (simp add: head_of_def)
    moreover have "inj_on dig (body ` (set xs \<union> set ys'))"
      using snoc.prems(7) by (rule inj_on_subset) (auto simp: ys)
    ultimately have "list_all2 same xs ys' \<and> p = q"
      using snoc.prems(3,6) init False by (intro snoc.IH) (auto simp: ys)
    then show ?thesis using eq(1) by (simp add: ys list_all2_appendI)
  qed
qed simp

end

text \<open>The trail's entries as the locale sees them.\<close>

definition prev_hash :: "entry \<Rightarrow> string" where
  "prev_hash e = dict_get_or e ''prev_hash'' []"

definition entry_hash :: "entry \<Rightarrow> string" where
  "entry_hash e = dict_get_or e ''entry_hash'' []"

definition hash_alg :: "entry \<Rightarrow> string" where
  "hash_alg e = dict_get_or e ''hash_alg'' []"

definition hashed :: "entry \<Rightarrow> string \<times> string" where
  "hashed e = (hash_alg e, canonical_entry e)"

definition text_digest :: "crypto \<Rightarrow> string option \<Rightarrow> string \<times> string \<Rightarrow> raised + string" where
  "text_digest cr key t = digest cr (snd t) (fst t) key"

definition stored_entry :: "entry \<Rightarrow> bool" where
  "stored_entry e \<longleftrightarrow> dict_ok e \<and> entry_hash e \<noteq> []"

lemma entry_fields:
  assumes "dict_ok e" "dict_ok e'" "canonical_entry e = canonical_entry e'" "k \<noteq> ''entry_hash''"
  shows "map_of e k = map_of e' k"
proof -
  have "map_of (filter (\<lambda>(k, v). k \<noteq> ''entry_hash'') e) = map_of (filter (\<lambda>(k, v). k \<noteq> ''entry_hash'') e')"
    using assms(1-3) by (intro canonical_dict_eq) (simp_all add: canonical_entry_def entry_json_def)
  moreover have "map_of (filter (\<lambda>(k, v). k \<noteq> ''entry_hash'') d) k = map_of d k" for d :: dict
    using assms(4) by (induction d) auto
  ultimately show ?thesis by metis
qed

lemma stored_entry_hash: "stored_entry e \<Longrightarrow> map_of e ''entry_hash'' = Some (entry_hash e)"
  by (auto simp: stored_entry_def entry_hash_def dict_get_or_def split: option.splits)

interpretation trail_chain: hash_chain hashed "text_digest cr key" prev_hash entry_hash stored_entry
  "\<lambda>e e'. map_of e = map_of e'" for cr key
proof unfold_locales
  fix e e' :: entry
  assume ok: "stored_entry e" "stored_entry e'" and eq: "hashed e = hashed e'"
  then have canon: "canonical_entry e = canonical_entry e'" and d: "dict_ok e" "dict_ok e'"
    by (simp_all add: hashed_def stored_entry_def)
  show "prev_hash e = prev_hash e'"
    by (simp add: prev_hash_def dict_get_or_def entry_fields [OF d canon])
  assume "entry_hash e = entry_hash e'"
  then have "map_of e ''entry_hash'' = map_of e' ''entry_hash''"
    using ok by (simp add: stored_entry_hash)
  then show "map_of e = map_of e'"
    using entry_fields [OF d canon] by (intro ext) metis
qed

abbreviation chained_from :: "crypto \<Rightarrow> string option \<Rightarrow> string \<Rightarrow> entry list \<Rightarrow> bool" where
  "chained_from cr key \<equiv> hash_chain.chained hashed (text_digest cr key) prev_hash entry_hash"

lemma text_digest_hashed [simp]:
  "text_digest cr key (hashed e) = digest cr (canonical_entry e) (hash_alg e) key"
  by (simp add: text_digest_def hashed_def)

lemma chained_from_simps [simp]:
  "chained_from cr key p []"
  "chained_from cr key p (e # es) \<longleftrightarrow>
     prev_hash e = p \<and> digest cr (canonical_entry e) (hash_alg e) key = Inr (entry_hash e) \<and>
     chained_from cr key (entry_hash e) es"
  by simp_all

section \<open>Appended trails\<close>

definition alg_for :: "string option \<Rightarrow> string" where
  "alg_for key = (if key \<noteq> None then ALG_KEYED else ALG_PLAIN)"

lemma alg_simps [simp]: "ALG_KEYED \<noteq> ALG_PLAIN" "ALG_PLAIN \<noteq> ALG_KEYED" "ALG_KEYED \<noteq> []" "ALG_PLAIN \<noteq> []"
  by (simp_all add: ALG_KEYED_def ALG_PLAIN_def)

lemma digest_total: "\<exists>h. digest cr t (alg_for key) key = Inr h"
  by (cases key) (simp_all add: digest_def alg_for_def)

lemma digest_result:
  assumes "crypto_ok cr" "digest cr t alg key = Inr h"
  shows "ascii h \<and> h \<noteq> []"
  using assms crypto_nonempty [of cr]
  by (auto simp: digest_def sha256_hex_def split: if_splits option.splits)

lemma genesis_ascii [simp]: "ascii GENESIS_HASH"
  by (simp add: GENESIS_HASH_def ascii_def)

lemma seal_total: "\<exists>p. legacy_seal cr legacy (alg_for key) key = Inr p"
  using digest_total by (simp add: legacy_seal_def)

lemma seal_ascii: "crypto_ok cr \<Longrightarrow> legacy_seal cr legacy alg key = Inr p \<Longrightarrow> ascii p"
  by (auto simp: legacy_seal_def dest: digest_result split: if_splits)

text \<open>
  A trail as the code writes it: unchained entries from before the upgrade, then entries chained
  under one key, sealed to them.
\<close>

definition appended :: "crypto \<Rightarrow> string option \<Rightarrow> trail \<Rightarrow> entry list \<Rightarrow> bool" where
  "appended cr key legacy es \<longleftrightarrow>
     (\<forall>e\<in>set legacy. \<not> is_chained e) \<and>
     (\<forall>e\<in>set es. stored_entry e \<and> hash_alg e = alg_for key) \<and>
     (\<exists>p. legacy_seal cr legacy (alg_for key) key = Inr p \<and> chained_from cr key p es)"

lemma appended_Nil [simp]: "appended cr key [] []"
  by (simp add: appended_def legacy_seal_def)

lemma stored_is_chained: "stored_entry e \<Longrightarrow> is_chained e"
  by (auto simp: is_chained_def HASH_FIELDS_def stored_entry_hash)

lemma canonical_entry_set [simp]:
  "canonical_entry (dict_set ''entry_hash'' h e) = canonical_entry e"
proof -
  have "filter (\<lambda>(k, v). k \<noteq> ''entry_hash'') (dict_set ''entry_hash'' h e) =
      filter (\<lambda>(k, v). k \<noteq> ''entry_hash'') e"
    by (induction e) auto
  then show ?thesis by (simp add: canonical_entry_def entry_json_def)
qed

text \<open>\<open>append_entry\<close> never raises, keeps the trail and stores the entry's own fields.\<close>

lemma append_entry_stores:
  assumes tr: "appended cr key legacy es" and cr: "crypto_ok cr" and e: "dict_ok e"
  shows "\<exists>x. append_entry cr key (legacy @ es) e = Inr (legacy @ es @ [x]) \<and>
     appended cr key legacy (es @ [x]) \<and> (\<forall>k. k \<notin> set HASH_FIELDS \<longrightarrow> map_of x k = map_of e k)"
proof -
  let ?stored = "filter (\<lambda>(k, v). k \<notin> set HASH_FIELDS) e"
  obtain p where p: "legacy_seal cr legacy (alg_for key) key = Inr p" "chained_from cr key p es"
    using tr by (auto simp: appended_def)
  have chained: "(\<exists>x\<in>set (legacy @ es). is_chained x) \<longleftrightarrow> es \<noteq> []"
    using tr by (cases es) (auto simp: appended_def stored_is_chained)
  define prev where "prev = trail_chain.head_of p es"
  have prev: "(if \<exists>x\<in>set (legacy @ es). is_chained x
      then Inr (dict_get_or (last (legacy @ es)) ''entry_hash'' [])
      else legacy_seal cr (legacy @ es) (alg_for key) key) = Inr prev"
    using p(1) chained by (auto simp: prev_def trail_chain.head_of_def entry_hash_def)
  define x1 where "x1 = dict_set ''prev_hash'' prev (dict_set ''hash_alg'' (alg_for key) ?stored)"
  obtain h where h: "digest cr (canonical_entry x1) (alg_for key) key = Inr h"
    using digest_total by blast
  define x where "x = dict_set ''entry_hash'' h x1"
  have app: "append_entry cr key (legacy @ es) e = Inr (legacy @ es @ [x])"
    unfolding append_entry_def Let_def alg_for_def [symmetric] prev bindE.simps
      x1_def [symmetric] h x_def by simp
  have x: "prev_hash x = prev" "hash_alg x = alg_for key" "entry_hash x = h"
    by (simp_all add: x_def x1_def prev_hash_def hash_alg_def entry_hash_def dict_get_or_def)
  have "stored_entry x"
    using digest_result [OF cr h] x(3) e by (simp add: stored_entry_def x_def x1_def)
  moreover have "chained_from cr key p (es @ [x])"
    using p(2) x h by (simp add: trail_chain.chained_append prev_def) (simp add: x_def)
  ultimately have "appended cr key legacy (es @ [x])"
    using tr x p(1) by (auto simp: appended_def)
  moreover have "map_of ?stored k = map_of e k" if "k \<notin> set HASH_FIELDS" for k
    using that by (induction e) auto
  then have "\<forall>k. k \<notin> set HASH_FIELDS \<longrightarrow> map_of x k = map_of e k"
    by (auto simp: x_def x1_def HASH_FIELDS_def)
  ultimately show ?thesis using app by blast
qed

section \<open>Verification of an appended trail\<close>

lemma first_chained_append:
  assumes "\<forall>e\<in>set legacy. \<not> is_chained e" "is_chained e"
  shows "first_chained (legacy @ e # es) = Some (length legacy)"
  unfolding first_chained_def find_Some_iff using assms
  by (intro exI [of _ "length legacy"]) (auto simp: nth_append)

lemma first_chained_Some:
  assumes "first_chained tr = Some n"
  shows "n < length tr" "is_chained (tr ! n)" "\<forall>e\<in>set (take n tr). \<not> is_chained e"
  using assms unfolding first_chained_def find_Some_iff
  by (auto simp: in_set_conv_nth)

lemma first_chained_None: "first_chained tr = None \<longleftrightarrow> (\<forall>e\<in>set tr. \<not> is_chained e)"
  unfolding first_chained_def find_None_iff all_set_conv_all_nth by auto

lemma check_chain_from:
  assumes "crypto_ok cr" "\<forall>e\<in>set es. stored_entry e \<and> hash_alg e = alg_for key"
    "chained_from cr key p es" "ascii p"
    "(case expected_prev st of Some q \<Rightarrow> Inr q | None \<Rightarrow> legacy_seal cr legacy (alg_for key) key) = Inr p"
    "key \<noteq> None \<longrightarrow> last_plain st = None" "es \<noteq> []"
  shows "\<exists>st'. check_chain cr key legacy i es st = Inr st' \<and> (key \<noteq> None \<longrightarrow> last_plain st' = None) \<and>
     keyed_entries st' = keyed_entries st + (if key \<noteq> None then length es else 0)"
  using assms
proof (induction es arbitrary: p st i)
  case (Cons e es)
  let ?st = "if alg_for key = ALG_KEYED
     then \<lparr>expected_prev = Some (entry_hash e), keyed_entries = Suc (keyed_entries st), last_plain = None\<rparr>
     else \<lparr>expected_prev = Some (entry_hash e), keyed_entries = keyed_entries st,
       last_plain = (if last_plain st = None then Some i else last_plain st)\<rparr>"
  have e: "digest cr (canonical_entry e) (alg_for key) key = Inr (entry_hash e)" "prev_hash e = p"
      "entry_hash e \<noteq> []" "ascii (entry_hash e)" "hash_alg e = alg_for key"
    using Cons.prems digest_result [of cr] by (auto simp: stored_entry_def)
  have prev: "(case expected_prev st of Some q \<Rightarrow> Inr q
      | None \<Rightarrow> raising (legacy_seal cr legacy (alg_for key) key)) = Inr p"
    using Cons.prems(5) by (auto split: option.splits)
  have alg: "alg_for key \<in> {ALG_KEYED, ALG_PLAIN}" "\<not> (alg_for key = ALG_KEYED \<and> key = None)"
    by (simp_all add: alg_for_def)
  have step: "check_entry cr key legacy i e st = Inr ?st"
    unfolding check_entry_def Let_def
      prev_hash_def [symmetric] entry_hash_def [symmetric] hash_alg_def [symmetric]
    unfolding e(5,2) prev e(1) bindE.simps
    using e(3,4) alg Cons.prems(4) by (simp add: compare_digest_refl)
  have key: "alg_for key = ALG_KEYED \<longleftrightarrow> key \<noteq> None" by (simp add: alg_for_def)
  show ?case
  proof (cases "es = []")
    case True
    then show ?thesis using step Cons.prems(6) by (auto simp: key)
  next
    case False
    have "\<exists>st'. check_chain cr key legacy (Suc i) es ?st = Inr st' \<and> (key \<noteq> None \<longrightarrow> last_plain st' = None) \<and>
       keyed_entries st' = keyed_entries ?st + (if key \<noteq> None then length es else 0)"
      using Cons.prems False e(4) by (intro Cons.IH [of "entry_hash e"]) (auto simp: key)
    then show ?thesis using step by (auto simp: key)
  qed
qed simp

lemma check_chain_appended:
  assumes "appended cr key legacy es" "crypto_ok cr" "es \<noteq> []"
  shows "\<exists>st. check_chain cr key legacy (length legacy) es chain_start = Inr st \<and>
     (key \<noteq> None \<longrightarrow> last_plain st = None) \<and>
     keyed_entries st = (if key \<noteq> None then length es else 0)"
proof -
  obtain p where p: "legacy_seal cr legacy (alg_for key) key = Inr p" "chained_from cr key p es"
    using assms(1) by (auto simp: appended_def)
  show ?thesis
    using check_chain_from [where st = chain_start and p = p and es = es and key = key and cr = cr and legacy = legacy] assms p seal_ascii
    by (auto simp: chain_start_def appended_def)
qed

section \<open>What an accepted trail says\<close>

lemma raising_Inr [result_simps]: "raising x = Inr y \<longleftrightarrow> x = Inr y"
  by (cases x) simp_all

lemma check_entry_Inr:
  assumes "check_entry cr key legacy i e st = Inr st'"
  shows "(case expected_prev st of Some q \<Rightarrow> Inr q | None \<Rightarrow> legacy_seal cr legacy (hash_alg e) key) = Inr (prev_hash e)"
    and "digest cr (canonical_entry e) (hash_alg e) key = Inr (entry_hash e)"
    and "entry_hash e \<noteq> []" and "expected_prev st' = Some (entry_hash e)"
  using assms unfolding check_entry_def Let_def
    prev_hash_def [symmetric] entry_hash_def [symmetric] hash_alg_def [symmetric]
  by (auto simp: result_simps split: if_splits option.splits)

lemma check_chain_Inr:
  assumes "check_chain cr key legacy i es st = Inr st'" "es \<noteq> []"
  shows "chained_from cr key (prev_hash (hd es)) es \<and> (\<forall>e\<in>set es. entry_hash e \<noteq> []) \<and>
     (case expected_prev st of Some q \<Rightarrow> Inr q | None \<Rightarrow> legacy_seal cr legacy (hash_alg (hd es)) key) =
       Inr (prev_hash (hd es))"
  using assms
proof (induction es arbitrary: st i)
  case (Cons e es)
  obtain st1 where st1: "check_entry cr key legacy i e st = Inr st1"
    and rest: "check_chain cr key legacy (Suc i) es st1 = Inr st'"
    using Cons.prems(1) by (auto simp: bindE_Inr_iff)
  note e = check_entry_Inr [OF st1]
  show ?case
  proof (cases "es = []")
    case True
    then show ?thesis using e unfolding list.sel by simp
  next
    case False
    then have "prev_hash (hd es) = entry_hash e" "chained_from cr key (prev_hash (hd es)) es"
      "\<forall>x\<in>set es. entry_hash x \<noteq> []"
      using Cons.IH [OF rest False] e(4) by simp_all
    then show ?thesis using e unfolding list.sel by simp
  qed
qed simp

lemma verify_content_ok:
  assumes "verify_content cr key tr first anchored st arts ds = Inr v" "v_status v = STATUS_OK"
  shows "arts = Some a \<Longrightarrow> changed_since_approval cr tr a ds = Inr []"
    and "ds = Some l \<Longrightarrow> decisions_changed cr tr l = Inr []"
  using assms
  by (auto simp: verify_content_def Let_def verification_result_def result_simps split: if_splits option.splits)

lemma verify_trail_ok:
  assumes "verify_trail cr key tr anchor arts ds = Inr v" "v_status v = STATUS_OK"
  shows "tr = [] \<and> (\<forall>n h. anchor = Some (n, h) \<longrightarrow> n \<le> 0) \<or>
     (\<exists>f st. first_chained tr = Some f \<and>
        check_chain cr key (take f tr) f (drop f tr) chain_start = Inr st \<and>
        (\<forall>n h. anchor = Some (n, h) \<and> 0 < n \<longrightarrow> nat n \<le> length tr \<and> entry_hash (tr ! (nat n - 1)) = h) \<and>
        (\<exists>anchored. verify_content cr key tr f anchored st arts ds = Inr v))"
proof (cases "first_chained tr")
  case None
  then show ?thesis using assms
    by (auto simp: verify_trail_def Let_def verification_result_def split: if_splits option.splits prod.splits)
next
  case (Some f)
  have *: "verify_trail cr key tr anchor arts ds = Inr v" by fact
  obtain st where st: "check_chain cr key (take f tr) f (drop f tr) chain_start = Inr st"
    using assms Some
    by (auto simp: verify_trail_def Let_def verification_result_def split: sum.splits chain_stop.splits)
  show ?thesis
    using * assms(2) Some st unfolding verify_trail_def Let_def entry_hash_def
    by (auto simp: verification_result_def result_simps split: if_splits option.splits prod.splits)
qed

section \<open>The texts a trail hashes\<close>

definition hashed_texts :: "trail \<Rightarrow> (string \<times> string) set" where
  "hashed_texts tr = (case first_chained tr of None \<Rightarrow> {}
     | Some f \<Rightarrow> hashed ` set (drop f tr) \<union>
         (if f = 0 then {} else {(hash_alg (tr ! f), seal_text (take f tr))}))"

lemma seal_text_not_entry: "seal_text legacy \<noteq> canonical_entry e"
  by (simp add: seal_text_def canonical_entry_def canonical_eq_iff entry_json_def dict_json_def)

lemma seal_text_eq:
  assumes "\<forall>e\<in>set xs \<union> set ys. dict_ok e" "seal_text xs = seal_text ys"
  shows "map map_of xs = map map_of ys"
proof -
  have eq: "map (\<lambda>e. sort_keys (dict_json e)) xs = map (\<lambda>e. sort_keys (dict_json e)) ys"
    using assms(2) by (simp add: seal_text_def canonical_eq_iff comp_def)
  show ?thesis
  proof (rule nth_equalityI)
    show "length (map map_of xs) = length (map map_of ys)"
      using map_eq_imp_length_eq [OF eq] by simp
    fix i assume "i < length (map map_of xs)"
    then have i: "i < length xs" "i < length ys" using map_eq_imp_length_eq [OF eq] by simp_all
    have "sort_keys (dict_json (xs ! i)) = sort_keys (dict_json (ys ! i))"
      using eq i by (metis nth_map)
    then show "map map_of xs ! i = map map_of ys ! i"
      using assms(1) i by (simp add: canonical_dict_eq canonical_eq_iff)
  qed
qed

text \<open>A chained suffix of a trail, with what precedes it.\<close>

definition accepted_chain :: "crypto \<Rightarrow> string option \<Rightarrow> trail \<Rightarrow> nat \<Rightarrow> bool" where
  "accepted_chain cr key tr f \<longleftrightarrow> f < length tr \<and> first_chained tr = Some f \<and>
     (\<forall>e\<in>set (drop f tr). entry_hash e \<noteq> []) \<and>
     (\<exists>p. legacy_seal cr (take f tr) (hash_alg (tr ! f)) key = Inr p \<and> chained_from cr key p (drop f tr))"

lemma check_chain_accepted:
  assumes "first_chained tr = Some f" "check_chain cr key (take f tr) f (drop f tr) chain_start = Inr st"
  shows "accepted_chain cr key tr f"
proof -
  have f: "f < length tr" using assms(1) by (rule first_chained_Some)
  then have "drop f tr \<noteq> []" "hd (drop f tr) = tr ! f" by (simp_all add: hd_drop_conv_nth)
  then show ?thesis
    using check_chain_Inr [OF assms(2)] f assms(1) by (auto simp: accepted_chain_def chain_start_def)
qed

lemma accepted_hashed:
  assumes "accepted_chain cr key tr f" "f \<le> i" "i < length tr"
  shows "text_digest cr key (hashed (tr ! i)) = Inr (entry_hash (tr ! i))" "entry_hash (tr ! i) \<noteq> []"
    "hashed (tr ! i) \<in> hashed_texts tr"
proof -
  obtain p where p: "chained_from cr key p (drop f tr)" using assms(1) by (auto simp: accepted_chain_def)
  have split: "drop f tr = take (i - f) (drop f tr) @ tr ! i # drop (Suc i) tr"
    using assms(2,3) id_take_nth_drop [of "i - f" "drop f tr"] by simp
  have "chained_from cr key p (take (i - f) (drop f tr) @ tr ! i # drop (Suc i) tr)"
    using p split by metis
  then show "text_digest cr key (hashed (tr ! i)) = Inr (entry_hash (tr ! i))"
    unfolding trail_chain.chained_append by simp
  have i: "tr ! i \<in> set (drop f tr)"
    using split by (metis in_set_conv_decomp)
  then show "entry_hash (tr ! i) \<noteq> []" using assms(1) by (auto simp: accepted_chain_def)
  show "hashed (tr ! i) \<in> hashed_texts tr"
    using i assms(1) by (auto simp: hashed_texts_def accepted_chain_def)
qed

text \<open>Where the chain from position \<open>k\<close> on starts, and the text that start was hashed from.\<close>

lemma accepted_from:
  assumes tr: "accepted_chain cr key tr f" and k: "f \<le> k" "k < length tr"
  shows "\<exists>p. chained_from cr key p (drop k tr) \<and>
     (k = f \<and> f = 0 \<or>
      (\<exists>t\<in>hashed_texts tr. text_digest cr key t = Inr p \<and>
         (k = f \<and> 0 < f \<and> snd t = seal_text (take f tr) \<or> f < k \<and> snd t = canonical_entry (tr ! (k - 1)))))"
proof -
  obtain p where p: "legacy_seal cr (take f tr) (hash_alg (tr ! f)) key = Inr p"
    "chained_from cr key p (drop f tr)" "first_chained tr = Some f" "f < length tr"
    using tr by (auto simp: accepted_chain_def)
  show ?thesis
  proof (cases "k = f")
    case True
    have "f = 0 \<or> text_digest cr key (hash_alg (tr ! f), seal_text (take f tr)) = Inr p"
      using p(1,4) by (auto simp: legacy_seal_def text_digest_def split: if_splits)
    moreover have "f = 0 \<or> (hash_alg (tr ! f), seal_text (take f tr)) \<in> hashed_texts tr"
      using p(3) by (simp add: hashed_texts_def)
    ultimately show ?thesis using p(2) True by force
  next
    case False
    then have fk: "f \<le> k - 1" "k - 1 < length tr" "f < k" using k by simp_all
    have "drop f tr = take (k - f) (drop f tr) @ drop k tr"
      using k append_take_drop_id [of "k - f" "drop f tr"] by simp
    then have "chained_from cr key (trail_chain.head_of p (take (k - f) (drop f tr))) (drop k tr)"
      using p(2) trail_chain.chained_append by metis
    moreover have "take (k - f) (drop f tr) \<noteq> []" "last (take (k - f) (drop f tr)) = tr ! (k - 1)"
      using fk k by (simp_all add: last_conv_nth)
    ultimately have "chained_from cr key (entry_hash (tr ! (k - 1))) (drop k tr)"
      by (simp add: trail_chain.head_of_def)
    then show ?thesis
      using accepted_hashed [OF tr fk(1,2)] fk(3) False by (force simp: hashed_def)
  qed
qed

lemma chained_take: "chained_from cr key p es \<Longrightarrow> chained_from cr key p (take n es)"
  using trail_chain.chained_append [of cr key p "take n es" "drop n es"] by simp

lemma accepted_prefix:
  assumes tr: "accepted_chain cr key tr f" and tr': "accepted_chain cr key tr' f'"
    and len: "length tr \<le> length tr'"
    and head: "entry_hash (tr' ! (length tr - 1)) = entry_hash (last tr)"
    and ok: "\<forall>e\<in>set tr \<union> set tr'. dict_ok e"
    and inj: "no_collision (text_digest cr key) (hashed_texts tr \<union> hashed_texts tr')"
  shows "map map_of (take (length tr) tr') = map map_of tr"
proof -
  let ?n = "length tr"
  define k where "k = max f f'"
  have f: "f < ?n" "f \<le> ?n - 1" using tr by (auto simp: accepted_chain_def)
  have last: "last tr = tr ! (?n - 1)" using f by (cases "tr = []") (simp_all add: last_conv_nth)
  have "entry_hash (last tr) \<noteq> []"
    unfolding last using accepted_hashed(2) [OF tr f(2)] f(1) by simp
  then have "is_chained (tr' ! (?n - 1))"
    unfolding head [symmetric]
    by (auto simp: is_chained_def HASH_FIELDS_def entry_hash_def dict_get_or_def split: option.splits)
  moreover have "\<forall>e\<in>set (take f' tr'). \<not> is_chained e"
    using tr' first_chained_Some(3) by (auto simp: accepted_chain_def)
  ultimately have "tr' ! (?n - 1) \<notin> set (take f' tr')" by blast
  moreover have "tr' ! (?n - 1) \<in> set (take f' tr')" if "?n \<le> f'"
    using that f(1) len by (auto simp: in_set_conv_nth intro: exI [of _ "?n - 1"])
  ultimately have f': "f' < ?n" by (meson not_less)
  have k: "f \<le> k" "f' \<le> k" "k < ?n" "k < length tr'" using f f' len by (simp_all add: k_def)
  obtain p where p: "chained_from cr key p (drop k tr)"
    "k = f \<and> f = 0 \<or> (\<exists>t\<in>hashed_texts tr. text_digest cr key t = Inr p \<and>
       (k = f \<and> 0 < f \<and> snd t = seal_text (take f tr) \<or> f < k \<and> snd t = canonical_entry (tr ! (k - 1))))"
    using accepted_from [OF tr k(1,3)] by blast
  obtain q where q: "chained_from cr key q (drop k tr')"
    "k = f' \<and> f' = 0 \<or> (\<exists>t\<in>hashed_texts tr'. text_digest cr key t = Inr q \<and>
       (k = f' \<and> 0 < f' \<and> snd t = seal_text (take f' tr') \<or> f' < k \<and> snd t = canonical_entry (tr' ! (k - 1))))"
    using accepted_from [OF tr' k(2,4)] by blast
  let ?xs = "drop k tr" and ?ys = "take (?n - k) (drop k tr')"
  have mem: "hashed e \<in> hashed_texts tr" "stored_entry e" if "e \<in> set ?xs" for e
    using that accepted_hashed [OF tr] k ok in_set_dropD [OF that]
    by (auto simp: stored_entry_def in_set_conv_nth [of e "drop k tr"])
  have mem': "hashed e \<in> hashed_texts tr'" "stored_entry e" if "e \<in> set ?ys" for e
    using that accepted_hashed [OF tr'] k ok in_set_dropD [OF in_set_takeD [OF that]]
    by (auto simp: stored_entry_def in_set_conv_nth [of e "take (?n - k) (drop k tr')"])
  have "list_all2 (\<lambda>e e'. map_of e = map_of e') ?xs ?ys \<and> p = q"
  proof (rule trail_chain.same_from_end [where cr = cr and key = key])
    show "chained_from cr key p ?xs" "chained_from cr key q ?ys" using p q by (simp_all add: chained_take)
    show "length ?xs = length ?ys" "?xs \<noteq> []" using k len by simp_all
    show "entry_hash (last ?xs) = entry_hash (last ?ys)"
      using k len head last by (simp add: last_conv_nth)
    show "\<forall>e\<in>set ?xs \<union> set ?ys. stored_entry e" using mem(2) mem'(2) by blast
    show "inj_on (text_digest cr key) (hashed ` (set ?xs \<union> set ?ys))"
      using inj mem(1) mem'(1) unfolding no_collision_def by (elim inj_on_subset) blast
  qed
  then have same: "list_all2 (\<lambda>e e'. map_of e = map_of e') ?xs ?ys" and pq: "p = q" by simp_all
  have collide: "t = t'" if "t \<in> hashed_texts tr" "t' \<in> hashed_texts tr'"
    "text_digest cr key t = Inr p" "text_digest cr key t' = Inr p" for t t'
    using inj that by (intro no_collisionD [of "text_digest cr key" "hashed_texts tr \<union> hashed_texts tr'"]) auto
  have ff: "f = f'" and legacy: "map map_of (take k tr) = map map_of (take k tr')"
  proof -
    show ff: "f = f'"
    proof (cases f f' rule: linorder_cases)
      case less
      then have kf: "k = f'" by (simp add: k_def)
      obtain t where t: "t \<in> hashed_texts tr" "text_digest cr key t = Inr p" "snd t = canonical_entry (tr ! (k - 1))"
        using p(2) less kf by auto
      obtain t' where t': "t' \<in> hashed_texts tr'" "text_digest cr key t' = Inr q" "snd t' = seal_text (take f' tr')"
        using q(2) less kf by auto
      then show ?thesis using collide t pq seal_text_not_entry by metis
    next
      case greater
      then have kf: "k = f" by (simp add: k_def)
      obtain t where t: "t \<in> hashed_texts tr" "text_digest cr key t = Inr p" "snd t = seal_text (take f tr)"
        using p(2) greater kf by auto
      obtain t' where t': "t' \<in> hashed_texts tr'" "text_digest cr key t' = Inr q" "snd t' = canonical_entry (tr' ! (k - 1))"
        using q(2) greater kf by auto
      then show ?thesis using collide t pq seal_text_not_entry by metis
    qed
    then have kf: "k = f" by (simp add: k_def)
    show "map map_of (take k tr) = map map_of (take k tr')"
    proof (cases "f = 0")
      case False
      obtain t where t: "t \<in> hashed_texts tr" "text_digest cr key t = Inr p" "snd t = seal_text (take f tr)"
        using p(2) False kf by auto
      obtain t' where t': "t' \<in> hashed_texts tr'" "text_digest cr key t' = Inr q" "snd t' = seal_text (take f tr')"
        using q(2) False kf ff by auto
      then have "seal_text (take f tr) = seal_text (take f tr')"
        using collide t pq by metis
      then show ?thesis
        using ok by (intro seal_text_eq) (auto simp: kf dest: in_set_takeD)
    qed (simp add: kf)
  qed
  have "map map_of ?xs = map map_of ?ys"
    using same by (simp add: list_all2_conv_all_nth list_eq_iff_nth_eq)
  then have "map map_of (take k tr') @ map map_of ?ys = map map_of tr"
    using legacy by (metis append_take_drop_id map_append)
  moreover have "take k tr' @ ?ys = take ?n tr'"
    using k by (metis le_add_diff_inverse less_imp_le take_add)
  ultimately show ?thesis by (metis map_append)
qed

section \<open>Appended trails verify\<close>

lemma entry_hash_ascii:
  assumes "appended cr key legacy es" "crypto_ok cr" "e \<in> set es"
  shows "ascii (entry_hash e) \<and> entry_hash e \<noteq> []"
proof -
  obtain p where "chained_from cr key p es" using assms(1) by (auto simp: appended_def)
  with assms(3) have "\<exists>t alg. digest cr t alg key = Inr (entry_hash e)"
    by (induction es arbitrary: p) auto
  then show ?thesis using digest_result [OF assms(2)] by blast
qed

text \<open>An anchor taken when the trail had \<open>m\<close> of its chained entries.\<close>

definition anchor_at :: "trail \<Rightarrow> entry list \<Rightarrow> nat \<Rightarrow> (int \<times> string) option" where
  "anchor_at legacy es m =
     (if m = 0 then None else Some (int (length legacy + m), entry_hash (es ! (m - 1))))"

lemma verify_appended:
  assumes tr: "appended cr key legacy es" and cr: "crypto_ok cr" and es: "es \<noteq> []"
    and m: "m \<le> length es" and anchor: "anchor = anchor_at legacy es m"
  shows "\<exists>st. (key \<noteq> None \<longrightarrow> last_plain st = None) \<and>
     keyed_entries st = (if key \<noteq> None then length es else 0) \<and>
     verify_trail cr key (legacy @ es) anchor arts ds =
       verify_content cr key (legacy @ es) (length legacy) (0 < m) st arts ds"
proof -
  obtain e es' where e: "es = e # es'" using es by (cases es) auto
  have first: "first_chained (legacy @ es) = Some (length legacy)"
    unfolding e using tr by (intro first_chained_append) (auto simp: appended_def e stored_is_chained)
  obtain st where st: "check_chain cr key legacy (length legacy) es chain_start = Inr st"
    "key \<noteq> None \<longrightarrow> last_plain st = None" "keyed_entries st = (if key \<noteq> None then length es else 0)"
    using check_chain_appended [OF tr cr es] by blast
  have chain: "check_chain cr key (take (length legacy) (legacy @ es)) (length legacy)
      (drop (length legacy) (legacy @ es)) chain_start = Inr st"
    using st(1) by simp
  have "verify_trail cr key (legacy @ es) anchor arts ds =
      verify_content cr key (legacy @ es) (length legacy) (0 < m) st arts ds"
  proof (cases "m = 0")
    case True
    then show ?thesis
      using anchor by (simp add: anchor_at_def verify_trail_def first chain del: take_append drop_append)
  next
    case False
    have at: "(legacy @ es) ! (length legacy + m - 1) = es ! (m - 1)"
      using False by (cases m) (simp_all add: nth_append)
    have ascii: "ascii (entry_hash (es ! (m - 1)))"
      using False m by (intro entry_hash_ascii [OF tr cr, THEN conjunct1]) simp
    have anchor': "anchor = Some (int (length legacy + m), entry_hash (es ! (m - 1)))"
      using anchor False by (simp add: anchor_at_def)
    show ?thesis
      unfolding verify_trail_def anchor' option.case prod.case Let_def first chain sum.case nat_int at
        entry_hash_def [symmetric]
      using False m ascii by (simp add: compare_digest_refl)
  qed
  then show ?thesis using st by blast
qed

lemma verify_content_clean:
  assumes "key \<noteq> None \<longrightarrow> last_plain st = None"
    "\<And>a. arts = Some a \<Longrightarrow> changed_since_approval cr tr a ds = Inr []"
    "\<And>l. ds = Some l \<Longrightarrow> decisions_changed cr tr l = Inr []"
  shows "verify_content cr key tr first anchored st arts ds = Inr ((verification_result STATUS_OK tr)
     \<lparr>v_legacy_entries := first, v_anchored := anchored, v_keyed := (keyed_entries st = length tr - first)\<rparr>)"
  using assms by (cases arts; cases ds; auto simp: verify_content_def)

lemma appended_verifies_with:
  assumes tr: "appended cr key legacy es" "crypto_ok cr" "es \<noteq> []" "m \<le> length es"
    and clean: "\<And>a. arts = Some a \<Longrightarrow> changed_since_approval cr (legacy @ es) a ds = Inr []"
      "\<And>l. ds = Some l \<Longrightarrow> decisions_changed cr (legacy @ es) l = Inr []"
  shows "\<exists>v. verify_trail cr key (legacy @ es) (anchor_at legacy es m) arts ds = Inr v \<and>
     v_ok v \<and> v_status v = STATUS_OK \<and> v_keyed v = (key \<noteq> None) \<and> v_entries v = length legacy + length es"
proof -
  obtain st where st: "key \<noteq> None \<longrightarrow> last_plain st = None"
    "keyed_entries st = (if key \<noteq> None then length es else 0)"
    "verify_trail cr key (legacy @ es) (anchor_at legacy es m) arts ds =
       verify_content cr key (legacy @ es) (length legacy) (0 < m) st arts ds"
    using verify_appended [OF tr refl] by blast
  have "verify_content cr key (legacy @ es) (length legacy) (0 < m) st arts ds =
      Inr ((verification_result STATUS_OK (legacy @ es))
        \<lparr>v_legacy_entries := length legacy, v_anchored := 0 < m,
         v_keyed := (keyed_entries st = length (legacy @ es) - length legacy)\<rparr>)"
    using st(1) clean by (rule verify_content_clean)
  then show ?thesis
    unfolding st(3) using tr(3) st(2) by (simp add: verification_result_def trail_head_def Let_def)
qed

lemma appended_trail_ok:
  assumes "appended cr key legacy es" "crypto_ok cr" "es \<noteq> []" "m \<le> length es"
  shows "\<exists>v. verify_trail cr key (legacy @ es) (anchor_at legacy es m) None None = Inr v \<and>
     v_ok v \<and> v_status v = STATUS_OK \<and> v_keyed v = (key \<noteq> None) \<and> v_entries v = length legacy + length es"
  using assms by (rule appended_verifies_with) simp_all

section \<open>Properties\<close>

text \<open>Entries appended one after the other, as \<open>_stamp_trail\<close> does.\<close>

fun append_all :: "crypto \<Rightarrow> string option \<Rightarrow> trail \<Rightarrow> entry list \<Rightarrow> raised + trail" where
  "append_all cr key tr [] = Inr tr"
| "append_all cr key tr (e # es) = bindE (append_entry cr key tr e) (\<lambda>tr'. append_all cr key tr' es)"

lemma append_all_stores:
  assumes "appended cr key legacy es" "crypto_ok cr" "\<forall>e\<in>set new. dict_ok e"
  shows "\<exists>es'. append_all cr key (legacy @ es) new = Inr (legacy @ es @ es') \<and>
     length es' = length new \<and> appended cr key legacy (es @ es')"
  using assms
proof (induction new arbitrary: es)
  case (Cons e new)
  obtain x where x: "append_entry cr key (legacy @ es) e = Inr (legacy @ es @ [x])"
    "appended cr key legacy (es @ [x])"
    using append_entry_stores [OF Cons.prems(1,2), of e] Cons.prems(3) by auto
  obtain es' where "append_all cr key (legacy @ (es @ [x])) new = Inr (legacy @ (es @ [x]) @ es')"
    "length es' = length new" "appended cr key legacy ((es @ [x]) @ es')"
    using Cons.IH [OF x(2) Cons.prems(2)] Cons.prems(3) by auto
  then show ?case using x by (intro exI [of _ "x # es'"]) simp
qed simp

lemma append_all_verifies:
  assumes cr: "crypto_ok cr" and legacy: "\<forall>e\<in>set legacy. \<not> is_chained e"
    and new: "\<forall>e\<in>set es1 \<union> set es2. dict_ok e" "es1 \<noteq> []"
  shows "\<exists>tr1 tr2 h v.
     append_all cr key legacy es1 = Inr tr1 \<and> append_all cr key tr1 es2 = Inr tr2 \<and>
     trail_head tr1 = (length tr1, Some h) \<and>
     verify_trail cr key tr2 (Some (int (length tr1), h)) None None = Inr v \<and>
     v_status v = STATUS_OK \<and> v_keyed v = (key \<noteq> None) \<and>
     v_entries v = length legacy + length es1 + length es2"
proof -
  have start: "appended cr key legacy []"
    using legacy seal_total [of cr legacy key] by (simp add: appended_def)
  obtain xs where xs: "append_all cr key legacy es1 = Inr (legacy @ xs)" "length xs = length es1"
      "appended cr key legacy xs"
    using append_all_stores [OF start cr, of es1] new by auto
  obtain ys where ys: "append_all cr key (legacy @ xs) es2 = Inr (legacy @ xs @ ys)"
      "length ys = length es2" "appended cr key legacy (xs @ ys)"
    using append_all_stores [OF xs(3) cr, of es2] new by auto
  have ne: "xs \<noteq> []" using xs(2) new(2) by auto
  then have h: "entry_hash (last xs) \<noteq> []"
    using entry_hash_ascii [OF xs(3) cr, of "last xs"] by simp
  have head: "trail_head (legacy @ xs) = (length (legacy @ xs), Some (entry_hash (last xs)))"
    using ne h by (simp add: trail_head_def entry_hash_def Let_def)
  have "anchor_at legacy (xs @ ys) (length xs) = Some (int (length (legacy @ xs)), entry_hash (last xs))"
    using ne by (simp add: anchor_at_def nth_append last_conv_nth)
  with appended_trail_ok [OF ys(3) cr, of "length xs"] ne
  obtain v where "verify_trail cr key (legacy @ xs @ ys)
       (Some (int (length (legacy @ xs)), entry_hash (last xs))) None None = Inr v"
    "v_status v = STATUS_OK" "v_keyed v = (key \<noteq> None)"
    "v_entries v = length legacy + length (xs @ ys)"
    by auto
  then show ?thesis
    using xs(1,2) ys(1,2) head by (intro exI conjI) (assumption | simp)+
qed

text \<open>
  \<open>append_entry\<close> never raises, and whatever is appended, to an
  empty trail or after unchained entries from before the upgrade, in one sitting or in two,
  the trail verifies with status \<open>ok\<close>, also against the head that was anchored in between.
\<close>

lemma appended_trails_verify:
  assumes cr: "crypto_ok cr" and legacy: "\<forall>e\<in>set legacy. \<not> is_chained e"
    and new: "\<forall>e\<in>set es1 \<union> set es2. dict_ok e" "es1 \<noteq> []"
  shows "\<exists>tr1 tr2 h v.
     append_all cr key legacy es1 = Inr tr1 \<and> append_all cr key tr1 es2 = Inr tr2 \<and>
     trail_head tr1 = (length tr1, Some h) \<and>
     verify_trail cr key tr2 (Some (int (length tr1), h)) None None = Inr v \<and>
     v_status v = STATUS_OK \<and> v_keyed v = (key \<noteq> None) \<and>
     v_entries v = length legacy + length es1 + length es2"
  using assms by (rule append_all_verifies)

theorem appended_trails_verify_witness:
  "\<exists>tr1 tr2 h v.
     append_all toy_crypto (Some ''k'') [[(''action'', ''old'')]] [[(''action'', ''retry'')]] = Inr tr1 \<and>
     append_all toy_crypto (Some ''k'') tr1 [[(''action'', ''gate_approval'')]] = Inr tr2 \<and>
     trail_head tr1 = (length tr1, Some h) \<and>
     verify_trail toy_crypto (Some ''k'') tr2 (Some (int (length tr1), h)) None None = Inr v \<and>
     v_status v = STATUS_OK \<and> v_keyed v = (Some ''k'' \<noteq> None) \<and>
     v_entries v = length [[(''action'', ''old'')]] + length [[(''action'', ''retry'')]]
       + length [[(''action'', ''gate_approval'')]]"
  by (rule appended_trails_verify) (simp_all add: is_chained_def HASH_FIELDS_def dict_ok_def)

text \<open>
  C17. [anchored_trail_authentic] Tampering is detected: when a trail verified and its head was
  anchored, any trail that later verifies against that anchor has at least as many entries and
  starts with exactly the same ones, field for field, unless two of the texts that were hashed
  have the same digest. Editing, removing, inserting, reordering and truncation are all covered.
\<close>

theorem anchored_trail_authentic:
  assumes orig: "verify_trail cr key tr a0 arts0 ds0 = Inr v0" "v_status v0 = STATUS_OK" "tr \<noteq> []"
    and anchor: "trail_head tr = (n, Some h)"
    and later: "verify_trail cr key tr' (Some (int n, h)) arts ds = Inr v" "v_status v = STATUS_OK"
    and ok: "\<forall>e\<in>set tr \<union> set tr'. dict_ok e"
    and inj: "no_collision (text_digest cr key) (hashed_texts tr \<union> hashed_texts tr')"
  shows "n = length tr \<and> n \<le> length tr' \<and> map map_of (take n tr') = map map_of tr"
proof -
  have n: "n = length tr" "0 < n" "entry_hash (last tr) = h"
    using anchor orig(3) by (auto simp: trail_head_def entry_hash_def Let_def split: if_splits)
  obtain f where f: "accepted_chain cr key tr f"
    using verify_trail_ok [OF orig(1,2)] orig(3) check_chain_accepted by blast
  have "\<not> (tr' = [] \<and> int n \<le> 0)" using n by simp
  then obtain f' st where f': "first_chained tr' = Some f'"
      "check_chain cr key (take f' tr') f' (drop f' tr') chain_start = Inr st"
      "n \<le> length tr'" "entry_hash (tr' ! (n - 1)) = h"
    using verify_trail_ok [OF later] n(2) by force
  have "map map_of (take (length tr) tr') = map map_of tr"
    using f check_chain_accepted [OF f'(1,2)] f'(3,4) n ok inj
    by (intro accepted_prefix) simp_all
  then show ?thesis using n f'(3) by simp
qed

lemma toy_no_collision:
  assumes "\<forall>t\<in>A. fst t = ALG_PLAIN"
  shows "no_collision (text_digest toy_crypto None) A"
  unfolding no_collision_def
proof (rule inj_onI)
  fix t u assume "t \<in> A" "u \<in> A" "text_digest toy_crypto None t = text_digest toy_crypto None u"
  then show "t = u"
    using assms by (simp add: text_digest_def digest_def toy_crypto_def sha256_hex_def prod_eq_iff)
qed

lemma appended_texts:
  assumes "appended cr key [] es"
  shows "t \<in> hashed_texts es \<Longrightarrow> fst t = alg_for key"
  using assms by (cases es) (auto simp: hashed_texts_def appended_def hashed_def stored_is_chained
      first_chained_append [of "[]", simplified] first_chained_None [THEN iffD2])

theorem anchored_trail_authentic_witness:
  "\<exists>tr tr' h. length tr = 1 \<and> length tr' = 2 \<and> trail_head tr = (1, Some h) \<and>
     (\<exists>v. verify_trail toy_crypto None tr' (Some (1, h)) None None = Inr v \<and> v_status v = STATUS_OK) \<and>
     1 = length tr \<and> 1 \<le> length tr' \<and> map map_of (take 1 tr') = map map_of tr"
proof -
  obtain tr1 tr2 h v where w:
    "append_all toy_crypto None [] [[(''action'', ''retry'')]] = Inr tr1"
    "append_all toy_crypto None tr1 [[(''action'', ''gate_approval'')]] = Inr tr2"
    "trail_head tr1 = (length tr1, Some h)"
    "verify_trail toy_crypto None tr2 (Some (int (length tr1), h)) None None = Inr v" "v_status v = STATUS_OK"
    using append_all_verifies [of toy_crypto "[]" "[[(''action'', ''retry'')]]"
        "[[(''action'', ''gate_approval'')]]" None]
    by (auto simp: dict_ok_def)
  obtain x where x: "tr1 = [x]" "appended toy_crypto None [] [x]"
    using append_all_stores [of toy_crypto None "[]" "[]" "[[(''action'', ''retry'')]]"] w(1)
    by (auto simp: dict_ok_def length_Suc_conv)
  obtain y where y: "tr2 = [x, y]" "appended toy_crypto None [] [x, y]"
    using append_all_stores [of toy_crypto None "[]" "[x]" "[[(''action'', ''gate_approval'')]]"] w(2) x
    by (auto simp: dict_ok_def length_Suc_conv)
  obtain v0 where v0: "verify_trail toy_crypto None tr1 None None None = Inr v0" "v_status v0 = STATUS_OK"
    using appended_trail_ok [OF x(2), of 0] x(1) by (auto simp: anchor_at_def)
  have ok: "\<forall>e\<in>set tr1 \<union> set tr2. dict_ok e"
    using y x(1) by (auto simp: appended_def stored_entry_def)
  have inj: "no_collision (text_digest toy_crypto None) (hashed_texts tr1 \<union> hashed_texts tr2)"
    using appended_texts [OF x(2)] appended_texts [OF y(2)] x(1) y(1)
    by (intro toy_no_collision) (auto simp: alg_for_def)
  have "length tr1 = length tr1 \<and> length tr1 \<le> length tr2 \<and>
      map map_of (take (length tr1) tr2) = map map_of tr1"
    using anchored_trail_authentic [OF v0 _ w(3,4,5) ok inj] x(1) by simp
  then show ?thesis using w x(1) y(1) by (intro exI [of _ tr1] exI [of _ tr2] exI [of _ h]) auto
qed

subsection \<open>Approved artifacts and recorded decisions\<close>

lemma verify_content_of:
  assumes "verify_trail cr key tr anchor arts ds = Inr v" "v_status v = STATUS_OK" "tr \<noteq> []"
  shows "arts = Some a \<Longrightarrow> changed_since_approval cr tr a ds = Inr []"
    and "ds = Some l \<Longrightarrow> decisions_changed cr tr l = Inr []"
proof -
  obtain f anchored st where "verify_content cr key tr f anchored st arts ds = Inr v"
    using verify_trail_ok [OF assms(1,2)] assms(3) by blast
  from verify_content_ok [OF this assms(2)]
  show "arts = Some a \<Longrightarrow> changed_since_approval cr tr a ds = Inr []"
    and "ds = Some l \<Longrightarrow> decisions_changed cr tr l = Inr []" by simp_all
qed

lemma check_approval_clean:
  "check_approval cr arts ds (field, a) = Inr [] \<longleftrightarrow>
     (\<exists>cur. map_of arts field = Some (Some cur) \<and> ascii (a_digest a) \<and> artifact_digest cr cur = a_digest a \<and>
       (\<forall>sealed l. a_sealed a = Some sealed \<longrightarrow> ds = Some l \<longrightarrow>
          (\<forall>i\<in>set (a_ids a). map_of (by_id l) i \<noteq> None) \<and> ascii sealed \<and>
          decisions_digest cr (map (\<lambda>i. the (map_of (by_id l) i)) (a_ids a)) = sealed))"
  by (auto simp: check_approval_def result_simps artifact_digest_def decisions_digest_def
      split: option.splits if_splits)

lemma check_decision_clean:
  "check_decision cr recorded d = Inr [] \<longleftrightarrow>
     map_of recorded (decision_id d) = Some (decision_digest cr d)"
  by (auto simp: check_decision_def result_simps decision_digest_def artifact_digest_def
      split: option.splits if_splits)

lemma decisions_changed_clean:
  "decisions_changed cr tr ds = Inr [] \<longleftrightarrow>
     (\<forall>d\<in>set ds. map_of (recorded_digests tr) (decision_id d) = Some (decision_digest cr d)) \<and>
     fst ` set (recorded_digests tr) \<subseteq> decision_id ` set ds"
  by (auto simp: decisions_changed_def Let_def bindE_Inr_iff collectE_empty check_decision_clean
      filter_empty_conv image_subset_iff)

text \<open>
  C18. [verified_decisions_authentic] When a non-empty trail verifies together with the stored
  reviewer decisions, the stored decisions are exactly the recorded ones: an entry that recorded
  the decision \<open>d0\<close> has its decision in the store, and every stored decision with that id is
  \<open>d0\<close> unchanged in every field, unless two of the hashed decision texts collide.
\<close>

theorem verified_decisions_authentic:
  assumes ok: "verify_trail cr key tr anchor arts (Some ds) = Inr v" "v_status v = STATUS_OK" "tr \<noteq> []"
    and recorded: "map_of (recorded_digests tr) (decision_id d0) = Some (decision_digest cr d0)"
    and vals: "\<forall>d\<in>insert d0 (set ds). dict_ok (d_values d)"
    and inj: "no_collision (sha256 cr) ((\<lambda>d. canonical (decision_json d)) ` insert d0 (set ds))"
  shows "(\<exists>d\<in>set ds. decision_id d = decision_id d0) \<and>
     (\<forall>d\<in>set ds. decision_id d = decision_id d0 \<longrightarrow> same_decision d d0) \<and>
     decision_id ` set ds = fst ` set (recorded_digests tr)"
proof -
  have clean: "\<forall>d\<in>set ds. map_of (recorded_digests tr) (decision_id d) = Some (decision_digest cr d)"
    "fst ` set (recorded_digests tr) \<subseteq> decision_id ` set ds"
    using verify_content_of(2) [OF ok refl] by (simp_all add: decisions_changed_clean)
  have ids: "decision_id ` set ds = fst ` set (recorded_digests tr)"
    using clean by (force dest: map_of_SomeD)
  have "decision_id d0 \<in> decision_id ` set ds"
    using recorded clean(2) by (force dest: map_of_SomeD)
  moreover have "same_decision d d0" if d: "d \<in> set ds" "decision_id d = decision_id d0" for d
  proof -
    have "decision_digest cr d = decision_digest cr d0"
      using clean(1) d recorded by force
    then have "sha256 cr (canonical (decision_json d)) = sha256 cr (canonical (decision_json d0))"
      by (simp only: decision_digest_def artifact_digest_def sha256_hex_def hexdigest_inject)
    then have "canonical (decision_json d) = canonical (decision_json d0)"
      using no_collisionD [OF inj _ _, OF imageI imageI] d(1) by blast
    then show ?thesis
      using vals d(1) by (intro canonical_decision_eq) simp_all
  qed
  ultimately show ?thesis using ids by force
qed

text \<open>
  When a non-empty trail verifies together with the stored
  artifacts, the artifact of the latest approval of each field is still the approved one: if the
  approval recorded the digest of \<open>approved\<close>, what is stored is an artifact with the same
  canonical text, unless the two texts collide.
\<close>

lemma verified_artifacts_authentic:
  assumes ok: "verify_trail cr key tr anchor (Some arts) ds = Inr v" "v_status v = STATUS_OK" "tr \<noteq> []"
    and approval: "(field, a) \<in> set (latest_approvals tr)" "a_digest a = artifact_digest cr approved"
    and inj: "no_collision (sha256 cr) {canonical approved, canonical current}"
    and current: "map_of arts field = Some (Some current)"
  shows "canonical current = canonical approved"
proof -
  have "check_approval cr arts ds (field, a) = Inr []"
    using verify_content_of(1) [OF ok refl] approval(1)
    by (simp add: changed_since_approval_def collectE_empty)
  then have "artifact_digest cr current = artifact_digest cr approved"
    using current approval(2) by (auto simp: check_approval_clean)
  then have "sha256 cr (canonical current) = sha256 cr (canonical approved)"
    by (simp only: artifact_digest_def sha256_hex_def hexdigest_inject)
  then show ?thesis
    using no_collisionD [OF inj] by blast
qed

subsection \<open>When verification raises\<close>

text \<open>The values of an entry that \<open>hmac.compare_digest\<close> reads.\<close>

definition ascii_digests :: "entry \<Rightarrow> bool" where
  "ascii_digests e \<longleftrightarrow> (\<forall>f\<in>{''prev_hash'', ''entry_hash'', ''artifact_digest'', ''decisions_digest'',
     ''decision_digest''}. ascii (dict_get_or e f []))"

lemma digest_Inl: "digest cr t alg key = Inl e \<longleftrightarrow> alg = ALG_KEYED \<and> key = None \<and> e = ValueError"
  by (auto simp: digest_def split: option.splits)

lemma check_entry_no_raise:
  assumes "ascii_digests e" "\<And>p. expected_prev st = Some p \<Longrightarrow> ascii p"
  shows "check_entry cr key legacy i e st \<noteq> Inl (Raise r)"
    and "check_entry cr key legacy i e st = Inr st' \<Longrightarrow> expected_prev st' = Some p \<Longrightarrow> ascii p"
proof -
  have a: "ascii (dict_get_or e ''prev_hash'' [])" "ascii (dict_get_or e ''entry_hash'' [])"
    using assms(1) by (simp_all add: ascii_digests_def)
  have d: "digest cr t alg key = Inr h \<Longrightarrow> ascii h" for t alg h
    by (auto simp: digest_def split: if_splits option.splits)
  have s: "legacy_seal cr legacy alg key = Inr h \<Longrightarrow> ascii h" for alg h
    using d by (auto simp: legacy_seal_def split: if_splits)
  have r: "raising x = Inl (Raise r) \<longleftrightarrow> x = Inl r" for x :: "raised + 'a"
    by (cases x) simp_all
  show "check_entry cr key legacy i e st \<noteq> Inl (Raise r)"
    using a assms(2) d s
    by (auto simp: check_entry_def Let_def result_simps r digest_Inl legacy_seal_def
        split: if_splits option.splits)
  show "check_entry cr key legacy i e st = Inr st' \<Longrightarrow> expected_prev st' = Some p \<Longrightarrow> ascii p"
    using a check_entry_Inr(4) [of cr key legacy i e st st'] by (simp add: entry_hash_def)
qed

lemma check_chain_no_raise:
  assumes "\<forall>e\<in>set es. ascii_digests e" "\<And>p. expected_prev st = Some p \<Longrightarrow> ascii p"
  shows "check_chain cr key legacy i es st \<noteq> Inl (Raise r)"
  using assms
proof (induction es arbitrary: i st)
  case (Cons e es)
  have e: "ascii_digests e" using Cons.prems by simp
  show ?case
  proof (cases "check_entry cr key legacy i e st")
    case (Inl stop)
    have "check_entry cr key legacy i e st \<noteq> Inl (Raise r)"
      using e Cons.prems(2) by (rule check_entry_no_raise(1))
    with Inl show ?thesis by simp
  next
    case (Inr st')
    then have "\<And>p. expected_prev st' = Some p \<Longrightarrow> ascii p"
      using check_entry_no_raise(2) [OF e Cons.prems(2)] by blast
    then show ?thesis using Inr Cons.IH Cons.prems(1) by simp
  qed
qed simp

text \<open>
  \<open>verify_trail\<close> returns a verdict for every trail, however it was
  tampered with, whose digests (and the anchor's) are ASCII text.
\<close>

lemma verify_trail_total:
  assumes tr: "\<forall>e\<in>set tr. ascii_digests e" and anchor: "\<And>n h. anchor = Some (n, h) \<Longrightarrow> ascii h"
  shows "\<exists>v. verify_trail cr key tr anchor None None = Inr v"
proof (cases "first_chained tr")
  case None
  then show ?thesis by (simp add: verify_trail_def Let_def)
next
  case (Some f)
  have nth: "ascii (dict_get_or (tr ! (nat n - 1)) ''entry_hash'' [])" if "0 < n" "\<not> length tr < nat n" for n
  proof -
    have "tr ! (nat n - 1) \<in> set tr" using that by (intro nth_mem) auto
    then show ?thesis using tr by (simp add: ascii_digests_def)
  qed
  have content: "\<exists>v. verify_content cr key tr f b st None None = Inr v" for b st
    by (simp add: verify_content_def Let_def)
  have chain: "check_chain cr key (take f tr) f (drop f tr) chain_start \<noteq> Inl (Raise r)" for r
    using tr by (intro check_chain_no_raise) (auto simp: chain_start_def dest: in_set_dropD)
  show ?thesis
  proof (cases "check_chain cr key (take f tr) f (drop f tr) chain_start")
    case (Inl stop)
    then show ?thesis using chain Some
      by (cases stop) (auto simp: verify_trail_def Let_def)
  next
    case (Inr st)
    show ?thesis
    proof (cases anchor)
      case None
      then show ?thesis using Inr Some content by (simp add: verify_trail_def)
    next
      case (Some a)
      obtain n h where a: "anchor = Some (n, h)" using Some by (cases a) simp
      show ?thesis
        using Inr \<open>first_chained tr = Some f\<close> content nth [of n] anchor [OF a]
        by (auto simp: verify_trail_def Let_def a compare_digest_def)
    qed
  qed
qed

theorem verify_trail_total_witness:
  "\<exists>v. verify_trail toy_crypto None [[(''action'', ''x''), (''entry_hash'', ''forged'')]] (Some (3, ''00'')) None None = Inr v"
  by (rule verify_trail_total) (auto simp: ascii_digests_def dict_get_or_def)

text \<open>
  A tampered trail can make \<open>verify_trail\<close> raise instead of
  reporting \<open>broken\<close>: when the first chained entry's \<open>prev_hash\<close> was replaced by a text with a
  character outside ASCII, \<open>hmac.compare_digest\<close> raises \<open>TypeError\<close>, whatever the key and the
  rest of the entry.
\<close>

lemma non_ascii_hash_raises:
  assumes "entry_hash e \<noteq> []" "hash_alg e = ALG_PLAIN" "\<not> ascii (prev_hash e)"
  shows "verify_trail cr key (e # es) anchor arts ds = Inl TypeError"
proof -
  have "is_chained e"
    using assms(1) by (auto simp: is_chained_def HASH_FIELDS_def entry_hash_def dict_get_or_def split: option.splits)
  then have first: "first_chained (e # es) = Some 0"
    using first_chained_append [of "[]" e es] by simp
  have "check_entry cr key [] 0 e chain_start = Inl (Raise TypeError)"
    using assms by (simp add: check_entry_def chain_start_def legacy_seal_def compare_digest_def
        entry_hash_def hash_alg_def prev_hash_def)
  then show ?thesis by (simp add: verify_trail_def first)
qed

theorem non_ascii_hash_raises_witness:
  "verify_trail toy_crypto None [[(''hash_alg'', ''sha256''), (''prev_hash'', [CHR 0xC3, CHR 0xA9]),
     (''entry_hash'', ''ab'')]] None None None = Inl TypeError"
  by (rule non_ascii_hash_raises)
    (simp_all add: entry_hash_def hash_alg_def prev_hash_def dict_get_or_def ALG_PLAIN_def)

subsection \<open>Witnesses\<close>

definition sample_decision :: review_decision where
  "sample_decision = \<lparr>decision_id = ''D1'', d_phase = P2, d_artifact = ''working_papers'',
     draft_digest = ''00'', d_subject_type = FINDING, subject_id = ''C-1'', d_decision_type = SIGN_OFF,
     d_values = [], rationale = [], decided_by = ''Ann'', d_identity_source = DECLARED,
     decided_at = ''2026-01-01'', supersedes = None\<rparr>"

lemma one_entry:
  assumes "dict_ok e"
  obtains x where "appended toy_crypto None [] [x]" "\<And>k. k \<notin> set HASH_FIELDS \<Longrightarrow> map_of x k = map_of e k"
  using append_entry_stores [of toy_crypto None "[]" "[]" e] assms by auto

theorem verified_decisions_authentic_witness:
  "\<exists>x v. verify_trail toy_crypto None [x] None None (Some [sample_decision]) = Inr v \<and>
     v_status v = STATUS_OK \<and>
     (\<exists>d\<in>set [sample_decision]. decision_id d = decision_id sample_decision) \<and>
     (\<forall>d\<in>set [sample_decision]. decision_id d = decision_id sample_decision \<longrightarrow> same_decision d sample_decision) \<and>
     decision_id ` set [sample_decision] = fst ` set (recorded_digests [x])"
proof -
  let ?e = "[(''action'', ''review_decision''), (''decision_id'', ''D1''),
    (''decision_digest'', decision_digest toy_crypto sample_decision)]"
  obtain x where x: "appended toy_crypto None [] [x]" "\<And>k. k \<notin> set HASH_FIELDS \<Longrightarrow> map_of x k = map_of ?e k"
    using one_entry [of ?e] by (auto simp: dict_ok_def)
  have r: "recorded_digests [x] = [(''D1'', decision_digest toy_crypto sample_decision)]"
    by (simp add: recorded_digests_def record_digest_def dict_get_or_def x(2) HASH_FIELDS_def)
  have id: "decision_id sample_decision = ''D1''" "d_values sample_decision = []"
    by (simp_all add: sample_decision_def)
  have "decisions_changed toy_crypto [x] [sample_decision] = Inr []"
    by (simp add: decisions_changed_clean r id)
  then obtain v where v: "verify_trail toy_crypto None [x] None None (Some [sample_decision]) = Inr v"
    "v_status v = STATUS_OK"
    using appended_verifies_with [OF x(1), of 0 None "Some [sample_decision]"] by (auto simp: anchor_at_def)
  have "(\<exists>d\<in>set [sample_decision]. decision_id d = decision_id sample_decision) \<and>
     (\<forall>d\<in>set [sample_decision]. decision_id d = decision_id sample_decision \<longrightarrow> same_decision d sample_decision) \<and>
     decision_id ` set [sample_decision] = fst ` set (recorded_digests [x])"
    by (rule verified_decisions_authentic [OF v]) (simp_all add: r id no_collision_def)
  with v show ?thesis by blast
qed

theorem verified_artifacts_authentic_witness:
  "\<exists>x v. verify_trail toy_crypto None [x] None (Some [(''racm_plan'', Some (JStr ''plan''))]) None = Inr v \<and>
     v_status v = STATUS_OK \<and> canonical (JStr ''plan'') = canonical (JStr ''plan'')"
proof -
  let ?arts = "[(''racm_plan'', Some (JStr ''plan''))]" and ?h = "artifact_digest toy_crypto (JStr ''plan'')"
  let ?e = "[(''action'', ''gate_approval''), (''artifact'', ''racm_plan''), (''artifact_digest'', ?h)]"
  obtain x where x: "appended toy_crypto None [] [x]" "\<And>k. k \<notin> set HASH_FIELDS \<Longrightarrow> map_of x k = map_of ?e k"
    using one_entry [of ?e] by (auto simp: dict_ok_def)
  have h: "?h \<noteq> []" "ascii ?h" by (simp_all add: artifact_digest_def sha256_hex_nonempty)
  have l: "latest_approvals [x] =
      [(''racm_plan'', \<lparr>a_gate = [], a_digest = ?h, a_sealed = None, a_ids = []\<rparr>)]"
    using h(1) by (simp add: latest_approvals_def see_entry_def Let_def dict_get_or_def x(2) HASH_FIELDS_def ARTIFACT_PHASE_def)
  have "changed_since_approval toy_crypto [x] ?arts None = Inr []"
    unfolding changed_since_approval_def l collectE_empty by (simp add: check_approval_clean h(2))
  then obtain v where v: "verify_trail toy_crypto None [x] None (Some ?arts) None = Inr v" "v_status v = STATUS_OK"
    using appended_verifies_with [OF x(1), of 0 "Some ?arts" None] by (auto simp: anchor_at_def)
  have "canonical (JStr ''plan'') = canonical (JStr ''plan'')"
    by (rule verified_artifacts_authentic [OF v, where approved = "JStr ''plan''" and
          field = "''racm_plan''" and a = "\<lparr>a_gate = [], a_digest = ?h, a_sealed = None, a_ids = []\<rparr>"])
      (simp_all add: l no_collision_def)
  with v show ?thesis by blast
qed

end
