(* ===== verification/Policy.thy ===== *)
theory Policy
  imports Trail
begin

text \<open>
  Who may do what: \<open>src/swarm/review_policy.py\<close>. Identities are compared by their normalised
  form, gates and decision types are the source's strings and tables. The text of a refusal is a
  constructor that keeps its arguments. \<open>prepared_by\<close> and a trail's \<open>human\<close> are optional
  strings, as in the source.
\<close>

section \<open>Identities\<close>

definition normalise_identity :: "string option \<Rightarrow> string" where
  "normalise_identity v = (case v of None \<Rightarrow> [] | Some s \<Rightarrow> lower (join_with '' '' (py_split s)))"

definition same_person :: "string option \<Rightarrow> string option \<Rightarrow> bool" where
  "same_person a b \<longleftrightarrow> normalise_identity a \<noteq> [] \<and> normalise_identity a = normalise_identity b"

text \<open>
  What the comparison means: the same words, ignoring case and white space, and at least one.
\<close>

definition words_of :: "string option \<Rightarrow> string list" where
  "words_of v = (case v of None \<Rightarrow> [] | Some s \<Rightarrow> map lower (py_split s))"

lemma words_of_word: "w \<in> set (words_of v) \<Longrightarrow> w \<noteq> [] \<and> (\<forall>c\<in>set w. \<not> is_space c)"
  using split_ws_words [of "[]"] by (fastforce simp: words_of_def split: option.splits)

lemma normalise_words: "normalise_identity v = join_with '' '' (words_of v)"
  by (simp add: normalise_identity_def words_of_def lower_join split: option.splits)

lemma words_of_normalised: "py_split (normalise_identity v) = words_of v"
  unfolding normalise_words by (rule split_join_words) (rule words_of_word)

lemma join_words_Nil: "join_with '' '' (words_of v) = [] \<longleftrightarrow> words_of v = []"
proof
  assume "join_with '' '' (words_of v) = []"
  then show "words_of v = []" using words_of_normalised [of v] by (simp add: normalise_words)
qed simp

lemma same_person_iff: "same_person a b \<longleftrightarrow> words_of a = words_of b \<and> words_of a \<noteq> []"
  unfolding same_person_def
  by (metis join_words_Nil normalise_words words_of_normalised)

lemma same_person_sym: "same_person a b \<Longrightarrow> same_person b a"
  by (auto simp: same_person_def)

lemma same_person_trans: "same_person a b \<Longrightarrow> same_person b c \<Longrightarrow> same_person a c"
  by (auto simp: same_person_def)

lemma same_person_refl: "same_person a a \<longleftrightarrow> words_of a \<noteq> []"
  by (simp add: same_person_iff)

lemma words_of_blank: "words_of (Some s) = [] \<longleftrightarrow> strip s = []"
  by (simp add: words_of_def split_empty_iff strip_empty_iff)

section \<open>Gates and segregation of duties\<close>

definition PREPARER_EXCLUDED_ACTIONS :: "string list" where
  "PREPARER_EXCLUDED_ACTIONS = [''gate_approval'', ''qa_override'', ''return_for_rework'']"

fun DISTINCT_APPROVER_GATES :: "phase \<Rightarrow> phase list" where
  "DISTINCT_APPROVER_GATES P1 = []"
| "DISTINCT_APPROVER_GATES P2 = []"
| "DISTINCT_APPROVER_GATES P3 = [P2]"

fun gate_label :: "phase \<Rightarrow> string" where
  "gate_label P1 = ''Gate 1 (Planning)''"
| "gate_label P2 = ''Gate 2 (Fieldwork)''"
| "gate_label P3 = ''Gate 3 (Reporting)''"

lemma gate_label_inject [simp]: "gate_label p = gate_label q \<longleftrightarrow> p = q"
  by (cases p; cases q) simp_all

definition is_approval_of :: "phase \<Rightarrow> entry \<Rightarrow> bool" where
  "is_approval_of gate e \<longleftrightarrow>
     map_of e ''action'' = Some ''gate_approval'' \<and> map_of e ''gate'' = Some (gate_label gate)"

definition gate_approver :: "trail \<Rightarrow> phase \<Rightarrow> string option" where
  "gate_approver tr gate =
     foldl (\<lambda>approver e. if is_approval_of gate e then map_of e ''human'' else approver) None tr"

datatype sod_violation =
    PreparedIt string string
  | ApprovedOther string phase phase

definition sod_violation ::
  "string \<Rightarrow> string \<Rightarrow> string option \<Rightarrow> trail \<Rightarrow> phase option \<Rightarrow> sod_violation option" where
  "sod_violation action human_id prepared_by tr gate =
     (if action \<in> set PREPARER_EXCLUDED_ACTIONS \<and> same_person (Some human_id) prepared_by
        then Some (PreparedIt human_id action)
      else if action = ''gate_approval'' then
        (case gate of None \<Rightarrow> None
         | Some g \<Rightarrow> map_option (ApprovedOther human_id g)
             (find (\<lambda>other. same_person (Some human_id) (gate_approver tr other)) (DISTINCT_APPROVER_GATES g)))
      else None)"

lemma gate_approver_append:
  "gate_approver (tr @ [e]) gate = (if is_approval_of gate e then map_of e ''human'' else gate_approver tr gate)"
  by (simp add: gate_approver_def)

lemma sod_approval_None_iff:
  "sod_violation ''gate_approval'' h p tr (Some g) = None \<longleftrightarrow>
     \<not> same_person (Some h) p \<and> (g = P3 \<longrightarrow> \<not> same_person (Some h) (gate_approver tr P2))"
  by (cases g) (simp_all add: sod_violation_def PREPARER_EXCLUDED_ACTIONS_def)

lemma sod_other_None_iff:
  "action \<in> {''qa_override'', ''return_for_rework''} \<Longrightarrow>
   sod_violation action h p tr gate = None \<longleftrightarrow> \<not> same_person (Some h) p"
  by (auto simp: sod_violation_def PREPARER_EXCLUDED_ACTIONS_def)

section \<open>Reviewer decisions\<close>

definition PREPARER_EXCLUDED_DECISIONS :: "string list" where
  "PREPARER_EXCLUDED_DECISIONS = [''sign_off'', ''challenge'', ''classify'', ''scope_limitation'',
     ''engagement_conclusion'', ''remediation_verification'']"

definition DECISION_RECORDABLE_STATUSES :: "(string \<times> string list) list" where
  "DECISION_RECORDABLE_STATUSES =
     [(''sign_off'', [''WAITING_HUMAN_GATE_2'']),
      (''challenge'', [''WAITING_HUMAN_GATE_2'']),
      (''classify'', [''WAITING_HUMAN_GATE_3'']),
      (''scope_limitation'', [''WAITING_HUMAN_GATE_3'']),
      (''engagement_conclusion'', [''WAITING_HUMAN_GATE_3'']),
      (''writeup'', [''WAITING_HUMAN_GATE_3'']),
      (''management_response'', [''WAITING_HUMAN_GATE_3'', ''COMPLETED'']),
      (''remediation_verification'', [''COMPLETED''])]"

definition RATIONALE_ALWAYS_REQUIRED :: "string list" where
  "RATIONALE_ALWAYS_REQUIRED = [''challenge'', ''scope_limitation'', ''engagement_conclusion'',
     ''remediation_verification'']"

definition CONCLUSION_DOWNGRADE_TARGET :: string where
  "CONCLUSION_DOWNGRADE_TARGET = ''Not tested''"

definition CONCLUSION_DOWNGRADE_FROM :: "string list" where
  "CONCLUSION_DOWNGRADE_FROM = [''Effective'']"

datatype decision_violation =
    PreparedItDecision string string
  | UnknownDecisionType string
  | NotRecordable string string

definition decision_sod_violation :: "string \<Rightarrow> string \<Rightarrow> string option \<Rightarrow> decision_violation option" where
  "decision_sod_violation dt human_id prepared_by =
     (if dt \<in> set PREPARER_EXCLUDED_DECISIONS \<and> same_person (Some human_id) prepared_by
      then Some (PreparedItDecision human_id dt) else None)"

definition decision_status_violation :: "string \<Rightarrow> string \<Rightarrow> decision_violation option" where
  "decision_status_violation dt status =
     (case map_of DECISION_RECORDABLE_STATUSES dt of
        None \<Rightarrow> Some (UnknownDecisionType dt)
      | Some allowed \<Rightarrow> if status \<in> set allowed then None else Some (NotRecordable dt status))"

definition conclusion_change_allowed :: "string \<Rightarrow> string \<Rightarrow> bool" where
  "conclusion_change_allowed draft new \<longleftrightarrow>
     new = draft \<or> (new = CONCLUSION_DOWNGRADE_TARGET \<and> draft \<in> set CONCLUSION_DOWNGRADE_FROM)"

definition GATE_2_REVIEW_EXCEPTIONS :: bool where "GATE_2_REVIEW_EXCEPTIONS = True"
definition GATE_2_REVIEW_KEY_CONTROLS :: bool where "GATE_2_REVIEW_KEY_CONTROLS = True"
definition GATE_3_CLASSIFY_EVERY_DEFICIENCY :: bool where "GATE_3_CLASSIFY_EVERY_DEFICIENCY = True"
definition GATE_3_ENGAGEMENT_CONCLUSION :: bool where "GATE_3_ENGAGEMENT_CONCLUSION = True"
definition GATE_3_SCOPE_LIMITATION_FOR_UNTESTED_KEY_CONTROLS :: bool where
  "GATE_3_SCOPE_LIMITATION_FOR_UNTESTED_KEY_CONTROLS = True"

lemmas gate_switches = GATE_2_REVIEW_EXCEPTIONS_def GATE_2_REVIEW_KEY_CONTROLS_def
  GATE_3_CLASSIFY_EVERY_DEFICIENCY_def GATE_3_ENGAGEMENT_CONCLUSION_def
  GATE_3_SCOPE_LIMITATION_FOR_UNTESTED_KEY_CONTROLS_def

definition finding_needs_review :: "string option \<Rightarrow> bool option \<Rightarrow> bool" where
  "finding_needs_review res key \<longleftrightarrow>
     (GATE_2_REVIEW_EXCEPTIONS \<and> res = Some ''Exception'') \<or> (GATE_2_REVIEW_KEY_CONTROLS \<and> key = Some True)"

definition finding_needs_scope_limitation :: "string option \<Rightarrow> bool option \<Rightarrow> bool" where
  "finding_needs_scope_limitation res key \<longleftrightarrow>
     GATE_3_SCOPE_LIMITATION_FOR_UNTESTED_KEY_CONTROLS \<and> key = Some True \<and> res = Some ''Not tested''"

definition classification_differs :: "dict \<Rightarrow> dict \<Rightarrow> bool" where
  "classification_differs draft new \<longleftrightarrow>
     (\<exists>k\<in>{''classification'', ''likelihood'', ''magnitude''}. dict_get_or new k [] \<noteq> dict_get_or draft k [])"

definition management_response_needs_rebuttal :: "string \<Rightarrow> bool" where
  "management_response_needs_rebuttal agreement \<longleftrightarrow> agreement = ''disagree''"

definition management_response_needs_action_plan :: "string \<Rightarrow> bool" where
  "management_response_needs_action_plan agreement \<longleftrightarrow> agreement \<in> {''agree'', ''partial''}"

text \<open>
  What a reviewer may change without rework can only lower an assurance: a conclusion that says
  the control failed stays as it is.
\<close>

lemma tod_change_allowed:
  "conclusion_change_allowed (tod_value a) (tod_value b) \<longleftrightarrow> b = a \<or> (a = TOD_EFFECTIVE \<and> b = TOD_NOT_TESTED)"
  by (cases a; cases b)
    (simp_all add: conclusion_change_allowed_def CONCLUSION_DOWNGRADE_TARGET_def CONCLUSION_DOWNGRADE_FROM_def)

lemma toe_change_allowed:
  "conclusion_change_allowed (toe_value a) (toe_value b) \<longleftrightarrow> b = a \<or> (a = TOE_EFFECTIVE \<and> b = TOE_NOT_TESTED)"
  by (cases a; cases b)
    (simp_all add: conclusion_change_allowed_def CONCLUSION_DOWNGRADE_TARGET_def CONCLUSION_DOWNGRADE_FROM_def)

text \<open>Every decision type is in the table of recordable statuses, so none is unknown.\<close>

lemma status_violation_iff:
  "decision_status_violation (dtype_value t) (status_value s) = None \<longleftrightarrow>
     (case t of SIGN_OFF \<Rightarrow> s = WAITING_HUMAN_GATE P2 | CHALLENGE \<Rightarrow> s = WAITING_HUMAN_GATE P2
      | CLASSIFY \<Rightarrow> s = WAITING_HUMAN_GATE P3 | SCOPE_LIMITATION \<Rightarrow> s = WAITING_HUMAN_GATE P3
      | WRITEUP \<Rightarrow> s = WAITING_HUMAN_GATE P3 | ENGAGEMENT_CONCLUSION \<Rightarrow> s = WAITING_HUMAN_GATE P3
      | MANAGEMENT_RESPONSE \<Rightarrow> s \<in> {WAITING_HUMAN_GATE P3, COMPLETED}
      | REMEDIATION_VERIFICATION \<Rightarrow> s = COMPLETED)"
proof -
  have "status_value s = ''WAITING_HUMAN_GATE_2'' \<longleftrightarrow> s = WAITING_HUMAN_GATE P2"
    "status_value s = ''WAITING_HUMAN_GATE_3'' \<longleftrightarrow> s = WAITING_HUMAN_GATE P3"
    "status_value s = ''COMPLETED'' \<longleftrightarrow> s = COMPLETED"
    using status_value_inject [of s "WAITING_HUMAN_GATE P2"] status_value_inject [of s "WAITING_HUMAN_GATE P3"]
      status_value_inject [of s COMPLETED]
    by (simp_all del: status_value_inject)
  then show ?thesis
    by (cases t) (simp_all add: decision_status_violation_def DECISION_RECORDABLE_STATUSES_def)
qed

section \<open>Properties\<close>

text \<open>
  Two identities count as the same person exactly when they
  are made of the same words up to (ASCII) case and white space, and are not blank; so the
  preparer cannot review their own work by retyping their name with other spaces or capitals,
  and a blank identity is nobody.
\<close>

lemma same_person_means_same_words:
  "(same_person (Some a) (Some b) \<longleftrightarrow> map lower (py_split a) = map lower (py_split b) \<and> strip a \<noteq> [])
   \<and> \<not> same_person None b' \<and> \<not> same_person a' None"
proof -
  have "words_of (Some a) = [] \<longleftrightarrow> strip a = []" by (rule words_of_blank)
  then show ?thesis by (auto simp: same_person_iff words_of_def split: option.splits)
qed

end
