(* ===== verification/Dates.thy ===== *)
theory Dates
  imports Json
begin

text \<open>
  \<open>datetime.date.fromisoformat\<close> and \<open>date.isoformat\<close> of Python's standard library, which
  \<open>_iso_date\<close> in \<open>src/swarm/review_decisions.py\<close> uses: calendar dates \<open>YYYY-MM-DD\<close> and
  \<open>YYYYMMDD\<close>, and ISO week dates \<open>YYYY-Www-D\<close>, \<open>YYYY-Www\<close>, \<open>YYYYWwwD\<close>, \<open>YYYYWww\<close>. The main
  lemma is that the printed form sorts like the date, because the code compares dates as strings.
\<close>

section \<open>The calendar\<close>

type_synonym ymd = "nat \<times> nat \<times> nat"

definition is_leap :: "nat \<Rightarrow> bool" where
  "is_leap y \<longleftrightarrow> y mod 4 = 0 \<and> (y mod 100 \<noteq> 0 \<or> y mod 400 = 0)"

definition days_in_month :: "nat \<Rightarrow> nat \<Rightarrow> nat" where
  "days_in_month y mo = (if mo = 2 then (if is_leap y then 29 else 28)
     else if mo \<in> {4, 6, 9, 11} then 30 else 31)"

definition days_in_year :: "nat \<Rightarrow> nat" where
  "days_in_year y = (if is_leap y then 366 else 365)"

text \<open>The range check of the \<open>date\<close> constructor.\<close>

definition date_ok :: "ymd \<Rightarrow> bool" where
  "date_ok = (\<lambda>(y, mo, d). 1 \<le> y \<and> y \<le> 9999 \<and> 1 \<le> mo \<and> mo \<le> 12 \<and> 1 \<le> d \<and> d \<le> days_in_month y mo)"

definition days_before_year :: "nat \<Rightarrow> nat" where
  "days_before_year y = (y - 1) * 365 + (y - 1) div 4 - (y - 1) div 100 + (y - 1) div 400"

text \<open>Monday is 0; day 1 of year 1 was a Monday.\<close>

definition weekday_jan_1 :: "nat \<Rightarrow> nat" where
  "weekday_jan_1 y = days_before_year y mod 7"

section \<open>ISO weeks\<close>

text \<open>Month and day of the \<open>n\<close>-th day (from 0) of a year, from month \<open>mo\<close> on.\<close>

fun month_day :: "nat \<Rightarrow> nat list \<Rightarrow> nat \<Rightarrow> nat \<times> nat" where
  "month_day y [] n = (12, 31)"
| "month_day y (mo # mos) n =
     (if n < days_in_month y mo then (mo, n + 1) else month_day y mos (n - days_in_month y mo))"

definition day_of_year :: "nat \<Rightarrow> nat \<Rightarrow> ymd" where
  "day_of_year y n = (let (mo, d) = month_day y [1, 2, 3, 4, 5, 6, 7, 8, 9, 10, 11, 12] n in (y, mo, d))"

text \<open>
  \<open>iso_to_ymd\<close>: week 1 is the week of the first Thursday, so its Monday is up to three days
  before 1 January or up to three days after it.
\<close>

definition iso_week_date :: "nat \<Rightarrow> nat \<Rightarrow> nat \<Rightarrow> ymd option" where
  "iso_week_date y w d =
     (let first = weekday_jan_1 y in
      if y < 1 \<or> 9999 < y then None
      else if (w = 0 \<or> 53 \<le> w) \<and> \<not> (w = 53 \<and> (first = 3 \<or> (first = 2 \<and> is_leap y))) then None
      else if d = 0 \<or> 8 \<le> d then None
      else
        let n = (w - 1) * 7 + (d - 1) + (if first \<le> 3 then 0 else 7) in
        if n < first then Some (day_of_year (y - 1) (days_in_year (y - 1) + n - first))
        else if n - first < days_in_year y then Some (day_of_year y (n - first))
        else Some (day_of_year (y + 1) (n - first - days_in_year y)))"

section \<open>Parsing and printing\<close>

definition digit_val :: "char \<Rightarrow> nat" where
  "digit_val c = of_char c - 48"

text \<open>\<open>parse_digits(p, _, k)\<close>: exactly \<open>k\<close> digits.\<close>

fun parse_digits :: "nat \<Rightarrow> nat \<Rightarrow> string \<Rightarrow> (nat \<times> string) option" where
  "parse_digits 0 n s = Some (n, s)"
| "parse_digits (Suc k) n [] = None"
| "parse_digits (Suc k) n (c # s) = (if is_digit c then parse_digits k (10 * n + digit_val c) s else None)"

definition starts_with :: "char \<Rightarrow> string \<Rightarrow> bool" where
  "starts_with c s = (case s of [] \<Rightarrow> False | x # _ \<Rightarrow> x = c)"

lemma starts_with_simps [simp]: "starts_with c (x # s) \<longleftrightarrow> x = c" "\<not> starts_with c []"
  by (simp_all add: starts_with_def)

definition skip_dash :: "bool \<Rightarrow> string \<Rightarrow> string option" where
  "skip_dash sep s = (if \<not> sep then Some s else if starts_with CHR ''-'' s then Some (tl s) else None)"

definition parse_week :: "bool \<Rightarrow> nat \<Rightarrow> string \<Rightarrow> ymd option" where
  "parse_week sep y s =
     Option.bind (parse_digits 2 0 s) (\<lambda>(w, s).
       if s = [] then iso_week_date y w 1
       else Option.bind (skip_dash sep s) (\<lambda>s.
         Option.bind (parse_digits 1 0 s) (\<lambda>(d, s). iso_week_date y w d)))"

definition parse_month_day :: "bool \<Rightarrow> nat \<Rightarrow> string \<Rightarrow> ymd option" where
  "parse_month_day sep y s =
     Option.bind (parse_digits 2 0 s) (\<lambda>(mo, s).
       Option.bind (skip_dash sep s) (\<lambda>s.
         Option.bind (parse_digits 2 0 s) (\<lambda>(d, s). if s = [] then Some (y, mo, d) else None)))"

definition fromisoformat :: "string \<Rightarrow> ymd option" where
  "fromisoformat s =
     (if length s \<notin> {7, 8, 10} then None
      else Option.bind (Option.bind (parse_digits 4 0 s) (\<lambda>(y, s).
         let sep = starts_with CHR ''-'' s;
             r = (if sep then tl s else s) in
         if starts_with CHR ''W'' r then parse_week sep y (tl r) else parse_month_day sep y r))
       (\<lambda>d. if date_ok d then Some d else None))"

fun pad :: "nat \<Rightarrow> nat \<Rightarrow> string" where
  "pad 0 n = []"
| "pad (Suc k) n = pad k (n div 10) @ [digit_char (n mod 10)]"

definition isoformat :: "ymd \<Rightarrow> string" where
  "isoformat = (\<lambda>(y, mo, d). pad 4 y @ ''-'' @ pad 2 mo @ ''-'' @ pad 2 d)"

lemma fromisoformat_ok: "fromisoformat s = Some d \<Longrightarrow> date_ok d"
  by (auto simp: fromisoformat_def bind_eq_Some_conv split: if_splits)

section \<open>Printed dates sort like dates\<close>

lemma pad_length [simp]: "length (pad k n) = k"
  by (induction k arbitrary: n) simp_all

lemma digit_char_less: "a < 10 \<Longrightarrow> b < 10 \<Longrightarrow> digit_char a < digit_char b \<longleftrightarrow> a < b"
  by (simp add: digit_char_def less_char_def of_char_of)

lemma digit_char_inject: "a < 10 \<Longrightarrow> b < 10 \<Longrightarrow> digit_char a = digit_char b \<longleftrightarrow> a = b"
  using digit_char_less [of a b] digit_char_less [of b a] by (metis linorder_neq_iff less_irrefl)

text \<open>Lexicographic comparison of lists whose first parts have the same length.\<close>

lemma list_less_append:
  fixes a b :: "'a::linorder list"
  assumes "length a = length b"
  shows "a @ x < b @ y \<longleftrightarrow> a < b \<or> (a = b \<and> x < y)"
  using assms
proof (induction a b rule: list_induct2)
  case (Cons u a v b)
  show ?case unfolding append_Cons Cons_less_Cons list.inject Cons.IH by (cases "u = v") simp_all
qed simp

lemma div_mod_10: "n = 10 * (n div 10) + n mod 10 \<and> n mod 10 < (10 :: nat)"
  by simp

lemma less_div_mod_10:
  "m div 10 < n div 10 \<or> (m div 10 = n div 10 \<and> m mod 10 < n mod 10) \<longleftrightarrow> m < (n :: nat)"
  "m div 10 = n div 10 \<and> m mod 10 = n mod 10 \<longleftrightarrow> m = (n :: nat)"
  using div_mod_10 [of m] div_mod_10 [of n] by (linarith, metis)

lemma pad_less_iff: "m < 10 ^ k \<Longrightarrow> n < 10 ^ k \<Longrightarrow> pad k m < pad k n \<longleftrightarrow> m < n"
  and pad_eq_iff: "m < 10 ^ k \<Longrightarrow> n < 10 ^ k \<Longrightarrow> pad k m = pad k n \<longleftrightarrow> m = n"
proof (induction k arbitrary: m n)
  case (Suc k)
  {
    case 1
    have "m div 10 < 10 ^ k" "n div 10 < 10 ^ k" using 1 by (simp_all add: less_mult_imp_div_less)
    then have "pad (Suc k) m < pad (Suc k) n \<longleftrightarrow>
        m div 10 < n div 10 \<or> (m div 10 = n div 10 \<and> m mod 10 < n mod 10)"
      using Suc by (simp add: list_less_append digit_char_less)
    also have "\<dots> \<longleftrightarrow> m < n" by (rule less_div_mod_10)
    finally show ?case .
  next
    case 2
    have "m div 10 < 10 ^ k" "n div 10 < 10 ^ k" using 2 by (simp_all add: less_mult_imp_div_less)
    then have "pad (Suc k) m = pad (Suc k) n \<longleftrightarrow> m div 10 = n div 10 \<and> m mod 10 = n mod 10"
      using Suc by (simp add: digit_char_inject)
    also have "\<dots> \<longleftrightarrow> m = n" by (rule less_div_mod_10)
    finally show ?case .
  }
qed simp_all

definition date_less :: "ymd \<Rightarrow> ymd \<Rightarrow> bool" where
  "date_less = (\<lambda>(y, mo, d) (y', mo', d'). y < y' \<or> (y = y' \<and> (mo < mo' \<or> (mo = mo' \<and> d < d'))))"

lemma date_bounds: "date_ok (y, mo, d) \<Longrightarrow> y < 10 ^ 4 \<and> mo < 10 ^ 2 \<and> d < 10 ^ 2"
  by (auto simp: date_ok_def days_in_month_def split: if_splits)

lemma isoformat_less_iff:
  assumes "date_ok a" "date_ok b"
  shows "isoformat a < isoformat b \<longleftrightarrow> date_less a b"
proof -
  obtain y mo d y' mo' d' where ab: "a = (y, mo, d)" "b = (y', mo', d')"
    by (cases a; cases b) simp
  note bounds = date_bounds [OF assms(1) [unfolded ab]] date_bounds [OF assms(2) [unfolded ab]]
  have "isoformat a < isoformat b \<longleftrightarrow> pad 4 y < pad 4 y' \<or> (pad 4 y = pad 4 y' \<and>
      (pad 2 mo < pad 2 mo' \<or> (pad 2 mo = pad 2 mo' \<and> pad 2 d < pad 2 d')))"
    unfolding ab isoformat_def prod.case by (simp add: list_less_append)
  also have "\<dots> \<longleftrightarrow> date_less a b"
    using bounds by (simp add: ab date_less_def pad_less_iff pad_eq_iff)
  finally show ?thesis .
qed

lemma isoformat_length [simp]: "length (isoformat d) = 10"
  by (cases d) (simp add: isoformat_def)

section \<open>Round trip\<close>

lemma parse_pad:
  "n < 10 ^ k \<Longrightarrow> parse_digits k m (pad k n @ s) = Some (m * 10 ^ k + n, s)"
proof (induction k arbitrary: m n s)
  case (Suc k)
  have split: "parse_digits (k + 1) m s = Option.bind (parse_digits k m s) (\<lambda>(n, s). parse_digits 1 n s)" for k m s
    by (induction k m s rule: parse_digits.induct) simp_all
  have "n div 10 < 10 ^ k" using Suc.prems by (simp add: less_mult_imp_div_less)
  then show ?case
    using Suc.IH [of "n div 10" m "digit_char (n mod 10) # s"] split [of k]
    using is_digit_char [of "n mod 10"]
    by (simp add: digit_val_def digit_char_def of_char_of algebra_simps)
qed simp

lemma pad_digits: "\<forall>c\<in>set (pad k n). is_digit c"
  by (induction k arbitrary: n) (simp_all add: is_digit_char)

lemma pad_no_W: "\<not> starts_with CHR ''W'' (pad (Suc k) n @ s)"
proof -
  have "\<exists>c r. pad (Suc k) n @ s = c # r \<and> is_digit c"
    using pad_digits [of "Suc k" n] by (cases "pad (Suc k) n") (simp_all del: pad.simps, simp)
  then show ?thesis by (auto simp: starts_with_def is_digit_def)
qed

lemma fromisoformat_isoformat:
  assumes "date_ok d"
  shows "fromisoformat (isoformat d) = Some d"
proof -
  obtain y mo dd where d: "d = (y, mo, dd)" by (cases d) simp
  note b = date_bounds [OF assms [unfolded d]]
  have y: "parse_digits 4 0 (isoformat d) = Some (y, CHR ''-'' # pad 2 mo @ CHR ''-'' # pad 2 dd)"
    using parse_pad [of y 4 0] b by (simp add: d isoformat_def)
  have "parse_month_day True y (pad 2 mo @ CHR ''-'' # pad 2 dd) = Some (y, mo, dd)"
    using parse_pad [of mo 2 0 "CHR ''-'' # pad 2 dd"] parse_pad [of dd 2 0 "[]"] b
    by (simp add: parse_month_day_def skip_dash_def)
  moreover have "\<not> starts_with CHR ''W'' (pad 2 mo @ CHR ''-'' # pad 2 dd)"
    using pad_no_W [of 1 mo] by (simp add: numeral_2_eq_2 del: pad.simps)
  ultimately show ?thesis
    using assms by (simp add: fromisoformat_def y starts_with_def Let_def) (simp add: d)
qed

end
