(* ===== verification/Decisions.thy ===== *)
theory Decisions
  imports Policy Dates
begin

text \<open>
  Reviewer decisions: \<open>src/swarm/review_decisions.py\<close>. A decision is built from a request
  (strings, as the API passes them) against the current drafts, the audit's status and the
  decisions recorded so far; \<open>new_id\<close> is the \<open>uuid4\<close> the code draws and \<open>now\<close> its clock.
  Exceptions are the values of \<open>decision_error\<close>.
\<close>

section \<open>Tables\<close>

definition ENGAGEMENT_SUBJECT_ID :: string where
  "ENGAGEMENT_SUBJECT_ID = ''engagement''"

fun SUBJECT_FOR_TYPE :: "decision_type \<Rightarrow> subject_type" where
  "SUBJECT_FOR_TYPE SIGN_OFF = FINDING"
| "SUBJECT_FOR_TYPE CHALLENGE = FINDING"
| "SUBJECT_FOR_TYPE SCOPE_LIMITATION = FINDING"
| "SUBJECT_FOR_TYPE CLASSIFY = DEFICIENCY"
| "SUBJECT_FOR_TYPE WRITEUP = DEFICIENCY"
| "SUBJECT_FOR_TYPE MANAGEMENT_RESPONSE = DEFICIENCY"
| "SUBJECT_FOR_TYPE REMEDIATION_VERIFICATION = DEFICIENCY"
| "SUBJECT_FOR_TYPE ENGAGEMENT_CONCLUSION = ENGAGEMENT"

fun PHASE_FOR_TYPE :: "decision_type \<Rightarrow> phase" where
  "PHASE_FOR_TYPE SIGN_OFF = P2"
| "PHASE_FOR_TYPE CHALLENGE = P2"
| "PHASE_FOR_TYPE SCOPE_LIMITATION = P3"
| "PHASE_FOR_TYPE CLASSIFY = P3"
| "PHASE_FOR_TYPE WRITEUP = P3"
| "PHASE_FOR_TYPE MANAGEMENT_RESPONSE = P3"
| "PHASE_FOR_TYPE REMEDIATION_VERIFICATION = P3"
| "PHASE_FOR_TYPE ENGAGEMENT_CONCLUSION = P3"

fun ARTIFACT_FOR_SUBJECT :: "subject_type \<Rightarrow> string" where
  "ARTIFACT_FOR_SUBJECT FINDING = ''working_papers''"
| "ARTIFACT_FOR_SUBJECT DEFICIENCY = ''final_report''"
| "ARTIFACT_FOR_SUBJECT ENGAGEMENT = ''final_report''"

definition FINDING_REVIEW :: string where
  "FINDING_REVIEW = ''finding_review''"

definition slot_of :: "decision_type \<Rightarrow> string" where
  "slot_of dt = (if dt \<in> {SIGN_OFF, CHALLENGE} then FINDING_REVIEW else dtype_value dt)"

section \<open>The artifacts decisions refer to\<close>

record decision_context =
  x_racm :: "racm option"
  x_papers :: "working_papers option"
  x_report :: "final_report option"

definition context_artifact :: "decision_context \<Rightarrow> string \<Rightarrow> json option" where
  "context_artifact ctx name =
     (if name = ''working_papers'' then map_option working_papers_json (x_papers ctx)
      else if name = ''final_report'' then map_option final_report_json (x_report ctx)
      else None)"

text \<open>\<open>digests().get(name)\<close>\<close>
definition context_digest :: "crypto \<Rightarrow> decision_context \<Rightarrow> string \<Rightarrow> string option" where
  "context_digest cr ctx name = map_option (artifact_digest cr) (context_artifact ctx name)"

definition context_findings :: "decision_context \<Rightarrow> finding list" where
  "context_findings ctx = (case x_papers ctx of None \<Rightarrow> [] | Some p \<Rightarrow> findings p)"

definition context_evaluations :: "decision_context \<Rightarrow> deficiency list" where
  "context_evaluations ctx = (case x_report ctx of None \<Rightarrow> [] | Some r \<Rightarrow> deficiency_evaluations r)"

definition context_finding :: "decision_context \<Rightarrow> string \<Rightarrow> finding option" where
  "context_finding ctx cid = find (\<lambda>f. f_control_id f = cid) (context_findings ctx)"

definition context_deficiency :: "decision_context \<Rightarrow> string \<Rightarrow> deficiency option" where
  "context_deficiency ctx did = find (\<lambda>e. deficiency_id e = did) (context_evaluations ctx)"

text \<open>\<open>out.setdefault(id, key)\<close> keeps the first value.\<close>

definition key_controls :: "decision_context \<Rightarrow> (string \<times> bool option) list" where
  "key_controls ctx =
     foldl (\<lambda>out c. if map_of out (c_control_id c) = None
         then dict_set (c_control_id c) (key_control c) out else out) []
       (concat (map controls (case x_racm ctx of None \<Rightarrow> [] | Some r \<Rightarrow> risks r)))"

text \<open>\<open>keys.get(control_id)\<close>, where a stored null and a missing key are the same.\<close>
definition key_control_of :: "decision_context \<Rightarrow> string \<Rightarrow> bool option" where
  "key_control_of ctx cid = (case map_of (key_controls ctx) cid of None \<Rightarrow> None | Some k \<Rightarrow> k)"

section \<open>Decision states\<close>

datatype decision_state = State_active | State_superseded | State_stale

definition superseded_ids :: "review_decision list \<Rightarrow> string list" where
  "superseded_ids ds = concat (map (\<lambda>d. case supersedes d of None \<Rightarrow> []
     | Some s \<Rightarrow> if s = [] then [] else [s]) ds)"

definition state_of :: "crypto \<Rightarrow> decision_context \<Rightarrow> review_decision list \<Rightarrow> review_decision \<Rightarrow> decision_state" where
  "state_of cr ctx ds d =
     (if decision_id d \<in> set (superseded_ids ds) then State_superseded
      else if context_digest cr ctx (d_artifact d) \<noteq> Some (draft_digest d) then State_stale
      else State_active)"

definition decision_states ::
  "crypto \<Rightarrow> decision_context \<Rightarrow> review_decision list \<Rightarrow> (string \<times> decision_state) list" where
  "decision_states cr ctx ds = foldl (\<lambda>m d. dict_set (decision_id d) (state_of cr ctx ds d) m) [] ds"

type_synonym slot_key = "string \<times> string \<times> string"

definition slot_key :: "review_decision \<Rightarrow> slot_key" where
  "slot_key d = (slot_of (d_decision_type d), stype_value (d_subject_type d), subject_id d)"

definition active_by_slot ::
  "crypto \<Rightarrow> decision_context \<Rightarrow> review_decision list \<Rightarrow> (slot_key \<times> review_decision) list" where
  "active_by_slot cr ctx ds =
     foldl (\<lambda>out d. if map_of (decision_states cr ctx ds) (decision_id d) = Some State_active
       then AList.update (slot_key d) d out else out) [] ds"

section \<open>Errors\<close>

datatype validation_problem =
    UnknownType string
  | DecidedByRequired
  | UnknownIdentitySource string
  | WrongSubjectType decision_type string
  | NotTheEngagement string
  | SubjectIdRequired
  | InvalidValue string
  | NoSuchFinding string
  | NotUntested string string
  | NoSuchDeficiency string
  | OffScale string
  | MaterialWeaknessNeedsMagnitude
  | ClassificationNeedsRationale
  | NotIsoDate string
  | AfterRecording string string
  | ActionPlanRequired
  | RebuttalRequired
  | RationaleRequired decision_type
  | NoDecisionToSupersede string
  | SupersedesOther string

datatype decision_conflict =
    WrongStatus decision_violation
  | NothingToDecideOn string
  | NeedsRework string string string
  | AlreadyDecided string
  | NotActive string

datatype decision_error =
    DecisionValidationError validation_problem
  | DecisionConflictError decision_conflict
  | SegregationOfDutiesError decision_violation
  | DecisionValueError

abbreviation invalid :: "validation_problem \<Rightarrow> decision_error + 'a" where
  "invalid p \<equiv> Inl (DecisionValidationError p)"

abbreviation conflict :: "decision_conflict \<Rightarrow> decision_error + 'a" where
  "conflict c \<equiv> Inl (DecisionConflictError c)"

section \<open>The values of a request\<close>

text \<open>
  The Pydantic models \<open>...Values\<close> of \<open>src/swarm/schema.py\<close> on a dictionary of strings: an
  unknown key is an error (\<open>extra="forbid"\<close>), an enum is read leniently, text is stripped and,
  where required, not empty.
\<close>

definition only_keys :: "string list \<Rightarrow> dict \<Rightarrow> decision_error + unit" where
  "only_keys ks vs = (case filter (\<lambda>k. k \<notin> set ks) (map fst vs) of [] \<Rightarrow> Inr () | k # _ \<Rightarrow> invalid (InvalidValue k))"

definition enum_value :: "('m \<Rightarrow> string) \<Rightarrow> 'm list \<Rightarrow> string \<Rightarrow> dict \<Rightarrow> decision_error + 'm option" where
  "enum_value val members k vs =
     (case map_of vs k of None \<Rightarrow> Inr None
      | Some v \<Rightarrow> (case lenient val members v of None \<Rightarrow> invalid (InvalidValue k) | Some m \<Rightarrow> Inr (Some m)))"

definition required_enum :: "('m \<Rightarrow> string) \<Rightarrow> 'm list \<Rightarrow> string \<Rightarrow> dict \<Rightarrow> decision_error + 'm" where
  "required_enum val members k vs =
     bindE (enum_value val members k vs) (of_option (DecisionValidationError (InvalidValue k)))"

definition required_text :: "string \<Rightarrow> dict \<Rightarrow> decision_error + string" where
  "required_text k vs =
     (case map_of vs k of None \<Rightarrow> invalid (InvalidValue k)
      | Some v \<Rightarrow> if strip v = [] then invalid (InvalidValue k) else Inr (strip v))"

definition optional_text :: "string \<Rightarrow> dict \<Rightarrow> string option" where
  "optional_text k vs = map_option strip (map_of vs k)"

text \<open>\<open>_iso_date\<close> on a given text\<close>

definition iso_date :: "string \<Rightarrow> string \<Rightarrow> decision_error + string option" where
  "iso_date v what =
     (if strip v = [] then Inr None
      else case fromisoformat (take 10 (strip v)) of
        None \<Rightarrow> invalid (NotIsoDate what) | Some d \<Rightarrow> Inr (Some (isoformat d)))"

definition tod_of_value :: "string \<Rightarrow> design_conclusion option" where
  "tod_of_value = by_value tod_value all_tod"

definition toe_of_value :: "string \<Rightarrow> operating_conclusion option" where
  "toe_of_value = by_value toe_value all_toe"

text \<open>
  \<open>_effective_conclusions\<close>: ToD, ToE and result after an active challenge. A stored value that
  is no conclusion raises \<open>ValueError\<close>.
\<close>

definition effective_conclusions ::
  "finding \<Rightarrow> review_decision option \<Rightarrow> raised + design_conclusion \<times> operating_conclusion \<times> finding_result" where
  "effective_conclusions f review =
     (let vs = (case review of None \<Rightarrow> [] | Some d \<Rightarrow> if d_decision_type d = CHALLENGE then d_values d else []) in
      bindE (of_option ValueError (tod_of_value (dict_get_or vs ''tod_conclusion'' (tod_value (tod_conclusion f)))))
      (\<lambda>tod. bindE (of_option ValueError (toe_of_value (dict_get_or vs ''toe_conclusion'' (toe_value (toe_conclusion f)))))
      (\<lambda>toe. Inr (tod, toe, derive_result tod toe (exceptions_noted f)))))"

subsection \<open>Parsing\<close>

datatype parsed_values =
    SignOffValues
  | ChallengeValues "design_conclusion option" "operating_conclusion option"
  | ClassifyValues deficiency_classification "risk_rating option" "risk_rating option"
  | ScopeLimitationValues
  | WriteupValues dict
  | ManagementResponseValues string management_agreement "string option" "string option" string string
  | EngagementConclusionValues engagement_rating
  | RemediationVerificationValues remediation_status string "string option"

definition WRITEUP_FIELDS :: "string list" where
  "WRITEUP_FIELDS = [''criteria'', ''condition'', ''cause'', ''effect'', ''recommendation'']"

fun required_texts :: "string list \<Rightarrow> dict \<Rightarrow> decision_error + dict" where
  "required_texts [] vs = Inr []"
| "required_texts (k # ks) vs = bindE (required_text k vs) (\<lambda>t. bindE (required_texts ks vs) (\<lambda>r. Inr ((k, t) # r)))"

text \<open>\<open>DECISION_VALUE_MODELS[dtype].model_validate(values)\<close>\<close>

fun parse_values :: "decision_type \<Rightarrow> dict \<Rightarrow> decision_error + parsed_values" where
  "parse_values SIGN_OFF vs = bindE (only_keys [] vs) (\<lambda>_. Inr SignOffValues)"
| "parse_values SCOPE_LIMITATION vs = bindE (only_keys [] vs) (\<lambda>_. Inr ScopeLimitationValues)"
| "parse_values CHALLENGE vs =
     bindE (enum_value tod_value all_tod ''tod_conclusion'' vs) (\<lambda>tod.
     bindE (enum_value toe_value all_toe ''toe_conclusion'' vs) (\<lambda>toe.
     bindE (only_keys [''tod_conclusion'', ''toe_conclusion''] vs) (\<lambda>_. Inr (ChallengeValues tod toe))))"
| "parse_values CLASSIFY vs =
     bindE (required_enum classification_value all_classification ''classification'' vs) (\<lambda>cls.
     bindE (enum_value rating_value all_rating ''likelihood'' vs) (\<lambda>lik.
     bindE (enum_value rating_value all_rating ''magnitude'' vs) (\<lambda>mag.
     bindE (only_keys [''classification'', ''likelihood'', ''magnitude''] vs) (\<lambda>_. Inr (ClassifyValues cls lik mag)))))"
| "parse_values WRITEUP vs =
     bindE (required_texts WRITEUP_FIELDS vs) (\<lambda>r.
     bindE (only_keys WRITEUP_FIELDS vs) (\<lambda>_. Inr (WriteupValues r)))"
| "parse_values MANAGEMENT_RESPONSE vs =
     bindE (required_text ''text'' vs) (\<lambda>txt.
     bindE (required_enum agreement_value all_agreement ''agreement'' vs) (\<lambda>agr.
     bindE (required_text ''received_from'' vs) (\<lambda>from.
     bindE (required_text ''received_on'' vs) (\<lambda>on.
     bindE (only_keys [''text'', ''agreement'', ''action_owner_role'', ''target_date'', ''received_from'', ''received_on''] vs)
       (\<lambda>_. Inr (ManagementResponseValues txt agr (optional_text ''action_owner_role'' vs)
              (optional_text ''target_date'' vs) from on))))))"
| "parse_values ENGAGEMENT_CONCLUSION vs =
     bindE (required_enum engagement_value all_engagement ''conclusion'' vs) (\<lambda>c.
     bindE (only_keys [''conclusion''] vs) (\<lambda>_. Inr (EngagementConclusionValues c)))"
| "parse_values REMEDIATION_VERIFICATION vs =
     bindE (required_enum remediation_value all_remediation ''status'' vs) (\<lambda>st.
     bindE (required_text ''verified_on'' vs) (\<lambda>on.
     bindE (only_keys [''status'', ''verified_on'', ''evidence_vault_id''] vs)
       (\<lambda>_. Inr (RemediationVerificationValues st on (optional_text ''evidence_vault_id'' vs)))))"

subsection \<open>Checking them against the draft\<close>

definition challenge_value ::
  "finding \<Rightarrow> string \<Rightarrow> string \<Rightarrow> string option \<Rightarrow> dict \<Rightarrow> decision_error + dict" where
  "challenge_value f field draft new vs =
     (case new of None \<Rightarrow> Inr vs
      | Some n \<Rightarrow> if n = draft then Inr vs
          else if \<not> conclusion_change_allowed draft n then conflict (NeedsRework (f_control_id f) field n)
          else Inr (dict_set field n vs))"

definition challenge_values ::
  "finding \<Rightarrow> design_conclusion option \<Rightarrow> operating_conclusion option \<Rightarrow> decision_error + dict" where
  "challenge_values f tod toe =
     bindE (challenge_value f ''tod_conclusion'' (tod_value (tod_conclusion f)) (map_option tod_value tod) [])
       (challenge_value f ''toe_conclusion'' (toe_value (toe_conclusion f)) (map_option toe_value toe))"

definition draft_classification :: "deficiency \<Rightarrow> dict" where
  "draft_classification e = [(''classification'', classification_value (classification e)),
     (''likelihood'', rating_value (likelihood e)), (''magnitude'', rating_value (magnitude e))]"

definition classify_values ::
  "final_report \<Rightarrow> deficiency \<Rightarrow> deficiency_classification \<Rightarrow> risk_rating option \<Rightarrow> risk_rating option \<Rightarrow>
   decision_error + dict" where
  "classify_values report e cls lik0 mag0 =
     (let lik = (case lik0 of None \<Rightarrow> likelihood e | Some l \<Rightarrow> l);
          mag = (case mag0 of None \<Rightarrow> magnitude e | Some m \<Rightarrow> m) in
      if (case rp_scale report of None \<Rightarrow> False | Some s \<Rightarrow> cls \<notin> set (scale_classifications s))
        then invalid (OffScale (classification_value cls))
      else if cls = MATERIAL_WEAKNESS \<and> (lik = RATING_LOW \<or> mag \<noteq> RATING_HIGH)
        then invalid MaterialWeaknessNeedsMagnitude
      else Inr [(''classification'', classification_value cls), (''likelihood'', rating_value lik),
        (''magnitude'', rating_value mag)])"

text \<open>A date that must not be later than the day the decision is recorded; strings are compared.\<close>

definition past_date :: "string \<Rightarrow> string \<Rightarrow> string \<Rightarrow> decision_error + string" where
  "past_date v what recorded_on =
     bindE (iso_date v what) (\<lambda>d0.
       let d = (case d0 of None \<Rightarrow> [] | Some x \<Rightarrow> x) in
       if d \<noteq> [] \<and> d > recorded_on then invalid (AfterRecording what d) else Inr d)"

definition given :: "string option \<Rightarrow> bool" where
  "given v \<longleftrightarrow> v \<noteq> None \<and> v \<noteq> Some []"

definition put_text :: "string \<Rightarrow> string option \<Rightarrow> dict \<Rightarrow> dict" where
  "put_text k v d = (if given v then dict_set k (the v) d else d)"

definition management_values ::
  "string \<Rightarrow> management_agreement \<Rightarrow> string option \<Rightarrow> string option \<Rightarrow> string \<Rightarrow> string \<Rightarrow> string \<Rightarrow> string \<Rightarrow>
   decision_error + dict" where
  "management_values txt agr owner0 target0 from on why recorded_on =
     bindE (past_date on ''received_on'' recorded_on) (\<lambda>received_on.
       let agreement = agreement_value agr; owner = map_option strip owner0 in
       bindE (case target0 of None \<Rightarrow> Inr None | Some t \<Rightarrow> iso_date t ''target_date'') (\<lambda>target.
         if management_response_needs_action_plan agreement \<and> \<not> (given owner \<and> given target)
           then invalid ActionPlanRequired
         else if management_response_needs_rebuttal agreement \<and> why = [] then invalid RebuttalRequired
         else Inr (put_text ''target_date'' target (put_text ''action_owner_role'' owner
           [(''text'', txt), (''agreement'', agreement), (''received_from'', from), (''received_on'', received_on)]))))"

definition remediation_values ::
  "remediation_status \<Rightarrow> string \<Rightarrow> string option \<Rightarrow> string \<Rightarrow> decision_error + dict" where
  "remediation_values st on vault recorded_on =
     bindE (past_date on ''verified_on'' recorded_on) (\<lambda>verified_on.
       Inr (put_text ''evidence_vault_id'' (map_option strip vault)
         [(''status'', remediation_value st), (''verified_on'', verified_on)]))"

section \<open>Recording a decision\<close>

record decision_request =
  rq_type :: string
  rq_subject_id :: string
  rq_decided_by :: string
  rq_values :: dict
  rq_rationale :: string
  rq_subject_type :: "string option"
  rq_supersedes :: "string option"
  rq_identity_source :: string

text \<open>What a request is checked against.\<close>

record decision_env =
  env_context :: decision_context
  env_status :: audit_status
  env_preparers :: "string list"
  env_now :: string
  env_new_id :: string

definition build_subject :: "decision_type \<Rightarrow> decision_request \<Rightarrow> decision_error + string" where
  "build_subject dt rq =
     (let st = SUBJECT_FOR_TYPE dt; sid0 = strip (rq_subject_id rq) in
      if (case rq_subject_type rq of None \<Rightarrow> False | Some t \<Rightarrow> strip t \<noteq> stype_value st)
        then invalid (WrongSubjectType dt (the (rq_subject_type rq)))
      else
        let sid = (if st = ENGAGEMENT \<and> sid0 = [] then ENGAGEMENT_SUBJECT_ID else sid0) in
        if st = ENGAGEMENT \<and> sid \<noteq> ENGAGEMENT_SUBJECT_ID then invalid (NotTheEngagement sid)
        else if sid = [] then invalid SubjectIdRequired
        else Inr sid)"

text \<open>The values stored for each kind of subject.\<close>

definition finding_values ::
  "decision_context \<Rightarrow> (slot_key \<times> review_decision) list \<Rightarrow> decision_type \<Rightarrow> string \<Rightarrow> parsed_values \<Rightarrow>
   decision_error + dict" where
  "finding_values ctx active dt sid parsed =
     bindE (of_option (DecisionValidationError (NoSuchFinding sid)) (context_finding ctx sid)) (\<lambda>f.
     bindE (case parsed of ChallengeValues tod toe \<Rightarrow> challenge_values f tod toe | _ \<Rightarrow> Inr []) (\<lambda>stored.
       if dt = SCOPE_LIMITATION then
         (case effective_conclusions f (map_of active (FINDING_REVIEW, stype_value FINDING, sid)) of
            Inl _ \<Rightarrow> Inl DecisionValueError
          | Inr (_, _, res) \<Rightarrow>
              if res \<noteq> NOT_TESTED then invalid (NotUntested sid (result_value res)) else Inr stored)
       else Inr stored))"

definition deficiency_values ::
  "decision_context \<Rightarrow> string \<Rightarrow> parsed_values \<Rightarrow> string \<Rightarrow> string \<Rightarrow> decision_error + dict" where
  "deficiency_values ctx sid parsed why recorded_on =
     (case (context_deficiency ctx sid, x_report ctx) of
        (Some e, Some report) \<Rightarrow>
          (case parsed of
             ClassifyValues cls lik mag \<Rightarrow>
               bindE (classify_values report e cls lik mag) (\<lambda>stored.
                 if classification_differs (draft_classification e) stored \<and> why = []
                 then invalid ClassificationNeedsRationale else Inr stored)
           | ManagementResponseValues txt agr owner target from on \<Rightarrow>
               management_values txt agr owner target from on why recorded_on
           | RemediationVerificationValues st on vault \<Rightarrow> remediation_values st on vault recorded_on
           | WriteupValues vs \<Rightarrow> Inr vs
           | _ \<Rightarrow> Inr [])
      | _ \<Rightarrow> invalid (NoSuchDeficiency sid))"

definition engagement_values :: "parsed_values \<Rightarrow> dict" where
  "engagement_values parsed =
     (case parsed of EngagementConclusionValues c \<Rightarrow> [(''conclusion'', engagement_value c)] | _ \<Rightarrow> [])"

definition stored_values ::
  "decision_context \<Rightarrow> (slot_key \<times> review_decision) list \<Rightarrow> decision_type \<Rightarrow> string \<Rightarrow> parsed_values \<Rightarrow>
   string \<Rightarrow> string \<Rightarrow> decision_error + dict" where
  "stored_values ctx active dt sid parsed why recorded_on =
     (case SUBJECT_FOR_TYPE dt of
        FINDING \<Rightarrow> finding_values ctx active dt sid parsed
      | DEFICIENCY \<Rightarrow> deficiency_values ctx sid parsed why recorded_on
      | ENGAGEMENT \<Rightarrow> Inr (engagement_values parsed))"

text \<open>The slot's active decision must be named by \<open>supersedes\<close>, and only that one may be.\<close>

definition check_supersedes ::
  "(slot_key \<times> review_decision) list \<Rightarrow> review_decision list \<Rightarrow> slot_key \<Rightarrow> string option \<Rightarrow> decision_error + unit" where
  "check_supersedes active ds key replaced =
     (let current = map_of active key in
      case replaced of
        None \<Rightarrow> (case current of None \<Rightarrow> Inr () | Some c \<Rightarrow> conflict (AlreadyDecided (decision_id c)))
      | Some s \<Rightarrow>
          (case find (\<lambda>d. decision_id d = s) ds of
             None \<Rightarrow> invalid (NoDecisionToSupersede s)
           | Some target \<Rightarrow>
               if slot_key target \<noteq> key then invalid (SupersedesOther s)
               else if current = None \<or> decision_id (the current) \<noteq> s then conflict (NotActive s)
               else Inr ()))"

definition build_decision ::
  "crypto \<Rightarrow> decision_env \<Rightarrow> review_decision list \<Rightarrow> decision_request \<Rightarrow> decision_error + review_decision" where
  "build_decision cr env ds rq =
     (let ctx = env_context env; by = strip (rq_decided_by rq); why = strip (rq_rationale rq) in
      bindE (of_option (DecisionValidationError (UnknownType (rq_type rq)))
        (by_value dtype_value all_dtype (rq_type rq))) (\<lambda>dt.
      bindE (requireE (by \<noteq> []) (DecisionValidationError DecidedByRequired)) (\<lambda>_.
      bindE (of_option (DecisionValidationError (UnknownIdentitySource (rq_identity_source rq)))
        (by_value source_value all_source (rq_identity_source rq))) (\<lambda>src.
      bindE (raise_if (map_option (DecisionConflictError \<circ> WrongStatus)
        (decision_status_violation (dtype_value dt) (status_value (env_status env))))) (\<lambda>_.
      bindE (raise_if (map_option (\<lambda>p. SegregationOfDutiesError (PreparedItDecision by (dtype_value dt)))
        (find (\<lambda>p. decision_sod_violation (dtype_value dt) by (Some p) \<noteq> None) (env_preparers env)))) (\<lambda>_.
      bindE (build_subject dt rq) (\<lambda>sid.
      let st = SUBJECT_FOR_TYPE dt; name = ARTIFACT_FOR_SUBJECT st; active = active_by_slot cr ctx ds in
      bindE (of_option (DecisionConflictError (NothingToDecideOn name)) (context_digest cr ctx name)) (\<lambda>draft.
      bindE (parse_values dt (rq_values rq)) (\<lambda>parsed.
      bindE (stored_values ctx active dt sid parsed why (take 10 (env_now env))) (\<lambda>stored.
      bindE (requireE (dtype_value dt \<in> set RATIONALE_ALWAYS_REQUIRED \<longrightarrow> why \<noteq> [])
        (DecisionValidationError (RationaleRequired dt))) (\<lambda>_.
      let key = (slot_of dt, stype_value st, sid);
          replaced = (case rq_supersedes rq of None \<Rightarrow> None | Some s \<Rightarrow> if strip s = [] then None else Some (strip s)) in
      bindE (check_supersedes active ds key replaced) (\<lambda>_.
        Inr \<lparr>decision_id = env_new_id env, d_phase = PHASE_FOR_TYPE dt, d_artifact = name,
          draft_digest = draft, d_subject_type = st, subject_id = sid, d_decision_type = dt,
          d_values = stored, rationale = why, decided_by = by, d_identity_source = src,
          decided_at = env_now env, supersedes = replaced\<rparr>))))))))))))"

section \<open>What a recorded decision satisfies\<close>

lemma build_decision_facts:
  assumes "build_decision cr env ds rq = Inr d"
  shows "decision_id d = env_new_id env \<and> decided_at d = env_now env \<and>
     d_subject_type d = SUBJECT_FOR_TYPE (d_decision_type d) \<and>
     d_phase d = PHASE_FOR_TYPE (d_decision_type d) \<and>
     d_artifact d = ARTIFACT_FOR_SUBJECT (d_subject_type d)"
    and "context_digest cr (env_context env) (d_artifact d) = Some (draft_digest d)"
    and "decided_by d = strip (rq_decided_by rq) \<and> decided_by d \<noteq> [] \<and> rationale d = strip (rq_rationale rq)"
    and "decision_status_violation (dtype_value (d_decision_type d)) (status_value (env_status env)) = None"
    and "\<forall>p\<in>set (env_preparers env). decision_sod_violation (dtype_value (d_decision_type d)) (decided_by d) (Some p) = None"
    and "dtype_value (d_decision_type d) \<in> set RATIONALE_ALWAYS_REQUIRED \<Longrightarrow> rationale d \<noteq> []"
    and "check_supersedes (active_by_slot cr (env_context env) ds) ds (slot_key d) (supersedes d) = Inr ()"
    and "\<exists>parsed. parse_values (d_decision_type d) (rq_values rq) = Inr parsed \<and>
       stored_values (env_context env) (active_by_slot cr (env_context env) ds) (d_decision_type d) (subject_id d)
         parsed (rationale d) (take 10 (decided_at d)) = Inr (d_values d)"
    and "supersedes d \<noteq> Some []"
proof -
  note build = assms [unfolded build_decision_def Let_def bindE_Inr_iff requireE_Inr_iff of_option_Inr_iff
      raise_if_Inr_iff]
  show "decision_id d = env_new_id env \<and> decided_at d = env_now env \<and>
     d_subject_type d = SUBJECT_FOR_TYPE (d_decision_type d) \<and>
     d_phase d = PHASE_FOR_TYPE (d_decision_type d) \<and>
     d_artifact d = ARTIFACT_FOR_SUBJECT (d_subject_type d)"
    using build by auto
  show "context_digest cr (env_context env) (d_artifact d) = Some (draft_digest d)"
    using build by auto
  show "decided_by d = strip (rq_decided_by rq) \<and> decided_by d \<noteq> [] \<and> rationale d = strip (rq_rationale rq)"
    using build by auto
  show "decision_status_violation (dtype_value (d_decision_type d)) (status_value (env_status env)) = None"
    using build by auto
  show "\<forall>p\<in>set (env_preparers env). decision_sod_violation (dtype_value (d_decision_type d)) (decided_by d) (Some p) = None"
    using build by (auto simp: find_None_iff)
  show "dtype_value (d_decision_type d) \<in> set RATIONALE_ALWAYS_REQUIRED \<Longrightarrow> rationale d \<noteq> []"
    using build by auto
  show "check_supersedes (active_by_slot cr (env_context env) ds) ds (slot_key d) (supersedes d) = Inr ()"
    using build by (auto simp: slot_key_def)
  show "\<exists>parsed. parse_values (d_decision_type d) (rq_values rq) = Inr parsed \<and>
       stored_values (env_context env) (active_by_slot cr (env_context env) ds) (d_decision_type d) (subject_id d)
         parsed (rationale d) (take 10 (decided_at d)) = Inr (d_values d)"
    using build by auto
  show "supersedes d \<noteq> Some []"
    using build by (auto split: option.splits if_splits)
qed

section \<open>Active decisions\<close>

definition is_active :: "crypto \<Rightarrow> decision_context \<Rightarrow> review_decision list \<Rightarrow> review_decision \<Rightarrow> bool" where
  "is_active cr ctx ds d \<longleftrightarrow> decision_id d \<notin> set (superseded_ids ds) \<and>
     context_digest cr ctx (d_artifact d) = Some (draft_digest d)"

definition ids_distinct :: "review_decision list \<Rightarrow> bool" where
  "ids_distinct ds \<longleftrightarrow> distinct (map decision_id ds)"

lemma find_by_id:
  assumes "ids_distinct ds" "d \<in> set ds"
  shows "find (\<lambda>x. decision_id x = decision_id d) ds = Some d"
    "find (\<lambda>x. decision_id x = decision_id d) (rev ds) = Some d"
  using assms by (auto intro!: find_unique simp: ids_distinct_def distinct_map inj_on_def)

lemma decision_states_of:
  assumes "ids_distinct ds" "d \<in> set ds"
  shows "map_of (decision_states cr ctx ds) (decision_id d) = Some (state_of cr ctx ds d)"
  unfolding decision_states_def map_of_foldl_update_all using find_by_id [OF assms] by simp

lemma state_active_iff: "state_of cr ctx ds d = State_active \<longleftrightarrow> is_active cr ctx ds d"
  by (auto simp: state_of_def is_active_def)

lemma active_by_slot_find:
  assumes "ids_distinct ds"
  shows "map_of (active_by_slot cr ctx ds) k = find (\<lambda>d. is_active cr ctx ds d \<and> slot_key d = k) (rev ds)"
proof -
  have "map_of (active_by_slot cr ctx ds) k =
      find (\<lambda>d. map_of (decision_states cr ctx ds) (decision_id d) = Some State_active \<and> slot_key d = k) (rev ds)"
    unfolding active_by_slot_def map_of_foldl_update by (simp split: option.splits)
  also have "\<dots> = find (\<lambda>d. is_active cr ctx ds d \<and> slot_key d = k) (rev ds)"
    using assms by (intro find_cong) (auto simp: decision_states_of state_active_iff)
  finally show ?thesis .
qed

lemma active_by_slot_SomeD:
  assumes "ids_distinct ds" "map_of (active_by_slot cr ctx ds) k = Some d"
  shows "d \<in> set ds \<and> is_active cr ctx ds d \<and> slot_key d = k"
  using assms find_SomeD by (fastforce simp: active_by_slot_find)

lemma active_by_slot_None_iff:
  assumes "ids_distinct ds"
  shows "map_of (active_by_slot cr ctx ds) k = None \<longleftrightarrow> \<not> (\<exists>d\<in>set ds. is_active cr ctx ds d \<and> slot_key d = k)"
  using assms by (auto simp: active_by_slot_find find_None_iff)

section \<open>Histories\<close>

text \<open>
  The decisions an audit accumulates: each was built against some drafts, statuses and
  preparers of the moment and the decisions before it, and has a fresh id.
\<close>

inductive recorded :: "crypto \<Rightarrow> review_decision list \<Rightarrow> bool" for cr where
  recorded_Nil: "recorded cr []"
| recorded_snoc: "recorded cr ds \<Longrightarrow> build_decision cr env ds rq = Inr d \<Longrightarrow>
    decision_id d \<notin> decision_id ` set ds \<Longrightarrow> recorded cr (ds @ [d])"

inductive_cases recorded_snocE: "recorded cr (ds @ [d])"

lemma superseded_append [simp]: "set (superseded_ids (ds @ es)) = set (superseded_ids ds) \<union> set (superseded_ids es)"
  by (simp add: superseded_ids_def)

text \<open>Of two decisions in one slot on the same draft, one has been superseded.\<close>

definition one_per_slot :: "review_decision list \<Rightarrow> bool" where
  "one_per_slot ds \<longleftrightarrow> ids_distinct ds \<and>
     (\<forall>d\<in>set ds. d_artifact d = ARTIFACT_FOR_SUBJECT (d_subject_type d)) \<and>
     (\<forall>d1\<in>set ds. \<forall>d2\<in>set ds. d1 \<noteq> d2 \<longrightarrow> slot_key d1 = slot_key d2 \<longrightarrow> draft_digest d1 = draft_digest d2 \<longrightarrow>
        decision_id d1 \<in> set (superseded_ids ds) \<or> decision_id d2 \<in> set (superseded_ids ds))"

lemma slot_key_artifact:
  "slot_key d = slot_key e \<Longrightarrow> d_artifact d = ARTIFACT_FOR_SUBJECT (d_subject_type d) \<Longrightarrow>
   d_artifact e = ARTIFACT_FOR_SUBJECT (d_subject_type e) \<Longrightarrow> d_artifact d = d_artifact e"
  using stype_label.val_inject by (auto simp: slot_key_def)

lemma one_per_slot_active:
  assumes "one_per_slot ds" "d1 \<in> set ds" "d2 \<in> set ds" "is_active cr ctx ds d1" "is_active cr ctx ds d2"
    "slot_key d1 = slot_key d2"
  shows "d1 = d2"
  using assms slot_key_artifact [of d1 d2] unfolding one_per_slot_def is_active_def
  by (metis option.inject)

lemma build_one_per_slot:
  assumes ds: "one_per_slot ds" and build: "build_decision cr env ds rq = Inr d"
    and fresh: "decision_id d \<notin> decision_id ` set ds"
  shows "one_per_slot (ds @ [d])"
proof -
  note facts = build_decision_facts [OF build]
  have art: "d_artifact d = ARTIFACT_FOR_SUBJECT (d_subject_type d)" using facts(1) by simp
  have ids: "ids_distinct ds" using ds by (simp add: one_per_slot_def)
  have new: "decision_id e \<in> set (superseded_ids (ds @ [d]))"
    if e: "e \<in> set ds" "slot_key e = slot_key d" "draft_digest e = draft_digest d" for e
  proof (cases "decision_id e \<in> set (superseded_ids ds)")
    case False
    have "d_artifact e = d_artifact d"
      using ds e(1) art by (intro slot_key_artifact [OF e(2)]) (auto simp: one_per_slot_def)
    then have act: "is_active cr (env_context env) ds e"
      using False facts(2) e(3) by (simp add: is_active_def)
    then obtain c where c: "map_of (active_by_slot cr (env_context env) ds) (slot_key d) = Some c"
      using active_by_slot_None_iff [OF ids, of cr "env_context env" "slot_key d"] e by (metis not_None_eq)
    then have "c = e"
      using active_by_slot_SomeD [OF ids c] one_per_slot_active [OF ds _ e(1) _ act] e(2) by auto
    then have "supersedes d = Some (decision_id e)"
      using facts(7) c by (auto simp: check_supersedes_def Let_def split: option.splits if_splits)
    moreover have "decision_id e \<noteq> []" using facts(9) calculation by simp
    ultimately show ?thesis by (simp add: superseded_ids_def)
  qed simp
  show ?thesis
    unfolding one_per_slot_def
  proof (intro conjI ballI impI)
    show "ids_distinct (ds @ [d])" using ids fresh by (simp add: ids_distinct_def)
    fix e assume "e \<in> set (ds @ [d])"
    then show "d_artifact e = ARTIFACT_FOR_SUBJECT (d_subject_type e)"
      using ds art by (auto simp: one_per_slot_def)
  next
    fix d1 d2 assume *: "d1 \<in> set (ds @ [d])" "d2 \<in> set (ds @ [d])" "d1 \<noteq> d2" "slot_key d1 = slot_key d2"
      "draft_digest d1 = draft_digest d2"
    then consider "d1 \<in> set ds" "d2 \<in> set ds" | "d1 \<in> set ds" "d2 = d" | "d2 \<in> set ds" "d1 = d" by auto
    then show "decision_id d1 \<in> set (superseded_ids (ds @ [d])) \<or> decision_id d2 \<in> set (superseded_ids (ds @ [d]))"
      by cases (use * ds new in \<open>auto simp: one_per_slot_def\<close>)
  qed
qed

lemma recorded_one_per_slot: "recorded cr ds \<Longrightarrow> one_per_slot ds"
proof (induction rule: recorded.induct)
  case recorded_Nil
  show ?case by (simp add: one_per_slot_def ids_distinct_def)
next
  case (recorded_snoc ds env rq d)
  then show ?case by (intro build_one_per_slot)
qed

lemma recorded_ids: "recorded cr ds \<Longrightarrow> ids_distinct ds"
  using recorded_one_per_slot by (auto simp: one_per_slot_def)

section \<open>What a challenge can change\<close>

text \<open>
  The change a decision makes to its finding: nothing, or withdrawing an effective conclusion.
\<close>

definition lowers :: "finding \<Rightarrow> dict \<Rightarrow> bool" where
  "lowers f vs \<longleftrightarrow>
     (map_of vs ''tod_conclusion'' = None \<or>
      (map_of vs ''tod_conclusion'' = Some (tod_value TOD_NOT_TESTED) \<and> tod_conclusion f = TOD_EFFECTIVE)) \<and>
     (map_of vs ''toe_conclusion'' = None \<or>
      (map_of vs ''toe_conclusion'' = Some (toe_value TOE_NOT_TESTED) \<and> toe_conclusion f = TOE_EFFECTIVE))"

lemma challenge_value_cases:
  assumes "challenge_value f field draft new vs = Inr out"
  shows "out = vs \<or> (\<exists>n. new = Some n \<and> n \<noteq> draft \<and> conclusion_change_allowed draft n \<and> out = dict_set field n vs)"
  using assms by (auto simp: challenge_value_def split: option.splits if_splits)

lemma challenge_values_lower:
  assumes "challenge_values f tod toe = Inr vs"
  shows "lowers f vs"
proof -
  obtain out where
    1: "challenge_value f ''tod_conclusion'' (tod_value (tod_conclusion f)) (map_option tod_value tod) [] = Inr out" and
    2: "challenge_value f ''toe_conclusion'' (toe_value (toe_conclusion f)) (map_option toe_value toe) out = Inr vs"
    using assms by (auto simp: challenge_values_def bindE_Inr_iff)
  have tod: "out = [] \<or> (tod_conclusion f = TOD_EFFECTIVE \<and> out = [(''tod_conclusion'', tod_value TOD_NOT_TESTED)])"
    using challenge_value_cases [OF 1] by (auto simp: tod_change_allowed simp del: tod_value.simps)
  have toe: "vs = out \<or> (toe_conclusion f = TOE_EFFECTIVE \<and> vs = dict_set ''toe_conclusion'' (toe_value TOE_NOT_TESTED) out)"
    using challenge_value_cases [OF 2] by (auto simp: toe_change_allowed simp del: toe_value.simps)
  from tod show ?thesis
  proof (elim disjE conjE)
    assume "out = []"
    then show ?thesis using toe by (auto simp: lowers_def)
  next
    assume "out = [(''tod_conclusion'', tod_value TOD_NOT_TESTED)]" "tod_conclusion f = TOD_EFFECTIVE"
    then show ?thesis using toe by (auto simp: lowers_def)
  qed
qed

lemma tod_of_value_value [simp]: "tod_of_value (tod_value x) = Some x"
  by (simp add: tod_of_value_def tod_label.by_value_val)

lemma toe_of_value_value [simp]: "toe_of_value (toe_value x) = Some x"
  by (simp add: toe_of_value_def toe_label.by_value_val)

lemma effective_conclusions_lower:
  assumes "case review of None \<Rightarrow> True | Some d \<Rightarrow> d_decision_type d = CHALLENGE \<longrightarrow> lowers f (d_values d)"
  shows "\<exists>tod toe. effective_conclusions f review = Inr (tod, toe, derive_result tod toe (exceptions_noted f)) \<and>
     (tod = tod_conclusion f \<or> tod = TOD_NOT_TESTED \<and> tod_conclusion f = TOD_EFFECTIVE) \<and>
     (toe = toe_conclusion f \<or> toe = TOE_NOT_TESTED \<and> toe_conclusion f = TOE_EFFECTIVE)"
proof -
  let ?vs = "case review of None \<Rightarrow> [] | Some d \<Rightarrow> if d_decision_type d = CHALLENGE then d_values d else []"
  have low: "lowers f ?vs" using assms by (auto simp: lowers_def split: option.splits)
  have "\<exists>tod. tod_of_value (dict_get_or ?vs ''tod_conclusion'' (tod_value (tod_conclusion f))) = Some tod \<and>
      (tod = tod_conclusion f \<or> tod = TOD_NOT_TESTED \<and> tod_conclusion f = TOD_EFFECTIVE)"
    using low tod_of_value_value [of TOD_NOT_TESTED]
    unfolding lowers_def dict_get_or_def by (elim conjE disjE) (simp_all del: tod_value.simps)
  moreover have "\<exists>toe. toe_of_value (dict_get_or ?vs ''toe_conclusion'' (toe_value (toe_conclusion f))) = Some toe \<and>
      (toe = toe_conclusion f \<or> toe = TOE_NOT_TESTED \<and> toe_conclusion f = TOE_EFFECTIVE)"
    using low toe_of_value_value [of TOE_NOT_TESTED]
    unfolding lowers_def dict_get_or_def by (elim conjE disjE) (simp_all del: toe_value.simps)
  ultimately show ?thesis unfolding effective_conclusions_def Let_def by auto
qed

lemma lowered_result:
  assumes "tod = tod_conclusion f \<or> tod = TOD_NOT_TESTED \<and> tod_conclusion f = TOD_EFFECTIVE"
    "toe = toe_conclusion f \<or> toe = TOE_NOT_TESTED \<and> toe_conclusion f = TOE_EFFECTIVE"
  shows "derive_result tod toe n = EXCEPTION \<longleftrightarrow> derive_result (tod_conclusion f) (toe_conclusion f) n = EXCEPTION"
  using assms by (auto simp: derive_result_def)

lemma build_challenge_lowers:
  assumes build: "build_decision cr env ds rq = Inr d" and type: "d_decision_type d = CHALLENGE"
  shows "\<exists>f. context_finding (env_context env) (subject_id d) = Some f \<and> lowers f (d_values d)"
proof -
  obtain parsed where p: "parse_values CHALLENGE (rq_values rq) = Inr parsed"
    "stored_values (env_context env) (active_by_slot cr (env_context env) ds) CHALLENGE (subject_id d)
       parsed (rationale d) (take 10 (decided_at d)) = Inr (d_values d)"
    using build_decision_facts(8) [OF build] type by auto
  then obtain tod toe where "parsed = ChallengeValues tod toe"
    by (auto simp: bindE_Inr_iff)
  then show ?thesis
    using p(2) by (auto simp: stored_values_def finding_values_def bindE_Inr_iff of_option_Inr_iff challenge_values_lower)
qed

end
