(* ===== verification/View.thy ===== *)
theory View
  imports Decisions
begin

text \<open>
  The effective view, the gate preconditions and the change rate: the second half of
  \<open>src/swarm/review_decisions.py\<close>. The view is partial, because a stored decision whose values
  are no conclusion (or no classification) makes the code raise; for decisions the code recorded
  this does not happen. The prose \<open>reason\<close> of a missing decision is left out, and the change
  rate is the pair of counts the code divides.
\<close>

section \<open>The view of a subject\<close>

record decision_ref =
  ref_id :: string
  ref_type :: string
  ref_by :: string
  ref_source :: string
  ref_at :: string
  ref_rationale :: string
  ref_values :: dict
  ref_supersedes :: "string option"

definition decision_ref_of :: "review_decision option \<Rightarrow> decision_ref option" where
  "decision_ref_of = map_option (\<lambda>d.
     \<lparr>ref_id = decision_id d, ref_type = dtype_value (d_decision_type d), ref_by = decided_by d,
      ref_source = source_value (d_identity_source d), ref_at = decided_at d,
      ref_rationale = rationale d, ref_values = d_values d, ref_supersedes = supersedes d\<rparr>)"

record finding_conclusions =
  fc_tod :: string
  fc_toe :: string
  fc_result :: string
  fc_preliminary :: bool

datatype review_status = Signed_off | Challenged | Not_reviewed

record finding_view =
  fv_control_id :: string
  fv_key_control :: "bool option"
  fv_draft :: finding_conclusions
  fv_effective :: finding_conclusions
  fv_review_status :: review_status
  fv_review :: "decision_ref option"
  fv_scope_limitation :: "decision_ref option"
  fv_differs :: bool
  fv_review_required :: bool

record classification_view =
  cl_classification :: string
  cl_likelihood :: string
  cl_magnitude :: string

record deficiency_view =
  dv_id :: string
  dv_title :: string
  dv_related_findings :: "string list"
  dv_draft :: classification_view
  dv_effective :: classification_view
  dv_by_reviewer :: bool
  dv_decision :: "decision_ref option"
  dv_differs :: bool
  dv_writeup :: "decision_ref option"
  dv_management_response :: "decision_ref option"
  dv_remediation :: "decision_ref option"

record missing_decision =
  md_gate :: nat
  md_subject_type :: string
  md_subject_id :: string
  md_required :: "string list"

record effective_view =
  ev_decisions_required :: bool
  ev_scale :: "string option"
  ev_findings :: "finding_view list"
  ev_deficiencies :: "deficiency_view list"
  ev_conclusion :: "decision_ref option"
  ev_missing :: "(nat \<times> missing_decision list) list"
  ev_decided :: nat
  ev_changed :: nat
  ev_stale :: "string list"
  ev_superseded :: "string list"

text \<open>The loops skip an id they have seen: the first of each id, in order.\<close>

fun firsts :: "('a \<Rightarrow> string) \<Rightarrow> string list \<Rightarrow> 'a list \<Rightarrow> 'a list" where
  "firsts key seen [] = []"
| "firsts key seen (x # xs) = (if key x \<in> set seen then firsts key seen xs else x # firsts key (key x # seen) xs)"

type_synonym active = "(slot_key \<times> review_decision) list"

definition active_review :: "active \<Rightarrow> string \<Rightarrow> review_decision option" where
  "active_review act cid = map_of act (FINDING_REVIEW, stype_value FINDING, cid)"

definition result_text :: "finding_result option \<Rightarrow> string" where
  "result_text r = (case r of None \<Rightarrow> ''None'' | Some x \<Rightarrow> result_value x)"

definition draft_conclusions :: "finding \<Rightarrow> finding_conclusions" where
  "draft_conclusions f = \<lparr>fc_tod = tod_value (tod_conclusion f), fc_toe = toe_value (toe_conclusion f),
     fc_result = result_text (f_result f), fc_preliminary = (preliminary_deficiency f = Some True)\<rparr>"

definition finding_view_of :: "decision_context \<Rightarrow> active \<Rightarrow> finding \<Rightarrow> raised + finding_view" where
  "finding_view_of ctx act f =
     (let cid = f_control_id f; review = active_review act cid;
          scope = map_of act (dtype_value SCOPE_LIMITATION, stype_value FINDING, cid);
          draft = draft_conclusions f; key = key_control_of ctx cid in
      bindE (effective_conclusions f review) (\<lambda>(tod, toe, res).
        let eff = \<lparr>fc_tod = tod_value tod, fc_toe = toe_value toe, fc_result = result_value res,
              fc_preliminary = (preliminary_deficiency f = Some True \<and> res = EXCEPTION)\<rparr> in
        Inr \<lparr>fv_control_id = cid, fv_key_control = key, fv_draft = draft, fv_effective = eff,
          fv_review_status = (case review of None \<Rightarrow> Not_reviewed
            | Some d \<Rightarrow> if d_decision_type d = CHALLENGE then Challenged else Signed_off),
          fv_review = decision_ref_of review, fv_scope_limitation = decision_ref_of scope,
          fv_differs = (draft \<noteq> eff),
          fv_review_required = finding_needs_review (Some (fc_result draft)) key\<rparr>))"

definition finding_views :: "decision_context \<Rightarrow> active \<Rightarrow> raised + finding_view list" where
  "finding_views ctx act =
     collectE (\<lambda>f. bindE (finding_view_of ctx act f) (\<lambda>v. Inr [v])) (firsts f_control_id [] (context_findings ctx))"

text \<open>\<open>Classification(**values)\<close>: the three fields must be there.\<close>

definition classification_of :: "dict \<Rightarrow> raised + classification_view" where
  "classification_of vs =
     bindE (of_option ValueError (map_of vs ''classification'')) (\<lambda>c.
     bindE (of_option ValueError (map_of vs ''likelihood'')) (\<lambda>l.
     bindE (of_option ValueError (map_of vs ''magnitude'')) (\<lambda>m.
       Inr \<lparr>cl_classification = c, cl_likelihood = l, cl_magnitude = m\<rparr>)))"

definition deficiency_slot :: "active \<Rightarrow> decision_type \<Rightarrow> string \<Rightarrow> review_decision option" where
  "deficiency_slot act dt did = map_of act (dtype_value dt, stype_value DEFICIENCY, did)"

definition deficiency_view_of :: "active \<Rightarrow> deficiency \<Rightarrow> raised + deficiency_view" where
  "deficiency_view_of act e =
     (let did = deficiency_id e; classify = deficiency_slot act CLASSIFY did in
      bindE (classification_of (draft_classification e)) (\<lambda>draft.
      bindE (case classify of None \<Rightarrow> Inr draft | Some d \<Rightarrow> classification_of (d_values d)) (\<lambda>eff.
        Inr \<lparr>dv_id = did, dv_title = e_title e, dv_related_findings = related_findings e,
          dv_draft = draft, dv_effective = eff, dv_by_reviewer = (classify \<noteq> None),
          dv_decision = decision_ref_of classify, dv_differs = (draft \<noteq> eff),
          dv_writeup = decision_ref_of (deficiency_slot act WRITEUP did),
          dv_management_response = decision_ref_of (deficiency_slot act MANAGEMENT_RESPONSE did),
          dv_remediation = decision_ref_of (deficiency_slot act REMEDIATION_VERIFICATION did)\<rparr>)))"

definition deficiency_views :: "decision_context \<Rightarrow> active \<Rightarrow> raised + deficiency_view list" where
  "deficiency_views ctx act =
     collectE (\<lambda>e. bindE (deficiency_view_of act e) (\<lambda>v. Inr [v])) (firsts deficiency_id [] (context_evaluations ctx))"

section \<open>What each gate still needs\<close>

definition missing_gate_2 :: "finding_view list \<Rightarrow> missing_decision list" where
  "missing_gate_2 fs =
     map (\<lambda>f. \<lparr>md_gate = 2, md_subject_type = ''finding'', md_subject_id = fv_control_id f,
         md_required = [''sign_off'', ''challenge'']\<rparr>)
       (filter (\<lambda>f. fv_review_required f \<and> fv_review f = None) fs)"

definition missing_gate_3 ::
  "finding_view list \<Rightarrow> deficiency_view list \<Rightarrow> decision_ref option \<Rightarrow> missing_decision list" where
  "missing_gate_3 fs es concl =
     (if GATE_3_CLASSIFY_EVERY_DEFICIENCY then
        map (\<lambda>e. \<lparr>md_gate = 3, md_subject_type = ''deficiency'', md_subject_id = dv_id e,
            md_required = [''classify'']\<rparr>) (filter (\<lambda>e. dv_decision e = None) es) else []) @
     map (\<lambda>f. \<lparr>md_gate = 3, md_subject_type = ''finding'', md_subject_id = fv_control_id f,
         md_required = [''scope_limitation'']\<rparr>)
       (filter (\<lambda>f. finding_needs_scope_limitation (Some (fc_result (fv_effective f))) (fv_key_control f) \<and>
          fv_scope_limitation f = None) fs) @
     (if GATE_3_ENGAGEMENT_CONCLUSION \<and> concl = None then
        [\<lparr>md_gate = 3, md_subject_type = ''engagement'', md_subject_id = ENGAGEMENT_SUBJECT_ID,
          md_required = [''engagement_conclusion'']\<rparr>] else [])"

definition missing_decisions ::
  "decision_context \<Rightarrow> finding_view list \<Rightarrow> deficiency_view list \<Rightarrow> decision_ref option \<Rightarrow>
   (nat \<times> missing_decision list) list" where
  "missing_decisions ctx fs es concl =
     (if x_papers ctx \<noteq> None then [(2, missing_gate_2 fs)] else []) @
     (if x_report ctx \<noteq> None then [(3, missing_gate_3 fs es concl)] else [])"

definition engagement_decision :: "active \<Rightarrow> review_decision option" where
  "engagement_decision act =
     map_of act (dtype_value ENGAGEMENT_CONCLUSION, stype_value ENGAGEMENT, ENGAGEMENT_SUBJECT_ID)"

definition view_of ::
  "crypto \<Rightarrow> decision_context \<Rightarrow> review_decision list \<Rightarrow> bool \<Rightarrow> raised + effective_view" where
  "view_of cr ctx ds required =
     (let states = decision_states cr ctx ds; act = active_by_slot cr ctx ds in
      bindE (finding_views ctx act) (\<lambda>fs.
      bindE (deficiency_views ctx act) (\<lambda>es.
        let concl = decision_ref_of (engagement_decision act) in
        Inr \<lparr>ev_decisions_required = required,
          ev_scale = (case x_report ctx of None \<Rightarrow> None | Some r \<Rightarrow> map_option scale_value (rp_scale r)),
          ev_findings = fs, ev_deficiencies = es, ev_conclusion = concl,
          ev_missing = missing_decisions ctx fs es concl,
          ev_decided = length (filter (\<lambda>f. fv_review f \<noteq> None) fs) + length (filter (\<lambda>e. dv_decision e \<noteq> None) es),
          ev_changed = length (filter (\<lambda>f. fv_review_status f = Challenged) fs) +
            length (filter (\<lambda>e. dv_decision e \<noteq> None \<and> dv_differs e) es),
          ev_stale = map fst (filter (\<lambda>(i, s). s = State_stale) states),
          ev_superseded = map fst (filter (\<lambda>(i, s). s = State_superseded) states)\<rparr>)))"

section \<open>The view of recorded decisions\<close>

lemma firsts_subset: "x \<in> set (firsts key seen xs) \<Longrightarrow> x \<in> set xs"
  by (induction xs arbitrary: seen) (auto split: if_splits)

lemma firsts_find:
  "x \<in> set (firsts key seen xs) \<Longrightarrow> find (\<lambda>y. key y = key x) xs = Some x \<and> key x \<notin> set seen"
proof (induction xs arbitrary: seen)
  case (Cons y xs)
  show ?case
  proof (cases "key y \<in> set seen")
    case True
    then show ?thesis using Cons by auto
  next
    case False
    then consider "x = y" | "x \<in> set (firsts key (key y # seen) xs)" using Cons.prems by auto
    then show ?thesis by cases (use False Cons.IH [of "key y # seen"] in auto)
  qed
qed simp

lemma firsts_cover: "x \<in> set xs \<Longrightarrow> key x \<in> set seen \<or> (\<exists>y\<in>set (firsts key seen xs). key y = key x)"
proof (induction xs arbitrary: seen)
  case (Cons y xs)
  then show ?case using Cons.IH [of seen] Cons.IH [of "key y # seen"] by auto
qed simp

lemma context_artifact_simps [simp]:
  "context_artifact ctx ''working_papers'' = map_option working_papers_json (x_papers ctx)"
  "context_artifact ctx ''final_report'' = map_option final_report_json (x_report ctx)"
  by (simp_all add: context_artifact_def)

text \<open>
  The drafts a decision was made on, read back from its digest: \<open>made_on\<close> says the drafts whose
  digests appear do not collide with each other.
\<close>

definition made_on :: "crypto \<Rightarrow> decision_context \<Rightarrow> decision_context \<Rightarrow> bool" where
  "made_on cr ctx ctx' \<longleftrightarrow>
     (\<forall>name a b. context_artifact ctx name = Some a \<longrightarrow> context_artifact ctx' name = Some b \<longrightarrow>
        artifact_digest cr a = artifact_digest cr b \<longrightarrow> canonical a = canonical b)"

lemma same_papers:
  assumes "made_on cr ctx ctx'" "context_digest cr ctx ''working_papers'' = Some h"
    "context_digest cr ctx' ''working_papers'' = Some h"
  shows "x_papers ctx = x_papers ctx'"
proof -
  obtain p q where pq: "x_papers ctx = Some p" "x_papers ctx' = Some q"
    "artifact_digest cr (working_papers_json p) = h" "artifact_digest cr (working_papers_json q) = h"
    using assms(2,3) by (auto simp: context_digest_def)
  have "canonical (working_papers_json p) = canonical (working_papers_json q)"
    using assms(1) [unfolded made_on_def, rule_format, of "''working_papers''" "working_papers_json p" "working_papers_json q"]
      pq by simp
  then have "p = q" using faithful_canonical [OF faithful_working_papers] by blast
  then show ?thesis using pq by simp
qed

text \<open>
  A history together with the drafts each decision was made on. \<open>recorded_on cr cs ds\<close>: the
  decisions \<open>ds\<close> were built one after the other, each on one of the contexts \<open>cs\<close>.
\<close>

inductive recorded_on :: "crypto \<Rightarrow> decision_context list \<Rightarrow> review_decision list \<Rightarrow> bool" for cr where
  on_Nil: "recorded_on cr [] []"
| on_snoc: "recorded_on cr cs ds \<Longrightarrow> build_decision cr env ds rq = Inr d \<Longrightarrow>
    decision_id d \<notin> decision_id ` set ds \<Longrightarrow> recorded_on cr (cs @ [env_context env]) (ds @ [d])"

lemma recorded_on_recorded: "recorded_on cr cs ds \<Longrightarrow> recorded cr ds"
  by (induction rule: recorded_on.induct) (auto intro: recorded.intros)

text \<open>What each recorded decision says of the drafts it was made on.\<close>

definition fits :: "crypto \<Rightarrow> decision_context \<Rightarrow> review_decision \<Rightarrow> bool" where
  "fits cr ctx d \<longleftrightarrow>
     context_digest cr ctx (d_artifact d) = Some (draft_digest d) \<and>
     d_artifact d = ARTIFACT_FOR_SUBJECT (d_subject_type d) \<and>
     d_subject_type d = SUBJECT_FOR_TYPE (d_decision_type d) \<and>
     d_phase d = PHASE_FOR_TYPE (d_decision_type d) \<and>
     (d_decision_type d = CHALLENGE \<longrightarrow>
        (\<exists>f. context_finding ctx (subject_id d) = Some f \<and> lowers f (d_values d))) \<and>
     (d_decision_type d = CLASSIFY \<longrightarrow> (\<exists>c. classification_of (d_values d) = Inr c))"

lemma classify_values_view:
  "classify_values report e cls lik mag = Inr vs \<Longrightarrow> \<exists>c. classification_of vs = Inr c"
  by (auto simp: classify_values_def Let_def classification_of_def split: if_splits)

lemma build_fits:
  assumes build: "build_decision cr env ds rq = Inr d"
  shows "fits cr (env_context env) d"
proof -
  note facts = build_decision_facts [OF build]
  have "\<exists>c. classification_of (d_values d) = Inr c" if type: "d_decision_type d = CLASSIFY"
  proof -
    obtain parsed where p: "parse_values CLASSIFY (rq_values rq) = Inr parsed"
      "stored_values (env_context env) (active_by_slot cr (env_context env) ds) CLASSIFY (subject_id d)
         parsed (rationale d) (take 10 (decided_at d)) = Inr (d_values d)"
      using facts(8) type by auto
    then obtain cls lik mag where "parsed = ClassifyValues cls lik mag" by (auto simp: bindE_Inr_iff)
    then show ?thesis
      using p(2) by (auto simp: stored_values_def deficiency_values_def bindE_Inr_iff classify_values_view
          split: option.splits if_splits)
  qed
  then show ?thesis
    using facts(1,2) build_challenge_lowers [OF build] by (auto simp: fits_def)
qed

lemma recorded_on_fits: "recorded_on cr cs ds \<Longrightarrow> \<forall>d\<in>set ds. \<exists>ctx\<in>set cs. fits cr ctx d"
  by (induction rule: recorded_on.induct) (auto dest: build_fits)

lemma list_all2_set1: "list_all2 R xs ys \<Longrightarrow> x \<in> set xs \<Longrightarrow> \<exists>y\<in>set ys. R x y"
  by (induction rule: list_all2_induct) auto

lemma list_all2_set2: "list_all2 R xs ys \<Longrightarrow> y \<in> set ys \<Longrightarrow> \<exists>x\<in>set xs. R x y"
  by (induction rule: list_all2_induct) auto

text \<open>No digest of an earlier draft collides with a current one.\<close>

definition drafts_distinct :: "crypto \<Rightarrow> decision_context list \<Rightarrow> decision_context \<Rightarrow> bool" where
  "drafts_distinct cr cs ctx \<longleftrightarrow> (\<forall>c\<in>set cs. made_on cr c ctx)"

lemma active_facts:
  assumes rec: "recorded_on cr cs ds" and coll: "drafts_distinct cr cs ctx"
    and act: "map_of (active_by_slot cr ctx ds) k = Some d"
  obtains c where "c \<in> set cs" "fits cr c d" "made_on cr c ctx" "slot_key d = k" "d \<in> set ds"
    "context_digest cr ctx (d_artifact d) = Some (draft_digest d)"
proof -
  have d: "d \<in> set ds \<and> is_active cr ctx ds d \<and> slot_key d = k"
    using recorded_ids [OF recorded_on_recorded [OF rec]] act by (rule active_by_slot_SomeD)
  moreover obtain c where "c \<in> set cs" "fits cr c d" using recorded_on_fits [OF rec] d by blast
  ultimately show thesis
    using that [of c] coll by (auto simp: drafts_distinct_def is_active_def)
qed

lemma active_review_fits:
  assumes rec: "recorded_on cr cs ds" "drafts_distinct cr cs ctx"
    and f: "context_finding ctx cid = Some f"
    and act: "active_review (active_by_slot cr ctx ds) cid = Some d"
  shows "d_decision_type d = CHALLENGE \<longrightarrow> lowers f (d_values d)"
proof
  assume type: "d_decision_type d = CHALLENGE"
  obtain c where c: "fits cr c d" "made_on cr c ctx" "slot_key d = (FINDING_REVIEW, stype_value FINDING, cid)"
    "context_digest cr ctx (d_artifact d) = Some (draft_digest d)"
    using active_facts [OF rec act [unfolded active_review_def]] by metis
  have "x_papers c = x_papers ctx"
    using c type by (intro same_papers [of cr c ctx "draft_digest d"]) (auto simp: fits_def)
  moreover have "subject_id d = cid" using c(3) by (simp add: slot_key_def)
  ultimately show "lowers f (d_values d)"
    using c(1) type f by (simp add: fits_def context_finding_def context_findings_def)
qed

lemma finding_view_facts:
  assumes rec: "recorded_on cr cs ds" "drafts_distinct cr cs ctx"
    and f: "context_finding ctx (f_control_id f) = Some f"
  obtains fv tod toe where "finding_view_of ctx (active_by_slot cr ctx ds) f = Inr fv"
    "fv_control_id fv = f_control_id f" "fv_draft fv = draft_conclusions f"
    "fc_tod (fv_effective fv) = tod_value tod" "fc_toe (fv_effective fv) = toe_value toe"
    "fc_result (fv_effective fv) = result_value (derive_result tod toe (exceptions_noted f))"
    "tod = tod_conclusion f \<or> tod = TOD_NOT_TESTED \<and> tod_conclusion f = TOD_EFFECTIVE"
    "toe = toe_conclusion f \<or> toe = TOE_NOT_TESTED \<and> toe_conclusion f = TOE_EFFECTIVE"
    "fv_key_control fv = key_control_of ctx (f_control_id f)"
    "fv_review fv = decision_ref_of (active_review (active_by_slot cr ctx ds) (f_control_id f))"
    "fv_scope_limitation fv = decision_ref_of
       (map_of (active_by_slot cr ctx ds) (dtype_value SCOPE_LIMITATION, stype_value FINDING, f_control_id f))"
    "fv_review_required fv = finding_needs_review (Some (fc_result (fv_draft fv))) (fv_key_control fv)"
proof -
  let ?rev = "active_review (active_by_slot cr ctx ds) (f_control_id f)"
  have "case ?rev of None \<Rightarrow> True | Some d \<Rightarrow> d_decision_type d = CHALLENGE \<longrightarrow> lowers f (d_values d)"
    using active_review_fits [OF rec f] by (auto split: option.splits)
  then obtain tod toe where
    e: "effective_conclusions f ?rev = Inr (tod, toe, derive_result tod toe (exceptions_noted f))" and
    c: "tod = tod_conclusion f \<or> tod = TOD_NOT_TESTED \<and> tod_conclusion f = TOD_EFFECTIVE"
    "toe = toe_conclusion f \<or> toe = TOE_NOT_TESTED \<and> toe_conclusion f = TOE_EFFECTIVE"
    using effective_conclusions_lower by blast
  show thesis
    by (rule that [OF _ _ _ _ _ _ c], simp add: finding_view_of_def Let_def e) simp_all
qed

lemma classification_of_draft [simp]: "\<exists>c. classification_of (draft_classification e) = Inr c"
  by (simp add: classification_of_def draft_classification_def)

lemma deficiency_view_total:
  assumes rec: "recorded_on cr cs ds" "drafts_distinct cr cs ctx"
  shows "\<exists>v. deficiency_view_of (active_by_slot cr ctx ds) e = Inr v"
proof -
  have "\<exists>c. classification_of (d_values d) = Inr c"
    if act: "deficiency_slot (active_by_slot cr ctx ds) CLASSIFY (deficiency_id e) = Some d" for d
  proof -
    obtain c where c: "fits cr c d" "slot_key d = (dtype_value CLASSIFY, stype_value DEFICIENCY, deficiency_id e)"
      using active_facts [OF rec act [unfolded deficiency_slot_def]] by metis
    then have "d_decision_type d = CLASSIFY"
      by (cases "d_decision_type d") (simp_all add: slot_key_def slot_of_def FINDING_REVIEW_def)
    then show ?thesis using c(1) by (simp add: fits_def)
  qed
  then show ?thesis
    using classification_of_draft [of e]
    by (cases "deficiency_slot (active_by_slot cr ctx ds) CLASSIFY (deficiency_id e)")
      (force simp: deficiency_view_of_def Let_def)+
qed

lemma collectE_each_total:
  "(\<And>x. x \<in> set xs \<Longrightarrow> \<exists>y. g x = Inr y) \<Longrightarrow> \<exists>ys. collectE (\<lambda>x. bindE (g x) (\<lambda>y. Inr [y])) xs = Inr ys"
proof (induction xs)
  case (Cons x xs)
  then obtain y ys where "g x = Inr y" "collectE (\<lambda>x. bindE (g x) (\<lambda>y. Inr [y])) xs = Inr ys" by force
  then show ?case by simp
qed simp

lemma firsts_context_finding:
  "f \<in> set (firsts f_control_id [] (context_findings ctx)) \<Longrightarrow> context_finding ctx (f_control_id f) = Some f"
  using firsts_find by (force simp: context_finding_def)

lemma view_total:
  assumes rec: "recorded_on cr cs ds" "drafts_distinct cr cs ctx"
  shows "\<exists>v. view_of cr ctx ds required = Inr v"
proof -
  have "\<exists>fs. finding_views ctx (active_by_slot cr ctx ds) = Inr fs"
    unfolding finding_views_def
  proof (rule collectE_each_total)
    fix f assume "f \<in> set (firsts f_control_id [] (context_findings ctx))"
    then show "\<exists>y. finding_view_of ctx (active_by_slot cr ctx ds) f = Inr y"
      using finding_view_facts [OF rec firsts_context_finding] by metis
  qed
  moreover have "\<exists>es. deficiency_views ctx (active_by_slot cr ctx ds) = Inr es"
    unfolding deficiency_views_def by (rule collectE_each_total) (rule deficiency_view_total [OF rec])
  ultimately show ?thesis by (auto simp: view_of_def Let_def)
qed

lemma view_findings:
  assumes "view_of cr ctx ds required = Inr v"
  shows "list_all2 (\<lambda>f fv. finding_view_of ctx (active_by_slot cr ctx ds) f = Inr fv)
     (firsts f_control_id [] (context_findings ctx)) (ev_findings v)"
    and "list_all2 (\<lambda>e dv. deficiency_view_of (active_by_slot cr ctx ds) e = Inr dv)
     (firsts deficiency_id [] (context_evaluations ctx)) (ev_deficiencies v)"
    and "ev_missing v = missing_decisions ctx (ev_findings v) (ev_deficiencies v) (ev_conclusion v)"
    and "ev_conclusion v = decision_ref_of (engagement_decision (active_by_slot cr ctx ds))"
  using assms by (auto simp: view_of_def Let_def bindE_Inr_iff finding_views_def deficiency_views_def collectE_each)

section \<open>Properties\<close>

text \<open>
  C15. [at_most_one_active_decision] Whatever drafts a history of decisions was made on, and
  whatever the drafts are now, two decisions in the same slot of the same subject are never both
  active: a correction has to supersede the decision it replaces.
\<close>

theorem at_most_one_active_decision:
  assumes "recorded cr ds" "d1 \<in> set ds" "d2 \<in> set ds" "slot_key d1 = slot_key d2"
    and "map_of (decision_states cr ctx ds) (decision_id d1) = Some State_active"
    and "map_of (decision_states cr ctx ds) (decision_id d2) = Some State_active"
  shows "d1 = d2"
proof -
  have "is_active cr ctx ds d1" "is_active cr ctx ds d2"
    using assms decision_states_of [OF recorded_ids [OF assms(1)]] state_active_iff by auto
  then show ?thesis
    using one_per_slot_active [OF recorded_one_per_slot [OF assms(1)] assms(2,3)] assms(4) by blast
qed

text \<open>A challenge withdraws conclusions and leaves the result an Exception or not, as drafted.\<close>

lemma finding_view_exception:
  assumes rec: "recorded_on cr cs ds" "drafts_distinct cr cs ctx" and ok: "finding_ok f"
    and f: "f \<in> set (firsts f_control_id [] (context_findings ctx))" "finding_view_of ctx (active_by_slot cr ctx ds) f = Inr fv"
  shows "(fc_result (fv_effective fv) = ''Exception'' \<longleftrightarrow> fc_result (fv_draft fv) = ''Exception'') \<and>
        (fc_tod (fv_effective fv) \<noteq> fc_tod (fv_draft fv) \<longrightarrow>
           fc_tod (fv_draft fv) = ''Effective'' \<and> fc_tod (fv_effective fv) = ''Not tested'') \<and>
        (fc_toe (fv_effective fv) \<noteq> fc_toe (fv_draft fv) \<longrightarrow>
           fc_toe (fv_draft fv) = ''Effective'' \<and> fc_toe (fv_effective fv) = ''Not tested'')"
    and "fv_draft fv = draft_conclusions f"
proof -
  have exc: "result_value r = ''Exception'' \<longleftrightarrow> r = EXCEPTION" for r by (cases r) simp_all
  obtain tod toe where e: "fv_draft fv = draft_conclusions f"
    "fc_tod (fv_effective fv) = tod_value tod" "fc_toe (fv_effective fv) = toe_value toe"
    "fc_result (fv_effective fv) = result_value (derive_result tod toe (exceptions_noted f))"
    "tod = tod_conclusion f \<or> tod = TOD_NOT_TESTED \<and> tod_conclusion f = TOD_EFFECTIVE"
    "toe = toe_conclusion f \<or> toe = TOE_NOT_TESTED \<and> toe_conclusion f = TOE_EFFECTIVE"
    using finding_view_facts [OF rec firsts_context_finding [OF f(1)]] f(2) by (metis sum.inject(2))
  have "f_result f = Some (derive_result (tod_conclusion f) (toe_conclusion f) (exceptions_noted f))"
    using ok by (auto simp: finding_ok_def)
  then show "(fc_result (fv_effective fv) = ''Exception'' \<longleftrightarrow> fc_result (fv_draft fv) = ''Exception'') \<and>
        (fc_tod (fv_effective fv) \<noteq> fc_tod (fv_draft fv) \<longrightarrow>
           fc_tod (fv_draft fv) = ''Effective'' \<and> fc_tod (fv_effective fv) = ''Not tested'') \<and>
        (fc_toe (fv_effective fv) \<noteq> fc_toe (fv_draft fv) \<longrightarrow>
           fc_toe (fv_draft fv) = ''Effective'' \<and> fc_toe (fv_effective fv) = ''Not tested'')"
    using e(1-4) lowered_result [OF e(5,6), of "exceptions_noted f"] e(5,6)
    by (auto simp: draft_conclusions_def result_text_def exc)
  show "fv_draft fv = draft_conclusions f" by (rule e(1))
qed

text \<open>
  C14. [reviewer_cannot_remove_exception] The effective view of recorded decisions never raises,
  and on consistent working papers no decision adds or removes an Exception: for every finding
  the effective result is Exception exactly when the draft's is, and the only conclusion that
  can differ from the draft is an Effective one withdrawn to Not tested.
\<close>

theorem reviewer_cannot_remove_exception:
  assumes rec: "recorded_on cr cs ds" "drafts_distinct cr cs ctx"
    and ok: "\<forall>f\<in>set (context_findings ctx). finding_ok f"
  shows "\<exists>v. view_of cr ctx ds required = Inr v \<and>
     (\<forall>fv\<in>set (ev_findings v).
        (fc_result (fv_effective fv) = ''Exception'' \<longleftrightarrow> fc_result (fv_draft fv) = ''Exception'') \<and>
        (fc_tod (fv_effective fv) \<noteq> fc_tod (fv_draft fv) \<longrightarrow>
           fc_tod (fv_draft fv) = ''Effective'' \<and> fc_tod (fv_effective fv) = ''Not tested'') \<and>
        (fc_toe (fv_effective fv) \<noteq> fc_toe (fv_draft fv) \<longrightarrow>
           fc_toe (fv_draft fv) = ''Effective'' \<and> fc_toe (fv_effective fv) = ''Not tested''))"
proof -
  obtain v where v: "view_of cr ctx ds required = Inr v" using view_total [OF rec] by blast
  have "(fc_result (fv_effective fv) = ''Exception'' \<longleftrightarrow> fc_result (fv_draft fv) = ''Exception'') \<and>
        (fc_tod (fv_effective fv) \<noteq> fc_tod (fv_draft fv) \<longrightarrow>
           fc_tod (fv_draft fv) = ''Effective'' \<and> fc_tod (fv_effective fv) = ''Not tested'') \<and>
        (fc_toe (fv_effective fv) \<noteq> fc_toe (fv_draft fv) \<longrightarrow>
           fc_toe (fv_draft fv) = ''Effective'' \<and> fc_toe (fv_effective fv) = ''Not tested'')"
    if fv: "fv \<in> set (ev_findings v)" for fv
  proof -
    obtain f where f: "f \<in> set (firsts f_control_id [] (context_findings ctx))"
      "finding_view_of ctx (active_by_slot cr ctx ds) f = Inr fv"
      using list_all2_set2 [OF view_findings(1) [OF v] fv] by blast
    moreover have "finding_ok f" using ok firsts_subset [OF f(1)] by blast
    ultimately show ?thesis using finding_view_exception(1) [OF rec] by blast
  qed
  with v show ?thesis by blast
qed

text \<open>There is an active decision in a slot.\<close>

definition decided ::
  "crypto \<Rightarrow> decision_context \<Rightarrow> review_decision list \<Rightarrow> decision_type list \<Rightarrow> string \<Rightarrow> bool" where
  "decided cr ctx ds types sid \<longleftrightarrow> (\<exists>d\<in>set ds. is_active cr ctx ds d \<and> d_decision_type d \<in> set types \<and> subject_id d = sid)"

lemma decision_ref_None [simp]: "decision_ref_of x = None \<longleftrightarrow> x = None"
  by (simp add: decision_ref_of_def)

lemma recorded_types: "recorded cr ds \<Longrightarrow> d \<in> set ds \<Longrightarrow> d_subject_type d = SUBJECT_FOR_TYPE (d_decision_type d)"
  by (induction rule: recorded.induct) (auto dest: build_decision_facts(1))

lemma slot_decided:
  assumes rec: "recorded cr ds" and types: "\<And>t. t \<in> set types \<longleftrightarrow> slot_of t = slot \<and> SUBJECT_FOR_TYPE t = st"
  shows "map_of (active_by_slot cr ctx ds) (slot, stype_value st, sid) = None \<longleftrightarrow> \<not> decided cr ctx ds types sid"
proof -
  have "slot_key d = (slot, stype_value st, sid) \<longleftrightarrow> d_decision_type d \<in> set types \<and> subject_id d = sid"
    if "d \<in> set ds" for d
    using recorded_types [OF rec that] types stype_label.val_inject by (auto simp: slot_key_def)
  then show ?thesis
    unfolding active_by_slot_None_iff [OF recorded_ids [OF rec]] decided_def by blast
qed

lemma slots:
  "t \<in> set [SIGN_OFF, CHALLENGE] \<longleftrightarrow> slot_of t = FINDING_REVIEW \<and> SUBJECT_FOR_TYPE t = FINDING"
  "t \<in> set [SCOPE_LIMITATION] \<longleftrightarrow> slot_of t = dtype_value SCOPE_LIMITATION \<and> SUBJECT_FOR_TYPE t = FINDING"
  "t \<in> set [CLASSIFY] \<longleftrightarrow> slot_of t = dtype_value CLASSIFY \<and> SUBJECT_FOR_TYPE t = DEFICIENCY"
  "t \<in> set [ENGAGEMENT_CONCLUSION] \<longleftrightarrow> slot_of t = dtype_value ENGAGEMENT_CONCLUSION \<and> SUBJECT_FOR_TYPE t = ENGAGEMENT"
  by (cases t; simp add: slot_of_def FINDING_REVIEW_def)+

lemma missing_gate_2_empty:
  "missing_gate_2 fs = [] \<longleftrightarrow> (\<forall>f\<in>set fs. fv_review_required f \<longrightarrow> fv_review f \<noteq> None)"
  by (auto simp: missing_gate_2_def filter_empty_conv)

lemma missing_gate_3_empty:
  "missing_gate_3 fs es c = [] \<longleftrightarrow> (\<forall>e\<in>set es. dv_decision e \<noteq> None) \<and>
     (\<forall>f\<in>set fs. fv_key_control f = Some True \<and> fc_result (fv_effective f) = ''Not tested'' \<longrightarrow>
        fv_scope_limitation f \<noteq> None) \<and> c \<noteq> None"
  by (auto simp: missing_gate_3_def filter_empty_conv finding_needs_scope_limitation_def gate_switches)

lemma exception_text: "result_text r = ''Exception'' \<longleftrightarrow> r = Some EXCEPTION"
  by (cases r) (auto simp: result_text_def elim: result_value.elims)

lemma finding_view_slots:
  assumes rec: "recorded_on cr cs ds" "drafts_distinct cr cs ctx"
    and f: "f \<in> set (firsts f_control_id [] (context_findings ctx))"
    and fv: "finding_view_of ctx (active_by_slot cr ctx ds) f = Inr fv"
  shows "fv_review fv = None \<longleftrightarrow> \<not> decided cr ctx ds [SIGN_OFF, CHALLENGE] (f_control_id f)"
    and "fv_review_required fv \<longleftrightarrow> f_result f = Some EXCEPTION \<or> key_control_of ctx (f_control_id f) = Some True"
    and "fv_scope_limitation fv = None \<longleftrightarrow> \<not> decided cr ctx ds [SCOPE_LIMITATION] (f_control_id f)"
    and "fv_control_id fv = f_control_id f"
proof -
  note R = recorded_on_recorded [OF rec(1)]
  have *: "fv_review fv = decision_ref_of (active_review (active_by_slot cr ctx ds) (f_control_id f)) \<and>
      fv_draft fv = draft_conclusions f \<and> fv_key_control fv = key_control_of ctx (f_control_id f) \<and>
      fv_review_required fv = finding_needs_review (Some (fc_result (fv_draft fv))) (fv_key_control fv) \<and>
      fv_scope_limitation fv = decision_ref_of
        (map_of (active_by_slot cr ctx ds) (dtype_value SCOPE_LIMITATION, stype_value FINDING, f_control_id f)) \<and>
      fv_control_id fv = f_control_id f"
    by (rule finding_view_facts [OF rec firsts_context_finding [OF f]]) (use fv in simp)
  show "fv_review fv = None \<longleftrightarrow> \<not> decided cr ctx ds [SIGN_OFF, CHALLENGE] (f_control_id f)"
    using * slot_decided [OF R slots(1)] by (simp add: active_review_def del: stype_value.simps)
  show "fv_review_required fv \<longleftrightarrow> f_result f = Some EXCEPTION \<or> key_control_of ctx (f_control_id f) = Some True"
    using * by (simp add: finding_needs_review_def gate_switches draft_conclusions_def exception_text)
  show "fv_scope_limitation fv = None \<longleftrightarrow> \<not> decided cr ctx ds [SCOPE_LIMITATION] (f_control_id f)"
    using * slot_decided [OF R slots(2)] by (simp del: dtype_value.simps stype_value.simps)
  show "fv_control_id fv = f_control_id f" using * by simp
qed

lemma gate_2_complete:
  assumes rec: "recorded_on cr cs ds" "drafts_distinct cr cs ctx" and v: "view_of cr ctx ds required = Inr v"
  shows "missing_gate_2 (ev_findings v) = [] \<longleftrightarrow>
     (\<forall>f\<in>set (firsts f_control_id [] (context_findings ctx)).
        f_result f = Some EXCEPTION \<or> key_control_of ctx (f_control_id f) = Some True \<longrightarrow>
        decided cr ctx ds [SIGN_OFF, CHALLENGE] (f_control_id f))"
    (is "_ \<longleftrightarrow> (\<forall>f\<in>set ?fs. ?need f \<longrightarrow> ?done f)")
  unfolding missing_gate_2_empty
proof (intro iffI ballI impI)
  fix f assume *: "\<forall>f\<in>set (ev_findings v). fv_review_required f \<longrightarrow> fv_review f \<noteq> None" "f \<in> set ?fs" "?need f"
  obtain fv where fv: "fv \<in> set (ev_findings v)" "finding_view_of ctx (active_by_slot cr ctx ds) f = Inr fv"
    using list_all2_set1 [OF view_findings(1) [OF v] *(2)] by blast
  show "?done f" using * fv(1) finding_view_slots(1,2) [OF rec *(2) fv(2)] by blast
next
  fix fv assume *: "\<forall>f\<in>set ?fs. ?need f \<longrightarrow> ?done f" "fv \<in> set (ev_findings v)" "fv_review_required fv"
  obtain f where f: "f \<in> set ?fs" "finding_view_of ctx (active_by_slot cr ctx ds) f = Inr fv"
    using list_all2_set2 [OF view_findings(1) [OF v] *(2)] by blast
  show "fv_review fv \<noteq> None" using * f(1) finding_view_slots(1,2) [OF rec f] by blast
qed

lemma gate_3_classified:
  assumes rec: "recorded_on cr cs ds" and v: "view_of cr ctx ds required = Inr v"
  shows "(\<forall>dv\<in>set (ev_deficiencies v). dv_decision dv \<noteq> None) \<longleftrightarrow>
     (\<forall>e\<in>set (context_evaluations ctx). decided cr ctx ds [CLASSIFY] (deficiency_id e))"
proof -
  have classify: "dv_decision dv = None \<longleftrightarrow> \<not> decided cr ctx ds [CLASSIFY] (deficiency_id e)"
    if "deficiency_view_of (active_by_slot cr ctx ds) e = Inr dv" for e dv
    using that slot_decided [OF recorded_on_recorded [OF rec] slots(3)]
    by (auto simp: deficiency_view_of_def Let_def bindE_Inr_iff deficiency_slot_def simp del: dtype_value.simps stype_value.simps)
  show ?thesis
  proof (intro iffI ballI)
    fix e assume *: "\<forall>dv\<in>set (ev_deficiencies v). dv_decision dv \<noteq> None" "e \<in> set (context_evaluations ctx)"
    obtain e' where e': "e' \<in> set (firsts deficiency_id [] (context_evaluations ctx))" "deficiency_id e' = deficiency_id e"
      using firsts_cover [OF *(2), of deficiency_id "[]"] by auto
    obtain dv where "dv \<in> set (ev_deficiencies v)" "deficiency_view_of (active_by_slot cr ctx ds) e' = Inr dv"
      using list_all2_set1 [OF view_findings(2) [OF v] e'(1)] by blast
    then show "decided cr ctx ds [CLASSIFY] (deficiency_id e)" using * classify e'(2) by force
  next
    fix dv assume *: "\<forall>e\<in>set (context_evaluations ctx). decided cr ctx ds [CLASSIFY] (deficiency_id e)"
      "dv \<in> set (ev_deficiencies v)"
    obtain e where "e \<in> set (firsts deficiency_id [] (context_evaluations ctx))"
      "deficiency_view_of (active_by_slot cr ctx ds) e = Inr dv"
      using list_all2_set2 [OF view_findings(2) [OF v] *(2)] by blast
    then show "dv_decision dv \<noteq> None" using *(1) classify firsts_subset by metis
  qed
qed

lemma gate_3_complete:
  assumes rec: "recorded_on cr cs ds" "drafts_distinct cr cs ctx" and v: "view_of cr ctx ds required = Inr v"
  shows "missing_gate_3 (ev_findings v) (ev_deficiencies v) (ev_conclusion v) = [] \<longleftrightarrow>
     (\<forall>e\<in>set (context_evaluations ctx). decided cr ctx ds [CLASSIFY] (deficiency_id e)) \<and>
     (\<forall>fv\<in>set (ev_findings v).
        fv_key_control fv = Some True \<and> fc_result (fv_effective fv) = ''Not tested'' \<longrightarrow>
        decided cr ctx ds [SCOPE_LIMITATION] (fv_control_id fv)) \<and>
     decided cr ctx ds [ENGAGEMENT_CONCLUSION] ENGAGEMENT_SUBJECT_ID"
proof -
  have scope: "fv_scope_limitation fv = None \<longleftrightarrow> \<not> decided cr ctx ds [SCOPE_LIMITATION] (fv_control_id fv)"
    if "fv \<in> set (ev_findings v)" for fv
    using list_all2_set2 [OF view_findings(1) [OF v] that] finding_view_slots(3,4) [OF rec] by metis
  have concl: "ev_conclusion v = None \<longleftrightarrow> \<not> decided cr ctx ds [ENGAGEMENT_CONCLUSION] ENGAGEMENT_SUBJECT_ID"
    unfolding view_findings(4) [OF v] decision_ref_None engagement_decision_def
    by (rule slot_decided [OF recorded_on_recorded [OF rec(1)] slots(4)])
  show ?thesis
    unfolding missing_gate_3_empty gate_3_classified [OF rec(1) v] using concl by (auto simp: scope)
qed


text \<open>
  A request that is recorded was made by a named identity, in a status
  where its type may be recorded, and, unless it is a management response or a write-up, not by
  anyone listed as the preparer; it is about the current draft and carries the type's fixed
  subject, phase and artifact; a challenge, a scope limitation, an engagement conclusion and a
  remediation check have a rationale.
\<close>

lemma decision_guards:
  assumes "build_decision cr env ds rq = Inr d"
  shows "decided_by d = strip (rq_decided_by rq) \<and> decided_by d \<noteq> [] \<and>
     (\<forall>p\<in>set (env_preparers env). d_decision_type d \<notin> {MANAGEMENT_RESPONSE, WRITEUP} \<longrightarrow>
        \<not> same_person (Some (decided_by d)) (Some p)) \<and>
     (d_phase d = P2 \<longrightarrow> env_status env = WAITING_HUMAN_GATE P2) \<and>
     (d_phase d = P3 \<longrightarrow> env_status env = WAITING_HUMAN_GATE P3 \<or>
        (env_status env = COMPLETED \<and> d_decision_type d \<in> {MANAGEMENT_RESPONSE, REMEDIATION_VERIFICATION})) \<and>
     d_phase d \<noteq> P1 \<and>
     context_digest cr (env_context env) (d_artifact d) = Some (draft_digest d) \<and>
     (d_decision_type d \<in> {CHALLENGE, SCOPE_LIMITATION, ENGAGEMENT_CONCLUSION, REMEDIATION_VERIFICATION} \<longrightarrow>
        rationale d \<noteq> [])"
proof -
  note facts = build_decision_facts [OF assms]
  have sod: "\<not> same_person (Some (decided_by d)) (Some p)"
    if "p \<in> set (env_preparers env)" "d_decision_type d \<notin> {MANAGEMENT_RESPONSE, WRITEUP}" for p
    using facts(5) that
    by (cases "d_decision_type d") (auto simp: decision_sod_violation_def PREPARER_EXCLUDED_DECISIONS_def split: if_splits)
  have why: "rationale d \<noteq> []"
    if "d_decision_type d \<in> {CHALLENGE, SCOPE_LIMITATION, ENGAGEMENT_CONCLUSION, REMEDIATION_VERIFICATION}"
    using facts(6) that by (auto simp: RATIONALE_ALWAYS_REQUIRED_def)
  have "(d_phase d = P2 \<longrightarrow> env_status env = WAITING_HUMAN_GATE P2) \<and>
     (d_phase d = P3 \<longrightarrow> env_status env = WAITING_HUMAN_GATE P3 \<or>
        (env_status env = COMPLETED \<and> d_decision_type d \<in> {MANAGEMENT_RESPONSE, REMEDIATION_VERIFICATION})) \<and>
     d_phase d \<noteq> P1"
    using facts(4) facts(1) unfolding status_violation_iff by (cases "d_decision_type d") auto
  then show ?thesis using facts(2,3) sod why by blast
qed

section \<open>Witnesses\<close>

text \<open>Working papers with an effective control and an exception, whose ToD a reviewer withdraws.\<close>

definition sample_finding :: finding where
  "sample_finding = \<lparr>f_control_id = ''C-1'', vault_id_reference = ''V'', exact_quote = ''Q'',
     tod_conclusion = TOD_EFFECTIVE, toe_conclusion = TOE_EFFECTIVE, toe_basis = None, items_tested = None,
     exceptions_noted = None, f_result = Some NO_EXCEPTION, preliminary_deficiency = Some False,
     test_conclusion = ''ok'', legacy_severity = None\<rparr>"

definition sample_exception :: finding where
  "sample_exception = sample_finding\<lparr>f_control_id := ''C-2'', toe_conclusion := TOE_INEFFECTIVE,
     f_result := Some EXCEPTION, preliminary_deficiency := Some True\<rparr>"

definition sample_papers :: working_papers where
  "sample_papers = \<lparr>wp_theme = ''T'', findings = [sample_finding, sample_exception]\<rparr>"

definition sample_context :: decision_context where
  "sample_context = \<lparr>x_racm = None, x_papers = Some sample_papers, x_report = None\<rparr>"

definition sample_env :: decision_env where
  "sample_env = \<lparr>env_context = sample_context, env_status = WAITING_HUMAN_GATE P2,
     env_preparers = [''Ann''], env_now = ''2026-01-02'', env_new_id = ''D1''\<rparr>"

definition sample_request :: decision_request where
  "sample_request = \<lparr>rq_type = ''challenge'', rq_subject_id = '' C-2'', rq_decided_by = ''Bob '',
     rq_values = [(''tod_conclusion'', ''Not tested'')], rq_rationale = ''design not walked through'',
     rq_subject_type = None, rq_supersedes = None, rq_identity_source = ''declared''\<rparr>"

definition sample_challenge :: review_decision where
  "sample_challenge = \<lparr>decision_id = ''D1'', d_phase = P2, d_artifact = ''working_papers'',
     draft_digest = artifact_digest toy_crypto (working_papers_json sample_papers),
     d_subject_type = FINDING, subject_id = ''C-2'', d_decision_type = CHALLENGE,
     d_values = [(''tod_conclusion'', ''Not tested'')], rationale = ''design not walked through'',
     decided_by = ''Bob'', d_identity_source = DECLARED, decided_at = ''2026-01-02'', supersedes = None\<rparr>"

lemma text_evals:
  "strip '' C-2'' = ''C-2''" "strip ''Bob '' = ''Bob''"
  "strip ''design not walked through'' = ''design not walked through''"
  by (simp_all add: strip_def lstrip_def is_space_def)

lemma sample_parse: "parse_values CHALLENGE [(''tod_conclusion'', ''Not tested'')] = Inr (ChallengeValues (Some TOD_NOT_TESTED) None)"
  using tod_label.lenient_val [of TOD_NOT_TESTED] by (simp add: enum_value_def only_keys_def)

lemma sample_same_person: "\<not> same_person (Some ''Bob'') (Some ''Ann'')"
  by (simp add: same_person_iff words_of_def is_space_def lower_char_def Let_def)

lemma sample_build: "build_decision toy_crypto sample_env [] sample_request = Inr sample_challenge"
proof -
  have "by_value dtype_value all_dtype ''challenge'' = Some CHALLENGE"
    "by_value source_value all_source ''declared'' = Some DECLARED"
    by (simp_all add: dtype_label.by_value_eq_iff source_label.by_value_eq_iff)
  moreover have "decision_status_violation ''challenge'' ''WAITING_HUMAN_GATE_2'' = None"
    by (simp add: decision_status_violation_def DECISION_RECORDABLE_STATUSES_def)
  moreover have "build_subject CHALLENGE sample_request = Inr ''C-2''"
    by (simp add: build_subject_def sample_request_def text_evals)
  moreover have "challenge_values sample_exception (Some TOD_NOT_TESTED) None = Inr [(''tod_conclusion'', ''Not tested'')]"
    by (simp add: challenge_values_def challenge_value_def sample_exception_def sample_finding_def
        conclusion_change_allowed_def CONCLUSION_DOWNGRADE_FROM_def CONCLUSION_DOWNGRADE_TARGET_def)
  moreover have "context_finding sample_context ''C-2'' = Some sample_exception"
    by (simp add: context_finding_def context_findings_def sample_context_def sample_papers_def
        sample_finding_def sample_exception_def)
  moreover have "active_by_slot toy_crypto sample_context [] = []" by (simp add: active_by_slot_def)
  moreover have "decision_sod_violation ''challenge'' ''Bob'' (Some ''Ann'') = None"
    by (simp add: decision_sod_violation_def sample_same_person)
  moreover have "context_digest toy_crypto sample_context ''working_papers'' =
      Some (artifact_digest toy_crypto (working_papers_json sample_papers))"
    by (simp add: context_digest_def sample_context_def)
  moreover have "rq_type sample_request = ''challenge''" "rq_decided_by sample_request = ''Bob ''"
      "rq_rationale sample_request = ''design not walked through''" "rq_identity_source sample_request = ''declared''"
      "rq_values sample_request = [(''tod_conclusion'', ''Not tested'')]" "rq_supersedes sample_request = None"
      "env_context sample_env = sample_context" "env_status sample_env = WAITING_HUMAN_GATE P2"
      "env_preparers sample_env = [''Ann'']" "env_now sample_env = ''2026-01-02''" "env_new_id sample_env = ''D1''"
    by (simp_all add: sample_request_def sample_env_def)
  ultimately show ?thesis
    by (simp add: build_decision_def Let_def text_evals sample_parse stored_values_def
        finding_values_def check_supersedes_def sample_challenge_def del: parse_values.simps)
qed

lemma sample_recorded: "recorded_on toy_crypto [sample_context] [sample_challenge]"
  using on_snoc [OF on_Nil sample_build] by (simp add: sample_env_def)

lemma sample_drafts: "drafts_distinct toy_crypto [sample_context] sample_context"
proof -
  have "artifact_digest toy_crypto a = artifact_digest toy_crypto b \<longleftrightarrow> canonical a = canonical b" for a b
    by (simp add: artifact_digest_def sha256_hex_def toy_crypto_def)
  then show ?thesis by (simp add: drafts_distinct_def made_on_def)
qed

lemma sample_active: "is_active toy_crypto sample_context [sample_challenge] sample_challenge"
  by (simp add: is_active_def sample_challenge_def superseded_ids_def context_digest_def sample_context_def)

theorem at_most_one_active_decision_witness:
  "map_of (decision_states toy_crypto sample_context [sample_challenge]) ''D1'' = Some State_active \<and>
   sample_challenge = sample_challenge"
proof -
  have rec: "recorded toy_crypto [sample_challenge]" using sample_recorded recorded_on_recorded by blast
  have st: "map_of (decision_states toy_crypto sample_context [sample_challenge]) (decision_id sample_challenge) = Some State_active"
    using decision_states_of [OF recorded_ids [OF rec], of sample_challenge] sample_active
    by (simp add: state_active_iff [symmetric])
  have "sample_challenge = sample_challenge"
    by (rule at_most_one_active_decision [OF rec _ _ refl st st]) simp_all
  with st show ?thesis by (simp add: sample_challenge_def)
qed

theorem reviewer_cannot_remove_exception_witness:
  "\<exists>v. view_of toy_crypto sample_context [sample_challenge] True = Inr v \<and>
     (\<forall>fv\<in>set (ev_findings v). fc_result (fv_effective fv) = ''Exception'' \<longleftrightarrow> fc_result (fv_draft fv) = ''Exception'')"
proof -
  have "\<forall>f\<in>set (context_findings sample_context). finding_ok f"
    by (simp add: context_findings_def sample_context_def sample_papers_def sample_finding_def sample_exception_def
        finding_ok_def derive_result_def or_zero_def strip_def lstrip_def is_space_def ex_bool_eq)
  from reviewer_cannot_remove_exception [OF sample_recorded sample_drafts this]
  show ?thesis by blast
qed


theorem decision_guards_witness:
  "decided_by sample_challenge = ''Bob'' \<and> \<not> same_person (Some (decided_by sample_challenge)) (Some ''Ann'') \<and>
   rationale sample_challenge \<noteq> []"
proof -
  have "d_decision_type sample_challenge = CHALLENGE" "decided_by sample_challenge = ''Bob''"
    by (simp_all add: sample_challenge_def)
  then show ?thesis using decision_guards [OF sample_build] by (auto simp: sample_env_def)
qed

end
