(* ===== verification/Evidence.thy ===== *)
theory Evidence
  imports Digest Schema
begin

text \<open>
  The evidence vault: \<open>src/swarm/evidence.py\<close>. A vault maps the id of a record to the content of
  its file (\<open>File\<close> holds what \<open>json.load\<close> returns, \<open>Broken\<close> a file that cannot be read or
  parsed). Encryption (the package \<open>cryptography\<close>) is the parameter \<open>fernet\<close>, the environment
  variable \<open>VAULT_ENCRYPTION_KEY\<close> the argument \<open>env\<close>. Account ids are redacted by the scanner
  \<open>redact\<close>, which reads the regular expression \<open>_ACCOUNT_ID_RE\<close> on ASCII digits. Symbolic links
  inside the vault directory and the writing of files are not modelled: a write is atomic.
\<close>

section \<open>Redaction of account ids\<close>

text \<open>\<open>\d{n}\<close> at the start of a text: what follows it.\<close>

fun take_digits :: "nat \<Rightarrow> string \<Rightarrow> string option" where
  "take_digits 0 s = Some s"
| "take_digits (Suc n) [] = None"
| "take_digits (Suc n) (c # s) = (if is_digit c then take_digits n s else None)"

definition digit_next :: "string \<Rightarrow> bool" where
  "digit_next s = (case s of [] \<Rightarrow> False | c # _ \<Rightarrow> is_digit c)"

text \<open>\<open>-\d{4}\<close>\<close>

definition dash_digits :: "string \<Rightarrow> string option" where
  "dash_digits s = (case s of [] \<Rightarrow> None | c # r \<Rightarrow> if c = CHR ''-'' then take_digits 4 r else None)"

definition no_digit_next :: "string \<Rightarrow> string option" where
  "no_digit_next s = (if digit_next s then None else Some s)"

definition bare_id :: "string \<Rightarrow> string option" where
  "bare_id s = Option.bind (take_digits 12 s) no_digit_next"

definition hyphenated_id :: "string \<Rightarrow> string option" where
  "hyphenated_id s = Option.bind (Option.bind (Option.bind (take_digits 4 s) dash_digits) dash_digits) no_digit_next"

text \<open>
  \<open>_ACCOUNT_ID_RE\<close> at a position whose previous character is a digit or not (\<open>after_digit\<close>):
  what follows the match.
\<close>

definition account_id :: "bool \<Rightarrow> string \<Rightarrow> string option" where
  "account_id after_digit s =
     (if after_digit then None
      else case bare_id s of Some r \<Rightarrow> Some r | None \<Rightarrow> hyphenated_id s)"

lemma take_digits_length: "take_digits n s = Some r \<Longrightarrow> length r = length s - n \<and> n \<le> length s"
  by (induction n s rule: take_digits.induct) (auto split: if_splits)

lemma dash_digits_length: "dash_digits s = Some r \<Longrightarrow> length r < length s"
  by (auto simp: dash_digits_def split: list.splits if_splits dest!: take_digits_length)

lemma account_id_length: "account_id p s = Some r \<Longrightarrow> length r < length s"
  by (auto simp: account_id_def bare_id_def hyphenated_id_def no_digit_next_def bind_eq_Some_conv
      split: if_splits option.splits dest!: take_digits_length dash_digits_length)

text \<open>\<open>_ACCOUNT_ID_RE.sub("[REDACTED]", text)\<close>, from left to right.\<close>

function redact_from :: "bool \<Rightarrow> string \<Rightarrow> string" where
  "redact_from p [] = []"
| "redact_from p (c # s) =
     (case account_id p (c # s) of
        Some r \<Rightarrow> ''[REDACTED]'' @ redact_from True r
      | None \<Rightarrow> c # redact_from (is_digit c) s)"
  by pat_completeness auto
termination
  by (relation "measure (length \<circ> snd)") (auto dest: account_id_length)

definition redact_account_ids :: "string \<Rightarrow> string" where
  "redact_account_ids s = redact_from False s"

text \<open>No position of the text starts an account id.\<close>

fun id_free_from :: "bool \<Rightarrow> string \<Rightarrow> bool" where
  "id_free_from p [] = True"
| "id_free_from p (c # s) = (account_id p (c # s) = None \<and> id_free_from (is_digit c) s)"

definition id_free :: "string \<Rightarrow> bool" where
  "id_free s = id_free_from False s"

lemma id_free_redact: "id_free_from p s \<Longrightarrow> redact_from p s = s"
  by (induction p s rule: id_free_from.induct) simp_all

lemma account_id_True [simp]: "account_id True s = None"
  by (simp add: account_id_def)

text \<open>Behind a digit the redacted text starts as the text did.\<close>

lemma redact_True_Cons [simp]: "redact_from True (c # s) = c # redact_from (is_digit c) s"
  by simp

lemma take_digits_redact_True:
  "take_digits n (redact_from True s) = Some r' \<Longrightarrow>
     \<exists>r. take_digits n s = Some r \<and> r' = redact_from True r"
proof (induction n arbitrary: s)
  case (Suc n)
  then show ?case
  proof (cases s)
    case (Cons c s')
    with Suc.prems have c: "is_digit c" and "take_digits n (redact_from True s') = Some r'"
      by (auto split: if_splits)
    with Suc.IH [of s'] Cons show ?thesis by auto
  qed simp
qed simp

lemma take_digits_redact:
  assumes "take_digits (Suc n) (redact_from p s) = Some r'"
  shows "\<exists>r. take_digits (Suc n) s = Some r \<and> r' = redact_from True r"
proof (cases s)
  case (Cons c s')
  have "account_id p s = None"
    using assms Cons by (auto simp: is_digit_def split: option.splits)
  with assms Cons have c: "is_digit c" and "take_digits n (redact_from True s') = Some r'"
    by (auto split: if_splits)
  with take_digits_redact_True [of n s' r'] Cons show ?thesis by auto
qed (use assms in simp)

lemma digit_next_redact: "digit_next (redact_from True r) = digit_next r"
  by (cases r) (simp_all add: digit_next_def)

lemma dash_digits_redact:
  assumes "dash_digits (redact_from True s) = Some r'"
  shows "\<exists>r. dash_digits s = Some r \<and> r' = redact_from True r"
proof (cases s)
  case (Cons c s')
  with assms have c: "c = CHR ''-''" "take_digits (Suc 3) (redact_from (is_digit c) s') = Some r'"
    by (auto simp: dash_digits_def eval_nat_numeral split: if_splits)
  from take_digits_redact [OF c(2)] Cons c(1) show ?thesis
    by (auto simp: dash_digits_def eval_nat_numeral)
qed (use assms in \<open>simp add: dash_digits_def\<close>)

lemma account_id_redact:
  assumes "account_id p (redact_from p s) = Some r'"
  shows "account_id p s \<noteq> None"
proof -
  from assms have p: "\<not> p" by (auto simp: account_id_def)
  from assms p consider "bare_id (redact_from p s) = Some r'" | "hyphenated_id (redact_from p s) = Some r'"
    by (auto simp: account_id_def split: option.splits)
  then show ?thesis
  proof cases
    case 1
    then obtain m where m: "take_digits (Suc 11) (redact_from p s) = Some m" "no_digit_next m = Some r'"
      by (auto simp: bare_id_def bind_eq_Some_conv eval_nat_numeral)
    from take_digits_redact [OF m(1)] m(2) have "bare_id s \<noteq> None"
      by (auto simp: bare_id_def no_digit_next_def digit_next_redact eval_nat_numeral split: if_splits)
    with p show ?thesis by (auto simp: account_id_def)
  next
    case 2
    then obtain a b c where m: "take_digits (Suc 3) (redact_from p s) = Some a" "dash_digits a = Some b"
      "dash_digits b = Some c" "no_digit_next c = Some r'"
      by (auto simp: hyphenated_id_def bind_eq_Some_conv eval_nat_numeral)
    from take_digits_redact [OF m(1)] obtain a' where a: "take_digits 4 s = Some a'" "a = redact_from True a'"
      by (auto simp: eval_nat_numeral)
    from dash_digits_redact [of a' b] m(2) a(2) obtain b' where b: "dash_digits a' = Some b'" "b = redact_from True b'"
      by auto
    from dash_digits_redact [of b' c] m(3) b(2) obtain c' where c: "dash_digits b' = Some c'" "c = redact_from True c'"
      by auto
    have "hyphenated_id s \<noteq> None"
      using a b c m(4) by (auto simp: hyphenated_id_def no_digit_next_def digit_next_redact split: if_splits)
    with p show ?thesis by (auto simp: account_id_def split: option.splits)
  qed
qed

text \<open>A match ends where no digit follows, so the rest can be read without its context.\<close>

lemma account_id_rest: "account_id p s = Some r \<Longrightarrow> \<not> digit_next r"
  by (auto simp: account_id_def bare_id_def hyphenated_id_def no_digit_next_def bind_eq_Some_conv
      split: if_splits option.splits)

lemma account_id_digit: "\<not> is_digit c \<Longrightarrow> account_id p (c # s) = None"
  by (simp add: account_id_def bare_id_def hyphenated_id_def eval_nat_numeral)

lemma id_free_digit: "\<not> digit_next s \<Longrightarrow> id_free_from p s = id_free_from q s"
  by (cases s) (simp_all add: digit_next_def account_id_digit)

lemma id_free_redacted: "\<not> digit_next s \<Longrightarrow> id_free_from p (''[REDACTED]'' @ s) = id_free_from False s"
  by (simp add: account_id_digit is_digit_def)

lemma redact_id_free: "id_free_from p (redact_from p s)"
proof (induction p s rule: redact_from.induct)
  case (2 p c s)
  show ?case
  proof (cases "account_id p (c # s)")
    case None
    then have "account_id p (redact_from p (c # s)) = None"
      using account_id_redact [of p "c # s"] by (cases "account_id p (redact_from p (c # s))") auto
    with None "2.IH" show ?thesis by simp
  next
    case (Some r)
    then have "\<not> digit_next (redact_from True r)"
      using account_id_rest digit_next_redact by metis
    with Some "2.IH" show ?thesis
      using id_free_redacted [of "redact_from True r" p] id_free_digit [of "redact_from True r" False True] by simp
  qed
qed simp

lemma redact_idem: "redact_account_ids (redact_account_ids s) = redact_account_ids s"
  by (simp add: redact_account_ids_def id_free_redact redact_id_free)

text \<open>\<open>_sanitize_metadata\<close>\<close>

primrec sanitize_metadata :: "json \<Rightarrow> json" where
  "sanitize_metadata JNull = JNull"
| "sanitize_metadata (JBool b) = JBool b"
| "sanitize_metadata (JInt n) = JInt n"
| "sanitize_metadata (JStr s) = JStr (redact_account_ids s)"
| "sanitize_metadata (JList xs) = JList (map sanitize_metadata xs)"
| "sanitize_metadata (JObj ps) = JObj (map (map_prod id sanitize_metadata) ps)"

text \<open>The strings of a JSON value, its keys apart.\<close>

primrec json_strings :: "json \<Rightarrow> string list" where
  "json_strings JNull = []"
| "json_strings (JBool b) = []"
| "json_strings (JInt n) = []"
| "json_strings (JStr s) = [s]"
| "json_strings (JList xs) = concat (map json_strings xs)"
| "json_strings (JObj ps) = concat (map snd (map (map_prod id json_strings) ps))"

lemma sanitize_id_free: "\<forall>s\<in>set (json_strings (sanitize_metadata j)). id_free s"
proof (induction j)
  case (JObj ps)
  then show ?case by (fastforce simp: comp_def)
qed (auto simp: id_free_def redact_account_ids_def redact_id_free)

section \<open>JSON values as Python sees them\<close>

definition truthy :: "json option \<Rightarrow> bool" where
  "truthy v = (case v of None \<Rightarrow> False | Some JNull \<Rightarrow> False | Some (JBool b) \<Rightarrow> b | Some (JInt n) \<Rightarrow> n \<noteq> 0
     | Some (JStr s) \<Rightarrow> s \<noteq> [] | Some (JList xs) \<Rightarrow> xs \<noteq> [] | Some (JObj ps) \<Rightarrow> ps \<noteq> [])"

text \<open>\<open>repr\<close> of a string, and \<open>str\<close> of a value; characters above 127 are printable.\<close>

definition repr_char :: "char \<Rightarrow> char \<Rightarrow> string" where
  "repr_char q c = (let n = of_char c :: nat in
     if c = q \<or> n = 92 then [CHR 0x5C, c]
     else if n = 9 then [CHR 0x5C, CHR ''t'']
     else if n = 10 then [CHR 0x5C, CHR ''n'']
     else if n = 13 then [CHR 0x5C, CHR ''r'']
     else if n < 32 \<or> n = 127 then CHR 0x5C # CHR ''x'' # [hex_char (n div 16), hex_char (n mod 16)]
     else [c])"

definition repr_str :: "string \<Rightarrow> string" where
  "repr_str s = (let q = (if CHR 0x27 \<in> set s \<and> CHR 0x22 \<notin> set s then CHR 0x22 else CHR 0x27)
     in q # concat (map (repr_char q) s) @ [q])"

primrec py_repr :: "json \<Rightarrow> string" where
  "py_repr JNull = ''None''"
| "py_repr (JBool b) = (if b then ''True'' else ''False'')"
| "py_repr (JInt n) = int_str n"
| "py_repr (JStr s) = repr_str s"
| "py_repr (JList xs) = ''['' @ join_with '', '' (map py_repr xs) @ '']''"
| "py_repr (JObj ps) =
     ''{'' @ join_with '', '' (map (\<lambda>(k, t). repr_str k @ '': '' @ t) (map (map_prod id py_repr) ps)) @ ''}''"

definition py_str :: "json \<Rightarrow> string" where
  "py_str j = (case j of JStr s \<Rightarrow> s | _ \<Rightarrow> py_repr j)"

lemma py_str_JStr [simp]: "py_str (JStr s) = s"
  by (simp add: py_str_def)

text \<open>\<open>len(s)\<close>: the characters, not the bytes, of a UTF-8 text.\<close>

definition py_len :: "string \<Rightarrow> nat" where
  "py_len s = length (filter (\<lambda>c. let n = of_char c :: nat in n < 128 \<or> 192 \<le> n) s)"

section \<open>Keys and encryption\<close>

record fernet =
  encrypt :: "string \<Rightarrow> string \<Rightarrow> string \<Rightarrow> string"
  decrypt :: "string \<Rightarrow> string \<Rightarrow> string option"

text \<open>
  What is documented of \<open>Fernet\<close>: a token is ASCII text, and decrypting it with the key it was
  made with gives the payload back. The second argument of \<open>encrypt\<close> is its random IV and time;
  \<open>decrypt\<close> is None for \<open>InvalidToken\<close>.
\<close>

definition fernet_ok :: "fernet \<Rightarrow> bool" where
  "fernet_ok fr \<longleftrightarrow> (\<forall>k n x. ascii (encrypt fr k n x) \<and> decrypt fr k (encrypt fr k n x) = Some x)"

text \<open>\<open>_get_fernet\<close>: the key, None when the variable is unset, or a \<open>ValueError\<close>.\<close>

definition get_fernet :: "crypto \<Rightarrow> string option \<Rightarrow> raised + string option" where
  "get_fernet cr env =
     (case env of None \<Rightarrow> Inr None
      | Some k \<Rightarrow> if k = [] then Inr None
          else bindE (of_option ValueError (urlsafe_b64decode cr k)) (\<lambda>raw.
            if length raw = 32 then Inr (Some k) else Inl ValueError))"

text \<open>\<open>_keyed_digest\<close> on a payload that may not be a string.\<close>

definition encode :: "json \<Rightarrow> raised + string" where
  "encode j = (case j of JStr s \<Rightarrow> Inr s | _ \<Rightarrow> Inl AttributeError)"

definition keyed_digest_of :: "crypto \<Rightarrow> json \<Rightarrow> string \<Rightarrow> raised + string" where
  "keyed_digest_of cr payload key_b64 =
     (case derive_hmac_key cr key_b64 HMAC_KEY_LABEL of
        Inl _ \<Rightarrow> Inl ValueError
      | Inr k \<Rightarrow> bindE (encode payload) (\<lambda>p. Inr (hexdigest (hmac_sha256 cr k p))))"

definition plain_digest_of :: "crypto \<Rightarrow> json \<Rightarrow> raised + string" where
  "plain_digest_of cr payload = bindE (encode payload) (\<lambda>p. Inr (sha256_hex cr p))"

text \<open>\<open>_digest_input\<close>: \<open>payload + "\x00" + canonical_metadata\<close> when there is metadata.\<close>

definition digest_input :: "json \<Rightarrow> json option \<Rightarrow> raised + json" where
  "digest_input payload metadata =
     (if \<not> truthy metadata then Inr payload
      else case payload of
        JStr p \<Rightarrow> Inr (JStr (p @ char_of (0 :: nat) # canonical (the metadata)))
      | _ \<Rightarrow> Inl TypeError)"

section \<open>The vault\<close>

datatype vault_file = Broken_file | File json

type_synonym vault = "(string \<times> vault_file) list"

definition MIN_QUOTE_LENGTH :: nat where
  "MIN_QUOTE_LENGTH = 15"

text \<open>\<open>_UUID_RE.fullmatch\<close>\<close>

definition is_hex :: "char \<Rightarrow> bool" where
  "is_hex c = (let n = of_char c :: nat in (48 \<le> n \<and> n \<le> 57) \<or> (65 \<le> n \<and> n \<le> 70) \<or> (97 \<le> n \<and> n \<le> 102))"

definition is_uuid :: "string \<Rightarrow> bool" where
  "is_uuid s \<longleftrightarrow> length s = 36 \<and>
     (\<forall>i<36. if i \<in> {8, 13, 18, 23} then s ! i = CHR ''-'' else is_hex (s ! i))"

text \<open>\<open>record_session_id\<close>\<close>

definition record_session_id :: "(string \<times> json) list \<Rightarrow> string option" where
  "record_session_id r =
     (case map_of r ''metadata'' of
        Some (JObj m) \<Rightarrow>
          (let sid = map_of m ''session_id'';
               sid2 = (if truthy sid then sid else
                 case map_of m ''parameters'' of Some (JObj ps) \<Rightarrow> map_of ps ''session_id'' | _ \<Rightarrow> None)
           in if truthy sid2 then Some (py_str (the sid2)) else None)
      | _ \<Rightarrow> None)"

subsection \<open>Registering evidence\<close>

record registered =
  vault_id :: string
  digest_field :: string
  digest_value :: string

definition register_evidence ::
  "crypto \<Rightarrow> fernet \<Rightarrow> string option \<Rightarrow> vault \<Rightarrow> string \<Rightarrow> string \<Rightarrow> json option \<Rightarrow> string option \<Rightarrow>
   string \<Rightarrow> string \<Rightarrow> string \<Rightarrow> raised + vault \<times> registered" where
  "register_evidence cr fr env v raw_payload source metadata session new_id now nonce =
     (let payload = redact_account_ids raw_payload;
          clean = (if truthy metadata then Some (sanitize_metadata (the metadata)) else None);
          clean2 = (case session of None \<Rightarrow> clean
            | Some sid \<Rightarrow> if sid = [] then clean
                else Some (JObj (dict_set ''session_id'' (JStr sid)
                  (case clean of Some (JObj m) \<Rightarrow> m | _ \<Rightarrow> [])))) in
      bindE (digest_input (JStr payload) clean2) (\<lambda>text.
      bindE (get_fernet cr env) (\<lambda>key.
      bindE (case key of
          Some k \<Rightarrow> bindE (keyed_digest_of cr text k) (\<lambda>d. Inr (''hmac_sha256'', d, encrypt fr k nonce payload))
        | None \<Rightarrow> bindE (plain_digest_of cr text) (\<lambda>d. Inr (''sha256'', d, payload)))
        (\<lambda>(field, d, stored).
          let base = [(''vault_id'', JStr new_id), (field, JStr d), (''mcp_source'', JStr source),
                (''timestamp'', JStr now), (''raw_payload'', JStr stored), (''encrypted'', JBool (key \<noteq> None))];
              record_items = (case clean2 of None \<Rightarrow> base | Some m \<Rightarrow> base @ [(''metadata'', m)]) in
          Inr (dict_set new_id (File (JObj record_items)) v,
            \<lparr>vault_id = new_id, digest_field = field, digest_value = d\<rparr>)))))"

subsection \<open>Checking a quote\<close>

definition items_of :: "json \<Rightarrow> raised + (string \<times> json) list" where
  "items_of j = (case j of JObj r \<Rightarrow> Inr r | _ \<Rightarrow> Inl TypeError)"

text \<open>\<open>payload = fernet.decrypt(raw.encode("ascii")).decode("utf-8")\<close>\<close>

definition decrypt_payload :: "fernet \<Rightarrow> string \<Rightarrow> json \<Rightarrow> raised + json" where
  "decrypt_payload fr key raw =
     bindE (encode raw) (\<lambda>t. if ascii t then map_sum id JStr (of_option ValueError (decrypt fr key t)) else Inl ValueError)"

text \<open>
  The payload of a record: decrypted when the record says it is encrypted, None when there is
  no key to do that with.
\<close>

definition payload_of :: "crypto \<Rightarrow> fernet \<Rightarrow> string option \<Rightarrow> (string \<times> json) list \<Rightarrow> raised + json option" where
  "payload_of cr fr env r =
     bindE (of_option KeyError (map_of r ''raw_payload'')) (\<lambda>raw.
       if truthy (map_of r ''encrypted'') then
         bindE (get_fernet cr env) (\<lambda>key. case key of
             None \<Rightarrow> Inr None
           | Some k \<Rightarrow> bindE (decrypt_payload fr k raw) (\<lambda>p. Inr (Some p)))
       else Inr (Some raw))"

text \<open>The digest the record should carry and the one it does, None when there is no key.\<close>

definition digest_pair ::
  "crypto \<Rightarrow> string option \<Rightarrow> (string \<times> json) list \<Rightarrow> json \<Rightarrow> raised + (string \<times> string) option" where
  "digest_pair cr env r text =
     (case map_of r ''hmac_sha256'' of
        Some stored \<Rightarrow>
          (case env of None \<Rightarrow> Inr None
           | Some k \<Rightarrow> if k = [] then Inr None
               else bindE (keyed_digest_of cr text k) (\<lambda>d. Inr (Some (d, py_str stored))))
      | None \<Rightarrow>
          bindE (plain_digest_of cr text) (\<lambda>d.
          bindE (of_option KeyError (map_of r ''sha256'')) (\<lambda>stored. Inr (Some (d, py_str stored)))))"

definition session_matches :: "string option \<Rightarrow> (string \<times> json) list \<Rightarrow> bool" where
  "session_matches session r =
     (case session of None \<Rightarrow> True
      | Some sid \<Rightarrow> sid = [] \<or>
          (case record_session_id r of None \<Rightarrow> True
           | Some bound \<Rightarrow> bound = [] \<or> bound \<in> {sid, redact_account_ids sid}))"

text \<open>The body of the \<open>try\<close> block.\<close>

definition check_record ::
  "crypto \<Rightarrow> fernet \<Rightarrow> string option \<Rightarrow> (string \<times> json) list \<Rightarrow> string \<Rightarrow> string option \<Rightarrow> raised + bool" where
  "check_record cr fr env r quote session =
     bindE (payload_of cr fr env r) (\<lambda>found. case found of None \<Rightarrow> Inr False | Some payload \<Rightarrow>
     bindE (digest_input payload (map_of r ''metadata'')) (\<lambda>text.
     bindE (digest_pair cr env r text) (\<lambda>pair. case pair of None \<Rightarrow> Inr False | Some (expected, stored) \<Rightarrow>
     bindE (compare_digest expected stored) (\<lambda>same.
       if \<not> same then Inr False
       else if \<not> session_matches session r then Inr False
       else bindE (encode payload) (\<lambda>p. Inr (sublist quote p))))))"

text \<open>The exceptions the \<open>except\<close> clause catches.\<close>

definition caught :: "raised \<Rightarrow> bool" where
  "caught e \<longleftrightarrow> e \<in> {KeyError, ValueError, RuntimeError}"

definition verify_exact_quote ::
  "crypto \<Rightarrow> fernet \<Rightarrow> string option \<Rightarrow> vault \<Rightarrow> string \<Rightarrow> string \<Rightarrow> string option \<Rightarrow> raised + bool" where
  "verify_exact_quote cr fr env v vid quote session =
     (if \<not> is_uuid vid then Inr False
      else if strip quote = [] then Inr False
      else if py_len quote < MIN_QUOTE_LENGTH then Inr False
      else case map_of v vid of
        None \<Rightarrow> Inr False
      | Some Broken_file \<Rightarrow> Inr False
      | Some (File j) \<Rightarrow>
          (case bindE (items_of j) (\<lambda>r. check_record cr fr env r quote session) of
             Inl e \<Rightarrow> if caught e then Inr False else Inl e
           | Inr b \<Rightarrow> Inr b))"

section \<open>Findings whose evidence does not verify\<close>

text \<open>\<open>_normalised_label\<close> of an enum member or of nothing\<close>

definition normalised_label :: "string option \<Rightarrow> string" where
  "normalised_label v = (case v of None \<Rightarrow> []
     | Some raw \<Rightarrow> lower (join_with '' '' (py_split (map (\<lambda>c. if c = CHR ''_'' \<or> c = CHR ''-'' then CHR '' '' else c) raw))))"

definition finding_marked_not_tested :: "finding \<Rightarrow> bool" where
  "finding_marked_not_tested f \<longleftrightarrow>
     normalised_label (map_option result_value (f_result f)) = ''not tested'' \<or>
     normalised_label (Some (toe_value (toe_conclusion f))) = ''not tested''"

fun unverified_from ::
  "nat \<Rightarrow> (string \<Rightarrow> string \<Rightarrow> raised + bool) \<Rightarrow> finding list \<Rightarrow> raised + string list" where
  "unverified_from i check [] = Inr []"
| "unverified_from i check (f # fs) =
     (let control = (if f_control_id f \<noteq> [] then f_control_id f else ''finding #'' @ nat_str (i + 1)) in
      bindE (if strip (exact_quote f) = [] then Inr (finding_marked_not_tested f)
             else check (vault_id_reference f) (exact_quote f)) (\<lambda>accepted.
      bindE (unverified_from (i + 1) check fs) (\<lambda>rest.
        Inr (if accepted then rest else control # rest))))"

definition unverified_findings ::
  "crypto \<Rightarrow> fernet \<Rightarrow> string option \<Rightarrow> vault \<Rightarrow> finding list \<Rightarrow> string option \<Rightarrow> raised + string list" where
  "unverified_findings cr fr env v fs session =
     unverified_from 0 (\<lambda>vid q. verify_exact_quote cr fr env v vid q session) fs"

section \<open>Migrating old digests\<close>

datatype migration = Migrated json | Already_keyed | Unencrypted | Failed

record migration_counts =
  migrated :: nat
  already_keyed :: nat
  unencrypted :: nat
  failed :: nat

text \<open>The body of the loop for one readable file.\<close>

definition migrate_record ::
  "crypto \<Rightarrow> fernet \<Rightarrow> string \<Rightarrow> json \<Rightarrow> raised + migration" where
  "migrate_record cr fr key j =
     (case j of
        JObj r \<Rightarrow>
          if \<not> truthy (map_of r ''encrypted'') then Inr Unencrypted
          else if map_of r ''hmac_sha256'' \<noteq> None then Inr Already_keyed
          else
            bindE (of_option KeyError (map_of r ''raw_payload'')) (\<lambda>raw.
            bindE (decrypt_payload fr key raw) (\<lambda>payload.
            bindE (digest_input payload (map_of r ''metadata'')) (\<lambda>text.
            bindE (plain_digest_of cr text) (\<lambda>plain.
            bindE (of_option KeyError (map_of r ''sha256'')) (\<lambda>stored.
            bindE (compare_digest plain (py_str stored)) (\<lambda>same.
              if \<not> same then Inr Failed
              else bindE (keyed_digest_of cr text key) (\<lambda>d.
                Inr (Migrated (JObj (dict_set ''hmac_sha256'' (JStr d) (filter (\<lambda>(k, _). k \<noteq> ''sha256'') r)))))))))))
      | _ \<Rightarrow> Inl AttributeError)"

definition migrate_file :: "crypto \<Rightarrow> fernet \<Rightarrow> string \<Rightarrow> vault_file \<Rightarrow> raised + migration" where
  "migrate_file cr fr key f =
     (case f of
        Broken_file \<Rightarrow> Inr Failed
      | File j \<Rightarrow>
          (case migrate_record cr fr key j of
             Inl e \<Rightarrow> if caught e then Inr Failed else Inl e
           | Inr m \<Rightarrow> Inr m))"

definition count_migration :: "migration \<Rightarrow> migration_counts \<Rightarrow> migration_counts" where
  "count_migration m c =
     (case m of Migrated _ \<Rightarrow> c\<lparr>migrated := migrated c + 1\<rparr>
      | Already_keyed \<Rightarrow> c\<lparr>already_keyed := already_keyed c + 1\<rparr>
      | Unencrypted \<Rightarrow> c\<lparr>unencrypted := unencrypted c + 1\<rparr>
      | Failed \<Rightarrow> c\<lparr>failed := failed c + 1\<rparr>)"

fun migrate_loop ::
  "crypto \<Rightarrow> fernet \<Rightarrow> string \<Rightarrow> string list \<Rightarrow> vault \<Rightarrow> migration_counts \<Rightarrow> vault \<times> (raised + migration_counts)" where
  "migrate_loop cr fr key [] v c = (v, Inr c)"
| "migrate_loop cr fr key (name # names) v c =
     (case map_of v name of
        None \<Rightarrow> migrate_loop cr fr key names v c
      | Some f \<Rightarrow>
          (case migrate_file cr fr key f of
             Inl e \<Rightarrow> (v, Inl e)
           | Inr m \<Rightarrow> migrate_loop cr fr key names
               (case m of Migrated j \<Rightarrow> dict_set name (File j) v | _ \<Rightarrow> v) (count_migration m c)))"

text \<open>
  \<open>migrate_legacy_digests\<close>: the vault afterwards and the counts or the exception. The loop may
  stop at an exception it does not catch; the vault is what it then left.
\<close>

definition migrate_legacy_digests ::
  "crypto \<Rightarrow> fernet \<Rightarrow> string option \<Rightarrow> vault \<Rightarrow> vault \<times> (raised + migration_counts)" where
  "migrate_legacy_digests cr fr env v =
     (case get_fernet cr env of
        Inl e \<Rightarrow> (v, Inl e)
      | Inr None \<Rightarrow> (v, Inl RuntimeError)
      | Inr (Some k) \<Rightarrow> migrate_loop cr fr k (sort (filter is_uuid (map fst v))) v
           \<lparr>migrated = 0, already_keyed = 0, unencrypted = 0, failed = 0\<rparr>)"

section \<open>What a registered record holds\<close>

text \<open>The text the digest of a record covers, and the fields the checks read.\<close>

definition sealed_text :: "string \<Rightarrow> json option \<Rightarrow> string" where
  "sealed_text p metadata = (if truthy metadata then p @ char_of (0 :: nat) # canonical (the metadata) else p)"

lemma digest_input_JStr [simp]: "digest_input (JStr p) m = Inr (JStr (sealed_text p m))"
  by (simp add: digest_input_def sealed_text_def)

lemma digest_input_Inr: "digest_input j m = Inr (JStr t) \<Longrightarrow> \<exists>p. j = JStr p \<and> t = sealed_text p m"
  by (cases j) (auto simp: digest_input_def sealed_text_def split: if_splits)

lemma encode_simps [simp, result_simps]: "encode (JStr p) = Inr p" "encode j = Inr x \<longleftrightarrow> j = JStr x"
  by (cases j; auto simp: encode_def)+

definition bound_metadata :: "json option \<Rightarrow> string option \<Rightarrow> json option" where
  "bound_metadata metadata session =
     (let clean = (if truthy metadata then Some (sanitize_metadata (the metadata)) else None) in
      case session of None \<Rightarrow> clean
      | Some sid \<Rightarrow> if sid = [] then clean
          else Some (JObj (dict_set ''session_id'' (JStr sid) (case clean of Some (JObj m) \<Rightarrow> m | _ \<Rightarrow> []))))"

text \<open>The digest of a text under the key of the vault, if it has one.\<close>

definition vault_digest :: "crypto \<Rightarrow> string option \<Rightarrow> string \<Rightarrow> string" where
  "vault_digest cr key t =
     (case key of None \<Rightarrow> sha256_hex cr t
      | Some k \<Rightarrow> hexdigest (hmac_sha256 cr (hmac_sha256 cr (the (urlsafe_b64decode cr k)) HMAC_KEY_LABEL) t))"

lemma vault_digest_ascii [simp]: "ascii (vault_digest cr key t)"
  by (cases key) (simp_all add: vault_digest_def)

definition digest_name :: "string option \<Rightarrow> string" where
  "digest_name key = (if key = None then ''sha256'' else ''hmac_sha256'')"

lemma get_fernet_Some: "get_fernet cr env = Inr (Some k) \<Longrightarrow> env = Some k \<and> k \<noteq> [] \<and> (\<exists>raw. urlsafe_b64decode cr k = Some raw \<and> length raw = 32)"
  by (auto simp: get_fernet_def result_simps split: option.splits if_splits)

lemma keyed_digest_of_JStr:
  "get_fernet cr env = Inr (Some k) \<Longrightarrow> keyed_digest_of cr (JStr t) k = Inr (vault_digest cr (Some k) t)"
  using get_fernet_Some by (fastforce simp: keyed_digest_of_def derive_hmac_key_def vault_digest_def)

lemma register_evidence_stores:
  assumes "register_evidence cr fr env v raw_payload source metadata session new_id now nonce = Inr (v', reg)"
  obtains key r where "get_fernet cr env = Inr key"
    and "v' = dict_set new_id (File (JObj r)) v"
    and "reg = \<lparr>vault_id = new_id, digest_field = digest_name key,
           digest_value = vault_digest cr key (sealed_text (redact_account_ids raw_payload) (bound_metadata metadata session))\<rparr>"
    and "map_of r ''raw_payload'' = Some (JStr (case key of None \<Rightarrow> redact_account_ids raw_payload
           | Some k \<Rightarrow> encrypt fr k nonce (redact_account_ids raw_payload)))"
    and "map_of r ''encrypted'' = Some (JBool (key \<noteq> None))"
    and "map_of r ''metadata'' = bound_metadata metadata session"
    and "map_of r (digest_field reg) = Some (JStr (digest_value reg))"
    and "key = None \<longrightarrow> map_of r ''hmac_sha256'' = None"
proof -
  from assms obtain key where key: "get_fernet cr env = Inr key"
    by (auto simp: register_evidence_def Let_def bindE_Inr_iff)
  show ?thesis
  proof (cases key)
    case None
    then show ?thesis
      using assms that [OF key] unfolding key register_evidence_def
      by (auto simp: key Let_def plain_digest_of_def bindE_Inr_iff bound_metadata_def digest_name_def vault_digest_def
          split: option.splits)
  next
    case (Some k)
    then show ?thesis
      using assms that [OF key] keyed_digest_of_JStr [OF key [unfolded Some]] unfolding key register_evidence_def
      by (auto simp: key Let_def bindE_Inr_iff bound_metadata_def digest_name_def split: option.splits)
  qed
qed

lemma get_fernet_env: "get_fernet cr env = Inr key \<Longrightarrow> key = (if env = Some [] then None else env)"
  by (auto simp: get_fernet_def result_simps split: option.splits if_splits)

lemma payload_of_registered:
  assumes ok: "fernet_ok fr" and key: "get_fernet cr env = Inr key"
    and raw: "map_of r ''raw_payload'' = Some (JStr (case key of None \<Rightarrow> p | Some k \<Rightarrow> encrypt fr k nonce p))"
    and enc: "map_of r ''encrypted'' = Some (JBool (key \<noteq> None))"
  shows "payload_of cr fr env r = Inr (Some (JStr p))"
  using assms by (cases key) (simp_all add: payload_of_def truthy_def decrypt_payload_def fernet_ok_def)

lemma digest_pair_registered:
  assumes key: "get_fernet cr env = Inr key"
    and field: "map_of r (digest_name key) = Some (JStr d)"
    and plain: "key = None \<longrightarrow> map_of r ''hmac_sha256'' = None"
  shows "digest_pair cr env r (JStr t) = Inr (Some (vault_digest cr key t, d))"
proof (cases key)
  case None
  with field plain show ?thesis
    by (simp add: digest_pair_def digest_name_def plain_digest_of_def vault_digest_def)
next
  case (Some k)
  then show ?thesis
    using key field get_fernet_Some keyed_digest_of_JStr by (fastforce simp: digest_pair_def digest_name_def)
qed

lemma check_registered:
  assumes ok: "fernet_ok fr"
    and reg: "register_evidence cr fr env v raw_payload source metadata session new_id now nonce = Inr (v', reg)"
  shows "\<exists>r. map_of v' new_id = Some (File (JObj r)) \<and> map_of r ''metadata'' = bound_metadata metadata session \<and>
     payload_of cr fr env r = Inr (Some (JStr (redact_account_ids raw_payload))) \<and>
     (\<forall>quote s. check_record cr fr env r quote s =
        Inr (session_matches s r \<and> sublist quote (redact_account_ids raw_payload)))"
proof -
  from reg obtain key r where key: "get_fernet cr env = Inr key"
    and v': "v' = dict_set new_id (File (JObj r)) v"
    and reg': "reg = \<lparr>vault_id = new_id, digest_field = digest_name key,
           digest_value = vault_digest cr key (sealed_text (redact_account_ids raw_payload) (bound_metadata metadata session))\<rparr>"
    and r: "map_of r ''raw_payload'' = Some (JStr (case key of None \<Rightarrow> redact_account_ids raw_payload
           | Some k \<Rightarrow> encrypt fr k nonce (redact_account_ids raw_payload)))"
    and enc: "map_of r ''encrypted'' = Some (JBool (key \<noteq> None))"
    and meta: "map_of r ''metadata'' = bound_metadata metadata session"
    and field: "map_of r (digest_field reg) = Some (JStr (digest_value reg))"
    and plain: "key = None \<longrightarrow> map_of r ''hmac_sha256'' = None"
    by (rule register_evidence_stores)
  note payload = payload_of_registered [OF ok key r enc]
  have pair: "digest_pair cr env r (JStr t) = Inr (Some (vault_digest cr key t, digest_value reg))" for t
    using digest_pair_registered [OF key _ plain] field by (simp add: reg')
  have "check_record cr fr env r quote s =
      Inr (session_matches s r \<and> sublist quote (redact_account_ids raw_payload))" for quote s
    by (simp add: check_record_def payload pair meta reg' compare_digest_refl)
  with v' payload meta show ?thesis by auto
qed

lemma bound_session:
  "map_of r ''metadata'' = bound_metadata metadata session \<Longrightarrow> session = Some sid \<Longrightarrow> sid \<noteq> [] \<Longrightarrow>
     record_session_id r = Some sid"
  by (simp add: record_session_id_def bound_metadata_def truthy_def Let_def)

lemma verify_quote_File:
  "is_uuid vid \<Longrightarrow> strip quote \<noteq> [] \<Longrightarrow> MIN_QUOTE_LENGTH \<le> py_len quote \<Longrightarrow>
   map_of v vid = Some (File (JObj r)) \<Longrightarrow> check_record cr fr env r quote session = Inr b \<Longrightarrow>
   verify_exact_quote cr fr env v vid quote session = Inr b"
  by (simp add: verify_exact_quote_def items_of_def)

lemma check_record_True:
  assumes "check_record cr fr env r quote s = Inr True"
  obtains p d where "payload_of cr fr env r = Inr (Some (JStr p))"
    and "digest_pair cr env r (JStr (sealed_text p (map_of r ''metadata''))) = Inr (Some (d, d))"
    and "session_matches s r" and "sublist quote p"
proof -
  from assms obtain payload t where found: "payload_of cr fr env r = Inr (Some payload)"
    and inp: "digest_input payload (map_of r ''metadata'') = Inr t"
    and "bindE (digest_pair cr env r t) (\<lambda>pair. case pair of None \<Rightarrow> Inr False | Some (expected, stored) \<Rightarrow>
      bindE (compare_digest expected stored) (\<lambda>same.
        if \<not> same then Inr False
        else if \<not> session_matches s r then Inr False
        else bindE (encode payload) (\<lambda>p. Inr (sublist quote p)))) = Inr True"
    by (auto simp: check_record_def bindE_Inr_iff split: option.splits)
  then obtain d d' p where pair: "digest_pair cr env r t = Inr (Some (d, d'))" and "compare_digest d d' = Inr True"
    and "session_matches s r" and p: "payload = JStr p" "sublist quote p"
    by (auto simp: bindE_Inr_iff split: option.splits if_splits)
  with that [of p d] found inp show ?thesis by (simp add: compare_digest_simps)
qed

lemma verify_quote_True:
  assumes "verify_exact_quote cr fr env v vid quote s = Inr True"
  obtains r where "map_of v vid = Some (File (JObj r))" and "check_record cr fr env r quote s = Inr True"
    and "is_uuid vid" and "strip quote \<noteq> []" and "MIN_QUOTE_LENGTH \<le> py_len quote"
  using assms by (auto simp: verify_exact_quote_def items_of_def not_less
      split: option.splits if_splits vault_file.splits json.splits sum.splits)

lemma sealed_text_eq:
  assumes "sealed_text p m = sealed_text p' m'" and nul: "char_of (0 :: nat) \<notin> set p" "char_of (0 :: nat) \<notin> set p'"
  shows "p = p' \<and> truthy m = truthy m' \<and> (truthy m \<longrightarrow> sort_keys (the m) = sort_keys (the m'))"
proof -
  let ?z = "char_of (0 :: nat) :: char"
  have take: "takeWhile (\<lambda>c. c \<noteq> ?z) (x @ ?z # y) = x" "takeWhile (\<lambda>c. c \<noteq> ?z) x = x" if "?z \<notin> set x" for x y
    using that by (auto simp: takeWhile_append intro: takeWhile_eq_all_conv [THEN iffD2])
  have "takeWhile (\<lambda>c. c \<noteq> ?z) (sealed_text p m) = p" "takeWhile (\<lambda>c. c \<noteq> ?z) (sealed_text p' m') = p'"
    using take nul by (simp_all add: sealed_text_def)
  with assms(1) have p: "p = p'" by metis
  then have "truthy m = truthy m'" "truthy m \<Longrightarrow> canonical (the m) = canonical (the m')"
    using assms(1) by (auto simp: sealed_text_def split: if_splits)
  with p show ?thesis by (simp add: canonical_eq_iff)
qed

section \<open>Migration keeps every verdict\<close>

definition vault_key :: "string option \<Rightarrow> string option" where
  "vault_key env = (if env = Some [] then None else env)"

lemma get_fernet_vault_key: "get_fernet cr env = Inr key \<Longrightarrow> key = vault_key env"
  using get_fernet_env by (simp add: vault_key_def)

lemma migrate_record_Migrated:
  assumes key: "get_fernet cr env = Inr (Some k)" and m: "migrate_record cr fr k j = Inr (Migrated j')"
  obtains r p where "j = JObj r" and "truthy (map_of r ''encrypted'')" and "map_of r ''hmac_sha256'' = None"
    and "payload_of cr fr env r = Inr (Some (JStr p))"
    and "digest_pair cr env r (JStr (sealed_text p (map_of r ''metadata''))) =
           Inr (Some (sha256_hex cr (sealed_text p (map_of r ''metadata'')), sha256_hex cr (sealed_text p (map_of r ''metadata''))))"
    and "j' = JObj (dict_set ''hmac_sha256'' (JStr (vault_digest cr (Some k) (sealed_text p (map_of r ''metadata''))))
           (filter (\<lambda>(f, _). f \<noteq> ''sha256'') r))"
proof -
  from m obtain r where j: "j = JObj r" by (auto simp: migrate_record_def split: json.splits)
  with m obtain raw payload t0 plain stored where enc: "truthy (map_of r ''encrypted'')" "map_of r ''hmac_sha256'' = None"
    and raw: "map_of r ''raw_payload'' = Some raw" "decrypt_payload fr k raw = Inr payload"
    and inp: "digest_input payload (map_of r ''metadata'') = Inr t0" "plain_digest_of cr t0 = Inr plain"
    and stored: "map_of r ''sha256'' = Some stored" "compare_digest plain (py_str stored) = Inr True"
    and j': "bindE (keyed_digest_of cr t0 k) (\<lambda>d.
        Inr (Migrated (JObj (dict_set ''hmac_sha256'' (JStr d) (filter (\<lambda>(f, _). f \<noteq> ''sha256'') r))))) = Inr (Migrated j')"
    by (auto simp: migrate_record_def bindE_Inr_iff of_option_Inr_iff split: if_splits)
  from inp obtain t where t: "t0 = JStr t" "plain = sha256_hex cr t"
    by (auto simp: plain_digest_of_def bindE_Inr_iff)
  with inp(1) obtain p where p: "payload = JStr p" "t = sealed_text p (map_of r ''metadata'')"
    using digest_input_Inr by blast
  have found: "payload_of cr fr env r = Inr (Some (JStr p))"
    using raw enc key p by (simp add: payload_of_def)
  have pair: "digest_pair cr env r (JStr t) = Inr (Some (sha256_hex cr t, sha256_hex cr t))"
    using stored t enc by (simp add: digest_pair_def plain_digest_of_def compare_digest_simps)
  have "j' = JObj (dict_set ''hmac_sha256'' (JStr (vault_digest cr (Some k) t)) (filter (\<lambda>(f, _). f \<noteq> ''sha256'') r))"
    using j' keyed_digest_of_JStr [OF key] by (simp add: t)
  with that j enc found pair show ?thesis by (simp add: p)
qed

lemma map_of_filter_key: "map_of (filter (\<lambda>(f, _). f \<noteq> k) r) x = (if x = k then None else map_of r x)"
  by (induction r) auto

lemma migrate_record_check:
  assumes key: "get_fernet cr env = Inr (Some k)" and m: "migrate_record cr fr k (JObj r) = Inr (Migrated j')"
  shows "\<exists>r'. j' = JObj r' \<and> check_record cr fr env r' quote s = check_record cr fr env r quote s"
proof -
  obtain p where enc: "truthy (map_of r ''encrypted'')"
    and found: "payload_of cr fr env r = Inr (Some (JStr p))"
    and pair: "digest_pair cr env r (JStr (sealed_text p (map_of r ''metadata''))) =
           Inr (Some (sha256_hex cr (sealed_text p (map_of r ''metadata'')), sha256_hex cr (sealed_text p (map_of r ''metadata''))))"
    and j': "j' = JObj (dict_set ''hmac_sha256'' (JStr (vault_digest cr (Some k) (sealed_text p (map_of r ''metadata''))))
           (filter (\<lambda>(f, _). f \<noteq> ''sha256'') r))"
    by (rule migrate_record_Migrated [OF key m]) simp_all
  define r' where "r' = dict_set ''hmac_sha256'' (JStr (vault_digest cr (Some k) (sealed_text p (map_of r ''metadata''))))
      (filter (\<lambda>(f, _). f \<noteq> ''sha256'') r)"
  have fields: "map_of r' f = map_of r f" if "f \<noteq> ''hmac_sha256''" "f \<noteq> ''sha256''" for f
    using that by (simp add: r'_def map_of_filter_key)
  have "payload_of cr fr env r' = Inr (Some (JStr p))"
    using found fields by (simp add: payload_of_def)
  moreover have "digest_pair cr env r' (JStr (sealed_text p (map_of r ''metadata''))) =
      Inr (Some (vault_digest cr (Some k) (sealed_text p (map_of r ''metadata'')),
                 vault_digest cr (Some k) (sealed_text p (map_of r ''metadata''))))"
    using digest_pair_registered [OF key] by (simp add: digest_name_def r'_def)
  moreover have "session_matches s r' = session_matches s r"
    using fields by (simp add: session_matches_def record_session_id_def split: option.splits)
  ultimately have "check_record cr fr env r' quote s = check_record cr fr env r quote s"
    using found pair fields by (simp add: check_record_def compare_digest_refl)
  with j' show ?thesis by (auto simp: r'_def)
qed

text \<open>Two vaults give the same verdict on every citation.\<close>

definition same_verdicts :: "crypto \<Rightarrow> fernet \<Rightarrow> string option \<Rightarrow> vault \<Rightarrow> vault \<Rightarrow> bool" where
  "same_verdicts cr fr env v w \<longleftrightarrow>
     (\<forall>vid quote s. verify_exact_quote cr fr env v vid quote s = verify_exact_quote cr fr env w vid quote s)"

lemma migrate_one_verdicts:
  assumes key: "get_fernet cr env = Inr (Some k)" and stored_file: "map_of v name = Some f"
    and m: "migrate_file cr fr k f = Inr (Migrated j)"
  shows "same_verdicts cr fr env (dict_set name (File j) v) v"
proof -
  from m obtain j0 where f: "f = File j0" "migrate_record cr fr k j0 = Inr (Migrated j)"
    by (auto simp: migrate_file_def split: vault_file.splits sum.splits if_splits)
  then obtain r where j0: "j0 = JObj r" by (auto simp: migrate_record_def split: json.splits)
  have "verify_exact_quote cr fr env (dict_set name (File j) v) vid quote s = verify_exact_quote cr fr env v vid quote s"
    for vid quote s
    using migrate_record_check [OF key, of fr r j quote s] f j0 stored_file
    by (cases "vid = name") (auto simp: verify_exact_quote_def items_of_def)
  then show ?thesis by (simp add: same_verdicts_def)
qed

lemma migrate_loop_verdicts:
  assumes key: "get_fernet cr env = Inr (Some k)"
  shows "same_verdicts cr fr env (fst (migrate_loop cr fr k names v c)) v"
proof (induction names arbitrary: v c)
  case (Cons name names)
  have trans: "same_verdicts cr fr env a d" if "same_verdicts cr fr env a b" "same_verdicts cr fr env b d" for a b d
    using that by (simp add: same_verdicts_def)
  show ?case
    using Cons.IH trans migrate_one_verdicts [OF key]
    by (fastforce simp: same_verdicts_def split: option.splits sum.splits migration.splits)
qed (simp add: same_verdicts_def)

section \<open>Migration settles the vault\<close>

fun settled :: "migration \<Rightarrow> migration" where
  "settled (Migrated j) = Already_keyed"
| "settled m = m"

abbreviation count_all :: "migration list \<Rightarrow> migration_counts \<Rightarrow> migration_counts" where
  "count_all \<equiv> fold count_migration"

definition counted :: "migration_counts \<Rightarrow> nat" where
  "counted c = migrated c + already_keyed c + unencrypted c + failed c"

lemma counted_all: "counted (count_all ms c) = counted c + length ms"
  by (induction ms arbitrary: c) (auto simp: counted_def count_migration_def split: migration.splits)

lemma count_settled:
  "migrated (count_all (map settled ms) c) = migrated c \<and>
   already_keyed (count_all (map settled ms) c) + migrated c = already_keyed (count_all ms c) + migrated (count_all ms c) \<and>
   unencrypted (count_all (map settled ms) c) = unencrypted (count_all ms c) \<and>
   failed (count_all (map settled ms) c) = failed (count_all ms c)"
proof -
  have gen: "migrated (count_all (map settled ms) a) = migrated a \<and>
     already_keyed (count_all (map settled ms) a) + already_keyed b + migrated b =
       already_keyed a + already_keyed (count_all ms b) + migrated (count_all ms b) \<and>
     unencrypted (count_all (map settled ms) a) + unencrypted b = unencrypted a + unencrypted (count_all ms b) \<and>
     failed (count_all (map settled ms) a) + failed b = failed a + failed (count_all ms b)" for a b
  proof (induction ms arbitrary: a b)
    case (Cons m ms)
    show ?case using Cons.IH [of "count_migration (settled m) a" "count_migration m b"]
      by (cases m) (simp_all add: count_migration_def)
  qed simp
  from gen [of c c] show ?thesis by simp
qed

lemma migrate_file_settled:
  assumes key: "get_fernet cr env = Inr (Some k)" and m: "migrate_file cr fr k f = Inr m"
  shows "migrate_file cr fr k (case m of Migrated j \<Rightarrow> File j | _ \<Rightarrow> f) = Inr (settled m)"
proof (cases m)
  case (Migrated j)
  with m obtain j0 where "migrate_record cr fr k j0 = Inr (Migrated j)"
    by (auto simp: migrate_file_def split: vault_file.splits sum.splits if_splits)
  then obtain r p where "truthy (map_of r ''encrypted'')"
    and "j = JObj (dict_set ''hmac_sha256'' (JStr (vault_digest cr (Some k) (sealed_text p (map_of r ''metadata''))))
           (filter (\<lambda>(f, _). f \<noteq> ''sha256'') r))"
    by (rule migrate_record_Migrated [OF key])
  then show ?thesis
    by (simp add: Migrated migrate_file_def migrate_record_def map_of_filter_key)
qed (use m in simp_all)

lemma key_present: "n \<in> fst ` set v \<Longrightarrow> \<exists>f. map_of v n = Some f"
  by (cases "map_of v n") (auto simp: map_of_eq_None_iff)

text \<open>The outcome for every file, and what is left of the vault.\<close>

lemma migrate_loop_outcomes:
  assumes key: "get_fernet cr env = Inr (Some k)"
  shows "migrate_loop cr fr k names v c = (v', Inr c') \<Longrightarrow> distinct names \<Longrightarrow> set names \<subseteq> fst ` set v \<Longrightarrow>
    (\<exists>ms. c' = count_all ms c \<and> map fst v' = map fst v \<and> (\<forall>n. n \<notin> set names \<longrightarrow> map_of v' n = map_of v n) \<and>
      list_all2 (\<lambda>n m. migrate_file cr fr k (the (map_of v' n)) = Inr (settled m)) names ms)"
proof (induction names arbitrary: v c)
  case (Cons n names)
  then obtain f where f: "map_of v n = Some f" using key_present [of n v] by auto
  with Cons.prems(1) obtain m where m: "migrate_file cr fr k f = Inr m" by (auto split: sum.splits)
  define w where "w = (case m of Migrated j \<Rightarrow> dict_set n (File j) v | _ \<Rightarrow> v)"
  have keys: "map fst w = map fst v"
    using f by (simp add: w_def update_keys map_of_SomeD image_iff split: migration.splits) (force dest: map_of_SomeD)
  have others: "map_of w x = map_of v x" if "x \<noteq> n" for x
    using that by (simp add: w_def split: migration.splits)
  have here: "map_of w n = Some (case m of Migrated j \<Rightarrow> File j | _ \<Rightarrow> f)"
    using f by (simp add: w_def split: migration.splits)
  from Cons.prems(1) f m have "migrate_loop cr fr k names w (count_migration m c) = (v', Inr c')"
    by (simp add: w_def)
  moreover have "set names \<subseteq> fst ` set w"
    using Cons.prems(3) keys by (metis insert_subset list.simps(15) list.set_map)
  ultimately obtain ms where ms: "c' = count_all ms (count_migration m c)" "map fst v' = map fst w"
    "\<forall>x. x \<notin> set names \<longrightarrow> map_of v' x = map_of w x"
    "list_all2 (\<lambda>n m. migrate_file cr fr k (the (map_of v' n)) = Inr (settled m)) names ms"
    using Cons.IH Cons.prems(2) by (metis distinct.simps(2))
  moreover have "migrate_file cr fr k (the (map_of v' n)) = Inr (settled m)"
    using ms(3) here Cons.prems(2) migrate_file_settled [OF key m] by simp
  ultimately show ?case
    using keys others by (intro exI [of _ "m # ms"]) auto
qed auto

lemma migrate_loop_settled:
  "list_all2 (\<lambda>n m. migrate_file cr fr k (the (map_of v n)) = Inr (settled m)) names ms \<Longrightarrow>
   set names \<subseteq> fst ` set v \<Longrightarrow> migrate_loop cr fr k names v c = (v, Inr (count_all (map settled ms) c))"
proof (induction names arbitrary: ms c)
  case (Cons n names)
  then obtain m ms' where ms: "ms = m # ms'" "migrate_file cr fr k (the (map_of v n)) = Inr (settled m)"
    "list_all2 (\<lambda>n m. migrate_file cr fr k (the (map_of v n)) = Inr (settled m)) names ms'"
    by (auto simp: list_all2_Cons1)
  moreover obtain f where "map_of v n = Some f"
    using Cons.prems(2) key_present [of n v] by auto
  ultimately show ?case using Cons.IH [of ms'] Cons.prems(2) by (cases m) simp_all
qed simp

section \<open>Properties\<close>


lemma quote_of_registered:
  assumes ok: "fernet_ok fr"
    and reg: "register_evidence cr fr env v raw_payload source metadata session new_id now nonce = Inr (v', reg)"
    and vid: "is_uuid new_id" and quote: "strip quote \<noteq> []" "MIN_QUOTE_LENGTH \<le> py_len quote"
    and s: "s = None \<or> s = session"
  shows "verify_exact_quote cr fr env v' new_id quote s = Inr (sublist quote (redact_account_ids raw_payload))"
proof -
  from check_registered [OF ok reg] obtain r where r: "map_of v' new_id = Some (File (JObj r))"
    "map_of r ''metadata'' = bound_metadata metadata session"
    and check: "\<And>quote s. check_record cr fr env r quote s =
        Inr (session_matches s r \<and> sublist quote (redact_account_ids raw_payload))" by blast
  have "session_matches s r"
  proof (cases s)
    case (Some sid)
    with s bound_session [OF r(2)] show ?thesis by (cases "sid = []") (auto simp: session_matches_def)
  qed (simp add: session_matches_def)
  with verify_quote_File [OF vid quote r(1) check] show ?thesis by simp
qed

text \<open>
  evidence that was registered, encrypted or not, verifies: every
  quote of at least 15 characters that is a part of the redacted payload is accepted, for the
  session the evidence was registered in and when no session is asked for; and a quote that is no part of the payload is rejected.
\<close>

lemma registered_quote_verifies:
  assumes ok: "fernet_ok fr"
    and reg: "register_evidence cr fr env v raw_payload source metadata session new_id now nonce = Inr (v', reg)"
    and vid: "is_uuid new_id" and quote: "strip quote \<noteq> []" "MIN_QUOTE_LENGTH \<le> py_len quote"
    and s: "s = None \<or> s = session"
  shows "verify_exact_quote cr fr env v' new_id quote s = Inr (sublist quote (redact_account_ids raw_payload))"
  by (rule quote_of_registered [OF assms])

lemma quote_of_other_session:
  assumes ok: "fernet_ok fr"
    and reg: "register_evidence cr fr env v raw_payload source metadata (Some sid) new_id now nonce = Inr (v', reg)"
    and sids: "sid \<noteq> []" "other \<noteq> []" "sid \<noteq> other" "sid \<noteq> redact_account_ids other"
  shows "verify_exact_quote cr fr env v' new_id quote (Some other) = Inr False"
proof -
  from check_registered [OF ok reg] obtain r where r: "map_of v' new_id = Some (File (JObj r))"
    "map_of r ''metadata'' = bound_metadata metadata (Some sid)"
    and check: "\<And>quote s. check_record cr fr env r quote s =
        Inr (session_matches s r \<and> sublist quote (redact_account_ids raw_payload))" by blast
  have "\<not> session_matches (Some other) r"
    using bound_session [OF r(2) refl sids(1)] sids by (auto simp: session_matches_def)
  with r(1) check show ?thesis by (simp add: verify_exact_quote_def items_of_def)
qed

text \<open>
  C20. [evidence_bound_to_session]: evidence registered in one session is never accepted as
  evidence for another: every quote is rejected.
\<close>

theorem evidence_bound_to_session:
  assumes ok: "fernet_ok fr"
    and reg: "register_evidence cr fr env v raw_payload source metadata (Some sid) new_id now nonce = Inr (v', reg)"
    and sids: "sid \<noteq> []" "other \<noteq> []" "sid \<noteq> other" "sid \<noteq> redact_account_ids other"
  shows "verify_exact_quote cr fr env v' new_id quote (Some other) = Inr False"
  by (rule quote_of_other_session [OF assms])

text \<open>
  C19. [verified_quote_authentic]: as long as the digest made at registration is still in the record,
  an accepted quote is a part of the text that was sealed at registration, unless that text and
  the one now in the record collide; and when neither payload contains a NUL, payload and
  metadata are the registered ones.
\<close>

theorem verified_quote_authentic:
  assumes reg: "register_evidence cr fr env v raw_payload source metadata session vid now nonce = Inr (v', reg)"
    and now: "map_of w vid = Some (File (JObj r))" "map_of r (digest_field reg) = Some (JStr (digest_value reg))"
      "digest_field reg = ''sha256'' \<Longrightarrow> map_of r ''hmac_sha256'' = None"
    and ok: "verify_exact_quote cr fr env w vid quote s = Inr True"
    and texts: "sealed = sealed_text (redact_account_ids raw_payload) (bound_metadata metadata session)"
      "\<And>p. payload_of cr fr env r = Inr (Some (JStr p)) \<Longrightarrow>
         no_collision (vault_digest cr (vault_key env)) {sealed, sealed_text p (map_of r ''metadata'')}"
  shows "\<exists>p. payload_of cr fr env r = Inr (Some (JStr p)) \<and> sublist quote p \<and> sublist quote sealed \<and>
     (char_of (0 :: nat) \<notin> set p \<longrightarrow> char_of (0 :: nat) \<notin> set (redact_account_ids raw_payload) \<longrightarrow>
        p = redact_account_ids raw_payload \<and>
        (truthy (bound_metadata metadata session) \<longrightarrow>
           sort_keys (the (map_of r ''metadata'')) = sort_keys (the (bound_metadata metadata session))))"
proof -
  from reg obtain key where key: "get_fernet cr env = Inr key"
    and reg': "reg = \<lparr>vault_id = vid, digest_field = digest_name key, digest_value = vault_digest cr key sealed\<rparr>"
    unfolding texts(1) by (rule register_evidence_stores)
  have vk: "key = vault_key env" by (rule get_fernet_vault_key [OF key])
  from verify_quote_True [OF ok] now(1) have "check_record cr fr env r quote s = Inr True" by auto
  then obtain p d where p: "payload_of cr fr env r = Inr (Some (JStr p))" "sublist quote p"
    and d: "digest_pair cr env r (JStr (sealed_text p (map_of r ''metadata''))) = Inr (Some (d, d))"
    by (rule check_record_True)
  let ?t = "sealed_text p (map_of r ''metadata'')"
  have "key = None \<longrightarrow> map_of r ''hmac_sha256'' = None" and "map_of r (digest_name key) = Some (JStr (digest_value reg))"
    using now by (simp_all add: reg' digest_name_def)
  from digest_pair_registered [OF key this(2,1)] d have "vault_digest cr key ?t = vault_digest cr key sealed"
    by (auto simp: reg')
  with texts(2) [OF p(1)] vk have same: "?t = sealed"
    by (auto dest: no_collisionD [of _ "{sealed, ?t}" ?t sealed])
  have "sublist p ?t" by (auto simp: sealed_text_def)
  with p(2) same have "sublist quote sealed" using sublist_order.order_trans by blast
  moreover have "p = redact_account_ids raw_payload \<and> (truthy (bound_metadata metadata session) \<longrightarrow>
      sort_keys (the (map_of r ''metadata'')) = sort_keys (the (bound_metadata metadata session)))"
    if "char_of (0 :: nat) \<notin> set p" "char_of (0 :: nat) \<notin> set (redact_account_ids raw_payload)"
    using sealed_text_eq [OF _ that] same texts(1) by metis
  ultimately show ?thesis using p by blast
qed

lemma unverified_from_empty:
  "unverified_from i check fs = Inr [] \<longleftrightarrow>
     (\<forall>f\<in>set fs. if strip (exact_quote f) = [] then finding_marked_not_tested f
        else check (vault_id_reference f) (exact_quote f) = Inr True)"
proof (induction fs arbitrary: i)
  case (Cons f fs)
  then show ?case
    by (cases "check (vault_id_reference f) (exact_quote f)") (auto simp: Let_def bindE_Inr_iff)
qed simp

lemma unverified_findings_iff:
  "unverified_findings cr fr env v fs session = Inr [] \<longleftrightarrow>
     (\<forall>f\<in>set fs. if strip (exact_quote f) = [] then finding_marked_not_tested f
        else verify_exact_quote cr fr env v (vault_id_reference f) (exact_quote f) session = Inr True)"
  by (simp add: unverified_findings_def unverified_from_empty)

text \<open>
  The check of the working papers passes exactly when every
  finding without a quote is marked "Not tested" and every other quote verifies.
\<close>

lemma unverified_findings_empty_iff:
  "unverified_findings cr fr env v fs session = Inr [] \<longleftrightarrow>
     (\<forall>f\<in>set fs. if strip (exact_quote f) = [] then finding_marked_not_tested f
        else verify_exact_quote cr fr env v (vault_id_reference f) (exact_quote f) session = Inr True)"
  by (rule unverified_findings_iff)

text \<open>
  replacing the plain digests by keyed ones changes the verdict on
  no citation, whatever the vault holds and even when the migration stops half way.
\<close>

lemma migration_keeps_verdicts:
  "verify_exact_quote cr fr env (fst (migrate_legacy_digests cr fr env v)) vid quote s =
   verify_exact_quote cr fr env v vid quote s"
proof -
  have "same_verdicts cr fr env (fst (migrate_legacy_digests cr fr env v)) v"
    using migrate_loop_verdicts by (auto simp: migrate_legacy_digests_def same_verdicts_def split: sum.splits option.splits)
  then show ?thesis by (simp add: same_verdicts_def)
qed

text \<open>
  A migration that finishes has counted every record of the vault exactly
  once, and running it again changes nothing and migrates nothing: what it migrated is now
  counted as already keyed.
\<close>

lemma migration_settles:
  assumes run: "migrate_legacy_digests cr fr env v = (v', Inr c)" and keys: "distinct (map fst v)"
  shows "counted c = length (filter is_uuid (map fst v)) \<and>
     (\<exists>c2. migrate_legacy_digests cr fr env v' = (v', Inr c2) \<and> migrated c2 = 0 \<and>
        already_keyed c2 = already_keyed c + migrated c \<and> unencrypted c2 = unencrypted c \<and> failed c2 = failed c)"
proof -
  let ?zero = "\<lparr>migrated = 0, already_keyed = 0, unencrypted = 0, failed = 0\<rparr>" and ?names = "sort (filter is_uuid (map fst v))"
  from run obtain k where key: "get_fernet cr env = Inr (Some k)"
    and loop: "migrate_loop cr fr k ?names v ?zero = (v', Inr c)"
    by (auto simp: migrate_legacy_digests_def split: sum.splits option.splits)
  have names: "distinct ?names" "set ?names \<subseteq> fst ` set v" using keys by auto
  from migrate_loop_outcomes [OF key loop names] obtain ms where ms: "c = count_all ms ?zero" "map fst v' = map fst v"
    "list_all2 (\<lambda>n m. migrate_file cr fr k (the (map_of v' n)) = Inr (settled m)) ?names ms" by blast
  have sub: "set ?names \<subseteq> fst ` set v'" using names(2) ms(2) by (metis list.set_map)
  have "counted c = length ?names"
    using counted_all [of ms ?zero] list_all2_lengthD [OF ms(3)] by (simp add: ms(1)) (simp add: counted_def)
  then have "counted c = length (filter is_uuid (map fst v))" by simp
  moreover have "migrate_legacy_digests cr fr env v' = (v', Inr (count_all (map settled ms) ?zero))"
    using migrate_loop_settled [OF ms(3) sub] key ms(2) by (simp add: migrate_legacy_digests_def)
  ultimately show ?thesis using count_settled [of ms ?zero] ms(1) by simp
qed

text \<open>
  The text a digest covers does not say where the payload ends.
  In a vault that is not encrypted, moving the metadata of a record into its payload keeps the
  digest valid and leaves a record that is bound to no session: the quotes of one session's
  evidence are then accepted in every session.
\<close>

lemma metadata_absorbed_into_payload:
  assumes reg: "register_evidence cr fr None v raw_payload source metadata session vid now nonce = Inr (v', reg)"
    and vid: "is_uuid vid" and quote: "strip quote \<noteq> []" "MIN_QUOTE_LENGTH \<le> py_len quote"
      "sublist quote (redact_account_ids raw_payload)"
    and r: "r = [(''raw_payload'', JStr (sealed_text (redact_account_ids raw_payload) (bound_metadata metadata session))),
                 (digest_field reg, JStr (digest_value reg))]"
  shows "verify_exact_quote cr fr None (dict_set vid (File (JObj r)) v') vid quote s = Inr True"
proof -
  let ?t = "sealed_text (redact_account_ids raw_payload) (bound_metadata metadata session)"
  have "get_fernet cr None = Inr None" by (simp add: get_fernet_def)
  with reg have reg': "reg = \<lparr>vault_id = vid, digest_field = ''sha256'', digest_value = vault_digest cr None ?t\<rparr>"
    by (elim register_evidence_stores) (simp add: digest_name_def)
  have "sublist quote ?t"
    using quote(3) by (auto simp: sealed_text_def intro: sublist_order.order_trans)
  moreover have "digest_pair cr None r (JStr ?t) = Inr (Some (vault_digest cr None ?t, digest_value reg))"
    by (rule digest_pair_registered) (simp_all add: get_fernet_def digest_name_def r reg')
  moreover have "payload_of cr fr None r = Inr (Some (JStr ?t))" "map_of r ''metadata'' = None"
    by (simp_all add: payload_of_def r truthy_def reg')
  moreover have "session_matches s r"
    by (simp add: session_matches_def record_session_id_def r reg' split: option.splits)
  ultimately have "check_record cr fr None r quote s = Inr True"
    by (simp add: check_record_def reg' sealed_text_def [of ?t None] truthy_def compare_digest_refl)
  then show ?thesis by (rule verify_quote_File [OF vid quote(1,2), rotated]) simp
qed

text \<open>
  \<open>verify_exact_quote\<close> is to answer False for a record whose digest
  does not match, but when the stored digest was replaced by a text with a non-ASCII character
  the comparison raises \<open>TypeError\<close>, which no \<open>except\<close> clause catches: the check of all findings
  of the working papers is then aborted too.
\<close>

lemma non_ascii_digest_raises:
  assumes vid: "is_uuid vid" and quote: "strip quote \<noteq> []" "MIN_QUOTE_LENGTH \<le> py_len quote"
    and now: "map_of w vid = Some (File (JObj [(''raw_payload'', JStr p), (''sha256'', JStr d)]))" and d: "\<not> ascii d"
    and f: "vault_id_reference f = vid" "exact_quote f = quote"
  shows "verify_exact_quote cr fr env w vid quote s = Inl TypeError \<and>
     unverified_findings cr fr env w (f # fs) s = Inl TypeError"
proof -
  have "check_record cr fr env [(''raw_payload'', JStr p), (''sha256'', JStr d)] quote s = Inl TypeError"
    using d by (simp add: check_record_def payload_of_def truthy_def digest_pair_def plain_digest_of_def compare_digest_def)
  then have "verify_exact_quote cr fr env w vid quote s = Inl TypeError"
    using vid quote now by (simp add: verify_exact_quote_def items_of_def caught_def)
  then show ?thesis using f quote by (simp add: unverified_findings_def)
qed

section \<open>Witnesses\<close>

text \<open>A token that is the hexadecimal text of the payload.\<close>

fun unhex :: "string \<Rightarrow> string" where
  "unhex (a # b # r) = char_of (16 * hex_val a + hex_val b) # unhex r"
| "unhex _ = []"

definition toy_fernet :: fernet where
  "toy_fernet = \<lparr>encrypt = \<lambda>k n x. hexdigest x, decrypt = \<lambda>k t. Some (unhex t)\<rparr>"

lemma unhex_hexdigest: "unhex (hexdigest x) = x"
proof (induction x)
  case (Cons c x)
  have n: "of_char c div 16 < (16 :: nat)" by (rule div_less_dividend_16) simp
  have "hexdigest (c # x) = hex_char (of_char c div 16) # hex_char (of_char c mod 16) # hexdigest x"
    by (simp add: hexdigest_def Let_def)
  with Cons show ?case by (simp add: hex_val_char [OF n] hex_val_char)
qed (simp add: hexdigest_def)

lemma toy_fernet_ok: "fernet_ok toy_fernet"
  by (simp add: fernet_ok_def toy_fernet_def unhex_hexdigest)

definition toy_key :: string where
  "toy_key = replicate 32 CHR ''k''"

lemma toy_get_fernet: "get_fernet toy_crypto (Some toy_key) = Inr (Some toy_key)" "get_fernet toy_crypto None = Inr None"
  by (simp_all add: get_fernet_def toy_crypto_def toy_key_def)

definition toy_id :: string where
  "toy_id = ''00000000-0000-4000-8000-000000000001''"

lemma toy_id_uuid: "is_uuid toy_id"
  by (simp add: is_uuid_def toy_id_def All_less_Suc eval_nat_numeral is_hex_def)

definition toy_payload :: string where
  "toy_payload = ''account 123456789012 has MFA enabled''"

definition toy_quote :: string where
  "toy_quote = '' has MFA enabled''"

lemma toy_redacted: "redact_account_ids toy_payload = ''account [REDACTED] has MFA enabled''"
  by (simp add: redact_account_ids_def toy_payload_def account_id_def bare_id_def hyphenated_id_def no_digit_next_def
      digit_next_def dash_digits_def is_digit_def eval_nat_numeral)

lemma toy_quote_ok: "strip toy_quote \<noteq> []" "MIN_QUOTE_LENGTH \<le> py_len toy_quote"
    "sublist toy_quote (redact_account_ids toy_payload)"
proof -
  show "strip toy_quote \<noteq> []" by (simp add: strip_empty_iff toy_quote_def is_space_def)
  show "MIN_QUOTE_LENGTH \<le> py_len toy_quote" by (simp add: py_len_def toy_quote_def MIN_QUOTE_LENGTH_def)
  have "redact_account_ids toy_payload = ''account [REDACTED]'' @ toy_quote" by (simp add: toy_redacted toy_quote_def)
  then show "sublist toy_quote (redact_account_ids toy_payload)" unfolding sublist_def by (metis append_Nil2)
qed

lemma toy_register:
  assumes "get_fernet toy_crypto env = Inr key"
  shows "\<exists>v' reg. register_evidence toy_crypto toy_fernet env v toy_payload ''iam'' None session toy_id ''now'' [] = Inr (v', reg)"
proof (cases key)
  case None
  with assms show ?thesis
    by (auto simp: register_evidence_def Let_def plain_digest_of_def split: option.splits)
next
  case (Some k)
  with assms show ?thesis
    using keyed_digest_of_JStr [OF assms [unfolded Some]] by (auto simp: register_evidence_def Let_def split: option.splits)
qed

theorem registered_quote_verifies_witness:
  "\<exists>v' reg. register_evidence toy_crypto toy_fernet (Some toy_key) [] toy_payload ''iam'' None (Some ''S'') toy_id ''now'' [] = Inr (v', reg) \<and>
     verify_exact_quote toy_crypto toy_fernet (Some toy_key) v' toy_id toy_quote (Some ''S'') = Inr True"
proof -
  from toy_register [OF toy_get_fernet(1)] obtain v' reg where
    reg: "register_evidence toy_crypto toy_fernet (Some toy_key) [] toy_payload ''iam'' None (Some ''S'') toy_id ''now'' [] = Inr (v', reg)"
    by blast
  with registered_quote_verifies [OF toy_fernet_ok reg toy_id_uuid toy_quote_ok(1,2), of "Some ''S''"] toy_quote_ok(3)
  show ?thesis by simp
qed

theorem evidence_bound_to_session_witness:
  "\<exists>v' reg. register_evidence toy_crypto toy_fernet None [] toy_payload ''iam'' None (Some ''S'') toy_id ''now'' [] = Inr (v', reg) \<and>
     verify_exact_quote toy_crypto toy_fernet None v' toy_id toy_quote (Some ''T'') = Inr False"
proof -
  from toy_register [OF toy_get_fernet(2)] obtain v' reg where
    reg: "register_evidence toy_crypto toy_fernet None [] toy_payload ''iam'' None (Some ''S'') toy_id ''now'' [] = Inr (v', reg)"
    by blast
  have "redact_account_ids ''T'' = ''T''"
    by (simp add: redact_account_ids_def account_id_digit is_digit_def)
  with evidence_bound_to_session [OF toy_fernet_ok reg, of "''T''" toy_quote] reg
  show ?thesis by simp
qed

text \<open>The sealed record as it was registered.\<close>

lemma toy_injective: "no_collision (vault_digest toy_crypto key) A"
  by (cases key) (auto simp: no_collision_def inj_on_def vault_digest_def sha256_hex_def toy_crypto_def)

theorem verified_quote_authentic_witness:
  "\<exists>v' reg. register_evidence toy_crypto toy_fernet None [] toy_payload ''iam'' None None toy_id ''now'' [] = Inr (v', reg) \<and>
     sublist toy_quote (sealed_text (redact_account_ids toy_payload) None)"
proof -
  from toy_register [OF toy_get_fernet(2)] obtain v' reg where
    reg: "register_evidence toy_crypto toy_fernet None [] toy_payload ''iam'' None None toy_id ''now'' [] = Inr (v', reg)"
    by blast
  then obtain r where v': "v' = dict_set toy_id (File (JObj r)) []"
    and r: "map_of r (digest_field reg) = Some (JStr (digest_value reg))" "map_of r ''hmac_sha256'' = None"
    using toy_get_fernet(2) by (elim register_evidence_stores) simp
  have file_r: "map_of v' toy_id = Some (File (JObj r))" by (simp add: v')
  from check_registered [OF toy_fernet_ok reg] file_r
  have "check_record toy_crypto toy_fernet None r toy_quote None = Inr True"
    using toy_quote_ok(3) by (auto simp: session_matches_def)
  from verify_quote_File [OF toy_id_uuid toy_quote_ok(1,2) file_r this]
  have ok: "verify_exact_quote toy_crypto toy_fernet None v' toy_id toy_quote None = Inr True" .
  have meta: "bound_metadata None None = None" by (simp add: bound_metadata_def truthy_def)
  from verified_quote_authentic [OF reg file_r r(1) _ ok refl] r(2) toy_injective reg meta
  show ?thesis by auto
qed

definition toy_finding :: finding where
  "toy_finding = \<lparr>f_control_id = ''C-1'', vault_id_reference = toy_id, exact_quote = toy_quote,
     tod_conclusion = TOD_EFFECTIVE, toe_conclusion = TOE_EFFECTIVE, toe_basis = None, items_tested = None,
     exceptions_noted = None, f_result = Some NO_EXCEPTION, preliminary_deficiency = Some False,
     test_conclusion = ''ok'', legacy_severity = None\<rparr>"

theorem non_ascii_digest_raises_witness:
  "unverified_findings toy_crypto toy_fernet None
     [(toy_id, File (JObj [(''raw_payload'', JStr toy_payload), (''sha256'', JStr [char_of (200 :: nat)])]))] [toy_finding] None =
   Inl TypeError"
proof -
  have "\<not> ascii [char_of (200 :: nat)]" by (simp add: of_char_of)
  from non_ascii_digest_raises [OF toy_id_uuid toy_quote_ok(1,2) _ this, of _ toy_payload toy_finding] show ?thesis
    by (simp add: toy_finding_def)
qed

theorem unverified_findings_empty_iff_witness:
  "unverified_findings toy_crypto toy_fernet None [] [toy_finding] None \<noteq> Inr []"
proof -
  have "verify_exact_quote toy_crypto toy_fernet None [] (vault_id_reference toy_finding) (exact_quote toy_finding) None = Inr False"
    by (simp add: verify_exact_quote_def)
  moreover have "strip (exact_quote toy_finding) \<noteq> []" by (simp add: toy_finding_def toy_quote_def strip_def lstrip_def is_space_def)
  ultimately show ?thesis by (simp add: unverified_findings_empty_iff)
qed

theorem metadata_absorbed_into_payload_witness:
  "\<exists>r. verify_exact_quote toy_crypto toy_fernet None [(toy_id, File (JObj r))] toy_id toy_quote (Some ''T'') = Inr True \<and>
     record_session_id r = None"
proof -
  from toy_register [OF toy_get_fernet(2)] obtain v' reg where
    reg: "register_evidence toy_crypto toy_fernet None [] toy_payload ''iam'' None (Some ''S'') toy_id ''now'' [] = Inr (v', reg)"
    by blast
  then have v': "\<exists>r. v' = [(toy_id, File (JObj r))]" and field: "digest_field reg = ''sha256''"
    using toy_get_fernet(2) by (elim register_evidence_stores; simp add: digest_name_def)+
  from metadata_absorbed_into_payload [OF reg toy_id_uuid toy_quote_ok refl, of "Some ''T''"] v' field
  show ?thesis by (auto simp: record_session_id_def)
qed

text \<open>An encrypted record from before the keyed digest.\<close>

definition toy_old_record :: json where
  "toy_old_record = JObj [(''raw_payload'', JStr (hexdigest toy_payload)), (''encrypted'', JBool True),
     (''sha256'', JStr (sha256_hex toy_crypto toy_payload))]"

theorem migration_settles_witness:
  "\<exists>v' c. migrate_legacy_digests toy_crypto toy_fernet (Some toy_key) [(toy_id, File toy_old_record)] = (v', Inr c) \<and>
     counted c = 1 \<and> migrated c = 1"
proof -
  have "migrate_record toy_crypto toy_fernet toy_key toy_old_record = Inr (Migrated (JObj (dict_set ''hmac_sha256''
      (JStr (vault_digest toy_crypto (Some toy_key) toy_payload))
      [(''raw_payload'', JStr (hexdigest toy_payload)), (''encrypted'', JBool True)])))" (is "_ = Inr (Migrated ?j)")
    using keyed_digest_of_JStr [OF toy_get_fernet(1), of toy_payload]
    by (simp add: migrate_record_def toy_old_record_def truthy_def decrypt_payload_def toy_fernet_def unhex_hexdigest
        sealed_text_def plain_digest_of_def compare_digest_refl)
  then have "migrate_legacy_digests toy_crypto toy_fernet (Some toy_key) [(toy_id, File toy_old_record)] =
      ([(toy_id, File ?j)], Inr \<lparr>migrated = 1, already_keyed = 0, unencrypted = 0, failed = 0\<rparr>)"
    by (simp add: migrate_legacy_digests_def toy_get_fernet toy_id_uuid migrate_file_def count_migration_def)
  with migration_settles [OF this] toy_id_uuid show ?thesis by simp
qed

end
