(* ===== verification/Skills.thy ===== *)
theory Skills
  imports Prelude
begin

text \<open>
  Domain skills: \<open>src/swarm/skill_loader.py\<close>. A skill is the record of the fields the code reads
  from a skill file; reading the YAML files (and skipping the malformed ones) is left out, the
  list of loaded skills is an argument. Keywords match on whole words; \<open>word_char\<close> is \<open>\w\<close> on
  ASCII, and every byte of a non-ASCII character counts as part of a word.
\<close>

section \<open>Whole-word search\<close>

definition word_char :: "char \<Rightarrow> bool" where
  "word_char c = (let n = of_char c :: nat in
     (48 \<le> n \<and> n \<le> 57) \<or> (65 \<le> n \<and> n \<le> 90) \<or> (97 \<le> n \<and> n \<le> 122) \<or> n = 95 \<or> 128 \<le> n)"

fun strip_prefix :: "string \<Rightarrow> string \<Rightarrow> string option" where
  "strip_prefix [] s = Some s"
| "strip_prefix (c # cs) [] = None"
| "strip_prefix (c # cs) (d # ds) = (if c = d then strip_prefix cs ds else None)"

definition word_next :: "string \<Rightarrow> bool" where
  "word_next s = (case s of [] \<Rightarrow> False | c # _ \<Rightarrow> word_char c)"

text \<open>\<open>re.search(r"(?<!\w)kw(?!\w)", text)\<close> for a literal \<open>kw\<close>\<close>

definition word_at :: "bool \<Rightarrow> string \<Rightarrow> string \<Rightarrow> bool" where
  "word_at after_word kw s \<longleftrightarrow>
     \<not> after_word \<and> (case strip_prefix kw s of None \<Rightarrow> False | Some r \<Rightarrow> \<not> word_next r)"

fun search_word :: "bool \<Rightarrow> string \<Rightarrow> string \<Rightarrow> bool" where
  "search_word after_word kw [] = word_at after_word kw []"
| "search_word after_word kw (c # s) = (word_at after_word kw (c # s) \<or> search_word (word_char c) kw s)"

definition keyword_matches :: "string \<Rightarrow> string \<Rightarrow> bool" where
  "keyword_matches keyword txt =
     (let kw = strip keyword in if kw = [] then False else search_word False (lower kw) (lower txt))"

lemma strip_prefix_iff: "strip_prefix p s = Some r \<longleftrightarrow> s = p @ r"
  by (induction p s rule: strip_prefix.induct) auto

lemma strip_prefix_append [simp]: "strip_prefix p (p @ r) = Some r"
  by (simp add: strip_prefix_iff)

lemma word_at_iff: "word_at p kw s \<longleftrightarrow> \<not> p \<and> (\<exists>b. s = kw @ b \<and> \<not> word_next b)"
proof (cases "strip_prefix kw s")
  case None
  then have "s \<noteq> kw @ b" for b by auto
  with None show ?thesis by (simp add: word_at_def)
next
  case (Some r)
  then show ?thesis by (auto simp: word_at_def strip_prefix_iff)
qed

definition word_last :: "bool \<Rightarrow> string \<Rightarrow> bool" where
  "word_last p a = (if a = [] then p else word_char (last a))"

lemma search_word_iff:
  "search_word p kw s \<longleftrightarrow> (\<exists>a b. s = a @ kw @ b \<and> \<not> word_last p a \<and> \<not> word_next b)"
proof (induction p kw s rule: search_word.induct)
  case (1 p kw)
  then show ?case
    by (auto simp: word_at_iff word_last_def)
next
  case (2 p kw c s)
  have at: "word_at p kw (c # s) \<longleftrightarrow> (\<exists>b. c # s = kw @ b \<and> \<not> p \<and> \<not> word_next b)"
    by (auto simp: word_at_iff)
  have last: "word_last p (c # a) = word_last (word_char c) a" for a
    by (simp add: word_last_def)
  have "(\<exists>a b. c # s = a @ kw @ b \<and> \<not> word_last p a \<and> \<not> word_next b) \<longleftrightarrow>
      (\<exists>b. c # s = kw @ b \<and> \<not> p \<and> \<not> word_next b) \<or>
      (\<exists>a b. s = a @ kw @ b \<and> \<not> word_last (word_char c) a \<and> \<not> word_next b)" (is "?l \<longleftrightarrow> ?r1 \<or> ?r2")
  proof
    assume ?l
    then obtain a b where ab: "c # s = a @ kw @ b" "\<not> word_last p a" "\<not> word_next b" by blast
    then show "?r1 \<or> ?r2" by (cases a) (auto simp: word_last_def split: if_splits)
  next
    assume "?r1 \<or> ?r2"
    then show ?l
    proof
      assume ?r1
      then obtain b where "c # s = [] @ kw @ b" "\<not> word_last p []" "\<not> word_next b" by (auto simp: word_last_def)
      then show ?l by blast
    next
      assume ?r2
      then obtain a b where "c # s = (c # a) @ kw @ b" "\<not> word_last p (c # a)" "\<not> word_next b" by (auto simp: last)
      then show ?l by blast
    qed
  qed
  with at 2 show ?case by simp
qed

section \<open>Detecting the skills of a scope\<close>

record skill =
  skill_id :: "string option"
  skill_name :: "string option"
  scope_keywords :: "string list"
  specialist_prompt :: "string option"
  context_hint :: "string option"
  focus_domains :: "string list"

definition skill_score :: "string \<Rightarrow> skill \<Rightarrow> nat" where
  "skill_score scope sk = length (filter (\<lambda>kw. keyword_matches kw scope) (scope_keywords sk))"

text \<open>\<open>scored.sort(key=..., reverse=True)\<close> is stable, so it is a stable sort by the negated score.\<close>

definition detect_skills_from_scope :: "skill list \<Rightarrow> string \<Rightarrow> string list \<Rightarrow> skill list" where
  "detect_skills_from_scope skills scope frameworks =
     (let combined = (if frameworks \<noteq> [] then scope @ '' '' @ join_with '' '' frameworks else scope);
          scored = filter (\<lambda>(score, sk). score > 0) (map (\<lambda>sk. (skill_score combined sk, sk)) skills);
          matched = map snd (sort_key (\<lambda>(score, sk). - int score) scored) in
      if matched = [] then (case find (\<lambda>sk. skill_id sk = Some ''itgc_general'') skills of
          None \<Rightarrow> [] | Some sk \<Rightarrow> [sk])
      else matched)"

definition get_skill_by_id :: "skill list \<Rightarrow> string \<Rightarrow> skill option" where
  "get_skill_by_id skills i = find (\<lambda>sk. skill_id sk = Some i) skills"

definition given_text :: "string option \<Rightarrow> bool" where
  "given_text v \<longleftrightarrow> (case v of None \<Rightarrow> False | Some s \<Rightarrow> s \<noteq> [])"

definition newline :: string where
  "newline = [char_of (10 :: nat)]"

definition get_specialist_prompt :: "skill list \<Rightarrow> string" where
  "get_specialist_prompt matched =
     (if matched = [] then ''You are a general IT Audit Specialist. Apply standard audit methodology.''
      else join_with (newline @ newline)
        (map (\<lambda>sk. ''=== '' @ (case skill_name sk of None \<Rightarrow> ''Unknown Skill'' | Some n \<Rightarrow> n) @ '' ==='' @ newline @
             strip (the (specialist_prompt sk)))
          (filter (\<lambda>sk. given_text (specialist_prompt sk)) matched)))"

definition get_researcher_context_hints :: "skill list \<Rightarrow> string" where
  "get_researcher_context_hints matched =
     join_with (newline @ newline)
       (map (\<lambda>sk. strip (the (context_hint sk))) (filter (\<lambda>sk. given_text (context_hint sk)) matched))"

text \<open>\<open>get_focus_domains\<close>: the domains in the order they are first met.\<close>

definition add_domain :: "string list \<Rightarrow> string \<Rightarrow> string list" where
  "add_domain ds d = (if d \<in> set ds then ds else ds @ [d])"

definition get_focus_domains :: "skill list \<Rightarrow> string list" where
  "get_focus_domains matched = foldl add_domain [] (concat (map focus_domains matched))"

lemma add_domain_set [simp]: "set (add_domain ds d) = insert d (set ds)" "distinct ds \<Longrightarrow> distinct (add_domain ds d)"
  by (auto simp: add_domain_def)

lemma focus_domains_fold: "set (foldl add_domain ds xs) = set ds \<union> set xs \<and> (distinct ds \<longrightarrow> distinct (foldl add_domain ds xs))"
  by (induction xs arbitrary: ds) auto

section \<open>Properties\<close>

lemma sort_key_map: "sort_key f (map g xs) = map g (sort_key (\<lambda>x. f (g x)) xs)"
proof -
  have "insort_key f (g x) (map g ys) = map g (insort_key (\<lambda>x. f (g x)) x ys)" for x ys
    by (induction ys) auto
  then show ?thesis by (induction xs) simp_all
qed

text \<open>
  : when some keyword of some skill occurs in the scope as whole words,
  the detected skills are exactly the skills with a match, most matches first, and in the order
  of the skill files where the number of matches is the same; when none occurs it is the general
  ITGC skill, if there is one. A keyword matches exactly when it occurs, up to case, between
  characters that are not part of a word.
\<close>

lemma skills_ranked_by_matches:
  fixes skills scope frameworks
  defines "txt \<equiv> if frameworks \<noteq> [] then scope @ '' '' @ join_with '' '' frameworks else scope"
    and "found \<equiv> detect_skills_from_scope skills scope frameworks"
  shows "(if \<exists>sk\<in>set skills. skill_score txt sk > 0
      then sorted (map (\<lambda>sk. - int (skill_score txt sk)) found) \<and>
        (\<forall>n. filter (\<lambda>sk. skill_score txt sk = n) found = filter (\<lambda>sk. skill_score txt sk = n \<and> n > 0) skills)
      else set found \<subseteq> {sk \<in> set skills. skill_id sk = Some ''itgc_general''} \<and> length found \<le> 1) \<and>
    (keyword_matches kw scope \<longleftrightarrow> strip kw \<noteq> [] \<and>
       (\<exists>a b. lower scope = a @ lower (strip kw) @ b \<and> \<not> word_last False a \<and> \<not> word_next b))"
proof -
  let ?neg = "\<lambda>sk. - int (skill_score txt sk)" and ?pos = "filter (\<lambda>sk. skill_score txt sk > 0) skills"
  have scoped: "(if frameworks \<noteq> [] then scope @ '' '' @ join_with '' '' frameworks else scope) = txt"
    by (simp add: txt_def)
  have matched: "map snd (sort_key (\<lambda>(score, sk). - int score)
      (filter (\<lambda>(score, sk). score > 0) (map (\<lambda>sk. (skill_score txt sk, sk)) skills))) = sort_key ?neg ?pos"
    by (simp add: filter_map comp_def sort_key_map)
  have word: "keyword_matches kw scope \<longleftrightarrow> strip kw \<noteq> [] \<and>
       (\<exists>a b. lower scope = a @ lower (strip kw) @ b \<and> \<not> word_last False a \<and> \<not> word_next b)"
    by (simp add: keyword_matches_def Let_def search_word_iff)
  show ?thesis
  proof (cases "\<exists>sk\<in>set skills. skill_score txt sk > 0")
    case True
    then have "?pos \<noteq> []" by (auto simp: filter_empty_conv)
    then have "sort_key ?neg ?pos \<noteq> []" by (metis set_empty set_sort)
    then have found: "found = sort_key ?neg ?pos"
      unfolding found_def detect_skills_from_scope_def Let_def scoped matched by simp
    have "filter (\<lambda>sk. skill_score txt sk = n) found = filter (\<lambda>sk. skill_score txt sk = n \<and> n > 0) skills" for n
    proof -
      have "filter (\<lambda>sk. ?neg sk = - int n) found = filter (\<lambda>sk. ?neg sk = - int n) ?pos"
        unfolding found by (rule sort_key_stable)
      moreover have "filter (\<lambda>sk. 0 < skill_score txt sk \<and> skill_score txt sk = n) skills =
          filter (\<lambda>sk. skill_score txt sk = n \<and> 0 < n) skills"
        by (rule filter_cong) auto
      ultimately show ?thesis by simp
    qed
    moreover have "sorted (map ?neg found)" unfolding found by (rule sorted_sort_key)
    ultimately show ?thesis using True word by simp
  next
    case False
    then have "?pos = []" by (auto simp: filter_empty_conv)
    then have "found = (case find (\<lambda>sk. skill_id sk = Some ''itgc_general'') skills of None \<Rightarrow> [] | Some sk \<Rightarrow> [sk])"
      unfolding found_def detect_skills_from_scope_def Let_def scoped matched by simp
    then show ?thesis using False word by (auto split: option.splits dest: find_SomeD)
  qed
qed

end
