(* ===== verification/Prompts.thy ===== *)
theory Prompts
  imports Skills Schema Json
begin

text \<open>
  The texts the flow hands to its crews: the pure functions at the top of
  \<open>src/swarm/audit_flow.py\<close>. Strings are UTF-8 bytes; an enum member prints as its value.
\<close>

section \<open>Verdicts and required inputs\<close>

definition em_dash :: string where
  "em_dash = [CHR 0xE2, CHR 0x80, CHR 0x94]"

definition QA_UNPARSEABLE_REASON :: string where
  "QA_UNPARSEABLE_REASON = ''QA output could not be parsed into the QA schema '' @ em_dash @
     '' treated as a rejection (QA gates fail closed).''"

definition QA_NO_REASON :: string where
  "QA_NO_REASON = ''QA rejected the artifact without giving a reason.''"

text \<open>\<open>_qa_rejection\<close>: None is an output that could not be parsed into the QA schema.\<close>

definition qa_rejection :: "qa_pushback option \<Rightarrow> string option" where
  "qa_rejection qa_output =
     (case qa_output of
        None \<Rightarrow> Some QA_UNPARSEABLE_REASON
      | Some qa \<Rightarrow>
          if qa_approved qa then None
          else case rejection_reason qa of
            None \<Rightarrow> Some QA_NO_REASON
          | Some r \<Rightarrow> Some (if strip r \<noteq> [] then r else QA_NO_REASON))"

definition require_text :: "string \<Rightarrow> string option" where
  "require_text value = (if strip value = [] then None else Some (strip value))"

section \<open>Summaries of the artifacts\<close>

definition control_attributes :: "control \<Rightarrow> string" where
  "control_attributes c =
     join_with ''; ''
       ((case key_control c of None \<Rightarrow> [] | Some k \<Rightarrow> [if k then ''key'' else ''non-key'']) @
        (case nature c of None \<Rightarrow> [] | Some n \<Rightarrow> [nature_value n]) @
        (case c_control_type c of None \<Rightarrow> [] | Some t \<Rightarrow> [ctype_value t]) @
        (case frequency c of None \<Rightarrow> [] | Some f \<Rightarrow> [frequency_value f]) @
        (if given_text (control_owner c) then [''owner '' @ the (control_owner c)] else []))"

definition rating_or_unknown :: "risk_rating option \<Rightarrow> string" where
  "rating_or_unknown r = (case r of None \<Rightarrow> ''?'' | Some x \<Rightarrow> rating_value x)"

definition risk_line :: "risk \<Rightarrow> string" where
  "risk_line r =
     r_risk_id r @ '': '' @ r_description r @
     (if r_likelihood r \<noteq> None \<or> impact r \<noteq> None
      then '' (likelihood '' @ rating_or_unknown (r_likelihood r) @ '', impact '' @ rating_or_unknown (impact r) @ '')''
      else []) @
     '' ['' @ join_with '', '' (regulatory_mapping r) @ '']''"

definition control_line :: "control \<Rightarrow> string" where
  "control_line c =
     (let attrs = control_attributes c in
      ''  - '' @ c_control_id c @ (if attrs \<noteq> [] then '' ['' @ attrs @ '']'' else []) @ '': '' @ c_description c)"

definition or_text :: "string \<Rightarrow> string \<Rightarrow> string" where
  "or_text s default_text = (if s = [] then default_text else s)"

definition racm_summary :: "racm option \<Rightarrow> string" where
  "racm_summary rm =
     (case rm of None \<Rightarrow> ''(no RACM available)''
      | Some m \<Rightarrow> or_text (join_with newline (concat (map (\<lambda>r. risk_line r # map control_line (controls r)) (risks m))))
          ''(RACM contains no risks)'')"

fun numbered_from :: "nat \<Rightarrow> test_step list \<Rightarrow> string list" where
  "numbered_from i [] = []"
| "numbered_from i (s # ss) =
     (nat_str i @ ''. '' @ step_description s @ '' -> expect: '' @ expected_result s) # numbered_from (i + 1) ss"

definition numbered_steps :: "test_step list \<Rightarrow> string" where
  "numbered_steps ss = join_with '' '' (numbered_from 1 ss)"

definition design_parts :: "control_testing \<Rightarrow> string list" where
  "design_parts tp =
     (case t_population tp of None \<Rightarrow> []
      | Some p \<Rightarrow> [''population: '' @ p_source p @ '' (completeness: '' @ completeness_procedure p @ '')'']) @
     (if sample_size tp \<noteq> None \<or> t_sampling_method tp \<noteq> None
      then [''sample: '' @ (case sample_size tp of None \<Rightarrow> ''?'' | Some n \<Rightarrow> nat_str n) @
            (case t_sampling_method tp of None \<Rightarrow> [] | Some m \<Rightarrow> '', '' @ sampling_value m)]
      else []) @
     (if given_text (period_of_reliance tp) then [''period: '' @ the (period_of_reliance tp)] else [])"

definition control_plan :: "risk \<Rightarrow> control \<Rightarrow> string list" where
  "control_plan r c =
     (let tp = testing_procedures c;
          extra = (if assertions c \<noteq> [] then [''objectives: '' @ join_with '', '' (assertions c)] else []) @
                  (if ipe c \<noteq> [] then [''IPE: '' @ join_with '', '' (ipe c)] else []);
          detail = join_with ''; '' (filter (\<lambda>x. x \<noteq> []) (control_attributes c # extra));
          toe = or_text (numbered_steps (test_of_effectiveness tp)) ''(none)'' in
      [''Control '' @ c_control_id c @ '' (risk '' @ r_risk_id r @ ''): '' @ c_description c] @
      (if detail \<noteq> [] then [''  Attributes: '' @ detail] else []) @
      [''  ToD: '' @ or_text (numbered_steps (test_of_design tp)) ''(none)'',
       ''  ToE: '' @ toe @ (if design_parts tp \<noteq> [] then '' | '' @ join_with ''; '' (design_parts tp) else [])] @
      (case substantive_testing tp of None \<Rightarrow> []
       | Some ss \<Rightarrow> if ss = [] then [] else [''  Substantive: '' @ numbered_steps ss]))"

definition racm_test_plan :: "racm option \<Rightarrow> string" where
  "racm_test_plan rm =
     (case rm of None \<Rightarrow> ''(no RACM available)''
      | Some m \<Rightarrow> or_text (join_with newline (concat (map (\<lambda>r. concat (map (control_plan r) (controls r))) (risks m))))
          ''(RACM contains no controls)'')"

definition finding_line :: "finding \<Rightarrow> string" where
  "finding_line f =
     f_control_id f @ '' | '' @ (case f_result f of None \<Rightarrow> ''None'' | Some r \<Rightarrow> result_value r) @ '' (ToD '' @
     tod_value (tod_conclusion f) @ ''; ToE '' @ toe_value (toe_conclusion f) @ '') | '' @
     or_text (vault_id_reference f) ''(no evidence)''"

definition findings_index :: "working_papers option \<Rightarrow> string" where
  "findings_index papers =
     (case papers of None \<Rightarrow> ''(no findings)''
      | Some p \<Rightarrow> if findings p = [] then ''(no findings)'' else join_with newline (map finding_line (findings p)))"

section \<open>The deficiency scale of a scope\<close>

text \<open>The alternatives of \<open>_ICFR_SCOPE\<close>; each starts and ends with a word character.\<close>

definition ICFR_SCOPE :: "string list" where
  "ICFR_SCOPE = [''sox'', ''sarbanes'', ''icfr'', ''internal control over financial reporting'',
     ''financial reporting'', ''financial statements'', ''financial statement'', ''section 404'']"

definition deficiency_scale_for_scope :: "string \<Rightarrow> string \<Rightarrow> string list \<Rightarrow> deficiency_scale" where
  "deficiency_scale_for_scope theme business_context frameworks =
     (let scope = lower (join_with '' '' (theme # business_context # frameworks)) in
      if \<exists>t\<in>set ICFR_SCOPE. search_word False t scope then ICFR else RISK_RATING)"

definition deficiency_scale_guidance :: "deficiency_scale \<Rightarrow> string" where
  "deficiency_scale_guidance scale =
     (if scale = ICFR then
        ''deficiency_scale = '' @ [CHR 0x27] @ scale_value scale @ [CHR 0x27] @
        '' (the scope is ICFR / SOX). Classify each deficiency as '' @ [CHR 0x27] @ ''Control Deficiency'' @ [CHR 0x27] @
        '', '' @ [CHR 0x27] @ ''Significant Deficiency'' @ [CHR 0x27] @ '' or '' @ [CHR 0x27] @ ''Material Weakness'' @ [CHR 0x27] @
        '' (or '' @ [CHR 0x27] @ ''Not a deficiency'' @ [CHR 0x27] @ ''). A Material Weakness needs a reasonable possibility (likelihood Medium/High) that a material misstatement (magnitude High) is not prevented or detected on a timely basis; a Significant Deficiency is less severe but merits the attention of those charged with governance; otherwise it is a Control Deficiency.''
      else
        ''deficiency_scale = '' @ [CHR 0x27] @ scale_value scale @ [CHR 0x27] @
        '' (the scope is not ICFR). Rate each deficiency '' @ [CHR 0x27] @ ''Low'' @ [CHR 0x27] @ '', '' @ [CHR 0x27] @ ''Medium'' @ [CHR 0x27] @
        '' or '' @ [CHR 0x27] @ ''High'' @ [CHR 0x27] @ '' from likelihood x magnitude (or '' @ [CHR 0x27] @ ''Not a deficiency'' @ [CHR 0x27] @
        ''). Do NOT use SOX terms (significant deficiency, material weakness) for this scope.'')"

text \<open>The ICFR scale, with its SOX terms, is used exactly for an engagement whose
  theme, business context or frameworks hold one of the ICFR scope words as a whole word, upper
  and lower case apart; every other engagement uses the risk ratings.\<close>
lemma deficiency_scale_iff:
  "deficiency_scale_for_scope theme ctx fws = ICFR \<longleftrightarrow>
     (\<exists>t\<in>set ICFR_SCOPE. \<exists>a b. lower (join_with '' '' (theme # ctx # fws)) = a @ t @ b \<and>
        \<not> word_last False a \<and> \<not> word_next b)"
  by (simp add: deficiency_scale_for_scope_def search_word_iff)

end
