(* ===== verification/ModelRouting.thy ===== *)
theory ModelRouting
  imports Complex_Main Schema
begin

text \<open>
  Which model may judge which: \<open>src/swarm/model_routing.py\<close>. A model is the string
  \<open>provider/model\<close>, its family is read off it. Costs and the temperature of a catalogue entry are
  display data and left out; weights and scores are rational numbers (the code's floats are
  compared against thresholds with a margin of \<open>1e-6\<close>).
\<close>

section \<open>Families and the catalogue\<close>

datatype model_family = ANTHROPIC | GOOGLE | OPENAI | META | DEEPSEEK | QWEN | MISTRAL | OTHER

fun family_value :: "model_family \<Rightarrow> string" where
  "family_value ANTHROPIC = ''anthropic''"
| "family_value GOOGLE = ''google''"
| "family_value OPENAI = ''openai''"
| "family_value META = ''meta''"
| "family_value DEEPSEEK = ''deepseek''"
| "family_value QWEN = ''qwen''"
| "family_value MISTRAL = ''mistral''"
| "family_value OTHER = ''other''"

datatype effort = EFFORT_LOW | EFFORT_MEDIUM | EFFORT_HIGH

record model_spec =
  model_id :: string
  family :: model_family
  spec_effort :: effort
  thinking_budget :: nat

definition contains_any :: "string list \<Rightarrow> string \<Rightarrow> bool" where
  "contains_any ks m \<longleftrightarrow> (\<exists>k\<in>set ks. sublist k m)"

definition detect_model_family :: "string \<Rightarrow> model_family" where
  "detect_model_family model =
     (let m = lower (strip model) in
      if contains_any [''claude'', ''anthropic''] m then ANTHROPIC
      else if contains_any [''gemini'', ''google'', ''vertex''] m then GOOGLE
      else if contains_any [''gpt-'', ''openai'', ''o1'', ''o3'', ''o4''] m then OPENAI
      else if contains_any [''llama'', ''meta''] m then META
      else if contains_any [''deepseek''] m then DEEPSEEK
      else if contains_any [''qwen''] m then QWEN
      else if contains_any [''mistral'', ''mixtral''] m then MISTRAL
      else OTHER)"

text \<open>\<open>DEFAULT_FAMILY_MODELS\<close>, in the order of its keys; a family without an entry is missing.\<close>

definition catalogue_families :: "model_family list" where
  "catalogue_families = [GOOGLE, OPENAI, ANTHROPIC, META]"

definition spec :: "string \<Rightarrow> model_family \<Rightarrow> effort \<Rightarrow> nat \<Rightarrow> model_spec" where
  "spec i f e b = \<lparr>model_id = i, family = f, spec_effort = e, thinking_budget = b\<rparr>"

fun default_model :: "model_family \<Rightarrow> effort \<Rightarrow> model_spec option" where
  "default_model GOOGLE EFFORT_LOW = Some (spec ''gemini/gemini-2.5-flash'' GOOGLE EFFORT_LOW 0)"
| "default_model GOOGLE EFFORT_MEDIUM = Some (spec ''gemini/gemini-2.5-flash'' GOOGLE EFFORT_MEDIUM 2048)"
| "default_model GOOGLE EFFORT_HIGH = Some (spec ''gemini/gemini-2.5-pro'' GOOGLE EFFORT_HIGH 8192)"
| "default_model OPENAI EFFORT_LOW = Some (spec ''openai/gpt-4o-mini'' OPENAI EFFORT_LOW 0)"
| "default_model OPENAI EFFORT_MEDIUM = Some (spec ''openai/gpt-4o'' OPENAI EFFORT_MEDIUM 2048)"
| "default_model OPENAI EFFORT_HIGH = Some (spec ''openai/o3-mini'' OPENAI EFFORT_HIGH 8192)"
| "default_model ANTHROPIC EFFORT_LOW = Some (spec ''anthropic/claude-3-5-haiku-latest'' ANTHROPIC EFFORT_LOW 0)"
| "default_model ANTHROPIC EFFORT_MEDIUM = Some (spec ''anthropic/claude-3-7-sonnet-latest'' ANTHROPIC EFFORT_MEDIUM 2048)"
| "default_model ANTHROPIC EFFORT_HIGH = Some (spec ''anthropic/claude-3-7-sonnet-latest'' ANTHROPIC EFFORT_HIGH 8192)"
| "default_model META e = Some (spec ''groq/llama-3.3-70b-versatile'' META e 0)"
| "default_model _ _ = None"

section \<open>Choosing a critic and a jury\<close>

datatype routing_error = SameFamilyBiasError | EmptyJury

definition assert_disjoint_family :: "string \<Rightarrow> string \<Rightarrow> routing_error + unit" where
  "assert_disjoint_family drafter critic =
     (let d = detect_model_family drafter in
      requireE (\<not> (d \<noteq> OTHER \<and> d = detect_model_family critic)) SameFamilyBiasError)"

text \<open>The loop over the preferred families.\<close>

fun pick_critic ::
  "string \<Rightarrow> effort \<Rightarrow> model_family list \<Rightarrow> routing_error + model_spec option" where
  "pick_critic drafter e [] = Inr None"
| "pick_critic drafter e (f # fs) =
     (case (if f \<noteq> detect_model_family drafter then default_model f e else None) of
        Some s \<Rightarrow> bindE (assert_disjoint_family drafter (model_id s)) (\<lambda>_. Inr (Some s))
      | None \<Rightarrow> pick_critic drafter e fs)"

definition select_cross_family_critic ::
  "string \<Rightarrow> effort \<Rightarrow> model_family list \<Rightarrow> routing_error + model_spec" where
  "select_cross_family_critic drafter e available =
     bindE (pick_critic drafter e (if available \<noteq> [] then available else [ANTHROPIC, GOOGLE, OPENAI, META]))
       (\<lambda>found. case found of
          Some s \<Rightarrow> Inr s
        | None \<Rightarrow>
            (case find (\<lambda>f. f \<noteq> detect_model_family drafter) catalogue_families of
               Some f \<Rightarrow> of_option SameFamilyBiasError (default_model f e)
             | None \<Rightarrow> Inl SameFamilyBiasError))"

definition select_effort_for_complexity :: "rat \<Rightarrow> bool \<Rightarrow> effort" where
  "select_effort_for_complexity score is_retry =
     (if is_retry \<or> score \<ge> 7 / 10 then EFFORT_HIGH else if score \<ge> 45 / 100 then EFFORT_MEDIUM else EFFORT_LOW)"

text \<open>The loop stops after \<open>panel_size\<close> judges, but only after it has added one.\<close>

fun jury_specs :: "model_family \<Rightarrow> effort \<Rightarrow> int \<Rightarrow> nat \<Rightarrow> model_family list \<Rightarrow> model_spec list" where
  "jury_specs d e panel n [] = []"
| "jury_specs d e panel n (f # fs) =
     (if f = d then jury_specs d e panel n fs
      else case default_model f e of
        None \<Rightarrow> []
      | Some s \<Rightarrow> s # (if int (n + 1) \<ge> panel then [] else jury_specs d e panel (n + 1) fs))"

definition build_poll_jury_specs :: "string \<Rightarrow> effort \<Rightarrow> int \<Rightarrow> model_spec list" where
  "build_poll_jury_specs drafter e panel =
     jury_specs (detect_model_family drafter) e panel 0 [GOOGLE, OPENAI, ANTHROPIC, META]"

section \<open>The verdict of a jury\<close>

record jury_vote =
  jv_model :: string
  jv_family :: model_family
  jv_approved :: bool
  jv_reason :: "string option"
  jv_weight :: rat

definition reason_given :: "jury_vote \<Rightarrow> bool" where
  "reason_given v \<longleftrightarrow> \<not> jv_approved v \<and> (case jv_reason v of None \<Rightarrow> False | Some r \<Rightarrow> strip r \<noteq> [])"

definition approval_score :: "jury_vote list \<Rightarrow> rat" where
  "approval_score votes =
     (let total = sum_list (map jv_weight votes);
          approved = sum_list (map jv_weight (filter jv_approved votes))
      in approved / (if total = 0 then 1 else total))"

definition poll_threshold :: "bool \<Rightarrow> rat" where
  "poll_threshold unanimity = (if unanimity then 999 / 1000 else 2 / 3 - 1 / 1000000)"

text \<open>\<open>no_reason\<close> stands for the text with the two formatted numbers, used when no judge gave a reason.\<close>

definition aggregate_poll_jury :: "string \<Rightarrow> jury_vote list \<Rightarrow> bool \<Rightarrow> routing_error + qa_pushback" where
  "aggregate_poll_jury no_reason votes unanimity =
     (if votes = [] then Inl EmptyJury
      else if \<not> distinct (filter (\<lambda>f. f \<noteq> OTHER) (map jv_family votes)) then Inl SameFamilyBiasError
      else if approval_score votes \<ge> poll_threshold unanimity then Inr \<lparr>qa_approved = True, rejection_reason = None\<rparr>
      else
        let reasons = map (\<lambda>v. ''['' @ family_value (jv_family v) @ '':'' @ jv_model v @ ''] '' @ strip (the (jv_reason v)))
              (filter reason_given votes)
        in Inr \<lparr>qa_approved = False,
             rejection_reason = Some (if reasons \<noteq> [] then join_with ''; '' reasons else no_reason)\<rparr>)"

section \<open>The catalogue is what it says\<close>

lemma default_model_family: "default_model f e = Some s \<Longrightarrow> family s = f \<and> spec_effort s = e"
  by (cases "(f, e)" rule: default_model.cases) (auto simp: spec_def)

lemma default_model_None: "default_model f e = None \<longleftrightarrow> f \<notin> set catalogue_families"
  by (cases "(f, e)" rule: default_model.cases) (simp_all add: catalogue_families_def)

text \<open>Each id of the catalogue is read back as its family.\<close>

lemma catalogue_text:
  "lower (strip ''gemini/gemini-2.5-flash'') = ''gemini/gemini-2.5-flash''"
  "lower (strip ''gemini/gemini-2.5-pro'') = ''gemini/gemini-2.5-pro''"
  "lower (strip ''openai/gpt-4o-mini'') = ''openai/gpt-4o-mini''"
  "lower (strip ''openai/gpt-4o'') = ''openai/gpt-4o''"
  "lower (strip ''openai/o3-mini'') = ''openai/o3-mini''"
  "lower (strip ''anthropic/claude-3-5-haiku-latest'') = ''anthropic/claude-3-5-haiku-latest''"
  "lower (strip ''anthropic/claude-3-7-sonnet-latest'') = ''anthropic/claude-3-7-sonnet-latest''"
  "lower (strip ''groq/llama-3.3-70b-versatile'') = ''groq/llama-3.3-70b-versatile''"
  by (simp_all add: strip_def lstrip_def is_space_def lower_char_def)

lemmas contains_eval = contains_any_def sublist_Cons_right

lemma catalogue_detected_ids:
  "detect_model_family ''gemini/gemini-2.5-flash'' = GOOGLE"
  "detect_model_family ''gemini/gemini-2.5-pro'' = GOOGLE"
  "detect_model_family ''openai/gpt-4o-mini'' = OPENAI"
  "detect_model_family ''openai/gpt-4o'' = OPENAI"
  "detect_model_family ''openai/o3-mini'' = OPENAI"
  "detect_model_family ''anthropic/claude-3-5-haiku-latest'' = ANTHROPIC"
  "detect_model_family ''anthropic/claude-3-7-sonnet-latest'' = ANTHROPIC"
  "detect_model_family ''groq/llama-3.3-70b-versatile'' = META"
  by (simp_all add: detect_model_family_def Let_def catalogue_text contains_eval)

lemma catalogue_detected: "default_model f e = Some s \<Longrightarrow> detect_model_family (model_id s) = f"
  by (cases "(f, e)" rule: default_model.cases) (auto simp: spec_def catalogue_detected_ids)

lemma pick_critic_ok:
  "\<exists>found. pick_critic d e fs = Inr found \<and>
     (case found of None \<Rightarrow> True | Some s \<Rightarrow> \<exists>f. f \<noteq> detect_model_family d \<and> default_model f e = Some s)"
proof (induction fs)
  case (Cons f fs)
  show ?case
  proof (cases "if f \<noteq> detect_model_family d then default_model f e else None")
    case None
    then show ?thesis using Cons by simp
  next
    case (Some s)
    then have s: "f \<noteq> detect_model_family d" "default_model f e = Some s" by (auto split: if_splits)
    then have "assert_disjoint_family d (model_id s) = Inr ()"
      using catalogue_detected [OF s(2)] by (auto simp: assert_disjoint_family_def Let_def)
    with Some s show ?thesis by auto
  qed
qed simp

lemma jury_specs_families:
  assumes "set fs \<subseteq> set catalogue_families"
  shows "\<exists>k. map family (jury_specs d e panel n fs) = take k (filter (\<lambda>f. f \<noteq> d) fs) \<and>
     k = (if int n + 1 \<ge> panel then 1 else nat (panel - int n)) \<and>
     (\<forall>s\<in>set (jury_specs d e panel n fs). default_model (family s) e = Some s)"
  using assms
proof (induction fs arbitrary: n)
  case (Cons f fs)
  show ?case
  proof (cases "f = d")
    case True
    then show ?thesis using Cons by simp
  next
    case False
    obtain s where s: "default_model f e = Some s"
      using default_model_None [of f e] Cons.prems by (cases "default_model f e") auto
    show ?thesis
    proof (cases "int n + 1 \<ge> panel")
      case True
      then show ?thesis using False s default_model_family [OF s] by (simp add: add.commute)
    next
      case later: False
      have "nat (panel - int n) = Suc (nat (panel - int (Suc n)))" using later by simp
      moreover have "(if int (Suc n) + 1 \<ge> panel then 1 else nat (panel - int (Suc n))) = nat (panel - int (Suc n))"
        using later by auto
      ultimately show ?thesis
        using Cons.IH [of "Suc n"] Cons.prems False s later default_model_family [OF s] by (auto simp: add.commute)
    qed
  qed
qed simp

lemma sum_ones: "\<forall>v\<in>set votes. jv_weight v = 1 \<Longrightarrow> sum_list (map jv_weight votes) = of_nat (length votes)"
  by (induction votes) simp_all

lemma approval_score_ones:
  assumes "\<forall>v\<in>set votes. jv_weight v = 1" "votes \<noteq> []"
  shows "approval_score votes = of_nat (length (filter jv_approved votes)) / of_nat (length votes)"
  using assms sum_ones [of votes] sum_ones [of "filter jv_approved votes"]
  by (simp add: approval_score_def Let_def)

lemma score_threshold:
  assumes n: "0 < n" "n < (1000 :: nat)" and a: "a \<le> n"
  shows "(of_nat a / of_nat n :: rat) \<ge> poll_threshold True \<longleftrightarrow> a = n"
    and "(of_nat a / of_nat n :: rat) \<ge> poll_threshold False \<longleftrightarrow> 2 * n \<le> 3 * a"
proof -
  have pos: "(0 :: rat) < of_nat n" using n by simp
  have "(of_nat a / of_nat n :: rat) \<ge> poll_threshold True \<longleftrightarrow> of_nat (999 * n) \<le> (of_nat (1000 * a) :: rat)"
    using pos by (simp add: poll_threshold_def field_simps)
  also have "\<dots> \<longleftrightarrow> 999 * n \<le> 1000 * a" by (rule of_nat_le_iff)
  also have "\<dots> \<longleftrightarrow> a = n" using n a by auto
  finally show "(of_nat a / of_nat n :: rat) \<ge> poll_threshold True \<longleftrightarrow> a = n" .
  have "(of_nat a / of_nat n :: rat) \<ge> poll_threshold False \<longleftrightarrow> of_nat (1999997 * n) \<le> (of_nat (3000000 * a) :: rat)"
    using pos by (simp add: poll_threshold_def field_simps)
  also have "\<dots> \<longleftrightarrow> 1999997 * n \<le> 3000000 * a" by (rule of_nat_le_iff)
  also have "\<dots> \<longleftrightarrow> 2 * n \<le> 3 * a" using n a by auto
  finally show "(of_nat a / of_nat n :: rat) \<ge> poll_threshold False \<longleftrightarrow> 2 * n \<le> 3 * a" .
qed

section \<open>Properties\<close>

text \<open>
  For every drafter, effort and list of available families a
  critic is found, and it is a catalogue model of a family that is not the drafter's.
\<close>

lemma critic_from_another_family:
  "\<exists>s. select_cross_family_critic drafter e available = Inr s \<and> default_model (family s) e = Some s \<and>
     family s = detect_model_family (model_id s) \<and> family s \<noteq> detect_model_family drafter"
proof -
  let ?fs = "if available \<noteq> [] then available else [ANTHROPIC, GOOGLE, OPENAI, META]"
  obtain found where found: "pick_critic drafter e ?fs = Inr found"
    "case found of None \<Rightarrow> True | Some s \<Rightarrow> \<exists>f. f \<noteq> detect_model_family drafter \<and> default_model f e = Some s"
    using pick_critic_ok by blast
  have result: ?thesis if f: "f \<noteq> detect_model_family drafter" "default_model f e = Some s"
      "select_cross_family_critic drafter e available = Inr s" for f s
    using f default_model_family [OF f(2)] catalogue_detected [OF f(2)] by auto
  show ?thesis
  proof (cases found)
    case None
    obtain f where f: "find (\<lambda>f. f \<noteq> detect_model_family drafter) catalogue_families = Some f"
      by (cases "detect_model_family drafter") (simp_all add: catalogue_families_def)
    then have "f \<noteq> detect_model_family drafter" "f \<in> set catalogue_families" by (auto dest: find_SomeD)
    moreover from this(2) obtain s where "default_model f e = Some s" using default_model_None [of f e] by blast
    ultimately have "select_cross_family_critic drafter e available = Inr s"
      using found None f by (simp add: select_cross_family_critic_def)
    then show ?thesis using result \<open>default_model f e = Some s\<close> \<open>f \<noteq> detect_model_family drafter\<close> by blast
  next
    case (Some s)
    then show ?thesis using result found by (auto simp: select_cross_family_critic_def)
  qed
qed

text \<open>
  : the judges of a panel are of pairwise different families, none of
  them the drafter's, and there are as many as asked for: at least one, and no more than the
  three or four families left.
\<close>

lemma jury_pairwise_disjoint:
  fixes drafter
  defines "others \<equiv> filter (\<lambda>f. f \<noteq> detect_model_family drafter) [GOOGLE, OPENAI, ANTHROPIC, META]"
  shows "map family (build_poll_jury_specs drafter e panel) = take (nat (max 1 panel)) others \<and>
     distinct (map (\<lambda>s. detect_model_family (model_id s)) (build_poll_jury_specs drafter e panel)) \<and>
     length (build_poll_jury_specs drafter e panel) = min (nat (max 1 panel)) (length others)"
proof -
  let ?specs = "build_poll_jury_specs drafter e panel"
  have sub: "set [GOOGLE, OPENAI, ANTHROPIC, META] \<subseteq> set catalogue_families" by (simp add: catalogue_families_def)
  from jury_specs_families [OF sub, of "detect_model_family drafter" e panel 0]
  obtain k where k: "map family ?specs = take k others" "k = (if 1 \<ge> panel then 1 else nat panel)"
    "\<forall>s\<in>set ?specs. default_model (family s) e = Some s"
    by (auto simp: build_poll_jury_specs_def others_def)
  then have families: "map family ?specs = take (nat (max 1 panel)) others" by (simp add: max_def split: if_splits)
  have "map (\<lambda>s. detect_model_family (model_id s)) ?specs = map family ?specs"
    using k(3) catalogue_detected by auto
  moreover have "distinct others" by (simp add: others_def)
  ultimately have "distinct (map (\<lambda>s. detect_model_family (model_id s)) ?specs)" by (simp add: families)
  moreover have "length ?specs = min (nat (max 1 panel)) (length others)"
    using families by (metis length_map length_take min.commute)
  ultimately show ?thesis using families by simp
qed

text \<open>
  A jury of fewer than a thousand equally weighted judges from different families
  approves, when unanimity is asked for, exactly if every judge does, and otherwise exactly if at least two
  thirds do; a rejection always carries a reason.
\<close>

lemma jury_verdict:
  assumes votes: "votes \<noteq> []" "length votes < 1000" "\<forall>v\<in>set votes. jv_weight v = 1"
    and families: "distinct (filter (\<lambda>f. f \<noteq> OTHER) (map jv_family votes))"
  shows "\<exists>qa. aggregate_poll_jury no_reason votes unanimity = Inr qa \<and>
     (qa_approved qa \<longleftrightarrow> (if unanimity then \<forall>v\<in>set votes. jv_approved v
        else 2 * length votes \<le> 3 * length (filter jv_approved votes))) \<and>
     (rejection_reason qa = None \<longleftrightarrow> qa_approved qa)"
proof -
  let ?a = "length (filter jv_approved votes)" and ?n = "length votes"
  have n: "0 < ?n" "?n < 1000" "?a \<le> ?n" using votes by simp_all
  have all: "?a = ?n \<longleftrightarrow> (\<forall>v\<in>set votes. jv_approved v)"
    by (metis filter_id_conv filter_True length_filter_less less_irrefl)
  have "approval_score votes \<ge> poll_threshold unanimity \<longleftrightarrow>
      (if unanimity then \<forall>v\<in>set votes. jv_approved v else 2 * ?n \<le> 3 * ?a)"
    using score_threshold [OF n] all approval_score_ones [OF votes(3,1)] by (cases unanimity) simp_all
  then show ?thesis using votes(1) families by (auto simp: aggregate_poll_jury_def Let_def)
qed

lemma jury_verdict_witness:
  "\<exists>qa. aggregate_poll_jury ''r'' [\<lparr>jv_model = ''a'', jv_family = GOOGLE, jv_approved = True, jv_reason = None, jv_weight = 1\<rparr>,
       \<lparr>jv_model = ''b'', jv_family = OPENAI, jv_approved = True, jv_reason = None, jv_weight = 1\<rparr>,
       \<lparr>jv_model = ''c'', jv_family = META, jv_approved = False, jv_reason = None, jv_weight = 1\<rparr>] False = Inr qa \<and> qa_approved qa"
  using jury_verdict [of "[\<lparr>jv_model = ''a'', jv_family = GOOGLE, jv_approved = True, jv_reason = None, jv_weight = 1\<rparr>,
       \<lparr>jv_model = ''b'', jv_family = OPENAI, jv_approved = True, jv_reason = None, jv_weight = 1\<rparr>,
       \<lparr>jv_model = ''c'', jv_family = META, jv_approved = False, jv_reason = None, jv_weight = 1\<rparr>]" "''r''" False] by auto

end
