(* ===== verification/Flow.thy ===== *)
theory Flow
  imports View Evidence Prompts ModelRouting
begin

text \<open>
  The orchestration of an audit: \<open>AuditFlow\<close> of \<open>src/swarm/audit_flow.py\<close> over \<open>AuditState\<close> of
  \<open>src/swarm/state/schema.py\<close>. One record holds the persisted state, the machine's status and
  the session id. Clock, fresh ids, the vault and the outputs of the crews are arguments of the
  operations; a crew output is what \<open>CrewResultAdapter\<close> hands on, or the exception it raised.
  The linters are an argument too (\<open>lint\<close>), as is what \<open>llm_factory\<close> says about the configured models.
  A malformed \<open>VAULT_ENCRYPTION_KEY\<close> is not modelled here: \<open>key\<close> is the trail key that was derived.
  Names that the machine uses as well carry the prefix \<open>flow_\<close>.
\<close>

section \<open>State\<close>

record generation_run =
  run_id :: string
  run_phase :: phase
  run_provider :: string
  run_model :: string
  run_qa_provider :: string
  run_qa_model :: string
  prompt_fp :: string
  started_at :: string
  ended_at :: "string option"
  run_attempts :: nat
  demo_mode :: bool
  outcome :: string
  drafter_family :: string
  qa_family :: string
  cross_family_verified :: bool
  linter_passed :: bool
  linter_violations :: "string list"
  cascade_tier :: string

record audit_flow =
  theme :: string
  business_context :: string
  frameworks :: "string list"
  racm_plan :: "racm option"
  papers :: "working_papers option"
  report :: "final_report option"
  dossier :: string
  status_text :: string
  qa_reason :: "string option"
  active_skill_ids :: "string list"
  prepared_by :: string
  approval_trail :: trail
  generation_runs :: "generation_run list"
  review_decisions :: "review_decision list"
  decisions_required :: bool
  machine :: audit_status
  skill_context :: "skill list"
  session_id :: "string option"

text \<open>What an operation reads from its environment.\<close>

record flow_env =
  crypto_of :: crypto
  trail_key :: "string option"
  fernet_of :: fernet
  vault_env :: "string option"
  now :: string
  fresh_id :: string
  vault_now :: vault
  all_skills :: "skill list"

datatype flow_error =
    Invalid_transition invalid_transition
  | Value_error string
  | Segregation sod_violation
  | Unverified_evidence "string list"
  | Artifact_missing phase
  | Missing_decisions "missing_decision list"
  | Decision_refused decision_error
  | Runtime_error audit_status
  | Same_family
  | Python_error raised

fun flow_raise :: "('a \<Rightarrow> flow_error) \<Rightarrow> 'a + 'b \<Rightarrow> flow_error + 'b" where
  "flow_raise f (Inl e) = Inl (f e)"
| "flow_raise f (Inr x) = Inr x"

lemma flow_raise_Inr [result_simps]: "flow_raise f m = Inr x \<longleftrightarrow> m = Inr x"
  by (cases m) simp_all

lemma flow_raise_Inl [result_simps]: "flow_raise f m = Inl x \<longleftrightarrow> (\<exists>e. m = Inl e \<and> x = f e)"
  by (cases m) auto

fun phase_label :: "phase \<Rightarrow> string" where
  "phase_label P1 = ''Planning''"
| "phase_label P2 = ''Fieldwork''"
| "phase_label P3 = ''Reporting''"

fun artifact_field :: "phase \<Rightarrow> string" where
  "artifact_field P1 = ''racm_plan''"
| "artifact_field P2 = ''working_papers''"
| "artifact_field P3 = ''final_report''"

text \<open>\<open>getattr(self.state, _ARTIFACT_FIELDS[phase])\<close>, as the JSON value that is digested.\<close>

fun artifact_of :: "audit_flow \<Rightarrow> phase \<Rightarrow> json option" where
  "artifact_of s P1 = map_option racm_json (racm_plan s)"
| "artifact_of s P2 = map_option working_papers_json (papers s)"
| "artifact_of s P3 = map_option final_report_json (report s)"

definition commit_status :: "audit_flow \<Rightarrow> audit_flow" where
  "commit_status s = s\<lparr>status_text := status_value (machine s)\<rparr>"

definition initial_flow :: "audit_status \<Rightarrow> audit_flow" where
  "initial_flow st = \<lparr>theme = [], business_context = [], frameworks = [], racm_plan = None, papers = None,
     report = None, dossier = [], status_text = status_value st, qa_reason = None, active_skill_ids = [],
     prepared_by = [], approval_trail = [], generation_runs = [], review_decisions = [],
     decisions_required = False, machine = st, skill_context = [], session_id = None\<rparr>"

text \<open>A machine operation followed by \<open>_commit_status\<close>.\<close>

definition move :: "machine_op \<Rightarrow> audit_flow \<Rightarrow> flow_error + audit_flow" where
  "move m s = bindE (flow_raise Invalid_transition (machine_step (machine s) m))
     (\<lambda>t. Inr (commit_status (s\<lparr>machine := t\<rparr>)))"

section \<open>Skills\<close>

definition detect_skills :: "flow_env \<Rightarrow> audit_flow \<Rightarrow> audit_flow" where
  "detect_skills env s =
     (let found = detect_skills_from_scope (all_skills env) (theme s @ '' '' @ business_context s) (frameworks s) in
      s\<lparr>skill_context := found, active_skill_ids := concat (map (\<lambda>sk. case skill_id sk of None \<Rightarrow> [] | Some i \<Rightarrow> [i]) found)\<rparr>)"

definition restore_skill_context :: "flow_env \<Rightarrow> audit_flow \<Rightarrow> audit_flow" where
  "restore_skill_context env s =
     (let resolved = List.map_filter (get_skill_by_id (all_skills env)) (active_skill_ids s) in
      if resolved \<noteq> [] then s\<lparr>skill_context := resolved\<rparr>
      else if theme s \<noteq> [] \<or> business_context s \<noteq> [] then detect_skills env s
      else s)"

definition ensure_skill_context :: "flow_env \<Rightarrow> audit_flow \<Rightarrow> audit_flow" where
  "ensure_skill_context env s = (if skill_context s = [] then restore_skill_context env s else s)"

section \<open>The trail\<close>

text \<open>\<open>_identity_source\<close>: the value itself when it is one of the enum's.\<close>

definition identity_source_of :: "string \<Rightarrow> flow_error + string" where
  "identity_source_of v = bindE (of_option (Value_error ''identity_source'') (by_value source_value all_source v))
     (\<lambda>src. Inr (source_value src))"

definition stamp_entry :: "string \<Rightarrow> string \<Rightarrow> string \<Rightarrow> string \<Rightarrow> string \<Rightarrow> dict \<Rightarrow> entry" where
  "stamp_entry time gate human action source extra =
     dict_update [(''gate'', gate), (''human'', human), (''timestamp'', time), (''action'', action),
       (''identity_source'', source)] extra"

definition stamp_trail ::
  "flow_env \<Rightarrow> string \<Rightarrow> string \<Rightarrow> string \<Rightarrow> string \<Rightarrow> dict \<Rightarrow> audit_flow \<Rightarrow> flow_error + audit_flow" where
  "stamp_trail env gate human action source extra s =
     bindE (identity_source_of source) (\<lambda>src.
     bindE (flow_raise Python_error
        (append_entry (crypto_of env) (trail_key env) (approval_trail s)
           (stamp_entry (now env) gate human action src extra)))
       (\<lambda>tr. Inr (s\<lparr>approval_trail := tr\<rparr>)))"

definition latest_run_for_phase :: "phase \<Rightarrow> audit_flow \<Rightarrow> generation_run option" where
  "latest_run_for_phase p s = find (\<lambda>r. run_phase r = p) (rev (generation_runs s))"

definition run_provenance_extra :: "phase \<Rightarrow> audit_flow \<Rightarrow> dict" where
  "run_provenance_extra p s =
     (case latest_run_for_phase p s of None \<Rightarrow> []
      | Some r \<Rightarrow> [(''generation_run_id'', run_id r), (''generation_prompt_fingerprint'', prompt_fp r),
          (''generation_model'', run_provider r @ ''/'' @ run_model r)])"

definition flow_artifacts :: "audit_flow \<Rightarrow> artifacts" where
  "flow_artifacts s = map (\<lambda>p. (artifact_field p, artifact_of s p)) [P1, P2, P3]"

definition flow_verify_trail :: "flow_env \<Rightarrow> (int \<times> string) option \<Rightarrow> audit_flow \<Rightarrow> raised + verification" where
  "flow_verify_trail env anchor s =
     verify_trail (crypto_of env) (trail_key env) (approval_trail s) anchor (Some (flow_artifacts s))
       (Some (review_decisions s))"

definition required_text_of :: "string \<Rightarrow> string \<Rightarrow> flow_error + string" where
  "required_text_of value what = of_option (Value_error what) (require_text value)"

definition record_preparer ::
  "flow_env \<Rightarrow> string \<Rightarrow> bool \<Rightarrow> string \<Rightarrow> audit_flow \<Rightarrow> flow_error + audit_flow" where
  "record_preparer env by required source s =
     bindE (required_text_of by ''prepared_by'') (\<lambda>name.
     bindE (identity_source_of source) (\<lambda>src.
     bindE (requireE (prepared_by s = []) (Value_error ''prepared_by is already set'')) (\<lambda>_.
       stamp_trail env ''Audit created'' name ''audit_created'' src
         (if required then [(''review_decisions_required'', ''true'')] else [])
         (s\<lparr>prepared_by := name, decisions_required := required\<rparr>))))"

section \<open>Reviewer decisions\<close>

definition created_entry :: "entry \<Rightarrow> bool" where
  "created_entry e \<longleftrightarrow> map_of e ''action'' = Some ''audit_created''"

definition review_decisions_required :: "audit_flow \<Rightarrow> bool" where
  "review_decisions_required s \<longleftrightarrow> decisions_required s \<or>
     (\<exists>e\<in>set (approval_trail s). created_entry e \<and> map_of e ''review_decisions_required'' = Some ''true'')"

definition flow_context :: "audit_flow \<Rightarrow> decision_context" where
  "flow_context s = \<lparr>x_racm = racm_plan s, x_papers = papers s, x_report = report s\<rparr>"

definition flow_view :: "flow_env \<Rightarrow> audit_flow \<Rightarrow> raised + effective_view" where
  "flow_view env s = view_of (crypto_of env) (flow_context s) (review_decisions s) (review_decisions_required s)"

text \<open>\<open>_preparers\<close>: the stored name and the ones the trail records, blanks left out.\<close>

definition flow_preparers :: "audit_flow \<Rightarrow> string list" where
  "flow_preparers s =
     (let names = filter (\<lambda>n. n \<noteq> [])
        (prepared_by s # map (\<lambda>e. dict_get_or e ''human'' []) (filter created_entry (approval_trail s)))
      in if names = [] then [[]] else names)"

definition decision_env_of :: "flow_env \<Rightarrow> audit_flow \<Rightarrow> decision_env" where
  "decision_env_of env s = \<lparr>env_context = flow_context s, env_status = machine s,
     env_preparers = flow_preparers s, env_now = now env, env_new_id = fresh_id env\<rparr>"

definition decision_extra :: "crypto \<Rightarrow> review_decision \<Rightarrow> dict" where
  "decision_extra cr d =
     [(''phase'', phase_digit (d_phase d)), (''decision_id'', decision_id d), (''decision_digest'', decision_digest cr d),
      (''decision_type'', dtype_value (d_decision_type d)),
      (''subject'', stype_value (d_subject_type d) @ '':'' @ subject_id d), (''artifact'', d_artifact d)] @
     (case supersedes d of None \<Rightarrow> [] | Some i \<Rightarrow> if i = [] then [] else [(''supersedes'', i)])"

definition record_decision :: "flow_env \<Rightarrow> decision_request \<Rightarrow> audit_flow \<Rightarrow> flow_error + audit_flow" where
  "record_decision env rq s =
     bindE (flow_raise Decision_refused (build_decision (crypto_of env) (decision_env_of env s) (review_decisions s) rq))
     (\<lambda>d. stamp_trail env (''Review decision ('' @ phase_label (d_phase d) @ '')'') (decided_by d) ''review_decision''
        (source_value (d_identity_source d)) (decision_extra (crypto_of env) d)
        (s\<lparr>review_decisions := review_decisions s @ [d]\<rparr>))"

definition phase_decisions :: "phase \<Rightarrow> audit_flow \<Rightarrow> review_decision list" where
  "phase_decisions p s = filter (\<lambda>d. d_phase d = p) (review_decisions s)"

definition check_review_decisions :: "flow_env \<Rightarrow> phase \<Rightarrow> audit_flow \<Rightarrow> flow_error + unit" where
  "check_review_decisions env gate s =
     (if gate = P1 \<or> \<not> review_decisions_required s then Inr ()
      else bindE (flow_raise Python_error (flow_view env s)) (\<lambda>v.
        let missing = (case map_of (ev_missing v) (phase_num gate) of None \<Rightarrow> [] | Some ms \<Rightarrow> ms) in
        requireE (missing = []) (Missing_decisions missing)))"

section \<open>Gate checks\<close>

definition check_sod :: "string \<Rightarrow> string \<Rightarrow> phase option \<Rightarrow> audit_flow \<Rightarrow> flow_error + unit" where
  "check_sod action human gate s =
     raise_if (Option.bind
       (find (\<lambda>p. sod_violation action human (Some p) (approval_trail s) gate \<noteq> None) (flow_preparers s))
       (\<lambda>p. map_option Segregation (sod_violation action human (Some p) (approval_trail s) gate)))"

definition require_transition :: "audit_status \<Rightarrow> audit_status \<Rightarrow> audit_flow \<Rightarrow> flow_error + unit" where
  "require_transition target source s =
     requireE (can (machine s) target [source]) (Invalid_transition (InvalidTransitionError (machine s) target))"

definition unverified_evidence :: "flow_env \<Rightarrow> audit_flow \<Rightarrow> raised + string list" where
  "unverified_evidence env s =
     (case papers s of None \<Rightarrow> Inr []
      | Some p \<Rightarrow> unverified_findings (crypto_of env) (fernet_of env) (vault_env env) (vault_now env) (findings p) (session_id s))"

text \<open>\<open>s.split(",")\<close>\<close>

fun split_commas :: "string \<Rightarrow> string \<Rightarrow> string list" where
  "split_commas acc [] = [rev acc]"
| "split_commas acc (c # cs) = (if c = CHR '','' then rev acc # split_commas [] cs else split_commas (c # acc) cs)"

definition accepted_unverified :: "flow_env \<Rightarrow> audit_flow \<Rightarrow> string list" where
  "accepted_unverified env s =
     (case papers s of None \<Rightarrow> []
      | Some p \<Rightarrow>
          (let dg = artifact_digest (crypto_of env) (working_papers_json p) in
           case find (\<lambda>e. map_of e ''action'' = Some ''qa_override'' \<and>
                  map_of e ''gate'' = Some (''QA Override ('' @ phase_label P2 @ '')'') \<and>
                  map_of e ''artifact_digest'' = Some dg) (rev (approval_trail s)) of
             None \<Rightarrow> []
           | Some e \<Rightarrow> filter (\<lambda>c. c \<noteq> []) (split_commas [] (dict_get_or e ''unverified_controls'' []))))"

definition check_evidence_for_gate_2 :: "flow_env \<Rightarrow> audit_flow \<Rightarrow> flow_error + unit" where
  "check_evidence_for_gate_2 env s =
     bindE (flow_raise Python_error (unverified_evidence env s)) (\<lambda>unverified.
       let allowed = (if unverified \<noteq> [] then accepted_unverified env s else []);
           rest = filter (\<lambda>c. c \<notin> set allowed) unverified in
       requireE (rest = []) (Unverified_evidence rest))"

definition sealed_extra :: "crypto \<Rightarrow> phase \<Rightarrow> audit_flow \<Rightarrow> dict" where
  "sealed_extra cr gate s =
     (if gate = P1 then []
      else [(''decisions_digest'', decisions_digest cr (phase_decisions gate s)),
            (''decisions_count'', nat_str (length (phase_decisions gate s)))])"

fun approved_dossier :: "phase \<Rightarrow> string \<Rightarrow> string" where
  "approved_dossier P1 human = gate_label P1 @ '' approved by '' @ human @ ''. '' @ phase_label P2 @ '' is running.''"
| "approved_dossier P2 human = gate_label P2 @ '' approved by '' @ human @ ''. '' @ phase_label P3 @ '' is running.''"
| "approved_dossier P3 human = ''Audit completed: the final report was approved at '' @ gate_label P3 @ '' by '' @ human @ ''.''"

text \<open>\<open>_approve_gate\<close>: validate, apply policy, move, then stamp.\<close>

definition flow_approve_gate ::
  "flow_env \<Rightarrow> phase \<Rightarrow> string \<Rightarrow> string \<Rightarrow> audit_flow \<Rightarrow> flow_error + audit_flow" where
  "flow_approve_gate env gate human_id source s =
     bindE (required_text_of human_id ''human_id'') (\<lambda>human.
     bindE (identity_source_of source) (\<lambda>src.
     bindE (require_transition (after_gate gate) (WAITING_HUMAN_GATE gate) s) (\<lambda>_.
     bindE (check_sod ''gate_approval'' human (Some gate) s) (\<lambda>_.
     bindE (if gate = P2 then check_evidence_for_gate_2 env s else Inr ()) (\<lambda>_.
     bindE (of_option (Artifact_missing gate) (artifact_of s gate)) (\<lambda>artifact.
     bindE (check_review_decisions env gate s) (\<lambda>_.
     let cr = crypto_of env; sealed = sealed_extra cr gate s in
     bindE (move (Approve gate) s) (\<lambda>s1.
     bindE (stamp_trail env (gate_label gate) human ''gate_approval'' src
        ([(''artifact'', artifact_field gate), (''artifact_digest'', artifact_digest cr artifact)] @
         sealed @ run_provenance_extra gate s1) s1) (\<lambda>s2.
       Inr (s2\<lparr>dossier := approved_dossier gate human\<rparr>))))))))))"

definition begin_phase_1 :: "audit_flow \<Rightarrow> flow_error + audit_flow" where
  "begin_phase_1 s = bindE (move StartPhase1 s) (\<lambda>t. Inr (t\<lparr>dossier := ''Planning is running.''\<rparr>))"

definition begin_phase_2 :: "flow_env \<Rightarrow> string \<Rightarrow> string \<Rightarrow> audit_flow \<Rightarrow> flow_error + audit_flow" where
  "begin_phase_2 env human source = flow_approve_gate env P1 human source"

definition begin_phase_3 :: "flow_env \<Rightarrow> string \<Rightarrow> string \<Rightarrow> audit_flow \<Rightarrow> flow_error + audit_flow" where
  "begin_phase_3 env human source = flow_approve_gate env P2 human source"

definition finalize_audit :: "flow_env \<Rightarrow> string \<Rightarrow> string \<Rightarrow> audit_flow \<Rightarrow> flow_error + audit_flow" where
  "finalize_audit env human source = flow_approve_gate env P3 human source"

section \<open>Retry, rework, override\<close>

definition reason_or_empty :: "string option \<Rightarrow> string" where
  "reason_or_empty r = (case r of None \<Rightarrow> [] | Some x \<Rightarrow> x)"

definition flow_retry_phase ::
  "flow_env \<Rightarrow> int \<Rightarrow> string \<Rightarrow> string \<Rightarrow> audit_flow \<Rightarrow> flow_error + audit_flow" where
  "flow_retry_phase env n human_id source s =
     bindE (of_option (Value_error ''phase must be 1, 2, or 3'') (phase_of_int n)) (\<lambda>p.
     bindE (required_text_of human_id ''human_id'') (\<lambda>human.
     bindE (identity_source_of source) (\<lambda>src.
     bindE (move (Retry p) s) (\<lambda>s1.
     bindE (stamp_trail env (''Retry ('' @ phase_label p @ '')'') human ''retry'' src
        ([(''previous_status'', status_value (machine s)), (''previous_reason'', reason_or_empty (qa_reason s1))] @
         run_provenance_extra p s1) s1) (\<lambda>s2.
       Inr (s2\<lparr>dossier := phase_label p @ '' retry requested by '' @ human @ ''; the phase is running again.''\<rparr>))))))"

definition flow_return_for_rework ::
  "flow_env \<Rightarrow> int \<Rightarrow> string \<Rightarrow> string \<Rightarrow> string \<Rightarrow> audit_flow \<Rightarrow> flow_error + audit_flow" where
  "flow_return_for_rework env n human_id review_notes source s =
     bindE (of_option (Value_error ''phase must be 1, 2, or 3'') (phase_of_int n)) (\<lambda>p.
     bindE (required_text_of human_id ''human_id'') (\<lambda>human.
     bindE (required_text_of review_notes ''notes'') (\<lambda>notes.
     bindE (identity_source_of source) (\<lambda>src.
     bindE (require_transition (RUNNING_PHASE p) (WAITING_HUMAN_GATE p) s) (\<lambda>_.
     bindE (check_sod ''return_for_rework'' human None s) (\<lambda>_.
     bindE (move (Return p) s) (\<lambda>s1.
     let extra = [(''notes'', notes), (''artifact'', artifact_field p)] @
           (case artifact_of s p of None \<Rightarrow> [] | Some a \<Rightarrow> [(''artifact_digest'', artifact_digest (crypto_of env) a)]) @
           run_provenance_extra p s1 in
     bindE (stamp_trail env (''Return for rework ('' @ phase_label p @ '')'') human ''return_for_rework'' src extra s1) (\<lambda>s2.
       Inr (s2\<lparr>qa_reason := None, dossier := phase_label p @ '' returned for rework by '' @ human @ '': '' @ notes @
         '' The phase is re-running with these review notes.''\<rparr>)))))))))"

definition override_qa_rejection ::
  "flow_env \<Rightarrow> int \<Rightarrow> string \<Rightarrow> string \<Rightarrow> string \<Rightarrow> audit_flow \<Rightarrow> flow_error + audit_flow" where
  "override_qa_rejection env n human_id justification source s =
     bindE (of_option (Value_error ''phase must be 1, 2, or 3'') (phase_of_int n)) (\<lambda>p.
     bindE (required_text_of human_id ''human_id'') (\<lambda>human.
     bindE (required_text_of justification ''reason'') (\<lambda>reason.
     bindE (identity_source_of source) (\<lambda>src.
     bindE (require_transition (WAITING_HUMAN_GATE p) (QA_REJECTED_PHASE p) s) (\<lambda>_.
     bindE (check_sod ''qa_override'' human None s) (\<lambda>_.
     bindE (of_option (Artifact_missing p) (artifact_of s p)) (\<lambda>artifact.
     bindE (if p = P2 then flow_raise Python_error (unverified_evidence env s) else Inr []) (\<lambda>unverified.
     let extra = [(''reason'', reason), (''qa_rejection_reason'', reason_or_empty (qa_reason s)),
           (''artifact'', artifact_field p), (''artifact_digest'', artifact_digest (crypto_of env) artifact)] @
           (if unverified \<noteq> [] then [(''unverified_controls'', join_with '','' unverified)] else []) @
           run_provenance_extra p s in
     bindE (move (Override p) s) (\<lambda>s1.
     bindE (stamp_trail env (''QA Override ('' @ phase_label p @ '')'') human ''qa_override'' src extra s1) (\<lambda>s2.
       Inr (s2\<lparr>qa_reason := None, dossier := phase_label p @ '' QA rejection overridden by '' @ human @ '': '' @ reason @
         ''.'' @ (if unverified \<noteq> [] then '' Accepted with unverified evidence for: '' @ join_with '', '' unverified @ ''.''
                 else []) @ '' Review the artifact before approving the gate.''\<rparr>)))))))))))"

section \<open>Feedback carried into a re-run\<close>

fun qa_feedback_key :: "phase \<Rightarrow> string" where
  "qa_feedback_key P1 = ''qa_feedback''"
| "qa_feedback_key P2 = ''qa_feedback''"
| "qa_feedback_key P3 = ''tone_qa_feedback''"

text \<open>The templates of \<open>_QA_FEEDBACK\<close> and \<open>_REWORK_FEEDBACK\<close> with their placeholder filled in.\<close>

fun qa_feedback_text :: "phase \<Rightarrow> string \<Rightarrow> string" where
  "qa_feedback_text P1 reason = '' IMPORTANT: A previous draft was rejected for the following reason '' @ em_dash @
     '' fix all issues before re-drafting: '' @ reason"
| "qa_feedback_text P2 reason = '' IMPORTANT: A previous evaluation was rejected '' @ em_dash @
     '' fix the ToD/ToE conclusions and evidence issues: '' @ reason"
| "qa_feedback_text P3 reason = '' IMPORTANT: A previous draft was rejected for tone '' @ em_dash @
     '' fix all issues: '' @ reason"

definition rework_feedback_text :: "string \<Rightarrow> string" where
  "rework_feedback_text notes = '' IMPORTANT: The human reviewer returned the previous draft for rework. Address every review note before re-drafting: '' @ notes"

definition carried_feedback :: "phase \<Rightarrow> audit_flow \<Rightarrow> string option" where
  "carried_feedback p s =
     (if approval_trail s = [] then None
      else let e = last (approval_trail s) in
        if map_of e ''action'' = Some ''return_for_rework'' \<and>
           map_of e ''gate'' = Some (''Return for rework ('' @ phase_label p @ '')'')
        then (let notes = strip (dict_get_or e ''notes'' []) in
              if notes \<noteq> [] then Some (rework_feedback_text notes) else None)
        else if map_of e ''action'' \<noteq> Some ''retry'' \<or> map_of e ''gate'' \<noteq> Some (''Retry ('' @ phase_label p @ '')'') \<or>
           map_of e ''previous_status'' \<noteq> Some (status_value (QA_REJECTED_PHASE p))
        then None
        else (let reason = strip (dict_get_or e ''previous_reason'' []) in
              if reason = [] then None else Some (qa_feedback_text p reason)))"

definition seed_feedback :: "phase \<Rightarrow> audit_flow \<Rightarrow> dict \<Rightarrow> dict" where
  "seed_feedback p s inputs =
     (case carried_feedback p s of None \<Rightarrow> inputs
      | Some f \<Rightarrow> if f = [] then inputs else dict_set (qa_feedback_key p) f inputs)"

section \<open>Running a crew\<close>

datatype artifact = Racm racm | Papers working_papers | Report final_report

datatype crew_result =
    Crew_raised string
  | Crew_done "qa_pushback option" "artifact option"

text \<open>
  What a run of a crew is given from outside: the crew itself (by attempt and inputs), the vault
  and the linters' verdict at each attempt, the models in use, clock readings, the texts of exceptions.
  \<open>lint\<close> returns whether the artifact passed, the ids of the violated rules and the feedback text.
\<close>

record run_env =
  crew :: "nat \<Rightarrow> dict \<Rightarrow> crew_result"
  vault_at :: "nat \<Rightarrow> vault"
  lint :: "nat \<Rightarrow> phase \<Rightarrow> artifact option \<Rightarrow> bool \<times> string list \<times> string"
  strict_linter :: bool
  raised_message :: "raised \<Rightarrow> string"
  validation_message :: string
  demo :: bool
  crew_info :: "(string \<times> string) option"
  qa_info :: "(string \<times> string) option"
  enforce_cross_family :: bool
  config_files :: "phase \<Rightarrow> string \<times> string"
  run_started :: string
  run_ended :: string
  new_run_id :: string

text \<open>\<open>int.to_bytes(8, "big")\<close>; the code raises for a length that needs more than 8 bytes.\<close>

fun big_endian :: "nat \<Rightarrow> nat \<Rightarrow> string" where
  "big_endian 0 n = []"
| "big_endian (Suc k) n = char_of (n div 256 ^ k) # big_endian k n"

definition framed :: "string list \<Rightarrow> string" where
  "framed parts = concat (map (\<lambda>p. big_endian 8 (length p) @ p) parts)"

definition prompt_fingerprint :: "crypto \<Rightarrow> string \<times> string \<Rightarrow> skill list \<Rightarrow> string" where
  "prompt_fingerprint cr config skills =
     sha256_hex cr (framed ([fst config, snd config] @
       (if skills \<noteq> [] then [get_specialist_prompt skills] else [])))"

definition known_provider :: "string \<times> string \<Rightarrow> string" where
  "known_provider i = (if fst i \<notin> {''unknown'', ''custom''} then fst i @ ''/'' @ snd i else snd i)"

definition start_generation_run ::
  "flow_env \<Rightarrow> run_env \<Rightarrow> phase \<Rightarrow> audit_flow \<Rightarrow> flow_error + generation_run" where
  "start_generation_run env re p s =
     (let unknown = (''unknown'', ''unknown'');
          ci = (if demo re then (''demo'', ''fixed-content'') else case crew_info re of None \<Rightarrow> unknown | Some i \<Rightarrow> i);
          qi = (if demo re then (''demo'', ''fixed-content'') else case qa_info re of None \<Rightarrow> unknown | Some i \<Rightarrow> i);
          df = detect_model_family (known_provider ci); qf = detect_model_family (known_provider qi);
          cross = \<not> demo re \<and> df \<noteq> OTHER \<and> qf \<noteq> OTHER \<and> df \<noteq> qf in
      bindE (if \<not> demo re \<and> enforce_cross_family re
             then flow_raise (\<lambda>_. Same_family) (assert_disjoint_family (fst ci @ ''/'' @ snd ci) (fst qi @ ''/'' @ snd qi))
             else Inr ()) (\<lambda>_.
        Inr \<lparr>run_id = new_run_id re, run_phase = p, run_provider = fst ci, run_model = snd ci,
          run_qa_provider = fst qi, run_qa_model = snd qi,
          prompt_fp = prompt_fingerprint (crypto_of env) (config_files re p) (skill_context s),
          started_at = run_started re, ended_at = None, run_attempts = 0, demo_mode = demo re, outcome = ''running'',
          drafter_family = (if demo re then ''demo'' else family_value df),
          qa_family = (if demo re then ''demo'' else family_value qf),
          cross_family_verified = cross, linter_passed = True, linter_violations = [],
          cascade_tier = (if demo re then ''tier_0_deterministic''
            else if cross then ''tier_2_cross_family'' else ''tier_1_system1'')\<rparr>))"

definition EVIDENCE_REJECTION :: "string \<Rightarrow> string" where
  "EVIDENCE_REJECTION cs = ''Deterministic evidence check failed for '' @ cs @
     '': the quoted evidence was not found verbatim in the evidence vault record it cites (or that record failed its integrity check). Every tested finding needs a verifiable quote; a finding without a quote must be concluded '' @
     [CHR 0x27] @ ''Not tested'' @ [CHR 0x27] @ ''.''"

definition artifact_findings :: "artifact \<Rightarrow> finding list" where
  "artifact_findings a = (case a of Papers p \<Rightarrow> findings p | _ \<Rightarrow> [])"

definition evidence_rejection ::
  "flow_env \<Rightarrow> (raised \<Rightarrow> string) \<Rightarrow> vault \<Rightarrow> phase \<Rightarrow> artifact option \<Rightarrow> audit_flow \<Rightarrow> string option" where
  "evidence_rejection env message v p a s =
     (case a of None \<Rightarrow> None
      | Some x \<Rightarrow>
          if p \<noteq> P2 then None
          else case unverified_findings (crypto_of env) (fernet_of env) (vault_env env) v (artifact_findings x) (session_id s) of
            Inl e \<Rightarrow> Some (''Deterministic evidence check could not run ('' @ message e @ ''); fails closed.'')
          | Inr [] \<Rightarrow> None
          | Inr cs \<Rightarrow> Some (EVIDENCE_REJECTION (join_with '', '' cs)))"

text \<open>\<open>setattr(self.state, field, artifact)\<close>: the assignment is validated, so an artifact of another phase raises.\<close>

fun set_artifact :: "phase \<Rightarrow> artifact option \<Rightarrow> audit_flow \<Rightarrow> audit_flow option" where
  "set_artifact P1 None s = Some (s\<lparr>racm_plan := None\<rparr>)"
| "set_artifact P2 None s = Some (s\<lparr>papers := None\<rparr>)"
| "set_artifact P3 None s = Some (s\<lparr>report := None\<rparr>)"
| "set_artifact P1 (Some (Racm x)) s = Some (s\<lparr>racm_plan := Some x\<rparr>)"
| "set_artifact P2 (Some (Papers x)) s = Some (s\<lparr>papers := Some x\<rparr>)"
| "set_artifact P3 (Some (Report x)) s = Some (s\<lparr>report := Some x\<rparr>)"
| "set_artifact _ _ s = None"

definition clear_artifact :: "phase \<Rightarrow> audit_flow \<Rightarrow> audit_flow" where
  "clear_artifact p s = (case p of P1 \<Rightarrow> s\<lparr>racm_plan := None\<rparr> | P2 \<Rightarrow> s\<lparr>papers := None\<rparr> | P3 \<Rightarrow> s\<lparr>report := None\<rparr>)"

definition fail_phase :: "phase \<Rightarrow> string \<Rightarrow> audit_flow \<Rightarrow> flow_error + audit_flow" where
  "fail_phase p reason s = bindE (move (Fail p) s) (\<lambda>t.
     Inr (t\<lparr>qa_reason := Some reason,
       dossier := phase_label p @ '' stopped with an error: '' @ reason @ '' Retry the phase once the cause is fixed.''\<rparr>))"

text \<open>The run record of the phase is the last one of the state.\<close>

definition update_run :: "(generation_run \<Rightarrow> generation_run) \<Rightarrow> audit_flow \<Rightarrow> audit_flow" where
  "update_run f s = s\<lparr>generation_runs := butlast (generation_runs s) @ [f (last (generation_runs s))]\<rparr>"

definition close_run :: "run_env \<Rightarrow> string \<Rightarrow> audit_flow \<Rightarrow> audit_flow" where
  "close_run re out = update_run (\<lambda>r. r\<lparr>ended_at := Some (run_ended re), outcome := out\<rparr>)"

datatype attempt_result =
    Attempt_error string
  | Attempt_rejected bool string "artifact option"
  | Attempt_passed "artifact option"

text \<open>One pass of the loop: the verdict on what the crew returned, and the run record updated.\<close>

definition try_attempt ::
  "flow_env \<Rightarrow> run_env \<Rightarrow> phase \<Rightarrow> nat \<Rightarrow> dict \<Rightarrow> audit_flow \<Rightarrow> audit_flow \<times> attempt_result" where
  "try_attempt env re p n inputs s =
     (let s1 = update_run (\<lambda>r. r\<lparr>run_attempts := n\<rparr>) s in
      case crew re n inputs of
        Crew_raised msg \<Rightarrow> (s1, Attempt_error msg)
      | Crew_done qa a \<Rightarrow>
          (let qa_why = qa_rejection qa; evidence_why = evidence_rejection env (raised_message re) (vault_at re n) p a s1;
               (passed, rules, feedback) = lint re n p a;
               linter_why = (if \<not> passed \<and> strict_linter re then Some feedback else None);
               reasons = filter (\<lambda>r. r \<noteq> []) (concat (map (\<lambda>r. case r of None \<Rightarrow> [] | Some x \<Rightarrow> [x]) [qa_why, evidence_why, linter_why]));
               s2 = update_run (\<lambda>r. r\<lparr>linter_passed := passed, linter_violations := rules\<rparr>) s1 in
           if reasons = [] then (s2, Attempt_passed a)
           else (s2, Attempt_rejected (qa_why \<noteq> None) (join_with '' '' reasons) a)))"

definition store_rejected :: "run_env \<Rightarrow> phase \<Rightarrow> bool \<Rightarrow> string \<Rightarrow> artifact option \<Rightarrow> audit_flow \<Rightarrow> flow_error + audit_flow" where
  "store_rejected re p by_qa rejection a s =
     (let s1 = (case set_artifact p a s of None \<Rightarrow> clear_artifact p s | Some t \<Rightarrow> t) in
      bindE (move (Reject p) (close_run re ''qa_rejected'' s1)) (\<lambda>t.
        Inr (t\<lparr>qa_reason := Some rejection,
          dossier := phase_label p @ '' draft '' @
            (if by_qa then ''rejected by the QA reviewer'' else ''failed the deterministic evidence check'') @
            '' after one automatic retry: '' @ rejection @
            '' Review the draft, then retry the phase or approve it with a written justification.''\<rparr>)))"

definition store_passed :: "run_env \<Rightarrow> phase \<Rightarrow> artifact option \<Rightarrow> audit_flow \<Rightarrow> flow_error + audit_flow \<times> bool" where
  "store_passed re p a s =
     (case a of
        None \<Rightarrow> bindE (fail_phase p (phase_label p @ '' crew produced no '' @ artifact_field p @
            '': the output could not be parsed into the required schema.'') (close_run re ''error'' s)) (\<lambda>t. Inr (t, False))
      | Some x \<Rightarrow>
          (case set_artifact p a s of
             None \<Rightarrow> bindE (fail_phase p (phase_label p @ '' crew produced an invalid '' @ artifact_field p @ '': '' @ validation_message re)
                 (close_run re ''error'' s)) (\<lambda>t. Inr (t, False))
           | Some t \<Rightarrow> Inr (close_run re ''qa_approved'' t, True)))"

text \<open>\<open>_run_crew_with_qa\<close>: at most \<open>_MAX_QA_ATTEMPTS\<close> = 2 attempts; the flag says whether the phase may be completed.\<close>

definition crew_error :: "run_env \<Rightarrow> phase \<Rightarrow> string \<Rightarrow> string \<Rightarrow> audit_flow \<Rightarrow> flow_error + audit_flow \<times> bool" where
  "crew_error re p which msg s =
     bindE (fail_phase p (phase_label p @ '' '' @ which @ '' error: '' @ msg) (close_run re ''error'' s)) (\<lambda>t. Inr (t, False))"

definition run_crew_with_qa ::
  "flow_env \<Rightarrow> run_env \<Rightarrow> phase \<Rightarrow> dict \<Rightarrow> audit_flow \<Rightarrow> flow_error + audit_flow \<times> bool" where
  "run_crew_with_qa env re p inputs s =
     bindE (start_generation_run env re p s) (\<lambda>run.
       let key = qa_feedback_key p; seeded = dict_get_or inputs key [];
           s0 = s\<lparr>generation_runs := generation_runs s @ [run]\<rparr>; (s1, r1) = try_attempt env re p 1 inputs s0 in
       case r1 of
         Attempt_error msg \<Rightarrow> crew_error re p ''crew'' msg s1
       | Attempt_passed a \<Rightarrow> store_passed re p a s1
       | Attempt_rejected by_qa why a \<Rightarrow>
           (let (s2, r2) = try_attempt env re p 2 (dict_set key (seeded @ qa_feedback_text p why) inputs) s1 in
            case r2 of
              Attempt_error msg \<Rightarrow> crew_error re p ''crew retry'' msg s2
            | Attempt_passed a2 \<Rightarrow> store_passed re p a2 s2
            | Attempt_rejected by_qa2 why2 a2 \<Rightarrow> bindE (store_rejected re p by_qa2 why2 a2 s2) (\<lambda>t. Inr (t, False))))"

section \<open>Crew inputs\<close>

definition scope_string :: "audit_flow \<Rightarrow> string" where
  "scope_string s = ''Theme: '' @ theme s @ ''. Business context: '' @ business_context s @ ''. Frameworks: '' @
     or_text (join_with '', '' (frameworks s)) ''n/a'' @ ''.''"

definition planning_inputs :: "audit_flow \<Rightarrow> dict" where
  "planning_inputs s = [(''theme'', theme s), (''business_context'', business_context s),
     (''frameworks'', join_with '', '' (frameworks s)), (''qa_feedback'', [])]"

definition fieldwork_inputs :: "audit_flow \<Rightarrow> dict" where
  "fieldwork_inputs s = [(''theme'', theme s), (''test_plan'', racm_test_plan (racm_plan s)), (''qa_feedback'', [])]"

text \<open>\<open>effective_working_papers\<close>: the papers overlaid with the active decisions.\<close>

definition overlay_finding :: "finding_view list \<Rightarrow> finding \<Rightarrow> raised + finding" where
  "overlay_finding changed f =
     (case find (\<lambda>fv. fv_control_id fv = f_control_id f) (rev changed) of
        None \<Rightarrow> Inr f
      | Some fv \<Rightarrow>
          (let eff = fv_effective fv in
           bindE (of_option ValueError (tod_of_value (fc_tod eff))) (\<lambda>tod.
           bindE (of_option ValueError (toe_of_value (fc_toe eff))) (\<lambda>toe.
           bindE (of_option ValueError (by_value result_value all_result (fc_result eff))) (\<lambda>res.
             Inr (f\<lparr>tod_conclusion := tod, toe_conclusion := toe, f_result := Some res,
               preliminary_deficiency := Some (fc_preliminary eff)\<rparr>))))))"

definition effective_working_papers :: "flow_env \<Rightarrow> audit_flow \<Rightarrow> raised + working_papers option" where
  "effective_working_papers env s =
     (case papers s of
        None \<Rightarrow> Inr None
      | Some p \<Rightarrow>
          if review_decisions s = [] then Inr (Some p)
          else bindE (flow_view env s) (\<lambda>v.
            let changed = filter fv_differs (ev_findings v) in
            if changed = [] then Inr (Some p)
            else bindE (collectE (\<lambda>f. bindE (overlay_finding changed f) (\<lambda>g. Inr [g])) (findings p)) (\<lambda>fs.
              Inr (Some (p\<lparr>findings := fs\<rparr>)))))"

text \<open>
  \<open>papers.model_dump_json(exclude_none=True)\<close> is Pydantic's text of the papers: the argument
  \<open>dump\<close>.
\<close>

definition reporting_inputs :: "(working_papers \<Rightarrow> string) \<Rightarrow> flow_env \<Rightarrow> audit_flow \<Rightarrow> raised + dict" where
  "reporting_inputs dump env s =
     bindE (effective_working_papers env s) (\<lambda>p.
       Inr [(''theme'', theme s), (''scope_string'', scope_string s), (''racm_summary'', racm_summary (racm_plan s)),
         (''working_papers_string'', case p of None \<Rightarrow> [] | Some x \<Rightarrow> dump x),
         (''findings_index'', findings_index p),
         (''deficiency_scale_guidance'', deficiency_scale_guidance (deficiency_scale_for_scope (theme s) (business_context s) (frameworks s))),
         (''tone_qa_feedback'', [])])"

section \<open>Phase runners\<close>

text \<open>
  A runner returns the state it leaves and the exception that left it, if any: an exception after
  the guard leaves a state that has already changed.
\<close>

type_synonym phase_result = "flow_error + audit_flow \<times> flow_error option"

definition leaving :: "audit_flow \<Rightarrow> flow_error + audit_flow \<Rightarrow> phase_result" where
  "leaving s m = (case m of Inl e \<Rightarrow> Inr (s, Some e) | Inr t \<Rightarrow> Inr (t, None))"

definition complete_run :: "phase \<Rightarrow> (audit_flow \<Rightarrow> audit_flow) \<Rightarrow> flow_error + audit_flow \<times> bool \<Rightarrow> flow_error + audit_flow" where
  "complete_run p announce m = bindE m (\<lambda>(t, ok).
     if \<not> ok then Inr t else bindE (move (Complete p) t) (\<lambda>u. Inr (announce u)))"

definition planning_done :: "audit_flow \<Rightarrow> audit_flow" where
  "planning_done s = s\<lparr>dossier := ''Planning QA Loop complete. No major structural flaws found. Please review the RACM below for final Standard 12.3 (formerly IIA 2340) approval.''\<rparr>"

definition fieldwork_done :: "audit_flow \<Rightarrow> audit_flow" where
  "fieldwork_done s = s\<lparr>dossier := ''Fieldwork complete: ToD/ToE conclusions recorded for '' @
     nat_str (case papers s of None \<Rightarrow> 0 | Some p \<Rightarrow> length (findings p)) @
     '' finding(s), and every cited evidence quote was verified against the evidence vault. Review the working papers before approving Gate 2 (supervision step inspired by IIA Standard 12.3, formerly 2340).'' @
     (if review_decisions_required s then '' Record a sign-off or a challenge for every exception and every key-control finding before approving.'' else [])\<rparr>"

definition reporting_done :: "audit_flow \<Rightarrow> audit_flow" where
  "reporting_done s = s\<lparr>dossier := ''Reporting complete: the final report passed the tone QA review. Review the report and the proposed deficiency classifications (a draft for your judgement), then approve Gate 3 to complete the audit. Gate 3 must be approved by someone other than the Gate 2 approver.'' @
     (if review_decisions_required s then '' Before approving, record your classification of each deficiency, a scope limitation for each untested key control, and the engagement conclusion.'' else [])\<rparr>"

definition generate_planning :: "flow_env \<Rightarrow> run_env \<Rightarrow> audit_flow \<Rightarrow> phase_result" where
  "generate_planning env re s =
     bindE (if machine s = WAITING_FOR_SCOPE then move StartPhase1 s else Inr s) (\<lambda>s0.
     if machine s0 \<noteq> RUNNING_PHASE P1 then Inl (Runtime_error (machine s0))
     else
       let s1 = (detect_skills env s0)\<lparr>qa_reason := None\<rparr>;
           inputs = seed_feedback P1 s1 (planning_inputs s1) in
       leaving s1 (complete_run P1 planning_done (run_crew_with_qa env re P1 inputs s1)))"

definition generate_fieldwork :: "flow_env \<Rightarrow> run_env \<Rightarrow> audit_flow \<Rightarrow> phase_result" where
  "generate_fieldwork env re s =
     (if machine s \<noteq> RUNNING_PHASE P2 then Inl (Runtime_error (machine s))
      else
        let s1 = (ensure_skill_context env s)\<lparr>qa_reason := None\<rparr> in
        if racm_plan s1 = None then leaving s1 (fail_phase P2 ''Cannot run Fieldwork: no Phase 1 RACM in state.'' s1)
        else
          let inputs = seed_feedback P2 s1 (fieldwork_inputs s1) in
          leaving s1 (complete_run P2 fieldwork_done (run_crew_with_qa env re P2 inputs s1)))"

definition generate_reporting :: "(working_papers \<Rightarrow> string) \<Rightarrow> flow_env \<Rightarrow> run_env \<Rightarrow> audit_flow \<Rightarrow> phase_result" where
  "generate_reporting dump env re s =
     (if machine s \<noteq> RUNNING_PHASE P3 then Inl (Runtime_error (machine s))
      else
        let s1 = (ensure_skill_context env s)\<lparr>qa_reason := None\<rparr> in
        if papers s1 = None then leaving s1 (fail_phase P3 ''Cannot run Reporting: no Phase 2 working papers in state.'' s1)
        else leaving s1 (bindE (flow_raise Python_error (reporting_inputs dump env s1)) (\<lambda>inputs.
          complete_run P3 reporting_done (run_crew_with_qa env re P3 (seed_feedback P3 s1 inputs) s1))))"

section \<open>The operations of a flow\<close>

datatype flow_op =
    Record_preparer string bool string
  | Begin_phase_1
  | Approve_gate phase string string
  | Retry_phase int string string
  | Return_for_rework int string string string
  | Override_qa int string string string
  | Record_decision decision_request
  | Generate phase run_env "working_papers \<Rightarrow> string"

fun generate :: "(working_papers \<Rightarrow> string) \<Rightarrow> flow_env \<Rightarrow> run_env \<Rightarrow> phase \<Rightarrow> audit_flow \<Rightarrow> phase_result" where
  "generate dump env re P1 s = generate_planning env re s"
| "generate dump env re P2 s = generate_fieldwork env re s"
| "generate dump env re P3 s = generate_reporting dump env re s"

fun flow_step :: "audit_flow \<Rightarrow> flow_env \<times> flow_op \<Rightarrow> flow_error + audit_flow" where
  "flow_step s (env, Record_preparer by req src) = record_preparer env by req src s"
| "flow_step s (env, Begin_phase_1) = begin_phase_1 s"
| "flow_step s (env, Approve_gate g human src) = flow_approve_gate env g human src s"
| "flow_step s (env, Retry_phase n human src) = flow_retry_phase env n human src s"
| "flow_step s (env, Return_for_rework n human notes src) = flow_return_for_rework env n human notes src s"
| "flow_step s (env, Override_qa n human why src) = override_qa_rejection env n human why src s"
| "flow_step s (env, Record_decision rq) = record_decision env rq s"
| "flow_step s (env, Generate p re dump) = bindE (generate dump env re p s) (\<lambda>(t, _). Inr t)"

end
