(* ===== verification/FlowInv.thy ===== *)
theory FlowInv
  imports Flow
begin

text \<open>
  What every operation of the flow keeps. The first part says, per operation, what it may change
  (frames); the second what the trail says about the state (\<open>flow_inv\<close>) and that no operation
  breaks it; \<open>session_step\<close> is an operation of one audit: always the same keys, and decision ids
  that are new.
\<close>

section \<open>Moves of the machine\<close>

fun run_machine :: "audit_status \<Rightarrow> machine_op list \<Rightarrow> invalid_transition + audit_status" where
  "run_machine s [] = Inr s"
| "run_machine s (m # ms) = bindE (machine_step s m) (\<lambda>t. run_machine t ms)"

lemma run_machine_append:
  "run_machine s ms = Inr t \<Longrightarrow> run_machine t ns = Inr u \<Longrightarrow> run_machine s (ms @ ns) = Inr u"
  by (induction ms arbitrary: s) (auto simp: bindE_Inr_iff)

lemma run_machine_gates: "run_machine s ms = Inr t \<Longrightarrow> gates_passed t = gates_passed s @ approvals ms"
proof (induction ms arbitrary: s)
  case (Cons m ms)
  then obtain u where "lifecycle s m u" "run_machine u ms = Inr t" by (auto simp: bindE_Inr_iff machine_step_iff)
  then show ?case using Cons.IH [of u] lifecycle_gates approvals_Cons [of m ms] by simp
qed simp

lemma move_iff: "move m s = Inr t \<longleftrightarrow> (\<exists>st. lifecycle (machine s) m st \<and> t = commit_status (s\<lparr>machine := st\<rparr>))"
  by (auto simp: move_def result_simps machine_step_iff)

section \<open>What a crew run may change\<close>

text \<open>A run of phase \<open>p\<close> changes nothing of the trail, the decisions or the other artifacts.\<close>

definition kept :: "phase \<Rightarrow> audit_flow \<Rightarrow> audit_flow \<Rightarrow> bool" where
  "kept p s t \<longleftrightarrow> approval_trail t = approval_trail s \<and> review_decisions t = review_decisions s \<and>
     prepared_by t = prepared_by s \<and> decisions_required t = decisions_required s \<and> session_id t = session_id s \<and>
     (\<forall>q. q \<noteq> p \<longrightarrow> artifact_of t q = artifact_of s q)"

lemma kept_refl [simp, intro]: "kept p s s"
  by (simp add: kept_def)

lemma kept_trans [trans]: "kept p s t \<Longrightarrow> kept p t u \<Longrightarrow> kept p s u"
  by (simp add: kept_def)

text \<open>The rest of the machine's part: the same status, mirrored the same way.\<close>

definition still :: "audit_flow \<Rightarrow> audit_flow \<Rightarrow> bool" where
  "still s t \<longleftrightarrow> machine t = machine s \<and> status_text t = status_text s"

lemma still_refl [simp, intro]: "still s s" by (simp add: still_def)
lemma still_trans [trans]: "still s t \<Longrightarrow> still t u \<Longrightarrow> still s u" by (simp add: still_def)

lemma artifact_of_simps [simp]:
  "artifact_of (s\<lparr>theme := a\<rparr>) q = artifact_of s q" "artifact_of (s\<lparr>dossier := b\<rparr>) q = artifact_of s q"
  "artifact_of (s\<lparr>status_text := c\<rparr>) q = artifact_of s q" "artifact_of (s\<lparr>qa_reason := d\<rparr>) q = artifact_of s q"
  "artifact_of (s\<lparr>active_skill_ids := e\<rparr>) q = artifact_of s q" "artifact_of (s\<lparr>prepared_by := f\<rparr>) q = artifact_of s q"
  "artifact_of (s\<lparr>approval_trail := g\<rparr>) q = artifact_of s q" "artifact_of (s\<lparr>generation_runs := h\<rparr>) q = artifact_of s q"
  "artifact_of (s\<lparr>review_decisions := i\<rparr>) q = artifact_of s q" "artifact_of (s\<lparr>decisions_required := j\<rparr>) q = artifact_of s q"
  "artifact_of (s\<lparr>machine := k\<rparr>) q = artifact_of s q" "artifact_of (s\<lparr>skill_context := l\<rparr>) q = artifact_of s q"
  by (cases q; simp)+

lemma commit_simps [simp]:
  "artifact_of (commit_status s) q = artifact_of s q" "approval_trail (commit_status s) = approval_trail s"
  "review_decisions (commit_status s) = review_decisions s" "prepared_by (commit_status s) = prepared_by s"
  "decisions_required (commit_status s) = decisions_required s" "machine (commit_status s) = machine s"
  "session_id (commit_status s) = session_id s" "status_text (commit_status s) = status_value (machine s)"
  "papers (commit_status s) = papers s" "qa_reason (commit_status s) = qa_reason s"
  by (simp_all add: commit_status_def)

lemma move_kept: "move m s = Inr t \<Longrightarrow> kept p s t"
  by (auto simp: move_iff kept_def)

lemma detect_skills_kept: "kept p s (detect_skills env s)" "still s (detect_skills env s)"
  by (simp_all add: detect_skills_def kept_def still_def Let_def)

lemma ensure_skills_kept: "kept p s (ensure_skill_context env s)" "still s (ensure_skill_context env s)"
  using detect_skills_kept
  by (auto simp: ensure_skill_context_def restore_skill_context_def Let_def kept_def still_def)

lemma update_run_kept: "kept p s (update_run f s)" "still s (update_run f s)"
  by (simp_all add: update_run_def kept_def still_def)

lemma close_run_kept: "kept p s (close_run re out s)" "still s (close_run re out s)"
  unfolding close_run_def by (rule update_run_kept)+

lemma all_phases: "(\<forall>q. Q q) \<longleftrightarrow> Q P1 \<and> Q P2 \<and> Q P3"
  by (metis phase.exhaust)

lemma clear_artifact_kept: "kept p s (clear_artifact p s)" "still s (clear_artifact p s)"
  by (cases p; simp add: clear_artifact_def kept_def still_def all_phases)+

lemma set_artifact_kept: "set_artifact p a s = Some t \<Longrightarrow> kept p s t \<and> still s t"
  by (cases p; cases a) (auto simp: kept_def still_def all_phases elim!: set_artifact.elims)

text \<open>A crew run leaves a phase running, rejected or failed; when it says so, running.\<close>

definition run_of :: "phase \<Rightarrow> audit_flow \<Rightarrow> audit_flow \<Rightarrow> machine_op list \<Rightarrow> bool" where
  "run_of p s t ms \<longleftrightarrow> kept p s t \<and> run_machine (machine s) ms = Inr (machine t) \<and>
     (ms = [] \<longrightarrow> status_text t = status_text s) \<and> (ms \<noteq> [] \<longrightarrow> status_text t = status_value (machine t))"

lemma run_of_still: "kept p s t \<Longrightarrow> still s t \<Longrightarrow> run_of p s t []"
  by (simp add: run_of_def still_def)

lemma run_of_trans: "run_of p s t ms \<Longrightarrow> run_of p t u ns \<Longrightarrow> run_of p s u (ms @ ns)"
  using kept_trans run_machine_append by (auto simp: run_of_def)

lemma run_of_move: "move m s = Inr t \<Longrightarrow> run_of p s t [m]"
  using move_kept by (fastforce simp: run_of_def move_iff lifecycle_machine_step)

lemma run_of_update:
  "run_of p s t ms \<Longrightarrow> run_of p s (t\<lparr>qa_reason := a, dossier := b\<rparr>) ms"
  "run_of p s t ms \<Longrightarrow> run_of p s (t\<lparr>dossier := b\<rparr>) ms"
  "run_of p s t ms \<Longrightarrow> run_of p s (t\<lparr>qa_reason := a\<rparr>) ms"
  by (simp_all add: run_of_def kept_def)

lemma fail_phase_run: "fail_phase p reason s = Inr t \<Longrightarrow> run_of p s t [Fail p]"
  by (auto simp: fail_phase_def bindE_Inr_iff intro: run_of_update run_of_move)

lemma close_run_run: "run_of p (close_run re out s) t ms \<Longrightarrow> run_of p s t ms"
  using run_of_trans [OF run_of_still [OF close_run_kept]] by fastforce

lemma store_rejected_run: "store_rejected re p by_qa why a s = Inr t \<Longrightarrow> run_of p s t [Reject p]"
proof -
  assume "store_rejected re p by_qa why a s = Inr t"
  then obtain s1 u where s1: "s1 = (case set_artifact p a s of None \<Rightarrow> clear_artifact p s | Some t \<Rightarrow> t)"
    "move (Reject p) (close_run re ''qa_rejected'' s1) = Inr u" and t: "run_of p s u [Reject p] \<Longrightarrow> run_of p s t [Reject p]"
    by (auto simp: store_rejected_def Let_def bindE_Inr_iff intro: run_of_update)
  have "run_of p s s1 []"
    using s1(1) set_artifact_kept clear_artifact_kept by (auto intro!: run_of_still split: option.splits)
  from run_of_trans [OF this close_run_run [OF run_of_move [OF s1(2)]]] t show ?thesis by simp
qed

lemma store_passed_run:
  assumes "store_passed re p a s = Inr (t, ok)"
  shows "run_of p s t (if ok then [] else [Fail p])"
proof (cases "case a of None \<Rightarrow> None | Some x \<Rightarrow> set_artifact p a s")
  case None
  then obtain reason where "fail_phase p reason (close_run re ''error'' s) = Inr t" "\<not> ok"
    using assms by (auto simp: store_passed_def bindE_Inr_iff split: option.splits)
  then show ?thesis using close_run_run [OF fail_phase_run] by simp
next
  case (Some u)
  then have "t = close_run re ''qa_approved'' u" "ok" "set_artifact p a s = Some u"
    using assms by (auto simp: store_passed_def split: option.splits)
  moreover from this(3) have "run_of p s u []" using run_of_still set_artifact_kept by blast
  moreover have "run_of p u (close_run re ''qa_approved'' u) []" by (rule run_of_still [OF close_run_kept])
  ultimately show ?thesis using run_of_trans [of p s u "[]"] by fastforce
qed

lemma try_attempt_run: "try_attempt env re p n inputs s = (t, r) \<Longrightarrow> run_of p s t []"
  by (auto simp: try_attempt_def Let_def update_run_kept split: crew_result.splits prod.splits if_splits
      intro!: run_of_still intro: kept_trans [OF update_run_kept(1) update_run_kept(1)] still_trans [OF update_run_kept(2) update_run_kept(2)])

lemma crew_error_run: "crew_error re p which msg s = Inr (t, ok) \<Longrightarrow> \<not> ok \<and> run_of p s t [Fail p]"
  by (auto simp: crew_error_def bindE_Inr_iff intro: close_run_run [OF fail_phase_run])

text \<open>The moves a crew run makes itself: none when it asks for completion.\<close>

definition run_moves :: "phase \<Rightarrow> bool \<Rightarrow> machine_op list set" where
  "run_moves p ok = (if ok then {[]} else {[Fail p], [Reject p]})"

lemma run_crew_run:
  assumes "run_crew_with_qa env re p inputs s = Inr (t, ok)"
  shows "\<exists>ms\<in>run_moves p ok. run_of p s t ms"
proof -
  from assms obtain run where run: "start_generation_run env re p s = Inr run" by (auto simp: run_crew_with_qa_def bindE_Inr_iff)
  define s0 where "s0 = s\<lparr>generation_runs := generation_runs s @ [run]\<rparr>"
  obtain s1 r1 where a1: "try_attempt env re p 1 inputs s0 = (s1, r1)" by force
  have "run_of p s s0 []" by (rule run_of_still) (simp_all add: s0_def kept_def still_def)
  then have s1: "run_of p s s1 []" using run_of_trans try_attempt_run [OF a1] by fastforce
  have pass: "\<exists>ms\<in>run_moves p ok. run_of p s t ms" if "run_of p s u []" "store_passed re p a u = Inr (t, ok)" for u a
    using run_of_trans [OF that(1) store_passed_run [OF that(2)]] by (auto simp: run_moves_def split: if_splits)
  have err: "\<exists>ms\<in>run_moves p ok. run_of p s t ms" if "run_of p s u []" "crew_error re p w msg u = Inr (t, ok)" for u w msg
    using crew_error_run [OF that(2)] run_of_trans [OF that(1)] by (fastforce simp: run_moves_def)
  note step = assms [unfolded run_crew_with_qa_def run bindE.simps Let_def, folded s0_def, unfolded a1 prod.case]
  show ?thesis
  proof (cases r1)
    case (Attempt_error msg)
    then show ?thesis using step err [OF s1] by simp
  next
    case (Attempt_passed a)
    then show ?thesis using step pass [OF s1] by simp
  next
    case (Attempt_rejected by_qa why a)
    let ?inputs = "dict_set (qa_feedback_key p) (dict_get_or inputs (qa_feedback_key p) [] @ qa_feedback_text p why) inputs"
    obtain s2 r2 where a2: "try_attempt env re p 2 ?inputs s1 = (s2, r2)" by force
    have s2: "run_of p s s2 []" using run_of_trans [OF s1 try_attempt_run [OF a2]] by simp
    note step2 = step [unfolded Attempt_rejected attempt_result.case a2 prod.case]
    show ?thesis
    proof (cases r2)
      case (Attempt_error msg)
      then show ?thesis using step2 err [OF s2] by simp
    next
      case (Attempt_passed a)
      then show ?thesis using step2 pass [OF s2] by simp
    next
      case (Attempt_rejected by2 why2 a2')
      then have "store_rejected re p by2 why2 a2' s2 = Inr t" "\<not> ok" using step2 by (auto simp: bindE_Inr_iff)
      then show ?thesis
        using run_of_trans [OF s2 store_rejected_run] by (fastforce simp: run_moves_def)
    qed
  qed
qed

lemma complete_run_run:
  assumes "complete_run p announce (run_crew_with_qa env re p inputs s) = Inr t"
    and announce: "\<And>u. \<exists>d. announce u = u\<lparr>dossier := d\<rparr>"
  shows "\<exists>ms\<in>{[Complete p], [Fail p], [Reject p]}. run_of p s t ms"
proof -
  from assms(1) obtain u ok where u: "run_crew_with_qa env re p inputs s = Inr (u, ok)"
    "(if \<not> ok then Inr u else bindE (move (Complete p) u) (\<lambda>u. Inr (announce u))) = Inr t"
    by (auto simp: complete_run_def bindE_Inr_iff)
  from run_crew_run [OF u(1)] obtain ms where ms: "ms \<in> run_moves p ok" "run_of p s u ms" by blast
  show ?thesis
  proof (cases ok)
    case True
    then obtain w where w: "move (Complete p) u = Inr w" "t = announce w" using u(2) by (auto simp: bindE_Inr_iff)
    obtain d where "announce w = w\<lparr>dossier := d\<rparr>" using announce by blast
    with run_of_trans [OF ms(2) run_of_move [OF w(1)]] ms(1) True w(2) show ?thesis
      by (auto simp: run_moves_def intro: run_of_update)
  next
    case False
    then show ?thesis using u(2) ms by (auto simp: run_moves_def)
  qed
qed

lemma announcements:
  "\<exists>d. planning_done u = u\<lparr>dossier := d\<rparr>" "\<exists>d. fieldwork_done u = u\<lparr>dossier := d\<rparr>" "\<exists>d. reporting_done u = u\<lparr>dossier := d\<rparr>"
  by (auto simp: planning_done_def fieldwork_done_def reporting_done_def)

lemma leaving_run:
  assumes "leaving s1 m = Inr (t, e)" and "run_of p s s1 ms" "approvals ms = []"
    and "\<And>u. m = Inr u \<Longrightarrow> \<exists>ns\<in>{[Complete p], [Fail p], [Reject p]}. run_of p s1 u ns"
  shows "\<exists>ms. run_of p s t ms \<and> approvals ms = []"
proof (cases m)
  case (Inl x)
  then show ?thesis using assms by (auto simp: leaving_def)
next
  case (Inr u)
  then obtain ns where "ns \<in> {[Complete p], [Fail p], [Reject p]}" "run_of p s1 t ns"
    using assms by (fastforce simp: leaving_def)
  moreover have "approvals (ms @ ns) = approvals ms @ approvals ns" for ns
    by (induction ms rule: approvals.induct) simp_all
  ultimately show ?thesis using run_of_trans [OF assms(2)] assms(3) by fastforce
qed

lemma skills_run: "run_of p s ((ensure_skill_context env s)\<lparr>qa_reason := None\<rparr>) []"
  "run_of p s ((detect_skills env s)\<lparr>qa_reason := None\<rparr>) []"
  by (rule run_of_update, rule run_of_still, (rule ensure_skills_kept detect_skills_kept)+)+

lemma fail_phase_runs: "fail_phase p reason s = Inr t \<Longrightarrow> \<exists>ns\<in>{[Complete p], [Fail p], [Reject p]}. run_of p s t ns"
  using fail_phase_run by blast

lemma generate_run:
  assumes "generate dump env re p s = Inr (t, e)"
  shows "(\<exists>ms. run_of p s t ms \<and> approvals ms = []) \<and>
     (machine s = RUNNING_PHASE p \<or> p = P1 \<and> machine s = WAITING_FOR_SCOPE)"
proof (cases p)
  case P1
  from assms P1 obtain s0 where s0: "(if machine s = WAITING_FOR_SCOPE then move StartPhase1 s else Inr s) = Inr s0"
    "machine s0 = RUNNING_PHASE P1"
    "leaving ((detect_skills env s0)\<lparr>qa_reason := None\<rparr>) (complete_run P1 planning_done (run_crew_with_qa env re P1
       (seed_feedback P1 ((detect_skills env s0)\<lparr>qa_reason := None\<rparr>) (planning_inputs ((detect_skills env s0)\<lparr>qa_reason := None\<rparr>)))
       ((detect_skills env s0)\<lparr>qa_reason := None\<rparr>))) = Inr (t, e)"
    by (auto simp: generate_planning_def Let_def bindE_Inr_iff split: if_splits)
  have "\<exists>ms. run_of P1 s s0 ms \<and> approvals ms = []"
  proof (cases "machine s = WAITING_FOR_SCOPE")
    case True
    then show ?thesis using s0(1) run_of_move [of StartPhase1 s s0 P1] by (intro exI [of _ "[StartPhase1]"]) simp
  next
    case False
    then show ?thesis using s0(1) by (intro exI [of _ "[]"]) (simp add: run_of_def)
  qed
  then obtain ms where ms: "run_of P1 s s0 ms" "approvals ms = []" by blast
  have "run_of P1 s ((detect_skills env s0)\<lparr>qa_reason := None\<rparr>) ms"
    using run_of_trans [OF ms(1) skills_run(2)] by simp
  from leaving_run [OF s0(3) this ms(2) complete_run_run [OF _ announcements(1)]] P1 s0 show ?thesis
    by (auto split: if_splits)
next
  case P2
  then show ?thesis
    using assms leaving_run [OF _ skills_run(1) _ complete_run_run [OF _ announcements(2)]]
      leaving_run [OF _ skills_run(1) _ fail_phase_runs]
    by (auto simp: generate_fieldwork_def Let_def split: if_splits)
next
  case P3
  have fin: "\<exists>ns\<in>{[Complete P3], [Fail P3], [Reject P3]}. run_of P3 s1 u ns"
    if "bindE (flow_raise Python_error (reporting_inputs dump env s1)) (\<lambda>inputs.
          complete_run P3 reporting_done (run_crew_with_qa env re P3 (seed_feedback P3 s1 inputs) s1)) = Inr u" for s1 u
  proof -
    from that obtain inputs where "complete_run P3 reporting_done
        (run_crew_with_qa env re P3 (seed_feedback P3 s1 inputs) s1) = Inr u"
      by (auto simp: bindE_Inr_iff)
    then show ?thesis by (rule complete_run_run [OF _ announcements(3)])
  qed
  show ?thesis
    using P3 assms leaving_run [OF _ skills_run(1) _ fin] leaving_run [OF _ skills_run(1) _ fail_phase_runs]
    by (auto simp: generate_reporting_def Let_def split: if_splits)
qed

section \<open>Stamps\<close>

lemma identity_source_of_Inr: "identity_source_of v = Inr src \<longleftrightarrow> src = v \<and> (\<exists>x. by_value source_value all_source v = Some x)"
  using source_label.by_value_eq_iff by (auto simp: identity_source_of_def bindE_Inr_iff of_option_Inr_iff)

lemma map_of_rev_distinct: "distinct (map fst xs) \<Longrightarrow> map_of (rev xs) k = map_of xs k"
proof (cases "map_of xs k")
  case None
  then have "map_of (rev xs) k = None" by (simp add: map_of_eq_None_iff)
  with None show ?thesis by simp
qed (auto simp: rev_map [symmetric] map_of_eq_Some_iff)

lemma stamp_entry_field:
  "distinct (map fst extra) \<Longrightarrow> map_of (stamp_entry time gate human action src extra) k =
     (case map_of extra k of
        None \<Rightarrow> map_of [(''gate'', gate), (''human'', human), (''timestamp'', time), (''action'', action), (''identity_source'', src)] k
      | Some v \<Rightarrow> Some v)"
  by (simp add: stamp_entry_def dict_get_update map_of_rev_distinct)

text \<open>What the trail of an audit looks like to the entry appended by a stamp.\<close>

definition stamped_with ::
  "crypto \<Rightarrow> string option \<Rightarrow> entry list \<Rightarrow> entry \<Rightarrow> entry \<Rightarrow> bool" where
  "stamped_with cr key tr x e \<longleftrightarrow> appended cr key [] (tr @ [x]) \<and> (\<forall>k. k \<notin> set HASH_FIELDS \<longrightarrow> map_of x k = map_of e k)"

lemma stamp_trail_Inr:
  assumes cr: "crypto_ok (crypto_of env)" and tr: "appended (crypto_of env) (trail_key env) [] (approval_trail s)"
    and "stamp_trail env gate human action src extra s = Inr t"
  shows "\<exists>x. t = s\<lparr>approval_trail := approval_trail s @ [x]\<rparr> \<and>
     stamped_with (crypto_of env) (trail_key env) (approval_trail s) x (stamp_entry (now env) gate human action src extra)"
proof -
  let ?e = "stamp_entry (now env) gate human action src extra"
  from assms(3) obtain tr' where t: "append_entry (crypto_of env) (trail_key env) (approval_trail s) ?e = Inr tr'"
    "t = s\<lparr>approval_trail := tr'\<rparr>"
    by (auto simp: stamp_trail_def result_simps identity_source_of_Inr)
  have "dict_ok ?e" unfolding stamp_entry_def by (rule dict_ok_update) (simp add: dict_ok_def)
  from append_entry_stores [OF tr cr this] t show ?thesis by (auto simp: stamped_with_def)
qed

text \<open>A stamp with a valid identity source never fails.\<close>

lemma stamp_trail_total:
  assumes cr: "crypto_ok (crypto_of env)" and tr: "appended (crypto_of env) (trail_key env) [] (approval_trail s)"
    and src: "identity_source_of src = Inr src'"
  shows "\<exists>t. stamp_trail env gate human action src extra s = Inr t"
proof -
  let ?e = "stamp_entry (now env) gate human action src' extra"
  have "dict_ok ?e" unfolding stamp_entry_def by (rule dict_ok_update) (simp add: dict_ok_def)
  from append_entry_stores [OF tr cr this] src show ?thesis by (auto simp: stamp_trail_def)
qed

end
