(* ===== verification/FlowTrail.thy ===== *)
theory FlowTrail
  imports FlowInv
begin

text \<open>
  What the approval trail of an audit says about the audit. \<open>flow_inv\<close> holds of a new audit and is
  kept by every operation: the status is mirrored, the trail is a chain the code appended, the
  gate approvals in it are the gates the status implies, no reviewing action is the preparer's,
  every approval still has its artifact and the decisions it sealed, and every decision has its
  entry.
\<close>

section \<open>The invariant\<close>

definition action_of :: "entry \<Rightarrow> string option" where
  "action_of e = map_of e ''action''"

definition approvals_in :: "trail \<Rightarrow> string list" where
  "approvals_in tr = map (\<lambda>e. dict_get_or e ''gate'' []) (filter (\<lambda>e. action_of e = Some ''gate_approval'') tr)"

text \<open>
  Segregation of duties between an earlier and a later entry: a review is not done by someone
  recorded as preparer, and gate 3 is not approved by the approver of gate 2.
\<close>

definition sod_pair :: "entry \<Rightarrow> entry \<Rightarrow> bool" where
  "sod_pair e f \<longleftrightarrow>
     (created_entry e \<and> action_of f \<in> Some ` set PREPARER_EXCLUDED_ACTIONS \<longrightarrow>
        \<not> same_person (map_of f ''human'') (map_of e ''human'')) \<and>
     (is_approval_of P2 e \<and> is_approval_of P3 f \<longrightarrow> \<not> same_person (map_of f ''human'') (map_of e ''human''))"

definition seal_ok :: "crypto \<Rightarrow> audit_flow \<Rightarrow> string \<times> approval \<Rightarrow> bool" where
  "seal_ok cr s = (\<lambda>(field, a). \<exists>p art. p \<in> set (gates_passed (machine s)) \<and> field = artifact_field p \<and>
     artifact_of s p = Some art \<and> a_digest a = artifact_digest cr art \<and>
     (\<forall>sealed. a_sealed a = Some sealed \<longrightarrow>
        (\<exists>ds. prefix ds (phase_decisions p s) \<and> a_ids a = map decision_id ds \<and> sealed = decisions_digest cr ds)))"

definition ids_seen :: "(int \<times> string list) list \<Rightarrow> phase \<Rightarrow> string list" where
  "ids_seen ids p = (case map_of ids (int (phase_num p)) of None \<Rightarrow> [] | Some l \<Rightarrow> l)"

definition seals_ok :: "crypto \<Rightarrow> audit_flow \<Rightarrow> approvals_seen \<Rightarrow> bool" where
  "seals_ok cr s seen \<longleftrightarrow> (\<forall>p. ids_seen (snd seen) p = map decision_id (phase_decisions p s)) \<and>
     (\<forall>a\<in>set (fst seen). seal_ok cr s a)"

definition digests_ok :: "crypto \<Rightarrow> audit_flow \<Rightarrow> dict \<Rightarrow> bool" where
  "digests_ok cr s m \<longleftrightarrow> (\<forall>d\<in>set (review_decisions s). map_of m (decision_id d) = Some (decision_digest cr d)) \<and>
     fst ` set m \<subseteq> decision_id ` set (review_decisions s)"

definition decisions_ok :: "crypto \<Rightarrow> audit_flow \<Rightarrow> bool" where
  "decisions_ok cr s \<longleftrightarrow> recorded cr (review_decisions s) \<and> (\<forall>d\<in>set (review_decisions s). decision_id d \<noteq> [])"

definition seen_of :: "trail \<Rightarrow> approvals_seen" where
  "seen_of tr = foldl see_entry ([], []) tr"

definition flow_inv :: "crypto \<Rightarrow> string option \<Rightarrow> audit_flow \<Rightarrow> bool" where
  "flow_inv cr key s \<longleftrightarrow> status_text s = status_value (machine s) \<and>
     appended cr key [] (approval_trail s) \<and> decisions_ok cr s \<and>
     approvals_in (approval_trail s) = map gate_label (gates_passed (machine s)) \<and>
     sorted_wrt sod_pair (approval_trail s) \<and>
     seals_ok cr s (seen_of (approval_trail s)) \<and> digests_ok cr s (recorded_digests (approval_trail s))"

lemmas flow_invD = flow_inv_def [THEN iffD1]

section \<open>Entries that agree on what is read\<close>

definition same_fields :: "entry \<Rightarrow> entry \<Rightarrow> bool" where
  "same_fields x e \<longleftrightarrow> (\<forall>k. k \<notin> set HASH_FIELDS \<longrightarrow> map_of x k = map_of e k)"

lemma stamped_with_iff: "stamped_with cr key tr x e \<longleftrightarrow> appended cr key [] (tr @ [x]) \<and> same_fields x e"
  by (simp add: stamped_with_def same_fields_def)

lemma same_fields_get:
  assumes "same_fields x e" "k \<notin> set HASH_FIELDS"
  shows "map_of x k = map_of e k" "dict_get_or x k d = dict_get_or e k d"
  using assms by (simp_all add: same_fields_def dict_get_or_def)

lemma same_fields_reads:
  assumes x: "same_fields x e"
  shows "see_entry st x = see_entry st e" "record_digest m x = record_digest m e" "action_of x = action_of e"
    "created_entry x = created_entry e" "is_approval_of g x = is_approval_of g e" "map_of x ''human'' = map_of e ''human''"
    "dict_get_or x ''gate'' d = dict_get_or e ''gate'' d" "sod_pair y x = sod_pair y e"
proof -
  note get = same_fields_get [OF x]
  have h: "''action'' \<notin> set HASH_FIELDS" "''phase'' \<notin> set HASH_FIELDS" "''decision_id'' \<notin> set HASH_FIELDS"
    "''artifact_digest'' \<notin> set HASH_FIELDS" "''artifact'' \<notin> set HASH_FIELDS" "''decisions_digest'' \<notin> set HASH_FIELDS"
    "''gate'' \<notin> set HASH_FIELDS" "''human'' \<notin> set HASH_FIELDS" "''decision_digest'' \<notin> set HASH_FIELDS"
    by (simp_all add: HASH_FIELDS_def)
  show "see_entry st x = see_entry st e" by (simp only: see_entry_def get [OF h(1)] get [OF h(2)] get [OF h(3)]
      get [OF h(4)] get [OF h(5)] get [OF h(6)] get [OF h(7)])
  show "record_digest m x = record_digest m e"
    by (simp only: record_digest_def get [OF h(1)] get [OF h(3)] get [OF h(9)])
  show a: "action_of x = action_of e" by (simp only: action_of_def get [OF h(1)])
  show c: "created_entry x = created_entry e" by (simp only: created_entry_def get [OF h(1)])
  show i: "is_approval_of g x = is_approval_of g e" for g by (simp only: is_approval_of_def get [OF h(1)] get [OF h(7)])
  show u: "map_of x ''human'' = map_of e ''human''" by (simp only: get [OF h(8)])
  show "dict_get_or x ''gate'' d = dict_get_or e ''gate'' d" by (simp only: get [OF h(7)])
  show "sod_pair y x = sod_pair y e" by (simp only: sod_pair_def a c i u)
qed

lemma appended_reads:
  assumes "same_fields x e"
  shows "seen_of (tr @ [x]) = see_entry (seen_of tr) e"
    "recorded_digests (tr @ [x]) = record_digest (recorded_digests tr) e"
    "approvals_in (tr @ [x]) = approvals_in tr @ (if action_of e = Some ''gate_approval'' then [dict_get_or e ''gate'' []] else [])"
    "sorted_wrt sod_pair (tr @ [x]) \<longleftrightarrow> sorted_wrt sod_pair tr \<and> (\<forall>y\<in>set tr. sod_pair y e)"
  using same_fields_reads [OF assms]
  by (simp_all add: seen_of_def recorded_digests_def approvals_in_def sorted_wrt_append)

section \<open>Quiet operations and plain entries\<close>

lemma phase_decisions_cong: "review_decisions t = review_decisions s \<Longrightarrow> phase_decisions p t = phase_decisions p s"
  by (simp add: phase_decisions_def)

lemma seal_mono:
  assumes seal: "seal_ok cr s a" and gates: "set (gates_passed (machine s)) \<subseteq> set (gates_passed (machine t))"
    and arts: "\<And>q. q \<in> set (gates_passed (machine s)) \<Longrightarrow> artifact_of t q = artifact_of s q"
    and ds: "\<And>q. prefix (phase_decisions q s) (phase_decisions q t)"
  shows "seal_ok cr t a"
proof -
  obtain field ap where a: "a = (field, ap)" by (cases a)
  with seal obtain p art where p: "p \<in> set (gates_passed (machine s))" "field = artifact_field p"
    "artifact_of s p = Some art" "a_digest ap = artifact_digest cr art"
    and sealed: "\<And>h. a_sealed ap = Some h \<Longrightarrow>
      \<exists>ds. prefix ds (phase_decisions p s) \<and> a_ids ap = map decision_id ds \<and> h = decisions_digest cr ds"
    by (auto simp: seal_ok_def)
  have "\<exists>ds. prefix ds (phase_decisions p t) \<and> a_ids ap = map decision_id ds \<and> h = decisions_digest cr ds"
    if "a_sealed ap = Some h" for h
    using sealed [OF that] prefix_order.trans [OF _ ds] by blast
  then show ?thesis using p gates arts [OF p(1)] unfolding seal_ok_def a by auto
qed

lemma seals_mono:
  assumes seals: "seals_ok cr s seen" and gates: "set (gates_passed (machine s)) \<subseteq> set (gates_passed (machine t))"
    and arts: "\<And>q. q \<in> set (gates_passed (machine s)) \<Longrightarrow> artifact_of t q = artifact_of s q"
    and ds: "review_decisions t = review_decisions s"
  shows "seals_ok cr t seen"
  using seals seal_mono [OF _ gates arts] phase_decisions_cong [OF ds] unfolding seals_ok_def by simp

lemma inv_quiet:
  assumes inv: "flow_inv cr key s" and tr: "approval_trail t = approval_trail s" and ds: "review_decisions t = review_decisions s"
    and gates: "gates_passed (machine t) = gates_passed (machine s)" and mirror: "status_text t = status_value (machine t)"
    and arts: "\<And>q. q \<in> set (gates_passed (machine s)) \<Longrightarrow> artifact_of t q = artifact_of s q"
  shows "flow_inv cr key t"
proof -
  have "seals_ok cr s (seen_of (approval_trail s))" using inv by (simp add: flow_inv_def)
  then have "seals_ok cr t (seen_of (approval_trail s))" by (rule seals_mono) (use arts ds gates in auto)
  then show ?thesis
    using inv tr ds gates mirror by (simp add: flow_inv_def decisions_ok_def digests_ok_def)
qed

lemma inv_plain:
  assumes inv: "flow_inv cr key s" and tr: "approval_trail t = approval_trail s @ [x]"
    and x: "stamped_with cr key (approval_trail s) x e"
    and act: "action_of e \<noteq> Some ''gate_approval''" "action_of e \<noteq> Some ''review_decision''"
    and sod: "\<And>y. y \<in> set (approval_trail s) \<Longrightarrow> sod_pair y e"
    and ds: "review_decisions t = review_decisions s"
    and gates: "gates_passed (machine t) = gates_passed (machine s)" and mirror: "status_text t = status_value (machine t)"
    and arts: "\<And>q. artifact_of t q = artifact_of s q"
  shows "flow_inv cr key t"
proof -
  have f: "same_fields x e" "appended cr key [] (approval_trail s @ [x])" using x by (simp_all add: stamped_with_iff)
  have e: "see_entry st e = st" "record_digest m e = m" for st m
    using act by (simp_all add: see_entry_def record_digest_def action_of_def)
  have seen: "seen_of (approval_trail t) = seen_of (approval_trail s)"
    "recorded_digests (approval_trail t) = recorded_digests (approval_trail s)"
    "approvals_in (approval_trail t) = approvals_in (approval_trail s)"
    unfolding tr appended_reads [OF f(1)] e using act by simp_all
  note i = inv [unfolded flow_inv_def]
  show ?thesis
    unfolding flow_inv_def seen
  proof (intro conjI)
    show "appended cr key [] (approval_trail t)" unfolding tr by (rule f(2))
    show "sorted_wrt sod_pair (approval_trail t)"
      unfolding tr appended_reads [OF f(1)] using i sod by blast
    show "seals_ok cr t (seen_of (approval_trail s))"
      by (rule seals_mono [of cr s]) (use i in \<open>simp_all add: gates arts ds\<close>)
    show "approvals_in (approval_trail s) = map gate_label (gates_passed (machine t))"
      unfolding gates using i by blast
  qed (use i in \<open>simp_all add: mirror decisions_ok_def digests_ok_def ds\<close>)
qed

section \<open>Recording a decision\<close>

lemma py_int_phase [simp]: "py_int (phase_digit p) = Some (int (phase_num p))"
  by (cases p) (simp_all add: py_int_def strip_def lstrip_def is_space_def is_digit_def str_nat_def)

lemma phase_num_eq [simp]: "phase_num p = phase_num q \<longleftrightarrow> p = q"
  using phase_num_inject by blast

lemma decision_extra_distinct: "distinct (map fst (decision_extra cr d))"
proof (cases "supersedes d")
  case (Some i)
  then show ?thesis by (cases "i = []") (simp_all add: decision_extra_def)
qed (simp add: decision_extra_def)

definition decision_entry :: "flow_env \<Rightarrow> review_decision \<Rightarrow> entry" where
  "decision_entry env d = stamp_entry (now env) (''Review decision ('' @ phase_label (d_phase d) @ '')'') (decided_by d)
     ''review_decision'' (source_value (d_identity_source d)) (decision_extra (crypto_of env) d)"

lemma decision_entry_fields:
  "map_of (decision_entry env d) ''action'' = Some ''review_decision''"
  "map_of (decision_entry env d) ''phase'' = Some (phase_digit (d_phase d))"
  "map_of (decision_entry env d) ''decision_id'' = Some (decision_id d)"
  "map_of (decision_entry env d) ''decision_digest'' = Some (decision_digest (crypto_of env) d)"
  unfolding decision_entry_def stamp_entry_field [OF decision_extra_distinct]
  by (simp_all add: decision_extra_def split: option.splits)

lemma see_decision_entry:
  "fst (see_entry seen (decision_entry env d)) = fst seen"
  "ids_seen (snd (see_entry seen (decision_entry env d))) p =
     ids_seen (snd seen) p @ (if p = d_phase d then [decision_id d] else [])"
  by (simp_all add: see_entry_def decision_entry_fields dict_get_or_def ids_seen_def update_conv' split: option.splits)

lemma record_decision_entry:
  "decision_id d \<noteq> [] \<Longrightarrow> record_digest m (decision_entry env d) = dict_set (decision_id d) (decision_digest (crypto_of env) d) m"
  by (simp add: record_digest_def decision_entry_fields dict_get_or_def)

lemma phase_decisions_snoc:
  "phase_decisions p (s\<lparr>review_decisions := review_decisions s @ [d], approval_trail := tr\<rparr>) =
     phase_decisions p s @ (if d_phase d = p then [d] else [])"
  by (simp add: phase_decisions_def)

lemma artifact_of_decision [simp]:
  "artifact_of (s\<lparr>review_decisions := ds, approval_trail := tr\<rparr>) q = artifact_of s q"
  by (cases q) simp_all

lemma set_update_subset: "set (AList.update k v al) \<subseteq> insert (k, v) (set al)"
  by (induction al) auto

lemma key_update: "fst ` set (AList.update k v al) = insert k (fst ` set al)"
  by (induction al) auto

lemma inv_decision:
  assumes inv: "flow_inv cr key s" and cr: "crypto_of env = cr"
    and build: "build_decision cr denv (review_decisions s) rq = Inr d"
    and fresh: "decision_id d \<notin> decision_id ` set (review_decisions s)" "decision_id d \<noteq> []"
    and t: "t = s\<lparr>review_decisions := review_decisions s @ [d], approval_trail := approval_trail s @ [x]\<rparr>"
    and x: "stamped_with cr key (approval_trail s) x (decision_entry env d)"
  shows "flow_inv cr key t"
proof -
  let ?e = "decision_entry env d"
  have f: "same_fields x ?e" "appended cr key [] (approval_trail s @ [x])" using x by (simp_all add: stamped_with_iff)
  note i = inv [unfolded flow_inv_def]
  have act: "action_of ?e = Some ''review_decision''" by (simp add: action_of_def decision_entry_fields)
  have machine: "machine t = machine s" "status_text t = status_text s" "approval_trail t = approval_trail s @ [x]"
    by (simp_all add: t)
  note reads = appended_reads [OF f(1), of "approval_trail s", folded machine(3)]
  have seal: "seal_ok cr t a" if "seal_ok cr s a" for a
    using that by (rule seal_mono) (simp_all add: t phase_decisions_snoc)
  show ?thesis
    unfolding flow_inv_def
  proof (intro conjI)
    show "status_text t = status_value (machine t)" using i machine by simp
    show "appended cr key [] (approval_trail t)" using f(2) machine by simp
    show "decisions_ok cr t"
      using i recorded_snoc [OF _ build fresh(1)] fresh(2) by (auto simp: decisions_ok_def t)
    show "approvals_in (approval_trail t) = map gate_label (gates_passed (machine t))"
      using i act by (simp add: reads machine(1))
    show "sorted_wrt sod_pair (approval_trail t)"
      using i act unfolding reads
      by (auto simp: sod_pair_def PREPARER_EXCLUDED_ACTIONS_def is_approval_of_def decision_entry_fields)
    show "seals_ok cr t (seen_of (approval_trail t))"
    proof -
      have "phase_decisions p t = phase_decisions p s @ (if d_phase d = p then [d] else [])" for p
        by (simp add: t phase_decisions_snoc)
      then show ?thesis using i seal unfolding reads(1) seals_ok_def by (auto simp: see_decision_entry)
    qed
    have ds: "review_decisions t = review_decisions s @ [d]" by (simp add: t)
    show "digests_ok cr t (recorded_digests (approval_trail t))"
      unfolding reads record_decision_entry [OF fresh(2)] digests_ok_def key_update ds
      using i fresh(1) cr by (auto simp: digests_ok_def) (metis imageI)
  qed
qed

section \<open>Approving a gate\<close>

definition approval_extra :: "crypto \<Rightarrow> phase \<Rightarrow> json \<Rightarrow> dict \<Rightarrow> audit_flow \<Rightarrow> dict" where
  "approval_extra cr gate art prov s = [(''artifact'', artifact_field gate), (''artifact_digest'', artifact_digest cr art)] @
     sealed_extra cr gate s @ prov"

definition approval_entry :: "flow_env \<Rightarrow> phase \<Rightarrow> string \<Rightarrow> string \<Rightarrow> json \<Rightarrow> dict \<Rightarrow> audit_flow \<Rightarrow> entry" where
  "approval_entry env gate human src art prov s =
     stamp_entry (now env) (gate_label gate) human ''gate_approval'' src (approval_extra (crypto_of env) gate art prov s)"

lemma provenance_keys: "distinct (map fst (run_provenance_extra p s))"
    "fst ` set (run_provenance_extra p s) \<subseteq> {''generation_run_id'', ''generation_prompt_fingerprint'', ''generation_model''}"
  by (auto simp: run_provenance_extra_def split: option.splits)

lemma approval_extra_distinct:
  assumes "prov = run_provenance_extra p u"
  shows "distinct (map fst (approval_extra cr gate art prov s))"
  using provenance_keys [of p u] by (auto simp: approval_extra_def sealed_extra_def assms)

lemma approval_entry_fields:
  assumes prov: "prov = run_provenance_extra p u"
  shows "map_of (approval_entry env gate human src art prov s) ''action'' = Some ''gate_approval''"
    "map_of (approval_entry env gate human src art prov s) ''gate'' = Some (gate_label gate)"
    "map_of (approval_entry env gate human src art prov s) ''human'' = Some human"
    "map_of (approval_entry env gate human src art prov s) ''artifact'' = Some (artifact_field gate)"
    "map_of (approval_entry env gate human src art prov s) ''artifact_digest'' = Some (artifact_digest (crypto_of env) art)"
    "map_of (approval_entry env gate human src art prov s) ''decisions_digest'' =
       (if gate = P1 then None else Some (decisions_digest (crypto_of env) (phase_decisions gate s)))"
proof -
  have none: "map_of prov k = None" if "k \<notin> {''generation_run_id'', ''generation_prompt_fingerprint'', ''generation_model''}" for k
    using provenance_keys(2) [of p u] that by (auto simp: prov map_of_eq_None_iff)
  note field = approval_entry_def stamp_entry_field [OF approval_extra_distinct [OF prov]]
  show "map_of (approval_entry env gate human src art prov s) ''action'' = Some ''gate_approval''"
    unfolding field by (simp add: approval_extra_def sealed_extra_def none)
  show "map_of (approval_entry env gate human src art prov s) ''gate'' = Some (gate_label gate)"
    unfolding field by (simp add: approval_extra_def sealed_extra_def none)
  show "map_of (approval_entry env gate human src art prov s) ''human'' = Some human"
    unfolding field by (simp add: approval_extra_def sealed_extra_def none)
  show "map_of (approval_entry env gate human src art prov s) ''artifact'' = Some (artifact_field gate)"
    unfolding field by (simp add: approval_extra_def)
  show "map_of (approval_entry env gate human src art prov s) ''artifact_digest'' = Some (artifact_digest (crypto_of env) art)"
    unfolding field by (simp add: approval_extra_def)
  show "map_of (approval_entry env gate human src art prov s) ''decisions_digest'' =
       (if gate = P1 then None else Some (decisions_digest (crypto_of env) (phase_decisions gate s)))"
    unfolding field by (simp add: approval_extra_def sealed_extra_def none)
qed

lemma ARTIFACT_PHASE_field: "map_of ARTIFACT_PHASE (artifact_field p) = Some (int (phase_num p))"
  by (cases p) (simp_all add: ARTIFACT_PHASE_def)

lemma see_approval:
  assumes cr: "crypto_ok (crypto_of env)" and prov: "prov = run_provenance_extra p u"
  shows "\<exists>a. see_entry seen (approval_entry env gate human src art prov s) = (dict_set (artifact_field gate) a (fst seen), snd seen) \<and>
     a_digest a = artifact_digest (crypto_of env) art \<and>
     (\<forall>h. a_sealed a = Some h \<longrightarrow> gate \<noteq> P1 \<and> h = decisions_digest (crypto_of env) (phase_decisions gate s)) \<and>
     a_ids a = ids_seen (snd seen) gate"
proof -
  have "artifact_digest (crypto_of env) art \<noteq> []" using cr by (simp add: artifact_digest_def sha256_hex_nonempty)
  then show ?thesis
    by (auto simp: see_entry_def approval_entry_fields [OF prov] dict_get_or_def Let_def ARTIFACT_PHASE_field ids_seen_def)
qed

lemma human_approver:
  assumes "e \<in> set tr" "is_approval_of g e" "length (filter (is_approval_of g) tr) \<le> 1"
  shows "gate_approver tr g = map_of e ''human''"
  using assms
proof (induction tr rule: rev_induct)
  case (snoc x tr)
  show ?case
  proof (cases "is_approval_of g x")
    case True
    then have "filter (is_approval_of g) tr = []" using snoc.prems(3) by simp
    then have "e \<notin> set tr" using snoc.prems(2) by (auto simp: filter_empty_conv)
    then show ?thesis using True snoc.prems(1) by (simp add: gate_approver_append)
  next
    case False
    then show ?thesis using snoc by (auto simp: gate_approver_append)
  qed
qed simp

lemma approvals_in_count:
  "length (filter (is_approval_of g) tr) \<le> length (filter (\<lambda>l. l = gate_label g) (approvals_in tr))"
  by (induction tr) (auto simp: approvals_in_def is_approval_of_def action_of_def dict_get_or_def)

lemma gate_2_once: "approvals_in tr = map gate_label (gates_passed st) \<Longrightarrow> length (filter (is_approval_of P2) tr) \<le> 1"
proof -
  assume "approvals_in tr = map gate_label (gates_passed st)"
  moreover have "length (filter (\<lambda>l. l = gate_label P2) (map gate_label (gates_passed st))) \<le> 1"
    by (cases st) (simp_all, (rename_tac p, case_tac p, simp_all)+)
  ultimately show ?thesis using approvals_in_count [of P2 tr] by simp
qed

lemma check_sod_Inr:
  "check_sod action human gate s = Inr u \<longleftrightarrow>
     (\<forall>p\<in>set (flow_preparers s). sod_violation action human (Some p) (approval_trail s) gate = None)"
proof (cases "find (\<lambda>p. sod_violation action human (Some p) (approval_trail s) gate \<noteq> None) (flow_preparers s)")
  case None
  then have "\<forall>p\<in>set (flow_preparers s). sod_violation action human (Some p) (approval_trail s) gate = None"
    by (simp only: find_None_iff) blast
  moreover have "check_sod action human gate s = Inr u" by (simp only: check_sod_def None) simp
  ultimately show ?thesis by blast
next
  case (Some p)
  then have p: "p \<in> set (flow_preparers s)" "sod_violation action human (Some p) (approval_trail s) gate \<noteq> None"
    using find_SomeD [OF Some] by simp_all
  then have "check_sod action human gate s \<noteq> Inr u" by (simp only: check_sod_def Some) (auto simp: result_simps)
  then show ?thesis using p by metis
qed

lemma preparer_of_entry:
  assumes "e \<in> set (approval_trail s)" "created_entry e" "map_of e ''human'' = Some n" "n \<noteq> []"
  shows "n \<in> set (flow_preparers s)"
proof -
  define names where "names = filter (\<lambda>n. n \<noteq> []) (prepared_by s # map (\<lambda>e. dict_get_or e ''human'' []) (filter created_entry (approval_trail s)))"
  have "n = dict_get_or e ''human'' []" "e \<in> set (filter created_entry (approval_trail s))"
    using assms by (simp_all add: dict_get_or_def)
  then have n: "n \<in> set (map (\<lambda>e. dict_get_or e ''human'' []) (filter created_entry (approval_trail s)))"
    unfolding set_map by (rule image_eqI)
  have "n \<in> set names" unfolding names_def set_filter using n assms(4) by simp
  moreover from this have "flow_preparers s = names" unfolding flow_preparers_def Let_def names_def [symmetric] by auto
  ultimately show ?thesis by simp
qed

lemma same_person_blank: "\<not> same_person a (Some [])" "\<not> same_person a None"
  by (simp_all add: same_person_iff words_of_def)

text \<open>What the segregation check of an excluded action establishes for the new entry.\<close>

lemma sod_no_preparer:
  assumes sod: "check_sod action human gate s = Inr u" and act: "action \<in> set PREPARER_EXCLUDED_ACTIONS"
    and y: "y \<in> set (approval_trail s)" "created_entry y"
  shows "\<not> same_person (Some human) (map_of y ''human'')"
proof (cases "map_of y ''human''")
  case (Some n)
  show ?thesis
  proof (cases "n = []")
    case False
    then have "sod_violation action human (Some n) (approval_trail s) gate = None"
      using preparer_of_entry [OF y Some] sod by (simp add: check_sod_Inr)
    then show ?thesis using act Some by (auto simp: sod_violation_def split: if_splits)
  qed (use Some same_person_blank in simp)
qed (simp add: same_person_blank)

lemma flow_preparers_nonempty: "flow_preparers s \<noteq> []"
  by (simp add: flow_preparers_def Let_def)

lemma inv_approval:
  assumes inv: "flow_inv cr key s" and env: "crypto_of env = cr" "crypto_ok cr"
    and at_gate: "machine s = WAITING_HUMAN_GATE gate" and sod: "check_sod ''gate_approval'' human (Some gate) s = Inr u"
    and art: "artifact_of s gate = Some art" and prov: "prov = run_provenance_extra gate u'"
    and t: "machine t = after_gate gate" "status_text t = status_value (machine t)" "approval_trail t = approval_trail s @ [x]"
      "review_decisions t = review_decisions s" "\<And>q. artifact_of t q = artifact_of s q"
    and x: "stamped_with cr key (approval_trail s) x (approval_entry env gate human src art prov s)"
  shows "flow_inv cr key t"
proof -
  let ?e = "approval_entry env gate human src art prov s"
  have f: "same_fields x ?e" "appended cr key [] (approval_trail s @ [x])" using x by (simp_all add: stamped_with_iff)
  note i = inv [unfolded flow_inv_def]
  note fields = approval_entry_fields [OF prov, where env = env and gate = gate and human = human and src = src and art = art and s = s]
  note reads = appended_reads [OF f(1), of "approval_trail s", folded t(3)]
  have act: "action_of ?e = Some ''gate_approval''" by (simp add: action_of_def fields)
  have gates: "gates_passed (machine t) = gates_passed (machine s) @ [gate]" unfolding t(1) at_gate by simp
  have pd: "phase_decisions p t = phase_decisions p s" for p using t(4) by (rule phase_decisions_cong)
  have ok: "crypto_ok (crypto_of env)" using env by simp
  obtain a where a: "see_entry (seen_of (approval_trail s)) ?e =
      (dict_set (artifact_field gate) a (fst (seen_of (approval_trail s))), snd (seen_of (approval_trail s)))"
    "a_digest a = artifact_digest cr art"
    "\<And>h. a_sealed a = Some h \<Longrightarrow> gate \<noteq> P1 \<and> h = decisions_digest cr (phase_decisions gate s)"
    "a_ids a = ids_seen (snd (seen_of (approval_trail s))) gate"
    using see_approval [OF ok prov, of "seen_of (approval_trail s)" gate human src art s] unfolding env(1) by blast
  have new: "seal_ok cr t (artifact_field gate, a)"
    unfolding seal_ok_def
  proof (clarsimp, intro exI conjI)
    show "gate \<in> set (gates_passed (machine t))" "artifact_field gate = artifact_field gate" unfolding gates by simp_all
    show "artifact_of t gate = Some art" using art t(5) by simp
    show "\<forall>h. a_sealed a = Some h \<longrightarrow> (\<exists>ds. prefix ds (phase_decisions gate t) \<and> a_ids a = map decision_id ds \<and>
        h = decisions_digest cr ds)"
      using a(3,4) i unfolding pd seals_ok_def by auto
  qed (use a in simp)
  have old: "seal_ok cr t b" if "seal_ok cr s b" for b
    using that by (rule seal_mono) (simp_all add: gates t(5) pd subset_insertI)
  show ?thesis
    unfolding flow_inv_def
  proof (intro conjI)
    show "status_text t = status_value (machine t)" by (rule t(2))
    show "appended cr key [] (approval_trail t)" using f(2) t(3) by simp
    show "decisions_ok cr t" using i t(4) by (simp add: decisions_ok_def)
    show "approvals_in (approval_trail t) = map gate_label (gates_passed (machine t))"
      using i unfolding reads gates by (simp add: act dict_get_or_def fields)
    show "sorted_wrt sod_pair (approval_trail t)"
      unfolding reads
    proof (intro conjI ballI)
      show "sorted_wrt sod_pair (approval_trail s)" using i by blast
      fix y assume y: "y \<in> set (approval_trail s)"
      have "\<not> same_person (Some human) (map_of y ''human'')" if "is_approval_of P2 y" "gate = P3"
      proof -
        have "gate_approver (approval_trail s) P2 = map_of y ''human''"
          using human_approver [OF y that(1)] gate_2_once i by blast
        moreover obtain p where "p \<in> set (flow_preparers s)" using flow_preparers_nonempty by (meson list.set_sel(1))
        ultimately show ?thesis
          using sod that(2) sod_approval_None_iff unfolding check_sod_Inr by metis
      qed
      moreover have "\<not> same_person (Some human) (map_of y ''human'')" if "created_entry y"
        using sod_no_preparer [OF sod _ y that] by (simp add: PREPARER_EXCLUDED_ACTIONS_def)
      moreover have is_3: "is_approval_of P3 ?e \<longleftrightarrow> gate = P3"
        unfolding is_approval_of_def fields by (simp del: gate_label.simps)
      ultimately show "sod_pair y ?e" unfolding sod_pair_def fields(3) is_3 by blast
    qed
    show "seals_ok cr t (seen_of (approval_trail t))"
      using i old new set_update_subset [of "artifact_field gate" a "fst (seen_of (approval_trail s))"]
      unfolding reads(1) a(1) seals_ok_def pd by (auto simp del: artifact_field.simps)
    show "digests_ok cr t (recorded_digests (approval_trail t))"
      using i unfolding reads(2) digests_ok_def t(4) by (simp add: record_digest_def fields)
  qed
qed

section \<open>Every operation keeps the invariant\<close>

text \<open>
  An operation of one audit: it runs with the audit's keys, and an id it makes up is new. Anything
  else is refused here, so that a run of \<open>session_step\<close> is the history of one audit.
\<close>

definition session_step ::
  "crypto \<Rightarrow> string option \<Rightarrow> audit_flow \<Rightarrow> flow_env \<times> flow_op \<Rightarrow> flow_error + audit_flow" where
  "session_step cr key s x =
     (if crypto_of (fst x) = cr \<and> trail_key (fst x) = key \<and> fresh_id (fst x) \<noteq> [] \<and>
         fresh_id (fst x) \<notin> decision_id ` set (review_decisions s)
      then flow_step s x else Inl (Python_error ValueError))"

lemma plain_sod: "action_of e \<notin> Some ` set PREPARER_EXCLUDED_ACTIONS \<Longrightarrow> sod_pair y e"
  by (auto simp: sod_pair_def PREPARER_EXCLUDED_ACTIONS_def is_approval_of_def action_of_def)

text \<open>A stamp that is neither an approval nor a decision, after a move that passes no gate.\<close>

definition plain_extra :: "dict \<Rightarrow> bool" where
  "plain_extra extra \<longleftrightarrow> distinct (map fst extra) \<and> ''action'' \<notin> fst ` set extra \<and> ''human'' \<notin> fst ` set extra"

lemma plain_extra_fields:
  assumes "plain_extra extra"
  shows "action_of (stamp_entry time gate human action src extra) = Some action"
    "map_of (stamp_entry time gate human action src extra) ''human'' = Some human"
proof -
  have "distinct (map fst extra)" "map_of extra ''action'' = None" "map_of extra ''human'' = None"
    using assms by (simp_all add: plain_extra_def map_of_eq_None_iff)
  then show "action_of (stamp_entry time gate human action src extra) = Some action"
    "map_of (stamp_entry time gate human action src extra) ''human'' = Some human"
    by (simp_all add: action_of_def stamp_entry_field)
qed

lemma inv_stamp:
  assumes inv: "flow_inv cr key s" and env: "crypto_of env = cr" "trail_key env = key" "crypto_ok cr"
    and stamp: "stamp_trail env gate human action src extra s1 = Inr s2"
    and s1: "approval_trail s1 = approval_trail s" "review_decisions s1 = review_decisions s"
      "gates_passed (machine s1) = gates_passed (machine s)" "status_text s1 = status_value (machine s1)"
      "\<And>q. artifact_of s1 q = artifact_of s q"
    and extra: "plain_extra extra" and act: "action \<noteq> ''gate_approval''" "action \<noteq> ''review_decision''"
    and sod: "action \<in> set PREPARER_EXCLUDED_ACTIONS \<longrightarrow> check_sod action human None s = Inr ()"
    and t: "t = s2 \<or> (\<exists>d. t = s2\<lparr>dossier := d\<rparr>) \<or> (\<exists>q d. t = s2\<lparr>qa_reason := q, dossier := d\<rparr>)"
  shows "flow_inv cr key t \<and> prefix (approval_trail s) (approval_trail t) \<and> review_decisions t = review_decisions s"
proof -
  let ?e = "stamp_entry (now env) gate human action src extra"
  have "appended (crypto_of env) (trail_key env) [] (approval_trail s1)" "crypto_ok (crypto_of env)"
    using inv env s1(1) by (simp_all add: flow_inv_def)
  from stamp_trail_Inr [OF this(2,1) stamp] obtain x where x: "s2 = s1\<lparr>approval_trail := approval_trail s1 @ [x]\<rparr>"
    "stamped_with cr key (approval_trail s) x ?e"
    using env s1(1) by auto
  have trail: "approval_trail t = approval_trail s @ [x]" "review_decisions t = review_decisions s"
    "machine t = machine s1" "status_text t = status_text s1"
    using t x(1) s1 by auto
  have arts: "artifact_of t q = artifact_of s q" for q using t x(1) s1(5) by auto
  note e = plain_extra_fields [OF extra]
  have pair: "sod_pair y ?e" if y: "y \<in> set (approval_trail s)" for y
  proof (cases "action \<in> set PREPARER_EXCLUDED_ACTIONS")
    case True
    then have "\<not> same_person (Some human) (map_of y ''human'')" if "created_entry y"
      using sod_no_preparer [of action human None s "()" y] sod y that by blast
    moreover have "\<not> is_approval_of P3 ?e" using e(1) act(1) by (simp add: is_approval_of_def action_of_def)
    ultimately show ?thesis by (simp add: sod_pair_def e(2))
  next
    case False
    then have "action_of ?e \<notin> Some ` set PREPARER_EXCLUDED_ACTIONS" using e(1) by auto
    then show ?thesis by (rule plain_sod)
  qed
  have "flow_inv cr key t"
    by (rule inv_plain [OF inv trail(1) x(2)]) (use pair trail arts s1 act e(1) in simp_all)
  with trail show ?thesis by simp
qed

lemma move_facts:
  assumes "move m s = Inr s1" "approvals [m] = []"
  shows "approval_trail s1 = approval_trail s" "review_decisions s1 = review_decisions s"
    "gates_passed (machine s1) = gates_passed (machine s)" "status_text s1 = status_value (machine s1)"
    "artifact_of s1 q = artifact_of s q" "qa_reason s1 = qa_reason s"
  using assms by (auto simp: move_iff dest!: lifecycle_gates)

lemma provenance_plain: "map_of (run_provenance_extra p s) ''action'' = None"
  by (simp add: run_provenance_extra_def split: option.splits)

lemma plain_provenance:
  assumes "plain_extra extra"
    and "''generation_run_id'' \<notin> fst ` set extra" "''generation_prompt_fingerprint'' \<notin> fst ` set extra"
      "''generation_model'' \<notin> fst ` set extra"
  shows "plain_extra (extra @ run_provenance_extra p s)"
  using assms by (cases "latest_run_for_phase p s") (simp_all add: run_provenance_extra_def plain_extra_def)

definition step_ok :: "crypto \<Rightarrow> string option \<Rightarrow> audit_flow \<Rightarrow> audit_flow \<Rightarrow> bool" where
  "step_ok cr key s t \<longleftrightarrow> flow_inv cr key t \<and> prefix (approval_trail s) (approval_trail t) \<and>
     prefix (review_decisions s) (review_decisions t)"

lemma step_ok_stamp:
  "flow_inv cr key t \<and> prefix (approval_trail s) (approval_trail t) \<and> review_decisions t = review_decisions s \<Longrightarrow>
   step_ok cr key s t"
  by (simp add: step_ok_def)

text \<open>The reviewing operations but an approval: a move, a stamp, and a note on the dossier.\<close>

lemma move_stamp_ok:
  assumes inv: "flow_inv cr key s" and env: "crypto_of env = cr" "trail_key env = key" "crypto_ok cr"
    and mv: "move m s = Inr s1" "approvals [m] = []"
    and stamp: "stamp_trail env gate human action src extra s1 = Inr s2"
    and extra: "plain_extra extra" and act: "action \<noteq> ''gate_approval''" "action \<noteq> ''review_decision''"
    and sod: "action \<in> set PREPARER_EXCLUDED_ACTIONS \<longrightarrow> check_sod action human None s = Inr ()"
    and t: "t = s2 \<or> (\<exists>d. t = s2\<lparr>dossier := d\<rparr>) \<or> (\<exists>q d. t = s2\<lparr>qa_reason := q, dossier := d\<rparr>)"
  shows "step_ok cr key s t"
  by (rule step_ok_stamp) (rule inv_stamp [OF inv env stamp move_facts(1-5) [OF mv] extra act sod t])

lemma record_preparer_ok:
  assumes inv: "flow_inv cr key s" and env: "crypto_of env = cr" "trail_key env = key" "crypto_ok cr"
    and run: "record_preparer env by req src s = Inr t"
  shows "step_ok cr key s t"
proof -
  from run obtain name src' where stamp: "stamp_trail env ''Audit created'' name ''audit_created'' src'
      (if req then [(''review_decisions_required'', ''true'')] else [])
      (s\<lparr>prepared_by := name, decisions_required := req\<rparr>) = Inr t"
    by (auto simp: record_preparer_def result_simps)
  show ?thesis
    by (rule step_ok_stamp, rule inv_stamp [OF inv env stamp])
      (use inv in \<open>simp_all add: plain_extra_def PREPARER_EXCLUDED_ACTIONS_def flow_inv_def\<close>)
qed

lemma begin_phase_1_ok:
  assumes inv: "flow_inv cr key s" and run: "begin_phase_1 s = Inr t"
  shows "step_ok cr key s t"
proof -
  from run obtain s1 where s1: "move StartPhase1 s = Inr s1" "t = s1\<lparr>dossier := ''Planning is running.''\<rparr>"
    by (auto simp: begin_phase_1_def bindE_Inr_iff)
  note m = move_facts [OF s1(1)]
  have "flow_inv cr key t" by (rule inv_quiet [OF inv]) (simp_all add: m s1(2))
  with s1 m show ?thesis by (simp add: step_ok_def)
qed

lemma retry_ok:
  assumes inv: "flow_inv cr key s" and env: "crypto_of env = cr" "trail_key env = key" "crypto_ok cr"
    and run: "flow_retry_phase env n human_id src s = Inr t"
  shows "step_ok cr key s t"
proof -
  from run obtain p human src' s1 s2 d where s1: "move (Retry p) s = Inr s1"
    and stamp: "stamp_trail env (''Retry ('' @ phase_label p @ '')'') human ''retry'' src'
        ([(''previous_status'', status_value (machine s)), (''previous_reason'', reason_or_empty (qa_reason s1))] @
         run_provenance_extra p s1) s1 = Inr s2" and t: "t = s2\<lparr>dossier := d\<rparr>"
    by (auto simp: flow_retry_phase_def result_simps)
  show ?thesis
    by (rule move_stamp_ok [OF inv env s1 _ stamp plain_provenance])
      (use t in \<open>auto simp: plain_extra_def PREPARER_EXCLUDED_ACTIONS_def\<close>)
qed

lemma rework_ok:
  assumes inv: "flow_inv cr key s" and env: "crypto_of env = cr" "trail_key env = key" "crypto_ok cr"
    and run: "flow_return_for_rework env n human_id review_notes src s = Inr t"
  shows "step_ok cr key s t"
proof -
  from run obtain p human review src' s1 s2 q d extra where s1: "move (Return p) s = Inr s1"
    and sod: "check_sod ''return_for_rework'' human None s = Inr ()"
    and extra: "extra = ([(''notes'', review), (''artifact'', artifact_field p)] @
           (case artifact_of s p of None \<Rightarrow> [] | Some a \<Rightarrow> [(''artifact_digest'', artifact_digest (crypto_of env) a)])) @
           run_provenance_extra p s1"
    and stamp: "stamp_trail env (''Return for rework ('' @ phase_label p @ '')'') human ''return_for_rework'' src' extra s1 = Inr s2"
    and t: "t = s2\<lparr>qa_reason := q, dossier := d\<rparr>"
    by (auto simp: flow_return_for_rework_def result_simps Let_def)
  have plain: "plain_extra extra"
    unfolding extra by (rule plain_provenance) (cases "artifact_of s p"; simp add: plain_extra_def)+
  show ?thesis
    by (rule move_stamp_ok [OF inv env s1 _ stamp plain]) (use t sod in auto)
qed

lemma override_ok:
  assumes inv: "flow_inv cr key s" and env: "crypto_of env = cr" "trail_key env = key" "crypto_ok cr"
    and run: "override_qa_rejection env n human_id justification src s = Inr t"
  shows "step_ok cr key s t"
proof -
  from run obtain p human reason src' art un s1 s2 q d extra where s1: "move (Override p) s = Inr s1"
    and sod: "check_sod ''qa_override'' human None s = Inr ()"
    and extra: "extra = ([(''reason'', reason), (''qa_rejection_reason'', reason_or_empty (qa_reason s)),
           (''artifact'', artifact_field p), (''artifact_digest'', artifact_digest (crypto_of env) art)] @
           (if un \<noteq> [] then [(''unverified_controls'', join_with '','' un)] else [])) @ run_provenance_extra p s"
    and stamp: "stamp_trail env (''QA Override ('' @ phase_label p @ '')'') human ''qa_override'' src' extra s1 = Inr s2"
    and t: "t = s2\<lparr>qa_reason := q, dossier := d\<rparr>"
    by (auto simp: override_qa_rejection_def bindE_Inr_iff of_option_Inr_iff Let_def simp del: append.simps append_assoc) (simp del: append_assoc)
  have plain: "plain_extra extra"
    unfolding extra by (rule plain_provenance) (cases "un = []"; simp add: plain_extra_def)+
  show ?thesis
    by (rule move_stamp_ok [OF inv env s1 _ stamp plain]) (use t sod in auto)
qed

lemma approve_ok:
  assumes inv: "flow_inv cr key s" and env: "crypto_of env = cr" "trail_key env = key" "crypto_ok cr"
    and run: "flow_approve_gate env gate human_id src s = Inr t"
  shows "step_ok cr key s t"
proof -
  from run obtain human src' art s1 s2 where sod: "check_sod ''gate_approval'' human (Some gate) s = Inr ()"
    and art: "artifact_of s gate = Some art" and mv: "move (Approve gate) s = Inr s1"
    and stamp: "stamp_trail env (gate_label gate) human ''gate_approval'' src'
        (approval_extra cr gate art (run_provenance_extra gate s1) s) s1 = Inr s2"
    and t: "t = s2\<lparr>dossier := approved_dossier gate human\<rparr>"
    by (auto simp: flow_approve_gate_def result_simps Let_def approval_extra_def env(1))
  from mv obtain st where st: "lifecycle (machine s) (Approve gate) st" "s1 = commit_status (s\<lparr>machine := st\<rparr>)"
    by (auto simp: move_iff)
  then have m: "machine s = WAITING_HUMAN_GATE gate" "machine s1 = after_gate gate"
    by (auto elim: lifecycle_approveE)
  have tr: "appended (crypto_of env) (trail_key env) [] (approval_trail s1)" "crypto_ok (crypto_of env)"
    using inv env st(2) by (simp_all add: flow_inv_def)
  from stamp_trail_Inr [OF tr(2,1) stamp] obtain x where x: "s2 = s1\<lparr>approval_trail := approval_trail s1 @ [x]\<rparr>"
    "stamped_with cr key (approval_trail s1) x (approval_entry env gate human src' art (run_provenance_extra gate s1) s)"
    using env unfolding approval_entry_def by blast
  have trail: "approval_trail s1 = approval_trail s" using st(2) by simp
  have t': "machine t = after_gate gate" "status_text t = status_value (machine t)"
    "approval_trail t = approval_trail s @ [x]" "review_decisions t = review_decisions s"
    using m(2) st(2) by (simp_all add: t x(1) trail)
  have "artifact_of t q = artifact_of s q" for q by (simp add: t x(1) st(2))
  from inv_approval [OF inv env(1,3) m(1) sod art refl t' this x(2) [unfolded trail]] t'
  show ?thesis by (simp add: step_ok_def)
qed

lemma decision_ok:
  assumes inv: "flow_inv cr key s" and env: "crypto_of env = cr" "trail_key env = key" "crypto_ok cr"
    and new: "fresh_id env \<noteq> []" "fresh_id env \<notin> decision_id ` set (review_decisions s)"
    and run: "record_decision env rq s = Inr t"
  shows "step_ok cr key s t"
proof -
  from run obtain d where build: "build_decision cr (decision_env_of env s) (review_decisions s) rq = Inr d"
    and stamp: "stamp_trail env (''Review decision ('' @ phase_label (d_phase d) @ '')'') (decided_by d) ''review_decision''
        (source_value (d_identity_source d)) (decision_extra (crypto_of env) d)
        (s\<lparr>review_decisions := review_decisions s @ [d]\<rparr>) = Inr t"
    by (auto simp: record_decision_def result_simps env(1))
  have tr: "appended (crypto_of env) (trail_key env) [] (approval_trail (s\<lparr>review_decisions := review_decisions s @ [d]\<rparr>))"
    "crypto_ok (crypto_of env)"
    using inv env by (simp_all add: flow_inv_def)
  from stamp_trail_Inr [OF tr(2,1) stamp] obtain x where
    x: "t = s\<lparr>review_decisions := review_decisions s @ [d], approval_trail := approval_trail s @ [x]\<rparr>"
    "stamped_with cr key (approval_trail s) x (decision_entry env d)"
    using env unfolding decision_entry_def by auto
  have "decision_id d = fresh_id env"
    using build_decision_facts(1) [OF build] by (simp add: decision_env_of_def)
  with new inv_decision [OF inv env(1) build _ _ x] x(1) show ?thesis by (simp add: step_ok_def)
qed

lemma generate_ok:
  assumes inv: "flow_inv cr key s" and run: "generate dump env re p s = Inr (t, e)"
  shows "step_ok cr key s t"
proof -
  from generate_run [OF run] obtain ms where ms: "run_of p s t ms" "approvals ms = []"
    and at_start: "machine s = RUNNING_PHASE p \<or> p = P1 \<and> machine s = WAITING_FOR_SCOPE"
    by blast
  have kept: "kept p s t" and gates: "gates_passed (machine t) = gates_passed (machine s)"
    using ms run_machine_gates by (auto simp: run_of_def)
  have "p \<notin> set (gates_passed (machine s))"
    using at_start by (cases p) auto
  then have "flow_inv cr key t"
    using kept ms(1) inv by (intro inv_quiet [OF inv _ _ gates]) (auto simp: kept_def run_of_def flow_inv_def)
  with kept show ?thesis by (simp add: step_ok_def kept_def)
qed

lemma session_step_ok:
  assumes inv: "flow_inv cr key s" and cr: "crypto_ok cr" and run: "session_step cr key s x = Inr t"
  shows "step_ok cr key s t"
proof -
  obtain env op where x: "x = (env, op)" by (cases x)
  have env: "crypto_of env = cr" "trail_key env = key" "crypto_ok cr"
    and new: "fresh_id env \<noteq> []" "fresh_id env \<notin> decision_id ` set (review_decisions s)"
    and step: "flow_step s (env, op) = Inr t"
    using run cr unfolding x session_step_def by (auto split: if_splits)
  show ?thesis
  proof (cases op)
    case (Record_preparer who req src)
    then show ?thesis using step record_preparer_ok [OF inv env] by simp
  next
    case Begin_phase_1
    then show ?thesis using step begin_phase_1_ok [OF inv] by simp
  next
    case (Approve_gate g human src)
    then show ?thesis using step approve_ok [OF inv env] by simp
  next
    case (Retry_phase n human src)
    then show ?thesis using step retry_ok [OF inv env] by simp
  next
    case (Return_for_rework n human review src)
    then show ?thesis using step rework_ok [OF inv env] by simp
  next
    case (Override_qa n human why src)
    then show ?thesis using step override_ok [OF inv env] by simp
  next
    case (Record_decision rq)
    then show ?thesis using step decision_ok [OF inv env new] by simp
  next
    case (Generate p re dump)
    then show ?thesis using step generate_ok [OF inv] by (auto simp: bindE_Inr_iff)
  qed
qed

text \<open>The contract of an append-only log, for both logs of an audit.\<close>

definition audit_inv :: "crypto \<Rightarrow> string option \<Rightarrow> audit_flow \<Rightarrow> bool" where
  "audit_inv cr key s \<longleftrightarrow> crypto_ok cr \<and> flow_inv cr key s"

interpretation flow_trail: append_only "session_step cr key" "audit_inv cr key" approval_trail for cr key
  by unfold_locales (auto simp: audit_inv_def step_ok_def dest: session_step_ok)

interpretation flow_decisions: append_only "session_step cr key" "audit_inv cr key" review_decisions for cr key
  by unfold_locales (auto simp: audit_inv_def step_ok_def dest: session_step_ok)

text \<open>A new audit: \<open>AuditFlow\<close> after the scope was set, before anyone did anything.\<close>

definition new_audit :: "string \<Rightarrow> string \<Rightarrow> string list \<Rightarrow> string option \<Rightarrow> audit_flow" where
  "new_audit th context fws sid =
     (initial_flow WAITING_FOR_SCOPE)\<lparr>theme := th, business_context := context, frameworks := fws, session_id := sid\<rparr>"

lemma new_audit_inv: "crypto_ok cr \<Longrightarrow> audit_inv cr key (new_audit th context fws sid)"
  by (simp add: audit_inv_def flow_inv_def new_audit_def initial_flow_def decisions_ok_def
      recorded_Nil approvals_in_def seals_ok_def seen_of_def ids_seen_def phase_decisions_def digests_ok_def
      recorded_digests_def)

definition audit_after ::
  "crypto \<Rightarrow> string option \<Rightarrow> audit_flow \<Rightarrow> (flow_env \<times> flow_op) list \<Rightarrow> audit_flow" where
  "audit_after cr key s xs = attempts (session_step cr key) s xs"

lemma reachable_inv: "crypto_ok cr \<Longrightarrow> flow_inv cr key (audit_after cr key (new_audit th context fws sid) xs)"
  using flow_trail.attempts_inv [OF new_audit_inv] by (simp add: audit_after_def audit_inv_def)

end
