(* ===== verification/FlowDemo.thy ===== *)
theory FlowDemo
  imports FlowTrail
begin

text \<open>
  An audit run on concrete inputs, up to the approval of gate 1: that operations succeed when
  their guards hold, and the states and trails the witnesses of the flow's properties use.
\<close>

section \<open>Operations that succeed\<close>

lemma bindE_total: "\<exists>t. m = Inr t \<Longrightarrow> \<exists>u. bindE m (\<lambda>t. Inr (f t)) = Inr u"
  by auto

text \<open>An audit that has begun has a trail: its first entry names the preparer.\<close>

lemma record_preparer_total:
  assumes "flow_inv cr key s" "crypto_of env = cr" "trail_key env = key" "crypto_ok cr"
    and "require_text by = Some name" "identity_source_of src = Inr src'" "prepared_by s = []"
  shows "\<exists>t. record_preparer env by req src s = Inr t"
proof -
  let ?s = "s\<lparr>prepared_by := name, decisions_required := req\<rparr>"
  have "appended (crypto_of env) (trail_key env) [] (approval_trail ?s)" "crypto_ok (crypto_of env)" "src' = src"
    using assms by (simp_all add: flow_inv_def identity_source_of_Inr)
  from stamp_trail_total [OF this(2,1)] assms(6) this(3) have
    "\<exists>t. stamp_trail env ''Audit created'' name ''audit_created'' src
       (if req then [(''review_decisions_required'', ''true'')] else []) ?s = Inr t" by blast
  then show ?thesis using assms(5,6,7) \<open>src' = src\<close> by (simp add: record_preparer_def required_text_of_def)
qed

lemma stamp_trail_frame: "stamp_trail env gate human action src extra s = Inr t \<Longrightarrow> \<exists>tr. t = s\<lparr>approval_trail := tr\<rparr>"
  by (auto simp: stamp_trail_def result_simps)

lemma record_preparer_trail:
  assumes inv: "flow_inv cr key s" and env: "crypto_of env = cr" "trail_key env = key" "crypto_ok cr"
    and run: "record_preparer env by req src s = Inr t"
  shows "\<exists>name x. require_text by = Some name \<and> approval_trail t = approval_trail s @ [x] \<and> prepared_by t = name \<and>
     created_entry x \<and> map_of x ''human'' = Some name \<and> machine t = machine s \<and> review_decisions t = review_decisions s"
proof -
  from run obtain name src' where stamp: "stamp_trail env ''Audit created'' name ''audit_created'' src'
      (if req then [(''review_decisions_required'', ''true'')] else [])
      (s\<lparr>prepared_by := name, decisions_required := req\<rparr>) = Inr t" and name: "require_text by = Some name"
    by (auto simp: record_preparer_def required_text_of_def result_simps)
  have tr: "appended (crypto_of env) (trail_key env) [] (approval_trail (s\<lparr>prepared_by := name, decisions_required := req\<rparr>))"
    "crypto_ok (crypto_of env)"
    using inv env by (simp_all add: flow_inv_def)
  from stamp_trail_Inr [OF tr(2,1) stamp] obtain x where
    x: "t = s\<lparr>prepared_by := name, decisions_required := req, approval_trail := approval_trail s @ [x]\<rparr>"
    "same_fields x (stamp_entry (now env) ''Audit created'' name ''audit_created'' src'
      (if req then [(''review_decisions_required'', ''true'')] else []))"
    by (auto simp: stamped_with_iff)
  have "plain_extra (if req then [(''review_decisions_required'', ''true'')] else [])" by (simp add: plain_extra_def)
  note f = plain_extra_fields [OF this, of "now env" "''Audit created''" name "''audit_created''" src']
  have "created_entry x" using same_fields_reads(4) [OF x(2)] f(1) by (simp add: created_entry_def action_of_def)
  moreover have "map_of x ''human'' = Some name" using same_fields_reads(6) [OF x(2)] f(2) by simp
  ultimately show ?thesis using x(1) name by simp
qed

section \<open>A concrete audit\<close>

definition demo_env :: "string \<Rightarrow> flow_env" where
  "demo_env i = \<lparr>crypto_of = toy_crypto, trail_key = Some ''k'', fernet_of = toy_fernet, vault_env = None,
     now = ''2026-01-05'', fresh_id = i, vault_now = [], all_skills = []\<rparr>"

definition demo_start :: audit_flow where
  "demo_start = new_audit ''Access'' ''Payroll'' [''SOX''] None"

definition demo_created :: audit_flow where
  "demo_created = audit_after toy_crypto (Some ''k'') demo_start [(demo_env ''d1'', Record_preparer ''Ann Lee'' False ''declared'')]"

lemma demo_env_simps [simp]:
  "crypto_of (demo_env i) = toy_crypto" "trail_key (demo_env i) = Some ''k''" "fresh_id (demo_env i) = i"
  by (simp_all add: demo_env_def)

lemma demo_start_inv: "flow_inv toy_crypto (Some ''k'') demo_start"
  using new_audit_inv [OF toy_crypto_ok] by (simp add: demo_start_def audit_inv_def)

lemma demo_created_step:
  "session_step toy_crypto (Some ''k'') demo_start (demo_env ''d1'', Record_preparer ''Ann Lee'' False ''declared'') =
     Inr demo_created"
proof -
  have name: "require_text ''Ann Lee'' = Some ''Ann Lee''" by (simp add: require_text_def strip_def lstrip_def is_space_def)
  have src: "identity_source_of ''declared'' = Inr ''declared''"
    by (simp add: identity_source_of_def by_value_def all_source_def)
  obtain t where t: "record_preparer (demo_env ''d1'') ''Ann Lee'' False ''declared'' demo_start = Inr t"
    using record_preparer_total [OF demo_start_inv demo_env_simps(1,2) toy_crypto_ok name src]
    by (auto simp: demo_start_def new_audit_def initial_flow_def)
  then have "session_step toy_crypto (Some ''k'') demo_start (demo_env ''d1'', Record_preparer ''Ann Lee'' False ''declared'') = Inr t"
    by (simp add: session_step_def demo_start_def new_audit_def initial_flow_def)
  then show ?thesis by (simp add: demo_created_def audit_after_def attempt_def)
qed

lemma demo_created_trail:
  "\<exists>x. approval_trail demo_created = [x] \<and> created_entry x \<and> map_of x ''human'' = Some ''Ann Lee''"
  "machine demo_created = WAITING_FOR_SCOPE" "prepared_by demo_created = ''Ann Lee''" "review_decisions demo_created = []"
proof -
  have "record_preparer (demo_env ''d1'') ''Ann Lee'' False ''declared'' demo_start = Inr demo_created"
    using demo_created_step by (simp add: session_step_def split: if_splits)
  from record_preparer_trail [OF demo_start_inv demo_env_simps(1,2) toy_crypto_ok this]
  show "\<exists>x. approval_trail demo_created = [x] \<and> created_entry x \<and> map_of x ''human'' = Some ''Ann Lee''"
    "machine demo_created = WAITING_FOR_SCOPE" "prepared_by demo_created = ''Ann Lee''" "review_decisions demo_created = []"
    by (auto simp: demo_start_def new_audit_def initial_flow_def require_text_def strip_def lstrip_def is_space_def)
qed

lemma approve_gate_1_total:
  assumes inv: "flow_inv cr key s" and env: "crypto_of env = cr" "trail_key env = key" "crypto_ok cr"
    and gate: "machine s = WAITING_HUMAN_GATE P1" and art: "artifact_of s P1 = Some art"
    and human: "require_text who = Some human" "identity_source_of src = Inr src'"
    and sod: "check_sod ''gate_approval'' human (Some P1) s = Inr ()"
  shows "\<exists>t x. flow_approve_gate env P1 who src s = Inr t \<and> approval_trail t = approval_trail s @ [x] \<and>
     action_of x = Some ''gate_approval'' \<and> map_of x ''human'' = Some human"
proof -
  let ?s1 = "commit_status (s\<lparr>machine := RUNNING_PHASE P2\<rparr>)"
  let ?extra = "approval_extra cr P1 art (run_provenance_extra P1 ?s1) s"
  have move: "move (Approve P1) s = Inr ?s1" by (simp add: move_def machine_defs gate)
  have tr: "appended (crypto_of env) (trail_key env) [] (approval_trail ?s1)" "crypto_ok (crypto_of env)" "src' = src"
    using inv env human(2) by (simp_all add: flow_inv_def identity_source_of_Inr)
  obtain s2 where s2: "stamp_trail env (gate_label P1) human ''gate_approval'' src' ?extra ?s1 = Inr s2"
    using stamp_trail_total [OF tr(2,1)] human(2) tr(3) by blast
  from stamp_trail_Inr [OF tr(2,1) s2] obtain x where x: "s2 = ?s1\<lparr>approval_trail := approval_trail ?s1 @ [x]\<rparr>"
    "same_fields x (approval_entry env P1 human src' art (run_provenance_extra P1 ?s1) s)"
    using env by (auto simp: stamped_with_iff approval_entry_def)
  note f = approval_entry_fields [OF refl, where env = env and gate = P1 and human = human and src = src' and art = art and
      p = P1 and u = ?s1 and s = s]
  have "flow_approve_gate env P1 who src s = Inr (s2\<lparr>dossier := approved_dossier P1 human\<rparr>)"
    using s2 human sod art gate unfolding flow_approve_gate_def
    by (simp add: required_text_of_def require_transition_def can_def move check_review_decisions_def Let_def
        approval_extra_def env del: approved_dossier.simps gate_label.simps artifact_of.simps)
  moreover have "action_of x = Some ''gate_approval''" "map_of x ''human'' = Some human"
    using same_fields_reads(3,6) [OF x(2)] f(1,3) by (simp_all add: action_of_def)
  ultimately show ?thesis using x(1) by simp
qed

definition demo_racm :: racm where
  "demo_racm = \<lparr>rm_theme = ''Access'', risks = []\<rparr>"

text \<open>A crew whose draft passes the reviewer at the first attempt.\<close>

definition demo_run :: "artifact \<Rightarrow> run_env" where
  "demo_run a = \<lparr>crew = \<lambda>n inputs. Crew_done (Some \<lparr>qa_approved = True, rejection_reason = None\<rparr>) (Some a),
     vault_at = \<lambda>n. [], lint = \<lambda>n p x. (True, [], []), strict_linter = False, raised_message = \<lambda>r. [],
     validation_message = [], demo = True, crew_info = None, qa_info = None, enforce_cross_family = False,
     config_files = \<lambda>p. (''agents'', ''tasks''), run_started = ''2026-01-05'', run_ended = ''2026-01-05'', new_run_id = ''r1''\<rparr>"

lemma demo_generate:
  assumes "machine s = WAITING_FOR_SCOPE"
  shows "\<exists>t. generate dump (demo_env i) (demo_run (Racm demo_racm)) P1 s = Inr (t, None) \<and>
     machine t = WAITING_HUMAN_GATE P1 \<and> approval_trail t = approval_trail s \<and> racm_plan t = Some demo_racm \<and>
     prepared_by t = prepared_by s \<and> review_decisions t = review_decisions s"
  using assms
  by (simp add: generate_planning_def move_def machine_defs commit_status_def detect_skills_def Let_def
      run_crew_with_qa_def start_generation_run_def demo_run_def try_attempt_def update_run_def qa_rejection_def evidence_rejection_def
      store_passed_def close_run_def leaving_def complete_run_def planning_done_def)

definition demo_ops :: "(flow_env \<times> flow_op) list" where
  "demo_ops = [(demo_env ''d1'', Record_preparer ''Ann Lee'' False ''declared''),
     (demo_env ''d2'', Generate P1 (demo_run (Racm demo_racm)) (\<lambda>p. [])),
     (demo_env ''d3'', Approve_gate P1 ''Bob Ray'' ''declared'')]"

definition demo_drafted :: audit_flow where
  "demo_drafted = audit_after toy_crypto (Some ''k'') demo_start (take 2 demo_ops)"

lemma demo_drafted_facts:
  "\<exists>x. approval_trail demo_drafted = [x] \<and> created_entry x \<and> map_of x ''human'' = Some ''Ann Lee''"
  "machine demo_drafted = WAITING_HUMAN_GATE P1" "racm_plan demo_drafted = Some demo_racm"
  "prepared_by demo_drafted = ''Ann Lee''" "review_decisions demo_drafted = []"
proof -
  obtain s where s: "generate (\<lambda>p. []) (demo_env ''d2'') (demo_run (Racm demo_racm)) P1 demo_created = Inr (s, None)"
    "machine s = WAITING_HUMAN_GATE P1" "approval_trail s = approval_trail demo_created" "racm_plan s = Some demo_racm"
    "prepared_by s = ''Ann Lee''" "review_decisions s = []"
    using demo_generate [OF demo_created_trail(2)] demo_created_trail(3,4) by fastforce
  then have "session_step toy_crypto (Some ''k'') demo_created
      (demo_env ''d2'', Generate P1 (demo_run (Racm demo_racm)) (\<lambda>p. [])) = Inr s"
    by (simp add: session_step_def demo_created_trail(4) del: generate.simps)
  then have "demo_drafted = s"
    using demo_created_step by (simp add: demo_drafted_def demo_ops_def audit_after_def attempt_def)
  then show "\<exists>x. approval_trail demo_drafted = [x] \<and> created_entry x \<and> map_of x ''human'' = Some ''Ann Lee''"
    "machine demo_drafted = WAITING_HUMAN_GATE P1" "racm_plan demo_drafted = Some demo_racm"
    "prepared_by demo_drafted = ''Ann Lee''" "review_decisions demo_drafted = []"
    using s demo_created_trail(1) by simp_all
qed

lemma demo_drafted_inv: "flow_inv toy_crypto (Some ''k'') demo_drafted"
  using reachable_inv [OF toy_crypto_ok] by (simp add: demo_drafted_def demo_start_def)

lemma demo_reviewer:
  "require_text ''Bob Ray'' = Some ''Bob Ray''" "identity_source_of ''declared'' = Inr ''declared''"
  "\<not> same_person (Some ''Bob Ray'') (Some ''Ann Lee'')"
  by (simp_all add: require_text_def strip_def lstrip_def is_space_def identity_source_of_def by_value_def all_source_def
      same_person_def normalise_identity_def lower_char_def)

lemma demo_drafted_sod:
  "check_sod ''gate_approval'' ''Bob Ray'' (Some P1) demo_drafted = Inr ()"
  "check_sod ''return_for_rework'' ''Bob Ray'' None demo_drafted = Inr ()"
proof -
  have p: "p = ''Ann Lee''" if "p \<in> set (flow_preparers demo_drafted)" for p
    using that demo_drafted_facts(1,4) by (auto simp add: flow_preparers_def dict_get_or_def Let_def split: if_splits)
  then show "check_sod ''gate_approval'' ''Bob Ray'' (Some P1) demo_drafted = Inr ()"
    "check_sod ''return_for_rework'' ''Bob Ray'' None demo_drafted = Inr ()"
    unfolding check_sod_Inr using demo_reviewer(3) by (auto simp: sod_violation_def)
qed

definition demo_approved :: audit_flow where
  "demo_approved = audit_after toy_crypto (Some ''k'') demo_start demo_ops"

lemma demo_approved_trail:
  "\<exists>x y. approval_trail demo_approved = [x, y] \<and> created_entry x \<and> map_of x ''human'' = Some ''Ann Lee'' \<and>
     action_of y = Some ''gate_approval'' \<and> map_of y ''human'' = Some ''Bob Ray''"
proof -
  obtain x where x: "approval_trail demo_drafted = [x]" "created_entry x" "map_of x ''human'' = Some ''Ann Lee''"
    using demo_drafted_facts(1) by blast
  have art: "artifact_of demo_drafted P1 = Some (racm_json demo_racm)" by (simp add: demo_drafted_facts(3))
  obtain t y where t: "flow_approve_gate (demo_env ''d3'') P1 ''Bob Ray'' ''declared'' demo_drafted = Inr t"
    "approval_trail t = [x, y]" "action_of y = Some ''gate_approval''" "map_of y ''human'' = Some ''Bob Ray''"
    using approve_gate_1_total [OF demo_drafted_inv demo_env_simps(1) [of "''d3''"] demo_env_simps(2) toy_crypto_ok
        demo_drafted_facts(2) art demo_reviewer(1,2) demo_drafted_sod(1)] x(1) by auto
  have "session_step toy_crypto (Some ''k'') demo_drafted (demo_env ''d3'', Approve_gate P1 ''Bob Ray'' ''declared'') = Inr t"
    by (simp add: session_step_def t(1) demo_drafted_facts(5))
  moreover have "demo_approved = attempt (session_step toy_crypto (Some ''k'')) demo_drafted
      (demo_env ''d3'', Approve_gate P1 ''Bob Ray'' ''declared'')"
    by (simp add: demo_approved_def demo_drafted_def audit_after_def demo_ops_def)
  ultimately have "demo_approved = t" by (simp add: attempt_def)
  then show ?thesis using x t by blast
qed

end
