(* ===== verification/FlowGates.thy ===== *)
theory FlowGates
  imports FlowDemo
begin

text \<open>
  What the approval of a gate establishes: the guards of \<open>_approve_gate\<close>, what becomes of
  findings whose evidence does not verify, and of the decisions a gate asks for.
\<close>

section \<open>The guards of an approval\<close>

lemma approve_gate_guards:
  assumes "flow_approve_gate env g human_id src s = Inr t"
  shows "\<exists>human art un. require_text human_id = Some human \<and> machine s = WAITING_HUMAN_GATE g \<and>
     machine t = after_gate g \<and> check_sod ''gate_approval'' human (Some g) s = Inr () \<and> artifact_of s g = Some art \<and>
     (g = P2 \<longrightarrow> check_evidence_for_gate_2 env s = Inr un) \<and> check_review_decisions env g s = Inr un"
proof -
  from assms obtain human src' art s1 s2 gate action extra where human: "require_text human_id = Some human"
    and sod: "check_sod ''gate_approval'' human (Some g) s = Inr ()" and art: "artifact_of s g = Some art"
    and ev: "(if g = P2 then check_evidence_for_gate_2 env s else Inr ()) = Inr ()"
    and decs: "check_review_decisions env g s = Inr ()" and mv: "move (Approve g) s = Inr s1"
    and stamp: "stamp_trail env gate human action src' extra s1 = Inr s2"
    and t: "t = s2\<lparr>dossier := approved_dossier g human\<rparr>"
    by (auto simp: flow_approve_gate_def required_text_of_def result_simps Let_def split del: if_split)
  from mv obtain st where st: "lifecycle (machine s) (Approve g) st" "s1 = commit_status (s\<lparr>machine := st\<rparr>)"
    by (auto simp: move_iff)
  then have m: "machine s = WAITING_HUMAN_GATE g" "machine s1 = after_gate g"
    by (auto elim: lifecycle_approveE)
  obtain tr where "s2 = s1\<lparr>approval_trail := tr\<rparr>" using stamp stamp_trail_frame by blast
  then have "machine t = after_gate g" using t m(2) by simp
  moreover have "g = P2 \<longrightarrow> check_evidence_for_gate_2 env s = Inr ()" using ev by (auto split: if_splits)
  ultimately show ?thesis using human m(1) sod art decs by blast
qed

lemma evidence_check_Inr:
  "check_evidence_for_gate_2 env s = Inr u \<longleftrightarrow>
     (\<exists>un. unverified_evidence env s = Inr un \<and> set un \<subseteq> set (accepted_unverified env s))"
  by (auto simp: check_evidence_for_gate_2_def result_simps Let_def filter_empty_conv)

lemma decisions_check_Inr:
  "check_review_decisions env g s = Inr u \<longleftrightarrow>
     g = P1 \<or> \<not> review_decisions_required s \<or>
     (\<exists>v. flow_view env s = Inr v \<and> (case map_of (ev_missing v) (phase_num g) of None \<Rightarrow> [] | Some ms \<Rightarrow> ms) = [])"
  by (auto simp: check_review_decisions_def result_simps Let_def)

text \<open>The parts a comma-separated list is split into hold no comma.\<close>

lemma split_commas_no_comma: "CHR '','' \<notin> set acc \<Longrightarrow> c \<in> set (split_commas acc xs) \<Longrightarrow> CHR '','' \<notin> set c"
  by (induction acc xs rule: split_commas.induct) (auto split: if_splits)

definition overrides_of :: "flow_env \<Rightarrow> audit_flow \<Rightarrow> entry list" where
  "overrides_of env s = filter (\<lambda>e. map_of e ''action'' = Some ''qa_override'' \<and>
     map_of e ''artifact_digest'' = map_option (artifact_digest (crypto_of env)) (artifact_of s P2)) (approval_trail s)"

lemma accepted_unverified_from:
  assumes "c \<in> set (accepted_unverified env s)"
  shows "c \<noteq> [] \<and> CHR '','' \<notin> set c \<and>
     (\<exists>e\<in>set (overrides_of env s). c \<in> set (split_commas [] (dict_get_or e ''unverified_controls'' [])))"
proof -
  obtain p where p: "papers s = Some p" using assms by (cases "papers s") (simp_all add: accepted_unverified_def)
  let ?P = "\<lambda>e. map_of e ''action'' = Some ''qa_override'' \<and>
     map_of e ''gate'' = Some (''QA Override ('' @ phase_label P2 @ '')'') \<and>
     map_of e ''artifact_digest'' = Some (artifact_digest (crypto_of env) (working_papers_json p))"
  show ?thesis
  proof (cases "find ?P (rev (approval_trail s))")
    case None
    then show ?thesis using assms p unfolding accepted_unverified_def Let_def by simp
  next
    case (Some e)
    note e = find_SomeD [OF Some]
    have c: "c \<in> set (split_commas [] (dict_get_or e ''unverified_controls'' []))" "c \<noteq> []"
      using assms Some unfolding accepted_unverified_def p option.case Let_def by simp_all
    have "e \<in> set (overrides_of env s)" using e by (simp add: overrides_of_def p)
    moreover have "CHR '','' \<notin> set c" by (rule split_commas_no_comma [OF _ c(1)]) simp
    ultimately show ?thesis using c by blast
  qed
qed

section \<open>Properties\<close>

text \<open>C6. [gate_approval_guards] What a successful gate approval was granted on: the audit was waiting at
  that gate and no other and is past it afterwards, the artifact exists, the approver has a name
  and is not one of the recorded preparers, gate 3 is not approved by the approver of gate 2,
  and if reviewer decisions are required none is missing for gates 2 and 3.\<close>
theorem gate_approval_guards:
  assumes "flow_approve_gate env g human_id src s = Inr t"
  shows "machine s = WAITING_HUMAN_GATE g \<and> machine t = after_gate g \<and> artifact_of s g \<noteq> None \<and> strip human_id \<noteq> [] \<and>
     (\<forall>p\<in>set (flow_preparers s). \<not> same_person (Some (strip human_id)) (Some p)) \<and>
     (g = P3 \<longrightarrow> \<not> same_person (Some (strip human_id)) (gate_approver (approval_trail s) P2)) \<and>
     (g \<noteq> P1 \<and> review_decisions_required s \<longrightarrow>
        (\<exists>v. flow_view env s = Inr v \<and> map_of (ev_missing v) (phase_num g) \<in> {None, Some []}))"
proof -
  from approve_gate_guards [OF assms] obtain human art un where g: "require_text human_id = Some human"
    "machine s = WAITING_HUMAN_GATE g" "machine t = after_gate g" "check_sod ''gate_approval'' human (Some g) s = Inr ()"
    "artifact_of s g = Some art" "check_review_decisions env g s = Inr un" by blast
  have human: "human = strip human_id" "strip human_id \<noteq> []"
    using g(1) by (auto simp: require_text_def split: if_splits)
  have sod: "sod_violation ''gate_approval'' human (Some p) (approval_trail s) (Some g) = None" if "p \<in> set (flow_preparers s)" for p
    using g(4) that unfolding check_sod_Inr by blast
  have "\<not> same_person (Some human) (Some p)" if "p \<in> set (flow_preparers s)" for p
    using sod [OF that] unfolding sod_approval_None_iff by blast
  moreover have "g = P3 \<longrightarrow> \<not> same_person (Some human) (gate_approver (approval_trail s) P2)"
    using sod [OF list.set_sel(1) [OF flow_preparers_nonempty]] unfolding sod_approval_None_iff by blast
  moreover have "g \<noteq> P1 \<and> review_decisions_required s \<longrightarrow>
      (\<exists>v. flow_view env s = Inr v \<and> map_of (ev_missing v) (phase_num g) \<in> {None, Some []})"
    using g(6) unfolding decisions_check_Inr
    by (elim disjE exE) (simp_all, rename_tac v, case_tac "map_of (ev_missing v) (phase_num g)", simp_all)
  ultimately show ?thesis using g human by auto
qed

text \<open>C5. [gate_2_evidence] Gate 2 is not approved over evidence that does not verify: every finding whose
  quote is not found in the vault at approval time is one that a human accepted by name in a
  recorded QA override of exactly these working papers.\<close>
theorem gate_2_evidence:
  assumes "flow_approve_gate env P2 human_id src s = Inr t"
  shows "\<exists>un. unverified_evidence env s = Inr un \<and> (\<forall>c\<in>set un. \<exists>e\<in>set (approval_trail s).
     map_of e ''action'' = Some ''qa_override'' \<and>
     map_of e ''artifact_digest'' = map_option (artifact_digest (crypto_of env)) (artifact_of s P2) \<and>
     c \<in> set (split_commas [] (dict_get_or e ''unverified_controls'' [])))"
proof -
  obtain u where "check_evidence_for_gate_2 env s = Inr u" using approve_gate_guards [OF assms] by blast
  then obtain un where un: "unverified_evidence env s = Inr un" "set un \<subseteq> set (accepted_unverified env s)"
    unfolding evidence_check_Inr by blast
  have "\<exists>e\<in>set (overrides_of env s). c \<in> set (split_commas [] (dict_get_or e ''unverified_controls'' []))"
    if "c \<in> set un" for c
    using accepted_unverified_from un(2) that by blast
  then show ?thesis using un(1) by (auto simp: overrides_of_def)
qed

text \<open>The override cannot accept a finding whose control id holds a
  comma: the ids are stored joined by commas and split again, so while such a finding is
  unverified gate 2 is refused whatever overrides were recorded.\<close>
lemma comma_control_blocks_gate_2:
  assumes "unverified_evidence env s = Inr un" "c \<in> set un" "CHR '','' \<in> set c"
  shows "flow_approve_gate env P2 human_id src s \<noteq> Inr t"
proof
  assume "flow_approve_gate env P2 human_id src s = Inr t"
  then obtain u where "check_evidence_for_gate_2 env s = Inr u" using approve_gate_guards by blast
  then have "c \<in> set (accepted_unverified env s)" using assms(1,2) unfolding evidence_check_Inr by auto
  then show False using accepted_unverified_from assms(3) by blast
qed


definition demo_finding :: "string \<Rightarrow> string \<Rightarrow> finding" where
  "demo_finding cid quote = \<lparr>f_control_id = cid, vault_id_reference = ''00000000-0000-0000-0000-000000000000'',
     exact_quote = quote, tod_conclusion = TOD_NOT_TESTED, toe_conclusion = TOE_NOT_TESTED, toe_basis = None,
     items_tested = None, exceptions_noted = None, f_result = Some NOT_TESTED, preliminary_deficiency = None,
     test_conclusion = [], legacy_severity = None\<rparr>"

definition demo_gate_2 :: "finding list \<Rightarrow> audit_flow" where
  "demo_gate_2 fs = (initial_flow (WAITING_HUMAN_GATE P2))\<lparr>theme := ''Access'', prepared_by := ''Ann Lee'',
     papers := Some \<lparr>wp_theme = ''Access'', findings = fs\<rparr>\<rparr>"

lemma demo_unverified:
  "unverified_evidence (demo_env i) (demo_gate_2 [demo_finding ''AC-1'' []]) = Inr []"
  "unverified_evidence (demo_env i) (demo_gate_2 [demo_finding ''AC-2,AC-3'' ''a quote that nobody registered'']) = Inr [''AC-2,AC-3'']"
  by (simp_all add: unverified_evidence_def unverified_findings_def demo_gate_2_def demo_finding_def initial_flow_def
      demo_env_def verify_exact_quote_def finding_marked_not_tested_def normalised_label_def is_space_def lower_char_def
      strip_def lstrip_def char_of_def bit_0)

lemma demo_gate_2_approved:
  "\<exists>t. flow_approve_gate (demo_env i) P2 ''Bob Ray'' ''declared'' (demo_gate_2 [demo_finding ''AC-1'' []]) = Inr t"
proof -
  let ?s = "demo_gate_2 [demo_finding ''AC-1'' []]"
  let ?s1 = "commit_status (?s\<lparr>machine := RUNNING_PHASE P3\<rparr>)"
  have who: "require_text ''Bob Ray'' = Some ''Bob Ray''" by (simp add: require_text_def strip_def lstrip_def is_space_def)
  have src: "identity_source_of ''declared'' = Inr ''declared''"
    by (simp add: identity_source_of_def by_value_def all_source_def)
  have "\<not> same_person (Some ''Bob Ray'') (Some ''Ann Lee'')"
    by (simp add: same_person_def normalise_identity_def is_space_def lower_char_def)
  then have sod: "check_sod ''gate_approval'' ''Bob Ray'' (Some P2) ?s = Inr ()"
    by (simp add: check_sod_Inr flow_preparers_def demo_gate_2_def initial_flow_def sod_violation_def)
  have gate: "machine ?s = WAITING_HUMAN_GATE P2" by (simp add: demo_gate_2_def initial_flow_def)
  have art: "artifact_of ?s P2 = Some (working_papers_json \<lparr>wp_theme = ''Access'', findings = [demo_finding ''AC-1'' []]\<rparr>)"
    by (simp add: demo_gate_2_def)
  have ev: "check_evidence_for_gate_2 (demo_env i) ?s = Inr ()" by (simp add: evidence_check_Inr demo_unverified)
  have decs: "check_review_decisions (demo_env i) P2 ?s = Inr ()"
    by (simp add: decisions_check_Inr review_decisions_required_def demo_gate_2_def initial_flow_def)
  have move: "move (Approve P2) ?s = Inr ?s1" by (simp add: move_def machine_defs gate)
  have tr: "appended (crypto_of (demo_env i)) (trail_key (demo_env i)) [] (approval_trail ?s1)" "crypto_ok (crypto_of (demo_env i))"
    by (simp_all add: demo_gate_2_def initial_flow_def)
  show ?thesis
    unfolding flow_approve_gate_def
    using sod gate ev decs who src bindE_total [OF stamp_trail_total [OF tr(2,1) src]]
    by (simp add: required_text_of_def require_transition_def can_def move Let_def art
        del: approved_dossier.simps gate_label.simps artifact_of.simps)
qed

theorem gate_approval_guards_witness:
  "strip ''Bob Ray'' \<noteq> [] \<and> machine (demo_gate_2 [demo_finding ''AC-1'' []]) = WAITING_HUMAN_GATE P2 \<and>
     \<not> same_person (Some (strip ''Bob Ray'')) (Some (hd (flow_preparers (demo_gate_2 [demo_finding ''AC-1'' []]))))"
proof -
  obtain t where "flow_approve_gate (demo_env []) P2 ''Bob Ray'' ''declared'' (demo_gate_2 [demo_finding ''AC-1'' []]) = Inr t"
    using demo_gate_2_approved by blast
  from gate_approval_guards [OF this] show ?thesis using flow_preparers_nonempty by (meson list.set_sel(1))
qed

theorem gate_2_evidence_witness:
  "\<exists>un. unverified_evidence (demo_env []) (demo_gate_2 [demo_finding ''AC-1'' []]) = Inr un \<and> un = []"
proof -
  obtain t where "flow_approve_gate (demo_env []) P2 ''Bob Ray'' ''declared'' (demo_gate_2 [demo_finding ''AC-1'' []]) = Inr t"
    using demo_gate_2_approved by blast
  from gate_2_evidence [OF this] show ?thesis by (auto simp: demo_gate_2_def initial_flow_def)
qed

theorem comma_control_blocks_gate_2_witness:
  "flow_approve_gate (demo_env []) P2 ''Bob Ray'' ''declared''
     (demo_gate_2 [demo_finding ''AC-2,AC-3'' ''a quote that nobody registered'']) \<noteq> Inr (demo_gate_2 [])"
  by (rule comma_control_blocks_gate_2 [OF demo_unverified(2), of "''AC-2,AC-3''"]) simp_all


text \<open>Two findings on one control: a clean one, and one that noted exceptions.\<close>

definition demo_clean :: finding where
  "demo_clean = (demo_finding ''AC-1'' ''quoted evidence'')
     \<lparr>tod_conclusion := TOD_EFFECTIVE, toe_conclusion := TOE_EFFECTIVE, f_result := Some NO_EXCEPTION,
       preliminary_deficiency := Some False\<rparr>"

definition demo_exception :: finding where
  "demo_exception = (demo_finding ''AC-1'' ''quoted evidence'')
     \<lparr>tod_conclusion := TOD_EFFECTIVE, toe_conclusion := TOE_EXCEPTIONS_NOTED, exceptions_noted := Some 3,
       f_result := Some EXCEPTION, preliminary_deficiency := Some True\<rparr>"

definition demo_missing :: "finding list \<Rightarrow> raised + missing_decision list option" where
  "demo_missing fs = bindE (view_of toy_crypto (flow_context (demo_gate_2 fs)) [] True) (\<lambda>v. Inr (map_of (ev_missing v) 2))"

lemma demo_missing_simps:
  "demo_missing [demo_clean, demo_exception] = Inr (Some [])"
  "demo_missing [demo_exception] = Inr (Some [\<lparr>md_gate = 2, md_subject_type = ''finding'', md_subject_id = ''AC-1'',
     md_required = [''sign_off'', ''challenge'']\<rparr>])"
  by (simp_all add: demo_missing_def demo_gate_2_def demo_clean_def demo_exception_def demo_finding_def view_of_def flow_context_def
      initial_flow_def finding_views_def context_findings_def finding_view_of_def effective_conclusions_def decision_states_def
      active_by_slot_def deficiency_views_def context_evaluations_def missing_decisions_def missing_gate_2_def Let_def
      draft_conclusions_def result_text_def decision_ref_of_def active_review_def finding_needs_review_def derive_result_def or_zero_def
      key_control_of_def key_controls_def GATE_2_REVIEW_EXCEPTIONS_def GATE_2_REVIEW_KEY_CONTROLS_def dict_get_or_def
      del: tod_value.simps toe_value.simps)


end
