(* ===== verification/SchemaProps.thy ===== *)
theory SchemaProps
  imports Schema
begin

text \<open>
  What the validators of \<open>src/swarm/schema.py\<close> establish: which findings and reports are accepted,
  what is filled in, and how findings of old sessions are read.
\<close>

section \<open>Findings\<close>

text \<open>The finding the validator is to return: the result and the preliminary flag filled in.\<close>

definition filled_in :: "finding \<Rightarrow> finding" where
  "filled_in f =
     (let res = derive_result (tod_conclusion f) (toe_conclusion f) (exceptions_noted f) in
      f\<lparr>f_result := Some res,
        preliminary_deficiency := (case preliminary_deficiency f of None \<Rightarrow> Some (res = EXCEPTION) | Some b \<Rightarrow> Some b)\<rparr>)"

text \<open>The validator of a finding returns exactly the well-formed completion of what
  it was given: it accepts a finding if and only if that completion is consistent (no exceptions
  under an Effective conclusion, a preliminary deficiency only for an Exception, evidence for
  every tested control) and a result that was given is the derived one; validating again changes
  nothing.\<close>
lemma finding_validator:
  "(consistent f = Inr g \<longleftrightarrow> g = filled_in f \<and> finding_ok g \<and> f_result f \<in> {None, f_result g}) \<and>
   (finding_ok g \<longleftrightarrow> consistent g = Inr g)"
proof -
  have accepted: "consistent f = Inr g \<longleftrightarrow> g = filled_in f \<and> finding_ok g \<and> f_result f \<in> {None, f_result g}" for f g
    by (cases "preliminary_deficiency f")
       (auto simp: consistent_def filled_in_def finding_ok_def Let_def)
  have "filled_in g = g" if "finding_ok g"
    using that by (cases g) (auto simp: filled_in_def finding_ok_def Let_def)
  then show ?thesis using accepted by auto
qed

section \<open>Reports\<close>

definition fits_scale :: "deficiency list \<Rightarrow> deficiency_scale \<Rightarrow> bool" where
  "fits_scale es s \<longleftrightarrow> classification ` set es \<subseteq> set (scale_classifications s)"

lemma fits_both: "fits_scale es ICFR \<Longrightarrow> fits_scale es RISK_RATING \<Longrightarrow> e \<in> set es \<Longrightarrow> classification e = NOT_A_DEFICIENCY"
  by (fastforce simp: fits_scale_def)

lemma fits_none: "\<forall>e\<in>set es. classification e = NOT_A_DEFICIENCY \<Longrightarrow> fits_scale es s"
  by (cases s) (auto simp: fits_scale_def)

lemma check_scale_None:
  "check_scale None es = Inr q \<longleftrightarrow>
     (case q of
        Some s \<Rightarrow> fits_scale es s \<and> (\<exists>e\<in>set es. classification e \<noteq> NOT_A_DEFICIENCY)
      | None \<Rightarrow> \<forall>e\<in>set es. classification e = NOT_A_DEFICIENCY)"
proof -
  have q: "check_scale None es = (case filter (fits_scale es) [ICFR, RISK_RATING] of
      [] \<Rightarrow> Inl MixedScales | [s] \<Rightarrow> Inr (Some s) | _ \<Rightarrow> Inr None)"
    by (simp add: check_scale_def fits_scale_def)
  have other: "\<exists>e\<in>set es. classification e \<noteq> NOT_A_DEFICIENCY" if "\<not> fits_scale es s" for s
    using fits_none that by blast
  show ?thesis
  proof (cases "fits_scale es ICFR"; cases "fits_scale es RISK_RATING")
    assume both: "fits_scale es ICFR" "fits_scale es RISK_RATING"
    then show ?thesis using fits_both [OF both] by (auto simp: q split: option.splits)
  next
    assume one: "fits_scale es ICFR" "\<not> fits_scale es RISK_RATING"
    have "q = Some ICFR \<longleftrightarrow> (\<exists>s. q = Some s \<and> fits_scale es s)"
      using one by (metis deficiency_scale.exhaust)
    then show ?thesis using one other [OF one(2)] by (auto simp: q split: option.splits)
  next
    assume one: "\<not> fits_scale es ICFR" "fits_scale es RISK_RATING"
    have "q = Some RISK_RATING \<longleftrightarrow> (\<exists>s. q = Some s \<and> fits_scale es s)"
      using one by (metis deficiency_scale.exhaust)
    then show ?thesis using one other [OF one(1)] by (auto simp: q split: option.splits)
  next
    assume no: "\<not> fits_scale es ICFR" "\<not> fits_scale es RISK_RATING"
    then have "\<not> fits_scale es s" for s by (cases s) simp_all
    then show ?thesis using other by (auto simp: q split: option.splits)
  qed
qed

lemma check_scale_Some: "check_scale (Some s) es = Inr q \<longleftrightarrow> q = Some s \<and> fits_scale es s"
  by (auto simp: check_scale_def fits_scale_def filter_empty_conv Let_def)

text \<open>C40. [report_validator] A report whose deficiencies pass their own validator is accepted exactly when
  all its classifications belong to one scale: the given one, or when none was given the only one
  that holds them all. The accepted report is well formed, differs from the given one in a
  missing scale at most, and is accepted again unchanged. No accepted report mixes the ICFR and
  the risk-rating terms.\<close>
theorem report_validator:
  assumes "\<forall>e\<in>set (deficiency_evaluations r). validate_deficiency e = Inr e"
  shows "((\<exists>q. validate_report r = Inr q) \<longleftrightarrow> (\<exists>s. (rp_scale r \<in> {None, Some s}) \<and>
       classification ` set (deficiency_evaluations r) \<subseteq> set (scale_classifications s))) \<and>
     (validate_report r = Inr q \<longrightarrow> report_ok q \<and> q = r\<lparr>rp_scale := rp_scale q\<rparr> \<and>
       rp_scale r \<in> {None, rp_scale q} \<and> validate_report q = Inr q)"
proof -
  let ?es = "deficiency_evaluations r"
  have mw: "\<forall>e\<in>set ?es. material_weakness_ok (classification e) (likelihood e) (magnitude e)"
    using assms by (auto simp: validate_deficiency_def split: if_splits)
  have accept: "(\<exists>x. check_scale (rp_scale r) ?es = Inr x) \<longleftrightarrow> (\<exists>s. rp_scale r \<in> {None, Some s} \<and> fits_scale ?es s)"
  proof (cases "rp_scale r")
    case None
    show ?thesis
    proof (cases "\<forall>e\<in>set ?es. classification e = NOT_A_DEFICIENCY")
      case True
      then have "check_scale None ?es = Inr None" by (simp add: check_scale_None)
      then show ?thesis using None fits_none [OF True] by auto
    next
      case False
      then show ?thesis using None check_scale_None [of ?es] by (auto split: option.splits)
    qed
  qed (auto simp: check_scale_Some)
  have "(\<exists>q. validate_report r = Inr q) \<longleftrightarrow> (\<exists>x. check_scale (rp_scale r) ?es = Inr x)"
    by (auto simp: validate_report_def bindE_Inr_iff)
  moreover have "report_ok q \<and> q = r\<lparr>rp_scale := rp_scale q\<rparr> \<and> rp_scale r \<in> {None, rp_scale q} \<and> validate_report q = Inr q"
    if v: "validate_report r = Inr q" for q
  proof -
    obtain x where x: "check_scale (rp_scale r) ?es = Inr x" "q = r\<lparr>rp_scale := x\<rparr>"
      using v by (auto simp: validate_report_def bindE_Inr_iff)
    have again: "check_scale x ?es = Inr x"
      using x(1) by (cases "rp_scale r"; cases x) (auto simp: check_scale_Some check_scale_None)
    have scale: "case x of None \<Rightarrow> (\<forall>e\<in>set ?es. classification e = NOT_A_DEFICIENCY) | Some s \<Rightarrow> fits_scale ?es s"
      using again by (cases x) (auto simp: check_scale_Some check_scale_None)
    have "rp_scale r \<in> {None, x}" using x(1) by (cases "rp_scale r") (auto simp: check_scale_Some)
    then show ?thesis
      using x(2) again mw scale by (auto simp: report_ok_def validate_report_def fits_scale_def split: option.splits)
  qed
  ultimately show ?thesis using accept unfolding fits_scale_def by blast
qed

definition demo_report :: final_report where
  "demo_report = \<lparr>executive_summary = [], detailed_report = [], compliance_tone_approved = True,
     deficiency_evaluations = [\<lparr>deficiency_id = ''D1'', e_title = [], related_findings = [''AC-1''], related_risks = [],
       compensating_controls = [], likelihood = RATING_HIGH, magnitude = RATING_HIGH, classification = MATERIAL_WEAKNESS,
       e_rationale = []\<rparr>], rp_scale = None, rp_oscal_sar = None\<rparr>"

theorem report_validator_witness:
  "\<exists>q. validate_report demo_report = Inr q \<and> rp_scale q = Some ICFR \<and> report_ok q"
proof -
  have ok: "\<forall>e\<in>set (deficiency_evaluations demo_report). validate_deficiency e = Inr e"
    by (simp add: demo_report_def validate_deficiency_def material_weakness_ok_def)
  have "validate_report demo_report = Inr (demo_report\<lparr>rp_scale := Some ICFR\<rparr>)"
    by (simp add: validate_report_def check_scale_def demo_report_def)
  with report_validator [OF ok, of "demo_report\<lparr>rp_scale := Some ICFR\<rparr>"] show ?thesis by simp
qed

section \<open>Findings of old sessions\<close>

definition migrated_to ::
  "design_conclusion \<Rightarrow> operating_conclusion \<Rightarrow> finding_result \<Rightarrow> bool \<Rightarrow> (string \<times> json) list \<Rightarrow> bool" where
  "migrated_to tod toe res prelim data \<longleftrightarrow>
     map_of data ''tod_conclusion'' = Some (JStr (tod_value tod)) \<and> map_of data ''toe_conclusion'' = Some (JStr (toe_value toe)) \<and>
     map_of data ''result'' = Some (JStr (result_value res)) \<and> map_of data ''preliminary_deficiency'' = Some (JBool prelim)"

lemma set_conclusions_migrated: "migrated_to tod toe res prelim (set_conclusions tod toe res prelim data)"
  by (simp add: migrated_to_def set_conclusions_def dict_get_update)

text \<open>A finding stored with only a severity is read as one with a result that
  follows from its conclusions: no exception only for a passing label, not tested only for a
  label that says so, and for any other label, known or not, an Exception that is a preliminary
  deficiency. A finding that already has conclusions is left alone, so migrating twice is
  migrating once.\<close>
lemma legacy_severity_fails_closed:
  assumes "map_of data ''tod_conclusion'' = None" "map_of data ''toe_conclusion'' = None" "map_of data ''result'' = None"
    and label: "label = norm_label (case severity of None \<Rightarrow> [] | Some s \<Rightarrow> s)"
  shows "\<exists>tod toe res. migrated_to tod toe res (res = EXCEPTION) (migrate_legacy_severity severity data) \<and>
     res = derive_result tod toe None \<and> (res = NO_EXCEPTION \<longleftrightarrow> label \<in> set legacy_pass) \<and>
     (res = NOT_TESTED \<longleftrightarrow> label \<in> set legacy_not_tested) \<and>
     migrate_legacy_severity x (migrate_legacy_severity severity data) = migrate_legacy_severity severity data"
proof -
  let ?data = "dict_set ''legacy_severity'' (JStr (case severity of None \<Rightarrow> ''None'' | Some s \<Rightarrow> s)) data"
  have new: "\<not> (\<exists>k\<in>{''tod_conclusion'', ''toe_conclusion'', ''result''}. map_of data k \<noteq> None)" using assms by simp
  have m: "migrate_legacy_severity severity data =
      (if label \<in> set legacy_pass then set_conclusions TOD_EFFECTIVE TOE_EFFECTIVE NO_EXCEPTION False ?data
       else if label \<in> set legacy_not_tested then set_conclusions TOD_NOT_TESTED TOE_NOT_TESTED NOT_TESTED False ?data
       else set_conclusions TOD_NOT_TESTED TOE_INEFFECTIVE EXCEPTION True ?data)"
    unfolding migrate_legacy_severity_def Let_def label by (simp only: new if_False)
  have again: "migrate_legacy_severity x d = d" if "migrated_to tod toe res b d" for tod toe res b d
    using that by (simp add: migrate_legacy_severity_def migrated_to_def)
  have disjoint: "label \<in> set legacy_pass \<Longrightarrow> label \<notin> set legacy_not_tested"
    by (auto simp: legacy_pass_def legacy_not_tested_def)
  consider "label \<in> set legacy_pass" | "label \<in> set legacy_not_tested" "label \<notin> set legacy_pass"
    | "label \<notin> set legacy_pass" "label \<notin> set legacy_not_tested" by blast
  then show ?thesis
  proof cases
    case 1
    note d = set_conclusions_migrated [of TOD_EFFECTIVE TOE_EFFECTIVE NO_EXCEPTION False ?data]
    show ?thesis using d again [OF d] 1 disjoint unfolding m
      by (intro exI [of _ TOD_EFFECTIVE] exI [of _ TOE_EFFECTIVE] exI [of _ NO_EXCEPTION]) (simp add: derive_result_def or_zero_def)
  next
    case 2
    note d = set_conclusions_migrated [of TOD_NOT_TESTED TOE_NOT_TESTED NOT_TESTED False ?data]
    show ?thesis using d again [OF d] 2 unfolding m
      by (intro exI [of _ TOD_NOT_TESTED] exI [of _ TOE_NOT_TESTED] exI [of _ NOT_TESTED]) (simp add: derive_result_def or_zero_def)
  next
    case 3
    note d = set_conclusions_migrated [of TOD_NOT_TESTED TOE_INEFFECTIVE EXCEPTION True ?data]
    show ?thesis using d again [OF d] 3 unfolding m
      by (intro exI [of _ TOD_NOT_TESTED] exI [of _ TOE_INEFFECTIVE] exI [of _ EXCEPTION]) (simp add: derive_result_def or_zero_def)
  qed
qed

end
