(* ===== verification/Tokens.thy ===== *)
theory Tokens
  imports Evidence Policy Skills Complex_Main
begin

text \<open>
  Personal reviewer tokens: \<open>src/api/reviewer_tokens.py\<close>. The tokens file is a JSON value (or the
  reason it cannot be read), the registry the entries it parses to; the limiter is its dictionary
  of failure times. The random part of a token, the clock and the file's stamp are arguments;
  locks, the atomic rename and the command line are left out.
\<close>

section \<open>Configuration\<close>

text \<open>The process environment is a dictionary; \<open>os.environ.get(name, default)\<close>.\<close>

definition getenv :: "dict \<Rightarrow> string \<Rightarrow> string \<Rightarrow> string" where
  "getenv env name fallback = dict_get_or env name fallback"

definition TRUTHY :: "string list" where
  "TRUTHY = [''1'', ''true'', ''yes'', ''on'']"

definition BLOCKED_ENVIRONMENTS :: "string list" where
  "BLOCKED_ENVIRONMENTS = [''production'', ''prod'', ''staging'', ''stage'']"

definition environment_of :: "dict \<Rightarrow> string" where
  "environment_of env = lower (strip (getenv env ''ENVIRONMENT'' ''local''))"

definition demo_mode_requested :: "dict \<Rightarrow> bool" where
  "demo_mode_requested env \<longleftrightarrow> lower (strip (getenv env ''DEMO_MODE'' ''0'')) \<in> set TRUTHY"

datatype demo_error = DemoModeNotAllowedError string

definition demo_mode_enabled :: "dict \<Rightarrow> demo_error + bool" where
  "demo_mode_enabled env =
     (if \<not> demo_mode_requested env then Inr False
      else if environment_of env \<in> set BLOCKED_ENVIRONMENTS then Inl (DemoModeNotAllowedError (environment_of env))
      else Inr True)"

definition configured_path :: "dict \<Rightarrow> string option" where
  "configured_path env = (let v = strip (getenv env ''REVIEWER_TOKENS_FILE'' []) in if v = [] then None else Some v)"

text \<open>A refused demo mode leaves the tokens mandatory.\<close>

definition reviewer_tokens_mandatory :: "dict \<Rightarrow> bool" where
  "reviewer_tokens_mandatory env \<longleftrightarrow>
     (case demo_mode_enabled env of Inr True \<Rightarrow> False
      | _ \<Rightarrow> lower (strip (getenv env ''REVIEWER_TOKENS_MANDATORY'' [])) \<in> set TRUTHY \<or>
          environment_of env \<in> set BLOCKED_ENVIRONMENTS)"

lemma mandatory_iff:
  "reviewer_tokens_mandatory env \<longleftrightarrow>
     environment_of env \<in> set BLOCKED_ENVIRONMENTS \<or>
     (lower (strip (getenv env ''REVIEWER_TOKENS_MANDATORY'' [])) \<in> set TRUTHY \<and> \<not> demo_mode_requested env)"
  by (auto simp: reviewer_tokens_mandatory_def demo_mode_enabled_def)

section \<open>The tokens file\<close>

datatype tokens_error =
    Cannot_read
  | Not_json
  | Not_an_object
  | Unsupported_version
  | Reviewers_not_a_list
  | Entry_not_an_object nat
  | Entry_without_name nat
  | Name_too_long nat
  | Bad_token_hash nat
  | Duplicate_name nat
  | Duplicate_token_hash nat
  | Blank_name
  | Long_name
  | Already_has_token string
  | Unicode_error

text \<open>
  What is at the path. \<open>Path.read_text\<close> raises \<open>UnicodeDecodeError\<close>, which is no \<open>OSError\<close>, on
  bytes that are not UTF-8: \<open>Unicode_error\<close> is not a \<open>ReviewerTokensError\<close>.
\<close>

datatype tokens_file = Missing | Os_error | Not_utf8 | Invalid_json | Content json

record reviewer_entry =
  re_name :: string
  token_hash :: string
  created_at :: string

type_synonym registry = "reviewer_entry list"

definition TOKEN_PREFIX :: string where "TOKEN_PREFIX = ''grcrt_''"
definition MAX_TOKEN_LENGTH :: nat where "MAX_TOKEN_LENGTH = 256"
definition MAX_NAME_LENGTH :: nat where "MAX_NAME_LENGTH = 200"

definition generate_token :: "string \<Rightarrow> string" where
  "generate_token random = TOKEN_PREFIX @ random"

definition hash_token :: "crypto \<Rightarrow> string \<Rightarrow> string" where
  "hash_token cr token = ''sha256:'' @ sha256_hex cr token"

definition clean_name :: "string \<Rightarrow> string" where
  "clean_name v = join_with '' '' (py_split v)"

definition lower_hex :: "char \<Rightarrow> bool" where
  "lower_hex c \<longleftrightarrow> c \<in> set ''0123456789abcdef''"

text \<open>\<open>^sha256:[0-9a-f]{64}$\<close>: the \<open>$\<close> also matches before a final newline.\<close>

definition hash_ok :: "string \<Rightarrow> bool" where
  "hash_ok h = (case strip_prefix ''sha256:'' h of None \<Rightarrow> False
     | Some d \<Rightarrow> list_all lower_hex (take 64 d) \<and> length d \<ge> 64 \<and> drop 64 d \<in> {[], [CHR 0x0A]})"

text \<open>\<open>str\<close> fields; anything else is read as the empty string.\<close>

definition str_of :: "json option \<Rightarrow> string" where
  "str_of v = (case v of Some (JStr s) \<Rightarrow> s | _ \<Rightarrow> [])"

fun parse_entries ::
  "nat \<Rightarrow> string list \<Rightarrow> string list \<Rightarrow> json list \<Rightarrow> tokens_error + registry" where
  "parse_entries i names hashes [] = Inr []"
| "parse_entries i names hashes (item # items) =
     (case item of
        JObj _ \<Rightarrow>
          (let name = clean_name (str_of (json_get item ''name''));
               h = str_of (json_get item ''token_hash'');
               key = normalise_identity (Some name) in
           if name = [] then Inl (Entry_without_name i)
           else if py_len name > MAX_NAME_LENGTH then Inl (Name_too_long i)
           else if \<not> hash_ok h then Inl (Bad_token_hash i)
           else if key \<in> set names then Inl (Duplicate_name i)
           else if h \<in> set hashes then Inl (Duplicate_token_hash i)
           else bindE (parse_entries (Suc i) (key # names) (h # hashes) items) (\<lambda>es.
             Inr (\<lparr>re_name = name, token_hash = h, created_at = str_of (json_get item ''created_at'')\<rparr> # es)))
      | _ \<Rightarrow> Inl (Entry_not_an_object i))"

text \<open>\<open>True == 1\<close> in Python, so a version of \<open>true\<close> passes too.\<close>

definition parse_registry :: "json \<Rightarrow> tokens_error + registry" where
  "parse_registry data =
     (case data of
        JObj _ \<Rightarrow>
          if json_get data ''version'' \<notin> {Some (JInt 1), Some (JBool True)} then Inl Unsupported_version
          else (case json_get data ''reviewers'' of
             Some (JList raw) \<Rightarrow> parse_entries 0 [] [] raw
           | _ \<Rightarrow> Inl Reviewers_not_a_list)
      | _ \<Rightarrow> Inl Not_an_object)"

definition read_registry :: "tokens_file \<Rightarrow> tokens_error + registry" where
  "read_registry f =
     (case f of Missing \<Rightarrow> Inl Cannot_read | Os_error \<Rightarrow> Inl Cannot_read | Not_utf8 \<Rightarrow> Inl Unicode_error
      | Invalid_json \<Rightarrow> Inl Not_json | Content j \<Rightarrow> parse_registry j)"

section \<open>Authentication\<close>

text \<open>Every digest is compared, so the last match counts.\<close>

definition authenticate :: "crypto \<Rightarrow> registry \<Rightarrow> string option \<Rightarrow> string option" where
  "authenticate cr es token =
     (case token of None \<Rightarrow> None
      | Some t \<Rightarrow>
          if t = [] \<or> py_len t > MAX_TOKEN_LENGTH then None
          else foldl (\<lambda>match e. if hash_token cr t = token_hash e then Some (re_name e) else match) None es)"

definition find_reviewer :: "registry \<Rightarrow> string \<Rightarrow> reviewer_entry option" where
  "find_reviewer es name = find (\<lambda>e. normalise_identity (Some (re_name e)) = normalise_identity (Some name)) es"

section \<open>Issuing and revoking\<close>

definition entry_value :: "reviewer_entry \<Rightarrow> json" where
  "entry_value e = JObj [(''name'', JStr (re_name e)), (''token_hash'', JStr (token_hash e)), (''created_at'', JStr (created_at e))]"

definition load_for_edit :: "tokens_file \<Rightarrow> tokens_error + registry" where
  "load_for_edit f = (if f = Missing then Inr [] else read_registry f)"

text \<open>\<open>_write_atomic\<close>: the new content is parsed before it replaces the file.\<close>

definition write_atomic :: "registry \<Rightarrow> tokens_error + tokens_file" where
  "write_atomic es =
     (let j = sort_keys (JObj [(''version'', JInt 1), (''reviewers'', JList (map entry_value es))]) in
      bindE (parse_registry j) (\<lambda>_. Inr (Content j)))"

definition add_reviewer ::
  "crypto \<Rightarrow> string \<Rightarrow> string \<Rightarrow> tokens_file \<Rightarrow> string \<Rightarrow> bool \<Rightarrow> tokens_error + tokens_file \<times> string" where
  "add_reviewer cr now random f raw replace =
     (let name = clean_name raw; key = normalise_identity (Some name) in
      bindE (requireE (name \<noteq> []) Blank_name) (\<lambda>_.
      bindE (requireE (py_len name \<le> MAX_NAME_LENGTH) Long_name) (\<lambda>_.
      bindE (load_for_edit f) (\<lambda>es.
      let existing = filter (\<lambda>e. normalise_identity (Some (re_name e)) = key) es;
          others = filter (\<lambda>e. normalise_identity (Some (re_name e)) \<noteq> key) es;
          token = generate_token random in
      bindE (requireE (existing = [] \<or> replace) (Already_has_token (re_name (hd existing)))) (\<lambda>_.
      bindE (write_atomic (others @ [\<lparr>re_name = name, token_hash = hash_token cr token, created_at = now\<rparr>])) (\<lambda>g.
        Inr (g, token)))))))"

definition remove_reviewer :: "tokens_file \<Rightarrow> string \<Rightarrow> tokens_error + tokens_file \<times> bool" where
  "remove_reviewer f name =
     bindE (load_for_edit f) (\<lambda>es.
       let kept = filter (\<lambda>e. normalise_identity (Some (re_name e)) \<noteq> normalise_identity (Some name)) es in
       if length kept = length es then Inr (f, False)
       else bindE (write_atomic kept) (\<lambda>g. Inr (g, True)))"

section \<open>The cache\<close>

text \<open>\<open>load_registry\<close>: the parsed file is kept with its stamp (mtime and size) and path.\<close>

type_synonym 'st registry_cache = "(string \<times> 'st \<times> registry) list"

definition load_registry ::
  "'st registry_cache \<Rightarrow> string \<Rightarrow> 'st \<Rightarrow> tokens_file \<Rightarrow> tokens_error + 'st registry_cache \<times> registry" where
  "load_registry cache path stamp f =
     (if f = Missing then Inl Cannot_read
      else case map_of cache path of
        Some (old, es) \<Rightarrow> if old = stamp then Inr (cache, es)
          else bindE (read_registry f) (\<lambda>new. Inr (AList.update path (stamp, new) cache, new))
      | None \<Rightarrow> bindE (read_registry f) (\<lambda>new. Inr (AList.update path (stamp, new) cache, new)))"

section \<open>The failure limiter\<close>

record failure_limiter =
  max_failures :: nat
  window :: rat
  failures :: "(string \<times> rat list) list"

definition times_of :: "failure_limiter \<Rightarrow> string \<Rightarrow> rat list" where
  "times_of l key = (case map_of (failures l) key of None \<Rightarrow> [] | Some q \<Rightarrow> q)"

definition store_times :: "string \<Rightarrow> rat list \<Rightarrow> failure_limiter \<Rightarrow> failure_limiter" where
  "store_times key q l = l\<lparr>failures := if q = [] then AList.delete key (failures l) else AList.update key q (failures l)\<rparr>"

text \<open>\<open>_prune\<close>: the \<open>while\<close> loop drops failures from the front that are older than the window.\<close>

definition prune :: "failure_limiter \<Rightarrow> string \<Rightarrow> rat \<Rightarrow> failure_limiter \<times> rat list" where
  "prune l key now =
     (let q = dropWhile (\<lambda>t. now - t \<ge> window l) (times_of l key) in (store_times key q l, q))"

definition truncate :: "rat \<Rightarrow> int" where
  "truncate x = (if 0 \<le> x then \<lfloor>x\<rfloor> else \<lceil>x\<rceil>)"

text \<open>\<open>q[0]\<close> of an empty deque raises \<open>IndexError\<close>, which \<open>max_failures = 0\<close> would reach.\<close>

datatype limiter_error = IndexError

definition retry_after ::
  "failure_limiter \<Rightarrow> string \<Rightarrow> rat \<Rightarrow> limiter_error + failure_limiter \<times> int option" where
  "retry_after l key now =
     (let (l', q) = prune l key now in
      if length q < max_failures l then Inr (l', None)
      else case q of [] \<Rightarrow> Inl IndexError
        | t # _ \<Rightarrow> Inr (l', Some (max 1 (truncate (window l - (now - t)) + 1))))"

definition record_failure :: "failure_limiter \<Rightarrow> string \<Rightarrow> rat \<Rightarrow> failure_limiter" where
  "record_failure l key now = (let (l', q) = prune l key now in store_times key (q @ [now]) l')"

section \<open>What a registry holds\<close>

lemma clean_words: "py_split (clean_name v) = py_split v"
  unfolding clean_name_def
  by (rule split_join_words) (use split_ws_words [of "[]"] in auto)

lemma clean_name_idem [simp]: "clean_name (clean_name v) = clean_name v"
  by (simp add: clean_name_def [of "clean_name v"] clean_words) (simp add: clean_name_def)

lemma normalise_clean [simp]: "normalise_identity (Some (clean_name v)) = normalise_identity (Some v)"
  by (simp add: normalise_identity_def clean_words)

lemma clean_name_blank: "clean_name v = [] \<longleftrightarrow> words_of (Some v) = []"
  using join_words_Nil [of "Some v"] by (simp add: clean_name_def words_of_def flip: lower_join)

definition key_of :: "reviewer_entry \<Rightarrow> string" where
  "key_of e = normalise_identity (Some (re_name e))"

definition entry_ok :: "reviewer_entry \<Rightarrow> bool" where
  "entry_ok e \<longleftrightarrow> clean_name (re_name e) = re_name e \<and> re_name e \<noteq> [] \<and>
     py_len (re_name e) \<le> MAX_NAME_LENGTH \<and> hash_ok (token_hash e)"

definition registry_ok :: "registry \<Rightarrow> bool" where
  "registry_ok es \<longleftrightarrow> list_all entry_ok es \<and> distinct (map key_of es) \<and> distinct (map token_hash es)"

lemma parse_entries_sound:
  "parse_entries i names hashes items = Inr es \<Longrightarrow>
     registry_ok es \<and> key_of ` set es \<inter> set names = {} \<and> token_hash ` set es \<inter> set hashes = {}"
proof (induction i names hashes items arbitrary: es rule: parse_entries.induct)
  case (1 i names hashes)
  then show ?case by (simp add: registry_ok_def)
next
  case (2 i names hashes item items)
  from 2(2) obtain ps where item: "item = JObj ps" by (cases item) simp_all
  let ?n = "clean_name (str_of (json_get item ''name''))"
  let ?h = "str_of (json_get item ''token_hash'')"
  let ?k = "normalise_identity (Some ?n)"
  from 2(2) item obtain rest where
      ok: "?n \<noteq> []" "\<not> MAX_NAME_LENGTH < py_len ?n" "hash_ok ?h" "?k \<notin> set names" "?h \<notin> set hashes"
    and rest: "parse_entries (Suc i) (?k # names) (?h # hashes) items = Inr rest"
    and es: "es = \<lparr>re_name = ?n, token_hash = ?h, created_at = str_of (json_get item ''created_at'')\<rparr> # rest"
    by (auto simp: Let_def result_simps split: if_splits)
  from 2(1) [OF item refl refl refl] ok rest
  have "registry_ok rest \<and> key_of ` set rest \<inter> set (?k # names) = {} \<and>
      token_hash ` set rest \<inter> set (?h # hashes) = {}" by simp
  with ok show ?case unfolding es
    by (fastforce simp: registry_ok_def entry_ok_def key_of_def)
qed

lemma parse_registry_ok: "parse_registry j = Inr es \<Longrightarrow> registry_ok es"
  by (auto simp: parse_registry_def dest: parse_entries_sound
      split: json.splits option.splits if_splits)

lemma read_registry_ok: "read_registry f = Inr es \<Longrightarrow> registry_ok es"
  by (auto simp: read_registry_def dest: parse_registry_ok split: tokens_file.splits)

lemma load_for_edit_ok: "load_for_edit f = Inr es \<Longrightarrow> registry_ok es"
  by (auto simp: load_for_edit_def registry_ok_def dest: read_registry_ok split: if_splits)

lemma registry_ok_filter: "registry_ok es \<Longrightarrow> registry_ok (filter P es)"
  by (auto simp: registry_ok_def list_all_iff distinct_map_filter)

text \<open>What \<open>_write_atomic\<close> writes for a list of entries, key by key.\<close>

definition written_entry :: "reviewer_entry \<Rightarrow> json" where
  "written_entry e = sort_keys (entry_value e)"

lemma written_entry_eq:
  "written_entry e = JObj [(''created_at'', JStr (created_at e)), (''name'', JStr (re_name e)), (''token_hash'', JStr (token_hash e))]"
  by (simp add: written_entry_def entry_value_def)

lemma written_eq:
  "sort_keys (JObj [(''version'', JInt 1), (''reviewers'', JList (map entry_value es))]) =
     JObj [(''reviewers'', JList (map written_entry es)), (''version'', JInt 1)]"
  by (simp add: written_entry_def)

lemma write_atomic_Inr:
  "write_atomic es = Inr g \<longleftrightarrow>
     (\<exists>es'. parse_entries 0 [] [] (map written_entry es) = Inr es') \<and>
     g = Content (JObj [(''reviewers'', JList (map written_entry es)), (''version'', JInt 1)])"
  unfolding write_atomic_def written_eq by (auto simp: parse_registry_def result_simps)

lemma read_written:
  "read_registry (Content (JObj [(''reviewers'', JList (map written_entry es)), (''version'', JInt 1)])) =
     parse_entries 0 [] [] (map written_entry es)"
  by (simp add: read_registry_def parse_registry_def)

lemma parse_entries_values:
  "registry_ok es \<Longrightarrow> key_of ` set es \<inter> set names = {} \<Longrightarrow> token_hash ` set es \<inter> set hashes = {} \<Longrightarrow>
     parse_entries i names hashes (map written_entry es) = Inr es"
proof (induction es arbitrary: i names hashes)
  case Nil
  then show ?case by simp
next
  case (Cons e es)
  have "registry_ok es" using Cons.prems(1) by (simp add: registry_ok_def)
  then have rest: "parse_entries (Suc i) (key_of e # names) (token_hash e # hashes) (map written_entry es) = Inr es"
    using Cons.prems by (intro Cons.IH) (auto simp: registry_ok_def)
  show ?case using Cons.prems rest
    by (simp add: written_entry_eq [of e] str_of_def registry_ok_def entry_ok_def Let_def flip: key_of_def)
qed

lemma parse_entries_same:
  "parse_entries i names hashes (map written_entry es) = Inr es' \<Longrightarrow>
     (\<And>e. e \<in> set es \<Longrightarrow> clean_name (re_name e) = re_name e) \<Longrightarrow> es' = es"
proof (induction es arbitrary: i names hashes es')
  case (Cons e es)
  from Cons.prems obtain rest where
      "parse_entries (Suc i) (key_of e # names) (token_hash e # hashes) (map written_entry es) = Inr rest"
      "es' = e # rest"
    by (auto simp: written_entry_eq [of e] str_of_def Let_def result_simps key_of_def split: if_splits)
  with Cons show ?case by simp
qed simp

text \<open>The file is only ever a valid one, and reads back as the entries that were written.\<close>

lemma write_atomic_roundtrip:
  assumes "write_atomic es = Inr g" and "\<And>e. e \<in> set es \<Longrightarrow> clean_name (re_name e) = re_name e"
  shows "read_registry g = Inr es"
  using assms parse_entries_same [of 0 "[]" "[]" es] by (auto simp: write_atomic_Inr read_written)

lemma write_atomic_ok: "registry_ok es \<Longrightarrow> \<exists>g. write_atomic es = Inr g"
  using parse_entries_values [of es "[]" "[]" 0] by (simp add: write_atomic_Inr)

section \<open>What authentication answers\<close>

lemma foldl_match:
  "distinct (map token_hash es) \<Longrightarrow>
   foldl (\<lambda>m e. if h = token_hash e then Some (re_name e) else m) m0 es =
     (if h \<in> token_hash ` set es then map_option re_name (find (\<lambda>e. token_hash e = h) es) else m0)"
  by (induction es arbitrary: m0) auto

lemma find_hash:
  "distinct (map token_hash es) \<Longrightarrow> find (\<lambda>e. token_hash e = h) es = Some e \<longleftrightarrow> e \<in> set es \<and> token_hash e = h"
  by (induction es) auto

lemma authenticate_iff:
  assumes "registry_ok es"
  shows "authenticate cr es (Some t) = Some n \<longleftrightarrow> t \<noteq> [] \<and> py_len t \<le> MAX_TOKEN_LENGTH \<and>
    (\<exists>e\<in>set es. token_hash e = hash_token cr t \<and> re_name e = n)"
  using assms
  by (auto simp: authenticate_def registry_ok_def foldl_match find_hash find_None_iff image_iff)

lemma load_of_read: "read_registry g = Inr es \<Longrightarrow> load_for_edit g = Inr es"
  by (auto simp: load_for_edit_def read_registry_def)

lemma registry_clean: "registry_ok es \<Longrightarrow> e \<in> set es \<Longrightarrow> clean_name (re_name e) = re_name e"
  by (auto simp: registry_ok_def list_all_iff entry_ok_def)

lemma add_reviewer_parts:
  assumes "add_reviewer cr clock random f raw replace = Inr (g, t)" and "load_for_edit f = Inr es"
  defines "others \<equiv> filter (\<lambda>e. key_of e \<noteq> normalise_identity (Some raw)) es"
    and "new \<equiv> \<lparr>re_name = clean_name raw, token_hash = hash_token cr t, created_at = clock\<rparr>"
  shows "t = generate_token random" "words_of (Some raw) \<noteq> []"
    "read_registry g = Inr (others @ [new])" "registry_ok (others @ [new])"
proof -
  from assms show t: "t = generate_token random" and "words_of (Some raw) \<noteq> []"
    by (auto simp: add_reviewer_def Let_def result_simps clean_name_blank)
  from assms have w: "write_atomic (others @ [new]) = Inr g"
    by (auto simp: add_reviewer_def Let_def result_simps key_of_def)
  have "registry_ok es" using assms(2) by (rule load_for_edit_ok)
  then have "clean_name (re_name e) = re_name e" if "e \<in> set (others @ [new])" for e
    using that by (auto simp: others_def new_def intro: registry_clean)
  with w show r: "read_registry g = Inr (others @ [new])" by (rule write_atomic_roundtrip)
  then show "registry_ok (others @ [new])" by (rule read_registry_ok)
qed

text \<open>The other tokens after a change: the person's own are gone, the rest answer as before.\<close>

lemma authenticate_None:
  assumes "registry_ok es"
  shows "authenticate cr es (Some t) = None \<longleftrightarrow>
    t = [] \<or> MAX_TOKEN_LENGTH < py_len t \<or> (\<forall>e\<in>set es. token_hash e \<noteq> hash_token cr t)"
proof -
  have "authenticate cr es (Some t) = None \<longleftrightarrow> (\<nexists>n. authenticate cr es (Some t) = Some n)"
    by (cases "authenticate cr es (Some t)") simp_all
  then show ?thesis by (auto simp: authenticate_iff assms not_le)
qed

lemma authenticate_without:
  assumes "registry_ok es"
  shows "authenticate cr (filter (\<lambda>e. key_of e \<noteq> normalise_identity (Some raw)) es) (Some u) =
    (case authenticate cr es (Some u) of None \<Rightarrow> None
     | Some n \<Rightarrow> if normalise_identity (Some n) = normalise_identity (Some raw) then None else Some n)"
proof (cases "authenticate cr es (Some u)")
  case None
  then have "authenticate cr (filter P es) (Some u) = None" for P
    using assms by (auto simp: authenticate_None registry_ok_filter)
  with None show ?thesis by simp
next
  case (Some n)
  with assms obtain e where e: "e \<in> set es" "token_hash e = hash_token cr u" "re_name e = n"
    and u: "u \<noteq> []" "py_len u \<le> MAX_TOKEN_LENGTH"
    by (auto simp: authenticate_iff)
  have unique: "e' = e" if "e' \<in> set es" "token_hash e' = hash_token cr u" for e'
    using that e assms by (auto simp: registry_ok_def distinct_map inj_on_def)
  show ?thesis
  proof (cases "key_of e = normalise_identity (Some raw)")
    case True
    then have "authenticate cr (filter (\<lambda>e. key_of e \<noteq> normalise_identity (Some raw)) es) (Some u) = None"
      using unique assms by (auto simp: authenticate_None registry_ok_filter)
    with True Some e show ?thesis by (simp add: key_of_def)
  next
    case False
    then have "authenticate cr (filter (\<lambda>e. key_of e \<noteq> normalise_identity (Some raw)) es) (Some u) = Some n"
      using e u assms by (auto simp: authenticate_iff registry_ok_filter)
    with False Some e show ?thesis by (simp add: key_of_def)
  qed
qed

lemma authenticate_add:
  assumes "registry_ok (es @ [e])"
  shows "authenticate cr (es @ [e]) (Some u) =
    (if u \<noteq> [] \<and> py_len u \<le> MAX_TOKEN_LENGTH \<and> token_hash e = hash_token cr u then Some (re_name e)
     else authenticate cr es (Some u))"
  using assms by (auto simp: authenticate_def)

section \<open>Issuing and revoking, as the API sees it\<close>

definition revoked_for :: "string \<Rightarrow> string option \<Rightarrow> string option" where
  "revoked_for raw who = (case who of None \<Rightarrow> None
     | Some n \<Rightarrow> if same_person (Some n) (Some raw) then None else Some n)"

lemma revoked_for_iff:
  assumes "words_of (Some raw) \<noteq> []"
  shows "revoked_for raw who = (case who of None \<Rightarrow> None
     | Some n \<Rightarrow> if normalise_identity (Some n) = normalise_identity (Some raw) then None else Some n)"
proof -
  have "normalise_identity (Some raw) \<noteq> []" using assms by (simp add: normalise_words join_words_Nil)
  then show ?thesis by (auto simp: revoked_for_def same_person_def split: option.split)
qed

text \<open>When an issue succeeds: SHA-256 digests are 32 bytes long, so the hash has the file's form.\<close>

lemma lower_hex_char: "d < 16 \<Longrightarrow> lower_hex (hex_char d)"
proof -
  have "\<forall>d\<in>set [0..<16]. lower_hex (hex_char d)"
    by (simp add: lower_hex_def hex_char_def upt_conv_Cons char_of_def bit_0 del: upt_Suc)
  then show "d < 16 \<Longrightarrow> lower_hex (hex_char d)" by simp
qed

lemma hexdigest_form: "length (hexdigest bs) = 2 * length bs" "list_all lower_hex (hexdigest bs)"
proof (induction bs)
  case (Cons b bs)
  { case 1 show ?case using Cons by (simp add: hexdigest_def Let_def) }
  { case 2
    have "of_char b < (256 :: nat)" by simp
    then have "(of_char b :: nat) div 16 < 16" by (rule div_less_dividend_16)
    then show ?case using Cons by (simp add: hexdigest_def Let_def lower_hex_char) }
qed (simp_all add: hexdigest_def)

lemma hash_ok_token: "length (sha256 cr t) = 32 \<Longrightarrow> hash_ok (hash_token cr t)"
  using hexdigest_form [of "sha256 cr t"]
  by (simp add: hash_ok_def hash_token_def sha256_hex_def strip_prefix_append [where p = "''sha256:''", simplified])

lemma add_reviewer_total:
  assumes "load_for_edit f = Inr es" and "words_of (Some raw) \<noteq> []" and "py_len (clean_name raw) \<le> MAX_NAME_LENGTH"
    and "replace \<or> find_reviewer es raw = None"
    and "length (sha256 cr (generate_token random)) = 32"
    and "hash_token cr (generate_token random) \<notin> token_hash ` set es"
  shows "\<exists>g. add_reviewer cr clock random f raw replace = Inr (g, generate_token random)"
proof -
  let ?new = "\<lparr>re_name = clean_name raw, token_hash = hash_token cr (generate_token random), created_at = clock\<rparr>"
  let ?others = "filter (\<lambda>e. key_of e \<noteq> normalise_identity (Some raw)) es"
  have "registry_ok (?others @ [?new])"
    using load_for_edit_ok [OF assms(1)] assms
    by (auto simp: registry_ok_def entry_ok_def key_of_def list_all_iff distinct_map_filter hash_ok_token clean_name_blank)
  then obtain g where "write_atomic (?others @ [?new]) = Inr g" using write_atomic_ok by blast
  moreover have "replace \<or> filter (\<lambda>e. key_of e = normalise_identity (Some raw)) es = []"
    using assms(4) by (auto simp: find_reviewer_def find_None_iff key_of_def filter_empty_conv)
  ultimately show ?thesis
    using assms by (auto simp: add_reviewer_def Let_def clean_name_blank key_of_def requireE_def)
qed

section \<open>A tokens file\<close>

definition toy_sha :: crypto where
  "toy_sha = toy_crypto\<lparr>sha256 := \<lambda>x. take 32 (x @ replicate 32 (CHR 0x00))\<rparr>"

definition toy_entry :: reviewer_entry where
  "toy_entry = \<lparr>re_name = ''ann'', token_hash = hash_token toy_sha ''grcrt_old'', created_at = ''2026''\<rparr>"

definition toy_tokens :: tokens_file where
  "toy_tokens = Content (JObj [(''reviewers'', JList (map written_entry [toy_entry])), (''version'', JInt 1)])"

lemma toy_sha_length: "length (sha256 toy_sha t) = 32"
  by (simp add: toy_sha_def)

lemma toy_clean: "clean_name ''ann'' = ''ann''" "clean_name '' ann '' = ''ann''"
  by (simp_all add: clean_name_def is_space_def)

lemma toy_name_length: "py_len ''ann'' \<le> MAX_NAME_LENGTH"
  by (simp add: py_len_def MAX_NAME_LENGTH_def)

lemma toy_registry_ok: "registry_ok [toy_entry]"
  by (simp add: registry_ok_def entry_ok_def toy_entry_def toy_clean toy_name_length hash_ok_token toy_sha_length)

lemma toy_read: "read_registry toy_tokens = Inr [toy_entry]"
  unfolding toy_tokens_def read_written by (rule parse_entries_values [OF toy_registry_ok]) simp_all

lemma toy_old: "authenticate toy_sha [toy_entry] (Some ''grcrt_old'') = Some ''ann''"
  by (simp add: authenticate_def toy_entry_def py_len_def MAX_TOKEN_LENGTH_def)

lemma toy_words: "words_of (Some '' ann '') \<noteq> []" "words_of (Some ''ann'') \<noteq> []"
  by (simp_all add: words_of_def is_space_def)

lemma token_no_collision: "no_collision (sha256_hex toy_sha) {''grcrt_new'', ''grcrt_old''}"
  by (auto simp: no_collision_def inj_on_def sha256_hex_def toy_sha_def)

lemma hash_token_eq: "hash_token cr t = hash_token cr u \<longleftrightarrow> sha256_hex cr t = sha256_hex cr u"
  by (simp add: hash_token_def)

text \<open>
  A token that \<open>add_reviewer\<close> issued authenticates as the (cleaned) name it
  was issued for on the next read of the file; every other token answers as before, except that the
  tokens this person had before no longer work. The other token's digest is assumed to differ.
\<close>

lemma add_reviewer_token:
  assumes "add_reviewer cr clock random f raw replace = Inr (g, t)" and "load_for_edit f = Inr es"
    and "py_len t \<le> MAX_TOKEN_LENGTH" and "u \<noteq> t" and "no_collision (sha256_hex cr) {t, u}"
  shows "\<exists>es'. read_registry g = Inr es' \<and> authenticate cr es' (Some t) = Some (clean_name raw) \<and>
    authenticate cr es' (Some u) = revoked_for raw (authenticate cr es (Some u))"
proof -
  note parts = add_reviewer_parts [OF assms(1,2)]
  let ?others = "filter (\<lambda>e. key_of e \<noteq> normalise_identity (Some raw)) es"
  have "t \<noteq> []" unfolding parts(1) by (simp add: generate_token_def TOKEN_PREFIX_def)
  moreover have "hash_token cr t \<noteq> hash_token cr u"
    using assms(4,5) by (auto simp: hash_token_eq dest: no_collisionD [of _ "{t, u}" t u])
  ultimately show ?thesis
    using parts(3) assms(3) authenticate_add [OF parts(4), of cr]
      authenticate_without [OF load_for_edit_ok [OF assms(2)], of cr raw u]
    by (simp add: revoked_for_iff parts(2))
qed

lemma add_reviewer_token_witness:
  "\<exists>g es'. add_reviewer toy_sha ''2026'' ''new'' toy_tokens '' ann '' True = Inr (g, ''grcrt_new'') \<and>
     read_registry g = Inr es' \<and> authenticate toy_sha es' (Some ''grcrt_new'') = Some ''ann'' \<and>
     authenticate toy_sha es' (Some ''grcrt_old'') = None"
proof -
  have loaded: "load_for_edit toy_tokens = Inr [toy_entry]" by (rule load_of_read [OF toy_read])
  have token: "generate_token ''new'' = ''grcrt_new''" by (simp add: generate_token_def TOKEN_PREFIX_def)
  have fresh: "hash_token toy_sha (generate_token ''new'') \<notin> token_hash ` set [toy_entry]"
    by (simp add: token toy_entry_def hash_token_eq sha256_hex_def toy_sha_def)
  obtain g where g: "add_reviewer toy_sha ''2026'' ''new'' toy_tokens '' ann '' True = Inr (g, ''grcrt_new'')"
    using add_reviewer_total [OF loaded toy_words(1) _ _ toy_sha_length fresh, of True "''2026''"]
      toy_name_length by (auto simp: toy_clean token)
  from add_reviewer_token [OF g loaded _ _ token_no_collision]
  have "\<exists>es'. read_registry g = Inr es' \<and> authenticate toy_sha es' (Some ''grcrt_new'') = Some ''ann'' \<and>
      authenticate toy_sha es' (Some ''grcrt_old'') = revoked_for '' ann '' (Some ''ann'')"
    by (simp add: toy_clean toy_old py_len_def MAX_TOKEN_LENGTH_def)
  moreover have "revoked_for '' ann '' (Some ''ann'') = None"
    by (simp add: revoked_for_def same_person_iff words_of_def is_space_def)
  ultimately show ?thesis using g by auto
qed

text \<open>
  After \<open>remove_reviewer\<close> no token authenticates as that person, every
  other token answers as before, and the file stays readable; the answer says whether the person had one.
\<close>

lemma remove_reviewer_token:
  assumes "read_registry f = Inr es" and "words_of (Some raw) \<noteq> []"
  shows "\<exists>g es'. remove_reviewer f raw = Inr (g, find_reviewer es raw \<noteq> None) \<and> read_registry g = Inr es' \<and>
    authenticate cr es' (Some u) = revoked_for raw (authenticate cr es (Some u))"
proof -
  let ?kept = "filter (\<lambda>e. key_of e \<noteq> normalise_identity (Some raw)) es"
  have ok: "registry_ok es" using assms(1) by (rule read_registry_ok)
  have others: "authenticate cr ?kept (Some u) = revoked_for raw (authenticate cr es (Some u))"
    using assms(2) ok by (simp add: revoked_for_iff authenticate_without)
  have find: "find_reviewer es raw \<noteq> None \<longleftrightarrow> ?kept \<noteq> es"
    by (auto simp: find_reviewer_def find_None_iff filter_id_conv key_of_def)
  have len: "length ?kept = length es \<longleftrightarrow> ?kept = es"
    by (metis length_filter_less filter_id_conv less_irrefl)
  obtain g where g: "write_atomic ?kept = Inr g" "read_registry g = Inr ?kept"
    using write_atomic_ok [OF registry_ok_filter [OF ok]] write_atomic_roundtrip [of ?kept] registry_clean [OF ok]
    by fastforce
  show ?thesis
  proof (cases "?kept = es")
    case True
    then have "remove_reviewer f raw = Inr (f, find_reviewer es raw \<noteq> None)"
      using load_of_read [OF assms(1)] find by (simp add: remove_reviewer_def flip: key_of_def)
    with True assms(1) others show ?thesis by auto
  next
    case False
    then have "remove_reviewer f raw = Inr (g, find_reviewer es raw \<noteq> None)"
      using load_of_read [OF assms(1)] find len g by (simp add: remove_reviewer_def flip: key_of_def)
    with g others show ?thesis by auto
  qed
qed

lemma remove_reviewer_token_witness:
  "\<exists>g es'. remove_reviewer toy_tokens '' ann '' = Inr (g, True) \<and> read_registry g = Inr es' \<and>
     authenticate toy_sha es' (Some ''grcrt_old'') = None"
proof -
  have "find_reviewer [toy_entry] '' ann '' \<noteq> None"
    by (simp add: find_reviewer_def toy_entry_def normalise_identity_def is_space_def)
  moreover have "revoked_for '' ann '' (Some ''ann'') = None"
    by (simp add: revoked_for_def same_person_iff words_of_def is_space_def)
  ultimately show ?thesis
    using remove_reviewer_token [OF toy_read toy_words(1), of toy_sha "''grcrt_old''"] by (simp add: toy_old)
qed

section \<open>The limiter over a sequence of requests\<close>

lemma times_of_store [simp]: "times_of (store_times key q l) key' = (if key' = key then q else times_of l key')"
  by (auto simp: times_of_def store_times_def delete_conv' update_conv' split: option.split)

lemma store_window [simp]: "window (store_times key q l) = window l" "max_failures (store_times key q l) = max_failures l"
  by (simp_all add: store_times_def)

definition recent :: "rat \<Rightarrow> rat \<Rightarrow> rat list \<Rightarrow> rat list" where
  "recent w now ts = filter (\<lambda>t. now - t < w) ts"

lemma dropWhile_sorted: "sorted ts \<Longrightarrow> dropWhile (\<lambda>t. now - t \<ge> w) ts = recent w now (ts :: rat list)"
proof (induction ts)
  case (Cons t ts)
  then have "recent w now ts = ts" if "now - t < w"
    using that by (auto simp: recent_def filter_id_conv)
  with Cons show ?case by (auto simp: recent_def)
qed (simp add: recent_def)

lemma prune_eq: "sorted (times_of l key) \<Longrightarrow>
    prune l key now = (store_times key (recent (window l) now (times_of l key)) l, recent (window l) now (times_of l key))"
  by (simp add: prune_def dropWhile_sorted Let_def)

lemma recent_recent: "T \<le> now \<Longrightarrow> recent w now (recent w T ts) = recent w now ts"
  by (induction ts) (auto simp: recent_def)

lemma sorted_recent [simp, intro]: "sorted ts \<Longrightarrow> sorted (recent w now ts)"
  by (simp add: recent_def sorted_wrt_filter)

text \<open>
  \<open>tracks l key now rec\<close>: what the limiter keeps for \<open>key\<close> is the part of the recorded failures
  \<open>rec\<close> that some moment up to \<open>now\<close> saw as recent.
\<close>

definition tracks :: "failure_limiter \<Rightarrow> string \<Rightarrow> rat \<Rightarrow> rat list \<Rightarrow> bool" where
  "tracks l key now rec \<longleftrightarrow> sorted rec \<and> (\<forall>t\<in>set rec. t \<le> now) \<and>
     (\<exists>T\<le>now. times_of l key = recent (window l) T rec)"

definition paced :: "nat \<Rightarrow> rat \<Rightarrow> rat list \<Rightarrow> bool" where
  "paced m w rec \<longleftrightarrow> (\<forall>x. length (filter (\<lambda>t. x \<le> t \<and> t < x + w) rec) \<le> m)"

lemma tracks_later: "tracks l key T rec \<Longrightarrow> T \<le> now \<Longrightarrow> tracks l key now rec"
  unfolding tracks_def by (meson order_trans)

lemma tracks_prune:
  assumes "tracks l key now rec"
  shows "prune l key now = (store_times key (recent (window l) now rec) l, recent (window l) now rec)"
proof -
  from assms obtain T where T: "T \<le> now" "times_of l key = recent (window l) T rec" "sorted rec"
    by (auto simp: tracks_def)
  then have "recent (window l) now (times_of l key) = recent (window l) now rec"
    by (simp add: recent_recent)
  with T show ?thesis by (subst prune_eq) auto
qed

lemma tracks_store:
  assumes "tracks l key now rec"
  shows "tracks (store_times key (recent (window l) now rec) l) key now rec"
    "key' \<noteq> key \<Longrightarrow> tracks (store_times key' q l) key now rec"
  using assms by (auto simp: tracks_def)

lemma prune_other: "prune l key' now = (l', q) \<Longrightarrow> \<exists>q'. l' = store_times key' q' l"
  by (auto simp: prune_def Let_def)

lemma retry_after_limits: "retry_after l key now = Inr (l', r) \<Longrightarrow> window l' = window l \<and> max_failures l' = max_failures l"
  by (auto simp: retry_after_def prune_def Let_def split: prod.splits list.splits if_splits)

lemma record_failure_limits: "window (record_failure l key now) = window l" "max_failures (record_failure l key now) = max_failures l"
  by (simp_all add: record_failure_def prune_def Let_def)

lemma retry_after_state: "retry_after l key now = Inr (l', r) \<Longrightarrow> l' = fst (prune l key now)"
  by (auto simp: retry_after_def split: prod.splits list.splits if_splits)

lemma tracks_retry_after:
  assumes "tracks l key now rec" and "retry_after l key' now = Inr (l', r)"
  shows "tracks l' key now rec"
    and "key' = key \<Longrightarrow> r = None \<longleftrightarrow> length (recent (window l) now rec) < max_failures l"
proof -
  show "key' = key \<Longrightarrow> r = None \<longleftrightarrow> length (recent (window l) now rec) < max_failures l"
    using assms tracks_prune [of l key now rec]
    by (auto simp: retry_after_def split: list.splits if_splits)
  show "tracks l' key now rec"
  proof (cases "key' = key")
    case True
    then show ?thesis using assms(1) retry_after_state [OF assms(2)] by (simp add: tracks_prune tracks_store(1))
  next
    case False
    obtain q where "l' = store_times key' q l"
      using retry_after_state [OF assms(2)] prune_other [of l key' now] by (metis prod.collapse)
    with False assms(1) show ?thesis by (auto intro: tracks_store(2))
  qed
qed

lemma tracks_record_failure:
  assumes "tracks l key now rec" and "0 < window l"
  shows "tracks (record_failure l key' now) key now (if key' = key then rec @ [now] else rec)"
proof (cases "key' = key")
  case True
  have "recent (window l) now rec @ [now] = recent (window l) now (rec @ [now])"
    using assms(2) by (simp add: recent_def)
  with True assms show ?thesis
    by (auto simp: record_failure_def tracks_prune tracks_def sorted_append)
next
  case False
  obtain q q' where "prune l key' now = (store_times key' q' l, q)"
    using prune_other [of l key' now] by (metis surj_pair)
  with False assms show ?thesis by (auto simp: record_failure_def tracks_def)
qed

lemma paced_add:
  assumes "paced m w rec" and "\<forall>t\<in>set rec. t \<le> now" and "length (recent w now rec) < m"
  shows "paced m w (rec @ [now])"
proof -
  have "length (filter (\<lambda>t. x \<le> t \<and> t < x + w) (rec @ [now])) \<le> m" for x
  proof (cases "x \<le> now \<and> now < x + w")
    case True
    then have "x \<le> t \<and> t < x + w \<Longrightarrow> now - t < w" for t by linarith
    then have "length (filter (\<lambda>t. x \<le> t \<and> t < x + w) rec) \<le> length (recent w now rec)"
      unfolding recent_def by (induction rec) auto
    with True assms(3) show ?thesis by simp
  next
    case False
    have "length (filter (\<lambda>t. x \<le> t \<and> t < x + w) rec) \<le> m" using assms(1) by (simp add: paced_def)
    with False show ?thesis by auto
  qed
  then show ?thesis by (simp add: paced_def)
qed

section \<open>The command line\<close>

text \<open>\<open>main\<close> after argument parsing: the exit code, the file it leaves, what it prints.\<close>

datatype command = Add string bool | Remove string | List

datatype printed =
    Token_for string string
  | Removed string
  | No_token string
  | Listed "(string \<times> string) list"
  | Printed_error tokens_error

definition tokens_main ::
  "crypto \<Rightarrow> string \<Rightarrow> string \<Rightarrow> command \<Rightarrow> tokens_file \<Rightarrow> tokens_error + nat \<times> tokens_file \<times> printed" where
  "tokens_main cr clock random cmd f =
     (let result = (case cmd of
         Add name replace \<Rightarrow> bindE (add_reviewer cr clock random f name replace) (\<lambda>(g, token).
           bindE (read_registry g) (\<lambda>es.
             Inr (0, g, Token_for (case find_reviewer es name of None \<Rightarrow> name | Some e \<Rightarrow> re_name e) token)))
       | Remove name \<Rightarrow> bindE (remove_reviewer f name) (\<lambda>(g, removed).
           Inr (if removed then (0, g, Removed name) else (1, g, No_token name)))
       | List \<Rightarrow> bindE (load_for_edit f) (\<lambda>es. Inr (0, f, Listed (map (\<lambda>e. (re_name e, created_at e)) es))))
      in case result of
        Inl Unicode_error \<Rightarrow> Inl Unicode_error
      | Inl e \<Rightarrow> Inr (2, f, Printed_error e)
      | Inr r \<Rightarrow> Inr r)"

section \<open>The cache is transparent\<close>

text \<open>
  \<open>disk path stamp\<close> is what the file at \<open>path\<close> held when its modification time and size were
  \<open>stamp\<close>: the code relies on the stamp changing with the content.
\<close>

definition cache_ok :: "(string \<Rightarrow> 'st \<Rightarrow> tokens_file) \<Rightarrow> 'st registry_cache \<Rightarrow> bool" where
  "cache_ok disk cache \<longleftrightarrow>
     (\<forall>path stamp es. map_of cache path = Some (stamp, es) \<longrightarrow> read_registry (disk path stamp) = Inr es)"

lemma cache_ok_Nil [simp]: "cache_ok disk []"
  by (simp add: cache_ok_def)

lemma load_registry_Inr:
  assumes "cache_ok disk cache" and "disk path stamp \<noteq> Missing"
  shows "load_registry cache path stamp (disk path stamp) = Inr (cache', es) \<Longrightarrow>
    read_registry (disk path stamp) = Inr es \<and> cache_ok disk cache'"
  using assms by (fastforce simp: load_registry_def cache_ok_def update_conv' result_simps split: option.splits if_splits)

lemma load_registry_Inl:
  assumes "cache_ok disk cache"
  shows "load_registry cache path stamp (disk path stamp) = Inl e \<Longrightarrow> read_registry (disk path stamp) = Inl e"
  using assms by (auto simp: load_registry_def cache_ok_def read_registry_def result_simps split: option.splits if_splits)

end
