(* ===== verification/Auth.thy ===== *)
theory Auth
  imports Tokens
begin

text \<open>
  Who is calling: \<open>src/api/auth.py\<close>. The shared API token, the personal reviewer token of a
  request, and the identity that is recorded for it. The state is what the process keeps between
  requests: the cache of the tokens file and the failure limiter. The headers, the client's
  address, the clock and the tokens file with its stamp are fields of the request.
\<close>

section \<open>Refusals\<close>

datatype refusal =
    Tokens_unavailable
  | Token_missing
  | Rate_limited int
  | Token_invalid
  | Name_mismatch string

fun refusal_status :: "refusal \<Rightarrow> nat" where
  "refusal_status Tokens_unavailable = 503"
| "refusal_status Token_missing = 401"
| "refusal_status (Rate_limited wait) = 429"
| "refusal_status Token_invalid = 401"
| "refusal_status (Name_mismatch field) = 403"

fun refusal_code :: "refusal \<Rightarrow> string" where
  "refusal_code Tokens_unavailable = ''reviewer_tokens_unavailable''"
| "refusal_code Token_missing = ''reviewer_token_missing''"
| "refusal_code (Rate_limited wait) = ''reviewer_token_rate_limited''"
| "refusal_code Token_invalid = ''reviewer_token_invalid''"
| "refusal_code (Name_mismatch field) = ''reviewer_name_mismatch''"

text \<open>
  What a request ends with besides a result: an \<open>HTTPException\<close> with its status, a
  \<open>ReviewerAuthError\<close>, or an exception no handler knows, which the server answers with 500.
\<close>

datatype http_error = Http nat | Refused refusal | Unhandled

fun response_status :: "http_error \<Rightarrow> nat" where
  "response_status (Http n) = n"
| "response_status (Refused r) = refusal_status r"
| "response_status Unhandled = 500"

section \<open>The shared token\<close>

definition configured_token :: "dict \<Rightarrow> string" where
  "configured_token env = getenv env ''API_AUTH_TOKEN'' []"

text \<open>\<open>s.partition(" ")\<close> without the separator\<close>

definition partition_space :: "string \<Rightarrow> string \<times> string" where
  "partition_space s = (takeWhile (\<lambda>c. c \<noteq> CHR '' '') s, drop 1 (dropWhile (\<lambda>c. c \<noteq> CHR '' '') s))"

definition provided_token :: "string option \<Rightarrow> string option \<Rightarrow> string" where
  "provided_token authorization x_api_token =
     (let provided = (case x_api_token of None \<Rightarrow> [] | Some v \<Rightarrow> v) in
      case authorization of None \<Rightarrow> provided
      | Some a \<Rightarrow> if a \<noteq> [] \<and> lower (fst (partition_space a)) = ''bearer'' then snd (partition_space a) else provided)"

definition require_api_auth :: "dict \<Rightarrow> string option \<Rightarrow> string option \<Rightarrow> http_error + unit" where
  "require_api_auth env authorization x_api_token =
     (let expected = configured_token env; provided = provided_token authorization x_api_token in
      if expected = [] then Inl (Http 503)
      else if provided = [] \<or> provided \<noteq> expected then Inl (Http 401)
      else Inr ())"

lemma require_api_auth_Inr:
  "require_api_auth env a x = Inr u \<longleftrightarrow> configured_token env \<noteq> [] \<and> provided_token a x = configured_token env"
  by (auto simp: require_api_auth_def Let_def)

section \<open>The identity of a request\<close>

text \<open>\<open>ReviewerIdentity\<close>: the token's name, or \<open>None\<close> when identities are declared.\<close>

type_synonym identity = "string option"

definition identity_source :: "identity \<Rightarrow> string" where
  "identity_source who = (if who = None then ''declared'' else ''authenticated'')"

definition resolve :: "identity \<Rightarrow> string option \<Rightarrow> string \<Rightarrow> http_error + string \<times> string" where
  "resolve who typed field =
     (case who of
        None \<Rightarrow> Inr (case typed of None \<Rightarrow> [] | Some v \<Rightarrow> v, ''declared'')
      | Some name \<Rightarrow>
          (case typed of
             Some v \<Rightarrow> if strip v \<noteq> [] \<and> \<not> same_person (Some v) (Some name) then Inl (Refused (Name_mismatch field))
                       else Inr (name, ''authenticated'')
           | None \<Rightarrow> Inr (name, ''authenticated'')))"

record 'st auth_state =
  cache :: "'st registry_cache"
  limiter :: failure_limiter

record 'st auth_request =
  environ :: dict
  stamp_now :: 'st
  file_now :: tokens_file
  clock :: rat
  client_host :: "string option"
  reviewer_token :: "string option"

definition client_key :: "'st auth_request \<Rightarrow> string" where
  "client_key rq = (case client_host rq of None \<Rightarrow> ''unknown'' | Some h \<Rightarrow> h)"

definition check_token ::
  "crypto \<Rightarrow> registry \<Rightarrow> 'st auth_request \<Rightarrow> 'st auth_state \<Rightarrow> 'st auth_state \<times> (http_error + identity)" where
  "check_token cr es rq st =
     (case retry_after (limiter st) (client_key rq) (clock rq) of
        Inl IndexError \<Rightarrow> (st, Inl Unhandled)
      | Inr (l, Some wait) \<Rightarrow> (st\<lparr>limiter := l\<rparr>, Inl (Refused (Rate_limited wait)))
      | Inr (l, None) \<Rightarrow>
          (case authenticate cr es (reviewer_token rq) of
             None \<Rightarrow> (st\<lparr>limiter := record_failure l (client_key rq) (clock rq)\<rparr>, Inl (Refused Token_invalid))
           | Some name \<Rightarrow> (st\<lparr>limiter := l\<rparr>, Inr (Some name))))"

definition reviewer_identity ::
  "crypto \<Rightarrow> 'st auth_request \<Rightarrow> 'st auth_state \<Rightarrow> 'st auth_state \<times> (http_error + identity)" where
  "reviewer_identity cr rq st =
     (case configured_path (environ rq) of
        None \<Rightarrow>
          if reviewer_tokens_mandatory (environ rq) then (st, Inl (Refused Tokens_unavailable)) else (st, Inr None)
      | Some path \<Rightarrow>
          (case load_registry (cache st) path (stamp_now rq) (file_now rq) of
             Inl Unicode_error \<Rightarrow> (st, Inl Unhandled)
           | Inl e \<Rightarrow> (st, Inl (Refused Tokens_unavailable))
           | Inr (c, es) \<Rightarrow>
               (let st' = st\<lparr>cache := c\<rparr> in
                if reviewer_token rq = None \<or> reviewer_token rq = Some [] then (st', Inl (Refused Token_missing))
                else check_token cr es rq st')))"

section \<open>No silent fallback\<close>

lemma check_token_Inr:
  "check_token cr es rq st = (st', Inr who) \<Longrightarrow> \<exists>n. who = Some n \<and> authenticate cr es (reviewer_token rq) = Some n"
  by (cases "authenticate cr es (reviewer_token rq)")
     (auto simp: check_token_def split: sum.splits limiter_error.splits option.splits prod.splits)

lemma resolve_Inr:
  "resolve who typed field = Inr (name, src) \<longleftrightarrow>
     (case who of None \<Rightarrow> name = (case typed of None \<Rightarrow> [] | Some v \<Rightarrow> v) \<and> src = ''declared''
      | Some n \<Rightarrow> name = n \<and> src = ''authenticated'' \<and>
          (\<forall>v. typed = Some v \<longrightarrow> strip v = [] \<or> same_person (Some v) (Some n)))"
  by (auto simp: resolve_def split: option.splits)

lemma reviewer_identity_Inr:
  assumes "reviewer_identity cr rq st = (st', Inr who)"
  shows "case configured_path (environ rq) of
      None \<Rightarrow> who = None \<and> \<not> reviewer_tokens_mandatory (environ rq)
    | Some path \<Rightarrow> \<exists>n c es. who = Some n \<and> load_registry (cache st) path (stamp_now rq) (file_now rq) = Inr (c, es) \<and>
        authenticate cr es (reviewer_token rq) = Some n"
  using assms
  by (auto simp: reviewer_identity_def Let_def dest!: check_token_Inr
      split: option.splits sum.splits tokens_error.splits if_splits prod.splits)

section \<open>Guessing tokens\<close>

fun serve_auth ::
  "crypto \<Rightarrow> 'st auth_state \<Rightarrow> 'st auth_request list \<Rightarrow> ('st auth_request \<times> (http_error + identity)) list" where
  "serve_auth cr st [] = []"
| "serve_auth cr st (rq # rqs) =
     (let (st', answer) = reviewer_identity cr rq st in (rq, answer) # serve_auth cr st' rqs)"

text \<open>When a client was told that a token is not valid.\<close>

definition rejected_guesses :: "string \<Rightarrow> ('st auth_request \<times> (http_error + identity)) list \<Rightarrow> rat list" where
  "rejected_guesses key served =
     map (clock \<circ> fst) (filter (\<lambda>(rq, answer). client_key rq = key \<and> answer = Inl (Refused Token_invalid)) served)"

definition guess_ok :: "string \<Rightarrow> failure_limiter \<Rightarrow> rat \<Rightarrow> rat list \<Rightarrow> bool" where
  "guess_ok key l now seen \<longleftrightarrow> tracks l key now seen \<and> paced (max_failures l) (window l) seen \<and> 0 < window l"

lemma guess_ok_later: "guess_ok key l T seen \<Longrightarrow> T \<le> now \<Longrightarrow> guess_ok key l now seen"
  by (auto simp: guess_ok_def intro: tracks_later)

lemma check_token_guess:
  assumes "check_token cr es rq st = (st', answer)" and "guess_ok key (limiter st) (clock rq) seen"
  shows "guess_ok key (limiter st') (clock rq)
      (if client_key rq = key \<and> answer = Inl (Refused Token_invalid) then seen @ [clock rq] else seen) \<and>
    window (limiter st') = window (limiter st) \<and> max_failures (limiter st') = max_failures (limiter st)"
proof (cases "retry_after (limiter st) (client_key rq) (clock rq)")
  case (Inl e)
  with assms show ?thesis by (cases e) (auto simp: check_token_def)
next
  case (Inr p)
  obtain l r where p: "p = (l, r)" by fastforce
  note retry = Inr [unfolded p]
  note lim = retry_after_limits [OF retry]
  have tr: "tracks (limiter st) key (clock rq) seen" and pace: "paced (max_failures l) (window l) seen" "0 < window l"
    using assms(2) lim by (auto simp: guess_ok_def)
  have l: "tracks l key (clock rq) seen" by (rule tracks_retry_after(1) [OF tr retry])
  show ?thesis
  proof (cases "r = None \<and> authenticate cr es (reviewer_token rq) = None")
    case False
    then have "st' = st\<lparr>limiter := l\<rparr>" "answer \<noteq> Inl (Refused Token_invalid)"
      using assms(1) retry by (auto simp: check_token_def split: option.splits)
    with l lim pace show ?thesis by (simp add: guess_ok_def)
  next
    case True
    then have st': "st' = st\<lparr>limiter := record_failure l (client_key rq) (clock rq)\<rparr>" "answer = Inl (Refused Token_invalid)"
      using assms(1) retry by (auto simp: check_token_def)
    have "paced (max_failures l) (window l) (seen @ [clock rq])" if "client_key rq = key"
    proof (rule paced_add [OF pace(1)])
      show "\<forall>t\<in>set seen. t \<le> clock rq" using tr by (simp add: tracks_def)
      show "length (recent (window l) (clock rq) seen) < max_failures l"
        using tracks_retry_after(2) [OF tr retry that] True lim by simp
    qed
    with tracks_record_failure [OF l pace(2), of "client_key rq"] lim pace st' show ?thesis
      by (auto simp: guess_ok_def record_failure_limits)
  qed
qed

lemma identity_guess:
  assumes "reviewer_identity cr rq st = (st', answer)" and "guess_ok key (limiter st) (clock rq) seen"
  shows "guess_ok key (limiter st') (clock rq)
      (if client_key rq = key \<and> answer = Inl (Refused Token_invalid) then seen @ [clock rq] else seen) \<and>
    window (limiter st') = window (limiter st) \<and> max_failures (limiter st') = max_failures (limiter st)"
proof -
  consider "limiter st' = limiter st" "answer \<noteq> Inl (Refused Token_invalid)"
    | c es where "check_token cr es rq (st\<lparr>cache := c\<rparr>) = (st', answer)"
    using assms(1) by (auto simp: reviewer_identity_def Let_def split: option.splits sum.splits tokens_error.splits if_splits prod.splits)
  then show ?thesis
  proof cases
    case 1
    with assms(2) show ?thesis by simp
  next
    case 2
    from check_token_guess [OF this, of key seen] assms(2) show ?thesis by simp
  qed
qed

lemma serve_guesses:
  "guess_ok key (limiter st) T seen \<Longrightarrow> sorted (T # map clock rqs) \<Longrightarrow>
   paced (max_failures (limiter st)) (window (limiter st)) (seen @ rejected_guesses key (serve_auth cr st rqs))"
proof (induction rqs arbitrary: st T seen)
  case Nil
  then show ?case by (simp add: rejected_guesses_def guess_ok_def)
next
  case (Cons rq rqs)
  obtain st' answer where step: "reviewer_identity cr rq st = (st', answer)" by fastforce
  let ?seen = "if client_key rq = key \<and> answer = Inl (Refused Token_invalid) then seen @ [clock rq] else seen"
  have "guess_ok key (limiter st) (clock rq) seen" using Cons.prems by (auto intro: guess_ok_later)
  note ok = identity_guess [OF step this]
  have "paced (max_failures (limiter st')) (window (limiter st')) (?seen @ rejected_guesses key (serve_auth cr st' rqs))"
    using Cons.prems ok by (intro Cons.IH [of st' "clock rq"]) auto
  then show ?case using ok step by (auto simp: rejected_guesses_def split: if_splits)
qed


definition toy_auth :: "nat auth_state" where
  "toy_auth = \<lparr>cache = [(''t'', (0, [toy_entry]))], limiter = \<lparr>max_failures = 1, window = 60, failures = []\<rparr>\<rparr>"

definition toy_request :: "rat \<Rightarrow> string \<Rightarrow> nat auth_request" where
  "toy_request time token = \<lparr>environ = [(''REVIEWER_TOKENS_FILE'', ''t'')], stamp_now = 0, file_now = toy_tokens,
     clock = time, client_host = Some ''h'', reviewer_token = Some token\<rparr>"

lemma toy_path: "configured_path (environ (toy_request time token)) = Some ''t''"
  by (simp add: configured_path_def getenv_def dict_get_or_def toy_request_def strip_def lstrip_def is_space_def)

lemma toy_wrong: "authenticate toy_sha [toy_entry] (Some ''x'') = None"
  by (simp add: authenticate_def toy_entry_def py_len_def MAX_TOKEN_LENGTH_def hash_token_eq sha256_hex_def toy_sha_def)

lemma toy_guesses:
  "rejected_guesses ''h'' (serve_auth toy_sha toy_auth [toy_request 0 ''x'', toy_request 1 ''grcrt_old'', toy_request 2 ''x'']) = [0]"
  by (simp add: serve_auth.simps reviewer_identity_def toy_path)
    (simp add: toy_request_def toy_auth_def load_registry_def toy_tokens_def check_token_def retry_after_def prune_def
      record_failure_def times_of_def store_times_def toy_wrong client_key_def rejected_guesses_def Let_def)


end
