(* ===== verification/Sessions.thy ===== *)
theory Sessions
  imports FlowTrail
begin

text \<open>
  What survives a restart: \<open>src/swarm/session_manager.py\<close> (the sessions file and the trail
  anchors) and \<open>src/swarm/state/repository.py\<close> (saving and loading a flow). A file is missing,
  unreadable as JSON, or holds its map; a session is the dictionary the code keeps, whose snapshot is the
  persisted \<open>AuditState\<close>. The writes are atomic (temporary file and rename) and the locks make
  each operation one step; an \<open>OSError\<close> of a write is left out.
\<close>

section \<open>The files\<close>

datatype 'a json_file = No_file | Corrupt | Holds 'a

datatype session_value = Text string | Chat "json list" | Snapshot audit_flow

type_synonym session_data = "(string \<times> session_value) list"

record anchor =
  a_count :: int
  a_head :: string
  a_updated :: string

record store =
  sessions_file :: "(string \<times> session_data) list json_file"
  anchors_file :: "(string \<times> anchor) list json_file"
  corrupt_backups :: nat

text \<open>\<open>_load\<close>: a file that cannot be parsed is moved aside, so that the next save does not wipe it.\<close>

definition load_sessions :: "store \<Rightarrow> store \<times> (string \<times> session_data) list" where
  "load_sessions st =
     (case sessions_file st of
        No_file \<Rightarrow> (st, [])
      | Corrupt \<Rightarrow> (st\<lparr>sessions_file := No_file, corrupt_backups := Suc (corrupt_backups st)\<rparr>, [])
      | Holds d \<Rightarrow> (st, d))"

definition save_sessions :: "(string \<times> session_data) list \<Rightarrow> store \<Rightarrow> store" where
  "save_sessions d st = st\<lparr>sessions_file := Holds d\<rparr>"

text \<open>\<open>text[:n]\<close> counts characters: the bytes after the first of a character go with it.\<close>

definition continuation :: "char \<Rightarrow> bool" where
  "continuation c = (let n = of_char c :: nat in 128 \<le> n \<and> n < 192)"

fun py_take :: "nat \<Rightarrow> string \<Rightarrow> string" where
  "py_take n [] = []"
| "py_take n (c # cs) =
     (if continuation c then c # py_take n cs
      else case n of 0 \<Rightarrow> [] | Suc m \<Rightarrow> c # py_take m cs)"

definition dict_setdefault :: "string \<Rightarrow> 'v \<Rightarrow> (string \<times> 'v) list \<Rightarrow> (string \<times> 'v) list" where
  "dict_setdefault k v d = (case map_of d k of None \<Rightarrow> dict_set k v d | Some _ \<Rightarrow> d)"

definition session_of :: "(string \<times> session_data) list \<Rightarrow> string \<Rightarrow> session_data" where
  "session_of d sid = (case map_of d sid of None \<Rightarrow> [] | Some e \<Rightarrow> e)"

definition old_chat :: "session_data \<Rightarrow> json list" where
  "old_chat e = (case map_of e ''chat_history'' of Some (Chat c) \<Rightarrow> c | _ \<Rightarrow> [])"

definition save_session ::
  "string \<Rightarrow> string \<Rightarrow> string \<Rightarrow> string \<Rightarrow> json list \<Rightarrow> session_data \<Rightarrow> store \<Rightarrow> store" where
  "save_session time sid name scope_text chat extra st =
     (let (st', d) = load_sessions st;
          e = dict_setdefault ''created_at'' (Text time) (session_of d sid);
          e' = dict_update e [(''name'', Text name), (''scope_preview'', Text (py_take 200 scope_text)),
                 (''scope_text'', Text scope_text), (''chat_history'', Chat (if chat \<noteq> [] then chat else old_chat e))]
      in save_sessions (dict_set sid (dict_update e' extra) d) st')"

definition update_session :: "string \<Rightarrow> session_data \<Rightarrow> store \<Rightarrow> store \<times> bool" where
  "update_session sid changes st =
     (let (st', d) = load_sessions st in
      case map_of d sid of
        None \<Rightarrow> (st', False)
      | Some e \<Rightarrow> (save_sessions (dict_set sid (dict_update e changes) d) st', True))"

definition get_session :: "string \<Rightarrow> store \<Rightarrow> store \<times> session_data option" where
  "get_session sid st = (let (st', d) = load_sessions st in (st', map_of d sid))"

text \<open>\<open>list_sessions\<close>: newest first; \<open>sorted(reverse=True)\<close> keeps the order of equal keys.\<close>

definition text_field :: "string \<Rightarrow> session_data \<Rightarrow> string" where
  "text_field k e = (case map_of e k of Some (Text s) \<Rightarrow> s | _ \<Rightarrow> [])"

definition list_sessions :: "store \<Rightarrow> store \<times> (string \<times> session_data) list" where
  "list_sessions st =
     (let (st', d) = load_sessions st in
      (st', rev (sort_key (\<lambda>(sid, e). text_field ''created_at'' e) (rev d))))"

definition delete_session :: "string \<Rightarrow> store \<Rightarrow> store" where
  "delete_session sid st =
     (let (st', d) = load_sessions st; st'' = save_sessions (AList.delete sid d) st' in
      case anchors_file st'' of
        Holds a \<Rightarrow> if map_of a sid \<noteq> None then st''\<lparr>anchors_file := Holds (AList.delete sid a)\<rparr> else st''
      | _ \<Rightarrow> st'')"

section \<open>Anchors\<close>

definition load_anchors :: "store \<Rightarrow> raised + (string \<times> anchor) list" where
  "load_anchors st = (case anchors_file st of No_file \<Rightarrow> Inr [] | Corrupt \<Rightarrow> Inl ValueError | Holds a \<Rightarrow> Inr a)"

definition get_trail_anchor :: "string \<Rightarrow> store \<Rightarrow> (int \<times> string) option" where
  "get_trail_anchor sid st =
     (case load_anchors st of Inl e \<Rightarrow> None | Inr a \<Rightarrow> map_option (\<lambda>x. (a_count x, a_head x)) (map_of a sid))"

definition save_trail_anchor ::
  "crypto \<Rightarrow> string option \<Rightarrow> string \<Rightarrow> string \<Rightarrow> trail \<Rightarrow> store \<Rightarrow> raised + store \<times> bool" where
  "save_trail_anchor cr key time sid tr st =
     (case trail_head tr of
        (count, None) \<Rightarrow> Inr (st, False)
      | (count, Some head) \<Rightarrow>
          bindE (load_anchors st) (\<lambda>anchors.
          let current = map_of anchors sid;
              current_count = (case current of None \<Rightarrow> 0 | Some x \<Rightarrow> nat (a_count x));
              current_head = (case current of None \<Rightarrow> [] | Some x \<Rightarrow> a_head x) in
          if count < current_count then Inr (st, False)
          else bindE (if current_count = 0 then Inr True
                      else compare_digest (dict_get_or (tr ! (current_count - 1)) ''entry_hash'' []) current_head) (\<lambda>same.
            if \<not> same then Inr (st, False)
            else if count = current_count then Inr (st, True)
            else bindE (verify_trail cr key tr None None None) (\<lambda>v.
              if v_status v \<in> {STATUS_BROKEN, STATUS_KEY_UNAVAILABLE} then Inr (st, False)
              else Inr (st\<lparr>anchors_file := Holds (dict_set sid
                     \<lparr>a_count = int count, a_head = head, a_updated = time\<rparr> anchors)\<rparr>, True)))))"

section \<open>Saving and loading a flow\<close>

text \<open>The loaded skills and the session id live in memory only.\<close>

definition snapshot_of :: "audit_flow \<Rightarrow> audit_flow" where
  "snapshot_of s = s\<lparr>skill_context := [], session_id := None\<rparr>"

definition save_flow :: "crypto \<Rightarrow> string option \<Rightarrow> string \<Rightarrow> string \<Rightarrow> audit_flow \<Rightarrow> store \<Rightarrow> store \<times> bool" where
  "save_flow cr key time sid s st =
     (let (st', saved) = update_session sid
            [(''scope_text'', Text (business_context s)), (''scope_preview'', Text (py_take 200 (business_context s))),
             (''status'', Text (status_text s)), (''state_snapshot'', Snapshot (snapshot_of s))] st in
      if \<not> saved then (st', False)
      else if snd (trail_head (approval_trail s)) = None then (st', True)
      else case save_trail_anchor cr key time sid (approval_trail s) st' of
             Inl e \<Rightarrow> (st', True)
           | Inr (st'', moved) \<Rightarrow> (st'', True))"

text \<open>
  \<open>schema_cls.model_validate(raw)\<close> on an artifact that was dumped: the validators run again. One
  that is refused is skipped and its field stays empty.
\<close>

definition valid_papers :: "working_papers \<Rightarrow> schema_error + working_papers" where
  "valid_papers p = bindE (collectE (\<lambda>f. bindE (consistent f) (\<lambda>g. Inr [g])) (findings p)) (\<lambda>fs. Inr (p\<lparr>findings := fs\<rparr>))"

definition valid_report :: "final_report \<Rightarrow> schema_error + final_report" where
  "valid_report r = bindE (collectE (\<lambda>e. bindE (validate_deficiency e) (\<lambda>x. Inr [x])) (deficiency_evaluations r)) (\<lambda>es.
     validate_report (r\<lparr>deficiency_evaluations := es\<rparr>))"

fun revalidated :: "('a \<Rightarrow> schema_error + 'a) \<Rightarrow> string \<Rightarrow> 'a option \<Rightarrow> 'a option \<times> string list" where
  "revalidated check field None = (None, [])"
| "revalidated check field (Some x) = (case check x of Inl e \<Rightarrow> (None, [field]) | Inr y \<Rightarrow> (Some y, []))"

definition load_flow ::
  "flow_env \<Rightarrow> string \<Rightarrow> store \<Rightarrow> store \<times> (raised + (audit_flow \<times> string list) option)" where
  "load_flow env sid st =
     (let (st', meta) = get_session sid st in
      (st', case Option.bind meta (\<lambda>e. map_of e ''state_snapshot'') of
          Some (Snapshot snap) \<Rightarrow>
            bindE (of_option ValueError (status_of_value (status_text snap))) (\<lambda>status.
            let (p, skip2) = revalidated valid_papers ''working_papers'' (papers snap);
                (r, skip3) = revalidated valid_report ''final_report'' (report snap);
                s = snap\<lparr>machine := status, status_text := status_value status, session_id := Some sid,
                  skill_context := [], papers := p, report := r\<rparr>
            in Inr (Some (restore_skill_context env s, skip2 @ skip3)))
        | _ \<Rightarrow> Inr None))"

section \<open>Reading back what was saved\<close>

lemma consistent_ok: "finding_ok f \<Longrightarrow> consistent f = Inr f"
  by (cases f) (auto simp: finding_ok_def consistent_def Let_def)

lemma valid_papers_ok: "papers_ok p \<Longrightarrow> valid_papers p = Inr p"
  using collectE_all [of "findings p" "\<lambda>f. bindE (consistent f) (\<lambda>g. Inr [g])" "\<lambda>f. [f]"]
  by (auto simp: valid_papers_def papers_ok_def consistent_ok)

lemma check_scale_ok:
  assumes "report_ok r"
  shows "check_scale (rp_scale r) (deficiency_evaluations r) = Inr (rp_scale r)"
proof (cases "rp_scale r")
  case None
  with assms have "set (map classification (deficiency_evaluations r)) \<subseteq> {NOT_A_DEFICIENCY}"
    by (auto simp: report_ok_def)
  then have all: "set (map classification (deficiency_evaluations r)) \<subseteq> set (scale_classifications s)" for s
    by (cases s) auto
  from None all [of ICFR] all [of RISK_RATING] show ?thesis
    by (simp add: check_scale_def del: scale_classifications.simps)
next
  case (Some s)
  with assms show ?thesis by (auto simp: report_ok_def check_scale_def filter_empty_conv)
qed

lemma valid_report_ok:
  assumes "report_ok r"
  shows "valid_report r = Inr r"
proof -
  have "validate_deficiency e = Inr e" if "e \<in> set (deficiency_evaluations r)" for e
    using assms that by (simp add: report_ok_def validate_deficiency_def)
  then have "collectE (\<lambda>e. bindE (validate_deficiency e) (\<lambda>x. Inr [x])) (deficiency_evaluations r) =
      Inr (concat (map (\<lambda>e. [e]) (deficiency_evaluations r)))"
    by (intro collectE_all) simp
  with check_scale_ok [OF assms] show ?thesis by (simp add: valid_report_def validate_report_def)
qed

definition artifacts_ok :: "audit_flow \<Rightarrow> bool" where
  "artifacts_ok s \<longleftrightarrow> (case papers s of None \<Rightarrow> True | Some p \<Rightarrow> papers_ok p) \<and>
     (case report s of None \<Rightarrow> True | Some r \<Rightarrow> report_ok r)"

text \<open>A session whose snapshot is \<open>s\<close>.\<close>

definition holds :: "store \<Rightarrow> string \<Rightarrow> audit_flow \<Rightarrow> bool" where
  "holds st sid s \<longleftrightarrow> (\<exists>d e. sessions_file st = Holds d \<and> map_of d sid = Some e \<and>
     map_of e ''state_snapshot'' = Some (Snapshot (snapshot_of s)))"

definition known :: "store \<Rightarrow> string \<Rightarrow> bool" where
  "known st sid \<longleftrightarrow> (\<exists>d. sessions_file st = Holds d \<and> map_of d sid \<noteq> None)"

definition reloaded :: "flow_env \<Rightarrow> string \<Rightarrow> audit_flow \<Rightarrow> audit_flow" where
  "reloaded env sid s = restore_skill_context env (s\<lparr>session_id := Some sid, skill_context := []\<rparr>)"

lemma load_holds:
  assumes "holds st sid s" and "status_text s = status_value (machine s)" and "artifacts_ok s"
  shows "load_flow env sid st = (st, Inr (Some (reloaded env sid s, [])))"
proof -
  from assms(1) obtain d e where d: "sessions_file st = Holds d" "map_of d sid = Some e"
    "map_of e ''state_snapshot'' = Some (Snapshot (snapshot_of s))" by (auto simp: holds_def)
  have p: "revalidated valid_papers f (papers s) = (papers s, [])" and r: "revalidated valid_report f (report s) = (report s, [])" for f
    using assms(3) by (cases "papers s"; cases "report s"; simp add: artifacts_ok_def valid_papers_ok valid_report_ok)+
  have same: "s\<lparr>session_id := Some sid, skill_context := []\<rparr> =
     (snapshot_of s)\<lparr>machine := machine s, status_text := status_value (machine s), session_id := Some sid,
                  skill_context := [], papers := papers s, report := report s\<rparr>"
    using assms(2) by (simp add: snapshot_of_def)
  show ?thesis unfolding reloaded_def same
    using d assms(2) p r by (simp add: load_flow_def get_session_def load_sessions_def snapshot_of_def)
qed

lemma update_session_known:
  assumes "known st sid"
  shows "\<exists>d e. sessions_file st = Holds d \<and> map_of d sid = Some e \<and>
    update_session sid changes st = (save_sessions (dict_set sid (dict_update e changes) d) st, True)"
  using assms by (auto simp: known_def update_session_def load_sessions_def)

lemma update_session_unknown:
  assumes "\<not> known st sid" and "update_session sid changes st = (st', b)"
  shows "\<not> b" "\<not> known st' sid" "anchors_file st' = anchors_file st" "holds st' other s = holds st other s"
  using assms by (auto simp: known_def update_session_def load_sessions_def save_sessions_def holds_def
      split: json_file.splits option.splits)

section \<open>The anchor only moves forward\<close>

lemma trail_head_Some: "trail_head tr = (n, Some h) \<longleftrightarrow> tr \<noteq> [] \<and> n = length tr \<and> h = entry_hash (last tr) \<and> h \<noteq> []"
  by (auto simp: trail_head_def entry_hash_def Let_def)

lemma get_anchor_set: "load_anchors st = Inr anchors \<Longrightarrow>
  get_trail_anchor sid' (st\<lparr>anchors_file := Holds (dict_set sid a anchors)\<rparr>) =
    (if sid' = sid then Some (a_count a, a_head a) else get_trail_anchor sid' st)"
  by (simp add: get_trail_anchor_def load_anchors_def split: json_file.splits)

lemma get_anchor_map: "load_anchors st = Inr anchors \<Longrightarrow>
  get_trail_anchor sid st = map_option (\<lambda>x. (a_count x, a_head x)) (map_of anchors sid)"
  by (simp add: get_trail_anchor_def)

lemma save_trail_anchor_facts:
  assumes "save_trail_anchor cr key time sid tr st = Inr (st', moved)"
  shows "(moved \<longrightarrow> tr \<noteq> [] \<and> get_trail_anchor sid st' = Some (int (length tr), entry_hash (last tr)) \<and>
      (\<forall>n h. get_trail_anchor sid st = Some (n, h) \<and> 0 < n \<longrightarrow>
         nat n \<le> length tr \<and> entry_hash (tr ! (nat n - 1)) = h)) \<and>
    (\<not> moved \<longrightarrow> st' = st) \<and> sessions_file st' = sessions_file st \<and>
    (\<forall>other. other \<noteq> sid \<longrightarrow> get_trail_anchor other st' = get_trail_anchor other st)"
proof (cases "snd (trail_head tr)")
  case None
  with assms show ?thesis by (cases "trail_head tr") (simp add: save_trail_anchor_def)
next
  case (Some h)
  then have head: "trail_head tr = (length tr, Some h)" "tr \<noteq> []" "h = entry_hash (last tr)"
    using trail_head_Some [of tr "fst (trail_head tr)" h] by (cases "trail_head tr"; simp)+
  obtain anchors where a: "load_anchors st = Inr anchors"
    using assms by (auto simp: save_trail_anchor_def head result_simps)
  define n where "n = (case map_of anchors sid of None \<Rightarrow> 0 | Some x \<Rightarrow> nat (a_count x))"
  define g where "g = (case map_of anchors sid of None \<Rightarrow> [] | Some x \<Rightarrow> a_head x)"
  have eq: "save_trail_anchor cr key time sid tr st =
      (if length tr < n then Inr (st, False)
       else bindE (if n = 0 then Inr True else compare_digest (dict_get_or (tr ! (n - 1)) ''entry_hash'' []) g) (\<lambda>same.
         if \<not> same then Inr (st, False)
         else if length tr = n then Inr (st, True)
         else bindE (verify_trail cr key tr None None None) (\<lambda>v.
           if v_status v \<in> {STATUS_BROKEN, STATUS_KEY_UNAVAILABLE} then Inr (st, False)
           else Inr (st\<lparr>anchors_file := Holds (dict_set sid \<lparr>a_count = int (length tr), a_head = h, a_updated = time\<rparr> anchors)\<rparr>, True))))"
    unfolding save_trail_anchor_def head(1) n_def g_def
    by (simp only: a prod.case option.case bindE.simps Let_def)
  have old: "get_trail_anchor sid st = Some (i, g') \<and> 0 < i \<Longrightarrow> n = nat i \<and> g = g' \<and> 0 < n" for i g'
    by (auto simp: get_anchor_map [OF a] n_def g_def)
  show ?thesis
  proof (cases "length tr < n")
    case True
    with assms eq show ?thesis by simp
  next
    case False
    then obtain same where same: "(if n = 0 then Inr True
        else compare_digest (dict_get_or (tr ! (n - 1)) ''entry_hash'' []) g) = Inr same"
      using assms unfolding eq by (auto simp: bindE_Inr_iff split del: if_split)
    have match: "same \<Longrightarrow> 0 < n \<Longrightarrow> entry_hash (tr ! (n - 1)) = g"
      using same by (auto simp: result_simps entry_hash_def)
    consider "st' = st" "\<not> moved" | "same" "st' = st" "moved" "length tr = n"
      | "same" "moved" "st' = st\<lparr>anchors_file := Holds (dict_set sid \<lparr>a_count = int (length tr), a_head = h, a_updated = time\<rparr> anchors)\<rparr>"
      using assms False unfolding eq same by (auto simp: bindE_Inr_iff split: if_splits)
    then show ?thesis
    proof cases
      case 2
      then have "0 < n" using head(2) by auto
      then obtain x where "map_of anchors sid = Some x" "n = nat (a_count x)" "g = a_head x"
        by (auto simp: n_def g_def split: option.splits)
      then have "get_trail_anchor sid st = Some (int (length tr), g)"
        using 2 \<open>0 < n\<close> by (simp add: get_anchor_map [OF a])
      moreover have "g = entry_hash (last tr)" using match 2 \<open>0 < n\<close> head(2) by (simp add: last_conv_nth)
      ultimately show ?thesis using 2 head old match by auto
    next
      case 3
      then show ?thesis using head old match False get_anchor_set [OF a] by fastforce
    qed simp
  qed
qed

text \<open>An audit's own trail always moves its anchor to its head.\<close>

lemma anchor_extends:
  assumes tr: "appended cr key [] tr" "crypto_ok cr" "tr \<noteq> []"
    and old: "get_trail_anchor sid st = anchor_at [] tr m" "m \<le> length tr" "anchors_file st \<noteq> Corrupt"
  shows "\<exists>st'. save_trail_anchor cr key time sid tr st = Inr (st', True) \<and>
    get_trail_anchor sid st' = anchor_at [] tr (length tr) \<and> anchors_file st' \<noteq> Corrupt"
proof -
  have last: "ascii (entry_hash e)" "entry_hash e \<noteq> []" if "e \<in> set tr" for e
    using entry_hash_ascii [OF tr(1,2) that] by auto
  then have h: "trail_head tr = (length tr, Some (entry_hash (last tr)))"
    using tr(3) by (simp add: trail_head_Some)
  obtain anchors where a: "load_anchors st = Inr anchors"
    using old(3) by (cases "anchors_file st") (auto simp: load_anchors_def)
  obtain v where v: "verify_trail cr key tr None None None = Inr v" "v_status v = STATUS_OK"
    using appended_verifies_with [OF tr, of 0 None None] by (auto simp: anchor_at_def)
  show ?thesis
  proof (cases "m = 0")
    case True
    then have "map_of anchors sid = None" using old(1) by (simp add: get_anchor_map [OF a] anchor_at_def)
    then show ?thesis using tr(3) v a h get_anchor_set [OF a]
      by (simp add: save_trail_anchor_def anchor_at_def last_conv_nth)
  next
    case False
    then obtain x where x: "map_of anchors sid = Some x" "nat (a_count x) = m" "a_head x = entry_hash (tr ! (m - 1))"
      using old(1) by (auto simp: get_anchor_map [OF a] anchor_at_def)
    have "tr ! (m - 1) \<in> set tr" using False old(2) by (intro nth_mem) simp
    then have "compare_digest (dict_get_or (tr ! (m - 1)) ''entry_hash'' []) (a_head x) = Inr True"
      using x(3) last by (simp add: entry_hash_def [symmetric] compare_digest_refl)
    then show ?thesis using False old(1) x v a h tr(3) old(2,3) get_anchor_set [OF a]
      by (cases "m = length tr") (auto simp: save_trail_anchor_def anchor_at_def last_conv_nth)
  qed
qed

text \<open>Saving a flow: its session holds it, its anchor is its head, other sessions are as before.\<close>

lemma save_flow_holds:
  assumes "known st sid"
  shows "\<exists>st'. save_flow cr key time sid s st = (st', True) \<and> holds st' sid s \<and>
    (\<forall>other t. other \<noteq> sid \<longrightarrow> holds st' other t = holds st other t \<and>
       get_trail_anchor other st' = get_trail_anchor other st) \<and>
    (\<forall>other. known st' other = known st other)"
proof -
  let ?ch = "[(''scope_text'', Text (business_context s)), (''scope_preview'', Text (py_take 200 (business_context s))),
             (''status'', Text (status_text s)), (''state_snapshot'', Snapshot (snapshot_of s))]"
  obtain d e where d: "sessions_file st = Holds d" "map_of d sid = Some e"
    "update_session sid ?ch st = (save_sessions (dict_set sid (dict_update e ?ch) d) st, True)"
    using update_session_known [OF assms] by blast
  let ?st = "save_sessions (dict_set sid (dict_update e ?ch) d) st"
  have field: "map_of (dict_update e ?ch) ''state_snapshot'' = Some (Snapshot (snapshot_of s))"
    by (simp add: dict_get_update)
  have st: "holds ?st sid s" "other \<noteq> sid \<Longrightarrow> holds ?st other t = holds st other t"
    "get_trail_anchor other ?st = get_trail_anchor other st" "known ?st other = known st other" for other t
    using d field by (auto simp: holds_def save_sessions_def get_trail_anchor_def load_anchors_def known_def)
  have same: "sessions_file st' = sessions_file st'' \<Longrightarrow> holds st' other t = holds st'' other t \<and> known st' other = known st'' other"
    for st' st'' other t by (simp add: holds_def known_def)
  show ?thesis
  proof (cases "snd (trail_head (approval_trail s)) = None")
    case True
    with d(3) st show ?thesis by (auto simp: save_flow_def)
  next
    case False
    show ?thesis
    proof (cases "save_trail_anchor cr key time sid (approval_trail s) ?st")
      case (Inl e)
      with False d(3) st show ?thesis by (auto simp: save_flow_def)
    next
      case (Inr p)
      obtain st' moved where p: "p = (st', moved)" by fastforce
      note facts = save_trail_anchor_facts [OF Inr [unfolded p]]
      have "save_flow cr key time sid s st = (st', True)"
        using False d(3) Inr p by (simp add: save_flow_def del: not_None_eq)
      then show ?thesis using facts st same [of st' ?st] by auto
    qed
  qed
qed

lemma save_flow_anchor:
  assumes "known st sid" and tr: "appended cr key [] (approval_trail s)" "crypto_ok cr"
    and old: "get_trail_anchor sid st = anchor_at [] (approval_trail s) m" "m \<le> length (approval_trail s)"
      "anchors_file st \<noteq> Corrupt"
  shows "get_trail_anchor sid (fst (save_flow cr key time sid s st)) =
      anchor_at [] (approval_trail s) (length (approval_trail s)) \<and>
    anchors_file (fst (save_flow cr key time sid s st)) \<noteq> Corrupt"
proof -
  obtain d e ch where d: "sessions_file st = Holds d" "map_of d sid = Some e"
    and up: "update_session sid ch st = (save_sessions (dict_set sid (dict_update e ch) d) st, True)"
    and ch: "ch = [(''scope_text'', Text (business_context s)), (''scope_preview'', Text (py_take 200 (business_context s))),
             (''status'', Text (status_text s)), (''state_snapshot'', Snapshot (snapshot_of s))]"
    using update_session_known [OF assms(1)] by blast
  let ?st = "save_sessions (dict_set sid (dict_update e ch) d) st"
  have st: "get_trail_anchor sid ?st = anchor_at [] (approval_trail s) m" "anchors_file ?st \<noteq> Corrupt"
    using old by (simp_all add: save_sessions_def get_trail_anchor_def load_anchors_def)
  show ?thesis
  proof (cases "approval_trail s = []")
    case True
    then have "m = 0" using old(2) by simp
    with True st up ch show ?thesis by (simp add: save_flow_def trail_head_def anchor_at_def)
  next
    case False
    obtain st' where st': "save_trail_anchor cr key time sid (approval_trail s) ?st = Inr (st', True)"
      "get_trail_anchor sid st' = anchor_at [] (approval_trail s) (length (approval_trail s))" "anchors_file st' \<noteq> Corrupt"
      using anchor_extends [OF tr False st(1) old(2) st(2)] by blast
    have "entry_hash (last (approval_trail s)) \<noteq> []"
      using entry_hash_ascii [OF tr] False by simp
    then have "snd (trail_head (approval_trail s)) \<noteq> None"
      using False trail_head_Some [of "approval_trail s"] by (metis option.distinct(1) snd_conv)
    then have "save_flow cr key time sid s st = (st', True)"
      using up st'(1) by (simp add: save_flow_def ch del: not_None_eq)
    with st' show ?thesis by simp
  qed
qed

text \<open>Deleting a session removes it with its anchor and touches no other.\<close>

lemma delete_session_facts:
  "\<not> known (delete_session sid st) sid"
  "other \<noteq> sid \<Longrightarrow> known (delete_session sid st) other = known st other"
  "other \<noteq> sid \<Longrightarrow> holds (delete_session sid st) other s = holds st other s"
  "other \<noteq> sid \<Longrightarrow> get_trail_anchor other (delete_session sid st) = get_trail_anchor other st"
  "get_trail_anchor sid (delete_session sid st) = None"
  "anchors_file st \<noteq> Corrupt \<Longrightarrow> anchors_file (delete_session sid st) \<noteq> Corrupt"
  by (cases "sessions_file st"; cases "anchors_file st";
      auto simp: delete_session_def load_sessions_def save_sessions_def known_def holds_def get_trail_anchor_def
        load_anchors_def delete_conv' Let_def)+

end
