(* ===== verification/Validated.thy ===== *)
theory Validated
  imports Sessions
begin

text \<open>
  What a crew hands on is an instance of its Pydantic schema: the task output's \<open>pydantic\<close>
  attribute, which \<open>CrewResultAdapter\<close> (\<open>src/swarm/crews/result_adapter.py\<close>) returns, went through the
  validators or is \<open>None\<close>. So the artifacts of an audit always pass their validators, and reading
  a saved audit back loses nothing.
\<close>

definition validated_artifact :: "artifact \<Rightarrow> artifact option" where
  "validated_artifact a =
     (case a of
        Racm r \<Rightarrow> Some (Racm r)
      | Papers p \<Rightarrow> (case valid_papers p of Inl e \<Rightarrow> None | Inr q \<Rightarrow> Some (Papers q))
      | Report r \<Rightarrow> (case valid_report r of Inl e \<Rightarrow> None | Inr q \<Rightarrow> Some (Report q)))"

definition validated_result :: "crew_result \<Rightarrow> crew_result" where
  "validated_result r =
     (case r of Crew_raised m \<Rightarrow> Crew_raised m | Crew_done qa a \<Rightarrow> Crew_done qa (Option.bind a validated_artifact))"

definition validated :: "run_env \<Rightarrow> run_env" where
  "validated re = re\<lparr>crew := \<lambda>n inputs. validated_result (crew re n inputs)\<rparr>"

fun artifact_ok :: "artifact \<Rightarrow> bool" where
  "artifact_ok (Racm r) = True"
| "artifact_ok (Papers p) = papers_ok p"
| "artifact_ok (Report r) = report_ok r"

definition draft_ok :: "artifact option \<Rightarrow> bool" where
  "draft_ok a \<longleftrightarrow> (case a of None \<Rightarrow> True | Some x \<Rightarrow> artifact_ok x)"

section \<open>What validation establishes\<close>

lemma consistent_finding_ok: "consistent f = Inr g \<Longrightarrow> finding_ok g"
  by (auto simp: consistent_def finding_ok_def Let_def split: if_splits)

lemma valid_papers_Inr: "valid_papers p = Inr q \<Longrightarrow> papers_ok q"
  by (auto simp: valid_papers_def papers_ok_def bindE_Inr_iff collectE_each list_all2_conv_all_nth in_set_conv_nth)
     (metis consistent_finding_ok)

lemma valid_report_Inr:
  assumes "valid_report r = Inr q"
  shows "report_ok q"
proof -
  from assms obtain es s where es: "list_all2 (\<lambda>x y. validate_deficiency x = Inr y) (deficiency_evaluations r) es"
    and s: "check_scale (rp_scale r) es = Inr s" and q: "q = r\<lparr>deficiency_evaluations := es, rp_scale := s\<rparr>"
    by (auto simp: valid_report_def validate_report_def bindE_Inr_iff collectE_each)
  have mw: "material_weakness_ok (classification e) (likelihood e) (magnitude e)" if "e \<in> set es" for e
    using es that by (auto simp: list_all2_conv_all_nth in_set_conv_nth validate_deficiency_def split: if_splits)
  have "case s of None \<Rightarrow> (\<forall>e\<in>set es. classification e = NOT_A_DEFICIENCY)
      | Some c \<Rightarrow> classification ` set es \<subseteq> set (scale_classifications c)"
  proof (cases "rp_scale r")
    case (Some c)
    with s have "s = Some c" "\<forall>e\<in>set es. classification e \<in> set (scale_classifications c)"
      by (auto simp: check_scale_def Let_def filter_empty_conv split: if_splits)
    then show ?thesis by auto
  next
    case None
    then show ?thesis using s
      by (auto simp: check_scale_def Let_def split: if_splits list.splits) (fastforce simp: image_subset_iff)
  qed
  then show ?thesis using mw by (cases s) (simp_all add: report_ok_def q)
qed

lemma validated_ok: "crew (validated re) n inputs = Crew_done qa a \<Longrightarrow> draft_ok a"
  by (auto simp: validated_def validated_result_def validated_artifact_def draft_ok_def
      dest: valid_papers_Inr valid_report_Inr split: crew_result.splits option.splits artifact.splits sum.splits bind_splits)

section \<open>The artifacts of an audit\<close>

lemma artifacts_ok_cong: "papers t = papers s \<Longrightarrow> report t = report s \<Longrightarrow> artifacts_ok t = artifacts_ok s"
  by (simp add: artifacts_ok_def)

lemma artifacts_ok_simps [simp]:
  "artifacts_ok (update_run f s) = artifacts_ok s" "artifacts_ok (close_run re out s) = artifacts_ok s"
  "artifacts_ok (s\<lparr>qa_reason := q\<rparr>) = artifacts_ok s" "artifacts_ok (s\<lparr>dossier := d\<rparr>) = artifacts_ok s"
  "artifacts_ok (s\<lparr>generation_runs := rs\<rparr>) = artifacts_ok s" "artifacts_ok (s\<lparr>approval_trail := tr\<rparr>) = artifacts_ok s"
  "artifacts_ok (detect_skills env s) = artifacts_ok s" "artifacts_ok (commit_status s) = artifacts_ok s"
  "artifacts_ok (s\<lparr>machine := m\<rparr>) = artifacts_ok s" "artifacts_ok (s\<lparr>review_decisions := ds\<rparr>) = artifacts_ok s"
  "artifacts_ok (s\<lparr>prepared_by := n\<rparr>) = artifacts_ok s" "artifacts_ok (s\<lparr>decisions_required := b\<rparr>) = artifacts_ok s"
  "artifacts_ok (s\<lparr>session_id := i\<rparr>) = artifacts_ok s" "artifacts_ok (s\<lparr>skill_context := c\<rparr>) = artifacts_ok s"
  by (simp_all add: artifacts_ok_def update_run_def close_run_def detect_skills_def commit_status_def Let_def)

lemma restore_artifacts [simp]:
  "artifacts_ok (restore_skill_context env s) = artifacts_ok s" "artifacts_ok (ensure_skill_context env s) = artifacts_ok s"
proof -
  show restore: "artifacts_ok (restore_skill_context env s) = artifacts_ok s"
    by (simp add: restore_skill_context_def Let_def)
  show "artifacts_ok (ensure_skill_context env s) = artifacts_ok s"
    by (simp add: ensure_skill_context_def restore)
qed

lemma move_artifacts: "move m s = Inr t \<Longrightarrow> artifacts_ok t = artifacts_ok s"
  by (auto simp: move_iff)

lemma stamp_artifacts: "stamp_trail env gate human action src extra s = Inr t \<Longrightarrow> artifacts_ok t = artifacts_ok s"
  by (auto simp: stamp_trail_def result_simps)

lemma fail_artifacts: "fail_phase p reason s = Inr t \<Longrightarrow> artifacts_ok t = artifacts_ok s"
  by (auto simp: fail_phase_def result_simps dest: move_artifacts)

lemma set_artifacts: "set_artifact p a s = Some t \<Longrightarrow> draft_ok a \<Longrightarrow> artifacts_ok s \<Longrightarrow> artifacts_ok t"
  by (cases p; cases a) (auto simp: artifacts_ok_def draft_ok_def elim!: set_artifact.elims)

lemma clear_artifacts: "artifacts_ok s \<Longrightarrow> artifacts_ok (clear_artifact p s)"
  by (cases p) (auto simp: artifacts_ok_def clear_artifact_def)

fun attempt_draft :: "attempt_result \<Rightarrow> artifact option" where
  "attempt_draft (Attempt_error msg) = None"
| "attempt_draft (Attempt_rejected by why a) = a"
| "attempt_draft (Attempt_passed a) = a"

lemma attempt_artifacts:
  assumes "try_attempt env (validated re) p n inputs s = (t, r)"
  shows "artifacts_ok t = artifacts_ok s" "draft_ok (attempt_draft r)"
  using assms validated_ok [of re n inputs]
  by (auto simp: try_attempt_def Let_def draft_ok_def split: crew_result.splits prod.splits if_splits)

lemma passed_artifacts: "store_passed re p a s = Inr (t, b) \<Longrightarrow> draft_ok a \<Longrightarrow> artifacts_ok s \<Longrightarrow> artifacts_ok t"
  by (auto simp: store_passed_def result_simps dest!: fail_artifacts split: option.splits intro: set_artifacts)

lemma rejected_artifacts: "store_rejected re p by a_why a s = Inr t \<Longrightarrow> draft_ok a \<Longrightarrow> artifacts_ok s \<Longrightarrow> artifacts_ok t"
  by (auto simp: store_rejected_def result_simps Let_def dest!: move_artifacts split: option.splits
      intro: set_artifacts clear_artifacts)

lemma error_artifacts: "crew_error re p which msg s = Inr (t, b) \<Longrightarrow> artifacts_ok s \<Longrightarrow> artifacts_ok t"
  by (auto simp: crew_error_def result_simps dest!: fail_artifacts)

lemma start_run_validated [simp]: "start_generation_run env (validated re) p s = start_generation_run env re p s"
  by (simp add: start_generation_run_def validated_def Let_def)

lemma run_crew_artifacts:
  assumes run: "run_crew_with_qa env (validated re) p inputs s = Inr (t, b)" and ok: "artifacts_ok s"
  shows "artifacts_ok t"
proof -
  obtain g where g: "start_generation_run env re p s = Inr g"
    using run by (auto simp: run_crew_with_qa_def bindE_Inr_iff)
  let ?s0 = "s\<lparr>generation_runs := generation_runs s @ [g]\<rparr>"
  obtain s1 r1 where t1: "try_attempt env (validated re) p 1 inputs ?s0 = (s1, r1)" by fastforce
  have s1: "artifacts_ok s1" "draft_ok (attempt_draft r1)" using attempt_artifacts [OF t1] ok by simp_all
  show ?thesis
  proof (cases r1)
    case (Attempt_error msg)
    then show ?thesis using run g t1 s1 by (auto simp: run_crew_with_qa_def intro: error_artifacts)
  next
    case (Attempt_passed a)
    then show ?thesis using run g t1 s1 by (auto simp: run_crew_with_qa_def intro: passed_artifacts)
  next
    case (Attempt_rejected by_qa why a)
    let ?inputs = "dict_set (qa_feedback_key p) (dict_get_or inputs (qa_feedback_key p) [] @ qa_feedback_text p why) inputs"
    obtain s2 r2 where t2: "try_attempt env (validated re) p 2 ?inputs s1 = (s2, r2)" by fastforce
    have s2: "artifacts_ok s2" "draft_ok (attempt_draft r2)" using attempt_artifacts [OF t2] s1 by simp_all
    have run2: "(case r2 of Attempt_error msg \<Rightarrow> crew_error (validated re) p ''crew retry'' msg s2
         | Attempt_passed a2 \<Rightarrow> store_passed (validated re) p a2 s2
         | Attempt_rejected by_qa2 why2 a2 \<Rightarrow>
             bindE (store_rejected (validated re) p by_qa2 why2 a2 s2) (\<lambda>t. Inr (t, False))) = Inr (t, b)"
      using run g t1 t2 Attempt_rejected by (simp add: run_crew_with_qa_def Let_def)
    then show ?thesis using s2
      by (cases r2) (auto simp: result_simps intro: error_artifacts passed_artifacts rejected_artifacts)
  qed
qed

lemma complete_artifacts:
  assumes "complete_run p announce m = Inr t" and "\<And>u b. m = Inr (u, b) \<Longrightarrow> artifacts_ok u"
    and "\<And>u. artifacts_ok (announce u) = artifacts_ok u"
  shows "artifacts_ok t"
  using assms by (auto simp: complete_run_def result_simps split: if_splits dest!: move_artifacts)

lemma leaving_artifacts:
  assumes "leaving s m = Inr (t, e)" and "artifacts_ok s" and "\<And>u. m = Inr u \<Longrightarrow> artifacts_ok u"
  shows "artifacts_ok t"
  using assms by (auto simp: leaving_def split: sum.splits)

lemma announce_artifacts [simp]:
  "artifacts_ok (planning_done s) = artifacts_ok s" "artifacts_ok (fieldwork_done s) = artifacts_ok s"
  "artifacts_ok (reporting_done s) = artifacts_ok s"
  by (simp_all add: planning_done_def fieldwork_done_def reporting_done_def)

text \<open>A generation whose crew hands on validated artifacts keeps every artifact valid.\<close>

lemma generate_artifacts:
  assumes run: "generate dump env (validated re) p s = Inr (t, e)" and ok: "artifacts_ok s"
  shows "artifacts_ok t"
proof (cases p)
  case P1
  then obtain s0 where s0: "(if machine s = WAITING_FOR_SCOPE then move StartPhase1 s else Inr s) = Inr s0"
    and run: "leaving ((detect_skills env s0)\<lparr>qa_reason := None\<rparr>) (complete_run P1 planning_done
       (run_crew_with_qa env (validated re) P1 (seed_feedback P1 ((detect_skills env s0)\<lparr>qa_reason := None\<rparr>)
          (planning_inputs ((detect_skills env s0)\<lparr>qa_reason := None\<rparr>))) ((detect_skills env s0)\<lparr>qa_reason := None\<rparr>))) = Inr (t, e)"
    using run by (auto simp: generate_planning_def bindE_Inr_iff Let_def split: if_splits)
  have "artifacts_ok s0" using s0 ok by (auto split: if_splits dest: move_artifacts)
  with run show ?thesis
    by (elim leaving_artifacts) (auto elim!: complete_artifacts intro: run_crew_artifacts)
next
  case P2
  show ?thesis
  proof (cases "racm_plan ((ensure_skill_context env s)\<lparr>qa_reason := None\<rparr>) = None")
    case True
    with P2 run ok show ?thesis
      by (auto simp: generate_fieldwork_def Let_def split: if_splits elim!: leaving_artifacts dest: fail_artifacts)
  next
    case False
    with P2 run ok show ?thesis
      by (auto simp: generate_fieldwork_def Let_def split: if_splits elim!: leaving_artifacts complete_artifacts
          intro: run_crew_artifacts)
  qed
next
  case P3
  let ?s = "(ensure_skill_context env s)\<lparr>qa_reason := None\<rparr>"
  show ?thesis
  proof (cases "papers ?s = None")
    case True
    with P3 run ok show ?thesis
      by (auto simp: generate_reporting_def Let_def split: if_splits elim!: leaving_artifacts dest: fail_artifacts)
  next
    case False
    with P3 run have "leaving ?s (bindE (flow_raise Python_error (reporting_inputs dump env ?s)) (\<lambda>inputs.
        complete_run P3 reporting_done (run_crew_with_qa env (validated re) P3 (seed_feedback P3 ?s inputs) ?s))) = Inr (t, e)"
      by (simp add: generate_reporting_def Let_def split: if_splits)
    then show ?thesis
    proof (rule leaving_artifacts)
      fix u assume "bindE (flow_raise Python_error (reporting_inputs dump env ?s)) (\<lambda>inputs.
        complete_run P3 reporting_done (run_crew_with_qa env (validated re) P3 (seed_feedback P3 ?s inputs) ?s)) = Inr u"
      then obtain inputs where "complete_run P3 reporting_done (run_crew_with_qa env (validated re) P3 inputs ?s) = Inr u"
        by (auto simp: bindE_Inr_iff)
      then show "artifacts_ok u" by (rule complete_artifacts) (use ok in \<open>auto elim: run_crew_artifacts\<close>)
    qed (use ok in simp)
  qed
qed

section \<open>The other operations leave the artifacts alone\<close>

lemma record_preparer_artifacts: "record_preparer env by req src s = Inr t \<Longrightarrow> artifacts_ok t = artifacts_ok s"
  by (auto simp: record_preparer_def result_simps dest!: stamp_artifacts)

lemma approve_artifacts: "flow_approve_gate env g human src s = Inr t \<Longrightarrow> artifacts_ok t = artifacts_ok s"
  by (auto simp: flow_approve_gate_def bindE_Inr_iff Let_def dest!: stamp_artifacts move_artifacts)

lemma retry_artifacts: "flow_retry_phase env n human src s = Inr t \<Longrightarrow> artifacts_ok t = artifacts_ok s"
  by (auto simp: flow_retry_phase_def bindE_Inr_iff dest!: stamp_artifacts move_artifacts)

lemma return_artifacts: "flow_return_for_rework env n human why src s = Inr t \<Longrightarrow> artifacts_ok t = artifacts_ok s"
  by (auto simp: flow_return_for_rework_def bindE_Inr_iff Let_def dest!: stamp_artifacts move_artifacts)

lemma override_artifacts: "override_qa_rejection env n human why src s = Inr t \<Longrightarrow> artifacts_ok t = artifacts_ok s"
  by (auto simp: override_qa_rejection_def bindE_Inr_iff Let_def dest!: stamp_artifacts move_artifacts)

lemma decision_artifacts: "record_decision env rq s = Inr t \<Longrightarrow> artifacts_ok t = artifacts_ok s"
  by (auto simp: record_decision_def result_simps dest!: stamp_artifacts)

lemma begin_artifacts: "begin_phase_1 s = Inr t \<Longrightarrow> artifacts_ok t = artifacts_ok s"
  by (auto simp: begin_phase_1_def result_simps dest!: move_artifacts)

lemmas operation_artifacts = record_preparer_artifacts approve_artifacts retry_artifacts return_artifacts
  override_artifacts decision_artifacts begin_artifacts

end
