(* ===== verification/Api.thy ===== *)
theory Api
  imports Auth Validated
begin

text \<open>
  The reviewing endpoints: \<open>src/api/routers/sessions.py\<close>, with the flows in memory of
  \<open>src/api/job_store.py\<close> and the runs handed to \<open>src/api/executor.py\<close>. Each handler is one step:
  the session lock makes check, transition and save atomic. What a request carries beside its
  fields (keys, clock, fresh ids, the vault, the tokens file) is its environment. Response
  bodies are left out: a handler returns the status text or the error.
\<close>

section \<open>State\<close>

record 'st api =
  api_auth :: "'st auth_state"
  api_store :: store
  api_flows :: "(string \<times> audit_flow) list"
  api_queue :: "(string \<times> phase) list"

record 'st api_env =
  auth_of :: "'st auth_request"
  flow_of :: flow_env
  new_session_id :: string
  wall_clock :: string

definition api_crypto :: "'st api_env \<Rightarrow> crypto" where
  "api_crypto env = crypto_of (flow_of env)"

definition set_flow :: "string \<Rightarrow> audit_flow \<Rightarrow> 'st api \<Rightarrow> 'st api" where
  "set_flow sid f st = st\<lparr>api_flows := dict_set sid (f\<lparr>session_id := Some sid\<rparr>) (api_flows st)\<rparr>"

definition remove_flow :: "string \<Rightarrow> 'st api \<Rightarrow> 'st api" where
  "remove_flow sid st = st\<lparr>api_flows := AList.delete sid (api_flows st)\<rparr>"

definition repo_save :: "'st api_env \<Rightarrow> string \<Rightarrow> audit_flow \<Rightarrow> 'st api \<Rightarrow> 'st api" where
  "repo_save env sid f st =
     st\<lparr>api_store := fst (save_flow (api_crypto env) (trail_key (flow_of env)) (wall_clock env) sid f (api_store st))\<rparr>"

definition submit_phase :: "string \<Rightarrow> phase \<Rightarrow> 'st api \<Rightarrow> 'st api" where
  "submit_phase sid p st = st\<lparr>api_queue := api_queue st @ [(sid, p)]\<rparr>"

text \<open>\<open>_require_session\<close>: an unknown id and an empty session are both 404.\<close>

definition require_session :: "string \<Rightarrow> 'st api \<Rightarrow> 'st api \<times> (http_error + session_data)" where
  "require_session sid st =
     (let (store', d) = get_session sid (api_store st) in
      (st\<lparr>api_store := store'\<rparr>, case d of None \<Rightarrow> Inl (Http 404) | Some e \<Rightarrow> if e = [] then Inl (Http 404) else Inr e))"

definition get_or_load_flow :: "'st api_env \<Rightarrow> string \<Rightarrow> 'st api \<Rightarrow> 'st api \<times> (http_error + audit_flow option)" where
  "get_or_load_flow env sid st =
     (case map_of (api_flows st) sid of
        Some f \<Rightarrow> (st, Inr (Some f))
      | None \<Rightarrow>
          (let (store', r) = load_flow (flow_of env) sid (api_store st); st' = st\<lparr>api_store := store'\<rparr> in
           case r of
             Inl e \<Rightarrow> (st', Inl Unhandled)
           | Inr None \<Rightarrow> (st', Inr None)
           | Inr (Some (f, skipped)) \<Rightarrow> (set_flow sid f st', Inr (Some (f\<lparr>session_id := Some sid\<rparr>)))))"

definition require_flow :: "'st api_env \<Rightarrow> string \<Rightarrow> 'st api \<Rightarrow> 'st api \<times> (http_error + audit_flow)" where
  "require_flow env sid st =
     (let (st', r) = get_or_load_flow env sid st in
      (st', bindE r (\<lambda>f. of_option (Http 404) f)))"

section \<open>Errors of the flow as responses\<close>

text \<open>A \<open>ValueError\<close> is 422; what no handler catches is 500.\<close>

fun review_error :: "flow_error \<Rightarrow> http_error" where
  "review_error (Invalid_transition e) = Http 409"
| "review_error (Missing_decisions ms) = Http 409"
| "review_error (Segregation v) = Http 409"
| "review_error (Unverified_evidence cs) = Http 409"
| "review_error (Artifact_missing p) = Http 409"
| "review_error (Value_error what) = Http 422"
| "review_error (Python_error ValueError) = Http 422"
| "review_error (Decision_refused e) = Unhandled"
| "review_error (Runtime_error st) = Unhandled"
| "review_error Same_family = Http 422"
| "review_error (Python_error e) = Unhandled"

text \<open>\<open>return_for_rework\<close> does not catch a missing artifact, \<open>retry_phase\<close> no \<open>ReviewBlockedError\<close> either.\<close>

definition return_error :: "flow_error \<Rightarrow> http_error" where
  "return_error e = (case e of Artifact_missing p \<Rightarrow> Unhandled | _ \<Rightarrow> review_error e)"

definition retry_error :: "flow_error \<Rightarrow> http_error" where
  "retry_error e =
     (case e of Missing_decisions ms \<Rightarrow> Unhandled | Segregation v \<Rightarrow> Unhandled | Unverified_evidence cs \<Rightarrow> Unhandled
      | _ \<Rightarrow> return_error e)"

definition decision_error_response :: "flow_error \<Rightarrow> http_error" where
  "decision_error_response e =
     (case e of
        Decision_refused (DecisionValidationError p) \<Rightarrow> Http 422
      | Decision_refused (DecisionConflictError c) \<Rightarrow> Http 409
      | Decision_refused (SegregationOfDutiesError v) \<Rightarrow> Http 409
      | _ \<Rightarrow> Unhandled)"

section \<open>The endpoints\<close>

text \<open>\<open>field_validator("human_id")(_strip)\<close> is only on \<open>prepared_by\<close> and \<open>decided_by\<close>.\<close>

datatype action =
    Create string string "string list" "string option" string
  | Approve_action int string
  | Retry_action int string
  | Override_action int string string
  | Return_action int string string
  | Decide_action decision_request
  | Delete_action string

text \<open>A reviewing action on a flow, once the caller's identity is known: what all of them share.\<close>

definition act_on_flow ::
  "'st api_env \<Rightarrow> string \<Rightarrow> (audit_flow \<Rightarrow> flow_error + audit_flow) \<Rightarrow> (flow_error \<Rightarrow> http_error) \<Rightarrow>
   (audit_flow \<Rightarrow> 'st api \<Rightarrow> 'st api) \<Rightarrow> 'st api \<Rightarrow> 'st api \<times> (http_error + string)" where
  "act_on_flow env sid operation error after st =
     (case require_session sid st of
        (st1, Inl e) \<Rightarrow> (st1, Inl e)
      | (st1, Inr d) \<Rightarrow>
          (case require_flow env sid st1 of
             (st2, Inl e) \<Rightarrow> (st2, Inl e)
           | (st2, Inr f) \<Rightarrow>
               (case operation f of
                  Inl e \<Rightarrow> (st2, Inl (error e))
                | Inr f' \<Rightarrow>
                    (let st3 = st2\<lparr>api_flows := dict_set sid f' (api_flows st2)\<rparr> in
                     (after f' (repo_save env sid f' st3), Inr (status_text f'))))))"

definition approve_gate_action ::
  "'st api_env \<Rightarrow> string \<Rightarrow> int \<Rightarrow> string \<times> string \<Rightarrow> 'st api \<Rightarrow> 'st api \<times> (http_error + string)" where
  "approve_gate_action env sid n who st =
     (case phase_of_int n of
        None \<Rightarrow> (st, Inl (Http 400))
      | Some g \<Rightarrow>
          act_on_flow env sid (\<lambda>f. flow_step f (flow_of env, Approve_gate g (fst who) (snd who))) review_error
            (\<lambda>f st. case g of P1 \<Rightarrow> submit_phase sid P2 st | P2 \<Rightarrow> submit_phase sid P3 st | P3 \<Rightarrow> st) st)"

definition retry_phase_action ::
  "'st api_env \<Rightarrow> string \<Rightarrow> int \<Rightarrow> string \<times> string \<Rightarrow> 'st api \<Rightarrow> 'st api \<times> (http_error + string)" where
  "retry_phase_action env sid n who st =
     act_on_flow env sid (\<lambda>f. flow_step f (flow_of env, Retry_phase n (fst who) (snd who))) retry_error
       (\<lambda>f st. case phase_of_int n of None \<Rightarrow> st | Some p \<Rightarrow> submit_phase sid p st) st"

definition qa_override_action ::
  "'st api_env \<Rightarrow> string \<Rightarrow> int \<Rightarrow> string \<Rightarrow> string \<times> string \<Rightarrow> 'st api \<Rightarrow> 'st api \<times> (http_error + string)" where
  "qa_override_action env sid n why who st =
     act_on_flow env sid (\<lambda>f. flow_step f (flow_of env, Override_qa n (fst who) why (snd who))) review_error (\<lambda>f st. st) st"

definition return_action ::
  "'st api_env \<Rightarrow> string \<Rightarrow> int \<Rightarrow> string \<Rightarrow> string \<times> string \<Rightarrow> 'st api \<Rightarrow> 'st api \<times> (http_error + string)" where
  "return_action env sid n why who st =
     act_on_flow env sid (\<lambda>f. flow_step f (flow_of env, Return_for_rework n (fst who) why (snd who))) return_error
       (\<lambda>f st. case phase_of_int n of None \<Rightarrow> st | Some p \<Rightarrow> submit_phase sid p st) st"

definition decide_action ::
  "'st api_env \<Rightarrow> string \<Rightarrow> decision_request \<Rightarrow> string \<times> string \<Rightarrow> 'st api \<Rightarrow> 'st api \<times> (http_error + string)" where
  "decide_action env sid rq who st =
     act_on_flow env sid
       (\<lambda>f. flow_step f (flow_of env, Record_decision (rq\<lparr>rq_decided_by := fst who, rq_identity_source := snd who\<rparr>)))
       decision_error_response (\<lambda>f st. st) st"

section \<open>Creating an audit\<close>

definition audit_name :: "string option \<Rightarrow> string \<Rightarrow> string" where
  "audit_name nm th = (case nm of None \<Rightarrow> py_take 40 th @ '' audit'' | Some n \<Rightarrow> if n \<noteq> [] then n else py_take 40 th @ '' audit'')"

definition create_and_launch ::
  "'st api_env \<Rightarrow> string \<Rightarrow> string \<Rightarrow> string list \<Rightarrow> string option \<Rightarrow> string \<times> string \<Rightarrow> 'st api \<Rightarrow> 'st api \<times> (http_error + string)" where
  "create_and_launch env th ctx fws nm who st =
     (let sid = new_session_id env;
          f0 = (initial_flow WAITING_FOR_SCOPE)\<lparr>theme := th, business_context := ctx, frameworks := fws\<rparr> in
      case flow_step f0 (flow_of env, Record_preparer (fst who) True (snd who)) of
        Inl e \<Rightarrow> (st, Inl (case e of Value_error w \<Rightarrow> Http 422 | Python_error ValueError \<Rightarrow> Http 422 | _ \<Rightarrow> Unhandled))
      | Inr f1 \<Rightarrow>
          (case flow_step f1 (flow_of env, Begin_phase_1) of
             Inl e \<Rightarrow> (st, Inl Unhandled)
           | Inr f2 \<Rightarrow>
               (let st1 = set_flow sid f2 st;
                    st2 = st1\<lparr>api_store := save_session (wall_clock env) sid (audit_name nm th) ctx []
                      [(''status'', Text (status_text f2)), (''created_at'', Text (wall_clock env)),
                       (''prepared_by'', Text (prepared_by f2))] (api_store st1)\<rparr>
                in (submit_phase sid P1 (repo_save env sid f2 st2), Inr (status_text f2)))))"

section \<open>Deleting an audit\<close>

text \<open>\<open>_phase_from_status\<close>: which digit occurs in the status text.\<close>

definition phase_from_status :: "string \<Rightarrow> nat" where
  "phase_from_status status =
     (if CHR ''1'' \<in> set status then 1 else if CHR ''2'' \<in> set status then 2
      else if CHR ''3'' \<in> set status \<or> status = ''COMPLETED'' then 3 else 0)"

definition signed_off :: "string \<Rightarrow> trail \<Rightarrow> bool" where
  "signed_off status tr \<longleftrightarrow> status = ''COMPLETED'' \<or> 2 \<le> phase_from_status status \<or>
     (\<exists>e\<in>set tr. map_of e ''action'' = Some ''gate_approval'')"

definition has_sign_off :: "string \<Rightarrow> session_data \<Rightarrow> 'st api \<Rightarrow> bool" where
  "has_sign_off sid d st \<longleftrightarrow>
     (case map_of (api_flows st) sid of None \<Rightarrow> False | Some f \<Rightarrow> signed_off (status_text f) (approval_trail f)) \<or>
     (case map_of d ''state_snapshot'' of
        Some (Snapshot s) \<Rightarrow>
          signed_off (if status_text s \<noteq> [] then status_text s else text_field ''status'' d) (approval_trail s)
      | _ \<Rightarrow> signed_off (text_field ''status'' d) [])"

definition delete_audit ::
  "'st api_env \<Rightarrow> string \<Rightarrow> string \<times> string \<Rightarrow> 'st api \<Rightarrow> 'st api \<times> (http_error + string)" where
  "delete_audit env sid who st =
     (if clean_name (fst who) = [] then (st, Inl (Http 422))
      else
        let (store', d) = get_session sid (api_store st); st' = st\<lparr>api_store := store'\<rparr> in
        if (case d of None \<Rightarrow> False | Some e \<Rightarrow> e \<noteq> [] \<and> has_sign_off sid e st') then (st', Inl (Http 409))
        else (remove_flow sid (st'\<lparr>api_store := delete_session sid (api_store st')\<rparr>), Inr ''deleted''))"

section \<open>One request\<close>

fun typed_name :: "action \<Rightarrow> string \<times> string" where
  "typed_name (Create th ctx fws nm by) = (strip by, ''prepared_by'')"
| "typed_name (Approve_action n by) = (by, ''human_id'')"
| "typed_name (Retry_action n by) = (by, ''human_id'')"
| "typed_name (Override_action n by why) = (by, ''human_id'')"
| "typed_name (Return_action n by why) = (by, ''human_id'')"
| "typed_name (Decide_action rq) = (strip (rq_decided_by rq), ''decided_by'')"
| "typed_name (Delete_action by) = (by, ''deleted_by'')"

fun perform ::
  "'st api_env \<Rightarrow> string \<Rightarrow> action \<Rightarrow> string \<times> string \<Rightarrow> 'st api \<Rightarrow> 'st api \<times> (http_error + string)" where
  "perform env sid (Create th ctx fws nm by) who st = create_and_launch env th ctx fws nm who st"
| "perform env sid (Approve_action n by) who st = approve_gate_action env sid n who st"
| "perform env sid (Retry_action n by) who st = retry_phase_action env sid n who st"
| "perform env sid (Override_action n by why) who st = qa_override_action env sid n why who st"
| "perform env sid (Return_action n by why) who st = return_action env sid n why who st"
| "perform env sid (Decide_action rq) who st = decide_action env sid rq who st"
| "perform env sid (Delete_action by) who st = delete_audit env sid who st"

text \<open>Authentication, then the identity to record, then the handler; gate 1 to 3 is checked before the identity.\<close>

definition handle :: "'st api_env \<Rightarrow> string \<Rightarrow> action \<Rightarrow> 'st api \<Rightarrow> 'st api \<times> (http_error + string)" where
  "handle env sid act st =
     (let (auth', who) = reviewer_identity (api_crypto env) (auth_of env) (api_auth st); st' = st\<lparr>api_auth := auth'\<rparr> in
      case who of
        Inl e \<Rightarrow> (st', Inl e)
      | Inr w \<Rightarrow>
          if (case act of Approve_action n by \<Rightarrow> phase_of_int n = None | _ \<Rightarrow> False) then (st', Inl (Http 400))
          else (case resolve w (Some (fst (typed_name act))) (snd (typed_name act)) of
                  Inl e \<Rightarrow> (st', Inl e)
                | Inr recorded_as \<Rightarrow> perform env sid act recorded_as st'))"

section \<open>Runs and restarts\<close>

text \<open>
  \<open>_run_phase_n\<close> on a worker thread: the run at position \<open>i\<close> of the submitted ones (the pool may
  run them in any order). An exception leaves the flow in memory as it was when it was raised,
  and nothing is saved.
\<close>

definition run_phase ::
  "'st api_env \<Rightarrow> run_env \<Rightarrow> (working_papers \<Rightarrow> string) \<Rightarrow> nat \<Rightarrow> 'st api \<Rightarrow> 'st api" where
  "run_phase env re dump i st =
     (if length (api_queue st) \<le> i then st
      else
        let (sid, p) = api_queue st ! i; st0 = st\<lparr>api_queue := take i (api_queue st) @ drop (Suc i) (api_queue st)\<rparr> in
        case get_or_load_flow env sid st0 of
          (st1, Inr (Some f)) \<Rightarrow>
            (case generate dump (flow_of env) (validated re) p f of
               Inl e \<Rightarrow> st1
             | Inr (f', Some e) \<Rightarrow> st1\<lparr>api_flows := dict_set sid f' (api_flows st1)\<rparr>
             | Inr (f', None) \<Rightarrow> repo_save env sid f' (st1\<lparr>api_flows := dict_set sid f' (api_flows st1)\<rparr>))
        | (st1, _) \<Rightarrow> st1)"

text \<open>A restart keeps the files and loses what was in memory, the submitted runs included.\<close>

definition restart :: "failure_limiter \<Rightarrow> 'st api \<Rightarrow> 'st api" where
  "restart l st = st\<lparr>api_auth := \<lparr>cache = [], limiter = l\<rparr>, api_flows := [], api_queue := []\<rparr>"

section \<open>Verifying the stored trail\<close>

text \<open>\<open>GET /sessions/{id}/trail/verify\<close> on the persisted snapshot.\<close>

definition verify_session_trail :: "flow_env \<Rightarrow> string \<Rightarrow> store \<Rightarrow> raised + verification option" where
  "verify_session_trail env sid st =
     (case Option.bind (snd (get_session sid st)) (\<lambda>e. map_of e ''state_snapshot'') of
        Some (Snapshot s) \<Rightarrow>
          bindE (verify_trail (crypto_of env) (trail_key env) (approval_trail s) (get_trail_anchor sid st)
            (Some (flow_artifacts s)) (Some (review_decisions s))) (\<lambda>v. Inr (Some v))
      | _ \<Rightarrow> Inr None)"

end
