(* ===== verification/ApiInv.thy ===== *)
theory ApiInv
  imports Api
begin

text \<open>
  What every request, run and restart keeps: the snapshot of a session is an audit in good order
  whose trail ends at the session's anchor, and the flow in memory has the same trail. The
  signed-off trail of a session is an append-only log of the whole service.
\<close>

section \<open>One event of the service\<close>

datatype 'st event =
    Request "'st api_env" string action
  | Run "'st api_env" run_env "working_papers \<Rightarrow> string" nat
  | Restart failure_limiter

text \<open>The decision ids in use, in memory and on disk.\<close>

fun snapshots :: "session_data \<Rightarrow> audit_flow list" where
  "snapshots [] = []"
| "snapshots ((k, v) # e) = (case v of Snapshot s \<Rightarrow> [s] | _ \<Rightarrow> []) @ snapshots e"

definition all_flows :: "'st api \<Rightarrow> audit_flow list" where
  "all_flows st = map snd (api_flows st) @
     (case sessions_file (api_store st) of Holds d \<Rightarrow> concat (map (\<lambda>(sid, e). snapshots e) d) | _ \<Rightarrow> [])"

definition used_ids :: "'st api \<Rightarrow> string list" where
  "used_ids st = concat (map (\<lambda>f. map decision_id (review_decisions f)) (all_flows st))"

definition session_known :: "'st api \<Rightarrow> string \<Rightarrow> bool" where
  "session_known st sid \<longleftrightarrow>
     (case sessions_file (api_store st) of Holds d \<Rightarrow> map_of d sid \<noteq> None | _ \<Rightarrow> False)"

text \<open>The process has one set of keys, and \<open>uuid4\<close> makes new ids.\<close>

definition env_ok :: "crypto \<Rightarrow> string option \<Rightarrow> 'st api \<Rightarrow> 'st api_env \<Rightarrow> bool" where
  "env_ok cr key st env \<longleftrightarrow> api_crypto env = cr \<and> trail_key (flow_of env) = key \<and> fresh_id (flow_of env) \<noteq> [] \<and>
     fresh_id (flow_of env) \<notin> set (used_ids st) \<and> \<not> session_known st (new_session_id env)"

definition api_step :: "crypto \<Rightarrow> string option \<Rightarrow> 'st api \<Rightarrow> 'st event \<Rightarrow> unit + 'st api" where
  "api_step cr key st ev =
     (case ev of
        Request env sid act \<Rightarrow> if env_ok cr key st env then Inr (fst (handle env sid act st)) else Inl ()
      | Run env re dump i \<Rightarrow> if env_ok cr key st env then Inr (run_phase env re dump i st) else Inl ()
      | Restart l \<Rightarrow> Inr (restart l st))"

definition stored_trail :: "store \<Rightarrow> string \<Rightarrow> trail option" where
  "stored_trail st sid =
     (case Option.bind (snd (get_session sid st)) (\<lambda>e. map_of e ''state_snapshot'') of
        Some (Snapshot s) \<Rightarrow> Some (approval_trail s) | _ \<Rightarrow> None)"

definition signed_trail :: "string \<Rightarrow> 'st api \<Rightarrow> trail" where
  "signed_trail sid st =
     (case stored_trail (api_store st) sid of None \<Rightarrow> [] | Some tr \<Rightarrow> if approvals_in tr = [] then [] else tr)"

section \<open>Good order\<close>

definition flow_good :: "crypto \<Rightarrow> string option \<Rightarrow> audit_flow \<Rightarrow> bool" where
  "flow_good cr key s \<longleftrightarrow> audit_inv cr key s \<and> artifacts_ok s"

definition session_good :: "crypto \<Rightarrow> string option \<Rightarrow> 'st api \<Rightarrow> string \<Rightarrow> bool" where
  "session_good cr key st sid \<longleftrightarrow>
     (if known (api_store st) sid
      then \<exists>s. holds (api_store st) sid s \<and> flow_good cr key s \<and>
        get_trail_anchor sid (api_store st) = anchor_at [] (approval_trail s) (length (approval_trail s)) \<and>
        (\<forall>f. map_of (api_flows st) sid = Some f \<longrightarrow> flow_good cr key f \<and> approval_trail f = approval_trail s)
      else map_of (api_flows st) sid = None \<and> get_trail_anchor sid (api_store st) = None)"

definition api_inv :: "crypto \<Rightarrow> string option \<Rightarrow> 'st api \<Rightarrow> bool" where
  "api_inv cr key st \<longleftrightarrow> crypto_ok cr \<and> sessions_file (api_store st) \<noteq> Corrupt \<and>
     anchors_file (api_store st) \<noteq> Corrupt \<and> (\<forall>sid. session_good cr key st sid)"

text \<open>What an audit in good order depends on: not on what lives in memory only.\<close>

definition same_audit :: "audit_flow \<Rightarrow> audit_flow \<Rightarrow> bool" where
  "same_audit s t \<longleftrightarrow> approval_trail t = approval_trail s \<and> review_decisions t = review_decisions s \<and>
     machine t = machine s \<and> status_text t = status_text s \<and> racm_plan t = racm_plan s \<and> papers t = papers s \<and>
     report t = report s"

lemma same_audit_artifact: "same_audit s t \<Longrightarrow> artifact_of t q = artifact_of s q"
  by (cases q) (simp_all add: same_audit_def)

lemma flow_good_same:
  assumes "same_audit s t" and "flow_good cr key s"
  shows "flow_good cr key t"
proof -
  have "flow_inv cr key s" "crypto_ok cr" "artifacts_ok s" using assms(2) by (auto simp: flow_good_def audit_inv_def)
  moreover have "flow_inv cr key t"
    by (rule inv_quiet [OF \<open>flow_inv cr key s\<close>])
       (use assms(1) \<open>flow_inv cr key s\<close> same_audit_artifact [OF assms(1)] in \<open>auto simp: same_audit_def flow_inv_def\<close>)
  moreover have "artifacts_ok t = artifacts_ok s" using assms(1) by (intro artifacts_ok_cong) (simp_all add: same_audit_def)
  ultimately show ?thesis by (simp add: flow_good_def audit_inv_def)
qed

lemma same_audit_memory: "same_audit s (s\<lparr>session_id := i\<rparr>)" "same_audit s (reloaded env sid s)"
  "same_audit (snapshot_of s) s"
  by (auto simp: same_audit_def reloaded_def restore_skill_context_def detect_skills_def snapshot_of_def Let_def)

lemma flow_good_snapshot: "flow_good cr key s \<Longrightarrow> flow_good cr key (snapshot_of s)"
  by (rule flow_good_same [rotated]) (simp_all add: same_audit_def snapshot_of_def)

lemma same_audit_trail: "same_audit s t \<Longrightarrow> approval_trail t = approval_trail s"
  by (simp add: same_audit_def)

lemma holds_trail: "holds st sid s \<Longrightarrow> stored_trail st sid = Some (approval_trail s)"
  by (auto simp: holds_def stored_trail_def get_session_def load_sessions_def snapshot_of_def)

lemma known_iff: "sessions_file st \<noteq> Corrupt \<Longrightarrow> known st sid \<longleftrightarrow> snd (get_session sid st) \<noteq> None"
  by (cases "sessions_file st") (auto simp: known_def get_session_def load_sessions_def)

lemma get_session_store: "sessions_file st \<noteq> Corrupt \<Longrightarrow> get_session sid st = (st, snd (get_session sid st))"
  by (cases "sessions_file st") (auto simp: get_session_def load_sessions_def)

lemma require_session_inv:
  assumes "api_inv cr key st"
  shows "require_session sid st = (st, if known (api_store st) sid then Inr (the (snd (get_session sid (api_store st)))) else Inl (Http 404))"
proof -
  have readable_file: "sessions_file (api_store st) \<noteq> Corrupt" using assms by (simp add: api_inv_def)
  show ?thesis
  proof (cases "known (api_store st) sid")
    case True
    then obtain s where "holds (api_store st) sid s"
      using assms by (auto simp: api_inv_def session_good_def dest: spec [of _ sid] split: if_splits)
    then obtain e where "snd (get_session sid (api_store st)) = Some e" "e \<noteq> []"
      by (fastforce simp: holds_def get_session_def load_sessions_def)
    with True get_session_store [OF readable_file, of sid] show ?thesis
      by (auto simp: require_session_def split: prod.splits)
  next
    case False
    then have "snd (get_session sid (api_store st)) = None" using known_iff [OF readable_file] by simp
    with False get_session_store [OF readable_file, of sid] show ?thesis
      by (auto simp: require_session_def split: prod.splits)
  qed
qed

lemma snapshot_listed: "map_of e k = Some (Snapshot s) \<Longrightarrow> s \<in> set (snapshots e)"
  by (induction e rule: snapshots.induct) (auto split: if_splits)

lemma used_memory: "map_of (api_flows st) sid = Some f \<Longrightarrow> d \<in> set (review_decisions f) \<Longrightarrow> decision_id d \<in> set (used_ids st)"
  by (force simp: used_ids_def all_flows_def dest: map_of_SomeD)

lemma used_stored:
  assumes "holds (api_store st) sid s" and "d \<in> set (review_decisions s)"
  shows "decision_id d \<in> set (used_ids st)"
proof -
  from assms(1) obtain ds e where e: "sessions_file (api_store st) = Holds ds" "map_of ds sid = Some e"
    "map_of e ''state_snapshot'' = Some (Snapshot (snapshot_of s))" by (auto simp: holds_def)
  have "(sid, e) \<in> set ds" "snapshot_of s \<in> set (snapshots e)" using e map_of_SomeD snapshot_listed by fast+
  then have "snapshot_of s \<in> set (all_flows st)" using e(1) by (force simp: all_flows_def)
  moreover have "d \<in> set (review_decisions (snapshot_of s))" using assms(2) by (simp add: snapshot_of_def)
  ultimately show ?thesis by (auto simp: used_ids_def)
qed

text \<open>A session's flow, from memory or from disk, has the trail that is stored.\<close>

lemma load_flow_inv:
  assumes inv: "api_inv cr key st"
  shows "known (api_store st) sid \<Longrightarrow>
      \<exists>f st'. get_or_load_flow env sid st = (st', Inr (Some f)) \<and> require_flow env sid st = (st', Inr f) \<and> flow_good cr key f \<and>
        stored_trail (api_store st) sid = Some (approval_trail f) \<and> api_store st' = api_store st \<and>
        map_of (api_flows st') sid = Some f \<and> api_inv cr key st' \<and> api_queue st' = api_queue st \<and>
        decision_id ` set (review_decisions f) \<subseteq> set (used_ids st)"
    and "\<not> known (api_store st) sid \<Longrightarrow>
      get_or_load_flow env sid st = (st, Inr None) \<and> require_flow env sid st = (st, Inl (Http 404))"
proof -
  have readable_file: "sessions_file (api_store st) \<noteq> Corrupt" and good: "session_good cr key st sid" for sid
    using inv by (auto simp: api_inv_def)
  {
    assume known: "known (api_store st) sid"
    then obtain s where s: "holds (api_store st) sid s" "flow_good cr key s"
      "get_trail_anchor sid (api_store st) = anchor_at [] (approval_trail s) (length (approval_trail s))"
      "\<forall>f. map_of (api_flows st) sid = Some f \<longrightarrow> flow_good cr key f \<and> approval_trail f = approval_trail s"
      using good [of sid] by (auto simp: session_good_def)
    show "\<exists>f st'. get_or_load_flow env sid st = (st', Inr (Some f)) \<and> require_flow env sid st = (st', Inr f) \<and> flow_good cr key f \<and>
        stored_trail (api_store st) sid = Some (approval_trail f) \<and> api_store st' = api_store st \<and>
        map_of (api_flows st') sid = Some f \<and> api_inv cr key st' \<and> api_queue st' = api_queue st \<and>
        decision_id ` set (review_decisions f) \<subseteq> set (used_ids st)"
    proof (cases "map_of (api_flows st) sid")
      case (Some f)
      with s holds_trail [OF s(1)] inv used_memory [of st sid f] show ?thesis
        by (auto simp: get_or_load_flow_def require_flow_def)
    next
      case None
      let ?f = "(reloaded (flow_of env) sid s)\<lparr>session_id := Some sid\<rparr>"
      have mirror: "status_text s = status_value (machine s)" and arts: "artifacts_ok s"
        using s(2) by (auto simp: flow_good_def audit_inv_def flow_inv_def)
      have same: "same_audit s ?f" using same_audit_memory(2) [of s "flow_of env" sid] by (simp add: same_audit_def)
      note f = flow_good_same [OF same s(2)] same_audit_trail [OF same]
      have load: "get_or_load_flow env sid st = (set_flow sid (reloaded (flow_of env) sid s) st, Inr (Some ?f))"
        using None load_holds [OF s(1) mirror arts, of "flow_of env"] by (simp add: get_or_load_flow_def)
      have "session_good cr key (set_flow sid (reloaded (flow_of env) sid s) st) other" for other
      proof (cases "other = sid")
        case True
        with known f s(1-3) show ?thesis by (auto simp: session_good_def set_flow_def intro!: exI [of _ s])
      next
        case False
        with good [of other] show ?thesis by (simp add: session_good_def set_flow_def)
      qed
      then have "api_inv cr key (set_flow sid (reloaded (flow_of env) sid s) st)"
        using inv by (simp add: api_inv_def set_flow_def)
      moreover have "decision_id ` set (review_decisions ?f) \<subseteq> set (used_ids st)"
        using used_stored [OF s(1)] same by (auto simp: same_audit_def)
      ultimately show ?thesis using load f holds_trail [OF s(1)] by (simp add: require_flow_def set_flow_def)
    qed
  }
  {
    assume "\<not> known (api_store st) sid"
    then have "map_of (api_flows st) sid = None" "snd (get_session sid (api_store st)) = None"
      using good [of sid] known_iff [OF readable_file] by (auto simp: session_good_def)
    then show "get_or_load_flow env sid st = (st, Inr None) \<and> require_flow env sid st = (st, Inl (Http 404))"
      using get_session_store [OF readable_file, of sid]
      by (auto simp: get_or_load_flow_def require_flow_def load_flow_def split: prod.splits)
  }
qed

section \<open>Saving\<close>

lemma anchor_at_prefix: "prefix tr tr' \<Longrightarrow> anchor_at [] tr (length tr) = anchor_at [] tr' (length tr)"
  by (auto simp: anchor_at_def prefix_def nth_append)

lemma holds_stored: "stored_trail st sid = Some tr \<Longrightarrow> sessions_file st \<noteq> Corrupt \<Longrightarrow> known st sid"
  by (cases "snd (get_session sid st)") (auto simp: stored_trail_def known_iff)

lemma save_inv:
  assumes inv: "api_inv cr key st" and env: "api_crypto env = cr" "trail_key (flow_of env) = key"
    and old: "stored_trail (api_store st) sid = Some tr" and f: "flow_good cr key f" "prefix tr (approval_trail f)"
  defines "st' \<equiv> repo_save env sid f (st\<lparr>api_flows := dict_set sid f (api_flows st)\<rparr>)"
  shows "api_inv cr key st'" "stored_trail (api_store st') sid = Some (approval_trail f)"
    "other \<noteq> sid \<Longrightarrow> stored_trail (api_store st') other = stored_trail (api_store st) other"
    "api_queue st' = api_queue st"
proof -
  let ?s = "api_store st"
  have files: "sessions_file ?s \<noteq> Corrupt" "anchors_file ?s \<noteq> Corrupt" "crypto_ok cr"
    and good: "session_good cr key st sid" for sid
    using inv by (auto simp: api_inv_def)
  have known: "known ?s sid" using holds_stored [OF old files(1)] .
  obtain s where s: "holds ?s sid s" "get_trail_anchor sid ?s = anchor_at [] (approval_trail s) (length (approval_trail s))"
    using good [of sid] known by (auto simp: session_good_def)
  then have tr: "tr = approval_trail s" using old holds_trail [OF s(1)] by simp
  obtain sv where sv: "save_flow cr key (wall_clock env) sid f ?s = (sv, True)" "holds sv sid f"
      "\<forall>other t. other \<noteq> sid \<longrightarrow> holds sv other t = holds ?s other t \<and> get_trail_anchor other sv = get_trail_anchor other ?s"
      "\<forall>other. known sv other = known ?s other"
    using save_flow_holds [OF known] by blast
  have st': "api_store st' = sv" "api_flows st' = dict_set sid f (api_flows st)" "api_queue st' = api_queue st"
    using sv(1) env by (simp_all add: st'_def repo_save_def)
  have "appended cr key [] (approval_trail f)" using f(1) by (simp add: flow_good_def audit_inv_def flow_inv_def)
  from save_flow_anchor [OF known this files(3), of "length tr" "wall_clock env"]
  have anchor: "get_trail_anchor sid sv = anchor_at [] (approval_trail f) (length (approval_trail f))" "anchors_file sv \<noteq> Corrupt"
    using s(2) f(2) files(2) anchor_at_prefix [OF f(2)] sv(1) by (auto simp: tr prefix_length_le)
  have sf: "sessions_file sv \<noteq> Corrupt" using sv(2) by (auto simp: holds_def)
  have "session_good cr key st' other" for other
  proof (cases "other = sid")
    case True
    then show ?thesis using known sv anchor f(1) by (auto simp: session_good_def st' intro!: exI [of _ f])
  next
    case False
    with good [of other] sv(3,4) show ?thesis by (simp add: session_good_def st')
  qed
  then show "api_inv cr key st'" using files anchor sf by (simp add: api_inv_def st')
  show "stored_trail (api_store st') sid = Some (approval_trail f)" using holds_trail [OF sv(2)] by (simp add: st')
  show "api_queue st' = api_queue st" by (rule st')
  assume other: "other \<noteq> sid"
  show "stored_trail (api_store st') other = stored_trail (api_store st) other"
  proof (cases "known ?s other")
    case True
    then obtain t where "holds ?s other t" using good [of other] by (auto simp: session_good_def)
    with sv(3) other holds_trail show ?thesis by (metis st'(1))
  next
    case False
    with sv(4) have "snd (get_session other sv) = None" "snd (get_session other ?s) = None"
      using known_iff [OF files(1), of other] known_iff [OF sf, of other] by auto
    then show ?thesis by (simp add: st' stored_trail_def)
  qed
qed

section \<open>Every handler keeps the order\<close>

lemma operation_good:
  assumes f: "flow_good cr key f" and env: "crypto_of fenv = cr" "trail_key fenv = key" "fresh_id fenv \<noteq> []"
    and new: "fresh_id fenv \<notin> decision_id ` set (review_decisions f)" and op: "\<And>p re dump. op \<noteq> Generate p re dump"
    and step: "flow_step f (fenv, op) = Inr t"
  shows "flow_good cr key t \<and> prefix (approval_trail f) (approval_trail t)"
proof -
  have inv: "flow_inv cr key f" "crypto_ok cr" "artifacts_ok f" using f by (auto simp: flow_good_def audit_inv_def)
  have "session_step cr key f (fenv, op) = Inr t" using env new step by (simp add: session_step_def)
  from session_step_ok [OF inv(1,2) this] have "step_ok cr key f t" .
  moreover have "artifacts_ok t"
    using step inv(3) op by (cases op) (auto simp: operation_artifacts)
  ultimately show ?thesis using inv(2) by (simp add: step_ok_def flow_good_def audit_inv_def)
qed

text \<open>The effect of an event: the service stays in order and stored trails only grow.\<close>

definition advances :: "crypto \<Rightarrow> string option \<Rightarrow> 'st api \<Rightarrow> 'st api \<Rightarrow> bool" where
  "advances cr key st st' \<longleftrightarrow> api_inv cr key st' \<and>
     (\<forall>sid tr. stored_trail (api_store st) sid = Some tr \<longrightarrow>
        (\<exists>tr'. stored_trail (api_store st') sid = Some tr' \<and> prefix tr tr'))"

lemma api_inv_cong: "api_store t = api_store s \<Longrightarrow> api_flows t = api_flows s \<Longrightarrow> api_inv cr key t = api_inv cr key s"
  by (simp add: api_inv_def session_good_def)

lemma submit_phase_inv: "api_inv cr key (submit_phase sid p s) = api_inv cr key s"
  by (rule api_inv_cong) (simp_all add: submit_phase_def)

lemma advances_refl: "api_inv cr key st \<Longrightarrow> api_store st' = api_store st \<Longrightarrow> api_inv cr key st' \<Longrightarrow> advances cr key st st'"
  by (auto simp: advances_def)

lemma advances_trans: "advances cr key st st' \<Longrightarrow> advances cr key st' st'' \<Longrightarrow> advances cr key st st''"
  unfolding advances_def by (meson prefix_order.trans)

lemma act_on_flow_inv:
  assumes inv: "api_inv cr key st" and ok: "env_ok cr key st env"
    and op: "\<And>p re dump. op \<noteq> Generate p re dump"
    and act: "act_on_flow env sid (\<lambda>f. flow_step f (flow_of env, op)) err after st = (st', r)"
    and after: "\<And>f s. api_store (after f s) = api_store s \<and> api_flows (after f s) = api_flows s"
  shows "advances cr key st st'"
    and "r = Inr status \<Longrightarrow> \<exists>f t. stored_trail (api_store st) sid = Some (approval_trail f) \<and> flow_good cr key f \<and>
      flow_step f (flow_of env, op) = Inr t \<and> stored_trail (api_store st') sid = Some (approval_trail t) \<and> status = status_text t"
proof -
  have env: "api_crypto env = cr" "crypto_of (flow_of env) = cr" "trail_key (flow_of env) = key" "fresh_id (flow_of env) \<noteq> []"
    "fresh_id (flow_of env) \<notin> set (used_ids st)"
    using ok by (auto simp: env_ok_def api_crypto_def)
  have "advances cr key st st' \<and> (\<forall>status. r = Inr status \<longrightarrow> (\<exists>f t. stored_trail (api_store st) sid = Some (approval_trail f) \<and>
      flow_good cr key f \<and> flow_step f (flow_of env, op) = Inr t \<and>
      stored_trail (api_store st') sid = Some (approval_trail t) \<and> status = status_text t))"
  proof (cases "known (api_store st) sid")
    case False
    with act inv show ?thesis
      by (auto simp: act_on_flow_def require_session_inv [OF inv] intro: advances_refl)
  next
    case True
    then obtain d where session: "require_session sid st = (st, Inr d)" using require_session_inv [OF inv, of sid] by simp
    obtain f st2 where f: "require_flow env sid st = (st2, Inr f)" "flow_good cr key f"
      "stored_trail (api_store st) sid = Some (approval_trail f)" "api_store st2 = api_store st" "api_inv cr key st2"
      "decision_id ` set (review_decisions f) \<subseteq> set (used_ids st)"
      using load_flow_inv(1) [OF inv True, of env] by blast
    show ?thesis
    proof (cases "flow_step f (flow_of env, op)")
      case (Inl e)
      with act session f inv show ?thesis by (auto simp: act_on_flow_def intro: advances_refl)
    next
      case (Inr t)
      have t: "flow_good cr key t" "prefix (approval_trail f) (approval_trail t)"
        using operation_good [OF f(2) env(2-4) _ op Inr] f(6) env(5) by auto
      let ?st3 = "repo_save env sid t (st2\<lparr>api_flows := dict_set sid t (api_flows st2)\<rparr>)"
      have st': "st' = after t ?st3" "r = Inr (status_text t)"
        using act session f(1) Inr by (auto simp: act_on_flow_def Let_def)
      have old: "stored_trail (api_store st2) sid = Some (approval_trail f)" using f(3,4) by simp
      note saved = save_inv [OF f(5) env(1,3) old t]
      have "api_inv cr key st'" using saved(1) st'(1) after [of t ?st3] api_inv_cong by metis
      moreover have "stored_trail (api_store st') sid = Some (approval_trail t)" using saved(2) st'(1) after by simp
      moreover have "stored_trail (api_store st') other = stored_trail (api_store st) other" if "other \<noteq> sid" for other
        using saved(3) [OF that] st'(1) after f(4) by simp
      ultimately have "advances cr key st st'" using f(3) t(2) unfolding advances_def by (metis option.inject prefix_order.refl)
      then show ?thesis using f t Inr st' \<open>stored_trail (api_store st') sid = Some (approval_trail t)\<close> by auto
    qed
  qed
  then show "advances cr key st st'"
    and "r = Inr status \<Longrightarrow> \<exists>f t. stored_trail (api_store st) sid = Some (approval_trail f) \<and> flow_good cr key f \<and>
      flow_step f (flow_of env, op) = Inr t \<and> stored_trail (api_store st') sid = Some (approval_trail t) \<and> status = status_text t"
    by auto
qed

text \<open>Runs of a crew, restarts, and the flows that are loaded on the way.\<close>

lemma generate_trail: "generate dump env re p s = Inr (t, e) \<Longrightarrow> approval_trail t = approval_trail s"
  using generate_run [of dump env re p s t e] by (auto simp: run_of_def kept_def)

lemma generate_good:
  assumes "flow_good cr key f" and "generate dump env (validated re) p f = Inr (t, e)"
  shows "flow_good cr key t"
  using assms generate_ok [OF _ assms(2)] generate_artifacts [OF assms(2)]
  by (auto simp: flow_good_def audit_inv_def step_ok_def)

lemma memory_inv:
  assumes inv: "api_inv cr key st" and f: "flow_good cr key f" "stored_trail (api_store st) sid = Some (approval_trail f)"
  shows "api_inv cr key (st\<lparr>api_flows := dict_set sid f (api_flows st)\<rparr>)"
proof -
  have good: "session_good cr key st other" and readable_file: "sessions_file (api_store st) \<noteq> Corrupt" for other
    using inv by (auto simp: api_inv_def)
  have "session_good cr key (st\<lparr>api_flows := dict_set sid f (api_flows st)\<rparr>) other" for other
  proof (cases "other = sid")
    case True
    have known: "known (api_store st) sid" using holds_stored [OF f(2) readable_file] .
    then obtain s where s: "holds (api_store st) sid s" "flow_good cr key s"
      "get_trail_anchor sid (api_store st) = anchor_at [] (approval_trail s) (length (approval_trail s))"
      using good [of sid] by (auto simp: session_good_def)
    then have "approval_trail f = approval_trail s" using f(2) holds_trail by fastforce
    with True known s f(1) show ?thesis by (auto simp: session_good_def intro!: exI [of _ s])
  next
    case False
    with good [of other] show ?thesis by (simp add: session_good_def)
  qed
  then show ?thesis using inv by (simp add: api_inv_def)
qed

lemma run_phase_inv:
  assumes inv: "api_inv cr key st" and ok: "env_ok cr key st env"
  shows "advances cr key st (run_phase env re dump i st)"
proof (cases "length (api_queue st) \<le> i")
  case True
  with inv show ?thesis by (simp add: run_phase_def advances_refl)
next
  case False
  obtain sid p where job: "api_queue st ! i = (sid, p)" by fastforce
  let ?st0 = "st\<lparr>api_queue := take i (api_queue st) @ drop (Suc i) (api_queue st)\<rparr>"
  have inv0: "api_inv cr key ?st0" using inv by (simp add: api_inv_cong [of ?st0 st])
  have env: "api_crypto env = cr" "trail_key (flow_of env) = key" using ok by (auto simp: env_ok_def)
  show ?thesis
  proof (cases "known (api_store ?st0) sid")
    case unknown: False
    with load_flow_inv(2) [OF inv0, of sid env] False job inv inv0 show ?thesis
      by (auto simp: run_phase_def intro: advances_refl)
  next
    case True
    obtain f st1 where f: "get_or_load_flow env sid ?st0 = (st1, Inr (Some f))" "flow_good cr key f"
      "stored_trail (api_store st1) sid = Some (approval_trail f)" "api_store st1 = api_store st" "api_inv cr key st1"
      using load_flow_inv(1) [OF inv0 True, of env] by force
    show ?thesis
    proof (cases "generate dump (flow_of env) (validated re) p f")
      case (Inl e)
      with False job f inv show ?thesis by (auto simp: run_phase_def Let_def intro: advances_refl)
    next
      case (Inr te)
      obtain t e where te: "te = (t, e)" by fastforce
      note t = generate_good [OF f(2) Inr [unfolded te]] generate_trail [OF Inr [unfolded te]]
      let ?st2 = "st1\<lparr>api_flows := dict_set sid t (api_flows st1)\<rparr>"
      have inv2: "api_inv cr key ?st2" using memory_inv [OF f(5) t(1)] f(3) t(2) by simp
      show ?thesis
      proof (cases e)
        case (Some x)
        with False job f(1,4) Inr te inv inv2 show ?thesis by (auto simp: run_phase_def Let_def intro: advances_refl)
      next
        case None
        have "prefix (approval_trail f) (approval_trail t)" using t(2) by simp
        note saved = save_inv [OF f(5) env f(3) t(1) this]
        have run: "run_phase env re dump i st = repo_save env sid t ?st2"
          using False job f(1) Inr te None by (simp add: run_phase_def Let_def)
        have "stored_trail (api_store (repo_save env sid t ?st2)) other = stored_trail (api_store st) other" for other
          using saved(2,3) f(3,4) t(2) by (cases "other = sid") auto
        with saved(1) show ?thesis unfolding run advances_def by auto
      qed
    qed
  qed
qed

lemma restart_inv:
  assumes "api_inv cr key st"
  shows "advances cr key st (restart l st)"
proof -
  have "session_good cr key (restart l st) sid" for sid
    using assms by (auto simp: api_inv_def session_good_def restart_def dest: spec [of _ sid] split: if_splits)
  then show ?thesis using assms by (auto simp: advances_def api_inv_def restart_def)
qed

section \<open>Creating and deleting\<close>

lemma save_session_facts:
  assumes "sessions_file st \<noteq> Corrupt" and "\<not> known st sid"
  shows "known (save_session time sid nm scope chat extra st) sid"
    "other \<noteq> sid \<Longrightarrow> known (save_session time sid nm scope chat extra st) other = known st other"
    "other \<noteq> sid \<Longrightarrow> holds (save_session time sid nm scope chat extra st) other s = holds st other s"
    "anchors_file (save_session time sid nm scope chat extra st) = anchors_file st"
  using assms
  by (cases "sessions_file st"; auto simp: save_session_def load_sessions_def save_sessions_def known_def holds_def Let_def)+

lemma launch_inv:
  assumes inv: "api_inv cr key st" and env: "api_crypto env = cr" "trail_key (flow_of env) = key"
    and new: "\<not> known (api_store st) sid" and f: "flow_good cr key f"
    and made: "st' = repo_save env sid f ((set_flow sid f st)\<lparr>api_store := save_session time sid nm scope chat extra (api_store st)\<rparr>)"
  shows "api_inv cr key st'" "stored_trail (api_store st') sid = Some (approval_trail f)"
    "other \<noteq> sid \<Longrightarrow> stored_trail (api_store st') other = stored_trail (api_store st) other"
proof -
  let ?old = "api_store st" and ?s = "save_session time sid nm scope chat extra (api_store st)"
  have files: "sessions_file ?old \<noteq> Corrupt" "anchors_file ?old \<noteq> Corrupt" "crypto_ok cr"
    and good: "session_good cr key st sid" for sid
    using inv by (auto simp: api_inv_def)
  note created = save_session_facts [OF files(1) new, where time = time and nm = nm and scope = scope and chat = chat and extra = extra]
  have none: "get_trail_anchor sid ?s = anchor_at [] (approval_trail f) 0"
    using good [of sid] new created(4) by (simp add: session_good_def get_trail_anchor_def load_anchors_def anchor_at_def)
  obtain sv where sv: "save_flow cr key (wall_clock env) sid f ?s = (sv, True)" "holds sv sid f"
      "\<forall>other t. other \<noteq> sid \<longrightarrow> holds sv other t = holds ?s other t \<and> get_trail_anchor other sv = get_trail_anchor other ?s"
      "\<forall>other. known sv other = known ?s other"
    using save_flow_holds [OF created(1)] by blast
  have st': "api_store st' = sv" "api_flows st' = dict_set sid (f\<lparr>session_id := Some sid\<rparr>) (api_flows st)"
    using sv(1) env by (simp_all add: made repo_save_def set_flow_def)
  have "appended cr key [] (approval_trail f)" using f(1) by (simp add: flow_good_def audit_inv_def flow_inv_def)
  from save_flow_anchor [OF created(1) this files(3) none]
  have anchor: "get_trail_anchor sid sv = anchor_at [] (approval_trail f) (length (approval_trail f))" "anchors_file sv \<noteq> Corrupt"
    using sv(1) files(2) created(4) by (metis fst_conv le0)+
  have sf: "sessions_file sv \<noteq> Corrupt" using sv(2) by (auto simp: holds_def)
  have memory: "flow_good cr key (f\<lparr>session_id := Some sid\<rparr>)" by (rule flow_good_same [OF same_audit_memory(1) f])
  have "session_good cr key st' other" for other
  proof (cases "other = sid")
    case True
    then show ?thesis using created(1) sv anchor f(1) memory by (auto simp: session_good_def st' intro!: exI [of _ f])
  next
    case False
    have "get_trail_anchor other ?s = get_trail_anchor other ?old"
      using created(4) by (simp add: get_trail_anchor_def load_anchors_def)
    with False good [of other] sv(3,4) created(2,3) show ?thesis by (simp add: session_good_def st')
  qed
  then show "api_inv cr key st'" using files anchor sf by (simp add: api_inv_def st')
  show "stored_trail (api_store st') sid = Some (approval_trail f)" using holds_trail [OF sv(2)] by (simp add: st')
  assume other: "other \<noteq> sid"
  show "stored_trail (api_store st') other = stored_trail (api_store st) other"
  proof (cases "known ?old other")
    case True
    then obtain t where "holds ?old other t" using good [of other] by (auto simp: session_good_def)
    with sv(3) other created(3) holds_trail show ?thesis by (metis st'(1))
  next
    case False
    then have "snd (get_session other sv) = None" "snd (get_session other ?old) = None"
      using known_iff [OF files(1), of other] known_iff [OF sf, of other] sv(4) created(2) [OF other] by auto
    then show ?thesis by (simp add: st' stored_trail_def)
  qed
qed

lemma session_known_iff: "session_known st sid = known (api_store st) sid"
  by (auto simp: session_known_def known_def split: json_file.splits)

lemma new_flow_good: "crypto_ok cr \<Longrightarrow> flow_good cr key (new_audit th ctx fws None)"
  using new_audit_inv by (simp add: flow_good_def artifacts_ok_def new_audit_def initial_flow_def)

lemma create_inv:
  assumes inv: "api_inv cr key st" and ok: "env_ok cr key st env"
    and run: "create_and_launch env th ctx fws nm who st = (st', r)"
  shows "advances cr key st st'"
proof -
  have env: "api_crypto env = cr" "crypto_of (flow_of env) = cr" "trail_key (flow_of env) = key" "fresh_id (flow_of env) \<noteq> []"
    and new: "\<not> known (api_store st) (new_session_id env)" and cr: "crypto_ok cr"
    using ok inv by (auto simp: env_ok_def api_crypto_def session_known_iff api_inv_def)
  define f0 where "f0 = new_audit th ctx fws None"
  have f0: "flow_good cr key f0" "review_decisions f0 = []" "f0 = (initial_flow WAITING_FOR_SCOPE)\<lparr>theme := th, business_context := ctx, frameworks := fws\<rparr>"
    using new_flow_good [OF cr] by (auto simp: f0_def new_audit_def initial_flow_def)
  show ?thesis
  proof (cases "flow_step f0 (flow_of env, Record_preparer (fst who) True (snd who))")
    case (Inl e)
    with run f0(3) inv show ?thesis by (auto simp: create_and_launch_def Let_def intro: advances_refl)
  next
    case (Inr f1)
    have f1: "flow_good cr key f1" using operation_good [OF f0(1) env(2-4) _ _ Inr] f0(2) by simp
    have ds: "review_decisions f1 = []" using Inr f0(2)
      by (auto simp: record_preparer_def stamp_trail_def result_simps)
    show ?thesis
    proof (cases "flow_step f1 (flow_of env, Begin_phase_1)")
      case (Inl e)
      with run f0(3) Inr inv show ?thesis by (auto simp: create_and_launch_def Let_def intro: advances_refl)
    next
      case second: (Inr f2)
      have f2: "flow_good cr key f2" using operation_good [OF f1 env(2-4) _ _ second] ds by simp
      let ?sid = "new_session_id env"
      let ?st2 = "repo_save env ?sid f2 ((set_flow ?sid f2 st)\<lparr>api_store := save_session (wall_clock env) ?sid (audit_name nm th) ctx []
                      [(''status'', Text (status_text f2)), (''created_at'', Text (wall_clock env)),
                       (''prepared_by'', Text (prepared_by f2))] (api_store st)\<rparr>)"
      note launched = launch_inv [OF inv env(1,3) new f2 refl]
      have st': "st' = submit_phase ?sid P1 ?st2"
        using run f0(3) Inr second by (auto simp: create_and_launch_def Let_def set_flow_def)
      have "api_inv cr key st'" using launched(1) by (simp add: st' submit_phase_inv)
      moreover have "stored_trail (api_store st') other = stored_trail (api_store st) other" if "other \<noteq> ?sid" for other
        using launched(3) [OF that] by (simp add: st' submit_phase_def)
      moreover have "stored_trail (api_store st) ?sid = None"
        using new known_iff [of "api_store st" ?sid] inv by (auto simp: api_inv_def stored_trail_def)
      ultimately show ?thesis unfolding advances_def by (metis option.distinct(1) prefix_order.refl)
    qed
  qed
qed

lemma same_store [simp]: "st\<lparr>api_store := api_store st\<rparr> = st"
  by simp

lemma delete_session_file: "sessions_file (delete_session sid st) \<noteq> Corrupt"
  by (cases "sessions_file st"; cases "anchors_file st")
     (simp_all add: delete_session_def load_sessions_def save_sessions_def Let_def)

lemma approvals_in_empty: "approvals_in tr = [] \<longleftrightarrow> (\<forall>e\<in>set tr. map_of e ''action'' \<noteq> Some ''gate_approval'')"
  by (simp add: approvals_in_def filter_empty_conv action_of_def)

text \<open>A deletion that goes through takes a session without a gate approval; the others are untouched.\<close>

lemma delete_inv:
  assumes inv: "api_inv cr key st" and run: "delete_audit env sid who st = (st', r)"
  shows "api_inv cr key st'"
    "other \<noteq> sid \<Longrightarrow> stored_trail (api_store st') other = stored_trail (api_store st) other"
    "stored_trail (api_store st) sid = Some tr \<Longrightarrow> approvals_in tr \<noteq> [] \<Longrightarrow> stored_trail (api_store st') sid = Some tr"
proof -
  let ?old = "api_store st"
  have files: "sessions_file ?old \<noteq> Corrupt" "anchors_file ?old \<noteq> Corrupt" "crypto_ok cr"
    and good: "session_good cr key st sid" for sid
    using inv by (auto simp: api_inv_def)
  obtain d where same: "get_session sid ?old = (?old, d)" using get_session_store [OF files(1), of sid] by metis
  define kept where "kept \<longleftrightarrow> clean_name (fst who) = [] \<or>
    (case d of None \<Rightarrow> False | Some e \<Rightarrow> e \<noteq> [] \<and> has_sign_off sid e st)"
  have cases: "st' = (if kept then st else remove_flow sid (st\<lparr>api_store := delete_session sid ?old\<rparr>))"
    using run by (cases d) (auto simp: delete_audit_def kept_def same split: if_splits)
  note deleted = delete_session_facts [where st = ?old and sid = sid]
  have flows: "map_of (api_flows (remove_flow sid (st\<lparr>api_store := delete_session sid ?old\<rparr>))) other =
      (if other = sid then None else map_of (api_flows st) other)" for other
    by (simp add: remove_flow_def delete_conv')
  have store: "api_store (remove_flow sid (st\<lparr>api_store := delete_session sid ?old\<rparr>)) = delete_session sid ?old"
    by (simp add: remove_flow_def)
  have after: "session_good cr key (remove_flow sid (st\<lparr>api_store := delete_session sid ?old\<rparr>)) other" for other
    using good [of other] deleted by (cases "other = sid") (auto simp: session_good_def flows store)
  show "api_inv cr key st'"
    using inv after files deleted(6) delete_session_file by (auto simp: cases api_inv_def store)
  {
    assume other: "other \<noteq> sid"
    show "stored_trail (api_store st') other = stored_trail (api_store st) other"
    proof (cases "known ?old other")
      case True
      then obtain t where t: "holds ?old other t" using good [of other] by (auto simp: session_good_def)
      then have "holds (delete_session sid ?old) other t" using deleted(3) [OF other] by simp
      with t show ?thesis by (simp add: cases store holds_trail)
    next
      case False
      then have "snd (get_session other ?old) = None" "snd (get_session other (delete_session sid ?old)) = None"
        using known_iff [OF files(1), of other] known_iff [OF delete_session_file, of sid ?old other] deleted(2) [OF other] by auto
      then show ?thesis by (simp add: cases store stored_trail_def)
    qed
  }
  assume tr: "stored_trail ?old sid = Some tr" "approvals_in tr \<noteq> []"
  then obtain e s where e: "snd (get_session sid ?old) = Some e" "map_of e ''state_snapshot'' = Some (Snapshot s)"
    "tr = approval_trail s"
    by (cases "snd (get_session sid ?old)") (auto simp: stored_trail_def split: option.splits session_value.splits)
  have "has_sign_off sid e st" using e tr(2) by (auto simp: has_sign_off_def signed_off_def approvals_in_empty)
  moreover have "e \<noteq> []" using e(2) by auto
  ultimately have kept using e(1) by (simp add: kept_def same)
  with tr(1) show "stored_trail (api_store st') sid = Some tr" by (simp add: cases)
qed

section \<open>What the reviewing endpoints share\<close>

definition reviewing :: "action \<Rightarrow> bool" where
  "reviewing act \<longleftrightarrow> (case act of Create th ctx fws nm typed \<Rightarrow> False | Delete_action typed \<Rightarrow> False | _ \<Rightarrow> True)"

text \<open>The name and its source that a reviewing operation was called with.\<close>

definition op_identity :: "flow_op \<Rightarrow> (string \<times> string) option" where
  "op_identity op =
     (case op of
        Approve_gate g human src \<Rightarrow> Some (human, src)
      | Retry_phase n human src \<Rightarrow> Some (human, src)
      | Return_for_rework n human why src \<Rightarrow> Some (human, src)
      | Override_qa n human why src \<Rightarrow> Some (human, src)
      | Record_decision rq \<Rightarrow> Some (rq_decided_by rq, rq_identity_source rq)
      | _ \<Rightarrow> None)"

text \<open>Each runs one operation of the flow under the identity of the request, or knows no such gate.\<close>

lemma perform_cases:
  assumes "reviewing act"
  obtains (refused) "\<And>st. perform env sid act who st = (st, Inl (Http 400))"
    | (acts) op err after where
      "perform env sid act who = act_on_flow env sid (\<lambda>f. flow_step f (flow_of env, op)) err after"
      "op_identity op = Some who" "\<And>p re dump. op \<noteq> Generate p re dump"
      "\<And>f s. api_store (after f s) = api_store s \<and> api_flows (after f s) = api_flows s \<and> api_auth (after f s) = api_auth s \<and>
        fst ` set (api_queue (after f s)) \<subseteq> insert sid (fst ` set (api_queue s))"
proof (cases act)
  case (Approve_action n typed)
  show ?thesis
  proof (cases "phase_of_int n")
    case None
    with Approve_action show ?thesis by (intro refused) (simp add: approve_gate_action_def)
  next
    case (Some g)
    show ?thesis
      by (rule acts [of "Approve_gate g (fst who) (snd who)" review_error
            "\<lambda>f st. case g of P1 \<Rightarrow> submit_phase sid P2 st | P2 \<Rightarrow> submit_phase sid P3 st | P3 \<Rightarrow> st"])
         (auto simp: Approve_action Some approve_gate_action_def op_identity_def submit_phase_def fun_eq_iff split: phase.split)
  qed
next
  case (Retry_action n typed)
  show ?thesis
    by (rule acts [of "Retry_phase n (fst who) (snd who)" retry_error
          "\<lambda>f st. case phase_of_int n of None \<Rightarrow> st | Some p \<Rightarrow> submit_phase sid p st"])
       (auto simp: Retry_action retry_phase_action_def op_identity_def submit_phase_def fun_eq_iff split: option.split)
next
  case (Override_action n typed why)
  show ?thesis
    by (rule acts [of "Override_qa n (fst who) why (snd who)" review_error "\<lambda>f st. st"])
       (auto simp: Override_action qa_override_action_def op_identity_def fun_eq_iff)
next
  case (Return_action n typed why)
  show ?thesis
    by (rule acts [of "Return_for_rework n (fst who) why (snd who)" return_error
          "\<lambda>f st. case phase_of_int n of None \<Rightarrow> st | Some p \<Rightarrow> submit_phase sid p st"])
       (auto simp: Return_action return_action_def op_identity_def submit_phase_def fun_eq_iff split: option.split)
next
  case (Decide_action rq)
  show ?thesis
    by (rule acts [of "Record_decision (rq\<lparr>rq_decided_by := fst who, rq_identity_source := snd who\<rparr>)"
          decision_error_response "\<lambda>f st. st"])
       (auto simp: Decide_action decide_action_def op_identity_def fun_eq_iff)
qed (use assms in \<open>simp_all add: reviewing_def\<close>)

section \<open>The service\<close>

lemma signed_trail_grows: "stored_trail (api_store st) sid = Some tr \<Longrightarrow> stored_trail (api_store st') sid = Some tr' \<Longrightarrow>
    prefix tr tr' \<Longrightarrow> prefix (signed_trail sid st) (signed_trail sid st')"
  by (auto simp: signed_trail_def prefix_def approvals_in_def)

lemma advances_signed: "advances cr key st st' \<Longrightarrow> prefix (signed_trail sid st) (signed_trail sid st')"
proof (cases "stored_trail (api_store st) sid")
  case (Some tr)
  moreover assume "advances cr key st st'"
  ultimately show ?thesis using signed_trail_grows unfolding advances_def by blast
qed (simp add: signed_trail_def)

lemma api_inv_auth: "api_inv cr key (st\<lparr>api_auth := a\<rparr>) = api_inv cr key st"
  by (rule api_inv_cong) simp_all

lemma env_ok_auth: "env_ok cr key (st\<lparr>api_auth := a\<rparr>) env = env_ok cr key st env"
  by (simp add: env_ok_def used_ids_def all_flows_def session_known_def)

lemma signed_trail_auth: "signed_trail sid (st\<lparr>api_auth := a\<rparr>) = signed_trail sid st"
  by (simp add: signed_trail_def)

lemma perform_ok:
  assumes inv: "api_inv cr key st" and ok: "env_ok cr key st env" and run: "perform env sid act who st = (st', r)"
  shows "api_inv cr key st' \<and> prefix (signed_trail other st) (signed_trail other st')"
proof -
  have moved: ?thesis if "advances cr key st st'"
    using that advances_signed [OF that] by (simp add: advances_def)
  show ?thesis
  proof (cases "reviewing act")
    case True
    then have "advances cr key st st'"
    proof (cases rule: perform_cases [of act env sid who])
      case refused
      with run inv show ?thesis by (simp add: advances_refl)
    next
      case (acts op err after)
      show ?thesis by (rule act_on_flow_inv(1) [OF inv ok acts(3) run [unfolded acts(1)]]) (use acts(4) in simp)
    qed
    then show ?thesis by (rule moved)
  next
    case False
    then consider (Create) th ctx fws nm typed where "act = Create th ctx fws nm typed" | (Delete) typed where "act = Delete_action typed"
      by (cases act) (auto simp: reviewing_def)
    then show ?thesis
    proof cases
      case Create
      with run create_inv [OF inv ok] show ?thesis by (intro moved) simp
    next
      case Delete
      with run have del: "delete_audit env sid who st = (st', r)" by simp
      have "prefix (signed_trail other st) (signed_trail other st')"
      proof (cases "other = sid")
        case True
        with delete_inv(3) [OF inv del] show ?thesis by (auto simp: signed_trail_def split: option.splits)
      next
        case False
        with delete_inv(2) [OF inv del False] show ?thesis by (simp add: signed_trail_def)
      qed
      with delete_inv(1) [OF inv del] show ?thesis by simp
    qed
  qed
qed

lemma handle_ok:
  assumes inv: "api_inv cr key st" and ok: "env_ok cr key st env"
  shows "api_inv cr key (fst (handle env sid act st)) \<and>
    prefix (signed_trail other st) (signed_trail other (fst (handle env sid act st)))"
proof -
  obtain a w where id: "reviewer_identity (api_crypto env) (auth_of env) (api_auth st) = (a, w)" by fastforce
  let ?st = "st\<lparr>api_auth := a\<rparr>"
  have inv': "api_inv cr key ?st" "env_ok cr key ?st env" using inv ok by (simp_all add: api_inv_auth env_ok_auth)
  have "(\<exists>e. handle env sid act st = (?st, Inl e)) \<or> (\<exists>who. handle env sid act st = perform env sid act who ?st)"
  proof (cases w)
    case (Inr x)
    then show ?thesis using id by (cases "resolve x (Some (fst (typed_name act))) (snd (typed_name act))") (auto simp: handle_def Let_def)
  qed (use id in \<open>auto simp: handle_def Let_def\<close>)
  then consider e where "handle env sid act st = (?st, Inl e)" | who where "handle env sid act st = perform env sid act who ?st"
    by blast
  then show ?thesis
  proof cases
    case 1
    with inv' show ?thesis by (simp add: signed_trail_auth)
  next
    case 2
    then show ?thesis using perform_ok [OF inv', of sid act who] by (cases "perform env sid act who ?st") (simp add: signed_trail_auth)
  qed
qed

lemma api_step_ok:
  assumes inv: "api_inv cr key st" and step: "api_step cr key st ev = Inr st'"
  shows "api_inv cr key st' \<and> prefix (signed_trail sid st) (signed_trail sid st')"
proof (cases ev)
  case (Request env id act)
  with step handle_ok [OF inv, of env id act sid] show ?thesis by (auto simp: api_step_def split: if_splits)
next
  case (Run env re dump i)
  with step have "st' = run_phase env re dump i st" "env_ok cr key st env" by (auto simp: api_step_def split: if_splits)
  with run_phase_inv [OF inv] have "advances cr key st st'" by simp
  then show ?thesis using advances_signed by (simp add: advances_def)
next
  case (Restart l)
  with step have "st' = restart l st" by (simp add: api_step_def)
  with restart_inv [OF inv] have "advances cr key st st'" by simp
  then show ?thesis using advances_signed by (simp add: advances_def)
qed

interpretation service: append_only "api_step cr key" "api_inv cr key" "signed_trail sid" for cr key sid
  by unfold_locales (use api_step_ok in blast)+

text \<open>The service before its first request: no session, no anchor.\<close>

definition new_service :: "failure_limiter \<Rightarrow> 'st api" where
  "new_service l = \<lparr>api_auth = \<lparr>cache = [], limiter = l\<rparr>,
     api_store = \<lparr>sessions_file = No_file, anchors_file = No_file, corrupt_backups = 0\<rparr>, api_flows = [], api_queue = []\<rparr>"

lemma new_service_inv: "crypto_ok cr \<Longrightarrow> api_inv cr key (new_service l)"
  by (simp add: new_service_def api_inv_def session_good_def known_def get_trail_anchor_def load_anchors_def)

definition service_after :: "crypto \<Rightarrow> string option \<Rightarrow> 'st api \<Rightarrow> 'st event list \<Rightarrow> 'st api" where
  "service_after cr key st evs = attempts (api_step cr key) st evs"

lemma service_inv: "crypto_ok cr \<Longrightarrow> api_inv cr key (service_after cr key (new_service l) evs)"
  using service.attempts_inv [OF new_service_inv] by (simp add: service_after_def)

end
