(* ===== verification/ApiDemo.thy ===== *)
theory ApiDemo
  imports ApiInv FlowDemo
begin

text \<open>
  The service on concrete inputs: an audit is created under a declared name, its planning runs,
  and a reviewer with a personal token approves gate 1. The witnesses of the service's properties
  are taken at this session.
\<close>

section \<open>The session\<close>

definition demo_flow_env :: "string \<Rightarrow> flow_env" where
  "demo_flow_env i = (demo_env i)\<lparr>crypto_of := toy_sha\<rparr>"

definition demo_api_env :: "string \<Rightarrow> string \<Rightarrow> dict \<Rightarrow> string option \<Rightarrow> nat api_env" where
  "demo_api_env i new vars token = \<lparr>auth_of = \<lparr>environ = vars, stamp_now = 0, file_now = toy_tokens, clock = 0,
     client_host = None, reviewer_token = token\<rparr>, flow_of = demo_flow_env i, new_session_id = new, wall_clock = ''t0''\<rparr>"

definition demo_limiter :: failure_limiter where
  "demo_limiter = \<lparr>max_failures = 1, window = 60, failures = []\<rparr>"

definition demo_service :: "nat api" where
  "demo_service = new_service demo_limiter"

definition demo_create :: "nat event" where
  "demo_create = Request (demo_api_env ''d1'' ''s'' [] None) [] (Create ''Access'' ''Payroll'' [''SOX''] None ''Bob Ray'')"

definition demo_planning :: "nat event" where
  "demo_planning = Run (demo_api_env ''d2'' ''u'' [] None) (demo_run (Racm demo_racm)) (\<lambda>p. []) 0"

definition demo_reviewer_env :: "nat api_env" where
  "demo_reviewer_env = demo_api_env ''d3'' ''u'' [(''REVIEWER_TOKENS_FILE'', ''t'')] (Some ''grcrt_old'')"

definition demo_approve :: "nat event" where
  "demo_approve = Request demo_reviewer_env ''s'' (Approve_action 1 ''ann'')"

lemma toy_sha_ok: "crypto_ok toy_sha"
  by (simp add: crypto_ok_def toy_sha_def toy_crypto_def)

lemma demo_api_env_simps [simp]:
  "api_crypto (demo_api_env i new vars token) = toy_sha" "flow_of (demo_api_env i new vars token) = demo_flow_env i"
  "crypto_of (demo_flow_env i) = toy_sha" "trail_key (demo_flow_env i) = Some ''k''" "fresh_id (demo_flow_env i) = i"
  "new_session_id (demo_api_env i new vars token) = new" "wall_clock (demo_api_env i new vars token) = ''t0''"
  by (simp_all add: demo_api_env_def demo_flow_env_def demo_env_def api_crypto_def)

section \<open>What is on disk\<close>

lemma update_session_holds:
  "sessions_file st = Holds [(sid, e)] \<Longrightarrow>
     update_session sid changes st = (save_sessions [(sid, dict_update e changes)] st, True)"
  by (simp add: update_session_def load_sessions_def)

lemma repo_save_sessions:
  assumes "sessions_file (api_store st) = Holds [(sid, e)]"
  shows "sessions_file (api_store (repo_save env sid f st)) =
     Holds [(sid, dict_update e [(''scope_text'', Text (business_context f)), (''scope_preview'', Text (py_take 200 (business_context f))),
             (''status'', Text (status_text f)), (''state_snapshot'', Snapshot (snapshot_of f))])]"
  using assms
  by (auto simp: repo_save_def save_flow_def update_session_holds save_sessions_def Let_def
      dest: save_trail_anchor_facts split: sum.split)

text \<open>The only session of the service, and the flow in memory.\<close>

definition only_audit :: "audit_flow \<Rightarrow> nat api \<Rightarrow> bool" where
  "only_audit f st \<longleftrightarrow> api_flows st = [(''s'', f)] \<and> review_decisions f = [] \<and>
     (\<exists>a b c d e g h. sessions_file (api_store st) = Holds [(''s'', [(''created_at'', a), (''name'', b), (''scope_preview'', c),
        (''scope_text'', d), (''chat_history'', Chat []), (''status'', Text e), (''prepared_by'', Text g),
        (''state_snapshot'', Snapshot h)])] \<and> h = snapshot_of f \<and> a = Text ''t0'' \<and> b = Text ''Access audit'' \<and>
        c = Text ''Payroll'' \<and> d = Text ''Payroll'')"

lemma only_audit_fresh: "only_audit f st \<Longrightarrow> used_ids st = []" "only_audit f st \<Longrightarrow> \<not> session_known st ''u''"
  by (auto simp: only_audit_def used_ids_def all_flows_def session_known_def snapshot_of_def)

lemma only_audit_save:
  assumes "only_audit f st" and "review_decisions t = []" "business_context t = ''Payroll''"
  shows "only_audit t (repo_save env ''s'' t (st\<lparr>api_flows := dict_set ''s'' t (api_flows st)\<rparr>))"
proof -
  have take: "py_take 200 ''Payroll'' = ''Payroll''" by (simp add: continuation_def)
  from assms(1) obtain a b c d e g h where s: "sessions_file (api_store st) = Holds [(''s'', [(''created_at'', a), (''name'', b),
        (''scope_preview'', c), (''scope_text'', d), (''chat_history'', Chat []), (''status'', Text e), (''prepared_by'', Text g),
        (''state_snapshot'', Snapshot h)])]" "a = Text ''t0''" "b = Text ''Access audit''" "c = Text ''Payroll''" "d = Text ''Payroll''"
    "api_flows st = [(''s'', f)]"
    by (auto simp: only_audit_def)
  have "sessions_file (api_store (st\<lparr>api_flows := dict_set ''s'' t (api_flows st)\<rparr>)) = Holds [(''s'', [(''created_at'', a), (''name'', b),
        (''scope_preview'', c), (''scope_text'', d), (''chat_history'', Chat []), (''status'', Text e), (''prepared_by'', Text g),
        (''state_snapshot'', Snapshot h)])]"
    using s by simp
  from repo_save_sessions [OF this, of env t] show ?thesis
    unfolding only_audit_def using s(2-) assms(2,3) take
    by (simp add: dict_update_def snapshot_of_def) (simp add: repo_save_def)
qed

lemma only_audit_frame [simp]:
  "only_audit f (st\<lparr>api_auth := a\<rparr>) = only_audit f st" "only_audit f (submit_phase sid p st) = only_audit f st"
  by (simp_all add: only_audit_def submit_phase_def)

section \<open>Creating\<close>

lemma demo_created_service:
  "\<exists>f. only_audit f (service_after toy_sha (Some ''k'') demo_service [demo_create]) \<and> machine f = RUNNING_PHASE P1 \<and>
     business_context f = ''Payroll'' \<and> prepared_by f = ''Bob Ray'' \<and>
     (\<exists>x. approval_trail f = [x] \<and> created_entry x \<and> map_of x ''human'' = Some ''Bob Ray'') \<and>
     api_queue (service_after toy_sha (Some ''k'') demo_service [demo_create]) = [(''s'', P1)] \<and>
     api_auth (service_after toy_sha (Some ''k'') demo_service [demo_create]) = \<lparr>cache = [], limiter = demo_limiter\<rparr>"
proof -
  let ?env = "demo_api_env ''d1'' ''s'' [] None"
  define f0 where "f0 = new_audit ''Access'' ''Payroll'' [''SOX''] None"
  have f0: "flow_good toy_sha (Some ''k'') f0"
    "f0 = (initial_flow WAITING_FOR_SCOPE)\<lparr>theme := ''Access'', business_context := ''Payroll'', frameworks := [''SOX'']\<rparr>"
    using new_flow_good [OF toy_sha_ok] by (auto simp: f0_def new_audit_def initial_flow_def)
  have inv: "flow_inv toy_sha (Some ''k'') f0" using f0(1) by (simp add: flow_good_def audit_inv_def)
  have name: "require_text ''Bob Ray'' = Some ''Bob Ray''" "strip ''Bob Ray'' = ''Bob Ray''"
    by (simp_all add: require_text_def strip_def lstrip_def is_space_def)
  note src = demo_reviewer(2)
  obtain f1 where f1: "record_preparer (demo_flow_env ''d1'') ''Bob Ray'' True ''declared'' f0 = Inr f1"
    using record_preparer_total [OF inv demo_api_env_simps(3,4) toy_sha_ok name(1) src] by (auto simp: f0(2) initial_flow_def)
  from record_preparer_trail [OF inv demo_api_env_simps(3,4) toy_sha_ok this] name(1)
  have f1': "\<exists>x. approval_trail f1 = [x] \<and> created_entry x \<and> map_of x ''human'' = Some ''Bob Ray''" "prepared_by f1 = ''Bob Ray''"
    "machine f1 = WAITING_FOR_SCOPE" "review_decisions f1 = []"
    by (auto simp: f0(2) initial_flow_def)
  have frame: "business_context f1 = ''Payroll''"
    using f1 by (auto simp: record_preparer_def stamp_trail_def result_simps f0(2))
  obtain f2 where f2: "begin_phase_1 f1 = Inr f2" "machine f2 = RUNNING_PHASE P1" "approval_trail f2 = approval_trail f1"
    "prepared_by f2 = ''Bob Ray''" "review_decisions f2 = []" "business_context f2 = ''Payroll''"
    using f1' frame by (simp add: begin_phase_1_def move_def machine_defs commit_status_def)
  have ok: "env_ok toy_sha (Some ''k'') demo_service ?env"
    by (simp add: env_ok_def demo_service_def new_service_def used_ids_def all_flows_def session_known_def)
  let ?st = "repo_save ?env ''s'' f2 ((set_flow ''s'' f2 demo_service)\<lparr>api_store := save_session ''t0'' ''s'' ''Access audit'' ''Payroll'' []
       [(''status'', Text (status_text f2)), (''created_at'', Text ''t0''), (''prepared_by'', Text (prepared_by f2))] (api_store demo_service)\<rparr>)"
  have "audit_name None ''Access'' = ''Access audit''" by (simp add: audit_name_def continuation_def)
  then have run: "create_and_launch ?env ''Access'' ''Payroll'' [''SOX''] None (''Bob Ray'', ''declared'') demo_service =
      (submit_phase ''s'' P1 ?st, Inr (status_text f2))"
    using f1 f2(1) by (simp add: create_and_launch_def Let_def set_flow_def flip: f0(2))
  have who: "reviewer_identity toy_sha (auth_of ?env) (api_auth demo_service) = (api_auth demo_service, Inr None)"
    by (simp add: reviewer_identity_def demo_api_env_def configured_path_def getenv_def dict_get_or_def strip_def lstrip_def
        reviewer_tokens_mandatory_def demo_mode_enabled_def demo_mode_requested_def environment_of_def TRUTHY_def
        BLOCKED_ENVIRONMENTS_def is_space_def lower_char_def)
  have same: "demo_service\<lparr>api_auth := api_auth demo_service\<rparr> = demo_service" by simp
  have "handle ?env [] (Create ''Access'' ''Payroll'' [''SOX''] None ''Bob Ray'') demo_service = (submit_phase ''s'' P1 ?st, Inr (status_text f2))"
    using who run name(2) by (simp add: handle_def resolve_def same)
  then have st: "service_after toy_sha (Some ''k'') demo_service [demo_create] = submit_phase ''s'' P1 ?st"
    using ok by (simp add: service_after_def attempt_def api_step_def demo_create_def)
  have "sessions_file (api_store ((set_flow ''s'' f2 demo_service)\<lparr>api_store := save_session ''t0'' ''s'' ''Access audit'' ''Payroll'' []
       [(''status'', Text (status_text f2)), (''created_at'', Text ''t0''), (''prepared_by'', Text (prepared_by f2))] (api_store demo_service)\<rparr>)) =
     Holds [(''s'', [(''created_at'', Text ''t0''), (''name'', Text ''Access audit''), (''scope_preview'', Text ''Payroll''),
        (''scope_text'', Text ''Payroll''), (''chat_history'', Chat []), (''status'', Text (status_text f2)), (''prepared_by'', Text (prepared_by f2))])]"
    by (simp add: save_session_def demo_service_def new_service_def load_sessions_def session_of_def dict_setdefault_def
        old_chat_def dict_update_def save_sessions_def continuation_def)
  from repo_save_sessions [OF this, of ?env f2] f2(5,6)
  have "only_audit (f2\<lparr>session_id := Some ''s''\<rparr>) (submit_phase ''s'' P1 ?st)"
    by (simp add: only_audit_def submit_phase_def dict_update_def snapshot_of_def continuation_def)
       (simp add: repo_save_def set_flow_def demo_service_def new_service_def)
  moreover have "api_queue (submit_phase ''s'' P1 ?st) = [(''s'', P1)]" "api_auth (submit_phase ''s'' P1 ?st) = \<lparr>cache = [], limiter = demo_limiter\<rparr>"
    by (simp_all add: submit_phase_def repo_save_def set_flow_def demo_service_def new_service_def)
  ultimately show ?thesis unfolding st using f2 f1' by (intro exI [of _ "f2\<lparr>session_id := Some ''s''\<rparr>"]) simp
qed

section \<open>The planning run\<close>

lemma validated_racm: "validated (demo_run (Racm r)) = demo_run (Racm r)"
  by (simp add: validated_def demo_run_def validated_result_def validated_artifact_def fun_eq_iff)

lemma demo_running:
  assumes "machine s = RUNNING_PHASE P1"
  shows "\<exists>t. generate dump env (demo_run (Racm demo_racm)) P1 s = Inr (t, None) \<and>
     machine t = WAITING_HUMAN_GATE P1 \<and> approval_trail t = approval_trail s \<and> racm_plan t = Some demo_racm \<and>
     prepared_by t = prepared_by s \<and> review_decisions t = review_decisions s \<and> business_context t = business_context s"
  using assms
  by (simp add: generate_planning_def move_def machine_defs commit_status_def detect_skills_def Let_def
      run_crew_with_qa_def start_generation_run_def demo_run_def try_attempt_def update_run_def qa_rejection_def evidence_rejection_def
      store_passed_def close_run_def leaving_def complete_run_def planning_done_def)

definition demo_planned :: "nat api" where
  "demo_planned = service_after toy_sha (Some ''k'') demo_service [demo_create, demo_planning]"

lemma service_after_snoc: "service_after cr key st (evs @ [ev]) = attempt (api_step cr key) (service_after cr key st evs) ev"
  by (simp add: service_after_def attempts_append)

lemma demo_planned_service:
  "\<exists>f. only_audit f demo_planned \<and> machine f = WAITING_HUMAN_GATE P1 \<and> racm_plan f = Some demo_racm \<and>
     business_context f = ''Payroll'' \<and> prepared_by f = ''Bob Ray'' \<and>
     (\<exists>x. approval_trail f = [x] \<and> created_entry x \<and> map_of x ''human'' = Some ''Bob Ray'') \<and>
     api_queue demo_planned = [] \<and> api_auth demo_planned = \<lparr>cache = [], limiter = demo_limiter\<rparr>"
proof -
  let ?st = "service_after toy_sha (Some ''k'') demo_service [demo_create]"
  let ?env = "demo_api_env ''d2'' ''u'' [] None"
  obtain f where f: "only_audit f ?st" "machine f = RUNNING_PHASE P1" "business_context f = ''Payroll''" "prepared_by f = ''Bob Ray''"
    "\<exists>x. approval_trail f = [x] \<and> created_entry x \<and> map_of x ''human'' = Some ''Bob Ray''"
    "api_queue ?st = [(''s'', P1)]" "api_auth ?st = \<lparr>cache = [], limiter = demo_limiter\<rparr>"
    using demo_created_service by blast
  obtain t where t: "generate (\<lambda>p. []) (demo_flow_env ''d2'') (demo_run (Racm demo_racm)) P1 f = Inr (t, None)"
    "machine t = WAITING_HUMAN_GATE P1" "approval_trail t = approval_trail f" "racm_plan t = Some demo_racm"
    "prepared_by t = ''Bob Ray''" "review_decisions t = []" "business_context t = ''Payroll''"
    using demo_running [OF f(2), of "\<lambda>p. []" "demo_flow_env ''d2''"] f(1,3,4) by (auto simp: only_audit_def simp del: generate.simps)
  let ?idle = "?st\<lparr>api_queue := []\<rparr>"
  have only: "only_audit f ?idle" and flows: "map_of (api_flows ?idle) ''s'' = Some f" using f(1) by (simp_all add: only_audit_def)
  let ?saved = "repo_save ?env ''s'' t (?idle\<lparr>api_flows := dict_set ''s'' t (api_flows ?idle)\<rparr>)"
  have "env_ok toy_sha (Some ''k'') ?st ?env" using only_audit_fresh [OF f(1)] by (simp add: env_ok_def)
  moreover have "run_phase ?env (demo_run (Racm demo_racm)) (\<lambda>p. []) 0 ?st = ?saved"
    using f(6) flows t(1) by (simp add: run_phase_def get_or_load_flow_def validated_racm del: generate.simps)
  ultimately have st: "demo_planned = ?saved"
    using service_after_snoc [of toy_sha "Some ''k''" demo_service "[demo_create]" demo_planning]
    by (simp add: demo_planned_def attempt_def api_step_def demo_planning_def)
  have "only_audit t ?saved" by (rule only_audit_save [OF only t(6,7)])
  moreover have "api_queue ?saved = []" "api_auth ?saved = \<lparr>cache = [], limiter = demo_limiter\<rparr>" using f(7) by (simp_all add: repo_save_def)
  ultimately show ?thesis unfolding st using t f(5) by (intro exI [of _ t]) simp
qed

section \<open>The approval\<close>

lemma demo_planned_inv: "api_inv toy_sha (Some ''k'') demo_planned"
  using service_inv [OF toy_sha_ok] by (simp add: demo_planned_def demo_service_def)

lemma demo_reviewer_ok: "env_ok toy_sha (Some ''k'') demo_planned demo_reviewer_env"
  using demo_planned_service only_audit_fresh by (fastforce simp: env_ok_def demo_reviewer_env_def)

lemma demo_reviewer_path: "configured_path (environ (auth_of demo_reviewer_env)) = Some ''t''"
  by (simp add: configured_path_def getenv_def dict_get_or_def demo_reviewer_env_def demo_api_env_def strip_def lstrip_def is_space_def)

lemma demo_reviewer_identity:
  "\<exists>a. reviewer_identity toy_sha (auth_of demo_reviewer_env) (api_auth demo_planned) = (a, Inr (Some ''ann''))"
proof -
  have auth: "api_auth demo_planned = \<lparr>cache = [], limiter = demo_limiter\<rparr>" using demo_planned_service by blast
  have "load_registry (cache (api_auth demo_planned)) ''t'' 0 toy_tokens = Inr ([(''t'', 0, [toy_entry])], [toy_entry])"
    using toy_read by (simp add: auth load_registry_def toy_tokens_def)
  then show ?thesis using demo_reviewer_path toy_old
    by (simp add: reviewer_identity_def demo_reviewer_env_def demo_api_env_def check_token_def auth demo_limiter_def
        retry_after_def prune_def times_of_def)
qed

lemma demo_approves:
  assumes "machine f = WAITING_HUMAN_GATE P1" "racm_plan f = Some demo_racm" "prepared_by f = ''Bob Ray''"
    "approval_trail f = [x]" "map_of x ''human'' = Some ''Bob Ray''" and inv: "flow_inv toy_sha (Some ''k'') f"
  shows "\<exists>t y. flow_approve_gate (demo_flow_env i) P1 ''ann'' ''authenticated'' f = Inr t \<and> approval_trail t = [x, y] \<and>
     action_of y = Some ''gate_approval''"
proof -
  have p: "p = ''Bob Ray''" if "p \<in> set (flow_preparers f)" for p
    using that assms(3-5) by (auto simp: flow_preparers_def dict_get_or_def Let_def split: if_splits)
  have other: "\<not> same_person (Some ''ann'') (Some ''Bob Ray'')"
    by (simp add: same_person_def normalise_identity_def lower_char_def is_space_def)
  have "check_sod ''gate_approval'' ''ann'' (Some P1) f = Inr ()"
    unfolding check_sod_Inr using other p by (auto simp: sod_violation_def)
  moreover have "require_text ''ann'' = Some ''ann''" "identity_source_of ''authenticated'' = Inr ''authenticated''"
    by (simp_all add: require_text_def strip_def lstrip_def is_space_def identity_source_of_def by_value_def all_source_def)
  ultimately show ?thesis
    using approve_gate_1_total [OF inv demo_api_env_simps(3,4) toy_sha_ok assms(1)] assms(2,4) by fastforce
qed

lemma approve_frame:
  "flow_approve_gate env P1 human src f = Inr t \<Longrightarrow> machine t = RUNNING_PHASE P2 \<and> review_decisions t = review_decisions f \<and>
     business_context t = business_context f"
  by (auto simp: flow_approve_gate_def bindE_Inr_iff Let_def move_iff commit_status_def stamp_trail_def result_simps
      elim: lifecycle_approveE)

lemma demo_approved_request:
  "\<exists>st' status t. handle demo_reviewer_env ''s'' (Approve_action 1 ''ann'') demo_planned = (st', Inr status) \<and>
     only_audit t st' \<and> machine t = RUNNING_PHASE P2"
proof -
  obtain a where who: "reviewer_identity toy_sha (auth_of demo_reviewer_env) (api_auth demo_planned) = (a, Inr (Some ''ann''))"
    using demo_reviewer_identity by blast
  obtain f x where f: "only_audit f demo_planned" "machine f = WAITING_HUMAN_GATE P1" "racm_plan f = Some demo_racm"
    "prepared_by f = ''Bob Ray''" "approval_trail f = [x]" "map_of x ''human'' = Some ''Bob Ray''"
    "business_context f = ''Payroll''"
    using demo_planned_service by blast
  let ?st = "demo_planned\<lparr>api_auth := a\<rparr>"
  have mem: "map_of (api_flows ?st) ''s'' = Some f" using f(1) by (simp add: only_audit_def)
  have known: "known (api_store ?st) ''s''" using f(1) by (auto simp: only_audit_def known_def)
  have inv: "api_inv toy_sha (Some ''k'') ?st" using demo_planned_inv by (simp add: api_inv_auth)
  then have "flow_inv toy_sha (Some ''k'') f"
    using known mem by (auto simp: api_inv_def session_good_def flow_good_def audit_inv_def dest: spec [of _ "''s''"])
  then obtain t where t: "flow_approve_gate (demo_flow_env ''d3'') P1 ''ann'' ''authenticated'' f = Inr t"
    using demo_approves [OF f(2-6)] by blast
  have session: "\<exists>d. require_session ''s'' ?st = (?st, Inr d)" using require_session_inv [OF inv, of "''s''"] known by simp
  have flow: "require_flow demo_reviewer_env ''s'' ?st = (?st, Inr f)" using mem by (simp add: require_flow_def get_or_load_flow_def)
  have "resolve (Some ''ann'') (Some ''ann'') ''human_id'' = Inr (''ann'', ''authenticated'')"
    by (simp add: resolve_def same_person_def normalise_identity_def is_space_def)
  moreover have "phase_of_int 1 = Some P1" by (simp add: phase_of_int_def)
  ultimately have "handle demo_reviewer_env ''s'' (Approve_action 1 ''ann'') demo_planned = (submit_phase ''s'' P2
      (repo_save demo_reviewer_env ''s'' t (?st\<lparr>api_flows := dict_set ''s'' t (api_flows ?st)\<rparr>)), Inr (status_text t))"
    using who session flow t
    by (auto simp: handle_def demo_reviewer_env_def approve_gate_action_def act_on_flow_def Let_def)
  moreover have "only_audit t (repo_save demo_reviewer_env ''s'' t (?st\<lparr>api_flows := dict_set ''s'' t (api_flows ?st)\<rparr>))"
    by (rule only_audit_save [of f]) (use f(1,7) approve_frame [OF t] in \<open>simp_all add: only_audit_def\<close>)
  ultimately show ?thesis using approve_frame [OF t] by (intro exI) (auto simp del: only_audit_frame(1))
qed

definition demo_signed :: "nat api" where
  "demo_signed = service_after toy_sha (Some ''k'') demo_service [demo_create, demo_planning, demo_approve]"

section \<open>What is stored then\<close>

lemma memory_stored:
  assumes "api_inv cr key st" and "map_of (api_flows st) sid = Some f"
  shows "stored_trail (api_store st) sid = Some (approval_trail f)"
proof -
  have good: "session_good cr key st sid" using assms(1) by (simp add: api_inv_def)
  then have "known (api_store st) sid" using assms(2) by (auto simp: session_good_def split: if_splits)
  with good obtain s where "holds (api_store st) sid s" "approval_trail f = approval_trail s"
    using assms(2) by (auto simp: session_good_def)
  then show ?thesis by (simp add: holds_trail)
qed

lemma demo_planned_trail: "\<exists>x. stored_trail (api_store demo_planned) ''s'' = Some [x]"
proof -
  obtain f x where f: "only_audit f demo_planned" "approval_trail f = [x]" using demo_planned_service by blast
  then show ?thesis using memory_stored [OF demo_planned_inv, of "''s''" f] by (simp add: only_audit_def)
qed

lemma demo_signed_audit: "\<exists>t. only_audit t demo_signed \<and> machine t = RUNNING_PHASE P2"
proof -
  obtain st' status t where run: "handle demo_reviewer_env ''s'' (Approve_action 1 ''ann'') demo_planned = (st', Inr status)"
    "only_audit t st'" "machine t = RUNNING_PHASE P2"
    using demo_approved_request by blast
  have "demo_signed = st'"
    using service_after_snoc [of toy_sha "Some ''k''" demo_service "[demo_create, demo_planning]" demo_approve] run demo_reviewer_ok
    by (simp add: demo_signed_def demo_approve_def attempt_def api_step_def flip: demo_planned_def)
  with run show ?thesis by blast
qed

lemma demo_signed_inv: "api_inv toy_sha (Some ''k'') demo_signed"
  using service_inv [OF toy_sha_ok] by (simp add: demo_signed_def demo_service_def)

lemma demo_signed_trail: "\<exists>tr. stored_trail (api_store demo_signed) ''s'' = Some tr \<and> approvals_in tr \<noteq> []"
proof -
  obtain t where t: "only_audit t demo_signed" "machine t = RUNNING_PHASE P2" using demo_signed_audit by blast
  then have mem: "map_of (api_flows demo_signed) ''s'' = Some t" by (simp add: only_audit_def)
  have "session_good toy_sha (Some ''k'') demo_signed ''s''" using demo_signed_inv by (simp add: api_inv_def)
  then have "flow_inv toy_sha (Some ''k'') t"
    using mem by (auto simp: session_good_def flow_good_def audit_inv_def split: if_splits)
  then have "approvals_in (approval_trail t) \<noteq> []" using t(2) by (simp add: flow_inv_def)
  then show ?thesis using memory_stored [OF demo_signed_inv mem] by blast
qed

end
