(* ===== verification/FlowProps.thy ===== *)
theory FlowProps
  imports FlowDemo
begin

text \<open>
  The properties of \<open>AuditFlow\<close>: what the trail of any audit says about it, what a gate approval
  establishes, how the flow relates to the state machine, and what the crews are given and
  how often they run.
\<close>

section \<open>The trail of an audit verifies\<close>

lemma by_id_distinct:
  assumes ids: "ids_distinct ds" and d: "d \<in> set ds"
  shows "map_of (by_id ds) (decision_id d) = Some d"
proof -
  have "find (\<lambda>x. decision_id x = decision_id d) (rev ds) = Some d"
    by (rule find_unique) (use ids d in \<open>auto simp: ids_distinct_def distinct_map dest: inj_onD\<close>)
  then show ?thesis unfolding by_id_def map_of_foldl_update_all by simp
qed

lemma flow_artifacts_field: "map_of (flow_artifacts s) (artifact_field p) = Some (artifact_of s p)"
  by (cases p) (simp_all add: flow_artifacts_def)

lemma artifact_digest_ascii: "ascii (artifact_digest cr a)" "ascii (decisions_digest cr ds)"
  by (simp_all add: artifact_digest_def decisions_digest_def)

lemma flow_inv_content:
  assumes inv: "flow_inv cr key s"
  shows "changed_since_approval cr (approval_trail s) (flow_artifacts s) (Some (review_decisions s)) = Inr []"
    and "decisions_changed cr (approval_trail s) (review_decisions s) = Inr []"
proof -
  note i = inv [unfolded flow_inv_def]
  have ids: "ids_distinct (review_decisions s)" using i recorded_ids by (auto simp: decisions_ok_def)
  have "check_approval cr (flow_artifacts s) (Some (review_decisions s)) (field, a) = Inr []"
    if seal: "seal_ok cr s (field, a)" for field a
  proof -
    from seal obtain p art where p: "field = artifact_field p" "artifact_of s p = Some art" "a_digest a = artifact_digest cr art"
      and sealed: "\<And>h. a_sealed a = Some h \<Longrightarrow>
        \<exists>ds. prefix ds (phase_decisions p s) \<and> a_ids a = map decision_id ds \<and> h = decisions_digest cr ds"
      by (auto simp: seal_ok_def)
    have "(\<forall>i\<in>set (a_ids a). map_of (by_id (review_decisions s)) i \<noteq> None) \<and> ascii h \<and>
        decisions_digest cr (map (\<lambda>i. the (map_of (by_id (review_decisions s)) i)) (a_ids a)) = h"
      if h: "a_sealed a = Some h" for h
    proof -
      obtain ds where ds: "prefix ds (phase_decisions p s)" "a_ids a = map decision_id ds" "h = decisions_digest cr ds"
        using sealed [OF h] by blast
      have sub: "set ds \<subseteq> set (review_decisions s)"
        using set_mono_prefix [OF ds(1)] by (auto simp: phase_decisions_def)
      then have by_id: "map_of (by_id (review_decisions s)) (decision_id d) = Some d" if "d \<in> set ds" for d
        using by_id_distinct [OF ids] that by blast
      then have "map (\<lambda>i. the (map_of (by_id (review_decisions s)) i)) (a_ids a) = ds"
        unfolding ds(2) map_map by (intro map_idI) simp
      then show ?thesis using by_id ds artifact_digest_ascii by auto
    qed
    then show ?thesis
      unfolding check_approval_clean p(1) flow_artifacts_field p(2,3) using artifact_digest_ascii by blast
  qed
  then show "changed_since_approval cr (approval_trail s) (flow_artifacts s) (Some (review_decisions s)) = Inr []"
    using i unfolding changed_since_approval_def collectE_empty latest_approvals_def seals_ok_def seen_of_def by fastforce
  show "decisions_changed cr (approval_trail s) (review_decisions s) = Inr []"
    using i unfolding decisions_changed_clean digests_ok_def by blast
qed

lemma flow_inv_verifies:
  assumes inv: "flow_inv cr key s" and cr: "crypto_ok cr" and tr: "approval_trail s \<noteq> []" "m \<le> length (approval_trail s)"
    and env: "crypto_of env = cr" "trail_key env = key"
  shows "\<exists>v. flow_verify_trail env (anchor_at [] (approval_trail s) m) s = Inr v \<and>
     v_ok v \<and> v_status v = STATUS_OK \<and> v_entries v = length (approval_trail s)"
proof -
  have app: "appended cr key [] (approval_trail s)" using inv by (simp add: flow_inv_def)
  show ?thesis
    using appended_verifies_with [OF app cr tr, of "Some (flow_artifacts s)" "Some (review_decisions s)"]
      flow_inv_content [OF inv] by (auto simp: flow_verify_trail_def env)
qed

section \<open>Properties of every audit\<close>

text \<open>C1. [audit_trail_verifies] No false alarm: after any session on a new audit, the trail it left
  verifies against the artifacts and the decisions in the state, without a problem and with
  every entry counted, and also against the anchor taken of any earlier prefix of the trail.\<close>
theorem audit_trail_verifies:
  assumes "crypto_ok cr" and "s = audit_after cr key (new_audit th biz fws sid) xs"
    and "approval_trail s \<noteq> []" "m \<le> length (approval_trail s)"
    and "crypto_of env = cr" "trail_key env = key"
  shows "\<exists>v. flow_verify_trail env (anchor_at [] (approval_trail s) m) s = Inr v \<and>
     v_ok v \<and> v_status v = STATUS_OK \<and> v_entries v = length (approval_trail s)"
  using flow_inv_verifies [of cr key s m env] reachable_inv [of cr key th biz fws sid xs] assms by simp

theorem audit_trail_verifies_witness:
  "\<exists>v. flow_verify_trail (demo_env ''d2'') (anchor_at [] (approval_trail demo_created) 1) demo_created = Inr v \<and>
     v_ok v \<and> v_status v = STATUS_OK \<and> v_entries v = length (approval_trail demo_created)"
  using demo_created_trail(1)
  by (intro audit_trail_verifies [where cr = toy_crypto and key = "Some ''k''"])
     (auto simp: demo_created_def demo_start_def)

text \<open>C3. [audit_approvals_are_gates] The gate approvals in the trail of any audit are exactly the gates
  its status lies behind, in order, and the stored status text is the machine's status. So an
  audit is completed only with one approval of each of the three gates on its trail.\<close>
theorem audit_approvals_are_gates:
  assumes "crypto_ok cr" and "s = audit_after cr key (new_audit th biz fws sid) xs"
  shows "approvals_in (approval_trail s) = map gate_label (gates_passed (machine s)) \<and>
     status_of_value (status_text s) = Some (machine s)"
  using reachable_inv [of cr key th biz fws sid xs] assms by (simp add: flow_inv_def)

theorem audit_approvals_are_gates_witness:
  "approvals_in (approval_trail demo_created) = map gate_label (gates_passed (machine demo_created)) \<and>
     status_of_value (status_text demo_created) = Some (machine demo_created)"
  by (rule audit_approvals_are_gates [OF toy_crypto_ok]) (simp add: demo_created_def demo_start_def)

text \<open>C2. [duties_segregated] Segregation of duties holds on the trail of every audit: whoever is
  recorded as preparing the audit does none of the reviewing actions after it, and gate 3 is
  approved by someone else than gate 2, names compared as the policy compares them.\<close>
theorem duties_segregated:
  assumes "crypto_ok cr" and "tr = approval_trail (audit_after cr key (new_audit th biz fws sid) xs)"
    and "i < j" "j < length tr"
  shows "(created_entry (tr ! i) \<and> action_of (tr ! j) \<in> Some ` set PREPARER_EXCLUDED_ACTIONS \<longrightarrow>
        \<not> same_person (map_of (tr ! j) ''human'') (map_of (tr ! i) ''human'')) \<and>
     (is_approval_of P2 (tr ! i) \<and> is_approval_of P3 (tr ! j) \<longrightarrow>
        \<not> same_person (map_of (tr ! j) ''human'') (map_of (tr ! i) ''human''))"
proof -
  have "sorted_wrt sod_pair tr"
    using reachable_inv [OF assms(1), of key th biz fws sid xs] by (simp add: flow_inv_def assms(2))
  then have "sod_pair (tr ! i) (tr ! j)" using assms(3,4) by (rule sorted_wrt_nth_less)
  then show ?thesis by (simp add: sod_pair_def)
qed

theorem duties_segregated_witness:
  "(created_entry (approval_trail demo_approved ! 0) \<and> action_of (approval_trail demo_approved ! 1) \<in> Some ` set PREPARER_EXCLUDED_ACTIONS) \<and>
     \<not> same_person (map_of (approval_trail demo_approved ! 1) ''human'') (map_of (approval_trail demo_approved ! 0) ''human'')"
proof -
  obtain x y where xy: "approval_trail demo_approved = [x, y]" "created_entry x" "action_of y = Some ''gate_approval''"
    using demo_approved_trail by blast
  have "approval_trail demo_approved =
      approval_trail (audit_after toy_crypto (Some ''k'') (new_audit ''Access'' ''Payroll'' [''SOX''] None) demo_ops)"
    by (simp add: demo_approved_def demo_start_def)
  from duties_segregated [OF toy_crypto_ok this, of 0 1] xy show ?thesis
    by (simp add: PREPARER_EXCLUDED_ACTIONS_def)
qed

text \<open>Nothing recorded is lost or rewritten: whatever is requested of an audit
  later, the trail and the list of reviewer decisions it has now are prefixes of the ones it has then.\<close>
lemma audit_logs_append_only:
  assumes "crypto_ok cr" and "s = audit_after cr key (new_audit th biz fws sid) xs"
  shows "prefix (approval_trail s) (approval_trail (audit_after cr key s ys)) \<and>
     prefix (review_decisions s) (review_decisions (audit_after cr key s ys))"
proof -
  have inv: "audit_inv cr key s" using reachable_inv [OF assms(1)] assms by (simp add: audit_inv_def)
  show ?thesis unfolding audit_after_def using flow_trail.attempts_log [OF inv] flow_decisions.attempts_log [OF inv] by blast
qed

theorem audit_logs_append_only_witness:
  "prefix (approval_trail demo_created) (approval_trail (audit_after toy_crypto (Some ''k'') demo_created [(demo_env ''d2'', Begin_phase_1)])) \<and>
     prefix (review_decisions demo_created) (review_decisions (audit_after toy_crypto (Some ''k'') demo_created [(demo_env ''d2'', Begin_phase_1)]))"
  by (rule audit_logs_append_only [OF toy_crypto_ok]) (simp add: demo_created_def demo_start_def)


section \<open>The flow and the state machine\<close>

lemma move_moved:
  assumes "move m s = Inr s1" "machine t = machine s1" "status_text t = status_text s1"
  shows "run_machine (machine s) [m] = Inr (machine t) \<and> status_text t = status_value (machine t)"
  using assms by (auto simp: move_iff lifecycle_machine_step)

definition asked :: "flow_op \<Rightarrow> phase list" where
  "asked op = (case op of Approve_gate g human src \<Rightarrow> [g] | _ \<Rightarrow> [])"

definition moved :: "audit_flow \<Rightarrow> audit_flow \<Rightarrow> phase list \<Rightarrow> bool" where
  "moved s t gs \<longleftrightarrow> (\<exists>ms. run_machine (machine s) ms = Inr (machine t) \<and> approvals ms = gs \<and>
     (if ms = [] then status_text t = status_text s else status_text t = status_value (machine t)))"

lemma moved_by:
  assumes "move m s = Inr s1" "stamp_trail env gate human action src extra s1 = Inr s2"
    and "machine t = machine s2" "status_text t = status_text s2" "approvals [m] = gs"
  shows "moved s t gs"
proof -
  have "machine s2 = machine s1" "status_text s2 = status_text s1"
    using stamp_trail_frame [OF assms(2)] by auto
  with move_moved [OF assms(1), of t] assms(3-) show ?thesis
    unfolding moved_def by (intro exI [of _ "[m]"]) simp
qed

lemma moved_not: "machine t = machine s \<Longrightarrow> status_text t = status_text s \<Longrightarrow> moved s t []"
  unfolding moved_def by (intro exI [of _ "[]"]) simp

lemma moved_generate:
  assumes "generate dump env re p s = Inr (t, e)"
  shows "moved s t []"
proof -
  obtain ms where "run_of p s t ms" "approvals ms = []" using generate_run [OF assms] by blast
  then show ?thesis unfolding moved_def run_of_def by (intro exI [of _ ms]) simp
qed

lemma flow_step_moved:
  assumes "flow_step s (env, op) = Inr t"
  shows "moved s t (asked op)"
proof (cases op)
  case (Record_preparer who req src)
  then obtain s1 gate human action src' extra where "stamp_trail env gate human action src' extra s1 = Inr t"
    "machine s1 = machine s" "status_text s1 = status_text s"
    using assms by (auto simp: record_preparer_def result_simps)
  then show ?thesis using stamp_trail_frame moved_not by (fastforce simp: asked_def Record_preparer)
next
  case Begin_phase_1
  then obtain s1 where "move StartPhase1 s = Inr s1" "t = s1\<lparr>dossier := ''Planning is running.''\<rparr>"
    using assms by (auto simp: begin_phase_1_def bindE_Inr_iff)
  then show ?thesis
    using move_moved [of StartPhase1 s s1 t] unfolding moved_def asked_def Begin_phase_1
    by (intro exI [of _ "[StartPhase1]"]) simp
next
  case (Approve_gate g human src)
  then obtain s1 s2 gate who action src' extra where "move (Approve g) s = Inr s1"
    "stamp_trail env gate who action src' extra s1 = Inr s2" "t = s2\<lparr>dossier := approved_dossier g who\<rparr>"
    using assms by (auto simp: flow_approve_gate_def result_simps Let_def)
  then show ?thesis using moved_by by (fastforce simp: asked_def Approve_gate)
next
  case (Retry_phase n human src)
  then obtain p s1 s2 gate who action src' extra d where "move (Retry p) s = Inr s1"
    "stamp_trail env gate who action src' extra s1 = Inr s2" "t = s2\<lparr>dossier := d\<rparr>"
    using assms by (auto simp: flow_retry_phase_def result_simps Let_def)
  then show ?thesis using moved_by by (fastforce simp: asked_def Retry_phase)
next
  case (Return_for_rework n human review src)
  then obtain p s1 s2 gate who action src' extra d where "move (Return p) s = Inr s1"
    "stamp_trail env gate who action src' extra s1 = Inr s2" "t = s2\<lparr>qa_reason := None, dossier := d\<rparr>"
    using assms by (auto simp: flow_return_for_rework_def result_simps Let_def)
  then show ?thesis using moved_by by (fastforce simp: asked_def Return_for_rework)
next
  case (Override_qa n human why src)
  then obtain p s1 s2 gate who action src' extra d where "move (Override p) s = Inr s1"
    "stamp_trail env gate who action src' extra s1 = Inr s2" "t = s2\<lparr>qa_reason := None, dossier := d\<rparr>"
    using assms by (auto simp: override_qa_rejection_def result_simps Let_def)
  then show ?thesis using moved_by by (fastforce simp: asked_def Override_qa)
next
  case (Record_decision rq)
  then obtain s1 gate who action src' extra where "stamp_trail env gate who action src' extra s1 = Inr t"
    "machine s1 = machine s" "status_text s1 = status_text s"
    using assms by (auto simp: record_decision_def result_simps)
  then show ?thesis using stamp_trail_frame moved_not by (fastforce simp: asked_def Record_decision)
next
  case (Generate p re dump)
  then obtain e where "generate dump env re p s = Inr (t, e)"
    using assms by (auto simp: bindE_Inr_iff)
  then show ?thesis by (simp add: moved_generate asked_def Generate)
qed

text \<open>C38. [flow_refines_machine] The flow refines the state machine: an accepted operation of the flow is a
  run of accepted machine operations on its status, which approves a gate only when the
  operation is the approval of that very gate, and whenever it moves the machine it writes the
  new status back to the state that is stored.\<close>
theorem flow_refines_machine:
  assumes "flow_step s (env, op) = Inr t"
  shows "\<exists>ms. run_machine (machine s) ms = Inr (machine t) \<and>
     approvals ms = (case op of Approve_gate g human src \<Rightarrow> [g] | _ \<Rightarrow> []) \<and>
     (if ms = [] then status_text t = status_text s else status_text t = status_value (machine t))"
  using flow_step_moved [OF assms] unfolding moved_def asked_def .

theorem flow_refines_machine_witness:
  "\<exists>ms. run_machine (machine demo_start) ms = Inr (machine demo_created) \<and> approvals ms = [] \<and>
     (if ms = [] then status_text demo_created = status_text demo_start
      else status_text demo_created = status_value (machine demo_created))"
proof -
  have "flow_step demo_start (demo_env ''d1'', Record_preparer ''Ann Lee'' False ''declared'') = Inr demo_created"
    using demo_created_step by (simp add: session_step_def split: if_splits)
  from flow_refines_machine [OF this] show ?thesis by simp
qed

end
