(* ===== verification/ApiProps.thy ===== *)
theory ApiProps
  imports ApiDemo FlowProps
begin

text \<open>
  The properties of the service, from its first request on: what is on disk verifies, a signed-off
  trail is kept, a reviewing request is recorded under the token's name, and a restart loses nothing.
\<close>

section \<open>What is stored verifies\<close>

lemma good_of: "api_inv cr key st \<Longrightarrow> session_good cr key st sid"
  by (simp add: api_inv_def)

lemma stored_good:
  assumes inv: "api_inv cr key st" and tr: "stored_trail (api_store st) sid = Some tr"
  shows "\<exists>s. holds (api_store st) sid s \<and> flow_good cr key s \<and> approval_trail s = tr \<and>
     get_trail_anchor sid (api_store st) = anchor_at [] tr (length tr) \<and>
     (\<forall>f. map_of (api_flows st) sid = Some f \<longrightarrow> flow_good cr key f \<and> approval_trail f = tr)"
proof -
  have "known (api_store st) sid" using holds_stored [OF tr] inv by (simp add: api_inv_def)
  then obtain s where s: "holds (api_store st) sid s" "flow_good cr key s"
    "get_trail_anchor sid (api_store st) = anchor_at [] (approval_trail s) (length (approval_trail s))"
    "\<forall>f. map_of (api_flows st) sid = Some f \<longrightarrow> flow_good cr key f \<and> approval_trail f = approval_trail s"
    using good_of [OF inv, of sid] by (auto simp: session_good_def)
  moreover have "approval_trail s = tr" using holds_trail [OF s(1)] tr by simp
  ultimately show ?thesis by auto
qed

lemma holds_verifies:
  "holds st sid s \<Longrightarrow> verify_session_trail env sid st =
     bindE (flow_verify_trail env (get_trail_anchor sid st) s) (\<lambda>v. Inr (Some v))"
  by (auto simp: holds_def verify_session_trail_def get_session_def load_sessions_def flow_verify_trail_def
      snapshot_of_def flow_artifacts_def)

lemma stored_verifies:
  assumes inv: "api_inv cr key st" and tr: "stored_trail (api_store st) sid = Some tr" "tr \<noteq> []"
    and env: "crypto_of env = cr" "trail_key env = key"
  shows "\<exists>v. verify_session_trail env sid (api_store st) = Inr (Some v) \<and>
     v_ok v \<and> v_status v = STATUS_OK \<and> v_entries v = length tr"
proof -
  obtain s where s: "holds (api_store st) sid s" "flow_good cr key s" "approval_trail s = tr"
    "get_trail_anchor sid (api_store st) = anchor_at [] tr (length tr)"
    using stored_good [OF inv tr(1)] by blast
  then have "flow_inv cr key s" "crypto_ok cr" by (auto simp: flow_good_def audit_inv_def)
  from flow_inv_verifies [OF this, of "length tr" env] s tr(2) env show ?thesis
    by (auto simp: holds_verifies [OF s(1)])
qed

section \<open>Reading a saved audit back\<close>

definition stored_audit :: "store \<Rightarrow> string \<Rightarrow> audit_flow option" where
  "stored_audit st sid =
     (case Option.bind (snd (get_session sid st)) (\<lambda>e. map_of e ''state_snapshot'') of
        Some (Snapshot s) \<Rightarrow> Some s | _ \<Rightarrow> None)"

lemma stored_trail_audit: "stored_trail st sid = map_option approval_trail (stored_audit st sid)"
  by (auto simp: stored_trail_def stored_audit_def split: option.splits session_value.splits)

lemma holds_audit: "holds st sid s \<Longrightarrow> stored_audit st sid = Some (snapshot_of s)"
  by (auto simp: holds_def stored_audit_def get_session_def load_sessions_def)

lemma reloaded_snapshot: "snapshot_of (reloaded env sid s) = (snapshot_of s)\<lparr>active_skill_ids := active_skill_ids (reloaded env sid s)\<rparr>"
  by (simp add: reloaded_def restore_skill_context_def detect_skills_def snapshot_of_def Let_def)

lemma stored_loads:
  assumes inv: "api_inv cr key st" and s: "stored_audit (api_store st) sid = Some s"
  shows "\<exists>f. load_flow env sid (api_store st) = (api_store st, Inr (Some (f, []))) \<and>
     snapshot_of f = s\<lparr>active_skill_ids := active_skill_ids f\<rparr> \<and> session_id f = Some sid"
proof -
  have "stored_trail (api_store st) sid = Some (approval_trail s)" using s by (simp add: stored_trail_audit)
  from stored_good [OF inv this] obtain u where u: "holds (api_store st) sid u" "flow_good cr key u" by blast
  then have "status_text u = status_value (machine u)" "artifacts_ok u"
    by (auto simp: flow_good_def audit_inv_def flow_inv_def)
  from load_holds [OF u(1) this] have "load_flow env sid (api_store st) = (api_store st, Inr (Some (reloaded env sid u, [])))" .
  moreover have "session_id (reloaded env sid u) = Some sid"
    by (simp add: reloaded_def restore_skill_context_def detect_skills_def Let_def)
  ultimately show ?thesis using holds_audit [OF u(1)] s reloaded_snapshot [of env sid u] by auto
qed

section \<open>Whose name an entry carries\<close>

definition signs :: "dict \<Rightarrow> bool" where
  "signs extra \<longleftrightarrow> distinct (map fst extra) \<and> ''human'' \<notin> fst ` set extra \<and> ''identity_source'' \<notin> fst ` set extra"

lemma stamp_signed:
  assumes stamp: "stamp_trail env gate human action src extra s = Inr t" and extra: "signs extra"
    and tr: "appended (crypto_of env) (trail_key env) [] (approval_trail s)" "crypto_ok (crypto_of env)"
  shows "\<exists>x. approval_trail t = approval_trail s @ [x] \<and> map_of x ''human'' = Some human \<and>
    map_of x ''identity_source'' = Some src"
proof -
  from stamp_trail_Inr [OF tr(2,1) stamp] obtain x where x: "approval_trail t = approval_trail s @ [x]"
    "same_fields x (stamp_entry (now env) gate human action src extra)" by (auto simp: stamped_with_iff)
  have "map_of extra ''human'' = None" "map_of extra ''identity_source'' = None" "distinct (map fst extra)"
    using extra by (simp_all add: signs_def map_of_eq_None_iff)
  moreover have "''human'' \<notin> set HASH_FIELDS" "''identity_source'' \<notin> set HASH_FIELDS" by (simp_all add: HASH_FIELDS_def)
  ultimately show ?thesis using x by (simp add: same_fields_get(1) [OF x(2)] stamp_entry_field)
qed

lemma provenance_signs:
  assumes "signs a" and "''generation_run_id'' \<notin> fst ` set a" "''generation_prompt_fingerprint'' \<notin> fst ` set a"
    "''generation_model'' \<notin> fst ` set a"
  shows "signs (a @ run_provenance_extra p s)"
  using assms by (cases "latest_run_for_phase p s") (simp_all add: signs_def run_provenance_extra_def)

lemma move_trail: "move m s = Inr t \<Longrightarrow> approval_trail t = approval_trail s"
  by (auto simp: move_iff)

lemma decision_signs: "signs (decision_extra cr d)"
  by (cases "supersedes d"; cases "supersedes d = Some []") (simp_all add: signs_def decision_extra_def)

definition stamps :: "flow_env \<Rightarrow> string \<Rightarrow> string \<Rightarrow> audit_flow \<Rightarrow> audit_flow \<Rightarrow> bool" where
  "stamps env human src f t \<longleftrightarrow> (\<exists>gate action extra s1 s2. stamp_trail env gate human action src extra s1 = Inr s2 \<and>
     signs extra \<and> approval_trail s1 = approval_trail f \<and> approval_trail t = approval_trail s2)"

lemma required_strip: "required_text_of v w = Inr human \<Longrightarrow> human = strip v"
  by (auto simp: required_text_of_def require_text_def of_option_Inr_iff split: if_splits)

lemma approve_stamps:
  assumes "flow_approve_gate env g human src f = Inr t"
  shows "stamps env (strip human) src f t"
proof -
  from assms obtain s1 s2 art where run: "move (Approve g) f = Inr s1"
    "stamp_trail env (gate_label g) (strip human) ''gate_approval'' src
       ([(''artifact'', artifact_field g), (''artifact_digest'', artifact_digest (crypto_of env) art)] @
         sealed_extra (crypto_of env) g f @ run_provenance_extra g s1) s1 = Inr s2"
    "t = s2\<lparr>dossier := approved_dossier g (strip human)\<rparr>"
    by (auto simp: flow_approve_gate_def bindE_Inr_iff Let_def identity_source_of_Inr dest!: required_strip)
  have "signs ([(''artifact'', artifact_field g), (''artifact_digest'', artifact_digest (crypto_of env) art)] @
         sealed_extra (crypto_of env) g f @ run_provenance_extra g s1)"
    unfolding append_assoc [symmetric] by (rule provenance_signs) (simp_all add: signs_def sealed_extra_def)
  with run show ?thesis unfolding stamps_def using move_trail [OF run(1)] by fastforce
qed

lemma retry_stamps:
  assumes "flow_retry_phase env n human src f = Inr t"
  shows "stamps env (strip human) src f t"
proof -
  from assms obtain p s1 s2 where run: "move (Retry p) f = Inr s1"
    "stamp_trail env (''Retry ('' @ phase_label p @ '')'') (strip human) ''retry'' src
       ([(''previous_status'', status_value (machine f)), (''previous_reason'', reason_or_empty (qa_reason s1))] @
         run_provenance_extra p s1) s1 = Inr s2" "approval_trail t = approval_trail s2"
    by (auto simp: flow_retry_phase_def bindE_Inr_iff identity_source_of_Inr dest!: required_strip)
  have "signs ([(''previous_status'', status_value (machine f)), (''previous_reason'', reason_or_empty (qa_reason s1))] @
         run_provenance_extra p s1)"
    by (rule provenance_signs) (simp_all add: signs_def)
  with run show ?thesis unfolding stamps_def using move_trail [OF run(1)] by fastforce
qed

lemma return_stamps:
  assumes "flow_return_for_rework env n human why src f = Inr t"
  shows "stamps env (strip human) src f t"
proof -
  from assms obtain p s1 s2 review where run: "move (Return p) f = Inr s1"
    "stamp_trail env (''Return for rework ('' @ phase_label p @ '')'') (strip human) ''return_for_rework'' src
       ([(''notes'', review), (''artifact'', artifact_field p)] @
           (case artifact_of f p of None \<Rightarrow> [] | Some a \<Rightarrow> [(''artifact_digest'', artifact_digest (crypto_of env) a)]) @
           run_provenance_extra p s1) s1 = Inr s2" "approval_trail t = approval_trail s2"
    by (auto simp: flow_return_for_rework_def bindE_Inr_iff Let_def identity_source_of_Inr dest!: required_strip)
  have "signs ([(''notes'', review), (''artifact'', artifact_field p)] @
           (case artifact_of f p of None \<Rightarrow> [] | Some a \<Rightarrow> [(''artifact_digest'', artifact_digest (crypto_of env) a)]) @
           run_provenance_extra p s1)"
    unfolding append_assoc [symmetric] by (rule provenance_signs) (cases "artifact_of f p"; simp add: signs_def)+
  with run show ?thesis unfolding stamps_def using move_trail [OF run(1)] by fastforce
qed

lemma override_stamps:
  assumes "override_qa_rejection env n human why src f = Inr t"
  shows "stamps env (strip human) src f t"
proof -
  from assms obtain p s1 s2 reason artifact un where run: "move (Override p) f = Inr s1"
    "stamp_trail env (''QA Override ('' @ phase_label p @ '')'') (strip human) ''qa_override'' src
       ([(''reason'', reason), (''qa_rejection_reason'', reason_or_empty (qa_reason f)),
           (''artifact'', artifact_field p), (''artifact_digest'', artifact_digest (crypto_of env) artifact)] @
           (if un \<noteq> [] then [(''unverified_controls'', join_with '','' un)] else []) @
           run_provenance_extra p f) s1 = Inr s2" "approval_trail t = approval_trail s2"
    unfolding override_qa_rejection_def bindE_Inr_iff Let_def
    by (auto simp: identity_source_of_Inr dest!: required_strip)
  have "signs ([(''reason'', reason), (''qa_rejection_reason'', reason_or_empty (qa_reason f)),
           (''artifact'', artifact_field p), (''artifact_digest'', artifact_digest (crypto_of env) artifact)] @
           (if un \<noteq> [] then [(''unverified_controls'', join_with '','' un)] else []) @
           run_provenance_extra p f)"
    unfolding append_assoc [symmetric] by (rule provenance_signs) (cases "un = []"; simp add: signs_def)+
  with run show ?thesis unfolding stamps_def using move_trail [OF run(1)] by fastforce
qed

lemma decision_stamps:
  assumes "record_decision env rq f = Inr t"
  shows "stamps env (strip (rq_decided_by rq)) (rq_identity_source rq) f t"
proof -
  from assms obtain d where d: "build_decision (crypto_of env) (decision_env_of env f) (review_decisions f) rq = Inr d"
    "stamp_trail env (''Review decision ('' @ phase_label (d_phase d) @ '')'') (decided_by d) ''review_decision''
        (source_value (d_identity_source d)) (decision_extra (crypto_of env) d)
        (f\<lparr>review_decisions := review_decisions f @ [d]\<rparr>) = Inr t"
    by (auto simp: record_decision_def result_simps)
  have "by_value source_value all_source (rq_identity_source rq) = Some (d_identity_source d)"
    using d(1) by (auto simp: build_decision_def Let_def bindE_Inr_iff of_option_Inr_iff)
  then have "source_value (d_identity_source d) = rq_identity_source rq" by (simp add: source_label.by_value_eq_iff)
  then show ?thesis
    unfolding stamps_def using d(2) build_decision_facts(3) [OF d(1)] decision_signs [of "crypto_of env" d] by fastforce
qed

lemma op_signed:
  assumes "flow_inv cr key f" "crypto_ok cr" and env: "crypto_of env = cr" "trail_key env = key"
    and op: "op_identity op = Some (name, src)" and step: "flow_step f (env, op) = Inr t"
  shows "\<exists>x. approval_trail t = approval_trail f @ [x] \<and> map_of x ''human'' = Some (strip name) \<and>
    map_of x ''identity_source'' = Some src"
proof -
  have "stamps env (strip name) src f t"
    using op step by (cases op)
      (auto simp: op_identity_def intro: approve_stamps retry_stamps return_stamps override_stamps decision_stamps)
  then obtain gate action extra s1 s2 where stamp: "stamp_trail env gate (strip name) action src extra s1 = Inr s2"
    "signs extra" "approval_trail s1 = approval_trail f" "approval_trail t = approval_trail s2"
    unfolding stamps_def by blast
  have "appended (crypto_of env) (trail_key env) [] (approval_trail s1)" "crypto_ok (crypto_of env)"
    using assms(1,2) env stamp(3) by (simp_all add: flow_inv_def)
  from stamp_signed [OF stamp(1,2) this] stamp(3,4) show ?thesis by simp
qed

section \<open>The tokens file behind the cache\<close>

text \<open>\<open>disk\<close> gives what the tokens file held for a stamp; a request reads the file as it is then.\<close>

definition reads_file :: "(string \<Rightarrow> 'st \<Rightarrow> tokens_file) \<Rightarrow> 'st api_env \<Rightarrow> bool" where
  "reads_file disk env \<longleftrightarrow> (case configured_path (environ (auth_of env)) of None \<Rightarrow> True
     | Some path \<Rightarrow> file_now (auth_of env) = disk path (stamp_now (auth_of env)))"

definition event_reads :: "(string \<Rightarrow> 'st \<Rightarrow> tokens_file) \<Rightarrow> 'st event \<Rightarrow> bool" where
  "event_reads disk ev \<longleftrightarrow> (case ev of Request env sid act \<Rightarrow> reads_file disk env | _ \<Rightarrow> True)"

lemma load_registry_disk:
  assumes "cache_ok disk c" and "load_registry c path stamp (disk path stamp) = Inr (c', es)"
  shows "read_registry (disk path stamp) = Inr es \<and> cache_ok disk c'"
proof -
  have "disk path stamp \<noteq> Missing" using assms(2) by (auto simp: load_registry_def)
  from load_registry_Inr [OF assms(1) this assms(2)] show ?thesis .
qed

lemma check_token_cache: "check_token cr es rq st = (st', r) \<Longrightarrow> cache st' = cache st"
  by (auto simp: check_token_def split: sum.splits limiter_error.splits option.splits prod.splits)

lemma identity_cache:
  assumes "reviewer_identity cr (auth_of env) st = (st', r)" and "cache_ok disk (cache st)" and "reads_file disk env"
  shows "cache_ok disk (cache st')"
proof (cases "configured_path (environ (auth_of env))")
  case None
  with assms show ?thesis by (auto simp: reviewer_identity_def split: if_splits)
next
  case (Some path)
  then have read: "file_now (auth_of env) = disk path (stamp_now (auth_of env))" using assms(3) by (simp add: reads_file_def)
  show ?thesis
  proof (cases "load_registry (cache st) path (stamp_now (auth_of env)) (file_now (auth_of env))")
    case (Inl e)
    with Some assms show ?thesis by (cases e) (auto simp: reviewer_identity_def)
  next
    case (Inr ces)
    obtain c es where ces: "ces = (c, es)" by fastforce
    have "cache_ok disk c" using load_registry_disk [OF assms(2)] Inr ces read by simp
    moreover have "cache st' = c"
      using assms(1) Some Inr ces check_token_cache by (fastforce simp: reviewer_identity_def Let_def split: if_splits)
    ultimately show ?thesis by simp
  qed
qed

lemma auth_frame [simp]:
  "api_auth (set_flow sid f st) = api_auth st" "api_auth (remove_flow sid st) = api_auth st"
  "api_auth (repo_save env sid f st) = api_auth st" "api_auth (submit_phase sid p st) = api_auth st"
  by (simp_all add: set_flow_def remove_flow_def repo_save_def submit_phase_def)

lemma load_auth: "get_or_load_flow env sid st = (st', r) \<Longrightarrow> api_auth st' = api_auth st"
  by (auto simp: get_or_load_flow_def Let_def split: option.splits prod.splits sum.splits)

lemma act_auth:
  assumes "act_on_flow env sid operation error after st = (st', r)" and "\<And>f s. api_auth (after f s) = api_auth s"
  shows "api_auth st' = api_auth st"
proof -
  obtain st1 q where q: "require_session sid st = (st1, q)" "api_auth st1 = api_auth st"
    by (cases "require_session sid st") (auto simp: require_session_def split: prod.splits)
  obtain st2 w where w: "require_flow env sid st1 = (st2, w)" "api_auth st2 = api_auth st1"
    using load_auth by (cases "require_flow env sid st1") (fastforce simp: require_flow_def split: prod.splits)
  show ?thesis using assms q w by (auto simp: act_on_flow_def Let_def split: sum.splits)
qed

lemma create_auth: "create_and_launch env th ctx fws nm who st = (st', r) \<Longrightarrow> api_auth st' = api_auth st"
  by (auto simp: create_and_launch_def Let_def split: sum.splits)

lemma delete_auth: "delete_audit env sid who st = (st', r) \<Longrightarrow> api_auth st' = api_auth st"
  by (auto simp: delete_audit_def Let_def split: prod.splits if_splits)

lemma perform_auth:
  assumes run: "perform env sid act who st = (st', r)"
  shows "api_auth st' = api_auth st"
proof (cases "reviewing act")
  case True
  then show ?thesis using run by (cases rule: perform_cases [of act env sid who]) (auto elim: act_auth)
next
  case False
  with run show ?thesis by (cases act) (auto simp: reviewing_def dest: create_auth delete_auth)
qed

lemma run_phase_auth: "api_auth (run_phase env re dump i st) = api_auth st"
  by (auto simp: run_phase_def Let_def dest!: load_auth split: prod.split sum.split option.split)

lemma restart_cache: "cache (api_auth (restart l st)) = []"
  by (simp add: restart_def)

lemma step_cache:
  assumes "api_step cr key st ev = Inr st'" and "cache_ok disk (cache (api_auth st))" and "event_reads disk ev"
  shows "cache_ok disk (cache (api_auth st'))"
proof (cases ev)
  case (Request env sid act)
  with assms have st': "st' = fst (handle env sid act st)" and reads: "reads_file disk env"
    by (auto simp: api_step_def event_reads_def split: if_splits)
  obtain a w where id: "reviewer_identity (api_crypto env) (auth_of env) (api_auth st) = (a, w)" by fastforce
  have "api_auth (fst (perform env sid act who (st\<lparr>api_auth := a\<rparr>))) = a" for who
    by (simp add: perform_auth [OF surjective_pairing])
  then have "api_auth st' = a"
    unfolding st' using id by (simp add: handle_def Let_def split: sum.split)
  with identity_cache [OF id assms(2) reads] show ?thesis by simp
next
  case (Run env re dump i)
  with assms show ?thesis by (auto simp: api_step_def run_phase_auth split: if_splits)
next
  case (Restart l)
  with assms show ?thesis by (auto simp: api_step_def restart_cache)
qed

lemma service_cache:
  "cache_ok disk (cache (api_auth st)) \<Longrightarrow> list_all (event_reads disk) evs \<Longrightarrow>
     cache_ok disk (cache (api_auth (service_after cr key st evs)))"
proof (induction evs arbitrary: st)
  case (Cons ev evs)
  have "cache_ok disk (cache (api_auth (attempt (api_step cr key) st ev)))"
    using Cons.prems step_cache by (fastforce simp: attempt_def split: sum.splits)
  with Cons show ?case by (simp add: service_after_def)
qed (simp add: service_after_def)

section \<open>Who a recorded entry names\<close>

lemma handle_success:
  assumes "handle env sid act st = (st', Inr status)"
  shows "\<exists>a who recorded_as. reviewer_identity (api_crypto env) (auth_of env) (api_auth st) = (a, Inr who) \<and>
    resolve who (Some (fst (typed_name act))) (snd (typed_name act)) = Inr recorded_as \<and>
    perform env sid act recorded_as (st\<lparr>api_auth := a\<rparr>) = (st', Inr status)"
  using assms by (auto simp: handle_def Let_def split: prod.splits sum.splits if_splits)

lemma join_ends:
  "ws \<noteq> [] \<Longrightarrow> (\<And>w. w \<in> set ws \<Longrightarrow> w \<noteq> []) \<Longrightarrow>
     join_with sep ws \<noteq> [] \<and> hd (join_with sep ws) = hd (hd ws) \<and> last (join_with sep ws) = last (last ws)"
  by (induction sep ws rule: join_with.induct) auto

lemma strip_ends: "\<not> is_space (hd s) \<Longrightarrow> \<not> is_space (last s) \<Longrightarrow> strip s = s"
proof -
  assume "\<not> is_space (hd s)" "\<not> is_space (last s)"
  then have "dropWhile is_space s = s" "dropWhile is_space (rev s) = rev s" by (simp_all add: dropWhile_eq_self_iff hd_rev)
  then show ?thesis by (simp add: strip_def lstrip_def)
qed

lemma strip_clean_name: "strip (clean_name v) = clean_name v"
proof (cases "py_split v = []")
  case False
  have words: "w \<noteq> [] \<and> (\<forall>c\<in>set w. \<not> is_space c)" if "w \<in> set (py_split v)" for w
    using that split_ws_words [of "[]" w v] by simp
  have "\<not> is_space (hd (hd (py_split v)))" "\<not> is_space (last (last (py_split v)))"
    using False words [of "hd (py_split v)"] words [of "last (py_split v)"] by simp_all
  then show ?thesis using join_ends [OF False, of "'' ''"] words unfolding clean_name_def by (intro strip_ends) simp_all
qed (simp add: clean_name_def strip_def lstrip_def)

lemma registry_names_clean: "registry_ok es \<Longrightarrow> e \<in> set es \<Longrightarrow> strip (re_name e) = re_name e"
  using registry_clean [of es e] strip_clean_name [of "re_name e"] by simp

lemma token_identity:
  assumes id: "reviewer_identity cr (auth_of env) a0 = (a, Inr who)" and cached: "cache_ok disk (cache a0)"
    and reads: "reads_file disk env"
    and needed: "configured_path (environ (auth_of env)) \<noteq> None \<or> reviewer_tokens_mandatory (environ (auth_of env))"
  shows "\<exists>path token es e. configured_path (environ (auth_of env)) = Some path \<and> reviewer_token (auth_of env) = Some token \<and>
    read_registry (disk path (stamp_now (auth_of env))) = Inr es \<and> e \<in> set es \<and> token_hash e = hash_token cr token \<and>
    who = Some (re_name e) \<and> strip (re_name e) = re_name e"
proof -
  obtain path n c es where p: "configured_path (environ (auth_of env)) = Some path" "who = Some n"
    "load_registry (cache a0) path (stamp_now (auth_of env)) (file_now (auth_of env)) = Inr (c, es)"
    "authenticate cr es (reviewer_token (auth_of env)) = Some n"
    using reviewer_identity_Inr [OF id] needed by (auto split: option.splits)
  have es: "read_registry (disk path (stamp_now (auth_of env))) = Inr es"
    using load_registry_disk [OF cached, of path "stamp_now (auth_of env)" c es] p reads by (simp add: reads_file_def)
  obtain token where token: "reviewer_token (auth_of env) = Some token"
    using p(4) by (cases "reviewer_token (auth_of env)") (auto simp: authenticate_def)
  have ok: "registry_ok es" using read_registry_ok [OF es] .
  obtain e where "e \<in> set es" "token_hash e = hash_token cr token" "re_name e = n"
    using p(4) authenticate_iff [OF ok] token by auto
  with p es token registry_names_clean [OF ok] show ?thesis by auto
qed

lemma review_recorded:
  assumes inv: "api_inv cr key st" and ok: "env_ok cr key st env" and act: "reviewing act"
    and run: "perform env sid act (name, src) st = (st', Inr status)"
  shows "\<exists>tr x. stored_trail (api_store st) sid = Some tr \<and> stored_trail (api_store st') sid = Some (tr @ [x]) \<and>
    map_of x ''human'' = Some (strip name) \<and> map_of x ''identity_source'' = Some src"
  using act
proof (cases rule: perform_cases [of act env sid "(name, src)"])
  case refused
  with run show ?thesis by simp
next
  case (acts op err after)
  obtain f t where f: "stored_trail (api_store st) sid = Some (approval_trail f)" "flow_good cr key f"
    "flow_step f (flow_of env, op) = Inr t" "stored_trail (api_store st') sid = Some (approval_trail t)"
    using act_on_flow_inv(2) [OF inv ok acts(3) run [unfolded acts(1)] _ refl] acts(4) by blast
  have "flow_inv cr key f" "crypto_ok cr" using f(2) by (auto simp: flow_good_def audit_inv_def)
  from op_signed [OF this _ _ acts(2) f(3)] ok f show ?thesis by (auto simp: env_ok_def api_crypto_def)
qed

section \<open>Properties of the service\<close>

text \<open>C8. [stored_trail_verifies] After any requests, runs and restarts of the service, verifying a stored
  audit against its snapshot and the anchor on disk reports no problem and counts every entry.\<close>

theorem stored_trail_verifies:
  assumes "crypto_ok cr" and "st = service_after cr key (new_service l) evs"
    and "stored_trail (api_store st) sid = Some tr" "tr \<noteq> []"
    and "crypto_of env = cr" "trail_key env = key"
  shows "\<exists>v. verify_session_trail env sid (api_store st) = Inr (Some v) \<and>
     v_ok v \<and> v_status v = STATUS_OK \<and> v_entries v = length tr"
  using stored_verifies [OF service_inv] assms by metis

lemma stored_trail_verifies_witness:
  "\<exists>v. verify_session_trail (demo_flow_env ''d9'') ''s'' (api_store demo_planned) = Inr (Some v) \<and>
     v_ok v \<and> v_status v = STATUS_OK \<and> v_entries v = 1"
proof -
  obtain x where "stored_trail (api_store demo_planned) ''s'' = Some [x]" using demo_planned_trail by blast
  from stored_trail_verifies [OF toy_sha_ok _ this, of "Some ''k''" demo_limiter "[demo_create, demo_planning]" "demo_flow_env ''d9''"]
  show ?thesis by (simp add: demo_planned_def demo_service_def)
qed

text \<open>C9. [signed_off_kept] Once the stored trail of an audit holds a gate approval, no later request, run or
  restart removes the audit or changes what its trail says: the trail is only appended to.\<close>

theorem signed_off_kept:
  assumes "crypto_ok cr" and "st = service_after cr key (new_service l) evs"
    and "stored_trail (api_store st) sid = Some tr" "approvals_in tr \<noteq> []"
  shows "\<exists>tr'. stored_trail (api_store (service_after cr key st later)) sid = Some tr' \<and> prefix tr tr'"
proof -
  have "api_inv cr key st" using service_inv [OF assms(1)] assms(2) by simp
  from service.attempts_log [OF this, of sid later]
  have "prefix tr (signed_trail sid (service_after cr key st later))"
    using assms(3,4) by (simp add: signed_trail_def service_after_def)
  moreover have "tr \<noteq> []" using assms(4) by (auto simp: approvals_in_def)
  ultimately show ?thesis by (auto simp: signed_trail_def split: option.splits if_splits)
qed

lemma signed_off_kept_witness:
  "\<exists>tr'. stored_trail (api_store (service_after toy_sha (Some ''k'') demo_signed
      [Restart demo_limiter, Request demo_reviewer_env ''s'' (Delete_action ''ann'')])) ''s'' = Some tr' \<and> tr' \<noteq> []"
proof -
  obtain tr where tr: "stored_trail (api_store demo_signed) ''s'' = Some tr" "approvals_in tr \<noteq> []"
    using demo_signed_trail by blast
  from signed_off_kept [OF toy_sha_ok _ this] have
    "\<exists>tr'. stored_trail (api_store (service_after toy_sha (Some ''k'') demo_signed
      [Restart demo_limiter, Request demo_reviewer_env ''s'' (Delete_action ''ann'')])) ''s'' = Some tr' \<and> prefix tr tr'"
    unfolding demo_signed_def demo_service_def by blast
  then show ?thesis using tr(2) by (auto simp: approvals_in_def)
qed

text \<open>C7. [recorded_identity] Where reviewer tokens are configured or mandatory, an accepted reviewing request
  adds exactly one entry to the stored trail, and it names the person the tokens file lists for the
  presented token, as authenticated, whatever name was typed. The file's stamp is assumed to tell its content.\<close>

theorem recorded_identity:
  assumes "crypto_ok cr" and "st = service_after cr key (new_service l) evs"
    and "list_all (event_reads disk) evs" "reads_file disk env" and "env_ok cr key st env"
    and "configured_path (environ (auth_of env)) \<noteq> None \<or> reviewer_tokens_mandatory (environ (auth_of env))"
    and "reviewing act" and "handle env sid act st = (st', Inr status)"
  shows "\<exists>path token es e tr x. configured_path (environ (auth_of env)) = Some path \<and>
    reviewer_token (auth_of env) = Some token \<and> read_registry (disk path (stamp_now (auth_of env))) = Inr es \<and>
    e \<in> set es \<and> token_hash e = hash_token cr token \<and>
    stored_trail (api_store st) sid = Some tr \<and> stored_trail (api_store st') sid = Some (tr @ [x]) \<and>
    map_of x ''human'' = Some (re_name e) \<and> map_of x ''identity_source'' = Some ''authenticated''"
proof -
  have inv: "api_inv cr key st" using service_inv [OF assms(1)] assms(2) by simp
  have cached: "cache_ok disk (cache (api_auth st))"
    using service_cache [of disk "new_service l" evs] assms(2,3) by (simp add: new_service_def)
  obtain a who name src where run: "reviewer_identity (api_crypto env) (auth_of env) (api_auth st) = (a, Inr who)"
    "resolve who (Some (fst (typed_name act))) (snd (typed_name act)) = Inr (name, src)"
    "perform env sid act (name, src) (st\<lparr>api_auth := a\<rparr>) = (st', Inr status)"
    using handle_success [OF assms(8)] by auto
  obtain path token es e where t: "configured_path (environ (auth_of env)) = Some path" "reviewer_token (auth_of env) = Some token"
    "read_registry (disk path (stamp_now (auth_of env))) = Inr es" "e \<in> set es" "token_hash e = hash_token cr token"
    "who = Some (re_name e)" "strip (re_name e) = re_name e"
    using token_identity [OF run(1) cached assms(4,6)] assms(5) by (auto simp: env_ok_def)
  have "name = re_name e" "src = ''authenticated''" using run(2) t(6) by (simp_all add: resolve_Inr)
  moreover have "api_inv cr key (st\<lparr>api_auth := a\<rparr>)" "env_ok cr key (st\<lparr>api_auth := a\<rparr>) env"
    using inv assms(5) by (simp_all add: api_inv_auth env_ok_auth)
  ultimately show ?thesis using review_recorded [OF _ _ assms(7) run(3)] t by auto
qed

lemma demo_planned_eq: "demo_planned = service_after toy_sha (Some ''k'') (new_service demo_limiter) [demo_create, demo_planning]"
  by (simp add: demo_planned_def demo_service_def)

lemma recorded_identity_witness:
  "\<exists>st' status tr x. handle demo_reviewer_env ''s'' (Approve_action 1 ''ann'') demo_planned = (st', Inr status) \<and>
     stored_trail (api_store st') ''s'' = Some (tr @ [x]) \<and> map_of x ''human'' = Some ''ann'' \<and>
     map_of x ''identity_source'' = Some ''authenticated''"
proof -
  obtain st' status where run: "handle demo_reviewer_env ''s'' (Approve_action 1 ''ann'') demo_planned = (st', Inr status)"
    using demo_approved_request by blast
  have reads: "list_all (event_reads (\<lambda>path stamp. toy_tokens)) [demo_create, demo_planning]"
    "reads_file (\<lambda>path stamp. toy_tokens) demo_reviewer_env"
    by (simp_all add: event_reads_def reads_file_def demo_create_def demo_planning_def demo_reviewer_env_def demo_api_env_def
        split: option.split)
  have "reviewing (Approve_action 1 ''ann'')" by (simp add: reviewing_def)
  from recorded_identity [OF toy_sha_ok demo_planned_eq reads(1,2) demo_reviewer_ok _ this run] demo_reviewer_path
  obtain es e tr x where "read_registry toy_tokens = Inr es" "e \<in> set es" "stored_trail (api_store st') ''s'' = Some (tr @ [x])"
    "map_of x ''human'' = Some (re_name e)" "map_of x ''identity_source'' = Some ''authenticated''"
    by auto
  with run toy_read show ?thesis by (auto simp: toy_entry_def)
qed

text \<open>C32. [restart_roundtrip] A restart loses nothing that was saved: every audit on disk is read back without
  an artifact being skipped and, the detected skills aside, equal to its snapshot.\<close>

theorem restart_roundtrip:
  assumes "crypto_ok cr" and "st = restart l' (service_after cr key (new_service l) evs)"
    and "stored_audit (api_store st) sid = Some s"
  shows "\<exists>f. load_flow env sid (api_store st) = (api_store st, Inr (Some (f, []))) \<and>
     snapshot_of f = s\<lparr>active_skill_ids := active_skill_ids f\<rparr> \<and> session_id f = Some sid"
proof -
  have "api_inv cr key st" unfolding assms(2) using restart_inv [OF service_inv [OF assms(1)]] unfolding advances_def by blast
  from stored_loads [OF this assms(3)] show ?thesis .
qed

lemma restart_roundtrip_witness:
  "\<exists>s f. stored_audit (api_store (restart demo_limiter demo_planned)) ''s'' = Some s \<and>
     load_flow (demo_flow_env ''d9'') ''s'' (api_store (restart demo_limiter demo_planned)) =
       (api_store (restart demo_limiter demo_planned), Inr (Some (f, []))) \<and> approval_trail f = approval_trail s"
proof -
  have "stored_audit (api_store (restart demo_limiter demo_planned)) ''s'' \<noteq> None"
    using demo_planned_trail by (auto simp: stored_trail_audit restart_def)
  then obtain s where s: "stored_audit (api_store (restart demo_limiter demo_planned)) ''s'' = Some s" by blast
  from restart_roundtrip [OF toy_sha_ok _ this, of demo_limiter "Some ''k''" demo_limiter "[demo_create, demo_planning]" "demo_flow_env ''d9''"]
  obtain f where f: "load_flow (demo_flow_env ''d9'') ''s'' (api_store (restart demo_limiter demo_planned)) =
      (api_store (restart demo_limiter demo_planned), Inr (Some (f, [])))"
    "snapshot_of f = s\<lparr>active_skill_ids := active_skill_ids f\<rparr>"
    by (auto simp: demo_planned_def demo_service_def)
  have "approval_trail (snapshot_of f) = approval_trail f" by (simp add: snapshot_of_def)
  then show ?thesis using s f by simp
qed

text \<open>
  An anchor that was saved is the head of the trail it was saved for, and the trail
  extends the one that was anchored before: it is at least as long and holds the old head at the
  old place. Saving that is refused writes nothing, and no other session's anchor changes.
\<close>

lemma anchor_moves_forward:
  assumes "save_trail_anchor cr key time sid tr st = Inr (st', b)"
  shows "(b \<longrightarrow> tr \<noteq> [] \<and> get_trail_anchor sid st' = Some (int (length tr), entry_hash (last tr)) \<and>
      (\<forall>n h. get_trail_anchor sid st = Some (n, h) \<and> 0 < n \<longrightarrow>
         nat n \<le> length tr \<and> entry_hash (tr ! (nat n - 1)) = h)) \<and>
    (\<not> b \<longrightarrow> st' = st) \<and> sessions_file st' = sessions_file st \<and>
    (\<forall>other. other \<noteq> sid \<longrightarrow> get_trail_anchor other st' = get_trail_anchor other st)"
  using assms by (rule save_trail_anchor_facts)

lemma anchor_moves_forward_witness:
  "\<exists>st'. save_trail_anchor toy_crypto (Some ''k'') ''t0'' ''s'' (approval_trail demo_created)
      \<lparr>sessions_file = No_file, anchors_file = No_file, corrupt_backups = 0\<rparr> = Inr (st', True) \<and>
     get_trail_anchor ''s'' st' = Some (1, entry_hash (last (approval_trail demo_created))) \<and>
     get_trail_anchor ''other'' st' = None"
proof -
  let ?st = "\<lparr>sessions_file = No_file, anchors_file = No_file, corrupt_backups = 0\<rparr>"
  have inv: "flow_inv toy_crypto (Some ''k'') demo_created"
    using reachable_inv [OF toy_crypto_ok] by (simp add: demo_created_def demo_start_def)
  have len: "length (approval_trail demo_created) = 1" "approval_trail demo_created \<noteq> []"
    using demo_created_trail(1) by auto
  have none: "get_trail_anchor sid ?st = None" for sid by (simp add: get_trail_anchor_def load_anchors_def)
  then obtain st' where st': "save_trail_anchor toy_crypto (Some ''k'') ''t0'' ''s'' (approval_trail demo_created) ?st = Inr (st', True)"
    using anchor_extends [of toy_crypto "Some ''k''" "approval_trail demo_created" "''s''" ?st 0 "''t0''"] inv len
    by (auto simp: flow_inv_def anchor_at_def)
  from anchor_moves_forward [OF this] none [of "''other''"] len(1) show ?thesis by (simp add: st')
qed

end
