(* ===== verification/ApiLive.thy ===== *)
theory ApiLive
  imports ApiProps
begin

text \<open>
  What becomes of an audit whose run is lost. A phase runs on a thread of the process; no endpoint
  accepts an audit whose status says that it is running, and nothing submits the run again.
\<close>

section \<open>What a request does to the other sessions\<close>

definition untouched :: "string \<Rightarrow> 'st api \<Rightarrow> 'st api \<Rightarrow> bool" where
  "untouched sid st st' \<longleftrightarrow> (\<forall>s. holds (api_store st') sid s = holds (api_store st) sid s) \<and>
     map_of (api_flows st') sid = map_of (api_flows st) sid \<and>
     (sid \<in> fst ` set (api_queue st') \<longrightarrow> sid \<in> fst ` set (api_queue st))"

lemma untouched_refl [simp]: "untouched sid st st"
  by (simp add: untouched_def)

lemma untouched_trans: "untouched sid st st' \<Longrightarrow> untouched sid st' st'' \<Longrightarrow> untouched sid st st''"
  by (simp add: untouched_def)

lemma untouched_auth [simp]: "untouched sid st (st'\<lparr>api_auth := a\<rparr>) = untouched sid st st'"
  "untouched sid (st\<lparr>api_auth := a\<rparr>) st' = untouched sid st st'"
  by (simp_all add: untouched_def)

lemma load_frame:
  assumes inv: "api_inv cr key st" and load: "get_or_load_flow env sid st = (st', r)"
  shows "api_store st' = api_store st" "api_queue st' = api_queue st"
    "other \<noteq> sid \<Longrightarrow> map_of (api_flows st') other = map_of (api_flows st) other"
    "api_inv cr key st'"
proof -
  have readable_file: "sessions_file (api_store st) \<noteq> Corrupt" using inv by (simp add: api_inv_def)
  from load show "api_store st' = api_store st" "api_queue st' = api_queue st"
    "other \<noteq> sid \<Longrightarrow> map_of (api_flows st') other = map_of (api_flows st) other"
    using get_session_store [OF readable_file, of sid]
    by (auto simp: get_or_load_flow_def load_flow_def set_flow_def Let_def split: option.splits prod.splits sum.splits)
  show "api_inv cr key st'"
  proof (cases "known (api_store st) sid")
    case True
    from load_flow_inv(1) [OF inv True, of env] load show ?thesis by auto
  next
    case False
    from load_flow_inv(2) [OF inv False, of env] load inv show ?thesis by simp
  qed
qed

lemma save_frame:
  assumes "other \<noteq> sid"
  shows "holds (api_store (repo_save env sid f st)) other s = holds (api_store st) other s"
    "api_flows (repo_save env sid f st) = api_flows st" "api_queue (repo_save env sid f st) = api_queue st"
proof -
  show "api_flows (repo_save env sid f st) = api_flows st" "api_queue (repo_save env sid f st) = api_queue st"
    by (simp_all add: repo_save_def)
  show "holds (api_store (repo_save env sid f st)) other s = holds (api_store st) other s"
  proof (cases "known (api_store st) sid")
    case True
    from save_flow_holds [OF this, of "api_crypto env" "trail_key (flow_of env)" "wall_clock env" f] assms
    show ?thesis by (auto simp: repo_save_def)
  next
    case False
    obtain st' b where "update_session sid [(''scope_text'', Text (business_context f)), (''scope_preview'', Text (py_take 200 (business_context f))),
             (''status'', Text (status_text f)), (''state_snapshot'', Snapshot (snapshot_of f))] (api_store st) = (st', b)" by fastforce
    with update_session_unknown [OF False this] show ?thesis by (simp add: repo_save_def save_flow_def)
  qed
qed

lemma act_other:
  assumes inv: "api_inv cr key st" and run: "act_on_flow env sid operation err after st = (st', r)" and other: "other \<noteq> sid"
    and after: "\<And>f s. api_store (after f s) = api_store s \<and> api_flows (after f s) = api_flows s \<and>
      fst ` set (api_queue (after f s)) \<subseteq> insert sid (fst ` set (api_queue s))"
  shows "untouched other st st'"
proof (cases "known (api_store st) sid")
  case False
  with run show ?thesis by (simp add: act_on_flow_def require_session_inv [OF inv])
next
  case True
  obtain st2 q where flow: "get_or_load_flow env sid st = (st2, q)" by fastforce
  note frame = load_frame [OF inv flow]
  obtain q' where flow': "require_flow env sid st = (st2, q')" using flow by (simp add: require_flow_def)
  have two: "untouched other st st2" using frame(1,2) frame(3) [OF other] by (simp add: untouched_def)
  have "untouched other st (after t (repo_save env sid t (st2\<lparr>api_flows := dict_set sid t (api_flows st2)\<rparr>)))" for t
    using frame(1,2) frame(3) [OF other] other after [of t "repo_save env sid t (st2\<lparr>api_flows := dict_set sid t (api_flows st2)\<rparr>)"]
    by (auto simp: untouched_def save_frame [OF other])
  with two show ?thesis using run flow' True
    by (auto simp: act_on_flow_def require_session_inv [OF inv] Let_def split: sum.splits)
qed

lemma create_other:
  assumes inv: "api_inv cr key st" and run: "create_and_launch env th ctx fws nm who st = (st', r)"
    and new: "\<not> known (api_store st) (new_session_id env)" and other: "other \<noteq> new_session_id env"
  shows "untouched other st st'"
proof -
  have readable_file: "sessions_file (api_store st) \<noteq> Corrupt" using inv by (simp add: api_inv_def)
  note made = save_session_facts(3) [OF readable_file new other]
  show ?thesis using run other
    by (auto simp: create_and_launch_def Let_def untouched_def submit_phase_def save_frame [OF other] made set_flow_def
        split: sum.splits)
qed

lemma delete_other:
  assumes inv: "api_inv cr key st" and run: "delete_audit env sid who st = (st', r)" and other: "other \<noteq> sid"
  shows "untouched other st st'"
proof -
  have readable_file: "sessions_file (api_store st) \<noteq> Corrupt" using inv by (simp add: api_inv_def)
  obtain d where same: "get_session sid (api_store st) = (api_store st, d)" using get_session_store [OF readable_file, of sid] by metis
  show ?thesis using run other delete_session_facts(3) [OF other]
    by (auto simp: delete_audit_def Let_def same untouched_def remove_flow_def delete_conv' split: if_splits)
qed

lemma run_other:
  assumes inv: "api_inv cr key st" and other: "i < length (api_queue st) \<Longrightarrow> other \<noteq> fst (api_queue st ! i)"
  shows "untouched other st (run_phase env re dump i st)"
proof (cases "length (api_queue st) \<le> i")
  case True
  then show ?thesis by (simp add: run_phase_def)
next
  case False
  obtain sid p where job: "api_queue st ! i = (sid, p)" by fastforce
  then have other: "other \<noteq> sid" using other False by simp
  let ?popped = "st\<lparr>api_queue := take i (api_queue st) @ drop (Suc i) (api_queue st)\<rparr>"
  have inv': "api_inv cr key ?popped" using inv by (simp add: api_inv_cong [of ?popped st])
  obtain st1 q where load: "get_or_load_flow env sid ?popped = (st1, q)" by fastforce
  note frame = load_frame [OF inv' load]
  have queue: "fst ` set (api_queue st1) \<subseteq> fst ` set (api_queue st)"
    using frame(2) set_take_subset [of i "api_queue st"] set_drop_subset [of "Suc i" "api_queue st"] by auto
  have one: "untouched other st st1" using frame(1) frame(3) [OF other] queue by (auto simp: untouched_def)
  moreover have "untouched other st (st1\<lparr>api_flows := dict_set sid f (api_flows st1)\<rparr>)" for f
    using one other by (simp add: untouched_def)
  moreover have "untouched other st (repo_save env sid f (st1\<lparr>api_flows := dict_set sid f (api_flows st1)\<rparr>))" for f
    using one other by (simp add: untouched_def save_frame [OF other])
  ultimately show ?thesis using False job load
    by (auto simp: run_phase_def Let_def split: sum.split option.split)
qed

section \<open>An audit whose run is lost\<close>

definition stranded :: "string \<Rightarrow> audit_flow \<Rightarrow> 'st api \<Rightarrow> bool" where
  "stranded sid s st \<longleftrightarrow> holds (api_store st) sid s \<and> machine s \<in> {RUNNING_PHASE P2, RUNNING_PHASE P3} \<and>
     status_text s = status_value (machine s) \<and> artifacts_ok s \<and>
     (\<forall>f. map_of (api_flows st) sid = Some f \<longrightarrow> same_audit s f) \<and> sid \<notin> fst ` set (api_queue st)"

lemma stranded_untouched: "stranded sid s st \<Longrightarrow> untouched sid st st' \<Longrightarrow> stranded sid s st'"
  by (auto simp: stranded_def untouched_def)

text \<open>No reviewing operation accepts a running audit.\<close>

lemma running_refuses:
  assumes "machine f = RUNNING_PHASE p" and "op_identity op = Some who"
  shows "\<exists>e. flow_step f (env, op) = Inl e"
proof (rule ccontr)
  assume "\<nexists>e. flow_step f (env, op) = Inl e"
  then obtain t where t: "flow_step f (env, op) = Inr t" by (cases "flow_step f (env, op)") auto
  show False
  proof (cases op)
    case (Record_decision rq)
    with t obtain d where d: "build_decision (crypto_of env) (decision_env_of env f) (review_decisions f) rq = Inr d"
      by (auto simp: record_decision_def result_simps)
    have "decision_status_violation (dtype_value (d_decision_type d)) (status_value (machine f)) = None"
      using build_decision_facts(4) [OF d] by (simp add: decision_env_of_def)
    then show False unfolding status_violation_iff by (simp add: assms(1) split: decision_type.splits)
  qed (use t assms in \<open>auto simp: op_identity_def flow_approve_gate_def flow_retry_phase_def flow_return_for_rework_def
      override_qa_rejection_def bindE_Inr_iff Let_def move_iff elim: lifecycle_elims\<close>)
qed

lemma stranded_load:
  assumes "stranded sid s st"
  shows "\<exists>st' f. get_or_load_flow env sid st = (st', Inr (Some f)) \<and> require_flow env sid st = (st', Inr f) \<and>
    machine f = machine s \<and> stranded sid s st'"
proof (cases "map_of (api_flows st) sid")
  case (Some f)
  then have "same_audit s f" using assms by (simp add: stranded_def)
  with Some assms show ?thesis by (simp add: get_or_load_flow_def require_flow_def same_audit_def)
next
  case None
  let ?f = "(reloaded (flow_of env) sid s)\<lparr>session_id := Some sid\<rparr>"
  have s: "holds (api_store st) sid s" "status_text s = status_value (machine s)" "artifacts_ok s"
    using assms by (simp_all add: stranded_def)
  have same: "same_audit s ?f" using same_audit_memory(2) [of s "flow_of env" sid] by (simp add: same_audit_def)
  have load: "get_or_load_flow env sid st = (set_flow sid (reloaded (flow_of env) sid s) st, Inr (Some ?f))"
    using None load_holds [OF s, of "flow_of env"] by (simp add: get_or_load_flow_def)
  have "stranded sid s (set_flow sid (reloaded (flow_of env) sid s) st)"
    using assms same by (simp add: stranded_def set_flow_def)
  then show ?thesis using load same by (simp add: require_flow_def same_audit_def)
qed

lemma stranded_act:
  assumes inv: "api_inv cr key st" and s: "stranded sid s st" and who: "op_identity op = Some who"
    and run: "act_on_flow env sid (\<lambda>f. flow_step f (flow_of env, op)) err after st = (st', r)"
  shows "stranded sid s st'"
proof -
  obtain st2 f where f: "require_flow env sid st = (st2, Inr f)" "machine f = machine s" "stranded sid s st2"
    using stranded_load [OF s, of env] by blast
  obtain p where "machine f = RUNNING_PHASE p" using f(2) s by (auto simp: stranded_def)
  from running_refuses [OF this who] obtain e where "flow_step f (flow_of env, op) = Inl e" by blast
  then show ?thesis using run f(1,3) s by (auto simp: act_on_flow_def require_session_inv [OF inv] split: if_splits)
qed

lemma running_signed_off: "m \<in> {RUNNING_PHASE P2, RUNNING_PHASE P3} \<Longrightarrow> signed_off (status_value m) tr"
  by (auto simp: signed_off_def phase_from_status_def)

lemma stranded_delete:
  assumes s: "stranded sid s st" and run: "delete_audit env sid who st = (st', r)"
  shows "stranded sid s st'"
proof -
  obtain d e where d: "sessions_file (api_store st) = Holds d" "map_of d sid = Some e"
    "map_of e ''state_snapshot'' = Some (Snapshot (snapshot_of s))"
    using s by (auto simp: stranded_def holds_def)
  have "signed_off (status_text s) (approval_trail s)" "status_text s \<noteq> []"
    using s running_signed_off by (auto simp: stranded_def)
  then have "has_sign_off sid e st" using d(3) by (simp add: has_sign_off_def snapshot_of_def)
  moreover have "e \<noteq> []" using d(3) by auto
  ultimately have "st' = st" using run d by (auto simp: delete_audit_def get_session_def load_sessions_def split: if_splits)
  with s show ?thesis by simp
qed

lemma stranded_perform:
  assumes inv: "api_inv cr key st" and ok: "env_ok cr key st env" and s: "stranded sid s st"
    and run: "perform env target act who st = (st', r)"
  shows "stranded sid s st'"
proof (cases "reviewing act")
  case True
  then show ?thesis
  proof (cases rule: perform_cases [of act env target who])
    case refused
    with run s show ?thesis by simp
  next
    case (acts op err after)
    show ?thesis
    proof (cases "target = sid")
      case True
      with stranded_act [OF inv s acts(2)] run acts(1) show ?thesis by auto
    next
      case False
      have "untouched sid st st'" by (rule act_other [OF inv run [unfolded acts(1)]]) (use False acts(4) in auto)
      with s show ?thesis by (rule stranded_untouched)
    qed
  qed
next
  case False
  then consider (Create) th ctx fws nm typed where "act = Create th ctx fws nm typed" | (Delete) typed where "act = Delete_action typed"
    by (cases act) (auto simp: reviewing_def)
  then show ?thesis
  proof cases
    case Create
    have known: "known (api_store st) sid" using s by (auto simp: stranded_def holds_def known_def)
    have new: "\<not> known (api_store st) (new_session_id env)" using ok by (simp add: env_ok_def session_known_iff)
    with known have "sid \<noteq> new_session_id env" by auto
    from create_other [OF inv _ new this] run Create have "untouched sid st st'" by simp
    with s show ?thesis by (rule stranded_untouched)
  next
    case Delete
    then have del: "delete_audit env target who st = (st', r)" using run by simp
    show ?thesis
    proof (cases "target = sid")
      case True
      with del stranded_delete [OF s] show ?thesis by simp
    next
      case False
      with delete_other [OF inv del] s show ?thesis by (auto intro: stranded_untouched)
    qed
  qed
qed

lemma stranded_auth [simp]: "stranded sid s (st\<lparr>api_auth := a\<rparr>) = stranded sid s st"
  by (simp add: stranded_def)

lemma stranded_step:
  assumes inv: "api_inv cr key st" and s: "stranded sid s st" and step: "api_step cr key st ev = Inr st'"
  shows "stranded sid s st'"
proof (cases ev)
  case (Request env target act)
  with step have st': "st' = fst (handle env target act st)" and ok: "env_ok cr key st env"
    by (auto simp: api_step_def split: if_splits)
  have "stranded sid s (fst (perform env target act who (st\<lparr>api_auth := a\<rparr>)))" for who a
    using stranded_perform [of cr key "st\<lparr>api_auth := a\<rparr>" env sid s target act who] inv ok s
    by (simp add: api_inv_auth env_ok_auth prod_eq_iff)
  then show ?thesis unfolding st' using s
    by (auto simp: handle_def Let_def split: prod.split sum.split)
next
  case (Run env re dump i)
  with step have st': "st' = run_phase env re dump i st" by (auto simp: api_step_def split: if_splits)
  have "sid \<noteq> fst (api_queue st ! i)" if "i < length (api_queue st)"
    using s that nth_mem [OF that] by (metis image_eqI stranded_def)
  from run_other [OF inv this] show ?thesis unfolding st' by (rule stranded_untouched [OF s])
next
  case (Restart l)
  with step have "st' = restart l st" by (simp add: api_step_def)
  with s show ?thesis by (simp add: stranded_def restart_def)
qed

interpretation stranding: step_invariant "api_step cr key" "\<lambda>st. api_inv cr key st \<and> stranded sid s st" for cr key sid s
  by unfold_locales (use stranded_step api_step_ok in blast)

text \<open>
  A run that does not start is lost in the same way: with \<open>AUDIT_ENFORCE_CROSS_FAMILY=1\<close> and models
  of one family, \<open>SameFamilyBiasError\<close> leaves \<open>_run_crew_with_qa\<close> before its \<open>try\<close> block, and the
  audit stays in its phase instead of moving to \<open>ERROR_PHASE_n\<close>.
\<close>

lemma same_family_stays_running:
  assumes "machine s = RUNNING_PHASE P1" and "\<And>u. start_generation_run env re P1 u = Inl Same_family"
  shows "\<exists>t. generate dump env re P1 s = Inr (t, Some Same_family) \<and> machine t = RUNNING_PHASE P1"
  using assms
  by (simp add: generate_planning_def run_crew_with_qa_def complete_run_def leaving_def Let_def detect_skills_def)

lemma same_family_run:
  assumes "\<not> demo re" "enforce_cross_family re" "crew_info re = Some ci" "qa_info re = Some qi"
    and "assert_disjoint_family (fst ci @ ''/'' @ snd ci) (fst qi @ ''/'' @ snd qi) = Inl e"
  shows "start_generation_run env re p u = Inl Same_family"
  using assms by (simp add: start_generation_run_def Let_def)

text \<open>C10. [restart_strands_run] An audit that is past gate 1 and whose process stops while one of its phases
  runs stays in that phase for good: after the restart no sequence of requests, runs and further
  restarts changes its stored status or its trail (and it cannot be deleted either).\<close>

theorem restart_strands_run:
  assumes "crypto_ok cr" and "st = service_after cr key (new_service l) evs"
    and "stored_audit (api_store st) sid = Some s" and "machine s \<in> {RUNNING_PHASE P2, RUNNING_PHASE P3}"
  shows "\<exists>t. stored_audit (api_store (service_after cr key (restart l' st) later)) sid = Some t \<and>
    machine t = machine s \<and> approval_trail t = approval_trail s"
proof -
  have inv: "api_inv cr key st" unfolding assms(2) by (rule service_inv [OF assms(1)])
  have "stored_trail (api_store st) sid = Some (approval_trail s)" using assms(3) by (simp add: stored_trail_audit)
  from stored_good [OF inv this] obtain u where u: "holds (api_store st) sid u" "flow_good cr key u" by blast
  then have s: "s = snapshot_of u" using assms(3) holds_audit [OF u(1)] by simp
  have "stranded sid u (restart l' st)"
    using u assms(4) by (auto simp: s stranded_def restart_def flow_good_def audit_inv_def flow_inv_def snapshot_of_def)
  moreover have "api_inv cr key (restart l' st)" using restart_inv [OF inv] by (simp add: advances_def)
  ultimately have "stranded sid u (service_after cr key (restart l' st) later)"
    using stranding.attempts_inv [of cr key "restart l' st" sid u later] by (simp add: service_after_def)
  then show ?thesis using holds_audit by (auto simp: stranded_def s snapshot_of_def)
qed

lemma restart_strands_run_witness:
  "\<exists>s t. stored_audit (api_store demo_signed) ''s'' = Some s \<and> machine s = RUNNING_PHASE P2 \<and>
     stored_audit (api_store (service_after toy_sha (Some ''k'') (restart demo_limiter demo_signed)
       [Request demo_reviewer_env ''s'' (Retry_action 2 ''ann''), Run demo_reviewer_env (demo_run (Racm demo_racm)) (\<lambda>p. []) 0]))
       ''s'' = Some t \<and> machine t = RUNNING_PHASE P2"
proof -
  obtain f where f: "only_audit f demo_signed" "machine f = RUNNING_PHASE P2" using demo_signed_audit by blast
  then have s: "stored_audit (api_store demo_signed) ''s'' = Some (snapshot_of f)" "machine (snapshot_of f) = RUNNING_PHASE P2"
    by (auto simp: only_audit_def stored_audit_def get_session_def load_sessions_def snapshot_of_def)
  have "demo_signed = service_after toy_sha (Some ''k'') (new_service demo_limiter) [demo_create, demo_planning, demo_approve]"
    by (simp add: demo_signed_def demo_service_def)
  from restart_strands_run [OF toy_sha_ok this s(1), of demo_limiter
      "[Request demo_reviewer_env ''s'' (Retry_action 2 ''ann''), Run demo_reviewer_env (demo_run (Racm demo_racm)) (\<lambda>p. []) 0]"]
  show ?thesis using s by auto
qed

end
