(* ===== verification/Regex.thy ===== *)
theory Regex
  imports Skills Dates
begin

text \<open>
  Python's \<open>re\<close> as far as the linters use it: \<open>search\<close>, \<open>findall\<close> and \<open>fullmatch\<close> of patterns built from
  character classes, word boundaries, sequence, choice, greedy repetition and groups. \<open>run\<close>
  returns the matches in the order the backtracking engine tries them, so the first is Python's.
  Text is ASCII; every byte of a non-ASCII character counts as a word character.
\<close>

section \<open>Patterns\<close>

datatype regex =
    Eps
  | Chr "char \<Rightarrow> bool"
  | Boundary
  | Seq regex regex
  | Alt regex regex
  | Star regex
  | Group regex

text \<open>What stands before the position, what is left, and the groups captured so far.\<close>

record position =
  before :: "char option"
  left :: string
  groups :: "string list"

definition wordy :: "char option \<Rightarrow> bool" where
  "wordy c = (case c of None \<Rightarrow> False | Some x \<Rightarrow> word_char x)"

definition first_char :: "string \<Rightarrow> char option" where
  "first_char s = (case s of [] \<Rightarrow> None | c # _ \<Rightarrow> Some c)"

definition at_boundary :: "char option \<Rightarrow> string \<Rightarrow> bool" where
  "at_boundary p s \<longleftrightarrow> wordy p \<noteq> wordy (first_char s)"

definition captured :: "position \<Rightarrow> position \<Rightarrow> string" where
  "captured p q = take (length (left p) - length (left q)) (left p)"

function run :: "regex \<Rightarrow> position \<Rightarrow> position list" where
  "run Eps p = [p]"
| "run (Chr P) p =
     (case left p of [] \<Rightarrow> [] | c # s \<Rightarrow> if P c then [p\<lparr>before := Some c, left := s\<rparr>] else [])"
| "run Boundary p = (if at_boundary (before p) (left p) then [p] else [])"
| "run (Seq a b) p = concat (map (run b) (run a p))"
| "run (Alt a b) p = run a p @ run b p"
| "run (Star a) p = concat (map (\<lambda>q. if length (left q) < length (left p) then run (Star a) q else []) (run a p)) @ [p]"
| "run (Group a) p = map (\<lambda>q. q\<lparr>groups := groups q @ [captured p q]\<rparr>) (run a p)"
  by pat_completeness auto

termination
  by (relation "measures [\<lambda>(r, p). size r, \<lambda>(r, p). length (left p)]") auto

declare run.simps(6) [simp del]

lemma run_star:
  "q \<in> set (run (Star a) p) \<longleftrightarrow>
     q = p \<or> (\<exists>x\<in>set (run a p). length (left x) < length (left p) \<and> q \<in> set (run (Star a) x))"
  by (subst run.simps(6)) (auto split: if_splits)

lemma run_star_chr [simp]:
  "run (Star (Chr P)) \<lparr>before = p, left = [], groups = g\<rparr> = [\<lparr>before = p, left = [], groups = g\<rparr>]"
  "run (Star (Chr P)) \<lparr>before = p, left = c # s, groups = g\<rparr> =
     (if P c then run (Star (Chr P)) \<lparr>before = Some c, left = s, groups = g\<rparr> else []) @ [\<lparr>before = p, left = c # s, groups = g\<rparr>]"
  by (subst run.simps(6); simp)+

section \<open>Searching\<close>

fun search_at :: "regex \<Rightarrow> char option \<Rightarrow> string \<Rightarrow> (position \<times> position) option" where
  "search_at r c s =
     (case run r \<lparr>before = c, left = s, groups = []\<rparr> of
        q # _ \<Rightarrow> Some (\<lparr>before = c, left = s, groups = []\<rparr>, q)
      | [] \<Rightarrow> (case s of [] \<Rightarrow> None | x # t \<Rightarrow> search_at r (Some x) t))"

declare search_at.simps [simp del]

definition search :: "regex \<Rightarrow> string \<Rightarrow> (position \<times> position) option" where
  "search r s = search_at r None s"

definition found :: "regex \<Rightarrow> string \<Rightarrow> bool" where
  "found r s \<longleftrightarrow> search r s \<noteq> None"

definition group_1 :: "regex \<Rightarrow> string \<Rightarrow> string option" where
  "group_1 r s = map_option (\<lambda>(p, q). hd (groups q)) (search r s)"

text \<open>\<open>findall\<close> of a pattern with one group; a match is not empty, and the search goes on behind it.\<close>

lemma run_shorter: "q \<in> set (run r p) \<Longrightarrow> length (left q) \<le> length (left p)"
proof (induction r p arbitrary: q rule: run.induct)
  case (6 a p)
  from 6(3) consider "q = p" | x where "x \<in> set (run a p)" "length (left x) < length (left p)" "q \<in> set (run (Star a) x)"
    by (auto simp: run_star [of q a p])
  then show ?case
  proof cases
    case 2
    from 6(2) [OF this] 2(2) show ?thesis by simp
  qed simp
next
  case (2 P p)
  then show ?case by (cases "left p") (auto split: if_splits)
next
  case (4 a b p)
  then show ?case by fastforce
qed (auto split: list.splits if_splits)

lemma search_at_step:
  "search_at r c s =
     (case run r \<lparr>before = c, left = s, groups = []\<rparr> of
        q # _ \<Rightarrow> Some (\<lparr>before = c, left = s, groups = []\<rparr>, q)
      | [] \<Rightarrow> (case s of [] \<Rightarrow> None | x # t \<Rightarrow> search_at r (Some x) t))"
  by (subst search_at.simps) simp

lemma search_at_shorter: "search_at r c s = Some (p, q) \<Longrightarrow> length (left p) \<le> length s \<and> length (left q) \<le> length (left p)"
proof (induction s arbitrary: c)
  case Nil
  then have "run r \<lparr>before = c, left = [], groups = []\<rparr> \<noteq> []" "p = \<lparr>before = c, left = [], groups = []\<rparr>"
    "q = hd (run r \<lparr>before = c, left = [], groups = []\<rparr>)"
    by (subst (asm) search_at_step; auto split: list.splits)+
  then show ?case using run_shorter [of q r p] by auto
next
  case (Cons x s)
  let ?p = "\<lparr>before = c, left = x # s, groups = []\<rparr>"
  show ?case
  proof (cases "run r ?p")
    case Nil
    with Cons.prems have "search_at r (Some x) s = Some (p, q)" by (subst (asm) search_at_step) simp
    with Cons.IH show ?thesis by fastforce
  next
    case (Cons q' qs)
    with Cons.prems have "p = ?p" "q = q'" by (subst (asm) search_at_step; simp)+
    moreover have "q' \<in> set (run r ?p)" using Cons by simp
    ultimately show ?thesis using run_shorter by fastforce
  qed
qed

function findall_at :: "regex \<Rightarrow> char option \<Rightarrow> string \<Rightarrow> string list" where
  "findall_at r c s =
     (case search_at r c s of
        None \<Rightarrow> []
      | Some (p, q) \<Rightarrow>
          if length (left q) < length s then hd (groups q) # findall_at r (before q) (left q) else [])"
  by pat_completeness auto

termination
  by (relation "measure (\<lambda>(r, c, s). length s)") auto

declare findall_at.simps [simp del]

definition findall :: "regex \<Rightarrow> string \<Rightarrow> string list" where
  "findall r s = findall_at r None s"

definition fullmatch :: "regex \<Rightarrow> string \<Rightarrow> bool" where
  "fullmatch r s \<longleftrightarrow> (\<exists>q\<in>set (run r \<lparr>before = None, left = s, groups = []\<rparr>). left q = [])"

section \<open>Building patterns\<close>

text \<open>With \<open>re.IGNORECASE\<close> a lower-case letter stands for both.\<close>

definition ci :: "char \<Rightarrow> regex" where
  "ci c = Chr (\<lambda>x. lower_char x = lower_char c)"

fun seq :: "regex list \<Rightarrow> regex" where
  "seq [] = Eps"
| "seq [r] = r"
| "seq (r # s # rs) = Seq r (seq (s # rs))"

fun alt :: "regex list \<Rightarrow> regex" where
  "alt [] = Chr (\<lambda>_. False)"
| "alt [r] = r"
| "alt (r # s # rs) = Alt r (alt (s # rs))"

definition lit :: "string \<Rightarrow> regex" where
  "lit s = seq (map ci s)"

definition exactly :: "string \<Rightarrow> regex" where
  "exactly s = seq (map (\<lambda>c. Chr ((=) c)) s)"

definition one_of :: "string \<Rightarrow> regex" where
  "one_of cs = Chr (\<lambda>c. c \<in> set cs)"

abbreviation spc :: regex where "spc \<equiv> Chr is_space"
abbreviation dgt :: regex where "dgt \<equiv> Chr is_digit"

definition plus :: "regex \<Rightarrow> regex" where
  "plus r = Seq r (Star r)"

definition opt :: "regex \<Rightarrow> regex" where
  "opt r = Alt r Eps"

fun times :: "nat \<Rightarrow> regex \<Rightarrow> regex" where
  "times 0 r = Eps"
| "times (Suc n) r = Seq r (times n r)"

fun up_to :: "nat \<Rightarrow> regex \<Rightarrow> regex" where
  "up_to 0 r = Eps"
| "up_to (Suc n) r = Alt (Seq r (up_to n r)) Eps"

definition whole :: "regex \<Rightarrow> regex" where
  "whole r = Seq Boundary (Seq r Boundary)"

section \<open>What a match is\<close>

text \<open>\<open>matches r p m s\<close>: \<open>r\<close> matches \<open>m\<close> between the character \<open>p\<close> and the text \<open>s\<close>.\<close>

definition last_char :: "char option \<Rightarrow> string \<Rightarrow> char option" where
  "last_char p m = (if m = [] then p else Some (last m))"

inductive matches :: "regex \<Rightarrow> char option \<Rightarrow> string \<Rightarrow> string \<Rightarrow> bool" where
  eps: "matches Eps p [] s"
| chr: "P c \<Longrightarrow> matches (Chr P) p [c] s"
| boundary: "at_boundary p s \<Longrightarrow> matches Boundary p [] s"
| seq: "matches a p m (n @ s) \<Longrightarrow> matches b (last_char p m) n s \<Longrightarrow> matches (Seq a b) p (m @ n) s"
| left_alt: "matches a p m s \<Longrightarrow> matches (Alt a b) p m s"
| right_alt: "matches b p m s \<Longrightarrow> matches (Alt a b) p m s"
| stop: "matches (Star a) p [] s"
| more: "matches a p m (n @ s) \<Longrightarrow> m \<noteq> [] \<Longrightarrow> matches (Star a) (last_char p m) n s \<Longrightarrow> matches (Star a) p (m @ n) s"
| grp: "matches a p m s \<Longrightarrow> matches (Group a) p m s"

inductive_cases matches_epsE: "matches Eps p m s"
inductive_cases matches_chrE: "matches (Chr P) p m s"
inductive_cases matches_boundaryE: "matches Boundary p m s"
inductive_cases matches_seqE: "matches (Seq a b) p m s"
inductive_cases matches_altE: "matches (Alt a b) p m s"
inductive_cases matches_starE: "matches (Star a) p m s"
inductive_cases matches_grpE: "matches (Group a) p m s"

lemma last_char_append: "last_char (last_char p m) n = last_char p (m @ n)"
  by (simp add: last_char_def)

lemma run_sound:
  "q \<in> set (run r p) \<Longrightarrow> \<exists>m. left p = m @ left q \<and> before q = last_char (before p) m \<and> matches r (before p) m (left q)"
proof (induction r p arbitrary: q rule: run.induct)
  case (1 p)
  then show ?case by (auto simp: last_char_def intro: matches.intros)
next
  case (2 P p)
  show ?case
  proof (cases "left p")
    case Nil
    with 2 show ?thesis by simp
  next
    case (Cons c s)
    with 2 show ?thesis by (intro exI [of _ "[c]"]) (auto simp: last_char_def intro: matches.intros split: if_splits)
  qed
next
  case (3 p)
  then show ?case by (auto simp: last_char_def intro: matches.intros split: if_splits)
next
  case (4 a b p)
  then obtain x where x: "x \<in> set (run a p)" "q \<in> set (run b x)" by auto
  obtain m where m: "left p = m @ left x" "before x = last_char (before p) m" "matches a (before p) m (left x)"
    using 4(1) [OF x(1)] by blast
  obtain n where n: "left x = n @ left q" "before q = last_char (before x) n" "matches b (before x) n (left q)"
    using 4(2) [OF x] by blast
  show ?case
    using m n by (intro exI [of _ "m @ n"]) (auto simp: last_char_append intro: matches.seq)
next
  case (5 a b p)
  from 5(3) consider "q \<in> set (run a p)" | "q \<in> set (run b p)" by auto
  then show ?case using 5(1,2) by cases (blast intro: left_alt right_alt)+
next
  case (6 a p)
  show ?case
  proof (cases "q = p")
    case True
    then show ?thesis by (auto simp: last_char_def intro: matches.intros)
  next
    case False
    then obtain x where x: "x \<in> set (run a p)" "length (left x) < length (left p)" "q \<in> set (run (Star a) x)"
      using 6(3) by (auto simp: run_star [of q a p])
    obtain m where m: "left p = m @ left x" "before x = last_char (before p) m" "matches a (before p) m (left x)"
      using 6(1) [OF x(1)] by blast
    obtain n where n: "left x = n @ left q" "before q = last_char (before x) n" "matches (Star a) (before x) n (left q)"
      using 6(2) [OF x] by blast
    have "m \<noteq> []" using m(1) x(2) by auto
    then show ?thesis
      using m n by (intro exI [of _ "m @ n"]) (auto simp: last_char_append intro: matches.more)
  qed
next
  case (7 a p)
  then obtain x where "x \<in> set (run a p)" "q = x\<lparr>groups := groups x @ [captured p x]\<rparr>" by auto
  then show ?case using 7(1) [of x] by (auto intro: matches.grp)
qed

lemma run_complete:
  "matches r c m s \<Longrightarrow> \<exists>h. \<lparr>before = last_char c m, left = s, groups = g @ h\<rparr> \<in> set (run r \<lparr>before = c, left = m @ s, groups = g\<rparr>)"
proof (induction arbitrary: g rule: matches.induct)
  case (boundary p s)
  then show ?case by (auto simp: last_char_def)
next
  case (chr P c p s)
  then show ?case by (auto simp: last_char_def)
next
  case (eps p s)
  then show ?case by (auto simp: last_char_def)
next
  case (stop a p s)
  show ?case unfolding run_star [of _ a "\<lparr>before = p, left = [] @ s, groups = g\<rparr>"] by (auto simp: last_char_def)
next
  case (seq a p m n s b)
  obtain h where h: "\<lparr>before = last_char p m, left = n @ s, groups = g @ h\<rparr> \<in> set (run a \<lparr>before = p, left = m @ n @ s, groups = g\<rparr>)"
    using seq.IH(1) by blast
  obtain k where "\<lparr>before = last_char (last_char p m) n, left = s, groups = (g @ h) @ k\<rparr> \<in>
      set (run b \<lparr>before = last_char p m, left = n @ s, groups = g @ h\<rparr>)"
    using seq.IH(2) by blast
  with h show ?case by (intro exI [of _ "h @ k"]) (auto simp: last_char_append intro!: bexI)
next
  case (more a p m n s)
  obtain h where h: "\<lparr>before = last_char p m, left = n @ s, groups = g @ h\<rparr> \<in> set (run a \<lparr>before = p, left = m @ n @ s, groups = g\<rparr>)"
    using more.IH(1) by blast
  obtain k where "\<lparr>before = last_char (last_char p m) n, left = s, groups = (g @ h) @ k\<rparr> \<in>
      set (run (Star a) \<lparr>before = last_char p m, left = n @ s, groups = g @ h\<rparr>)"
    using more.IH(2) by blast
  with h more.hyps(2) show ?case by (intro exI [of _ "h @ k"]) (auto simp: last_char_append run_star [of _ a "\<lparr>before = p, left = m @ n @ s, groups = g\<rparr>"] intro!: bexI)
next
  case (grp a p m s)
  obtain h where "\<lparr>before = last_char p m, left = s, groups = g @ h\<rparr> \<in> set (run a \<lparr>before = p, left = m @ s, groups = g\<rparr>)"
    using grp.IH by blast
  then show ?case by (auto intro!: exI [of _ "h @ [_]"] image_eqI)
next
  case (left_alt a p m s b)
  then obtain h where "\<lparr>before = last_char p m, left = s, groups = g @ h\<rparr> \<in> set (run a \<lparr>before = p, left = m @ s, groups = g\<rparr>)" by blast
  then show ?case by auto
next
  case (right_alt b p m s a)
  then obtain h where "\<lparr>before = last_char p m, left = s, groups = g @ h\<rparr> \<in> set (run b \<lparr>before = p, left = m @ s, groups = g\<rparr>)" by blast
  then show ?case by auto
qed

lemma split_front:
  "(\<exists>a m b. x # s = a @ m @ b \<and> P a m b) \<longleftrightarrow>
     (\<exists>m b. x # s = m @ b \<and> P [] m b) \<or> (\<exists>a m b. s = a @ m @ b \<and> P (x # a) m b)"
proof
  assume "\<exists>a m b. x # s = a @ m @ b \<and> P a m b"
  then obtain a m b where "x # s = a @ m @ b" "P a m b" by blast
  then show "(\<exists>m b. x # s = m @ b \<and> P [] m b) \<or> (\<exists>a m b. s = a @ m @ b \<and> P (x # a) m b)"
    by (cases a) auto
next
  assume "(\<exists>m b. x # s = m @ b \<and> P [] m b) \<or> (\<exists>a m b. s = a @ m @ b \<and> P (x # a) m b)"
  then show "\<exists>a m b. x # s = a @ m @ b \<and> P a m b" by (metis append_Cons append_Nil)
qed

text \<open>\<open>search\<close> finds something exactly when some part of the text matches where it stands.\<close>

lemma search_at_iff: "search_at r c s \<noteq> None \<longleftrightarrow> (\<exists>a m b. s = a @ m @ b \<and> matches r (last_char c a) m b)"
proof (induction s arbitrary: c)
  case Nil
  let ?p = "\<lparr>before = c, left = [], groups = []\<rparr>"
  have "run r ?p \<noteq> [] \<longleftrightarrow> matches r c [] []"
    using run_sound [of "hd (run r ?p)" r ?p] run_complete [of r c "[]" "[]" "[]"] by auto
  then show ?case by (subst search_at_step) (auto simp: last_char_def split: list.split)
next
  case (Cons x s)
  let ?p = "\<lparr>before = c, left = x # s, groups = []\<rparr>"
  have "run r ?p \<noteq> [] \<longleftrightarrow> (\<exists>m b. x # s = m @ b \<and> matches r c m b)"
    (is "?l \<longleftrightarrow> ?r")
  proof
    assume ?l
    then show ?r using run_sound [of "hd (run r ?p)" r ?p] by auto
  next
    assume ?r
    then show ?l using run_complete [of r c _ _ "[]"] by fastforce
  qed
  moreover have "search_at r c (x # s) \<noteq> None \<longleftrightarrow> run r ?p \<noteq> [] \<or> search_at r (Some x) s \<noteq> None"
    by (subst search_at_step) (auto split: list.split)
  moreover have "last_char c (y # a) = last_char (Some y) a" for y a by (simp add: last_char_def)
  then have "(\<exists>a m b. x # s = a @ m @ b \<and> matches r (last_char c a) m b) \<longleftrightarrow>
      (\<exists>m b. x # s = m @ b \<and> matches r c m b) \<or> (\<exists>a m b. s = a @ m @ b \<and> matches r (last_char (Some x) a) m b)"
    using split_front [of x s "\<lambda>a m b. matches r (last_char c a) m b"] by (simp add: last_char_def [of c "[]"])
  ultimately show ?case using Cons.IH by auto
qed

end
