(* ===== verification/Linters.thy ===== *)
theory Linters
  imports Regex Prompts Digest Complex_Main
begin

text \<open>
  The deterministic linters of \<open>src/swarm/linters.py\<close>: rules D1 to D14 and the five distortion
  traps. A message is the constructor of its problem with the values it names. An exception is a
  value: the period of reliance can raise, and so can the quote check. What the vault says about
  an evidence record's collection date is the argument \<open>collected\<close>, the quote check another one.
\<close>

section \<open>Reports\<close>

datatype lint_problem =
    No_risks
  | Auditing_standard string
  | Risk_without_controls
  | Duplicate_control
  | Missing_attribute string
  | No_ipe
  | No_completeness_procedure
  | Test_of_one_invalid
  | Sample_below nat nat
  | Slop_phrase string
  | Missing_findings "string list"
  | Extra_findings "string list"
  | More_exceptions_than_items nat nat
  | Untested_with_items
  | Preliminary_mismatch
  | No_citation
  | Quote_fails string
  | Relies_on_failed_itgc "string list"
  | Outside_period ymd ymd ymd
  | Deviation_too_high nat nat
  | Inversion string
  | Over_generalised
  | No_toe_basis
  | Below_threshold nat nat
  | Citation_dump
  | Unknown_finding string
  | Unknown_risk string
  | Wrong_scale
  | Weakness_floor
  | Compensating_unknown string
  | Compensating_ineffective string
  | Certification_claim
  | Icfr_terms
  | Uncovered_findings "string list"

record lint_violation =
  rule_id :: string
  lint_subject :: string
  lint_problem :: lint_problem
  is_error :: bool

type_synonym lint_report = "lint_violation list"

definition violation :: "string \<Rightarrow> string \<Rightarrow> lint_problem \<Rightarrow> lint_violation" where
  "violation rule subject what = \<lparr>rule_id = rule, lint_subject = subject, lint_problem = what, is_error = True\<rparr>"

definition lint_passed :: "lint_report \<Rightarrow> bool" where
  "lint_passed r \<longleftrightarrow> \<not> list_ex is_error r"

definition lint_errors :: "lint_report \<Rightarrow> lint_report" where
  "lint_errors r = filter is_error r"

definition lint_warnings :: "lint_report \<Rightarrow> lint_report" where
  "lint_warnings r = filter (\<lambda>v. \<not> is_error v) r"

text \<open>\<open>dict.fromkeys\<close> keeps the first occurrence of each.\<close>

definition affected_subjects :: "lint_report \<Rightarrow> string list" where
  "affected_subjects r = rev (remdups (rev (filter (\<lambda>s. s \<noteq> []) (map lint_subject (lint_errors r)))))"

definition to_feedback :: "(lint_problem \<Rightarrow> string) \<Rightarrow> lint_report \<Rightarrow> string" where
  "to_feedback describe r =
     (if lint_errors r = [] then []
      else ''Deterministic Audit Linter Violations:'' @ [CHR 0x0A] @
        join_with [CHR 0x0A] (map (\<lambda>v. ''['' @ rule_id v @ ''] ('' @ lint_subject v @ ''): '' @ describe (lint_problem v)) (lint_errors r)))"

section \<open>Tables and patterns\<close>

fun min_sample_size :: "control_frequency \<Rightarrow> nat" where
  "min_sample_size ANNUAL = 1"
| "min_sample_size QUARTERLY = 2"
| "min_sample_size MONTHLY = 2"
| "min_sample_size WEEKLY = 5"
| "min_sample_size DAILY = 20"
| "min_sample_size MULTIPLE_TIMES_PER_DAY = 25"
| "min_sample_size CONTINUOUS = 1"
| "min_sample_size EVENT_DRIVEN = 1"

definition AUDITING_STANDARDS :: "regex list" where
  "AUDITING_STANDARDS = map whole
     [lit ''PCAOB'',
      seq [lit ''AS'', Star spc, alt (map lit [''1105'', ''1215'', ''2101'', ''2110'', ''2201'', ''2301'', ''2315''])],
      seq [lit ''IIA'', plus spc, alt (map lit [''Standard'', ''IPPF'', ''GIAS''])],
      seq [lit ''ISA'', plus spc, times 3 dgt],
      seq [lit ''AT-C'', plus spc, times 3 dgt],
      seq [lit ''SSAE'', Star spc, lit ''18''],
      seq [lit ''ISAE'', Star spc, lit ''3402'']]"

definition SLOP_PHRASES :: "string list" where
  "SLOP_PHRASES = [''delve'', ''delving'', ''tapestry'', ''testament to'', ''robust framework'', ''holistic approach'',
     ''synergy'', ''paradigm shift'', ''beacon of'', ''underscores the importance'',
     ''in today'' @ [CHR 0x27] @ ''s rapidly evolving'', ''ever-changing landscape'', ''seamlessly integrated'']"

definition CERTIFICATION_CLAIMS :: "regex list" where
  "CERTIFICATION_CLAIMS = map whole
     [seq [lit ''fully'', plus spc, lit ''compliant''],
      seq [lit ''100%'', plus spc, lit ''compliant''],
      seq [lit ''certified'', plus spc, lit ''compliant''],
      seq [lit ''guarantee'', opt (lit ''s''), plus spc, lit ''compliance''],
      seq [lit ''certif'', alt [lit ''y'', lit ''ies''], plus spc, lit ''that'', plus spc, lit ''the'', plus spc,
        alt (map lit [''entity'', ''organisation'', ''organization'', ''system'']), plus spc, lit ''is'', plus spc, lit ''compliant'']]"

definition dash_or_space :: regex where
  "dash_or_space = Chr (\<lambda>c. c = CHR ''-'' \<or> is_space c)"

definition ITGC_RELIANCE :: regex where
  "ITGC_RELIANCE = alt [seq [lit ''change'', opt dash_or_space, lit ''management''], lit ''itgc'',
     seq [lit ''general'', plus spc, lit ''it'', plus spc, lit ''control'']]"

definition CONFIG_HISTORY :: regex where
  "CONFIG_HISTORY = alt [seq [lit ''aws'', plus spc, lit ''config''], seq [lit ''config'', plus spc, lit ''history''],
     seq [lit ''cloudtrail'', plus spc, lit ''history''], seq [lit ''historical'', plus spc, lit ''log'']]"

definition CHANGE_MGMT_CONTROL :: regex where
  "CHANGE_MGMT_CONTROL = alt [seq [lit ''change'', opt dash_or_space, lit ''management''],
     seq [lit ''program'', plus spc, lit ''change''], lit ''cc8.1'', seq [lit ''cm-'', plus dgt], lit ''bai06'', lit ''chg'']"

definition ICFR_TERMS :: regex where
  "ICFR_TERMS = whole (alt [seq [lit ''material'', plus spc, lit ''weakness''], seq [lit ''significant'', plus spc, lit ''deficiency'']])"

definition check_slop :: "string \<Rightarrow> string \<Rightarrow> lint_report" where
  "check_slop txt subject =
     map (\<lambda>p. violation ''D14'' subject (Slop_phrase p)) (filter (\<lambda>p. search_word False p (lower txt)) SLOP_PHRASES)"

section \<open>Phase 1: the RACM\<close>

definition lint_mappings :: "risk \<Rightarrow> lint_report" where
  "lint_mappings r = map (\<lambda>m. violation ''D13'' (r_risk_id r) (Auditing_standard m))
     (filter (\<lambda>m. list_ex (\<lambda>p. found p m) AUDITING_STANDARDS) (regulatory_mapping r))"

definition flag_if :: "bool \<Rightarrow> lint_violation \<Rightarrow> lint_report" where
  "flag_if b v = (if b then [v] else [])"

definition manual :: "control \<Rightarrow> bool" where
  "manual c \<longleftrightarrow> nature c \<in> {Some MANUAL, Some IT_DEPENDENT_MANUAL}"

definition concrete_completeness :: "control_testing \<Rightarrow> bool" where
  "concrete_completeness tp = (case t_population tp of None \<Rightarrow> False
     | Some p \<Rightarrow> strip (completeness_procedure p) \<noteq> [] \<and> lower (strip (completeness_procedure p)) \<noteq> ''not specified'')"

definition lint_attributes :: "control \<Rightarrow> lint_report" where
  "lint_attributes c =
     (let tp = testing_procedures c; missing = (\<lambda>b what. flag_if b (violation ''D6'' (c_control_id c) (Missing_attribute what))) in
      missing (control_owner c = None) ''control_owner'' @ missing (frequency c = None) ''frequency'' @
      missing (nature c = None) ''nature'' @ missing (c_control_type c = None) ''control_type'' @
      missing (key_control c = None) ''key_control'' @
      missing (substantive_testing tp \<in> {None, Some []}) ''substantive_testing'' @
      missing (period_of_reliance tp \<in> {None, Some []}) ''period_of_reliance'' @
      missing (t_sampling_method tp = None) ''sampling_method'')"

definition lint_control :: "bool \<Rightarrow> bool \<Rightarrow> control \<Rightarrow> lint_report" where
  "lint_control strict seen c =
     (let cid = c_control_id c; tp = testing_procedures c in
      flag_if seen (violation ''D1'' cid Duplicate_control) @
      flag_if (test_of_design tp = []) (violation ''D6'' cid (Missing_attribute ''test_of_design'')) @
      flag_if (test_of_effectiveness tp = []) (violation ''D6'' cid (Missing_attribute ''test_of_effectiveness'')) @
      (if strict then lint_attributes c else []) @
      flag_if (nature c = Some IT_DEPENDENT_MANUAL \<and> ipe c = []) (violation ''D10'' cid No_ipe) @
      flag_if ((ipe c \<noteq> [] \<or> manual c) \<and> strict \<and> \<not> concrete_completeness tp) (violation ''D10'' cid No_completeness_procedure) @
      flag_if (t_sampling_method tp = Some TEST_OF_ONE \<and> manual c \<and> frequency c \<notin> {Some ANNUAL, None})
        (violation ''D7'' cid Test_of_one_invalid) @
      (case (frequency c, sample_size tp) of
         (Some fr, Some n) \<Rightarrow>
           flag_if (manual c \<and> t_sampling_method tp \<noteq> Some FULL_POPULATION \<and> n < min_sample_size fr)
             (violation ''D7'' cid (Sample_below n (min_sample_size fr)))
       | _ \<Rightarrow> []) @
      check_slop (c_description c) cid)"

fun lint_controls :: "bool \<Rightarrow> string list \<Rightarrow> control list \<Rightarrow> lint_report" where
  "lint_controls strict seen [] = []"
| "lint_controls strict seen (c # cs) =
     lint_control strict (c_control_id c \<in> set seen) c @ lint_controls strict (c_control_id c # seen) cs"

fun lint_risks :: "bool \<Rightarrow> string list \<Rightarrow> risk list \<Rightarrow> lint_report" where
  "lint_risks strict seen [] = []"
| "lint_risks strict seen (r # rs) =
     lint_mappings r @ flag_if (controls r = []) (violation ''D6'' (r_risk_id r) Risk_without_controls) @
     lint_controls strict seen (controls r) @ lint_risks strict (rev (map c_control_id (controls r)) @ seen) rs"

definition lint_racm :: "bool \<Rightarrow> racm \<Rightarrow> lint_report" where
  "lint_racm strict m =
     (if risks m = [] then [violation ''D6'' ''RACM'' No_risks] else lint_risks strict [] (risks m))"

section \<open>Phase 2: periods and evidence\<close>

datatype lint_raised = Year_out_of_range | Date_overflow | Check_raised raised

definition ISO_DATE :: regex where
  "ISO_DATE = seq [Boundary, Group (seq [times 4 dgt, exactly ''-'', times 2 dgt, exactly ''-'', times 2 dgt]), Boundary]"

definition FISCAL_YEAR :: regex where
  "FISCAL_YEAR = seq [Boundary, lit ''FY'', Star spc, Group (times 4 dgt), Boundary]"

text \<open>\<open>datetime.date(0, 1, 1)\<close> raises outside the \<open>try\<close>.\<close>

definition extract_year_bounds :: "string option \<Rightarrow> lint_raised + (ymd \<times> ymd) option" where
  "extract_year_bounds period =
     (case period of None \<Rightarrow> Inr None
      | Some txt \<Rightarrow>
          if txt = [] then Inr None
          else
            let dates = findall ISO_DATE txt;
                iso = (case dates of a # b # _ \<Rightarrow>
                    (case (fromisoformat a, fromisoformat b) of
                       (Some x, Some y) \<Rightarrow> Some (if date_less y x then (y, x) else (x, y)) | _ \<Rightarrow> None)
                  | _ \<Rightarrow> None) in
            case iso of
              Some bounds \<Rightarrow> Inr (Some bounds)
            | None \<Rightarrow>
                (case group_1 FISCAL_YEAR txt of
                   None \<Rightarrow> Inr None
                 | Some y \<Rightarrow> if str_nat y = 0 then Inl Year_out_of_range
                     else Inr (Some ((str_nat y, 1, 1), (str_nat y, 12, 31)))))"

datatype evidence_tier = TIER_1 | TIER_2 | TIER_3 | TIER_4

definition contains :: "string \<Rightarrow> string \<Rightarrow> bool" where
  "contains part s \<longleftrightarrow> list_ex (\<lambda>n. strip_prefix part (drop n s) \<noteq> None) [0..<Suc (length s)]"

definition classify_evidence_tier :: "string \<Rightarrow> evidence_tier" where
  "classify_evidence_tier operation =
     (let src = lower (strip operation) in
      if list_ex (\<lambda>p. contains p src) [''aws.'', ''iam:'', ''s3:'', ''s3control:'', ''sts:'', ''cloudtrail:'', ''config:''] then TIER_1
      else if list_ex (\<lambda>p. contains p src) [''external'', ''soc1'', ''soc2''] then TIER_2
      else if list_ex (\<lambda>p. contains p src) [''inquiry'', ''interview'', ''walkthrough_notes''] then TIER_4
      else TIER_3)"

text \<open>\<open>date.toordinal\<close>, and \<open>end + timedelta(days=90)\<close>, which must not pass 9999-12-31.\<close>

definition ordinal :: "ymd \<Rightarrow> nat" where
  "ordinal = (\<lambda>(y, mo, d). days_before_year y + sum_list (map (days_in_month y) [1..<mo]) + d)"

definition MAX_ORDINAL :: nat where "MAX_ORDINAL = 3652059"

definition outside_period :: "ymd \<Rightarrow> ymd \<times> ymd \<Rightarrow> lint_raised + bool" where
  "outside_period day bounds =
     (if date_less day (fst bounds) then Inr True
      else if MAX_ORDINAL < ordinal (snd bounds) + 90 then Inl Date_overflow
      else Inr (ordinal (snd bounds) + 90 < ordinal day))"

section \<open>The distortion traps\<close>

definition quoted :: "string \<Rightarrow> string" where
  "quoted s = [CHR 0x22] @ s @ [CHR 0x22]"

definition field_value :: "string \<Rightarrow> regex \<Rightarrow> regex" where
  "field_value f v = seq [lit (quoted f), Star spc, ci (CHR '':''), Star spc, v]"

definition INVERSIONS :: "(regex \<times> string) list" where
  "INVERSIONS =
     [(field_value ''MFA_Enabled'' (lit (quoted ''No'')), ''MFA_Enabled''),
      (field_value ''Verdict'' (lit (quoted ''PUBLIC'')), ''Verdict''),
      (lit ''No IAM account password policy is set'', ''password policy''),
      (field_value ''BlockPublicAcls'' (lit ''false''), ''BlockPublicAcls''),
      (field_value ''AccountMFAEnabled'' (Seq (ci (CHR ''0'')) Boundary), ''AccountMFAEnabled''),
      (field_value ''AccountAccessKeysPresent'' (seq [one_of ''123456789'', Star dgt, Boundary]), ''AccountAccessKeysPresent'')]"

definition PARTIAL_READS :: "regex list" where
  "PARTIAL_READS = [field_value ''Verdict'' (lit (quoted ''UNKNOWN'')), lit (quoted ''AccessDenied'')]"

definition PASSWORD_LENGTH :: regex where
  "PASSWORD_LENGTH = seq [lit ''MinimumPasswordLength'', plus (Chr (\<lambda>c. c \<in> {CHR 0x22, CHR '':'', CHR ''=''} \<or> is_space c)), Group (plus dgt)]"

definition REQUIRED_LENGTH :: regex where
  "REQUIRED_LENGTH = seq
     [alt [seq [lit ''minimum'', plus spc, lit ''length''], seq [lit ''at'', plus spc, lit ''least''], seq [ci (CHR ''>''), opt (ci (CHR ''=''))]],
      Star spc, opt (seq [lit ''of'', Star spc, opt (seq [lit ''at'', Star spc, lit ''least'', Star spc])]), Group (plus dgt)]"

definition ENVELOPE :: regex where
  "ENVELOPE = seq [Star (Chr (\<lambda>c. c \<in> {CHR ''{'', CHR ''}'', CHR ''['', CHR '']'', CHR 0x22, CHR '','', CHR '':''} \<or> is_space c)),
     alt (map (exactly \<circ> quoted) [''AccountId'', ''ResponseMetadata'', ''RequestId'']), up_to 40 (Chr (\<lambda>_. True))]"

definition all_steps_text :: "control \<Rightarrow> string" where
  "all_steps_text c = join_with '' '' (map (\<lambda>s. step_description s @ '' '' @ expected_result s)
     (test_of_design (testing_procedures c) @ test_of_effectiveness (testing_procedures c)))"

definition claims_effective :: "finding \<Rightarrow> bool" where
  "claims_effective f \<longleftrightarrow> (tod_conclusion f = TOD_EFFECTIVE \<or> toe_conclusion f = TOE_EFFECTIVE) \<and> f_result f = Some NO_EXCEPTION"

definition trap_3 :: "finding \<Rightarrow> control option \<Rightarrow> bool" where
  "trap_3 f c \<longleftrightarrow> toe_conclusion f = TOE_EFFECTIVE \<and> items_tested f \<in> {None, Some 1} \<and>
     (case c of None \<Rightarrow> True | Some x \<Rightarrow> nature x = Some AUTOMATED \<or> t_sampling_method (testing_procedures x) = Some TEST_OF_ONE) \<and>
     strip (case toe_basis f of None \<Rightarrow> [] | Some b \<Rightarrow> b) = []"

definition trap_4 :: "finding \<Rightarrow> control option \<Rightarrow> string \<Rightarrow> lint_report" where
  "trap_4 f c quote =
     (case (c, group_1 PASSWORD_LENGTH quote) of
        (Some x, Some n) \<Rightarrow>
          (let actual = str_nat n;
               required = (case group_1 REQUIRED_LENGTH (all_steps_text x) of None \<Rightarrow> 14 | Some k \<Rightarrow> str_nat k) in
           flag_if (actual < required) (violation ''TRAP-4'' (f_control_id f) (Below_threshold actual required)))
      | _ \<Rightarrow> [])"

definition lint_distortion_traps :: "finding \<Rightarrow> control option \<Rightarrow> lint_report" where
  "lint_distortion_traps f c =
     (let cid = f_control_id f; quote = strip (exact_quote f) in
      if f_result f = Some NOT_TESTED \<or> quote = [] then []
      else
        (if claims_effective f
         then map (\<lambda>(p, what). violation ''TRAP-1'' cid (Inversion what)) (filter (\<lambda>(p, what). found p quote) INVERSIONS) else []) @
        flag_if (claims_effective f \<and> list_ex (\<lambda>p. found p quote) PARTIAL_READS) (violation ''TRAP-2'' cid Over_generalised) @
        flag_if (trap_3 f c) (violation ''TRAP-3'' cid No_toe_basis) @
        (if claims_effective f then trap_4 f c quote else []) @
        flag_if (fullmatch ENVELOPE quote) (violation ''TRAP-5'' cid Citation_dump))"

section \<open>Phase 2: the working papers\<close>

definition controls_by_id :: "racm option \<Rightarrow> (string \<times> control) list" where
  "controls_by_id m = (case m of None \<Rightarrow> [] | Some r \<Rightarrow>
     foldl (\<lambda>d c. dict_set (c_control_id c) c d) [] (concat (map controls (risks r))))"

definition findings_by_id :: "working_papers \<Rightarrow> (string \<times> finding) list" where
  "findings_by_id wp = foldl (\<lambda>d f. dict_set (f_control_id f) f d) [] (findings wp)"

definition lint_coverage :: "working_papers \<Rightarrow> racm option \<Rightarrow> lint_report" where
  "lint_coverage wp m =
     (case m of None \<Rightarrow> []
      | Some r \<Rightarrow>
          (let racm_ids = map fst (controls_by_id m); paper_ids = map f_control_id (findings wp);
               missing = filter (\<lambda>i. i \<notin> set paper_ids) racm_ids; extra = filter (\<lambda>i. i \<notin> set racm_ids) paper_ids in
           flag_if (missing \<noteq> []) (violation ''D1'' (join_with '','' missing) (Missing_findings missing)) @
           flag_if (extra \<noteq> []) (violation ''D1'' (join_with '','' extra) (Extra_findings extra))))"

definition change_mgmt_ids :: "racm option \<Rightarrow> string list" where
  "change_mgmt_ids m = map fst (filter (\<lambda>(i, c). found CHANGE_MGMT_CONTROL (c_description c) \<or>
     found CHANGE_MGMT_CONTROL i \<or> list_ex (found CHANGE_MGMT_CONTROL) (assertions c)) (controls_by_id m))"

definition lint_arithmetic :: "finding \<Rightarrow> lint_report" where
  "lint_arithmetic f =
     (let cid = f_control_id f in
      (case (items_tested f, exceptions_noted f) of
         (Some n, Some e) \<Rightarrow> flag_if (n < e) (violation ''D2'' cid (More_exceptions_than_items e n))
       | _ \<Rightarrow> []) @
      flag_if (f_result f = Some NOT_TESTED \<and> (0 < or_zero (items_tested f) \<or> 0 < or_zero (exceptions_noted f)))
        (violation ''D2'' cid Untested_with_items) @
      flag_if (preliminary_deficiency f \<noteq> Some (f_result f = Some EXCEPTION)) (violation ''D3'' cid Preliminary_mismatch))"

text \<open>The quote check of the vault, when it is asked for.\<close>

definition lint_citation :: "(string \<Rightarrow> string \<Rightarrow> raised + bool) option \<Rightarrow> finding \<Rightarrow> lint_raised + lint_report" where
  "lint_citation verify f =
     (case verify of None \<Rightarrow> Inr []
      | Some quote_ok \<Rightarrow>
          (let cid = f_control_id f; quote = strip (exact_quote f); vid = strip (vault_id_reference f) in
           if f_result f = Some NOT_TESTED then Inr []
           else if quote = [] \<or> vid = [] then Inr [violation ''D11'' cid No_citation]
           else case quote_ok vid quote of
             Inl e \<Rightarrow> Inl (Check_raised e)
           | Inr good \<Rightarrow> Inr (flag_if (\<not> good) (violation ''D11'' cid (Quote_fails vid)))))"

definition failed_itgcs :: "working_papers \<Rightarrow> racm option \<Rightarrow> string \<Rightarrow> string list" where
  "failed_itgcs wp m cid = filter (\<lambda>i. i \<noteq> cid \<and>
     (case map_of (findings_by_id wp) i of None \<Rightarrow> True | Some g \<Rightarrow> toe_conclusion g \<noteq> TOE_EFFECTIVE)) (change_mgmt_ids m)"

definition lint_reliance :: "working_papers \<Rightarrow> racm option \<Rightarrow> finding \<Rightarrow> lint_report" where
  "lint_reliance wp m f =
     (let failed = failed_itgcs wp m (f_control_id f); basis = (case toe_basis f of None \<Rightarrow> [] | Some b \<Rightarrow> b) in
      flag_if (toe_conclusion f = TOE_EFFECTIVE \<and> basis \<noteq> [] \<and> found ITGC_RELIANCE basis \<and> \<not> found CONFIG_HISTORY basis \<and>
          failed \<noteq> [])
        (violation ''D8'' (f_control_id f) (Relies_on_failed_itgc failed)))"

definition lint_period :: "(string \<Rightarrow> ymd option) \<Rightarrow> control option \<Rightarrow> finding \<Rightarrow> lint_raised + lint_report" where
  "lint_period collected c f =
     (case c of None \<Rightarrow> Inr []
      | Some x \<Rightarrow>
          (let period = period_of_reliance (testing_procedures x) in
           if period \<in> {None, Some []} \<or> vault_id_reference f = [] then Inr []
           else bindE (extract_year_bounds period) (\<lambda>bounds.
             case (collected (vault_id_reference f), bounds) of
               (Some day, Some b) \<Rightarrow> bindE (outside_period day b) (\<lambda>out. Inr (if out
                 then [\<lparr>rule_id = ''D11'', lint_subject = f_control_id f, lint_problem = Outside_period day (fst b) (snd b), is_error = False\<rparr>]
                 else []))
             | _ \<Rightarrow> Inr [])))"

definition lint_deviation :: "rat \<Rightarrow> finding \<Rightarrow> lint_report" where
  "lint_deviation tolerable f =
     (case (items_tested f, exceptions_noted f) of
        (Some n, Some e) \<Rightarrow>
          flag_if (0 < n \<and> 0 < e \<and> tolerable < rat_of_nat e / rat_of_nat n \<and> toe_conclusion f = TOE_EFFECTIVE)
            (violation ''D12'' (f_control_id f) (Deviation_too_high e n))
      | _ \<Rightarrow> [])"

record lint_env =
  quote_check :: "(string \<Rightarrow> string \<Rightarrow> raised + bool) option"
  collected_on :: "string \<Rightarrow> ymd option"
  tolerable_rate :: rat

definition lint_finding :: "lint_env \<Rightarrow> working_papers \<Rightarrow> racm option \<Rightarrow> finding \<Rightarrow> lint_raised + lint_report" where
  "lint_finding le wp m f =
     (let c = map_of (controls_by_id m) (f_control_id f) in
      bindE (lint_citation (quote_check le) f) (\<lambda>citation.
      bindE (lint_period (collected_on le) c f) (\<lambda>period.
        Inr (lint_arithmetic f @ citation @ lint_reliance wp m f @ period @ lint_deviation (tolerable_rate le) f @
          lint_distortion_traps f c @ check_slop (test_conclusion f) (f_control_id f)))))"

definition lint_working_papers :: "lint_env \<Rightarrow> working_papers \<Rightarrow> racm option \<Rightarrow> lint_raised + lint_report" where
  "lint_working_papers le wp m =
     bindE (collectE (lint_finding le wp m) (findings wp)) (\<lambda>vs. Inr (lint_coverage wp m @ vs))"

section \<open>Phase 3: the report\<close>

definition CITED_CONTROL :: regex where
  "CITED_CONTROL = seq [Boundary, Group (seq [exactly ''CTRL-'', plus dgt,
     Star (Chr (\<lambda>c. (word_char c \<and> of_char c < (128 :: nat)) \<or> c = CHR ''-''))]), Boundary]"

definition NO_COMPENSATION :: "string list" where
  "NO_COMPENSATION = [''none'', ''none identified'', ''none noted'', ''n/a'']"

definition lint_compensating :: "(string \<times> finding) list \<Rightarrow> deficiency \<Rightarrow> lint_report" where
  "lint_compensating by_id e =
     (let did = deficiency_id e; txt = strip (compensating_controls e) in
      if txt = [] \<or> lower txt \<in> set NO_COMPENSATION then []
      else concat (map (\<lambda>i. case map_of by_id i of
          None \<Rightarrow> [violation ''D9'' did (Compensating_unknown i)]
        | Some f \<Rightarrow> flag_if (f_result f \<noteq> Some NO_EXCEPTION \<or> toe_conclusion f \<noteq> TOE_EFFECTIVE)
            (violation ''D9'' did (Compensating_ineffective i))) (findall CITED_CONTROL txt)))"

definition lint_evaluation ::
  "working_papers option \<Rightarrow> racm option \<Rightarrow> deficiency_scale option \<Rightarrow> deficiency \<Rightarrow> lint_report" where
  "lint_evaluation wp m scale e =
     (let did = deficiency_id e; by_id = (case wp of None \<Rightarrow> [] | Some p \<Rightarrow> findings_by_id p);
          risk_ids = (case m of None \<Rightarrow> [] | Some r \<Rightarrow> map r_risk_id (risks r)) in
      (if wp = None then [] else map (\<lambda>i. violation ''D4'' did (Unknown_finding i))
         (filter (\<lambda>i. map_of by_id i = None) (related_findings e))) @
      (if m = None then [] else map (\<lambda>i. violation ''D4'' did (Unknown_risk i))
         (filter (\<lambda>i. i \<notin> set risk_ids) (related_risks e))) @
      (case scale of None \<Rightarrow> [] | Some s \<Rightarrow>
         flag_if (classification e \<notin> set (scale_classifications s)) (violation ''D14'' did Wrong_scale)) @
      flag_if (\<not> material_weakness_ok (classification e) (likelihood e) (magnitude e)) (violation ''D14'' did Weakness_floor) @
      lint_compensating by_id e @ check_slop (e_rationale e) did)"

definition lint_deficiency_evaluations ::
  "deficiency list \<Rightarrow> working_papers option \<Rightarrow> racm option \<Rightarrow> deficiency_scale option \<Rightarrow> lint_report" where
  "lint_deficiency_evaluations es wp m scale =
     concat (map (lint_evaluation wp m scale) es) @
     (case wp of None \<Rightarrow> []
      | Some p \<Rightarrow>
          (let prelim = map f_control_id (filter (\<lambda>f. preliminary_deficiency f = Some True) (findings p));
               uncovered = filter (\<lambda>i. \<not> list_ex (\<lambda>e. i \<in> set (related_findings e)) es) prelim in
           flag_if (uncovered \<noteq> []) (violation ''D4'' (join_with '','' uncovered) (Uncovered_findings uncovered))))"

definition lint_section :: "deficiency_scale option \<Rightarrow> string \<Rightarrow> string \<Rightarrow> lint_report" where
  "lint_section scale section_name txt =
     check_slop txt section_name @
     map (\<lambda>p. violation ''D14'' section_name Certification_claim) (filter (\<lambda>p. found p txt) CERTIFICATION_CLAIMS) @
     flag_if (scale = Some RISK_RATING \<and> found ICFR_TERMS txt) (violation ''D14'' section_name Icfr_terms)"

definition lint_report_of ::
  "final_report \<Rightarrow> working_papers option \<Rightarrow> racm option \<Rightarrow> deficiency_scale option \<Rightarrow> lint_report" where
  "lint_report_of rp wp m scale =
     lint_deficiency_evaluations (deficiency_evaluations rp) wp m scale @
     lint_section scale ''executive_summary'' (executive_summary rp) @
     lint_section scale ''detailed_report'' (detailed_report rp)"

end
