(* ===== verification/FlowCrew.thy ===== *)
theory FlowCrew
  imports FlowDemo
begin

text \<open>
  The crews: what a phase that reaches its gate has been through, how often a crew runs, what
  feedback it is given, and what the recorded prompt fingerprint identifies.
\<close>

section \<open>A passed attempt\<close>

text \<open>The verdict of the three checks on one attempt of a crew.\<close>

definition reviewed :: "flow_env \<Rightarrow> run_env \<Rightarrow> phase \<Rightarrow> audit_flow \<Rightarrow> nat \<Rightarrow> dict \<Rightarrow> artifact option \<Rightarrow> bool" where
  "reviewed env re p s n ins a \<longleftrightarrow>
     (\<exists>qa. crew re n ins = Crew_done (Some qa) a \<and> qa_approved qa) \<and>
     evidence_rejection env (raised_message re) (vault_at re n) p a s = None \<and>
     (strict_linter re \<longrightarrow> fst (lint re n p a) \<or> snd (snd (lint re n p a)) = [])"

lemma qa_rejection_None: "qa_rejection qa = None \<longleftrightarrow> (\<exists>q. qa = Some q \<and> qa_approved q)"
  by (auto simp: qa_rejection_def split: option.splits if_splits)

lemma qa_rejection_text: "qa_rejection qa = Some r \<Longrightarrow> r \<noteq> []"
  by (auto simp: qa_rejection_def QA_UNPARSEABLE_REASON_def QA_NO_REASON_def strip_def lstrip_def split: option.splits if_splits)

lemma evidence_rejection_text: "evidence_rejection env msg v p a s = Some r \<Longrightarrow> r \<noteq> []"
  by (auto simp: evidence_rejection_def EVIDENCE_REJECTION_def split: option.splits if_splits sum.splits list.splits)

lemma evidence_rejection_session:
  assumes "session_id t = session_id s"
  shows "evidence_rejection env msg v p a t = evidence_rejection env msg v p a s"
  unfolding evidence_rejection_def assms by (rule refl)

lemma no_reasons:
  "filter (\<lambda>r. r \<noteq> []) (concat (map (\<lambda>r. case r of None \<Rightarrow> [] | Some x \<Rightarrow> [x]) rs)) = [] \<longleftrightarrow>
     (\<forall>r\<in>set rs. r = None \<or> r = Some [])"
  by (induction rs) (auto split: option.splits)

lemma passed_if:
  "(if c then (x, Attempt_passed a) else (y, Attempt_rejected q why b)) = (t, Attempt_passed a') \<Longrightarrow> c"
  by (auto split: if_splits)

lemma attempt_passed:
  assumes "try_attempt env re p n ins s = (t, Attempt_passed a)"
  shows "reviewed env re p s n ins a"
proof -
  from assms obtain qa where crew: "crew re n ins = Crew_done qa a"
    by (auto simp: try_attempt_def Let_def split: crew_result.splits prod.splits if_splits)
  let ?s = "update_run (\<lambda>r. r\<lparr>run_attempts := n\<rparr>) s"
  obtain ok rules feedback where lint: "lint re n p a = (ok, rules, feedback)" by (cases "lint re n p a")
  have session: "session_id ?s = session_id s" by (simp add: update_run_def)
  have all: "\<forall>r\<in>set [qa_rejection qa, evidence_rejection env (raised_message re) (vault_at re n) p a ?s,
      if \<not> ok \<and> strict_linter re then Some feedback else None]. r = None \<or> r = Some []"
    using passed_if [OF assms [unfolded try_attempt_def Let_def crew crew_result.case lint prod.case]]
    unfolding no_reasons .
  have "qa_rejection qa = None" using all qa_rejection_text [of qa] by (cases "qa_rejection qa") auto
  moreover have "evidence_rejection env (raised_message re) (vault_at re n) p a ?s = None"
    using all evidence_rejection_text [of env "raised_message re" "vault_at re n" p a ?s]
    by (cases "evidence_rejection env (raised_message re) (vault_at re n) p a ?s") auto
  moreover have "strict_linter re \<Longrightarrow> ok \<or> feedback = []" using all by (auto split: if_splits)
  ultimately show ?thesis
    unfolding reviewed_def evidence_rejection_session [OF session] qa_rejection_None crew lint by auto
qed

text \<open>What the state holds of an artifact once it is stored.\<close>

definition stored :: "phase \<Rightarrow> artifact \<Rightarrow> audit_flow \<Rightarrow> bool" where
  "stored p a s \<longleftrightarrow> (case (p, a) of (P1, Racm x) \<Rightarrow> racm_plan s = Some x | (P2, Papers x) \<Rightarrow> papers s = Some x
     | (P3, Report x) \<Rightarrow> report s = Some x | _ \<Rightarrow> False)"

lemma set_artifact_stored: "set_artifact p (Some a) s = Some t \<Longrightarrow> stored p a t \<and> generation_runs t = generation_runs s"
  by (cases p; cases a) (auto simp: stored_def)

lemma stored_update [simp]:
  "stored p a (s\<lparr>generation_runs := x\<rparr>) = stored p a s" "stored p a (s\<lparr>dossier := d\<rparr>) = stored p a s"
  "stored p a (commit_status u) = stored p a u" "stored p a (s\<lparr>machine := m\<rparr>) = stored p a s"
  by (cases p; cases a; simp add: stored_def commit_status_def)+

lemma store_passed_ok:
  assumes "store_passed re p a s = Inr (t, True)"
  shows "\<exists>x. a = Some x \<and> stored p x t \<and> generation_runs t \<noteq> [] \<and>
     outcome (last (generation_runs t)) = ''qa_approved'' \<and>
     run_attempts (last (generation_runs t)) = run_attempts (last (generation_runs s))"
proof -
  from assms obtain x u where x: "a = Some x" "set_artifact p (Some x) s = Some u" "t = close_run re ''qa_approved'' u"
    by (auto simp: store_passed_def bindE_Inr_iff split: option.splits)
  with set_artifact_stored [OF x(2)] show ?thesis by (simp add: close_run_def update_run_def)
qed

lemma try_attempt_count:
  assumes "try_attempt env re p n ins s = (t, r)"
  shows "run_attempts (last (generation_runs t)) = n \<and> session_id t = session_id s"
  using assms by (auto simp: try_attempt_def update_run_def Let_def split: crew_result.splits prod.splits if_splits)

definition second_try :: "phase \<Rightarrow> string \<Rightarrow> dict \<Rightarrow> dict" where
  "second_try p why inputs =
     dict_set (qa_feedback_key p) (dict_get_or inputs (qa_feedback_key p) [] @ qa_feedback_text p why) inputs"

lemma run_crew_cases:
  assumes "run_crew_with_qa env re p inputs s = Inr (t, ok)"
  shows "\<exists>run s1 r1. start_generation_run env re p s = Inr run \<and>
     try_attempt env re p 1 inputs (s\<lparr>generation_runs := generation_runs s @ [run]\<rparr>) = (s1, r1) \<and>
     (case r1 of
        Attempt_error msg \<Rightarrow> crew_error re p ''crew'' msg s1 = Inr (t, ok)
      | Attempt_passed a \<Rightarrow> store_passed re p a s1 = Inr (t, ok)
      | Attempt_rejected q why a \<Rightarrow>
          (\<exists>s2 r2. try_attempt env re p 2 (second_try p why inputs) s1 = (s2, r2) \<and>
             (case r2 of
                Attempt_error msg \<Rightarrow> crew_error re p ''crew retry'' msg s2 = Inr (t, ok)
              | Attempt_passed b \<Rightarrow> store_passed re p b s2 = Inr (t, ok)
              | Attempt_rejected q2 why2 b \<Rightarrow> store_rejected re p q2 why2 b s2 = Inr t \<and> \<not> ok)))"
proof -
  from assms obtain run where run: "start_generation_run env re p s = Inr run" by (auto simp: run_crew_with_qa_def bindE_Inr_iff)
  obtain s1 r1 where a1: "try_attempt env re p 1 inputs (s\<lparr>generation_runs := generation_runs s @ [run]\<rparr>) = (s1, r1)" by force
  note step = assms [unfolded run_crew_with_qa_def run bindE.simps Let_def second_try_def [symmetric] a1 prod.case]
  show ?thesis
  proof (intro exI conjI)
    show "start_generation_run env re p s = Inr run" by (rule run)
    show "try_attempt env re p 1 inputs (s\<lparr>generation_runs := generation_runs s @ [run]\<rparr>) = (s1, r1)" by (rule a1)
    show "case r1 of
        Attempt_error msg \<Rightarrow> crew_error re p ''crew'' msg s1 = Inr (t, ok)
      | Attempt_passed a \<Rightarrow> store_passed re p a s1 = Inr (t, ok)
      | Attempt_rejected q why a \<Rightarrow>
          (\<exists>s2 r2. try_attempt env re p 2 (second_try p why inputs) s1 = (s2, r2) \<and>
             (case r2 of
                Attempt_error msg \<Rightarrow> crew_error re p ''crew retry'' msg s2 = Inr (t, ok)
              | Attempt_passed b \<Rightarrow> store_passed re p b s2 = Inr (t, ok)
              | Attempt_rejected q2 why2 b \<Rightarrow> store_rejected re p q2 why2 b s2 = Inr t \<and> \<not> ok))"
    proof (cases r1)
      case (Attempt_rejected q why a)
      obtain s2 r2 where "try_attempt env re p 2 (second_try p why inputs) s1 = (s2, r2)" by force
      then show ?thesis using step unfolding Attempt_rejected by (cases r2) (auto simp: bindE_Inr_iff)
    qed (use step in simp_all)
  qed
qed

text \<open>A phase that may be completed passed its review at the first or the second attempt.\<close>

lemma run_crew_passed:
  assumes "run_crew_with_qa env re p inputs s = Inr (t, True)"
  shows "\<exists>n\<in>{1, 2}. \<exists>ins x. reviewed env re p s n ins (Some x) \<and> stored p x t \<and>
     outcome (last (generation_runs t)) = ''qa_approved'' \<and> run_attempts (last (generation_runs t)) = n"
proof -
  have passed: "\<exists>ins x. reviewed env re p s n ins (Some x) \<and> stored p x t \<and>
      outcome (last (generation_runs t)) = ''qa_approved'' \<and> run_attempts (last (generation_runs t)) = n"
    if tried: "try_attempt env re p n ins u = (v, Attempt_passed a)" and store: "store_passed re p a v = Inr (t, True)"
      and sid: "session_id u = session_id s"
    for n ins u v a
  proof -
    obtain x where x: "a = Some x" "stored p x t" "outcome (last (generation_runs t)) = ''qa_approved''"
      "run_attempts (last (generation_runs t)) = n"
      using store_passed_ok [OF store] try_attempt_count [OF tried] by auto
    have "reviewed env re p s n ins (Some x)"
      using attempt_passed [OF tried] unfolding reviewed_def evidence_rejection_session [OF sid] x(1) .
    then show ?thesis using x by blast
  qed
  from run_crew_cases [OF assms] obtain run s1 r1 where
    a1: "try_attempt env re p 1 inputs (s\<lparr>generation_runs := generation_runs s @ [run]\<rparr>) = (s1, r1)"
    and r1: "case r1 of
        Attempt_error msg \<Rightarrow> crew_error re p ''crew'' msg s1 = Inr (t, True)
      | Attempt_passed a \<Rightarrow> store_passed re p a s1 = Inr (t, True)
      | Attempt_rejected q why a \<Rightarrow>
          (\<exists>s2 r2. try_attempt env re p 2 (second_try p why inputs) s1 = (s2, r2) \<and>
             (case r2 of
                Attempt_error msg \<Rightarrow> crew_error re p ''crew retry'' msg s2 = Inr (t, True)
              | Attempt_passed b \<Rightarrow> store_passed re p b s2 = Inr (t, True)
              | Attempt_rejected q2 why2 b \<Rightarrow> store_rejected re p q2 why2 b s2 = Inr t \<and> \<not> True))"
    by blast
  have session: "session_id s1 = session_id s" using try_attempt_count [OF a1] by simp
  show ?thesis
  proof (cases r1)
    case (Attempt_error msg)
    then show ?thesis using r1 crew_error_run [of re p "''crew''" msg s1 t True] by simp
  next
    case (Attempt_passed a)
    then show ?thesis using passed [of 1 inputs _ s1 a] a1 r1 by simp
  next
    case (Attempt_rejected q why a)
    then obtain s2 r2 where a2: "try_attempt env re p 2 (second_try p why inputs) s1 = (s2, r2)"
      and r2: "case r2 of
                Attempt_error msg \<Rightarrow> crew_error re p ''crew retry'' msg s2 = Inr (t, True)
              | Attempt_passed b \<Rightarrow> store_passed re p b s2 = Inr (t, True)
              | Attempt_rejected q2 why2 b \<Rightarrow> store_rejected re p q2 why2 b s2 = Inr t \<and> \<not> True"
      using r1 by auto
    show ?thesis
    proof (cases r2)
      case (Attempt_error msg)
      then show ?thesis using r2 crew_error_run [of re p "''crew retry''" msg s2 t True] by simp
    next
      case (Attempt_passed b)
      then show ?thesis using passed [of 2 _ s1 s2 b] a2 r2 session by simp
    qed (use r2 in simp)
  qed
qed

section \<open>Reaching the gate\<close>

lemma not_passed:
  assumes "run_of p s u ms" "ms \<in> run_moves p False"
  shows "machine u \<noteq> WAITING_HUMAN_GATE q"
proof -
  have "lifecycle (machine s) (Fail p) (machine u) \<or> lifecycle (machine s) (Reject p) (machine u)"
    using assms by (auto simp: run_of_def run_moves_def bindE_Inr_iff machine_step_iff simp del: machine_step.simps)
  then show ?thesis by (auto elim: lifecycle_failE lifecycle_rejectE)
qed

definition passed_from :: "flow_env \<Rightarrow> run_env \<Rightarrow> phase \<Rightarrow> audit_flow \<Rightarrow> audit_flow \<Rightarrow> bool" where
  "passed_from env re p s t \<longleftrightarrow> (\<exists>n\<in>{1, 2}. \<exists>ins x. reviewed env re p s n ins (Some x) \<and> stored p x t \<and>
     outcome (last (generation_runs t)) = ''qa_approved'' \<and> run_attempts (last (generation_runs t)) = n)"

lemma passed_from_update:
  "passed_from env re p s u \<Longrightarrow>
   passed_from env re p s ((commit_status (u\<lparr>machine := m\<rparr>))\<lparr>dossier := d\<rparr>)"
  by (simp add: passed_from_def) (simp add: commit_status_def)

lemma complete_reached:
  assumes "complete_run p announce (run_crew_with_qa env re p inputs s1) = Inr t"
    and announce: "\<And>u. \<exists>d. announce u = u\<lparr>dossier := d\<rparr>" and gate: "machine t = WAITING_HUMAN_GATE q"
  shows "passed_from env re p s1 t"
proof -
  from assms(1) obtain u ok where u: "run_crew_with_qa env re p inputs s1 = Inr (u, ok)"
    "(if \<not> ok then Inr u else bindE (move (Complete p) u) (\<lambda>u. Inr (announce u))) = Inr t"
    by (auto simp: complete_run_def bindE_Inr_iff)
  show ?thesis
  proof (cases ok)
    case False
    obtain ms where "run_of p s1 u ms" "ms \<in> run_moves p False" using run_crew_run [OF u(1)] False by auto
    from not_passed [OF this, where q = q] show ?thesis using u(2) False gate by simp
  next
    case True
    then obtain st where "t = announce (commit_status (u\<lparr>machine := st\<rparr>))"
      using u(2) by (auto simp: bindE_Inr_iff move_iff)
    moreover obtain d where "announce (commit_status (u\<lparr>machine := st\<rparr>)) = (commit_status (u\<lparr>machine := st\<rparr>))\<lparr>dossier := d\<rparr>"
      using announce by blast
    moreover have "passed_from env re p s1 u"
      using run_crew_passed [of env re p inputs s1 u] u(1) True unfolding passed_from_def by simp
    ultimately show ?thesis by (simp add: passed_from_update)
  qed
qed

lemma passed_from_session:
  assumes "session_id s1 = session_id s" "passed_from env re p s1 t"
  shows "passed_from env re p s t"
  using assms(2) unfolding passed_from_def reviewed_def evidence_rejection_session [OF assms(1)] .

lemma leaving_reached:
  assumes "leaving s1 m = Inr (t, e)" and "machine s1 = RUNNING_PHASE p" and gate: "machine t = WAITING_HUMAN_GATE q"
  shows "m = Inr t"
  using assms by (auto simp: leaving_def split: sum.splits)

lemma skills_session:
  "session_id ((ensure_skill_context env s)\<lparr>qa_reason := None\<rparr>) = session_id s"
  "session_id ((detect_skills env s)\<lparr>qa_reason := None\<rparr>) = session_id s"
  "machine ((ensure_skill_context env s)\<lparr>qa_reason := None\<rparr>) = machine s"
  "machine ((detect_skills env s)\<lparr>qa_reason := None\<rparr>) = machine s"
  by (simp_all add: ensure_skill_context_def restore_skill_context_def detect_skills_def Let_def)

lemma generate_reached:
  assumes run: "generate dump env re p s = Inr (t, e)" and gate: "machine t = WAITING_HUMAN_GATE q"
  shows "passed_from env re p s t"
proof (cases p)
  case P1
  from run P1 obtain s0 where s0: "(if machine s = WAITING_FOR_SCOPE then move StartPhase1 s else Inr s) = Inr s0"
    "machine s0 = RUNNING_PHASE P1"
    "leaving ((detect_skills env s0)\<lparr>qa_reason := None\<rparr>) (complete_run P1 planning_done (run_crew_with_qa env re P1
       (seed_feedback P1 ((detect_skills env s0)\<lparr>qa_reason := None\<rparr>) (planning_inputs ((detect_skills env s0)\<lparr>qa_reason := None\<rparr>)))
       ((detect_skills env s0)\<lparr>qa_reason := None\<rparr>))) = Inr (t, e)"
    by (auto simp: generate_planning_def Let_def bindE_Inr_iff split: if_splits)
  have "machine ((detect_skills env s0)\<lparr>qa_reason := None\<rparr>) = RUNNING_PHASE P1" by (simp only: skills_session s0(2))
  from complete_reached [OF leaving_reached [OF s0(3) this gate] announcements(1) gate]
  have "passed_from env re P1 ((detect_skills env s0)\<lparr>qa_reason := None\<rparr>) t" .
  moreover have "session_id s0 = session_id s" using s0(1) by (auto simp: move_iff split: if_splits)
  ultimately show ?thesis using passed_from_session P1 skills_session by metis
next
  case P2
  let ?s1 = "(ensure_skill_context env s)\<lparr>qa_reason := None\<rparr>"
  have running: "machine s = RUNNING_PHASE P2" and body: "leaving ?s1 (if racm_plan ?s1 = None
      then fail_phase P2 ''Cannot run Fieldwork: no Phase 1 RACM in state.'' ?s1
      else complete_run P2 fieldwork_done (run_crew_with_qa env re P2 (seed_feedback P2 ?s1 (fieldwork_inputs ?s1)) ?s1)) = Inr (t, e)"
    using run P2 by (auto simp: generate_fieldwork_def Let_def split: if_splits)
  have s1: "machine ?s1 = RUNNING_PHASE P2" by (simp only: skills_session running)
  note m = leaving_reached [OF body s1 gate]
  show ?thesis
  proof (cases "racm_plan ?s1 = None")
    case True
    then have "fail_phase P2 ''Cannot run Fieldwork: no Phase 1 RACM in state.'' ?s1 = Inr t" using m by simp
    from not_passed [OF fail_phase_run [OF this], where q = q] gate show ?thesis by (simp add: run_moves_def)
  next
    case False
    then have "complete_run P2 fieldwork_done (run_crew_with_qa env re P2 (seed_feedback P2 ?s1 (fieldwork_inputs ?s1)) ?s1) = Inr t"
      using m by (simp only: if_False)
    from complete_reached [OF this announcements(2) gate] show ?thesis
      using passed_from_session [OF skills_session(1)] P2 by blast
  qed
next
  case P3
  let ?s1 = "(ensure_skill_context env s)\<lparr>qa_reason := None\<rparr>"
  have running: "machine s = RUNNING_PHASE P3" and body: "leaving ?s1 (if papers ?s1 = None
      then fail_phase P3 ''Cannot run Reporting: no Phase 2 working papers in state.'' ?s1
      else bindE (flow_raise Python_error (reporting_inputs dump env ?s1)) (\<lambda>inputs.
          complete_run P3 reporting_done (run_crew_with_qa env re P3 (seed_feedback P3 ?s1 inputs) ?s1))) = Inr (t, e)"
    using run P3 by (auto simp: generate_reporting_def Let_def split: if_splits)
  have s1: "machine ?s1 = RUNNING_PHASE P3" by (simp only: skills_session running)
  note m = leaving_reached [OF body s1 gate]
  show ?thesis
  proof (cases "papers ?s1 = None")
    case True
    then have "fail_phase P3 ''Cannot run Reporting: no Phase 2 working papers in state.'' ?s1 = Inr t" using m by simp
    from not_passed [OF fail_phase_run [OF this], where q = q] gate show ?thesis by (simp add: run_moves_def)
  next
    case False
    then obtain inputs where "complete_run P3 reporting_done (run_crew_with_qa env re P3 (seed_feedback P3 ?s1 inputs) ?s1) = Inr t"
      using m unfolding if_not_P [OF False] by (auto simp: bindE_Inr_iff)
    from complete_reached [OF this announcements(3) gate] show ?thesis
      using passed_from_session [OF skills_session(1)] P3 by blast
  qed
qed

text \<open>C4. [gate_only_after_review] Quality checks fail closed: when generating a phase leaves it waiting at
  its human gate, the artifact now stored is what the crew returned at its first or second
  attempt, the QA reviewer answered in the QA schema and approved it, the evidence check passed
  (in fieldwork), the linters passed if they are strict, and the run record says so.\<close>
theorem gate_only_after_review:
  assumes "generate dump env re p s = Inr (t, e)" and "machine t = WAITING_HUMAN_GATE q"
  shows "\<exists>n\<in>{1, 2}. \<exists>ins qa x. crew re n ins = Crew_done (Some qa) (Some x) \<and> qa_approved qa \<and>
     evidence_rejection env (raised_message re) (vault_at re n) p (Some x) s = None \<and>
     (strict_linter re \<longrightarrow> fst (lint re n p (Some x)) \<or> snd (snd (lint re n p (Some x))) = []) \<and>
     stored p x t \<and> outcome (last (generation_runs t)) = ''qa_approved'' \<and> run_attempts (last (generation_runs t)) = n"
  using generate_reached [OF assms] unfolding passed_from_def reviewed_def by blast

theorem gate_only_after_review_witness:
  "\<exists>t. machine t = WAITING_HUMAN_GATE P1 \<and> (\<exists>x. stored P1 x t) \<and> outcome (last (generation_runs t)) = ''qa_approved''"
proof -
  obtain t where "generate (\<lambda>p. []) (demo_env ''d2'') (demo_run (Racm demo_racm)) P1 demo_created = Inr (t, None)"
    "machine t = WAITING_HUMAN_GATE P1"
    using demo_generate [OF demo_created_trail(2)] by blast
  from gate_only_after_review [OF this] this(2) show ?thesis by blast
qed

section \<open>Feedback carried into a re-run\<close>

lemma dropWhile_idem: "dropWhile P (dropWhile P xs) = dropWhile P xs"
  by (induction xs) auto

lemma dropWhile_front:
  assumes "dropWhile P xs = xs"
  shows "dropWhile P (rev (dropWhile P (rev xs))) = rev (dropWhile P (rev xs))"
proof -
  let ?front = "rev (dropWhile P (rev xs))"
  have "rev (takeWhile P (rev xs) @ dropWhile P (rev xs)) = xs" by simp
  then have "xs = ?front @ rev (takeWhile P (rev xs))" by (simp only: rev_append)
  then have "?front = [] \<or> hd ?front = hd xs" by (metis hd_append2)
  then show ?thesis using assms unfolding dropWhile_eq_self_iff by (metis append_Nil2 dropWhile.simps(1) rev_is_Nil_conv)
qed

lemma strip_strip [simp]: "strip (strip s) = strip s"
  unfolding strip_def lstrip_def using dropWhile_front [of is_space "dropWhile is_space s"] dropWhile_idem
  by (metis rev_rev_ident)

text \<open>What a stamp of a re-run leaves at the end of the trail.\<close>

lemma last_stamp:
  assumes inv: "flow_inv cr key s" and env: "crypto_of env = cr" "trail_key env = key" "crypto_ok cr"
    and mv: "move m s = Inr s1" and stamp: "stamp_trail env gate human action src extra s1 = Inr s2"
    and t: "approval_trail t = approval_trail s2"
  shows "approval_trail t \<noteq> [] \<and> same_fields (last (approval_trail t)) (stamp_entry (now env) gate human action src extra)"
proof -
  have "approval_trail s1 = approval_trail s" using mv by (auto simp: move_iff)
  then have tr: "appended (crypto_of env) (trail_key env) [] (approval_trail s1)" "crypto_ok (crypto_of env)"
    using inv env by (simp_all add: flow_inv_def)
  from stamp_trail_Inr [OF tr(2,1) stamp] t show ?thesis by (auto simp: stamped_with_iff)
qed

lemma retry_feedback:
  assumes inv: "flow_inv cr key s" and env: "crypto_of env = cr" "trail_key env = key" "crypto_ok cr"
    and run: "flow_retry_phase env n human_id src s = Inr t" and p: "phase_of_int n = Some p"
  shows "carried_feedback p t = (if machine s = QA_REJECTED_PHASE p \<and> strip (reason_or_empty (qa_reason s)) \<noteq> []
     then Some (qa_feedback_text p (strip (reason_or_empty (qa_reason s)))) else None)"
proof -
  from run p obtain human src' s1 s2 d extra where mv: "move (Retry p) s = Inr s1"
    and extra: "extra = [(''previous_status'', status_value (machine s)), (''previous_reason'', reason_or_empty (qa_reason s1))] @
         run_provenance_extra p s1"
    and stamp: "stamp_trail env (''Retry ('' @ phase_label p @ '')'') human ''retry'' src' extra s1 = Inr s2"
    and t: "t = s2\<lparr>dossier := d\<rparr>"
    by (auto simp: flow_retry_phase_def result_simps)
  have reason: "qa_reason s1 = qa_reason s" using mv by (auto simp: move_iff)
  have e: "approval_trail t \<noteq> []" "same_fields (last (approval_trail t))
      (stamp_entry (now env) (''Retry ('' @ phase_label p @ '')'') human ''retry'' src' extra)"
    using last_stamp [OF inv env mv stamp, of t] t by simp_all
  have "plain_extra extra" unfolding extra by (rule plain_provenance) (simp_all add: plain_extra_def)
  then have dist: "distinct (map fst extra)" by (simp only: plain_extra_def simp_thms)
  have none: "map_of (run_provenance_extra p s1) k = None" if "k \<in> {''gate'', ''action''}" for k
    using provenance_keys(2) [of p s1] that by (auto simp: map_of_eq_None_iff)
  have fields: "map_of extra ''gate'' = None" "map_of extra ''action'' = None"
    "map_of extra ''previous_status'' = Some (status_value (machine s))"
    "map_of extra ''previous_reason'' = Some (reason_or_empty (qa_reason s))"
    unfolding extra by (simp_all add: none reason)
  have last: "map_of (last (approval_trail t)) ''action'' = Some ''retry''"
    "map_of (last (approval_trail t)) ''gate'' = Some (''Retry ('' @ phase_label p @ '')'')"
    "map_of (last (approval_trail t)) ''previous_status'' = Some (status_value (machine s))"
    "dict_get_or (last (approval_trail t)) ''previous_reason'' [] = reason_or_empty (qa_reason s)"
    using same_fields_get [OF e(2)] by (simp_all add: HASH_FIELDS_def stamp_entry_field [OF dist] fields dict_get_or_def)
  show ?thesis
    unfolding carried_feedback_def Let_def last using e(1) by (simp del: status_value.simps)
qed

lemma rework_feedback:
  assumes inv: "flow_inv cr key s" and env: "crypto_of env = cr" "trail_key env = key" "crypto_ok cr"
    and run: "flow_return_for_rework env n human_id review src s = Inr t" and p: "phase_of_int n = Some p"
  shows "carried_feedback p t = Some (rework_feedback_text (strip review))"
proof -
  from run p obtain human written src' s1 s2 q d extra where mv: "move (Return p) s = Inr s1"
    and nt: "require_text review = Some written"
    and extra: "extra = ([(''notes'', written), (''artifact'', artifact_field p)] @
           (case artifact_of s p of None \<Rightarrow> [] | Some a \<Rightarrow> [(''artifact_digest'', artifact_digest (crypto_of env) a)])) @
           run_provenance_extra p s1"
    and stamp: "stamp_trail env (''Return for rework ('' @ phase_label p @ '')'') human ''return_for_rework'' src' extra s1 = Inr s2"
    and t: "t = s2\<lparr>qa_reason := q, dossier := d\<rparr>"
    by (auto simp: flow_return_for_rework_def required_text_of_def result_simps Let_def)
  have e: "approval_trail t \<noteq> []" "same_fields (last (approval_trail t))
      (stamp_entry (now env) (''Return for rework ('' @ phase_label p @ '')'') human ''return_for_rework'' src' extra)"
    using last_stamp [OF inv env mv stamp, of t] t by simp_all
  have plain: "plain_extra extra"
    unfolding extra by (rule plain_provenance) (cases "artifact_of s p"; simp add: plain_extra_def)+
  then have dist: "distinct (map fst extra)" by (simp only: plain_extra_def simp_thms)
  have none: "map_of (run_provenance_extra p s1) k = None" if "k \<in> {''gate'', ''action''}" for k
    using provenance_keys(2) [of p s1] that by (auto simp: map_of_eq_None_iff)
  have fields: "map_of extra ''gate'' = None" "map_of extra ''action'' = None" "map_of extra ''notes'' = Some written"
    unfolding extra by (simp_all add: none split: option.splits)
  have last: "map_of (last (approval_trail t)) ''action'' = Some ''return_for_rework''"
    "map_of (last (approval_trail t)) ''gate'' = Some (''Return for rework ('' @ phase_label p @ '')'')"
    "dict_get_or (last (approval_trail t)) ''notes'' [] = written"
    using same_fields_get [OF e(2)] by (simp_all add: HASH_FIELDS_def stamp_entry_field [OF dist] fields dict_get_or_def)
  have "strip written = strip review" "strip written \<noteq> []" using nt by (auto simp: require_text_def split: if_splits)
  then show ?thesis
    unfolding carried_feedback_def Let_def last using e(1) last by simp
qed

text \<open>What a reviewer says reaches the crew that runs next. In any audit, after a
  return for rework the crew inputs carry the reviewer's notes, and after a retry they carry the
  QA rejection that caused it, or nothing when the phase had stopped with an error; the feedback
  replaces whatever the inputs held under the phase's key.\<close>
lemma rerun_feedback:
  assumes "crypto_ok cr" and "s = audit_after cr key (new_audit th biz fws sid) xs"
    and "crypto_of env = cr" "trail_key env = key" "phase_of_int n = Some p"
  shows "(flow_return_for_rework env n human_id review src s = Inr t \<longrightarrow>
       seed_feedback p t inputs = dict_set (qa_feedback_key p) (rework_feedback_text (strip review)) inputs) \<and>
     (flow_retry_phase env n human_id src s = Inr t \<longrightarrow>
       seed_feedback p t inputs =
         (if machine s = QA_REJECTED_PHASE p \<and> strip (reason_or_empty (qa_reason s)) \<noteq> []
          then dict_set (qa_feedback_key p) (qa_feedback_text p (strip (reason_or_empty (qa_reason s)))) inputs
          else inputs))"
proof -
  have inv: "flow_inv cr key s" using reachable_inv [OF assms(1)] by (simp add: assms(2))
  have "rework_feedback_text x \<noteq> []" "qa_feedback_text p x \<noteq> []" for x
    by (cases p; simp add: rework_feedback_text_def)+
  then show ?thesis
    using rework_feedback [OF inv assms(3,4,1) _ assms(5)] retry_feedback [OF inv assms(3,4,1) _ assms(5)]
    by (simp add: seed_feedback_def del: qa_feedback_text.simps)
qed

lemma rework_total:
  assumes inv: "flow_inv cr key s" and env: "crypto_of env = cr" "trail_key env = key" "crypto_ok cr"
    and gate: "machine s = WAITING_HUMAN_GATE p" and p: "phase_of_int n = Some p"
    and human: "require_text who = Some human" "require_text review = Some written" "identity_source_of src = Inr src'"
    and sod: "check_sod ''return_for_rework'' human None s = Inr ()"
  shows "\<exists>t. flow_return_for_rework env n who review src s = Inr t"
proof -
  let ?s1 = "commit_status (s\<lparr>machine := RUNNING_PHASE p\<rparr>)"
  have move: "move (Return p) s = Inr ?s1" by (simp add: move_def machine_defs gate)
  have tr: "appended (crypto_of env) (trail_key env) [] (approval_trail ?s1)" "crypto_ok (crypto_of env)" "src' = src"
    using inv env human(3) by (simp_all add: flow_inv_def identity_source_of_Inr)
  show ?thesis
    using human sod gate p tr(3) bindE_total [OF stamp_trail_total [OF tr(2,1) human(3)]] unfolding flow_return_for_rework_def
    by (simp add: required_text_of_def require_transition_def can_def move Let_def)
qed

theorem rerun_feedback_witness:
  "\<exists>t. flow_return_for_rework (demo_env ''d3'') 1 ''Bob Ray'' ''Name the owners'' ''declared'' demo_drafted = Inr t \<and>
     seed_feedback P1 t [(''qa_feedback'', [])] =
       dict_set ''qa_feedback'' (rework_feedback_text (strip ''Name the owners'')) [(''qa_feedback'', [])]"
proof -
  have written: "require_text ''Name the owners'' = Some ''Name the owners''"
    by (simp add: require_text_def strip_def lstrip_def is_space_def)
  have one: "phase_of_int 1 = Some P1" by (simp add: phase_of_int_def)
  obtain t where t: "flow_return_for_rework (demo_env ''d3'') 1 ''Bob Ray'' ''Name the owners'' ''declared'' demo_drafted = Inr t"
    using rework_total [OF demo_drafted_inv demo_env_simps(1) [of "''d3''"] demo_env_simps(2) toy_crypto_ok
        demo_drafted_facts(2) one demo_reviewer(1) written demo_reviewer(2) demo_drafted_sod(2)] by blast
  have "demo_drafted = audit_after toy_crypto (Some ''k'') (new_audit ''Access'' ''Payroll'' [''SOX''] None) (take 2 demo_ops)"
    by (simp only: demo_drafted_def demo_start_def)
  from rerun_feedback [OF toy_crypto_ok this demo_env_simps(1,2) one, of "''d3''" "''Bob Ray''" "''Name the owners''" "''declared''" t]
  show ?thesis using t by auto
qed

section \<open>How often a crew runs\<close>

lemma crew_parameter:
  "start_generation_run env (re\<lparr>crew := c\<rparr>) p s = start_generation_run env re p s"
  "crew_error (re\<lparr>crew := c\<rparr>) p which msg s = crew_error re p which msg s"
  "store_passed (re\<lparr>crew := c\<rparr>) p a s = store_passed re p a s"
  "store_rejected (re\<lparr>crew := c\<rparr>) p q why a s = store_rejected re p q why a s"
  "c n ins = crew re n ins \<Longrightarrow> try_attempt env (re\<lparr>crew := c\<rparr>) p n ins s = try_attempt env re p n ins s"
  by (simp_all add: start_generation_run_def crew_error_def store_passed_def store_rejected_def try_attempt_def close_run_def
      cong: if_cong option.case_cong crew_result.case_cong)

definition counted :: "nat \<Rightarrow> nat \<Rightarrow> audit_flow \<Rightarrow> bool" where
  "counted l n s \<longleftrightarrow> length (generation_runs s) = l + 1 \<and> run_attempts (last (generation_runs s)) = n"

lemma counted_try: "try_attempt env re p n ins s = (t, r) \<Longrightarrow> length (generation_runs s) = l + 1 \<Longrightarrow> counted l n t"
  by (auto simp: counted_def try_attempt_def update_run_def Let_def split: crew_result.splits prod.splits if_splits)

lemma counted_closed: "counted l n s \<Longrightarrow> counted l n (close_run re out s)"
  by (auto simp: counted_def close_run_def update_run_def)

lemma counted_fail: "fail_phase p why s = Inr t \<Longrightarrow> counted l n s \<Longrightarrow> counted l n t"
  by (auto simp: fail_phase_def bindE_Inr_iff move_iff counted_def commit_status_def)

lemma counted_set: "set_artifact p a s = Some t \<Longrightarrow> counted l n s \<Longrightarrow> counted l n t"
  by (cases p; cases a) (auto simp: counted_def elim!: set_artifact.elims)

lemma counted_error: "crew_error re p which msg s = Inr (t, ok) \<Longrightarrow> counted l n s \<Longrightarrow> counted l n t"
  using counted_fail counted_closed by (auto simp: crew_error_def bindE_Inr_iff)

lemma counted_passed: "store_passed re p a s = Inr (t, ok) \<Longrightarrow> counted l n s \<Longrightarrow> counted l n t"
  using counted_fail counted_closed counted_set by (fastforce simp: store_passed_def bindE_Inr_iff split: option.splits)

lemma counted_rejected:
  assumes "store_rejected re p q why a s = Inr t" "counted l n s"
  shows "counted l n t"
proof -
  obtain s1 where s1: "s1 = (case set_artifact p a s of None \<Rightarrow> clear_artifact p s | Some t \<Rightarrow> t)"
    "\<exists>u. move (Reject p) (close_run re ''qa_rejected'' s1) = Inr u \<and> generation_runs t = generation_runs u"
    using assms(1) by (auto simp: store_rejected_def Let_def bindE_Inr_iff)
  have "counted l n s1"
    using s1(1) assms(2) counted_set [of p a s] by (cases p) (auto simp: clear_artifact_def counted_def split: option.splits)
  from counted_closed [OF this] s1(2) show ?thesis by (auto simp: move_iff counted_def commit_status_def)
qed

lemma run_crew_count:
  assumes "run_crew_with_qa env re p inputs s = Inr (t, ok)"
  shows "length (generation_runs t) = length (generation_runs s) + 1 \<and> run_attempts (last (generation_runs t)) \<in> {1, 2}"
proof -
  let ?l = "length (generation_runs s)"
  from run_crew_cases [OF assms] obtain run s1 r1 where
    a1: "try_attempt env re p 1 inputs (s\<lparr>generation_runs := generation_runs s @ [run]\<rparr>) = (s1, r1)"
    and r1: "case r1 of
        Attempt_error msg \<Rightarrow> crew_error re p ''crew'' msg s1 = Inr (t, ok)
      | Attempt_passed a \<Rightarrow> store_passed re p a s1 = Inr (t, ok)
      | Attempt_rejected q why a \<Rightarrow>
          (\<exists>s2 r2. try_attempt env re p 2 (second_try p why inputs) s1 = (s2, r2) \<and>
             (case r2 of
                Attempt_error msg \<Rightarrow> crew_error re p ''crew retry'' msg s2 = Inr (t, ok)
              | Attempt_passed b \<Rightarrow> store_passed re p b s2 = Inr (t, ok)
              | Attempt_rejected q2 why2 b \<Rightarrow> store_rejected re p q2 why2 b s2 = Inr t \<and> \<not> ok))"
    by blast
  have s1: "counted ?l 1 s1" by (rule counted_try [OF a1]) simp
  have "counted ?l 1 t \<or> counted ?l 2 t"
  proof (cases r1)
    case (Attempt_rejected q why a)
    then obtain s2 r2 where a2: "try_attempt env re p 2 (second_try p why inputs) s1 = (s2, r2)"
      and r2: "case r2 of
                Attempt_error msg \<Rightarrow> crew_error re p ''crew retry'' msg s2 = Inr (t, ok)
              | Attempt_passed b \<Rightarrow> store_passed re p b s2 = Inr (t, ok)
              | Attempt_rejected q2 why2 b \<Rightarrow> store_rejected re p q2 why2 b s2 = Inr t \<and> \<not> ok"
      using r1 by auto
    have "counted ?l 2 s2" by (rule counted_try [OF a2]) (use s1 in \<open>simp add: counted_def\<close>)
    then show ?thesis using r2 counted_error counted_passed counted_rejected by (cases r2) auto
  qed (use r1 s1 counted_error counted_passed in auto)
  then show ?thesis by (auto simp: counted_def)
qed

text \<open>One generation runs a crew at most twice: the outcome and the whole state it
  leaves depend on the crew only through its answers to the first attempt and to one retry, and
  the run it records counts one or two attempts.\<close>
lemma crew_runs_at_most_twice:
  assumes "run_crew_with_qa env re p inputs s = Inr (t, ok)"
    and "\<And>n ins. n \<in> {1, 2} \<Longrightarrow> c n ins = crew re n ins"
  shows "run_crew_with_qa env (re\<lparr>crew := c\<rparr>) p inputs s = Inr (t, ok) \<and>
     length (generation_runs t) = length (generation_runs s) + 1 \<and> run_attempts (last (generation_runs t)) \<in> {1, 2}"
proof -
  have "run_crew_with_qa env (re\<lparr>crew := c\<rparr>) p inputs s = run_crew_with_qa env re p inputs s"
    using assms(2) unfolding run_crew_with_qa_def by (simp add: crew_parameter Let_def cong: option.case_cong)
  then show ?thesis using assms(1) run_crew_count by simp
qed

theorem crew_runs_at_most_twice_witness:
  "\<exists>t. run_crew_with_qa (demo_env []) ((demo_run (Racm demo_racm))\<lparr>crew := \<lambda>n ins.
        if n = 3 then Crew_raised [] else crew (demo_run (Racm demo_racm)) n ins\<rparr>) P1 [] demo_start = Inr (t, True) \<and>
     run_attempts (last (generation_runs t)) \<in> {1, 2}"
proof -
  obtain t where "run_crew_with_qa (demo_env []) (demo_run (Racm demo_racm)) P1 [] demo_start = Inr (t, True)"
    by (simp add: run_crew_with_qa_def start_generation_run_def demo_run_def try_attempt_def update_run_def qa_rejection_def
        evidence_rejection_def store_passed_def close_run_def Let_def)
  moreover have "(if n = 3 then Crew_raised [] else crew (demo_run (Racm demo_racm)) n ins) = crew (demo_run (Racm demo_racm)) n ins"
    if "n \<in> {1, 2}" for n :: nat and ins using that by auto
  ultimately show ?thesis
    using crew_runs_at_most_twice [of "demo_env []" "demo_run (Racm demo_racm)" P1 "[]" demo_start t True
        "\<lambda>n ins. if n = 3 then Crew_raised [] else crew (demo_run (Racm demo_racm)) n ins"] by blast
qed

section \<open>The prompt fingerprint\<close>

lemma big_endian_length [simp]: "length (big_endian k n) = k"
  by (induction k) simp_all

lemma char_of_eq: "char_of (a :: nat) = char_of b \<longleftrightarrow> a mod 256 = b mod 256"
  by (metis char_of_mod_256 of_char_of)

lemma big_endian_mod: "big_endian k m = big_endian k n \<Longrightarrow> m mod 256 ^ k = n mod 256 ^ k"
proof (induction k)
  case (Suc k)
  then have "m div 256 ^ k mod 256 = n div 256 ^ k mod 256" "m mod 256 ^ k = n mod 256 ^ k" by (simp_all add: char_of_eq)
  then have "m mod (256 ^ k * 256) = n mod (256 ^ k * 256)" unfolding mod_mult2_eq by simp
  then show ?case by (simp add: mult.commute)
qed simp

lemma big_endian_inj: "big_endian k m = big_endian k n \<Longrightarrow> m < 256 ^ k \<Longrightarrow> n < 256 ^ k \<Longrightarrow> m = n"
  using big_endian_mod [of k m n] by simp

lemma big_endian_8: "big_endian 8 n \<noteq> []"
  by (metis big_endian_length list.size(3) zero_neq_numeral)

lemma framed_inj:
  assumes "framed xs = framed ys" "\<forall>x\<in>set xs \<union> set ys. length x < 256 ^ 8"
  shows "xs = ys"
  using assms
proof (induction xs arbitrary: ys)
  case Nil
  then show ?case by (cases ys) (auto simp: framed_def big_endian_8)
next
  case (Cons x xs)
  then obtain y zs where ys: "ys = y # zs" by (cases ys) (auto simp: framed_def big_endian_8)
  have eq: "big_endian 8 (length x) @ x @ framed xs = big_endian 8 (length y) @ y @ framed zs"
    using Cons.prems(1) by (simp only: framed_def ys list.map concat.simps append_assoc)
  then have "big_endian 8 (length x) = big_endian 8 (length y)" "x @ framed xs = y @ framed zs"
    unfolding append_eq_append_conv [OF disjI1 [OF trans [OF big_endian_length big_endian_length [symmetric]]]] by simp_all
  moreover from this have "length x = length y" using big_endian_inj Cons.prems(2) ys by simp
  ultimately show ?case using Cons.IH [of zs] Cons.prems(2) ys by simp
qed

definition prompt_parts :: "string \<times> string \<Rightarrow> skill list \<Rightarrow> string list" where
  "prompt_parts config skills =
     [fst config, snd config] @ (if skills \<noteq> [] then [get_specialist_prompt skills] else [])"

lemma framed_length: "length (framed xs) = (\<Sum>x\<leftarrow>xs. 8 + length x)"
  by (induction xs) (simp_all add: framed_def)

text \<open>The recorded prompt fingerprint identifies the prompt: with parts
  below \<open>2 ^ 64\<close> bytes, two runs have the same fingerprint exactly when their agent and task
  files are the same and they were given the same specialist text or both none, unless the two
  framed texts collide under SHA-256. The length prefixes keep the end of one part from being
  read as the start of the next.\<close>
lemma fingerprint_identifies_prompt:
  assumes "no_collision (sha256 cr) {framed (prompt_parts c1 sk1), framed (prompt_parts c2 sk2)}"
    and "\<forall>x\<in>set (prompt_parts c1 sk1) \<union> set (prompt_parts c2 sk2). length x < 2 ^ 64"
  shows "prompt_fingerprint cr c1 sk1 = prompt_fingerprint cr c2 sk2 \<longleftrightarrow>
     c1 = c2 \<and> (sk1 = [] \<longleftrightarrow> sk2 = []) \<and> (sk1 \<noteq> [] \<longrightarrow> get_specialist_prompt sk1 = get_specialist_prompt sk2)"
proof -
  have "prompt_fingerprint cr c1 sk1 = prompt_fingerprint cr c2 sk2 \<longleftrightarrow> prompt_parts c1 sk1 = prompt_parts c2 sk2"
  proof
    assume "prompt_fingerprint cr c1 sk1 = prompt_fingerprint cr c2 sk2"
    then have "sha256 cr (framed (prompt_parts c1 sk1)) = sha256 cr (framed (prompt_parts c2 sk2))"
      by (simp only: prompt_fingerprint_def prompt_parts_def [symmetric] sha256_hex_def hexdigest_inject)
    from no_collisionD [OF assms(1) _ _ this] have "framed (prompt_parts c1 sk1) = framed (prompt_parts c2 sk2)" by blast
    then show "prompt_parts c1 sk1 = prompt_parts c2 sk2" by (rule framed_inj) (use assms(2) in simp)
  qed (simp only: prompt_fingerprint_def prompt_parts_def)
  then show ?thesis by (cases c1; cases c2) (auto simp: prompt_parts_def)
qed

theorem fingerprint_identifies_prompt_witness:
  "prompt_fingerprint toy_crypto (''ab'', ''c'') [] \<noteq> prompt_fingerprint toy_crypto (''a'', ''bc'') []"
proof -
  have "no_collision (sha256 toy_crypto) {framed (prompt_parts (''ab'', ''c'') []), framed (prompt_parts (''a'', ''bc'') [])}"
    by (auto simp: no_collision_def toy_crypto_def inj_on_def)
  from fingerprint_identifies_prompt [OF this] show ?thesis by (simp add: prompt_parts_def)
qed

end
