(* ===== verification/LintProps.thy ===== *)
theory LintProps
  imports Linters FlowCrew
begin

text \<open>
  What a passing linter report says about an artifact, and the linters inside a phase run
  (\<open>AuditFlow.lint_phase_artifact\<close>): which drafts a strict linter keeps from a gate, and which
  periods of reliance switch the fieldwork linter off.
\<close>

section \<open>Reports without an error\<close>

lemma lint_passed_simps [simp]:
  "lint_passed []" "lint_passed (a @ b) \<longleftrightarrow> lint_passed a \<and> lint_passed b"
  "lint_passed (flag_if c (violation rule subject what)) \<longleftrightarrow> \<not> c"
  "lint_passed [violation rule subject what] \<longleftrightarrow> False"
  by (auto simp: lint_passed_def flag_if_def violation_def)

lemma lint_passed_map [simp]: "lint_passed (map (\<lambda>x. violation (rule x) (subject x) (what x)) xs) \<longleftrightarrow> xs = []"
  by (cases xs) (auto simp: lint_passed_def violation_def)

lemma lint_passed_concat: "lint_passed (concat rs) \<longleftrightarrow> (\<forall>r\<in>set rs. lint_passed r)"
  by (induction rs) simp_all

lemma to_feedback_empty: "to_feedback describe r = [] \<longleftrightarrow> lint_passed r"
  by (auto simp: to_feedback_def lint_errors_def lint_passed_def filter_empty_conv list_ex_iff)

section \<open>The RACM\<close>

text \<open>What the rules ask of a control and of a matrix, written as conditions.\<close>

definition prose_ok :: "string \<Rightarrow> bool" where
  "prose_ok txt \<longleftrightarrow> (\<forall>p\<in>set SLOP_PHRASES. \<not> search_word False p (lower txt))"

definition sampled_enough :: "control \<Rightarrow> bool" where
  "sampled_enough c \<longleftrightarrow> (let tp = testing_procedures c in
     (t_sampling_method tp = Some TEST_OF_ONE \<longrightarrow> frequency c \<in> {Some ANNUAL, None}) \<and>
     (\<forall>fr n. frequency c = Some fr \<and> sample_size tp = Some n \<and> t_sampling_method tp \<noteq> Some FULL_POPULATION \<longrightarrow>
        min_sample_size fr \<le> n))"

definition complete_control :: "control \<Rightarrow> bool" where
  "complete_control c \<longleftrightarrow> (let tp = testing_procedures c in
     test_of_design tp \<noteq> [] \<and> test_of_effectiveness tp \<noteq> [] \<and> control_owner c \<noteq> None \<and> frequency c \<noteq> None \<and>
     nature c \<noteq> None \<and> c_control_type c \<noteq> None \<and> key_control c \<noteq> None \<and> substantive_testing tp \<notin> {None, Some []} \<and>
     period_of_reliance tp \<notin> {None, Some []} \<and> t_sampling_method tp \<noteq> None)"

definition control_sound :: "control \<Rightarrow> bool" where
  "control_sound c \<longleftrightarrow> complete_control c \<and> (nature c = Some IT_DEPENDENT_MANUAL \<longrightarrow> ipe c \<noteq> []) \<and>
     (ipe c \<noteq> [] \<or> manual c \<longrightarrow> concrete_completeness (testing_procedures c)) \<and>
     (manual c \<longrightarrow> sampled_enough c) \<and> prose_ok (c_description c)"

definition risk_sound :: "risk \<Rightarrow> bool" where
  "risk_sound r \<longleftrightarrow> controls r \<noteq> [] \<and> (\<forall>x\<in>set (regulatory_mapping r). \<forall>p\<in>set AUDITING_STANDARDS. \<not> found p x) \<and>
     (\<forall>c\<in>set (controls r). control_sound c)"

definition racm_sound :: "racm \<Rightarrow> bool" where
  "racm_sound m \<longleftrightarrow> risks m \<noteq> [] \<and> distinct (map c_control_id (concat (map controls (risks m)))) \<and>
     (\<forall>r\<in>set (risks m). risk_sound r)"

lemma check_slop_passed [simp]: "lint_passed (check_slop txt subject) \<longleftrightarrow> prose_ok txt"
  by (auto simp: check_slop_def prose_ok_def filter_empty_conv)

lemma lint_attributes_passed:
  "lint_passed (lint_attributes c) \<longleftrightarrow> (let tp = testing_procedures c in control_owner c \<noteq> None \<and> frequency c \<noteq> None \<and>
     nature c \<noteq> None \<and> c_control_type c \<noteq> None \<and> key_control c \<noteq> None \<and> substantive_testing tp \<notin> {None, Some []} \<and>
     period_of_reliance tp \<notin> {None, Some []} \<and> t_sampling_method tp \<noteq> None)"
  by (simp add: lint_attributes_def Let_def)

lemma lint_sample_passed:
  "lint_passed (case (frequency c, sample_size tp) of
     (Some fr, Some n) \<Rightarrow> flag_if (b \<and> d \<and> n < min_sample_size fr) (violation rule subject (what fr n)) | _ \<Rightarrow> []) \<longleftrightarrow>
   (\<forall>fr n. frequency c = Some fr \<and> sample_size tp = Some n \<and> b \<and> d \<longrightarrow> min_sample_size fr \<le> n)"
  by (auto split: option.split)

lemma lint_control_passed:
  "lint_passed (lint_control True seen c) \<longleftrightarrow> \<not> seen \<and> control_sound c"
  unfolding lint_control_def control_sound_def complete_control_def sampled_enough_def Let_def if_True lint_passed_simps
    lint_sample_passed lint_attributes_passed check_slop_passed
  by blast

lemma lint_controls_passed:
  "lint_passed (lint_controls True seen cs) \<longleftrightarrow>
     distinct (map c_control_id cs) \<and> set (map c_control_id cs) \<inter> set seen = {} \<and> (\<forall>c\<in>set cs. control_sound c)"
  by (induction cs arbitrary: seen) (auto simp: lint_control_passed)

lemma distinct_seen:
  "distinct a \<and> set a \<inter> s = {} \<and> distinct b \<and> set b \<inter> (set a \<union> s) = {} \<longleftrightarrow> distinct (a @ b) \<and> set (a @ b) \<inter> s = {}"
  by auto

lemma lint_mappings_passed:
  "lint_passed (lint_mappings r) \<longleftrightarrow> (\<forall>x\<in>set (regulatory_mapping r). \<forall>p\<in>set AUDITING_STANDARDS. \<not> found p x)"
  unfolding lint_mappings_def lint_passed_map filter_empty_conv list_ex_iff by blast

lemma lint_risks_passed:
  "lint_passed (lint_risks True seen rs) \<longleftrightarrow>
     distinct (map c_control_id (concat (map controls rs))) \<and> set (map c_control_id (concat (map controls rs))) \<inter> set seen = {} \<and>
     (\<forall>r\<in>set rs. risk_sound r)"
proof (induction rs arbitrary: seen)
  case (Cons r rs)
  let ?a = "map c_control_id (controls r)" and ?b = "map c_control_id (concat (map controls rs))"
  have "lint_passed (lint_risks True seen (r # rs)) \<longleftrightarrow>
      (distinct ?a \<and> set ?a \<inter> set seen = {} \<and> distinct ?b \<and> set ?b \<inter> (set ?a \<union> set seen) = {}) \<and>
      risk_sound r \<and> (\<forall>r\<in>set rs. risk_sound r)"
    unfolding lint_risks.simps lint_passed_simps Cons.IH lint_controls_passed lint_mappings_passed risk_sound_def set_append set_rev
    by blast
  also have "\<dots> \<longleftrightarrow> (distinct (?a @ ?b) \<and> set (?a @ ?b) \<inter> set seen = {}) \<and> (\<forall>r\<in>set (r # rs). risk_sound r)"
    unfolding distinct_seen by simp
  finally show ?case by simp
qed simp

lemma lint_racm_passed: "lint_passed (lint_racm True m) \<longleftrightarrow> racm_sound m"
  by (simp add: lint_racm_def racm_sound_def lint_risks_passed)

section \<open>The working papers\<close>

lemma controls_by_id_keys: "set (map fst (controls_by_id (Some m))) = set (map c_control_id (concat (map controls (risks m))))"
proof -
  have "set (map fst (foldl (\<lambda>d c. dict_set (c_control_id c) c d) d cs)) = set (map fst d) \<union> set (map c_control_id cs)"
    for d :: "(string \<times> control) list" and cs
    by (induction cs arbitrary: d) (auto simp: dom_update)
  from this [of "[]"] show ?thesis by (simp add: controls_by_id_def)
qed

text \<open>What a finding that passes does not do.\<close>

definition counts_sound :: "rat \<Rightarrow> finding \<Rightarrow> bool" where
  "counts_sound tolerable f \<longleftrightarrow>
     (\<forall>n e. items_tested f = Some n \<and> exceptions_noted f = Some e \<longrightarrow>
        e \<le> n \<and> (toe_conclusion f = TOE_EFFECTIVE \<and> 0 < e \<longrightarrow> rat_of_nat e / rat_of_nat n \<le> tolerable)) \<and>
     (f_result f = Some NOT_TESTED \<longrightarrow> or_zero (items_tested f) = 0 \<and> or_zero (exceptions_noted f) = 0) \<and>
     preliminary_deficiency f = Some (f_result f = Some EXCEPTION)"

text \<open>Under the traps a tested finding with a quote does not claim effectiveness against what it quotes.\<close>

definition password_sound :: "string \<Rightarrow> control option \<Rightarrow> bool" where
  "password_sound quote c \<longleftrightarrow> (\<forall>x n. c = Some x \<and> group_1 PASSWORD_LENGTH quote = Some n \<longrightarrow>
     (case group_1 REQUIRED_LENGTH (all_steps_text x) of None \<Rightarrow> 14 | Some k \<Rightarrow> str_nat k) \<le> str_nat n)"

definition quote_sound :: "finding \<Rightarrow> control option \<Rightarrow> bool" where
  "quote_sound f c \<longleftrightarrow> (f_result f \<noteq> Some NOT_TESTED \<and> strip (exact_quote f) \<noteq> [] \<longrightarrow>
     (claims_effective f \<longrightarrow> (\<forall>p\<in>set (map fst INVERSIONS @ PARTIAL_READS). \<not> found p (strip (exact_quote f))) \<and>
        password_sound (strip (exact_quote f)) c) \<and>
     \<not> trap_3 f c \<and> \<not> fullmatch ENVELOPE (strip (exact_quote f)))"

definition reliance_sound :: "working_papers \<Rightarrow> racm option \<Rightarrow> finding \<Rightarrow> bool" where
  "reliance_sound wp m f \<longleftrightarrow> (\<forall>b. toe_basis f = Some b \<and> b \<noteq> [] \<and> toe_conclusion f = TOE_EFFECTIVE \<and>
     found ITGC_RELIANCE b \<and> \<not> found CONFIG_HISTORY b \<longrightarrow> failed_itgcs wp m (f_control_id f) = [])"

definition citation_sound :: "(string \<Rightarrow> string \<Rightarrow> raised + bool) option \<Rightarrow> finding \<Rightarrow> bool" where
  "citation_sound verify f \<longleftrightarrow> (\<forall>quote_ok. verify = Some quote_ok \<and> f_result f \<noteq> Some NOT_TESTED \<longrightarrow>
     strip (exact_quote f) \<noteq> [] \<and> strip (vault_id_reference f) \<noteq> [] \<and>
     quote_ok (strip (vault_id_reference f)) (strip (exact_quote f)) = Inr True)"

definition finding_sound :: "lint_env \<Rightarrow> working_papers \<Rightarrow> racm option \<Rightarrow> finding \<Rightarrow> bool" where
  "finding_sound le wp m f \<longleftrightarrow> counts_sound (tolerable_rate le) f \<and> citation_sound (quote_check le) f \<and>
     reliance_sound wp m f \<and> quote_sound f (map_of (controls_by_id m) (f_control_id f)) \<and> prose_ok (test_conclusion f)"

lemma trap_4_passed: "lint_passed (trap_4 f c quote) \<longleftrightarrow> password_sound quote c"
  by (cases c; cases "group_1 PASSWORD_LENGTH quote") (simp_all add: trap_4_def password_sound_def Let_def not_less)

lemma lint_passed_map_pairs: "lint_passed (map (\<lambda>(p, what). violation rule subject (h p what)) xs) \<longleftrightarrow> xs = []"
  by (cases xs) (auto simp: lint_passed_def violation_def)

lemma no_inversion: "filter (\<lambda>(p, what). found p quote) xs = [] \<longleftrightarrow> (\<forall>p\<in>set (map fst xs). \<not> found p quote)"
  by (induction xs) auto

lemma lint_traps_passed: "lint_passed (lint_distortion_traps f c) \<longleftrightarrow> quote_sound f c"
  unfolding lint_distortion_traps_def quote_sound_def Let_def
  by (auto simp: lint_passed_map_pairs trap_4_passed no_inversion list_ex_iff simp del: set_map list.map)

lemma lint_reliance_passed: "lint_passed (lint_reliance wp m f) \<longleftrightarrow> reliance_sound wp m f"
  by (cases "toe_basis f") (auto simp: lint_reliance_def reliance_sound_def Let_def)

lemma lint_counts_passed:
  "lint_passed (lint_arithmetic f) \<and> lint_passed (lint_deviation tolerable f) \<longleftrightarrow> counts_sound tolerable f"
  by (cases "items_tested f"; cases "exceptions_noted f")
     (auto simp: lint_arithmetic_def lint_deviation_def counts_sound_def Let_def not_less)

lemma lint_citation_passed: "lint_citation verify f = Inr r \<Longrightarrow> lint_passed r \<longleftrightarrow> citation_sound verify f"
  by (auto simp: lint_citation_def citation_sound_def Let_def split: option.splits if_splits sum.splits)

text \<open>A date outside the period of reliance is a warning, so it does not fail a report.\<close>

lemma lint_period_passed: "lint_period collected c f = Inr r \<Longrightarrow> lint_passed r"
proof -
  have warn: "lint_passed [\<lparr>rule_id = i, lint_subject = x, lint_problem = y, is_error = False\<rparr>]" for i x y
    by (simp add: lint_passed_def)
  have "lint_passed r" if "(case (day, bounds) of
       (Some day, Some b) \<Rightarrow> bindE (outside_period day b) (\<lambda>out. Inr (if out
         then [\<lparr>rule_id = ''D11'', lint_subject = f_control_id f, lint_problem = Outside_period day (fst b) (snd b), is_error = False\<rparr>]
         else []))
     | _ \<Rightarrow> Inr []) = Inr r" for day bounds
    using that warn by (cases day; cases bounds) (auto simp: bindE_Inr_iff)
  then show "lint_period collected c f = Inr r \<Longrightarrow> lint_passed r"
    by (cases c) (auto simp: lint_period_def Let_def bindE_Inr_iff simp del: prod.case split: if_splits)
qed

lemma lint_finding_passed:
  assumes "lint_finding le wp m f = Inr v"
  shows "lint_passed v \<longleftrightarrow> finding_sound le wp m f"
proof -
  from assms obtain cit per where parts: "lint_citation (quote_check le) f = Inr cit"
    "lint_period (collected_on le) (map_of (controls_by_id m) (f_control_id f)) f = Inr per"
    and v: "v = lint_arithmetic f @ cit @ lint_reliance wp m f @ per @ lint_deviation (tolerable_rate le) f @
      lint_distortion_traps f (map_of (controls_by_id m) (f_control_id f)) @ check_slop (test_conclusion f) (f_control_id f)"
    by (auto simp: lint_finding_def bindE_Inr_iff Let_def)
  have "counts_sound (tolerable_rate le) f \<longleftrightarrow> lint_passed (lint_arithmetic f) \<and> lint_passed (lint_deviation (tolerable_rate le) f)"
    by (rule lint_counts_passed [symmetric])
  with lint_period_passed [OF parts(2)] show ?thesis
    unfolding v lint_passed_simps finding_sound_def lint_citation_passed [OF parts(1)] lint_reliance_passed lint_traps_passed
      check_slop_passed by blast
qed

lemma collectE_passed:
  assumes "\<And>f v. f \<in> set xs \<Longrightarrow> g f = Inr v \<Longrightarrow> lint_passed v \<longleftrightarrow> P f" and "collectE g xs = Inr vs"
  shows "lint_passed vs \<longleftrightarrow> (\<forall>f\<in>set xs. P f)"
  using assms
proof (induction xs arbitrary: vs)
  case (Cons a xs)
  from Cons.prems(2) obtain p q where p: "g a = Inr p" "collectE g xs = Inr q" "vs = p @ q" by (auto simp: bindE_Inr_iff)
  moreover have "lint_passed q \<longleftrightarrow> (\<forall>f\<in>set xs. P f)" using Cons.IH Cons.prems(1) p(2) by simp
  moreover have "lint_passed p \<longleftrightarrow> P a" using Cons.prems(1) p(1) by simp
  ultimately show ?case by simp
qed simp

lemma coverage_passed: "lint_passed (lint_coverage wp (Some m)) \<longleftrightarrow>
    set (map f_control_id (findings wp)) = set (map c_control_id (concat (map controls (risks m))))"
  unfolding controls_by_id_keys [symmetric]
  by (auto simp: lint_coverage_def Let_def filter_empty_conv)

lemma lint_papers_passed:
  assumes "lint_working_papers le wp (Some m) = Inr r"
  shows "lint_passed r \<longleftrightarrow> set (map f_control_id (findings wp)) = set (map c_control_id (concat (map controls (risks m)))) \<and>
     (\<forall>f\<in>set (findings wp). finding_sound le wp (Some m) f)"
proof -
  from assms obtain vs where vs: "collectE (lint_finding le wp (Some m)) (findings wp) = Inr vs" "r = lint_coverage wp (Some m) @ vs"
    by (auto simp: lint_working_papers_def bindE_Inr_iff)
  from collectE_passed [where P = "finding_sound le wp (Some m)", OF _ this(1)] lint_finding_passed
  have "lint_passed vs \<longleftrightarrow> (\<forall>f\<in>set (findings wp). finding_sound le wp (Some m) f)" by blast
  then show ?thesis unfolding vs(2) lint_passed_simps coverage_passed by blast
qed

section \<open>The linters inside a phase run\<close>

text \<open>
  \<open>lint_phase_artifact\<close>: the artifact, or the one in the state when the crew returned none. It is
  called without the quote check and with a tolerable rate of 0; every exception is caught and
  answered with an empty, passing report.
\<close>

definition stored_artifact :: "audit_flow \<Rightarrow> phase \<Rightarrow> artifact option" where
  "stored_artifact s p = (case p of P1 \<Rightarrow> map_option Racm (racm_plan s) | P2 \<Rightarrow> map_option Papers (papers s)
     | P3 \<Rightarrow> map_option Report (report s))"

definition lint_phase_artifact ::
  "(string \<Rightarrow> ymd option) \<Rightarrow> flow_env \<Rightarrow> audit_flow \<Rightarrow> phase \<Rightarrow> artifact option \<Rightarrow> lint_report" where
  "lint_phase_artifact collected env s p a =
     (case (p, if a = None then stored_artifact s p else a) of
        (P1, Some (Racm m)) \<Rightarrow> lint_racm True m
      | (P2, Some (Papers wp)) \<Rightarrow>
          if racm_plan s = None then []
          else (case lint_working_papers \<lparr>quote_check = None, collected_on = collected, tolerable_rate = 0\<rparr> wp (racm_plan s) of
            Inl e \<Rightarrow> [] | Inr r \<Rightarrow> r)
      | (P3, Some (Report rp)) \<Rightarrow>
          if racm_plan s = None then []
          else (case effective_working_papers env s of
            Inl e \<Rightarrow> [] | Inr None \<Rightarrow> []
          | Inr (Some wp) \<Rightarrow> lint_report_of rp (Some wp) (racm_plan s)
              (Some (deficiency_scale_for_scope (theme s) (business_context s) (frameworks s))))
      | _ \<Rightarrow> [])"

text \<open>A run whose linter is the program's; \<open>describe\<close> gives the texts of the messages.\<close>

definition linted ::
  "(string \<Rightarrow> ymd option) \<Rightarrow> (lint_problem \<Rightarrow> string) \<Rightarrow> flow_env \<Rightarrow> audit_flow \<Rightarrow> run_env \<Rightarrow> run_env" where
  "linted collected describe env s re = re\<lparr>lint := \<lambda>n p a. let r = lint_phase_artifact collected env s p a in
     (lint_passed r, map rule_id (lint_errors r), to_feedback describe r)\<rparr>"

lemma strict_gate_lints:
  assumes "generate dump env (linted collected describe env s re) p s = Inr (t, e)"
    and "machine t = WAITING_HUMAN_GATE q" and "strict_linter re"
  shows "\<exists>x. stored p x t \<and> lint_passed (lint_phase_artifact collected env s p (Some x))"
proof -
  let ?re = "linted collected describe env s re"
  from generate_reached [OF assms(1,2)] obtain n x where
    x: "stored p x t" "strict_linter ?re \<longrightarrow> fst (lint ?re n p (Some x)) \<or> snd (snd (lint ?re n p (Some x))) = []"
    unfolding passed_from_def reviewed_def by blast
  moreover have "strict_linter ?re" using assms(3) by (simp add: linted_def)
  ultimately show ?thesis by (auto simp: linted_def Let_def to_feedback_empty)
qed

section \<open>The report\<close>

definition evaluation_sound :: "working_papers \<Rightarrow> racm \<Rightarrow> deficiency_scale option \<Rightarrow> deficiency \<Rightarrow> bool" where
  "evaluation_sound wp m scale e \<longleftrightarrow>
     (\<forall>i\<in>set (related_findings e). map_of (findings_by_id wp) i \<noteq> None) \<and>
     set (related_risks e) \<subseteq> set (map r_risk_id (risks m)) \<and>
     (\<forall>s. scale = Some s \<longrightarrow> classification e \<in> set (scale_classifications s)) \<and>
     material_weakness_ok (classification e) (likelihood e) (magnitude e) \<and>
     (strip (compensating_controls e) \<noteq> [] \<and> lower (strip (compensating_controls e)) \<notin> set NO_COMPENSATION \<longrightarrow>
        (\<forall>i\<in>set (findall CITED_CONTROL (strip (compensating_controls e))).
           \<exists>f. map_of (findings_by_id wp) i = Some f \<and> f_result f = Some NO_EXCEPTION \<and> toe_conclusion f = TOE_EFFECTIVE)) \<and>
     prose_ok (e_rationale e)"

definition section_sound :: "deficiency_scale option \<Rightarrow> string \<Rightarrow> bool" where
  "section_sound scale txt \<longleftrightarrow> prose_ok txt \<and> (\<forall>p\<in>set CERTIFICATION_CLAIMS. \<not> found p txt) \<and>
     (scale = Some RISK_RATING \<longrightarrow> \<not> found ICFR_TERMS txt)"

lemma lint_section_passed: "lint_passed (lint_section scale what txt) \<longleftrightarrow> section_sound scale txt"
  unfolding lint_section_def section_sound_def lint_passed_simps lint_passed_map filter_empty_conv check_slop_passed by blast

lemma lint_compensating_passed:
  "lint_passed (lint_compensating known_findings e) \<longleftrightarrow>
     (strip (compensating_controls e) \<noteq> [] \<and> lower (strip (compensating_controls e)) \<notin> set NO_COMPENSATION \<longrightarrow>
        (\<forall>i\<in>set (findall CITED_CONTROL (strip (compensating_controls e))).
           \<exists>f. map_of known_findings i = Some f \<and> f_result f = Some NO_EXCEPTION \<and> toe_conclusion f = TOE_EFFECTIVE))"
proof -
  have "lint_passed (case map_of known_findings i of None \<Rightarrow> [violation ''D9'' did (Compensating_unknown i)]
        | Some f \<Rightarrow> flag_if (f_result f \<noteq> Some NO_EXCEPTION \<or> toe_conclusion f \<noteq> TOE_EFFECTIVE)
            (violation ''D9'' did (Compensating_ineffective i))) \<longleftrightarrow>
      (\<exists>f. map_of known_findings i = Some f \<and> f_result f = Some NO_EXCEPTION \<and> toe_conclusion f = TOE_EFFECTIVE)" for i did
    by (simp split: option.split)
  then show ?thesis by (auto simp: lint_compensating_def Let_def lint_passed_concat)
qed

lemma lint_evaluation_passed: "lint_passed (lint_evaluation (Some wp) (Some m) scale e) \<longleftrightarrow> evaluation_sound wp m scale e"
proof -
  have "lint_passed (case scale of None \<Rightarrow> [] | Some s \<Rightarrow>
         flag_if (classification e \<notin> set (scale_classifications s)) (violation ''D14'' (deficiency_id e) Wrong_scale)) \<longleftrightarrow>
      (\<forall>s. scale = Some s \<longrightarrow> classification e \<in> set (scale_classifications s))"
    by (cases scale) simp_all
  then show ?thesis
    unfolding lint_evaluation_def Let_def lint_passed_simps evaluation_sound_def lint_compensating_passed check_slop_passed
    by (auto simp: filter_empty_conv)
qed

definition report_sound :: "final_report \<Rightarrow> working_papers \<Rightarrow> racm \<Rightarrow> deficiency_scale option \<Rightarrow> bool" where
  "report_sound rp wp m scale \<longleftrightarrow>
     (\<forall>f\<in>set (findings wp). preliminary_deficiency f = Some True \<longrightarrow>
        (\<exists>e\<in>set (deficiency_evaluations rp). f_control_id f \<in> set (related_findings e))) \<and>
     (\<forall>e\<in>set (deficiency_evaluations rp). evaluation_sound wp m scale e) \<and>
     section_sound scale (executive_summary rp) \<and> section_sound scale (detailed_report rp)"

lemma lint_report_passed: "lint_passed (lint_report_of rp (Some wp) (Some m) scale) \<longleftrightarrow> report_sound rp wp m scale"
proof -
  have "lint_passed (lint_deficiency_evaluations es (Some wp) (Some m) scale) \<longleftrightarrow>
      (\<forall>e\<in>set es. evaluation_sound wp m scale e) \<and>
      (\<forall>f\<in>set (findings wp). preliminary_deficiency f = Some True \<longrightarrow> (\<exists>e\<in>set es. f_control_id f \<in> set (related_findings e)))" for es
    by (auto simp: lint_deficiency_evaluations_def Let_def lint_passed_concat lint_evaluation_passed filter_empty_conv list_ex_iff)
  then show ?thesis
    unfolding lint_report_of_def lint_passed_simps lint_section_passed report_sound_def by blast
qed

section \<open>A period of reliance that stops the linter\<close>

definition stops_lint :: "(string \<Rightarrow> ymd option) \<Rightarrow> string option \<Rightarrow> string \<Rightarrow> bool" where
  "stops_lint collected period vid \<longleftrightarrow> period \<notin> {None, Some []} \<and>
     (case extract_year_bounds period of
        Inl e \<Rightarrow> True
      | Inr None \<Rightarrow> False
      | Inr (Some b) \<Rightarrow> (case collected vid of None \<Rightarrow> False
          | Some day \<Rightarrow> \<not> date_less day (fst b) \<and> MAX_ORDINAL < ordinal (snd b) + 90))"

lemma stopped_finding:
  assumes "stops_lint (collected_on le) (period_of_reliance (testing_procedures c)) (vault_id_reference f)"
    and "map_of (controls_by_id m) (f_control_id f) = Some c" "vault_id_reference f \<noteq> []" "quote_check le = None"
  shows "\<exists>e. lint_finding le wp m f = Inl e"
proof -
  have "\<exists>e. lint_period (collected_on le) (Some c) f = Inl e"
    using assms(1,3)
    by (auto simp: stops_lint_def lint_period_def Let_def outside_period_def split: sum.splits option.splits)
  then show ?thesis using assms(2,4) by (auto simp: lint_finding_def lint_citation_def)
qed

lemma collectE_stops: "x \<in> set xs \<Longrightarrow> f x = Inl e \<Longrightarrow> \<exists>e. collectE f xs = Inl e"
proof (induction xs)
  case (Cons a xs)
  show ?case
  proof (cases "f a")
    case (Inr ys)
    with Cons obtain d where "collectE f xs = Inl d" by auto
    with Inr show ?thesis by simp
  qed simp
qed simp

section \<open>Properties\<close>

text \<open>The RACM linter is exactly its rules: a matrix passes if and only if it has a
  risk, every risk has a control and cites no auditing standard (D6, D13), no control id occurs
  twice (D1), and every control has its procedures and attributes (D6), a concrete completeness
  procedure where it is manual or uses IPE (D10), a sample of at least the AICPA minimum (D7) and
  a description without a slop phrase (D14).\<close>
lemma racm_linter_spec: "lint_passed (lint_racm True m) \<longleftrightarrow> racm_sound m"
  by (rule lint_racm_passed)


text \<open>The report linter is exactly its rules: with working papers and a matrix, a report
  passes if and only if every deficient finding is in an evaluation (D4), every evaluation refers
  to known findings and risks, stays on the scale of the engagement, keeps the floor of a material
  weakness and relies on effective compensating controls only (D4, D9, D14), and neither section
  certifies compliance nor uses terms of another scale.\<close>
lemma report_linter_spec:
  "lint_passed (lint_report_of rp (Some wp) (Some m) scale) \<longleftrightarrow> report_sound rp wp m scale"
  by (rule lint_report_passed)

definition sound_control :: control where
  "sound_control = \<lparr>c_control_id = ''c1'', c_description = ''mfa'', control_owner = Some ''it'', frequency = Some ANNUAL,
     nature = Some AUTOMATED, c_control_type = Some PREVENTIVE, key_control = Some True, assertions = [], ipe = [],
     testing_procedures = \<lparr>test_of_design = [\<lparr>step_description = ''a'', expected_result = ''b''\<rparr>],
       test_of_effectiveness = [\<lparr>step_description = ''a'', expected_result = ''b''\<rparr>],
       substantive_testing = Some [\<lparr>step_description = ''a'', expected_result = ''b''\<rparr>], t_population = None,
       sample_size = None, t_sampling_method = Some TEST_OF_ONE, period_of_reliance = Some ''FY0000''\<rparr>\<rparr>"

definition sound_racm :: racm where
  "sound_racm = \<lparr>rm_theme = ''access'', risks = [\<lparr>r_risk_id = ''r1'', r_description = [], r_likelihood = None, impact = None,
     rating_rationale = None, regulatory_mapping = [''soc2''], controls = [sound_control]\<rparr>]\<rparr>"

lemma sound_racm_passes: "lint_passed (lint_racm True sound_racm)"
  by code_simp

definition sound_finding :: finding where
  "sound_finding = \<lparr>f_control_id = ''c1'', vault_id_reference = [], exact_quote = [],
     tod_conclusion = TOD_NOT_TESTED, toe_conclusion = TOE_NOT_TESTED, toe_basis = None, items_tested = None,
     exceptions_noted = None, f_result = Some NOT_TESTED, preliminary_deficiency = Some False, test_conclusion = ''n/a'',
     legacy_severity = None\<rparr>"

definition no_vault :: lint_env where
  "no_vault = \<lparr>quote_check = None, collected_on = \<lambda>v. None, tolerable_rate = 0\<rparr>"




text \<open>The fieldwork linter fails open: one cited finding on a control whose period of
  reliance is a fiscal year 0, or ends within 90 days of the last date there is, makes it raise,
  and the phase run takes the exception for an empty report. Whatever else the papers hold, they
  pass, under AUDIT_STRICT_LINTER=1 as well.\<close>
lemma period_disables_linter:
  assumes "racm_plan s = Some m" and "f \<in> set (findings wp)" and "vault_id_reference f \<noteq> []"
    and "map_of (controls_by_id (Some m)) (f_control_id f) = Some c"
    and "stops_lint collected (period_of_reliance (testing_procedures c)) (vault_id_reference f)"
  shows "lint_phase_artifact collected env s P2 (Some (Papers wp)) = []"
proof -
  let ?le = "\<lparr>quote_check = None, collected_on = collected, tolerable_rate = 0\<rparr>"
  have "stops_lint (collected_on ?le) (period_of_reliance (testing_procedures c)) (vault_id_reference f)" "quote_check ?le = None"
    using assms(5) by simp_all
  from stopped_finding [OF this(1) assms(4,3) this(2)] obtain e where "lint_finding ?le wp (Some m) f = Inl e" by blast
  from collectE_stops [where f = "lint_finding ?le wp (Some m)", OF assms(2) this] obtain e' where
    "lint_working_papers ?le wp (Some m) = Inl e'"
    by (auto simp: lint_working_papers_def)
  with assms(1) show ?thesis by (simp add: lint_phase_artifact_def)
qed

definition unsound_finding :: finding where
  "unsound_finding = \<lparr>f_control_id = ''c1'', vault_id_reference = ''v1'', exact_quote = ''AccessDenied'',
     tod_conclusion = TOD_EFFECTIVE, toe_conclusion = TOE_EFFECTIVE, toe_basis = None, items_tested = Some 1,
     exceptions_noted = Some 2, f_result = Some NO_EXCEPTION, preliminary_deficiency = Some True, test_conclusion = [],
     legacy_severity = None\<rparr>"

definition unsound_papers :: working_papers where
  "unsound_papers = \<lparr>wp_theme = ''access'', findings = [unsound_finding]\<rparr>"

lemma fiscal_year_zero: "extract_year_bounds (Some ''FY0000'') = Inl Year_out_of_range"
  by code_simp

lemma unsound_counts: "\<not> counts_sound 0 unsound_finding"
  by (simp add: counts_sound_def unsound_finding_def)

theorem period_disables_linter_witness:
  "lint_phase_artifact (\<lambda>v. None) (demo_env ''d2'') (demo_start\<lparr>racm_plan := Some sound_racm\<rparr>) P2 (Some (Papers unsound_papers)) = [] \<and>
     racm_sound sound_racm \<and> \<not> counts_sound 0 unsound_finding"
proof -
  have "map_of (controls_by_id (Some sound_racm)) (f_control_id unsound_finding) = Some sound_control"
    by (simp add: controls_by_id_def sound_racm_def unsound_finding_def sound_control_def)
  moreover have "stops_lint (\<lambda>v. None) (period_of_reliance (testing_procedures sound_control)) (vault_id_reference unsound_finding)"
    by (simp add: stops_lint_def sound_control_def fiscal_year_zero)
  moreover have "unsound_finding \<in> set (findings unsound_papers)" "vault_id_reference unsound_finding \<noteq> []"
    by (simp_all add: unsound_papers_def unsound_finding_def)
  ultimately have "lint_phase_artifact (\<lambda>v. None) (demo_env ''d2'') (demo_start\<lparr>racm_plan := Some sound_racm\<rparr>) P2
      (Some (Papers unsound_papers)) = []"
    using period_disables_linter [where s = "demo_start\<lparr>racm_plan := Some sound_racm\<rparr>"] by simp
  then show ?thesis using sound_racm_passes lint_racm_passed unsound_counts by blast
qed

end
