(* ===== verification/Sampling.thy ===== *)
theory Sampling
  imports LintProps
begin

text \<open>
  Sample sizes and the selection of samples (\<open>src/swarm/sampling.py\<close>). An enum argument is its
  value, as a \<open>StrEnum\<close> member is a string. \<open>random.Random(seed).sample(range(n), k)\<close> is the argument
  \<open>sampler\<close>, a function of the seed's hex text, \<open>n\<close> and \<open>k\<close>; \<open>sampler_ok\<close> is what Python documents of
  it, k different numbers below n.
\<close>

section \<open>Definitions\<close>

fun SAMPLE_TABLE :: "control_frequency \<Rightarrow> nat \<times> nat" where
  "SAMPLE_TABLE ANNUAL = (1, 1)"
| "SAMPLE_TABLE QUARTERLY = (2, 2)"
| "SAMPLE_TABLE MONTHLY = (2, 5)"
| "SAMPLE_TABLE WEEKLY = (5, 15)"
| "SAMPLE_TABLE DAILY = (20, 40)"
| "SAMPLE_TABLE MULTIPLE_TIMES_PER_DAY = (25, 60)"
| "SAMPLE_TABLE CONTINUOUS = (25, 45)"
| "SAMPLE_TABLE EVENT_DRIVEN = (5, 15)"

text \<open>None is the \<open>ValueError\<close> of a value that is no member. An automated control's frequency is not read.\<close>

definition recommended_sample_size :: "string \<Rightarrow> string \<Rightarrow> string \<Rightarrow> nat option" where
  "recommended_sample_size freq nat_text rating =
     (case by_value nature_value all_nature nat_text of
        None \<Rightarrow> None
      | Some kind \<Rightarrow>
          if kind = AUTOMATED then Some 1
          else (case by_value frequency_value all_frequency freq of
            None \<Rightarrow> None
          | Some fr \<Rightarrow> (case by_value rating_value all_rating rating of
                None \<Rightarrow> None
              | Some x \<Rightarrow> Some (if x = RATING_HIGH then snd (SAMPLE_TABLE fr) else fst (SAMPLE_TABLE fr)))))"

definition compute_ipe_population_digest :: "crypto \<Rightarrow> string list \<Rightarrow> string" where
  "compute_ipe_population_digest cr items = sha256_hex cr (dumps (JList (map JStr items)))"

record sample_receipt =
  receipt_session :: string
  receipt_control :: string
  population_count :: nat
  population_sha256 :: string
  receipt_size :: nat
  receipt_method :: sampling_method
  seed_hmac_sha256 :: string
  selected_indices :: "nat list"
  selected_items :: "string list"

type_synonym sampler = "string \<Rightarrow> nat \<Rightarrow> nat \<Rightarrow> nat list"

definition sampler_ok :: "sampler \<Rightarrow> bool" where
  "sampler_ok f \<longleftrightarrow> (\<forall>seed n k. k \<le> n \<longrightarrow> length (f seed n k) = k \<and> distinct (f seed n k) \<and> set (f seed n k) \<subseteq> {..<n})"

definition deterministic_sample_selection ::
  "crypto \<Rightarrow> sampler \<Rightarrow> string list \<Rightarrow> int \<Rightarrow> string \<Rightarrow> string \<Rightarrow> sample_receipt" where
  "deterministic_sample_selection cr sampler items requested session control =
     (let n = length items; seed = hexdigest (hmac_sha256 cr session control);
          receipt = (\<lambda>k method chosen. \<lparr>receipt_session = session, receipt_control = control, population_count = n,
            population_sha256 = compute_ipe_population_digest cr items, receipt_size = k, receipt_method = method,
            seed_hmac_sha256 = seed, selected_indices = chosen, selected_items = map (\<lambda>i. items ! i) chosen\<rparr>) in
      if requested \<le> 0 \<or> n = 0 then receipt 0 NOT_APPLICABLE []
      else if int n \<le> requested then receipt n FULL_POPULATION [0..<n]
      else receipt (nat requested) (if requested = 1 then TEST_OF_ONE else RANDOM) (sort (sampler seed n (nat requested))))"

section \<open>Lemmas\<close>

lemma sampled_indices:
  assumes "sampler_ok f" "k \<le> n"
  shows "sorted (sort (f seed n k))" "distinct (sort (f seed n k))" "length (sort (f seed n k)) = k"
    "set (sort (f seed n k)) \<subseteq> {..<n}"
  using assms by (auto simp: sampler_ok_def)

lemma selection_indices:
  assumes "sampler_ok f" "r = deterministic_sample_selection cr f items requested session control"
  shows "sorted_wrt (<) (selected_indices r) \<and> set (selected_indices r) \<subseteq> {..<length items} \<and>
     length (selected_indices r) = nat (min requested (int (length items))) \<and> receipt_size r = length (selected_indices r) \<and>
     selected_items r = map (\<lambda>i. items ! i) (selected_indices r)"
proof (cases "requested \<le> 0 \<or> items = []")
  case True
  then show ?thesis using assms(2) by (auto simp: deterministic_sample_selection_def Let_def)
next
  case False
  show ?thesis
  proof (cases "int (length items) \<le> requested")
    case True
    with False show ?thesis using assms(2)
      by (simp add: deterministic_sample_selection_def Let_def strict_sorted_iff atLeast_upt [symmetric] lessThan_atLeast0)
  next
    case less: False
    let ?chosen = "sort (f (hexdigest (hmac_sha256 cr session control)) (length items) (nat requested))"
    from less have "nat requested \<le> length items" by simp
    note chosen = sampled_indices [OF assms(1) this]
    from assms(2) False less have "r = \<lparr>receipt_session = session, receipt_control = control, population_count = length items,
        population_sha256 = compute_ipe_population_digest cr items, receipt_size = nat requested,
        receipt_method = (if requested = 1 then TEST_OF_ONE else RANDOM), seed_hmac_sha256 = hexdigest (hmac_sha256 cr session control),
        selected_indices = ?chosen, selected_items = map (\<lambda>i. items ! i) ?chosen\<rparr>"
      by (simp add: deterministic_sample_selection_def Let_def)
    then show ?thesis using chosen less False by (simp add: strict_sorted_iff)
  qed
qed

lemma map_JStr_inject: "map JStr xs = map JStr ys \<longleftrightarrow> xs = ys"
  by (rule inj_map_eq_map) (simp add: inj_def)

lemma population_digest_inject:
  assumes "no_collision (sha256 cr) {dumps (JList (map JStr xs)), dumps (JList (map JStr ys))}"
  shows "compute_ipe_population_digest cr xs = compute_ipe_population_digest cr ys \<longleftrightarrow> xs = ys"
proof
  assume "compute_ipe_population_digest cr xs = compute_ipe_population_digest cr ys"
  then have "sha256 cr (dumps (JList (map JStr xs))) = sha256 cr (dumps (JList (map JStr ys)))"
    by (simp add: compute_ipe_population_digest_def sha256_hex_def hexdigest_inject)
  from no_collisionD [OF assms _ _ this] have "dumps (JList (map JStr xs)) = dumps (JList (map JStr ys))" by blast
  then show "xs = ys" by (simp only: dumps_inject json.inject map_JStr_inject)
qed simp

lemma table_covers_minimum: "min_sample_size fr \<le> fst (SAMPLE_TABLE fr)" "min_sample_size fr \<le> snd (SAMPLE_TABLE fr)"
  by (cases fr; simp)+

section \<open>Properties\<close>

text \<open>C31. [selection_reperformable] What a receipt says of the sample: the indices are increasing positions of the
  population, as many as were asked for and there are, the items are those at the indices, and
  anyone who selects again for the same session and control from a population with the receipt's
  digest gets the receipt, unless the two listings collide under SHA-256.\<close>
theorem selection_reperformable:
  assumes "sampler_ok f" "r = deterministic_sample_selection cr f items requested session control"
    and "no_collision (sha256 cr) {dumps (JList (map JStr items)), dumps (JList (map JStr others))}"
  shows "sorted_wrt (<) (selected_indices r) \<and> set (selected_indices r) \<subseteq> {..<length items} \<and>
     length (selected_indices r) = nat (min requested (int (length items))) \<and> receipt_size r = length (selected_indices r) \<and>
     selected_items r = map (\<lambda>i. items ! i) (selected_indices r) \<and>
     (population_sha256 r = compute_ipe_population_digest cr others \<longleftrightarrow>
        r = deterministic_sample_selection cr f others requested session control)"
proof -
  have digest: "population_sha256 (deterministic_sample_selection cr f xs requested session control) = compute_ipe_population_digest cr xs" for xs
    by (simp add: deterministic_sample_selection_def Let_def)
  have "population_sha256 r = compute_ipe_population_digest cr others \<longleftrightarrow>
      r = deterministic_sample_selection cr f others requested session control"
    using population_digest_inject [OF assms(3)] digest assms(2) by metis
  with selection_indices [OF assms(1,2)] show ?thesis by blast
qed

text \<open>A sampler that takes the first ones.\<close>

theorem selection_reperformable_witness:
  "selected_items (deterministic_sample_selection toy_crypto (\<lambda>seed n k. [0..<k]) [''a'', ''b'', ''c''] 2 ''s'' ''c1'') = [''a'', ''b'']"
proof -
  let ?f = "\<lambda>seed n k. [0..<k]" and ?r = "deterministic_sample_selection toy_crypto (\<lambda>seed n k. [0..<k]) [''a'', ''b'', ''c''] 2 ''s'' ''c1''"
  have ok: "sampler_ok ?f" by (auto simp: sampler_ok_def)
  have "no_collision (sha256 toy_crypto) {dumps (JList (map JStr [''a'', ''b'', ''c''])), dumps (JList (map JStr [''a'', ''b'', ''d'']))}"
    by (auto simp: no_collision_def toy_crypto_def inj_on_def)
  from selection_reperformable [OF ok refl this] have "selected_items ?r = map (\<lambda>i. [''a'', ''b'', ''c''] ! i) (selected_indices ?r)"
    by blast
  moreover have "selected_indices ?r = [0, 1]"
    by (simp add: deterministic_sample_selection_def Let_def upt_rec)
  ultimately show ?thesis by simp
qed

lemma by_value_own:
  "by_value nature_value all_nature (nature_value kind) = Some kind"
  "by_value frequency_value all_frequency (frequency_value fr) = Some fr"
  "by_value rating_value all_rating (rating_value x) = Some x"
    apply (cases kind; simp add: by_value_def all_nature_def)
   apply (cases fr; simp add: by_value_def all_frequency_def)
  apply (cases x; simp add: by_value_def all_rating_def)
  done

text \<open>The sizes the sampling engine recommends are accepted by the RACM linter: a
  manual control tested on a recommended sample, by any method but a test of one, meets the
  sample size rule (D7), whatever its frequency and risk rating.\<close>
lemma recommended_size_accepted:
  assumes "manual c" "frequency c = Some fr" "nature c = Some kind"
    and "t_sampling_method (testing_procedures c) \<noteq> Some TEST_OF_ONE"
    and "recommended_sample_size (frequency_value fr) (nature_value kind) (rating_value x) = Some n"
    and "sample_size (testing_procedures c) = Some n"
  shows "sampled_enough c"
proof -
  have "kind \<noteq> AUTOMATED" using assms(1,3) by (auto simp: manual_def)
  with assms(5) have "n = (if x = RATING_HIGH then snd (SAMPLE_TABLE fr) else fst (SAMPLE_TABLE fr))"
    by (simp add: recommended_sample_size_def by_value_own)
  then have "min_sample_size fr \<le> n" using table_covers_minimum by simp
  then show ?thesis using assms(2,4,6) by (simp add: sampled_enough_def Let_def)
qed

definition daily_control :: control where
  "daily_control = sound_control\<lparr>frequency := Some DAILY, nature := Some MANUAL,
     testing_procedures := (testing_procedures sound_control)\<lparr>t_sampling_method := Some RANDOM, sample_size := Some 40\<rparr>\<rparr>"

theorem recommended_size_accepted_witness:
  "recommended_sample_size ''Daily'' ''Manual'' ''High'' = Some 40 \<and> sampled_enough daily_control"
proof -
  have fields: "manual daily_control" "frequency daily_control = Some DAILY" "nature daily_control = Some MANUAL"
    "t_sampling_method (testing_procedures daily_control) \<noteq> Some TEST_OF_ONE" "sample_size (testing_procedures daily_control) = Some 40"
    by (simp_all add: daily_control_def manual_def)
  have size: "recommended_sample_size (frequency_value DAILY) (nature_value MANUAL) (rating_value RATING_HIGH) = Some 40"
    by (simp only: recommended_sample_size_def by_value_own option.case) simp
  from recommended_size_accepted [OF fields(1-4) size fields(5)] size show ?thesis by simp
qed

end
