(* ===== verification/AwsChecks.thy ===== *)
theory AwsChecks
  imports Evidence
begin

text \<open>
  Evidence collection from AWS (\<open>src/swarm/tools/aws_checks.py\<close>) and the tools that register it
  (\<open>src/swarm/tools/aws_tools.py\<close>). boto3 is third-party code: a client is the record of what its
  calls answer, and a paginated answer is the list of its pages. Texts are ASCII.
\<close>

section \<open>Answers of a client\<close>

text \<open>A \<open>ClientError\<close> with its code and message, or another \<open>BotoCoreError\<close> as type and text.\<close>

datatype aws_error = Client_error "string option" string | Boto_error string string

type_synonym 'a reply = "aws_error + 'a"

definition describe_error :: "aws_error \<Rightarrow> string" where
  "describe_error e = redact_account_ids (case e of
     Client_error code message \<Rightarrow>
       (let c = (case code of None \<Rightarrow> ''Unknown'' | Some x \<Rightarrow> x) in if message \<noteq> [] then c @ '': '' @ message else c)
   | Boto_error kind txt \<Rightarrow> kind @ '': '' @ txt)"

definition error_code :: "string option \<Rightarrow> string" where
  "error_code code = (case code of None \<Rightarrow> [] | Some c \<Rightarrow> c)"

text \<open>\<open>json.dumps(value, indent=2)\<close>\<close>

definition escape_ascii :: "char \<Rightarrow> string" where
  "escape_ascii c = (if c = CHR 0x7F then CHR 0x5C # ''u007f'' else escape_char c)"

definition quote_ascii :: "string \<Rightarrow> string" where
  "quote_ascii s = CHR 0x22 # concat (map escape_ascii s) @ [CHR 0x22]"

definition new_line :: "nat \<Rightarrow> string" where
  "new_line n = CHR 0x0A # replicate (2 * n) CHR '' ''"

text \<open>The items of a list or an object, one to a line, between their brackets.\<close>

definition bracketed :: "string \<Rightarrow> string \<Rightarrow> nat \<Rightarrow> string list \<Rightarrow> string" where
  "bracketed a b n items =
     (if items = [] then a @ b else a @ new_line (Suc n) @ join_with ('','' @ new_line (Suc n)) items @ new_line n @ b)"

primrec dumps_indent :: "json \<Rightarrow> nat \<Rightarrow> string" where
  "dumps_indent JNull = (\<lambda>n. ''null'')"
| "dumps_indent (JBool b) = (\<lambda>n. if b then ''true'' else ''false'')"
| "dumps_indent (JInt i) = (\<lambda>n. int_str i)"
| "dumps_indent (JStr s) = (\<lambda>n. quote_ascii s)"
| "dumps_indent (JList xs) = (\<lambda>n. bracketed ''['' '']'' n (map (\<lambda>d. d (Suc n)) (map dumps_indent xs)))"
| "dumps_indent (JObj ps) =
     (\<lambda>n. bracketed ''{'' ''}'' n (map (\<lambda>(k, d). quote_ascii k @ '': '' @ d (Suc n)) (map (map_prod id dumps_indent) ps)))"

abbreviation dump_json :: "json \<Rightarrow> string" where
  "dump_json j \<equiv> dumps_indent j 0"

definition json_strs :: "string list \<Rightarrow> json" where
  "json_strs xs = JList (map JStr xs)"

section \<open>IAM\<close>

text \<open>Instants are microseconds since a fixed one, a naive \<open>datetime\<close> being read as UTC.\<close>

datatype created = Created_at int | Created_text string | Created_unknown

record key_metadata =
  access_key_id :: string
  key_status :: string
  create_date :: created

record iam_client =
  account_password_policy :: "(string \<times> json) list reply"
  user_pages :: "string list list reply"
  mfa_device_pages :: "string \<Rightarrow> string list list reply"
  account_summary :: "(string \<times> int) list reply"
  access_keys :: "string \<Rightarrow> key_metadata list reply"

definition NO_PASSWORD_POLICY_FINDING :: string where
  "NO_PASSWORD_POLICY_FINDING =
     ''Finding: No IAM account password policy is set for this account '' @
     ''(GetAccountPasswordPolicy returned NoSuchEntity). IAM user passwords '' @
     ''fall back to the AWS default password requirements.''"

definition collect_password_policy :: "iam_client \<Rightarrow> string" where
  "collect_password_policy iam =
     (case account_password_policy iam of
        Inl (Client_error code message) \<Rightarrow>
          if error_code code = ''NoSuchEntity'' then NO_PASSWORD_POLICY_FINDING
          else ''Error fetching password policy: '' @ describe_error (Client_error code message)
      | Inl (Boto_error kind txt) \<Rightarrow> ''Error fetching password policy: '' @ describe_error (Boto_error kind txt)
      | Inr response \<Rightarrow> dump_json (case map_of response ''PasswordPolicy'' of None \<Rightarrow> JObj [] | Some j \<Rightarrow> j))"

datatype mfa_status = Mfa_unknown string | Mfa_devices nat

definition user_mfa_status :: "iam_client \<Rightarrow> string \<Rightarrow> string \<times> mfa_status" where
  "user_mfa_status iam name =
     (name, case mfa_device_pages iam name of
        Inl e \<Rightarrow> Mfa_unknown (describe_error e)
      | Inr pages \<Rightarrow> Mfa_devices (length (concat pages)))"

fun mfa_enabled :: "mfa_status \<Rightarrow> string" where
  "mfa_enabled (Mfa_unknown e) = ''Unknown''"
| "mfa_enabled (Mfa_devices n) = (if n = 0 then ''No'' else ''Yes'')"

fun mfa_json :: "string \<times> mfa_status \<Rightarrow> json" where
  "mfa_json (name, Mfa_unknown e) = JObj [(''UserName'', JStr name), (''MFA_Enabled'', JStr ''Unknown''), (''Error'', JStr e)]"
| "mfa_json (name, Mfa_devices n) = JObj [(''UserName'', JStr name), (''MFA_Enabled'', JStr (mfa_enabled (Mfa_devices n))),
     (''MFADeviceCount'', JInt (int n))]"

definition count_if :: "('a \<Rightarrow> bool) \<Rightarrow> 'a list \<Rightarrow> nat" where
  "count_if P xs = length (filter P xs)"

definition ROOT_USER_NOTE :: string where
  "ROOT_USER_NOTE = ''The AWS account root user is not returned by iam:ListUsers, so root user '' @
     ''MFA is not covered by this evidence.''"

definition CONSOLE_ACCESS_NOTE :: string where
  "CONSOLE_ACCESS_NOTE = ''MFA status is listed for every IAM user, including users with no console '' @
     ''password (for example access-key-only service users); console access is '' @ ''not checked.''"

text \<open>\<open>executor.map\<close> answers in the order of the users.\<close>

definition collect_iam_users_mfa :: "iam_client \<Rightarrow> json reply" where
  "collect_iam_users_mfa iam =
     bindE (user_pages iam) (\<lambda>pages.
       let mfa_rows = map (user_mfa_status iam) (concat pages);
           tally = (\<lambda>v. JInt (int (count_if (\<lambda>(n, m). mfa_enabled m = v) mfa_rows))) in
       Inr (JObj [(''Users'', JList (map mfa_json mfa_rows)),
         (''Summary'', JObj [(''users'', JInt (int (length mfa_rows))), (''with_mfa'', tally ''Yes''),
            (''without_mfa'', tally ''No''), (''unknown'', tally ''Unknown'')]),
         (''Notes'', json_strs [ROOT_USER_NOTE, CONSOLE_ACCESS_NOTE])]))"

record root_summary =
  root_mfa :: int
  root_keys :: int
  root_reasons :: "string list"
  root_verdict :: string

definition int_or :: "int \<Rightarrow> int option \<Rightarrow> int" where
  "int_or d v = (case v of None \<Rightarrow> d | Some i \<Rightarrow> i)"

definition collect_root_account_summary :: "iam_client \<Rightarrow> root_summary reply" where
  "collect_root_account_summary iam =
     bindE (account_summary iam) (\<lambda>summary_map.
       let mfa = int_or 0 (map_of summary_map ''AccountMFAEnabled'');
           keys = int_or 0 (map_of summary_map ''AccountAccessKeysPresent'') in
       Inr \<lparr>root_mfa = mfa, root_keys = keys,
         root_reasons = (if mfa \<noteq> 1 then [''Root account MFA is not enabled (AccountMFAEnabled=0)''] else []) @
           (if 0 < keys then [''Root account has active access keys (AccountAccessKeysPresent='' @ int_str keys @ '')''] else []),
         root_verdict = (if mfa = 1 \<and> keys = 0 then ''PASS'' else ''FAIL'')\<rparr>)"

text \<open>A row of the key report: a key, or a user whose keys could not be read.\<close>

datatype key_row =
    Key_row string string string "int option" bool
  | Key_unread string string

definition DAY :: int where "DAY = 86400 * 1000000"

text \<open>\<open>parse_moment\<close> is \<open>datetime.fromisoformat\<close> of the text with Z replaced by +00:00.\<close>

definition age_days :: "(string \<Rightarrow> int option) \<Rightarrow> int \<Rightarrow> created \<Rightarrow> int option" where
  "age_days parse_moment now c = (case c of
      Created_at t \<Rightarrow> Some (max 0 ((now - t) div DAY))
    | Created_text txt \<Rightarrow> map_option (\<lambda>t. max 0 ((now - t) div DAY)) (parse_moment txt)
    | Created_unknown \<Rightarrow> None)"

definition key_row_of :: "(string \<Rightarrow> int option) \<Rightarrow> int \<Rightarrow> int \<Rightarrow> string \<Rightarrow> key_metadata \<Rightarrow> key_row" where
  "key_row_of parse_moment now max_age user m =
     (let key = access_key_id m; age = age_days parse_moment now (create_date m) in
      Key_row user (if 4 \<le> length key then drop (length key - 4) key else key) (key_status m) age
        (key_status m = ''Active'' \<and> (case age of None \<Rightarrow> False | Some d \<Rightarrow> max_age < d)))"

definition user_key_rows :: "iam_client \<Rightarrow> (string \<Rightarrow> int option) \<Rightarrow> int \<Rightarrow> int \<Rightarrow> string \<Rightarrow> key_row list" where
  "user_key_rows iam parse_moment now max_age user =
     (case access_keys iam user of
        Inl e \<Rightarrow> [Key_unread user (describe_error e)]
      | Inr ms \<Rightarrow> map (key_row_of parse_moment now max_age user) ms)"

fun row_active :: "key_row \<Rightarrow> bool" where
  "row_active (Key_row u k st age x) = (st = ''Active'')"
| "row_active (Key_unread u e) = False"

fun row_exceeds :: "key_row \<Rightarrow> bool" where
  "row_exceeds (Key_row u k st age x) = x"
| "row_exceeds (Key_unread u e) = False"

record key_report =
  key_rows :: "key_row list"
  total_keys :: nat
  active_keys :: nat
  exceeding_max_age :: nat
  key_verdict :: string

definition collect_access_key_age ::
  "iam_client \<Rightarrow> (string \<Rightarrow> int option) \<Rightarrow> int \<Rightarrow> int \<Rightarrow> key_report reply" where
  "collect_access_key_age iam parse_moment now max_age =
     bindE (user_pages iam) (\<lambda>pages.
       let report_rows = concat (map (user_key_rows iam parse_moment now max_age) (sort (concat pages)));
           active = filter row_active report_rows; expired = filter row_exceeds active in
       Inr \<lparr>key_rows = report_rows, total_keys = length report_rows, active_keys = length active,
         exceeding_max_age = length expired, key_verdict = (if expired \<noteq> [] then ''FAIL'' else ''PASS'')\<rparr>)"

section \<open>S3\<close>

text \<open>A flag dictionary: only its truthy entries among \<open>BPA_FLAGS\<close> matter.\<close>

datatype bpa_flag = BlockPublicAcls | IgnorePublicAcls | BlockPublicPolicy | RestrictPublicBuckets

definition BPA_FLAGS :: "bpa_flag list" where
  "BPA_FLAGS = [BlockPublicAcls, IgnorePublicAcls, BlockPublicPolicy, RestrictPublicBuckets]"

fun flag_name :: "bpa_flag \<Rightarrow> string" where
  "flag_name BlockPublicAcls = ''BlockPublicAcls''"
| "flag_name IgnorePublicAcls = ''IgnorePublicAcls''"
| "flag_name BlockPublicPolicy = ''BlockPublicPolicy''"
| "flag_name RestrictPublicBuckets = ''RestrictPublicBuckets''"

datatype bpa_layer = Layer_unknown string | Not_configured | Configured "(string \<times> bool) list"

type_synonym bpa_settings = "(string \<times> bool) list"

text \<open>An ACL grant: the URI of its grantee, and its permission.\<close>

record s3_client =
  bucket_bpa :: "string \<Rightarrow> bpa_settings reply"
  bucket_policy_status :: "string \<Rightarrow> bool option reply"
  bucket_acl :: "string \<Rightarrow> (string \<times> string) list reply"
  bucket_pages :: "string list list reply option"
  bucket_list :: "string list reply"

type_synonym s3control_client = "string \<Rightarrow> bpa_settings reply"

type_synonym sts_client = "(string option \<times> string option) reply"

definition NO_BPA :: string where "NO_BPA = ''NoSuchPublicAccessBlockConfiguration''"

definition get_caller_identity :: "sts_client \<Rightarrow> string option \<times> string option" where
  "get_caller_identity sts =
     (case sts of Inl e \<Rightarrow> (None, None) | Inr (account, arn) \<Rightarrow> (account, map_option redact_account_ids arn))"

definition bpa_layer_of :: "bpa_settings reply \<Rightarrow> bpa_layer" where
  "bpa_layer_of answer =
     (case answer of
        Inl (Client_error code message) \<Rightarrow>
          if error_code code = NO_BPA then Not_configured else Layer_unknown (describe_error (Client_error code message))
      | Inl (Boto_error kind txt) \<Rightarrow> Layer_unknown (describe_error (Boto_error kind txt))
      | Inr settings \<Rightarrow> Configured (map (\<lambda>f. (flag_name f, map_of settings (flag_name f) = Some True)) BPA_FLAGS))"

definition get_account_bpa :: "string option \<Rightarrow> s3control_client \<Rightarrow> bpa_layer" where
  "get_account_bpa account s3control =
     (case account of
        None \<Rightarrow> Layer_unknown ''GetCallerIdentity failed (no account id available for the S3 Control call)''
      | Some a \<Rightarrow> bpa_layer_of (s3control a))"

fun layer_flag :: "bpa_layer \<Rightarrow> bpa_flag \<Rightarrow> bool option" where
  "layer_flag (Layer_unknown e) f = None"
| "layer_flag Not_configured f = Some False"
| "layer_flag (Configured settings) f = map_of settings (flag_name f)"

text \<open>The three-valued disjunction; None is unknown.\<close>

definition either :: "bool option \<Rightarrow> bool option \<Rightarrow> bool option" where
  "either a b = (if a = Some True \<or> b = Some True then Some True else if a = None \<or> b = None then None else Some False)"

definition get_policy_public :: "s3_client \<Rightarrow> string \<Rightarrow> bool option \<times> string option" where
  "get_policy_public s3 name =
     (case bucket_policy_status s3 name of
        Inl (Client_error code message) \<Rightarrow>
          if error_code code = ''NoSuchBucketPolicy'' then (Some False, None)
          else (None, Some (describe_error (Client_error code message)))
      | Inl (Boto_error kind txt) \<Rightarrow> (None, Some (describe_error (Boto_error kind txt)))
      | Inr (Some b) \<Rightarrow> (Some b, None)
      | Inr None \<Rightarrow> (None, Some ''GetBucketPolicyStatus returned no IsPublic value''))"

definition PUBLIC_ACL_GROUPS :: "(string \<times> string) list" where
  "PUBLIC_ACL_GROUPS = [(''/groups/global/AllUsers'', ''AllUsers''), (''/groups/global/AuthenticatedUsers'', ''AuthenticatedUsers'')]"

definition ends_with :: "string \<Rightarrow> string \<Rightarrow> bool" where
  "ends_with suffix_text s \<longleftrightarrow> length suffix_text \<le> length s \<and> drop (length s - length suffix_text) s = suffix_text"

definition public_grants :: "(string \<times> string) list \<Rightarrow> string list" where
  "public_grants grants = sort (remdups (concat (map (\<lambda>(uri, permission).
     map (\<lambda>(ending, group). group @ '' '' @ permission) (filter (\<lambda>(ending, group). ends_with ending uri) PUBLIC_ACL_GROUPS)) grants)))"

definition get_public_acl_grants :: "s3_client \<Rightarrow> string \<Rightarrow> string list option \<times> string option" where
  "get_public_acl_grants s3 name =
     (case bucket_acl s3 name of
        Inl e \<Rightarrow> (None, Some (describe_error e))
      | Inr grants \<Rightarrow> (Some (public_grants grants), None))"

definition layers_with :: "bpa_flag \<Rightarrow> bpa_layer \<Rightarrow> bpa_layer \<Rightarrow> string" where
  "layers_with f account bucket =
     (let on = map fst (filter (\<lambda>(name, layer). layer_flag layer f = Some True) [(''account'', account), (''bucket'', bucket)]) in
      join_with '' and '' on @ (if length on = 1 then '' level'' else '' levels''))"

record bucket_result =
  bucket_name :: string
  effective_public :: "bool option"
  access_reasons :: "string list"
  access_unknowns :: "string list"
  access_notes :: "string list"
  bucket_layer :: bpa_layer
  policy_is_public :: "bool option"
  public_acl_grants :: "string list option"

text \<open>What one path of access (policy or ACL) contributes: its verdict, reasons, notes, unknowns.\<close>

type_synonym access_path = "bool option \<times> string list \<times> string list \<times> string list"

definition policy_path :: "bool option \<Rightarrow> bool option \<Rightarrow> string \<Rightarrow> access_path" where
  "policy_path public restrict where_on =
     (if public = Some False then (Some False, [], [], [])
      else if restrict = Some True then
        (Some False, [],
         if public = Some True then
           [''Bucket policy is public, but RestrictPublicBuckets is on at the '' @ where_on @
            '', so access is limited to AWS service principals and the bucket owner'' @ [CHR 0x27] @ ''s account.'']
         else [], [])
      else if public = Some True \<and> restrict = Some False then (Some True, [''public bucket policy''], [], [])
      else (None, [], [], if public = Some True then
        [''bucket policy is public but RestrictPublicBuckets could not be determined''] else []))"

definition acl_path :: "string list option \<Rightarrow> bool option \<Rightarrow> string \<Rightarrow> access_path" where
  "acl_path grants ignored where_on =
     (if grants = Some [] then (Some False, [], [], [])
      else if ignored = Some True then
        (Some False, [],
         case grants of None \<Rightarrow> [] | Some gs \<Rightarrow>
           [''ACL has public grants ('' @ join_with '', '' gs @ ''), but IgnorePublicAcls is on at the '' @ where_on @
            '', so S3 ignores them.''], [])
      else case grants of
        None \<Rightarrow> (None, [], [], [])
      | Some gs \<Rightarrow>
          if ignored = Some False then (Some True, map (\<lambda>g. ''ACL grants '' @ g) gs, [], [])
          else (None, [], [], [''ACL has public grants ('' @ join_with '', '' gs @ '') but IgnorePublicAcls could not be determined'']))"

definition layer_unknowns :: "string \<Rightarrow> bpa_layer \<Rightarrow> string list" where
  "layer_unknowns name layer = (case layer of
      Layer_unknown e \<Rightarrow> [name @ ''-level Block Public Access unknown ('' @ e @ '')''] | _ \<Rightarrow> [])"

definition text_if :: "string option \<Rightarrow> (string \<Rightarrow> string) \<Rightarrow> string list" where
  "text_if x f = (case x of None \<Rightarrow> [] | Some e \<Rightarrow> [f e])"

definition effective_flag :: "bpa_layer \<Rightarrow> bpa_layer \<Rightarrow> bpa_flag \<Rightarrow> bool option" where
  "effective_flag account bucket f = either (layer_flag account f) (layer_flag bucket f)"

definition check_bucket_public_access :: "s3_client \<Rightarrow> bpa_layer \<Rightarrow> string \<Rightarrow> bucket_result" where
  "check_bucket_public_access s3 account name =
     (let bucket = bpa_layer_of (bucket_bpa s3 name);
          (policy_public, policy_error) = get_policy_public s3 name;
          (grants, acl_error) = get_public_acl_grants s3 name;
          unknowns = text_if policy_error (\<lambda>e. ''bucket policy status unknown ('' @ e @ '')'') @
            text_if acl_error (\<lambda>e. ''bucket ACL unknown ('' @ e @ '')'') @
            layer_unknowns ''account'' account @ layer_unknowns ''bucket'' bucket;
          (p_effective, p_reasons, p_notes, p_unknowns) =
            policy_path policy_public (effective_flag account bucket RestrictPublicBuckets)
              (layers_with RestrictPublicBuckets account bucket);
          (a_effective, a_reasons, a_notes, a_unknowns) =
            acl_path grants (effective_flag account bucket IgnorePublicAcls) (layers_with IgnorePublicAcls account bucket) in
      \<lparr>bucket_name = name, effective_public = either p_effective a_effective, access_reasons = p_reasons @ a_reasons,
       access_unknowns = unknowns @ p_unknowns @ a_unknowns, access_notes = p_notes @ a_notes, bucket_layer = bucket,
       policy_is_public = policy_public, public_acl_grants = grants\<rparr>)"

fun verdict_text :: "bool option \<Rightarrow> string" where
  "verdict_text (Some True) = ''PUBLIC''"
| "verdict_text (Some False) = ''NOT_PUBLIC''"
| "verdict_text None = ''UNKNOWN''"

text \<open>The paginator of \<open>list_buckets\<close> is missing in older versions (\<open>OperationNotPageableError\<close>).\<close>

definition list_bucket_names :: "s3_client \<Rightarrow> string list reply" where
  "list_bucket_names s3 = (case bucket_pages s3 of None \<Rightarrow> bucket_list s3 | Some answer \<Rightarrow> bindE answer (\<lambda>pages. Inr (concat pages)))"

record s3_report =
  account_layer :: bpa_layer
  bucket_results :: "bucket_result list"
  caller_arn :: "string option"

definition collect_s3_public_access :: "s3_client \<Rightarrow> s3control_client \<Rightarrow> sts_client \<Rightarrow> s3_report reply" where
  "collect_s3_public_access s3 s3control sts =
     (let (account, arn) = get_caller_identity sts; layer = get_account_bpa account s3control in
      bindE (list_bucket_names s3) (\<lambda>names.
        Inr \<lparr>account_layer = layer,
          bucket_results = sort_key bucket_name (map (check_bucket_public_access s3 layer) names), caller_arn = arn\<rparr>))"

text \<open>The result as the dictionary the tool dumps.\<close>

definition opt_bool :: "bool option \<Rightarrow> json" where
  "opt_bool b = (case b of None \<Rightarrow> JNull | Some x \<Rightarrow> JBool x)"

definition opt_str :: "string option \<Rightarrow> json" where
  "opt_str s = (case s of None \<Rightarrow> JNull | Some x \<Rightarrow> JStr x)"

fun layer_json :: "bpa_layer \<Rightarrow> json" where
  "layer_json (Layer_unknown e) = JObj [(''status'', JStr ''unknown''), (''error'', JStr e)]"
| "layer_json Not_configured = JObj [(''status'', JStr ''not configured'')]"
| "layer_json (Configured settings) = JObj ((''status'', JStr ''configured'') # map (\<lambda>(f, b). (f, JBool b)) settings)"

definition bucket_json :: "bpa_layer \<Rightarrow> bucket_result \<Rightarrow> json" where
  "bucket_json account r = JObj
     [(''Bucket'', JStr (bucket_name r)), (''Verdict'', JStr (verdict_text (effective_public r))),
      (''EffectivePublic'', opt_bool (effective_public r)), (''Reasons'', json_strs (access_reasons r)),
      (''Unknowns'', json_strs (access_unknowns r)), (''Notes'', json_strs (access_notes r)),
      (''BlockPublicAccess'', JObj [(''Account'', layer_json account), (''Bucket'', layer_json (bucket_layer r)),
         (''Effective'', JObj (map (\<lambda>f. (flag_name f, opt_bool (effective_flag account (bucket_layer r) f))) BPA_FLAGS))]),
      (''PolicyIsPublic'', opt_bool (policy_is_public r)),
      (''PublicAclGrants'', case public_acl_grants r of None \<Rightarrow> JNull | Some gs \<Rightarrow> json_strs gs)]"

definition S3_SCOPE_NOTE :: string where
  "S3_SCOPE_NOTE = ''Covers bucket policies (as evaluated by GetBucketPolicyStatus), bucket '' @
     ''ACLs and account- and bucket-level Block Public Access. Not covered: '' @
     ''access point policies, object-level ACLs, and cross-account access '' @
     ''granted by a policy that AWS does not classify as public.''"

definition verdict_count :: "bool option \<Rightarrow> s3_report \<Rightarrow> nat" where
  "verdict_count v r = count_if (\<lambda>b. effective_public b = v) (bucket_results r)"

definition s3_json :: "s3_report \<Rightarrow> json" where
  "s3_json r = JObj
     [(''AccountBlockPublicAccess'', layer_json (account_layer r)),
      (''Buckets'', JList (map (bucket_json (account_layer r)) (bucket_results r))),
      (''Summary'', JObj [(''buckets'', JInt (int (length (bucket_results r)))), (''public'', JInt (int (verdict_count (Some True) r))),
         (''not_public'', JInt (int (verdict_count (Some False) r))), (''unknown'', JInt (int (verdict_count None r)))]),
      (''Notes'', json_strs [S3_SCOPE_NOTE]),
      (''CallerIdentityArn'', opt_str (caller_arn r))]"

section \<open>The tools\<close>

text \<open>
  What a tool does when an agent calls it: the text it answers, and the vault after it. The client
  itself may fail to be built. \<open>vault_call\<close> holds what \<open>register_evidence\<close> reads: the keys, the
  fresh id, the time and the nonce.
\<close>

record vault_call =
  call_crypto :: crypto
  call_fernet :: fernet
  call_env :: "string option"
  call_id :: string
  call_now :: string
  call_nonce :: string
  app_version_text :: string

definition collection_metadata ::
  "vault_call \<Rightarrow> string \<Rightarrow> string \<Rightarrow> string option \<Rightarrow> string option \<Rightarrow> (string \<times> json) list \<Rightarrow> json" where
  "collection_metadata vc tool operation region caller parameters = JObj
     ([(''tool'', JStr tool), (''operation'', JStr operation), (''app_version'', JStr (app_version_text vc)),
       (''region'', opt_str region), (''caller_identity'', opt_str caller)] @
      (if parameters \<noteq> [] then [(''parameters'', JObj parameters)] else []))"

definition register_raw ::
  "vault_call \<Rightarrow> vault \<Rightarrow> string \<Rightarrow> string \<Rightarrow> json \<Rightarrow> string option \<Rightarrow> raised + vault" where
  "register_raw vc v raw_output source metadata session =
     bindE (register_evidence (call_crypto vc) (call_fernet vc) (call_env vc) v raw_output source (Some metadata) session
       (call_id vc) (call_now vc) (call_nonce vc)) (\<lambda>(v', record_made). Inr v')"

definition register_and_format ::
  "vault_call \<Rightarrow> vault \<Rightarrow> string \<Rightarrow> string \<Rightarrow> json \<Rightarrow> string option \<Rightarrow> raised + vault \<times> string" where
  "register_and_format vc v raw_output source metadata session =
     bindE (register_raw vc v raw_output source metadata session) (\<lambda>v'.
       Inr (v', ''Vault ID: '' @ call_id vc @ [CHR 0x0A] @ ''Raw Output: '' @ redact_account_ids raw_output))"

definition get_iam_password_policy ::
  "vault_call \<Rightarrow> string option \<Rightarrow> (iam_client \<times> string option) reply \<Rightarrow> vault \<Rightarrow> raised + vault \<times> string" where
  "get_iam_password_policy vc session client v =
     (case client of
        Inl e \<Rightarrow> Inr (v, ''Error fetching password policy: '' @ describe_error e)
      | Inr (iam, region) \<Rightarrow>
          register_and_format vc v (collect_password_policy iam) ''aws.iam.get_account_password_policy''
            (collection_metadata vc ''get_iam_password_policy'' ''iam:GetAccountPasswordPolicy'' region None []) session)"

definition list_iam_users_with_mfa ::
  "vault_call \<Rightarrow> string option \<Rightarrow> (iam_client \<times> string option) reply \<Rightarrow> vault \<Rightarrow> raised + vault \<times> string" where
  "list_iam_users_with_mfa vc session client v =
     (case bindE client (\<lambda>(iam, region). bindE (collect_iam_users_mfa iam) (\<lambda>j. Inr (j, region))) of
        Inl e \<Rightarrow> Inr (v, ''Error listing IAM users: '' @ describe_error e)
      | Inr (j, region) \<Rightarrow>
          register_and_format vc v (dump_json j) ''aws.iam.list_users_mfa''
            (collection_metadata vc ''list_iam_users_with_mfa'' ''iam:ListUsers, iam:ListMFADevices'' region None []) session)"

definition list_public_s3_buckets ::
  "vault_call \<Rightarrow> string option \<Rightarrow> (s3_client \<times> s3control_client \<times> sts_client \<times> string option) reply \<Rightarrow> vault \<Rightarrow>
   raised + vault \<times> string" where
  "list_public_s3_buckets vc session client v =
     (case bindE client (\<lambda>(s3, s3control, sts, region). bindE (collect_s3_public_access s3 s3control sts) (\<lambda>r. Inr (r, region))) of
        Inl e \<Rightarrow> Inr (v, ''Error listing S3 buckets: '' @ describe_error e)
      | Inr (r, region) \<Rightarrow>
          register_and_format vc v (dump_json (s3_json r)) ''aws.s3.list_public_buckets''
            (collection_metadata vc ''list_public_s3_buckets''
               (''s3:ListBuckets, s3:GetPublicAccessBlock, s3control:GetPublicAccessBlock, '' @
                ''s3:GetBucketPolicyStatus, s3:GetBucketAcl, sts:GetCallerIdentity'') region (caller_arn r) []) session)"

text \<open>\<open>make_aws_tools(session_id)\<close>: the three tools an agent of one session may call.\<close>

datatype aws_call =
    Password_policy "(iam_client \<times> string option) reply"
  | Users_with_mfa "(iam_client \<times> string option) reply"
  | Public_buckets "(s3_client \<times> s3control_client \<times> sts_client \<times> string option) reply"

fun aws_tool :: "vault_call \<Rightarrow> string option \<Rightarrow> aws_call \<Rightarrow> vault \<Rightarrow> raised + vault \<times> string" where
  "aws_tool vc session (Password_policy client) v = get_iam_password_policy vc session client v"
| "aws_tool vc session (Users_with_mfa client) v = list_iam_users_with_mfa vc session client v"
| "aws_tool vc session (Public_buckets client) v = list_public_s3_buckets vc session client v"

end
