(* ===== verification/CleanText.thy ===== *)
theory CleanText
  imports AwsChecks "HOL-Library.Product_Lexorder"
begin

text \<open>
  \<open>clean_field\<close> of \<open>src/swarm/tools/findings_checks.py\<close>: one line of plain text from an untrusted scanner
  field, and what it rules out. Texts are ASCII: a white space character is one of ASCII, a
  character of Unicode category C is an ASCII control character.
\<close>

section \<open>Definitions\<close>

definition angle :: "char \<Rightarrow> bool" where
  "angle c \<longleftrightarrow> c = CHR ''<'' \<or> c = CHR ''>''"

definition control_char :: "char \<Rightarrow> bool" where
  "control_char c = (let n = of_char c :: nat in n < 32 \<or> n = 127)"

text \<open>\<open>_DELIMITER_LOOKALIKE.sub\<close>: a run of three or more of one bracket loses its third and later ones.
  The arguments are the bracket before, and how many of its run were kept.\<close>

fun defuse :: "char option \<Rightarrow> nat \<Rightarrow> string \<Rightarrow> string" where
  "defuse p n [] = []"
| "defuse p n (c # s) =
     (if angle c then
        (let k = (if p = Some c then n else 0) in if k < 2 then c # defuse (Some c) (Suc k) s else defuse (Some c) k s)
      else c # defuse None 0 s)"

definition plain_chars :: "string \<Rightarrow> string" where
  "plain_chars s = map (\<lambda>c. if is_space c then CHR '' '' else c) (filter (\<lambda>c. is_space c \<or> \<not> control_char c) s)"

definition clean_field :: "json \<Rightarrow> nat \<Rightarrow> string" where
  "clean_field v limit =
     take limit (join_with '' '' (py_split (defuse None 0 (plain_chars (take (limit * 4 + 64) (py_str v))))))"

definition TRUNCATE_DETAIL :: nat where "TRUNCATE_DETAIL = 240"

definition TRUNCATE_SHORT :: nat where "TRUNCATE_SHORT = 64"

definition TRUNCATE_RESOURCE :: nat where "TRUNCATE_RESOURCE = 512"

definition clean_optional :: "json \<Rightarrow> nat \<Rightarrow> string option" where
  "clean_optional v limit =
     (if v = JNull \<or> v = JStr [] then None
      else if clean_field v limit = [] then None else Some (clean_field v limit))"

section \<open>Text without a delimiter look-alike\<close>

text \<open>No three equal brackets in a row; the arguments are as in \<open>defuse\<close>.\<close>

fun calm_from :: "char option \<Rightarrow> nat \<Rightarrow> string \<Rightarrow> bool" where
  "calm_from p n [] \<longleftrightarrow> True"
| "calm_from p n (c # s) \<longleftrightarrow>
     (if angle c then (let k = (if p = Some c then n else 0) in k < 2 \<and> calm_from (Some c) (Suc k) s) else calm_from None 0 s)"

abbreviation calm :: "string \<Rightarrow> bool" where "calm \<equiv> calm_from None 0"

lemma calm_mono: "calm_from p n s \<Longrightarrow> q = p \<and> m \<le> n \<or> m = 0 \<Longrightarrow> calm_from q m s"
proof (induction s arbitrary: p n q m)
  case (Cons c s)
  show ?case
  proof (cases "angle c")
    case True
    let ?k = "if p = Some c then n else 0" and ?j = "if q = Some c then m else 0"
    from Cons.prems True have j: "?j \<le> ?k" "?k < 2" and s: "calm_from (Some c) (Suc ?k) s" by (auto simp: Let_def split: if_splits)
    have "calm_from (Some c) (Suc ?j) s" by (rule Cons.IH [OF s]) (use j in simp)
    with j True show ?thesis by (simp add: Let_def)
  qed (use Cons.prems in simp)
qed simp

lemma calm_any: "calm_from p n s \<Longrightarrow> calm s"
  by (rule calm_mono) auto

lemma calm_append: "calm_from p n (a @ b) \<Longrightarrow> calm_from p n a \<and> calm b"
proof (induction a arbitrary: p n)
  case Nil
  then show ?case using calm_any by simp
qed (auto simp: Let_def split: if_splits)

lemma calm_sep [simp]: "\<not> angle c \<Longrightarrow> calm_from p n (a @ c # b) \<longleftrightarrow> calm_from p n a \<and> calm b"
  by (induction a arbitrary: p n) (auto simp: Let_def)

lemma calm_take: "calm_from p n s \<Longrightarrow> calm_from p n (take k s)"
  using calm_append [of p n "take k s" "drop k s"] by simp

lemma calm_no_run: "angle c \<Longrightarrow> calm s \<Longrightarrow> \<not> sublist [c, c, c] s"
proof
  assume c: "angle c" "calm s" "sublist [c, c, c] s"
  then obtain a b where "s = a @ [c, c, c] @ b" by (auto simp: sublist_def)
  with c(2) have "calm ([c, c, c] @ b)" using calm_append by blast
  with c(1) show False by (simp add: Let_def)
qed

lemma calm_defuse: "n \<le> 2 \<Longrightarrow> calm_from p n (defuse p n s)"
proof (induction p n s rule: defuse.induct)
  case (2 p n c s)
  show ?case
  proof (cases "angle c")
    case True
    let ?k = "if p = Some c then n else 0"
    show ?thesis
    proof (cases "?k < 2")
      case True
      with 2(1) [OF \<open>angle c\<close> refl] \<open>angle c\<close> show ?thesis by (simp add: Let_def)
    next
      case False
      with 2(2) [OF \<open>angle c\<close> refl] 2(4) \<open>angle c\<close> show ?thesis by (simp add: Let_def split: if_splits)
    qed
  qed (use 2(3) in simp)
qed simp

text \<open>Words of a calm text, joined again, are calm.\<close>

lemma space_not_angle: "is_space c \<Longrightarrow> \<not> angle c"
  by (auto simp: angle_def is_space_def)

lemma calm_words: "calm (rev acc @ s) \<Longrightarrow> \<forall>w\<in>set (split_ws acc s). calm w"
proof (induction acc s rule: split_ws.induct)
  case (2 acc c cs)
  show ?case
  proof (cases "is_space c")
    case True
    with 2(4) space_not_angle have "calm (rev acc)" "calm cs" by simp_all
    with True 2(1,2) show ?thesis by simp
  next
    case False
    with 2(3) 2(4) show ?thesis by simp
  qed
qed simp

lemma calm_join: "\<forall>w\<in>set ws. calm w \<Longrightarrow> calm (join_with '' '' ws)"
proof (induction "'' ''" ws rule: join_with.induct)
  case (3 x y ys)
  have "\<not> angle CHR '' ''" by (simp add: angle_def)
  with 3 show ?case by simp
qed simp_all

section \<open>What a cleaned field is\<close>

definition one_line :: "string \<Rightarrow> bool" where
  "one_line s \<longleftrightarrow> (\<forall>c\<in>set s. \<not> control_char c)"

lemma one_line_simps [simp]: "one_line []" "one_line (c # s) \<longleftrightarrow> \<not> control_char c \<and> one_line s"
  "one_line (a @ b) \<longleftrightarrow> one_line a \<and> one_line b"
  by (auto simp: one_line_def)

lemma set_defuse: "set (defuse p n s) \<subseteq> set s"
  by (induction p n s rule: defuse.induct) (auto simp: Let_def split: if_splits)

lemma one_line_words:
  assumes "\<forall>c\<in>set s. is_space c \<or> \<not> control_char c"
  shows "\<forall>w\<in>set (py_split s). one_line w"
proof -
  have "\<forall>c\<in>set acc. \<not> control_char c \<Longrightarrow> \<forall>c\<in>set s. is_space c \<or> \<not> control_char c \<Longrightarrow> \<forall>w\<in>set (split_ws acc s). one_line w" for acc
    by (induction acc s rule: split_ws.induct) (auto simp: one_line_def)
  from this [of "[]"] assms show ?thesis by simp
qed

lemma one_line_join: "\<forall>w\<in>set ws. one_line w \<Longrightarrow> one_line sep \<Longrightarrow> one_line (join_with sep ws)"
  by (induction sep ws rule: join_with.induct) simp_all

lemma space_no_control: "\<not> control_char CHR '' ''"
  by (simp add: control_char_def)

lemma clean_field_one_line: "one_line (clean_field v limit)"
proof -
  let ?t = "plain_chars (take (limit * 4 + 64) (py_str v))"
  have "\<forall>c\<in>set ?t. is_space c \<or> \<not> control_char c" by (auto simp: plain_chars_def)
  then have "\<forall>c\<in>set (defuse None 0 ?t). is_space c \<or> \<not> control_char c" using set_defuse by blast
  from one_line_join [OF one_line_words [OF this]] have "one_line (join_with '' '' (py_split (defuse None 0 ?t)))"
    by (simp add: space_no_control)
  then show ?thesis unfolding clean_field_def one_line_def by (meson in_set_takeD)
qed

lemma clean_field_calm: "calm (clean_field v limit)"
proof -
  have "calm (defuse None 0 (plain_chars (take (limit * 4 + 64) (py_str v))))" by (rule calm_defuse) simp
  then have "\<forall>w\<in>set (py_split (defuse None 0 (plain_chars (take (limit * 4 + 64) (py_str v))))). calm w"
    using calm_words [of "[]"] by simp
  from calm_take [OF calm_join [OF this]] show ?thesis unfolding clean_field_def .
qed

lemma clean_field_length: "length (clean_field v limit) \<le> limit"
  by (simp add: clean_field_def)

text \<open>A field an untrusted value was cleaned to.\<close>

definition tidy :: "string \<Rightarrow> bool" where
  "tidy s \<longleftrightarrow> one_line s \<and> calm s"

lemma tidy_clean [simp, intro]: "tidy (clean_field v limit)"
  by (simp add: tidy_def clean_field_one_line clean_field_calm)

lemma tidy_optional: "clean_optional v limit = Some s \<Longrightarrow> tidy s"
  by (auto simp: clean_optional_def split: if_splits)

text \<open>Upper and lower case.\<close>

definition upper_char :: "char \<Rightarrow> char" where
  "upper_char c = (let n = of_char c :: nat in if 97 \<le> n \<and> n \<le> 122 then char_of (n - 32) else c)"

abbreviation upper :: "string \<Rightarrow> string" where "upper \<equiv> map upper_char"

text \<open>A change of characters that leaves brackets and control characters alone.\<close>

definition harmless :: "(char \<Rightarrow> char) \<Rightarrow> bool" where
  "harmless f \<longleftrightarrow> (\<forall>c. (angle c \<longrightarrow> f c = c) \<and> (\<not> angle c \<longrightarrow> \<not> angle (f c)) \<and> (\<not> control_char c \<longrightarrow> \<not> control_char (f c)))"

lemma tidy_map: "harmless f \<Longrightarrow> tidy s \<Longrightarrow> tidy (map f s)"
proof -
  assume f: "harmless f"
  have "calm_from p n s \<Longrightarrow> calm_from p n (map f s)" for p n
  proof (induction s arbitrary: p n)
    case (Cons c s)
    with f show ?case by (cases "angle c") (auto simp: harmless_def Let_def split: if_splits)
  qed simp
  moreover have "one_line s \<Longrightarrow> one_line (map f s)" using f by (auto simp: one_line_def harmless_def)
  ultimately show "tidy s \<Longrightarrow> tidy (map f s)" by (simp add: tidy_def)
qed

lemma char_of_neq: "m < 256 \<Longrightarrow> n < 256 \<Longrightarrow> char_of m = (char_of n :: char) \<longleftrightarrow> m = (n :: nat)"
  by (metis mod_less of_char_of)

lemma angle_code: "angle c \<longleftrightarrow> of_char c \<in> {60, 62 :: nat}"
proof -
  have "of_char CHR ''<'' = (60 :: nat)" "of_char CHR ''>'' = (62 :: nat)" by simp_all
  then show ?thesis unfolding angle_def by (metis insert_iff of_char_eq_iff singletonD)
qed

lemma harmless_case: "harmless upper_char" "harmless lower_char"
  by (auto simp: harmless_def angle_code control_char_def upper_char_def lower_char_def Let_def of_char_of)

text \<open>The \<open>repr\<close> of a list of tidy strings, and redaction.\<close>

lemma calm_flat: "l \<noteq> [] \<Longrightarrow> \<forall>x\<in>set l. \<not> angle x \<Longrightarrow> calm_from p n (l @ s) \<longleftrightarrow> calm s"
proof (induction l arbitrary: p n)
  case (Cons x l)
  then show ?case by (cases "l = []") simp_all
qed simp

lemma repr_char_angle: "angle c \<Longrightarrow> q = CHR 0x22 \<or> q = CHR 0x27 \<Longrightarrow> repr_char q c = [c]"
  by (auto simp: angle_def repr_char_def)

lemma hex_char_plain: "d < 16 \<Longrightarrow> \<not> angle (hex_char d) \<and> \<not> control_char (hex_char d)"
  by (auto simp: hex_char_def angle_code control_char_def of_char_of)

lemma repr_char_flat:
  assumes "\<not> angle c"
  shows "repr_char q c \<noteq> [] \<and> (\<forall>x\<in>set (repr_char q c). \<not> angle x)"
proof -
  have "of_char c < (256 :: nat)" by simp
  then have "(of_char c :: nat) div 16 < 16" "(of_char c :: nat) mod 16 < 16" by (simp_all add: div_less_dividend_16)
  note hex = this [THEN hex_char_plain]
  have lits: "\<not> angle CHR 0x5C" "\<not> angle CHR ''t''" "\<not> angle CHR ''n''" "\<not> angle CHR ''r''" "\<not> angle CHR ''x''"
    by (simp_all add: angle_def)
  show ?thesis using assms hex lits by (simp add: repr_char_def Let_def)
qed

lemma repr_char_one_line:
  assumes "q = CHR 0x22 \<or> q = CHR 0x27"
  shows "\<forall>x\<in>set (repr_char q c). \<not> control_char x"
proof -
  have "of_char c < (256 :: nat)" by simp
  then have "(of_char c :: nat) div 16 < 16" "(of_char c :: nat) mod 16 < 16" by (simp_all add: div_less_dividend_16)
  note hex = this [THEN hex_char_plain]
  have lits: "\<not> control_char CHR 0x5C" "\<not> control_char CHR ''t''" "\<not> control_char CHR ''n''" "\<not> control_char CHR ''r''"
    "\<not> control_char CHR ''x''" by (simp_all add: control_char_def)
  show ?thesis
  proof (cases "of_char c < (32 :: nat) \<or> of_char c = (127 :: nat)")
    case True
    then have "of_char c \<noteq> (92 :: nat)" by auto
    moreover from True assms have "c \<noteq> q" by auto
    ultimately show ?thesis using hex lits True by (simp add: repr_char_def Let_def)
  next
    case False
    then have "\<not> control_char c" by (simp add: control_char_def Let_def)
    then show ?thesis using hex lits by (simp add: repr_char_def Let_def)
  qed
qed

lemma tidy_repr: "tidy s \<Longrightarrow> tidy (repr_str s)"
proof -
  assume s: "tidy s"
  let ?q = "if CHR 0x27 \<in> set s \<and> CHR 0x22 \<notin> set s then CHR 0x22 else CHR 0x27"
  have q: "?q = CHR 0x22 \<or> ?q = CHR 0x27" by simp
  then have flat: "\<not> angle ?q" "\<not> control_char ?q" by (auto simp: angle_def control_char_def)
  have "calm_from p n t \<Longrightarrow> calm_from p n (concat (map (repr_char ?q) t))" for p n t
  proof (induction t arbitrary: p n)
    case (Cons c t)
    show ?case
    proof (cases "angle c")
      case True
      with Cons show ?thesis by (simp add: repr_char_angle [OF True q] Let_def del: set_ConsD split: if_splits)
    next
      case False
      with Cons repr_char_flat [OF False, of ?q] show ?thesis by (simp add: calm_flat)
    qed
  qed simp
  then have calm: "calm (concat (map (repr_char ?q) s))" using s by (simp add: tidy_def)
  have "one_line (concat (map (repr_char ?q) s))"
    using repr_char_one_line [OF q] by (auto simp: one_line_def)
  with calm flat show ?thesis unfolding repr_str_def Let_def by (simp add: tidy_def)
qed

lemma tidy_join: "\<forall>x\<in>set xs. tidy x \<Longrightarrow> tidy (join_with '', '' xs)"
proof -
  assume xs: "\<forall>x\<in>set xs. tidy x"
  have comma: "\<not> angle CHR '',''" "\<not> angle CHR '' ''" by (simp_all add: angle_def)
  have "\<forall>x\<in>set xs. calm x \<Longrightarrow> calm (join_with '', '' xs)"
    by (induction "'', ''" xs rule: join_with.induct) (simp_all add: comma)
  with xs one_line_join [of xs "'', ''"] show ?thesis by (simp add: tidy_def control_char_def)
qed

lemma tidy_snoc: "\<not> angle c \<Longrightarrow> tidy (a @ c # b) \<longleftrightarrow> tidy a \<and> \<not> control_char c \<and> tidy b"
  by (auto simp: tidy_def)

lemma tidy_Cons: "\<not> angle c \<Longrightarrow> tidy (c # b) \<longleftrightarrow> \<not> control_char c \<and> tidy b"
  by (auto simp: tidy_def)

lemma tidy_Nil: "tidy []"
  by (simp add: tidy_def)

lemma tidy_list: "\<forall>x\<in>set xs. tidy x \<Longrightarrow> tidy (py_repr (JList (map JStr xs)))"
proof -
  assume "\<forall>x\<in>set xs. tidy x"
  then have "tidy (join_with '', '' (map repr_str xs))" using tidy_repr by (intro tidy_join) auto
  then show ?thesis by (simp add: tidy_Cons tidy_snoc tidy_Nil angle_def control_char_def comp_def)
qed

lemma take_digits_suffix: "take_digits n s = Some r \<Longrightarrow> \<exists>d. s = d @ r"
  by (induction n s rule: take_digits.induct) (auto split: if_splits intro: exI [of _ "[]"] exI [of _ "x # xs" for x xs])

lemma account_id_suffix: "account_id p s = Some r \<Longrightarrow> \<exists>d. s = d @ r"
proof -
  have dash: "dash_digits s = Some r \<Longrightarrow> \<exists>d. s = d @ r" for s r
    using take_digits_suffix by (fastforce simp: dash_digits_def split: list.splits if_splits)
  assume "account_id p s = Some r"
  then consider "take_digits 12 s = Some r" | a b where "take_digits 4 s = Some a" "dash_digits a = Some b" "dash_digits b = Some r"
    by (auto simp: account_id_def bare_id_def hyphenated_id_def no_digit_next_def bind_eq_Some_conv split: if_splits option.splits)
  then show ?thesis
  proof cases
    case 2
    with take_digits_suffix dash show ?thesis by (metis append.assoc)
  qed (rule take_digits_suffix)
qed

lemma calm_redact: "calm_from q n s \<Longrightarrow> calm_from q n (redact_account_ids s)"
proof -
  have "calm_from q n s \<Longrightarrow> calm_from q n (redact_from p s)" for p
  proof (induction p s arbitrary: q n rule: redact_from.induct)
    case (2 p c s)
    show ?case
    proof (cases "account_id p (c # s)")
      case None
      with 2(1) [OF None] 2(3) show ?thesis by (auto simp: Let_def split: if_splits)
    next
      case (Some r)
      then obtain d where "c # s = d @ r" using account_id_suffix by blast
      with 2(3) have "calm r" using calm_append by metis
      with 2(2) [OF Some] have "calm (redact_from True r)" by blast
      then have "calm (''[REDACTED]'' @ redact_from True r)" by (simp add: angle_def)
      moreover have "\<not> angle CHR ''[''" by (simp add: angle_def)
      ultimately show ?thesis using Some by simp
    qed
  qed simp
  then show "calm_from q n s \<Longrightarrow> calm_from q n (redact_account_ids s)" by (simp add: redact_account_ids_def)
qed

end
