(* ===== verification/FindingsImport.thy ===== *)
theory FindingsImport
  imports CleanText Prompts
begin

text \<open>
  Import of third-party scanner findings (\<open>src/swarm/tools/findings_checks.py\<close>) and the tools that
  register the summaries (theory \<open>FindingsTools\<close>). A findings file is the value
  \<open>json.loads\<close> made of it, or the text of its \<open>JSONDecodeError\<close>; a number in it is an integer, and no object has a key twice. Python's None
  is \<open>JNull\<close>, also for a key that is missing.
\<close>

section \<open>Reading a record\<close>

definition pget :: "(string \<times> json) list \<Rightarrow> string \<Rightarrow> json" where
  "pget r k = (case map_of r k of None \<Rightarrow> JNull | Some v \<Rightarrow> v)"

definition py_or :: "json \<Rightarrow> json \<Rightarrow> json" where
  "py_or a b = (if truthy (Some a) then a else b)"

definition dict_field :: "(string \<times> json) list \<Rightarrow> string \<Rightarrow> (string \<times> json) list" where
  "dict_field r k = (case pget r k of JObj d \<Rightarrow> d | _ \<Rightarrow> [])"

definition list_field :: "(string \<times> json) list \<Rightarrow> string \<Rightarrow> json list" where
  "list_field r k = (case pget r k of JList xs \<Rightarrow> xs | _ \<Rightarrow> [])"

definition first_object :: "json list \<Rightarrow> (string \<times> json) list" where
  "first_object xs = (case xs of JObj d # _ \<Rightarrow> d | _ \<Rightarrow> [])"

definition severity_rank :: "string \<Rightarrow> nat" where
  "severity_rank severity =
     (case map_of [(''critical'', 0), (''high'', 1), (''medium'', 2), (''low'', 3), (''informational'', 4), (''info'', 4)] (lower severity) of
        None \<Rightarrow> 6 | Some n \<Rightarrow> n)"

definition MAX_PROWLER_FILE_BYTES :: nat where "MAX_PROWLER_FILE_BYTES = 10 * 1024 * 1024"

definition MAX_DETAIL_LINES :: nat where "MAX_DETAIL_LINES = 300"

datatype import_error =
    Too_large nat
  | Empty_file
  | Not_json string
  | Not_an_array string
  | No_records

definition check_prowler_file_size :: "nat \<Rightarrow> import_error + unit" where
  "check_prowler_file_size n =
     (if MAX_PROWLER_FILE_BYTES < n then Inl (Too_large n) else if n = 0 then Inl Empty_file else Inr ())"

section \<open>Prowler\<close>

record normalized_finding =
  check_id :: string
  nf_title :: string
  nf_status :: string
  nf_severity :: string
  nf_region :: "string option"
  resource_uid :: "string option"
  status_detail :: string
  compliance :: "string list"
  extra_resources :: nat

definition flatten_compliance :: "json \<Rightarrow> string list" where
  "flatten_compliance v = (case v of
      JObj ps \<Rightarrow> map (\<lambda>(framework, reqs).
        let reqs_str = (case reqs of JList rs \<Rightarrow> join_with '', '' (map py_str rs) | r \<Rightarrow> py_str r) in
        clean_field (JStr (if reqs_str \<noteq> [] then framework @ '': '' @ reqs_str else framework)) TRUNCATE_DETAIL) ps
    | _ \<Rightarrow> [])"

text \<open>None is the \<open>ValueError\<close> of a record without an identifier.\<close>

definition normalize_ocsf_record :: "(string \<times> json) list \<Rightarrow> normalized_finding option" where
  "normalize_ocsf_record r =
     (let finding_info = dict_field r ''finding_info''; resources = list_field r ''resources'';
          ident = py_or (pget (dict_field r ''metadata'') ''event_code'') (pget finding_info ''uid'');
          status = py_or (py_or (pget r ''status_code'') (pget r ''status'')) (JStr ''UNKNOWN'');
          severity = py_or (pget r ''severity'') (JStr ''unknown'');
          first = first_object resources;
          region = py_or (pget first ''region'') (pget (dict_field r ''cloud'') ''region'');
          uid = py_or (pget first ''uid'') (pget first ''name'') in
      if \<not> truthy (Some ident) then None
      else Some \<lparr>check_id = clean_field ident TRUNCATE_DETAIL,
        nf_title = clean_field (py_or (pget finding_info ''title'') ident) TRUNCATE_DETAIL,
        nf_status = upper (clean_field status TRUNCATE_SHORT), nf_severity = lower (clean_field severity TRUNCATE_SHORT),
        nf_region = clean_optional region TRUNCATE_SHORT, resource_uid = clean_optional uid TRUNCATE_RESOURCE,
        status_detail = clean_field (py_or (pget r ''status_detail'') (JStr [])) TRUNCATE_DETAIL,
        compliance = flatten_compliance (pget (dict_field r ''unmapped'') ''compliance''),
        extra_resources = length resources - 1\<rparr>)"

definition normalize_legacy_record :: "(string \<times> json) list \<Rightarrow> normalized_finding option" where
  "normalize_legacy_record r =
     (let ident = pget r ''CheckID'' in
      if \<not> truthy (Some ident) then None
      else Some \<lparr>check_id = clean_field ident TRUNCATE_DETAIL,
        nf_title = clean_field (py_or (pget r ''CheckTitle'') ident) TRUNCATE_DETAIL,
        nf_status = upper (clean_field (py_or (pget r ''Status'') (JStr ''UNKNOWN'')) TRUNCATE_SHORT),
        nf_severity = lower (clean_field (py_or (pget r ''Severity'') (JStr ''unknown'')) TRUNCATE_SHORT),
        nf_region = clean_optional (pget r ''Region'') TRUNCATE_SHORT,
        resource_uid = clean_optional (py_or (pget r ''ResourceArn'') (pget r ''ResourceId'')) TRUNCATE_RESOURCE,
        status_detail = clean_field (py_or (pget r ''StatusExtended'') (JStr [])) TRUNCATE_DETAIL,
        compliance = flatten_compliance (pget r ''Compliance''), extra_resources = 0\<rparr>)"

definition is_ocsf_record :: "(string \<times> json) list \<Rightarrow> bool" where
  "is_ocsf_record r \<longleftrightarrow> list_ex (\<lambda>k. map_of r k \<noteq> None) [''finding_info'', ''status_code'', ''class_uid'']"

fun objects :: "json list \<Rightarrow> (string \<times> json) list list" where
  "objects [] = []"
| "objects (JObj r # xs) = r # objects xs"
| "objects (x # xs) = objects xs"

fun prowler_tool_version :: "(string \<times> json) list list \<Rightarrow> string option" where
  "prowler_tool_version [] = None"
| "prowler_tool_version (r # rs) =
     (let version = pget (dict_field (dict_field r ''metadata'') ''product'') ''version'' in
      if truthy (Some version) then Some (clean_field version TRUNCATE_SHORT) else prowler_tool_version rs)"

definition record_times :: "(string \<times> json) list \<Rightarrow> json list" where
  "record_times r =
     filter (\<lambda>t. t \<noteq> JNull) [pget r ''time'', pget r ''time_dt''] @
     filter (\<lambda>t. truthy (Some t)) [pget (dict_field r ''finding_info'') ''created_time_dt'']"

text \<open>The latest by its text; \<open>max\<close> takes the first of the greatest.\<close>

definition prowler_generated_at :: "(string \<times> json) list list \<Rightarrow> string option" where
  "prowler_generated_at rs =
     (case concat (map record_times rs) of
        [] \<Rightarrow> None
      | t # ts \<Rightarrow> Some (clean_field (foldl (\<lambda>best u. if py_str best < py_str u then u else best) t ts) TRUNCATE_SHORT))"

record prowler_result =
  pr_format :: string
  pr_findings :: "normalized_finding list"
  pr_errors :: "string list"
  pr_version :: "string option"
  pr_generated :: "string option"

definition record_error :: "string \<Rightarrow> nat \<Rightarrow> string \<Rightarrow> string" where
  "record_error kind n why = kind @ '' #'' @ nat_str (Suc n) @ '': '' @ why"

text \<open>One record: a finding, or the message of the record that is skipped.\<close>

definition normalize_prowler :: "nat \<Rightarrow> json \<Rightarrow> string + normalized_finding" where
  "normalize_prowler n v =
     (case v of
        JObj r \<Rightarrow>
          if is_ocsf_record r then
            of_option (record_error ''record'' n (clean_field (JStr ''OCSF record has neither metadata.event_code nor finding_info.uid'')
              TRUNCATE_DETAIL)) (normalize_ocsf_record r)
          else of_option (record_error ''record'' n (clean_field (JStr ''legacy Prowler record has no CheckID'') TRUNCATE_DETAIL))
            (normalize_legacy_record r)
      | _ \<Rightarrow> Inl (record_error ''record'' n ''not a JSON object''))"

definition outcomes :: "(nat \<Rightarrow> json \<Rightarrow> string + 'a) \<Rightarrow> json list \<Rightarrow> (string + 'a) list" where
  "outcomes f vs = map (\<lambda>(n, v). f n v) (List.enumerate 0 vs)"

definition lefts :: "('e + 'a) list \<Rightarrow> 'e list" where
  "lefts rs = concat (map (\<lambda>r. case r of Inl e \<Rightarrow> [e] | Inr x \<Rightarrow> []) rs)"

definition rights :: "('e + 'a) list \<Rightarrow> 'a list" where
  "rights rs = concat (map (\<lambda>r. case r of Inl e \<Rightarrow> [] | Inr x \<Rightarrow> [x]) rs)"

definition type_name :: "json \<Rightarrow> string" where
  "type_name v = (case v of JNull \<Rightarrow> ''NoneType'' | JBool b \<Rightarrow> ''bool'' | JInt n \<Rightarrow> ''int'' | JStr t \<Rightarrow> ''str''
     | JList xs \<Rightarrow> ''list'' | JObj ps \<Rightarrow> ''dict'')"

definition prowler_result_of :: "json list \<Rightarrow> prowler_result" where
  "prowler_result_of vs =
     \<lparr>pr_format = (case objects vs of [] \<Rightarrow> ''unknown'' | r # _ \<Rightarrow> if is_ocsf_record r then ''ocsf'' else ''legacy''),
      pr_findings = rights (outcomes normalize_prowler vs), pr_errors = lefts (outcomes normalize_prowler vs),
      pr_version = prowler_tool_version (objects vs), pr_generated = prowler_generated_at (objects vs)\<rparr>"

definition parse_prowler_findings :: "string + json \<Rightarrow> import_error + prowler_result" where
  "parse_prowler_findings data =
     (case data of
        Inl why \<Rightarrow> Inl (Not_json why)
      | Inr (JList vs) \<Rightarrow> if vs = [] then Inl No_records else Inr (prowler_result_of vs)
      | Inr v \<Rightarrow> Inl (Not_an_array (type_name v)))"

section \<open>The Prowler summary\<close>

definition HONESTY_NOTE :: string where
  "HONESTY_NOTE =
     ''This import reflects what the scanning tool reported at the time it '' @
     ''ran (or, for Security Hub, at the time this read was made): a PASS/'' @
     ''PASSED result is configuration and implementation evidence (test of '' @
     ''design), not proof that the control operated effectively over a '' @
     ''period. Severities and pass/fail results are the tool'' @ [CHR 0x27] @ ''s own '' @
     ''classification, not an audit deficiency rating '' @ em_dash @ '' that classification '' @
     ''is made later by the auditor, and (per engagement severity) by '' @
     ''Reporting.''"

text \<open>\<open>sorted(_status_counts(...).items())\<close>\<close>

definition status_counts :: "string list \<Rightarrow> (string \<times> nat) list" where
  "status_counts xs = map (\<lambda>x. (x, count_list xs x)) (sort (remdups xs))"

definition counts_text :: "string list \<Rightarrow> string" where
  "counts_text xs = join_with '', '' (map (\<lambda>(k, n). nat_str n @ '' '' @ k) (status_counts xs))"

definition finding_key :: "normalized_finding \<Rightarrow> bool \<times> nat" where
  "finding_key f = (nf_status f \<noteq> ''FAIL'', severity_rank (nf_severity f))"

text \<open>The findings of each check, in order of their keys, and the checks in order of theirs.\<close>

definition check_group :: "normalized_finding list \<Rightarrow> string \<Rightarrow> normalized_finding list" where
  "check_group fs cid = sort_key finding_key (filter (\<lambda>f. check_id f = cid) fs)"

definition check_groups :: "normalized_finding list \<Rightarrow> (string \<times> normalized_finding list) list" where
  "check_groups fs = map (\<lambda>cid. (cid, check_group fs cid))
     (sort_key (\<lambda>cid. (finding_key (hd (check_group fs cid)), cid)) (remdups (map check_id fs)))"

definition text_or :: "string \<Rightarrow> string option \<Rightarrow> string" where
  "text_or d s = (case s of None \<Rightarrow> d | Some x \<Rightarrow> if x = [] then d else x)"

definition more_resources :: "nat \<Rightarrow> string" where
  "more_resources n = (if n = 0 then [] else '' (+'' @ nat_str n @ '' more resource(s))'')"

definition listed :: "string \<Rightarrow> string list \<Rightarrow> string" where
  "listed name xs = (if xs = [] then [] else ''; '' @ name @ ''='' @ py_repr (JList (map JStr xs)))"

definition detail_line :: "normalized_finding \<Rightarrow> string" where
  "detail_line f =
     ''    ['' @ nf_status f @ ''] severity='' @ nf_severity f @ '' region='' @ text_or ''unknown region'' (nf_region f) @
     '' resource='' @ text_or ''unknown resource'' (resource_uid f) @ more_resources (extra_resources f) @
     '' status_detail='' @ [CHR 0x22] @ status_detail f @ [CHR 0x22] @ listed ''compliance'' (compliance f)"

definition check_header :: "string \<Rightarrow> normalized_finding list \<Rightarrow> string" where
  "check_header cid fs = ''- '' @ cid @ '' ('' @ nf_title (hd fs) @ ''): '' @ counts_text (map nf_status fs)"

definition cut_line :: "nat \<Rightarrow> string" where
  "cut_line n = ''    ... '' @ nat_str n @ '' finding line(s) for this check '' @
     ''not listed (detail limit reached); counted in the header above.''"

text \<open>The lines of the checks, and the findings left out; \<open>printed\<close> counts the finding lines so far.\<close>

fun check_lines :: "nat \<Rightarrow> (string \<times> normalized_finding list) list \<Rightarrow> string list \<times> nat" where
  "check_lines printed [] = ([], 0)"
| "check_lines printed ((cid, fs) # gs) =
     (let shown = take (MAX_DETAIL_LINES - printed) fs; cut = length fs - length shown;
          (rest, omitted) = check_lines (printed + length shown) gs in
      (check_header cid fs # map detail_line shown @ (if 0 < cut then [cut_line cut] else []) @ rest, cut + omitted))"

definition error_lines :: "string list \<Rightarrow> string list" where
  "error_lines errs = (if errs = [] then []
     else [[], ''Unparseable records (skipped, not counted as findings):''] @ map (\<lambda>e. ''- '' @ e) (take MAX_DETAIL_LINES errs))"

definition skipped_text :: "string list \<Rightarrow> string" where
  "skipped_text errs = (if errs = [] then [] else '', '' @ nat_str (length errs) @ '' unparseable record(s) skipped'')"

definition prowler_lines :: "prowler_result \<Rightarrow> string list" where
  "prowler_lines r =
     (let absent = text_or ''not present in file''; (ls, omitted) = check_lines 0 (check_groups (pr_findings r)) in
      [''Prowler findings import (format: '' @ pr_format r @ '', tool version: '' @ absent (pr_version r) @
         '', latest finding timestamp in file: '' @ absent (pr_generated r) @ '')'',
       HONESTY_NOTE, [],
       ''Summary: '' @ nat_str (length (pr_findings r)) @ '' findings parsed, '' @ counts_text (map nf_status (pr_findings r)) @
         skipped_text (pr_errors r), [],
       ''Findings by check (checks with a FAIL first, then by severity; every '' @
         ''check'' @ [CHR 0x27] @ ''s header line gives its complete per-status counts):''] @
      ls @
      (if 0 < omitted then [''... '' @ nat_str omitted @ '' further finding(s) omitted from this listing '' @
         ''(limit: '' @ nat_str MAX_DETAIL_LINES @ '' detail lines); the per-check header '' @
         ''lines and the overall Summary line above include them.''] else []) @
      error_lines (pr_errors r))"

definition build_prowler_summary :: "prowler_result \<Rightarrow> string" where
  "build_prowler_summary r = join_with [CHR 0x0A] (prowler_lines r)"

section \<open>Security Hub\<close>

record asff_finding =
  finding_id :: string
  af_title :: string
  compliance_status :: string
  severity_label :: string
  record_state :: string
  workflow_status :: string
  generator_id :: string
  product_name :: string
  af_region :: "string option"
  af_resource :: "string option"
  af_description :: string
  related_requirements :: "string list"
  af_extra :: nat

text \<open>A filter is its conditions, each the value and the comparison.\<close>

type_synonym filters = "(string \<times> (string \<times> string) list) list"

definition filter_if :: "string \<Rightarrow> string option \<Rightarrow> filters" where
  "filter_if name value_given = (case value_given of None \<Rightarrow> [] | Some v \<Rightarrow> if v = [] then [] else [(name, [(v, ''EQUALS'')])])"

definition build_securityhub_filters :: "string option \<Rightarrow> string option \<Rightarrow> string option \<Rightarrow> filters" where
  "build_securityhub_filters product generator status =
     [(''RecordState'', [(''ACTIVE'', ''EQUALS'')]), (''WorkflowStatus'', [(''SUPPRESSED'', ''NOT_EQUALS'')])] @
     filter_if ''ProductName'' product @ filter_if ''GeneratorId'' generator @ filter_if ''ComplianceStatus'' status"

text \<open>The paginator of \<open>get_findings\<close>: page n, an error, or the end; it need not have one.\<close>

record findings_page =
  page_findings :: "json list"
  next_token :: bool

type_synonym paginator = "nat \<Rightarrow> findings_page reply option"

partial_function (option) read_pages :: "paginator \<Rightarrow> int \<Rightarrow> nat \<Rightarrow> json list \<Rightarrow> (json list \<times> bool) reply option" where
  "read_pages pages limit n acc =
     (case pages n of
        None \<Rightarrow> Some (Inr (acc, False))
      | Some (Inl e) \<Rightarrow> Some (Inl e)
      | Some (Inr p) \<Rightarrow>
          (let remaining = limit - int (length acc) in
           if remaining \<le> 0 then Some (Inr (acc, True))
           else if remaining < int (length (page_findings p)) then
             Some (Inr (acc @ take (nat remaining) (page_findings p), next_token p \<or> remaining < int (length (page_findings p))))
           else read_pages pages limit (Suc n) (acc @ page_findings p)))"

definition collect_securityhub_findings :: "paginator \<Rightarrow> int \<Rightarrow> (json list \<times> bool) reply option" where
  "collect_securityhub_findings pages limit = read_pages pages limit 0 []"

definition last_segment :: "string \<Rightarrow> string" where
  "last_segment s = rev (takeWhile (\<lambda>c. c \<noteq> CHR ''/'') (rev s))"

definition short_upper :: "json \<Rightarrow> string" where
  "short_upper v = upper (clean_field v TRUNCATE_SHORT)"

definition normalize_asff_record :: "(string \<times> json) list \<Rightarrow> asff_finding option" where
  "normalize_asff_record r =
     (let ident = pget r ''Id''; status = dict_field r ''Compliance''; resources = list_field r ''Resources'';
          first = first_object resources; named = pget (dict_field r ''ProductFields'') ''aws/securityhub/ProductName'';
          arn = py_str (py_or (pget r ''ProductArn'') (JStr []));
          product = (if truthy (Some named) then named else JStr (if arn \<noteq> [] then last_segment arn else ''unknown'')) in
      if \<not> truthy (Some ident) then None
      else Some \<lparr>finding_id = clean_field ident TRUNCATE_RESOURCE,
        af_title = clean_field (py_or (pget r ''Title'') ident) TRUNCATE_DETAIL,
        compliance_status = short_upper (py_or (pget status ''Status'') (JStr ''NOT_AVAILABLE'')),
        severity_label = short_upper (py_or (pget (dict_field r ''Severity'') ''Label'') (JStr ''UNKNOWN'')),
        record_state = short_upper (py_or (pget r ''RecordState'') (JStr ''UNKNOWN'')),
        workflow_status = short_upper (py_or (py_or (pget (dict_field r ''Workflow'') ''Status'') (pget r ''WorkflowState'')) (JStr ''UNKNOWN'')),
        generator_id = clean_field (py_or (pget r ''GeneratorId'') (JStr ''unknown'')) TRUNCATE_DETAIL,
        product_name = clean_field product TRUNCATE_DETAIL,
        af_region = clean_optional (pget first ''Region'') TRUNCATE_SHORT,
        af_resource = clean_optional (pget first ''Id'') TRUNCATE_RESOURCE,
        af_description = clean_field (py_or (pget r ''Description'') (JStr [])) TRUNCATE_DETAIL,
        related_requirements = map (\<lambda>v. clean_field v TRUNCATE_DETAIL) (list_field status ''RelatedRequirements''),
        af_extra = length resources - 1\<rparr>)"

definition normalize_asff :: "nat \<Rightarrow> json \<Rightarrow> string + asff_finding" where
  "normalize_asff n v =
     (case v of
        JObj r \<Rightarrow> of_option (record_error ''finding'' n (clean_field (JStr ''ASFF record has no Id'') TRUNCATE_DETAIL)) (normalize_asff_record r)
      | _ \<Rightarrow> Inl (record_error ''finding'' n ''not a JSON object''))"

record securityhub_result =
  sr_findings :: "asff_finding list"
  sr_errors :: "string list"

definition parse_asff_records :: "json list \<Rightarrow> securityhub_result" where
  "parse_asff_records vs =
     \<lparr>sr_findings = rights (outcomes normalize_asff vs), sr_errors = lefts (outcomes normalize_asff vs)\<rparr>"

definition asff_key :: "asff_finding \<Rightarrow> bool \<times> nat \<times> string \<times> string" where
  "asff_key f = (compliance_status f \<noteq> ''FAILED'', severity_rank (severity_label f), generator_id f, finding_id f)"

definition asff_line :: "asff_finding \<Rightarrow> string" where
  "asff_line f =
     ''- ['' @ compliance_status f @ ''] '' @ generator_id f @ '' ('' @ af_title f @ '') severity='' @ severity_label f @
     '' product='' @ product_name f @ '' region='' @ text_or ''unknown region'' (af_region f) @
     '' resource='' @ text_or ''unknown resource'' (af_resource f) @ more_resources (af_extra f) @
     '' record_state='' @ record_state f @ '' workflow_status='' @ workflow_status f @
     '' description='' @ [CHR 0x22] @ af_description f @ [CHR 0x22] @ listed ''related_requirements'' (related_requirements f) @
     '' id='' @ finding_id f"

definition filters_text :: "filters \<Rightarrow> string" where
  "filters_text fs = clean_field (JStr (join_with '', ''
     (map (\<lambda>(name, conds). name @ ''='' @ py_repr (JList (map (JStr \<circ> fst) conds))) (sort_key fst fs)))) 1024"

definition generator_lines :: "asff_finding list \<Rightarrow> string list" where
  "generator_lines fs = map (\<lambda>g. ''  - '' @ g @ '': '' @ counts_text (map compliance_status (filter (\<lambda>f. generator_id f = g) fs)))
     (sort (remdups (map generator_id fs)))"

definition omitted_lines :: "asff_finding list \<Rightarrow> string list" where
  "omitted_lines fs = (if fs = [] then []
     else (''... '' @ nat_str (length fs) @ '' further finding(s) omitted from this listing '' @
        ''(limit: '' @ nat_str MAX_DETAIL_LINES @ ''; FAILED and higher-severity findings '' @
        ''are listed first). Omitted findings by generator, with counts:'') # generator_lines fs)"

definition securityhub_lines :: "securityhub_result \<Rightarrow> filters \<Rightarrow> bool \<Rightarrow> string list" where
  "securityhub_lines r fs truncated =
     (let ordered = sort_key asff_key (sr_findings r) in
      [''AWS Security Hub findings import (GetFindings, filters: '' @ filters_text fs @ '')'', HONESTY_NOTE, [],
       ''Summary: '' @ nat_str (length (sr_findings r)) @ '' findings read'' @
         (if truncated then '' (truncated at the configured limit; more findings exist)'' else []) @ '', '' @
         counts_text (map compliance_status (sr_findings r)) @ skipped_text (sr_errors r), [], ''Findings:''] @
      map asff_line (take MAX_DETAIL_LINES ordered) @ omitted_lines (drop MAX_DETAIL_LINES ordered) @ error_lines (sr_errors r))"

definition build_securityhub_summary :: "securityhub_result \<Rightarrow> filters \<Rightarrow> bool \<Rightarrow> string" where
  "build_securityhub_summary r fs truncated = join_with [CHR 0x0A] (securityhub_lines r fs truncated)"

end
