(* ===== verification/AwsProps.thy ===== *)
theory AwsProps
  imports AwsChecks "HOL-Library.Multiset"
begin

text \<open>
  What the AWS evidence says: the verdict on a bucket against every state of the bucket that the
  answers leave open, the verdict on access keys, and the tools together with the vault.
\<close>

section \<open>Buckets\<close>

text \<open>
  The state of a bucket in AWS, as the module's own rules describe it: a public policy counts
  unless RestrictPublicBuckets is on at either level, a public grant counts unless
  IgnorePublicAcls is.
\<close>

record bucket_state =
  has_public_policy :: bool
  has_public_grant :: bool
  account_flags :: "bpa_flag \<Rightarrow> bool"
  bucket_flags :: "bpa_flag \<Rightarrow> bool"

definition open_to_public :: "bucket_state \<Rightarrow> bool" where
  "open_to_public w \<longleftrightarrow>
     (has_public_policy w \<and> \<not> (account_flags w RestrictPublicBuckets \<or> bucket_flags w RestrictPublicBuckets)) \<or>
     (has_public_grant w \<and> \<not> (account_flags w IgnorePublicAcls \<or> bucket_flags w IgnorePublicAcls))"

text \<open>What an answer says of the state; an error says nothing, except that the thing asked for does not exist.\<close>

definition flags_answer :: "bpa_settings reply \<Rightarrow> (bpa_flag \<Rightarrow> bool) \<Rightarrow> bool" where
  "flags_answer answer flags \<longleftrightarrow>
     (case answer of
        Inr settings \<Rightarrow> \<forall>f\<in>set BPA_FLAGS. flags f \<longleftrightarrow> map_of settings (flag_name f) = Some True
      | Inl (Client_error code m) \<Rightarrow> code = Some NO_BPA \<longrightarrow> (\<forall>f\<in>set BPA_FLAGS. \<not> flags f)
      | Inl (Boto_error k t) \<Rightarrow> True)"

definition policy_answer :: "bool option reply \<Rightarrow> bool \<Rightarrow> bool" where
  "policy_answer answer public \<longleftrightarrow>
     (case answer of
        Inr (Some b) \<Rightarrow> public = b
      | Inr None \<Rightarrow> True
      | Inl (Client_error code m) \<Rightarrow> code = Some ''NoSuchBucketPolicy'' \<longrightarrow> \<not> public
      | Inl (Boto_error k t) \<Rightarrow> True)"

definition acl_answer :: "(string \<times> string) list reply \<Rightarrow> bool \<Rightarrow> bool" where
  "acl_answer answer public \<longleftrightarrow>
     (case answer of
        Inr grants \<Rightarrow> public \<longleftrightarrow> (\<exists>(uri, p)\<in>set grants. \<exists>ending\<in>set (map fst PUBLIC_ACL_GROUPS). ends_with ending uri)
      | Inl e \<Rightarrow> True)"

definition agrees :: "s3_client \<Rightarrow> s3control_client \<Rightarrow> sts_client \<Rightarrow> string \<Rightarrow> bucket_state \<Rightarrow> bool" where
  "agrees s3 s3control sts name w \<longleftrightarrow>
     (case sts of Inr (Some account, arn) \<Rightarrow> flags_answer (s3control account) (account_flags w) | _ \<Rightarrow> True) \<and>
     flags_answer (bucket_bpa s3 name) (bucket_flags w) \<and>
     policy_answer (bucket_policy_status s3 name) (has_public_policy w) \<and>
     acl_answer (bucket_acl s3 name) (has_public_grant w)"

text \<open>What a three-valued answer leaves possible.\<close>

definition possible :: "bool option \<Rightarrow> bool set" where
  "possible k = (case k of None \<Rightarrow> UNIV | Some b \<Rightarrow> {b})"

lemma possible_either: "possible (either a b) = {x \<or> y | x y. x \<in> possible a \<and> y \<in> possible b}"
  by (cases a; cases b) (auto simp: possible_def either_def)

lemma possible_Some: "k = Some b \<longleftrightarrow> possible k = {b}"
  by (cases k) (auto simp: possible_def UNIV_bool)

lemma policy_path_possible:
  "possible (fst (policy_path public restrict txt)) = {x \<and> \<not> y | x y. x \<in> possible public \<and> y \<in> possible restrict}"
  by (cases public; cases restrict) (auto simp: possible_def policy_path_def)

definition grants_public :: "string list option \<Rightarrow> bool option" where
  "grants_public g = map_option (\<lambda>xs. xs \<noteq> []) g"

lemma acl_path_possible:
  "possible (fst (acl_path grants ignored txt)) = {x \<and> \<not> y | x y. x \<in> possible (grants_public grants) \<and> y \<in> possible ignored}"
  by (cases grants; cases ignored) (auto simp: possible_def acl_path_def grants_public_def)

lemma flag_name_inject [simp]: "flag_name f = flag_name g \<longleftrightarrow> f = g"
  by (cases f; cases g) simp_all

lemma error_code_is [simp]: "error_code code = NO_BPA \<longleftrightarrow> code = Some NO_BPA"
  "error_code code = ''NoSuchBucketPolicy'' \<longleftrightarrow> code = Some ''NoSuchBucketPolicy''"
  by (cases code; simp add: error_code_def NO_BPA_def)+

lemma layer_flag_configured: "layer_flag (bpa_layer_of (Inr settings)) f = Some (map_of settings (flag_name f) = Some True)"
  by (cases f) (simp_all add: bpa_layer_of_def BPA_FLAGS_def)

text \<open>An answer that fixes all flags, or none.\<close>

lemma fixed_flags:
  "(\<exists>flags. (\<forall>f\<in>set BPA_FLAGS. flags f = g f) \<and> flags RestrictPublicBuckets = r \<and> flags IgnorePublicAcls = i) \<longleftrightarrow>
     r = g RestrictPublicBuckets \<and> i = g IgnorePublicAcls"
proof
  assume "r = g RestrictPublicBuckets \<and> i = g IgnorePublicAcls"
  then show "\<exists>flags. (\<forall>f\<in>set BPA_FLAGS. flags f = g f) \<and> flags RestrictPublicBuckets = r \<and> flags IgnorePublicAcls = i"
    by (intro exI [of _ g]) simp
qed (auto simp: BPA_FLAGS_def)

lemma free_flags: "\<exists>flags. flags RestrictPublicBuckets = r \<and> flags IgnorePublicAcls = i"
  by (rule exI [of _ "\<lambda>f. if f = RestrictPublicBuckets then r else i"]) simp

lemma flags_possible:
  "(\<exists>flags. flags_answer answer flags \<and> flags RestrictPublicBuckets = r \<and> flags IgnorePublicAcls = i) \<longleftrightarrow>
     r \<in> possible (layer_flag (bpa_layer_of answer) RestrictPublicBuckets) \<and>
     i \<in> possible (layer_flag (bpa_layer_of answer) IgnorePublicAcls)"
proof (cases answer)
  case (Inr settings)
  show ?thesis
    unfolding Inr layer_flag_configured flags_answer_def sum.case fixed_flags by (simp add: possible_def)
next
  case (Inl e)
  show ?thesis
  proof (cases "\<exists>m. e = Client_error (Some NO_BPA) m")
    case True
    then obtain m where e: "answer = Inl (Client_error (Some NO_BPA) m)" using Inl by blast
    show ?thesis
      using fixed_flags [of "\<lambda>f. False" r i] unfolding e by (simp add: flags_answer_def bpa_layer_of_def possible_def)
  next
    case False
    then have "flags_answer answer flags" "layer_flag (bpa_layer_of answer) f = None" for f flags
      using Inl by (cases e; auto simp: flags_answer_def bpa_layer_of_def)+
    then show ?thesis using free_flags by (simp add: possible_def)
  qed
qed

lemma account_possible:
  "(\<exists>flags. (case sts of Inr (Some account, arn) \<Rightarrow> flags_answer (s3control account) flags | _ \<Rightarrow> True) \<and>
      flags RestrictPublicBuckets = r \<and> flags IgnorePublicAcls = i) \<longleftrightarrow>
     r \<in> possible (layer_flag (get_account_bpa (fst (get_caller_identity sts)) s3control) RestrictPublicBuckets) \<and>
     i \<in> possible (layer_flag (get_account_bpa (fst (get_caller_identity sts)) s3control) IgnorePublicAcls)"
proof -
  note free = free_flags [of r i]
  show ?thesis
  proof (cases sts)
    case (Inl e)
    with free show ?thesis by (simp add: get_caller_identity_def get_account_bpa_def possible_def)
  next
    case (Inr x)
    obtain account arn where x: "x = (account, arn)" by (cases x)
    show ?thesis
      using flags_possible [of "s3control (the account)" r i] free
      by (cases account) (simp_all add: Inr x get_caller_identity_def get_account_bpa_def possible_def)
  qed
qed

lemma policy_possible: "policy_answer (bucket_policy_status s3 name) b \<longleftrightarrow> b \<in> possible (fst (get_policy_public s3 name))"
  by (auto simp: policy_answer_def get_policy_public_def possible_def split: sum.split aws_error.split option.split)

lemma public_grants_Nil:
  "public_grants grants = [] \<longleftrightarrow> \<not> (\<exists>(uri, p)\<in>set grants. \<exists>ending\<in>set (map fst PUBLIC_ACL_GROUPS). ends_with ending uri)"
proof -
  have "sort (remdups xs) = [] \<longleftrightarrow> xs = []" for xs :: "string list"
    by (metis remdups_eq_nil_iff set_empty set_sort)
  then show ?thesis unfolding public_grants_def by (auto simp: filter_empty_conv PUBLIC_ACL_GROUPS_def split: if_splits)
qed

lemma acl_possible: "acl_answer (bucket_acl s3 name) b \<longleftrightarrow> b \<in> possible (grants_public (fst (get_public_acl_grants s3 name)))"
  by (cases "bucket_acl s3 name")
     (auto simp: acl_answer_def get_public_acl_grants_def possible_def grants_public_def public_grants_Nil)

lemma effective_public_check:
  "effective_public (check_bucket_public_access s3 account name) =
     either (fst (policy_path (fst (get_policy_public s3 name))
          (effective_flag account (bpa_layer_of (bucket_bpa s3 name)) RestrictPublicBuckets)
          (layers_with RestrictPublicBuckets account (bpa_layer_of (bucket_bpa s3 name)))))
       (fst (acl_path (fst (get_public_acl_grants s3 name))
          (effective_flag account (bpa_layer_of (bucket_bpa s3 name)) IgnorePublicAcls)
          (layers_with IgnorePublicAcls account (bpa_layer_of (bucket_bpa s3 name)))))"
  by (simp add: check_bucket_public_access_def Let_def case_prod_unfold)

lemma open_values:
  "(\<exists>w. agrees s3 s3control sts name w \<and> open_to_public w = b) \<longleftrightarrow>
   (\<exists>p g ra ia rb ib. b = (p \<and> \<not> (ra \<or> rb) \<or> g \<and> \<not> (ia \<or> ib)) \<and>
      (\<exists>flags. (case sts of Inr (Some account, arn) \<Rightarrow> flags_answer (s3control account) flags | _ \<Rightarrow> True) \<and>
         flags RestrictPublicBuckets = ra \<and> flags IgnorePublicAcls = ia) \<and>
      (\<exists>flags. flags_answer (bucket_bpa s3 name) flags \<and> flags RestrictPublicBuckets = rb \<and> flags IgnorePublicAcls = ib) \<and>
      policy_answer (bucket_policy_status s3 name) p \<and> acl_answer (bucket_acl s3 name) g)" (is "?l \<longleftrightarrow> ?r")
proof
  assume ?l
  then obtain w where w: "agrees s3 s3control sts name w" "b = open_to_public w" by blast
  show ?r
  proof (intro exI conjI)
    show "b = (has_public_policy w \<and> \<not> (account_flags w RestrictPublicBuckets \<or> bucket_flags w RestrictPublicBuckets) \<or>
        has_public_grant w \<and> \<not> (account_flags w IgnorePublicAcls \<or> bucket_flags w IgnorePublicAcls))"
      unfolding w(2) open_to_public_def ..
  qed (use w(1) in \<open>simp_all add: agrees_def\<close>)
next
  assume ?r
  then obtain p g ra ia rb ib fa fb where f: "b = (p \<and> \<not> (ra \<or> rb) \<or> g \<and> \<not> (ia \<or> ib))"
    "case sts of Inr (Some account, arn) \<Rightarrow> flags_answer (s3control account) fa | _ \<Rightarrow> True"
    "fa RestrictPublicBuckets = ra" "fa IgnorePublicAcls = ia" "flags_answer (bucket_bpa s3 name) fb"
    "fb RestrictPublicBuckets = rb" "fb IgnorePublicAcls = ib"
    "policy_answer (bucket_policy_status s3 name) p" "acl_answer (bucket_acl s3 name) g"
    by (elim exE conjE)
  let ?w = "\<lparr>has_public_policy = p, has_public_grant = g, account_flags = fa, bucket_flags = fb\<rparr>"
  have "agrees s3 s3control sts name ?w"
    unfolding agrees_def bucket_state.simps using f by (intro conjI) assumption+
  moreover have "open_to_public ?w = b" using f by (simp add: open_to_public_def)
  ultimately show ?l by blast
qed

text \<open>The independent parts of a verdict, for any way of combining them.\<close>

lemma combined_values:
  "b \<in> {join x y | x y. x \<in> {path p r | p r. p \<in> P \<and> r \<in> {layers u v | u v. u \<in> A \<and> v \<in> B}} \<and>
      y \<in> {path g i | g i. g \<in> G \<and> i \<in> {layers u v | u v. u \<in> C \<and> v \<in> D}}} \<longleftrightarrow>
   (\<exists>p g ra ia rb ib. b = join (path p (layers ra rb)) (path g (layers ia ib)) \<and>
      (ra \<in> A \<and> ia \<in> C) \<and> (rb \<in> B \<and> ib \<in> D) \<and> p \<in> P \<and> g \<in> G)"
  by blast

lemma verdict_possible:
  "(\<exists>w. agrees s3 s3control sts name w \<and> open_to_public w = b) \<longleftrightarrow>
     b \<in> possible (effective_public (check_bucket_public_access s3 (get_account_bpa (fst (get_caller_identity sts)) s3control) name))"
  unfolding open_values account_possible flags_possible policy_possible acl_possible effective_public_check effective_flag_def
    possible_either policy_path_possible acl_path_possible
  by (rule combined_values [where join = "(\<or>)" and path = "\<lambda>x y. x \<and> \<not> y" and layers = "(\<or>)", symmetric])

lemma possible_all: "k = Some b \<longleftrightarrow> (\<forall>x\<in>possible k. x = b)"
  by (cases k) (auto simp: possible_def)

lemma verdict_exact:
  "effective_public (check_bucket_public_access s3 (get_account_bpa (fst (get_caller_identity sts)) s3control) name) = Some b \<longleftrightarrow>
     (\<forall>w. agrees s3 s3control sts name w \<longrightarrow> open_to_public w = b)"
  unfolding possible_all using verdict_possible [of s3 s3control sts name] by blast

section \<open>Access keys\<close>

definition overdue :: "(string \<Rightarrow> int option) \<Rightarrow> int \<Rightarrow> int \<Rightarrow> key_metadata \<Rightarrow> bool" where
  "overdue parse_moment now max_age m \<longleftrightarrow>
     key_status m = ''Active'' \<and> (\<exists>d. age_days parse_moment now (create_date m) = Some d \<and> max_age < d)"

lemma key_row_exceeds:
  "row_active (key_row_of parse_moment now max_age u m) \<and> row_exceeds (key_row_of parse_moment now max_age u m) \<longleftrightarrow>
     overdue parse_moment now max_age m"
  by (auto simp: key_row_of_def overdue_def Let_def split: option.splits)

lemma expired_rows:
  "filter row_exceeds (filter row_active (user_key_rows iam parse_moment now max_age u)) \<noteq> [] \<longleftrightarrow>
     (\<exists>ms. access_keys iam u = Inr ms \<and> (\<exists>m\<in>set ms. overdue parse_moment now max_age m))"
proof (cases "access_keys iam u")
  case (Inr ms)
  have "filter row_exceeds (filter row_active (map (key_row_of parse_moment now max_age u) ms)) \<noteq> [] \<longleftrightarrow>
      (\<exists>m\<in>set ms. row_active (key_row_of parse_moment now max_age u m) \<and> row_exceeds (key_row_of parse_moment now max_age u m))"
    by (auto simp: filter_empty_conv)
  with Inr show ?thesis by (simp add: user_key_rows_def key_row_exceeds)
qed (simp add: user_key_rows_def)

lemma key_verdict_iff:
  assumes "collect_access_key_age iam parse_moment now max_age = Inr r" "user_pages iam = Inr pages"
  shows "key_verdict r = ''PASS'' \<longleftrightarrow>
     (\<forall>u\<in>set (concat pages). \<forall>ms. access_keys iam u = Inr ms \<longrightarrow> (\<forall>m\<in>set ms. \<not> overdue parse_moment now max_age m))"
proof -
  let ?rows = "\<lambda>u. filter row_exceeds (filter row_active (user_key_rows iam parse_moment now max_age u))"
  have "key_verdict r = (if concat (map ?rows (sort (concat pages))) \<noteq> [] then ''FAIL'' else ''PASS'')"
    using assms(1) unfolding collect_access_key_age_def assms(2) bindE.simps Let_def filter_concat map_map comp_def
    by (simp only: sum.inject, hypsubst) (simp only: key_report.select_convs)
  then have "key_verdict r = ''PASS'' \<longleftrightarrow> concat (map ?rows (sort (concat pages))) = []" by simp
  also have "\<dots> \<longleftrightarrow> (\<forall>u\<in>set (concat pages). ?rows u = [])" by auto
  finally show ?thesis using expired_rows [of iam parse_moment now max_age] by blast
qed

section \<open>The tools and the vault\<close>

lemma register_and_format_Inr:
  assumes "register_and_format vc v raw_output source metadata session = Inr (v', txt)"
  shows "\<exists>reg. register_evidence (call_crypto vc) (call_fernet vc) (call_env vc) v raw_output source (Some metadata) session
       (call_id vc) (call_now vc) (call_nonce vc) = Inr (v', reg) \<and>
     txt = ''Vault ID: '' @ call_id vc @ [CHR 0x0A] @ ''Raw Output: '' @ redact_account_ids raw_output"
  using assms by (auto simp: register_and_format_def register_raw_def bindE_Inr_iff)

text \<open>What an agent may cite of a text the vault knows: its own parts, in the session that asked.\<close>

definition quotable :: "vault_call \<Rightarrow> vault \<Rightarrow> string option \<Rightarrow> string \<Rightarrow> bool" where
  "quotable vc v session out \<longleftrightarrow> id_free out \<and>
     (\<forall>quote. strip quote \<noteq> [] \<and> MIN_QUOTE_LENGTH \<le> py_len quote \<longrightarrow>
        verify_exact_quote (call_crypto vc) (call_fernet vc) (call_env vc) v (call_id vc) quote session = Inr (sublist quote out))"

lemma registered_quotable:
  assumes "fernet_ok (call_fernet vc)" "is_uuid (call_id vc)"
    and "register_evidence (call_crypto vc) (call_fernet vc) (call_env vc) v raw_output source metadata session
       (call_id vc) (call_now vc) (call_nonce vc) = Inr (v', reg)"
  shows "quotable vc v' session (redact_account_ids raw_output)"
  unfolding quotable_def
  using quote_of_registered [OF assms(1,3,2), of _ session]
  by (auto simp: id_free_def redact_account_ids_def redact_id_free)

lemma register_and_format_quotable:
  assumes "fernet_ok (call_fernet vc)" "is_uuid (call_id vc)"
    and "register_and_format vc v raw_output source metadata session = Inr (v', txt)"
  shows "\<exists>out. txt = ''Vault ID: '' @ call_id vc @ [CHR 0x0A] @ ''Raw Output: '' @ out \<and> quotable vc v' session out"
  using register_and_format_Inr [OF assms(3)] registered_quotable [OF assms(1,2)] by blast

lemma aws_tool_cases:
  assumes "aws_tool vc session call v = Inr (v', txt)"
  shows "(v' = v \<and> (\<exists>what e. txt = ''Error '' @ what @ describe_error e)) \<or>
     (\<exists>raw_output source metadata. register_and_format vc v raw_output source metadata session = Inr (v', txt))"
proof (cases call)
  case (Password_policy client)
  show ?thesis
  proof (cases client)
    case (Inl e)
    with assms Password_policy have "v' = v" "txt = ''Error '' @ ''fetching password policy: '' @ describe_error e"
      by (auto simp: get_iam_password_policy_def)
    then show ?thesis by blast
  qed (use assms Password_policy in \<open>auto simp: get_iam_password_policy_def\<close>)
next
  case (Users_with_mfa client)
  show ?thesis
  proof (cases "bindE client (\<lambda>(iam, region). bindE (collect_iam_users_mfa iam) (\<lambda>j. Inr (j, region)))")
    case (Inl e)
    with assms Users_with_mfa have "v' = v" "txt = ''Error '' @ ''listing IAM users: '' @ describe_error e"
      by (auto simp: list_iam_users_with_mfa_def)
    then show ?thesis by blast
  qed (use assms Users_with_mfa in \<open>auto simp: list_iam_users_with_mfa_def split: prod.splits\<close>)
next
  case (Public_buckets client)
  show ?thesis
  proof (cases "bindE client (\<lambda>(s3, s3control, sts, region). bindE (collect_s3_public_access s3 s3control sts) (\<lambda>r. Inr (r, region)))")
    case (Inl e)
    with assms Public_buckets have "v' = v" "txt = ''Error '' @ ''listing S3 buckets: '' @ describe_error e"
      by (auto simp: list_public_s3_buckets_def)
    then show ?thesis by blast
  qed (use assms Public_buckets in \<open>auto simp: list_public_s3_buckets_def split: prod.splits\<close>)
qed

lemma aws_tool_quotable:
  assumes "fernet_ok (call_fernet vc)" "is_uuid (call_id vc)" "aws_tool vc session call v = Inr (v', txt)"
  shows "(v' = v \<and> (\<exists>what e. txt = ''Error '' @ what @ describe_error e)) \<or>
     (\<exists>out. txt = ''Vault ID: '' @ call_id vc @ [CHR 0x0A] @ ''Raw Output: '' @ out \<and> quotable vc v' session out)"
  using aws_tool_cases [OF assms(3)] register_and_format_quotable [OF assms(1,2)] by blast

lemma s3_report_complete:
  assumes "collect_s3_public_access s3 s3control sts = Inr r" "list_bucket_names s3 = Inr names"
  shows "map bucket_name (bucket_results r) = sort names"
    and "b \<in> set (bucket_results r) \<Longrightarrow> b = check_bucket_public_access s3 (get_account_bpa (fst (get_caller_identity sts)) s3control) (bucket_name b)"
    and "verdict_count (Some True) r + verdict_count (Some False) r + verdict_count None r = length (bucket_results r)"
proof -
  let ?check = "check_bucket_public_access s3 (get_account_bpa (fst (get_caller_identity sts)) s3control)"
  have r: "bucket_results r = sort_key bucket_name (map ?check names)"
    using assms by (auto simp: collect_s3_public_access_def case_prod_unfold Let_def)
  have name: "bucket_name (?check n) = n" for n by (simp add: check_bucket_public_access_def Let_def case_prod_unfold)
  show "map bucket_name (bucket_results r) = sort names"
    unfolding r by (rule properties_for_sort [symmetric]) (simp_all add: image_mset.compositionality comp_def name)
  show "b \<in> set (bucket_results r) \<Longrightarrow> b = ?check (bucket_name b)" unfolding r by (auto simp: name)
  have "count_if (\<lambda>b. f b = Some True) xs + count_if (\<lambda>b. f b = Some False) xs + count_if (\<lambda>b. f b = None) xs = length xs"
    for f :: "bucket_result \<Rightarrow> bool option" and xs
    unfolding count_if_def
  proof (induction xs)
    case (Cons x xs)
    then show ?case by (cases "f x") (auto split: bool.splits)
  qed simp
  then show "verdict_count (Some True) r + verdict_count (Some False) r + verdict_count None r = length (bucket_results r)"
    unfolding verdict_count_def .
qed

section \<open>Properties\<close>

text \<open>C28. [bucket_verdict_exact] The verdict on a bucket never guesses and is as sharp as the answers allow: it is
  PUBLIC or NOT_PUBLIC exactly when every state of the bucket and the account that agrees with what
  AWS answered is open to the public, or none is, and UNKNOWN exactly when both kinds are left.\<close>
theorem bucket_verdict_exact:
  "effective_public (check_bucket_public_access s3 (get_account_bpa (fst (get_caller_identity sts)) s3control) name) = Some b \<longleftrightarrow>
     (\<forall>w. agrees s3 s3control sts name w \<longrightarrow> open_to_public w = b)"
  by (rule verdict_exact)

text \<open>A bucket whose policy is public, in an account that could not be read.\<close>

definition demo_s3 :: s3_client where
  "demo_s3 = \<lparr>bucket_bpa = \<lambda>n. Inr [(''RestrictPublicBuckets'', True)], bucket_policy_status = \<lambda>n. Inr (Some True),
     bucket_acl = \<lambda>n. Inr [], bucket_pages = Some (Inr [[''logs''], [''data'']]), bucket_list = Inr []\<rparr>"

definition denied :: aws_error where
  "denied = Client_error (Some ''AccessDenied'') ''not authorized''"

theorem bucket_verdict_exact_witness:
  "agrees demo_s3 (\<lambda>a. Inl denied) (Inl denied) ''logs''
       \<lparr>has_public_policy = True, has_public_grant = False, account_flags = \<lambda>f. False, bucket_flags = \<lambda>f. f = RestrictPublicBuckets\<rparr> \<and>
     \<not> open_to_public
       \<lparr>has_public_policy = True, has_public_grant = False, account_flags = \<lambda>f. False, bucket_flags = \<lambda>f. f = RestrictPublicBuckets\<rparr>"
proof -
  let ?w = "\<lparr>has_public_policy = True, has_public_grant = False, account_flags = \<lambda>f. False, bucket_flags = \<lambda>f. f = RestrictPublicBuckets\<rparr>"
  have w: "agrees demo_s3 (\<lambda>a. Inl denied) (Inl denied) ''logs'' ?w"
    by (simp add: agrees_def demo_s3_def flags_answer_def policy_answer_def acl_answer_def BPA_FLAGS_def)
  have "effective_public (check_bucket_public_access demo_s3
      (get_account_bpa (fst (get_caller_identity (Inl denied))) (\<lambda>a. Inl denied)) ''logs'') = Some False"
    by (simp add: check_bucket_public_access_def demo_s3_def get_policy_public_def get_public_acl_grants_def public_grants_def
        policy_path_def acl_path_def effective_flag_def either_def bpa_layer_of_def BPA_FLAGS_def Let_def)
  with bucket_verdict_exact [of demo_s3 "Inl denied" "\<lambda>a. Inl denied" "''logs''" False] w show ?thesis by blast
qed

text \<open>Every bucket of the account is evaluated once: the report has the listed
  names in order, each with its own verdict, and the summary's counts add up to their number.\<close>
lemma buckets_all_reported:
  assumes "collect_s3_public_access s3 s3control sts = Inr r" "list_bucket_names s3 = Inr names"
  shows "map bucket_name (bucket_results r) = sort names \<and>
     (\<forall>b\<in>set (bucket_results r). b = check_bucket_public_access s3 (get_account_bpa (fst (get_caller_identity sts)) s3control) (bucket_name b)) \<and>
     verdict_count (Some True) r + verdict_count (Some False) r + verdict_count None r = length names"
proof -
  note facts = s3_report_complete [OF assms]
  from facts(1) have "length (bucket_results r) = length names" by (metis length_map length_sort)
  with facts show ?thesis by simp
qed

theorem buckets_all_reported_witness:
  "\<exists>r. collect_s3_public_access demo_s3 (\<lambda>a. Inl denied) (Inl denied) = Inr r \<and>
     map bucket_name (bucket_results r) = [''data'', ''logs'']"
proof -
  have names: "list_bucket_names demo_s3 = Inr [''logs'', ''data'']" by (simp add: list_bucket_names_def demo_s3_def)
  then obtain r where r: "collect_s3_public_access demo_s3 (\<lambda>a. Inl denied) (Inl denied) = Inr r"
    by (auto simp: collect_s3_public_access_def case_prod_unfold Let_def)
  have "sort [''logs'', ''data''] = [''data'', ''logs'']" by code_simp
  with buckets_all_reported [OF r names] r show ?thesis by simp
qed

text \<open>The age verdict on access keys fails open: it is PASS exactly when none of the keys
  that could be read is known to be active and too old. Users whose keys could not be listed, and
  active keys without a readable creation date, count as rotated.\<close>
lemma key_age_fails_open:
  assumes "collect_access_key_age iam parse_moment now max_age = Inr r" "user_pages iam = Inr pages"
  shows "key_verdict r = ''PASS'' \<longleftrightarrow>
     (\<forall>u\<in>set (concat pages). \<forall>ms. access_keys iam u = Inr ms \<longrightarrow> (\<forall>m\<in>set ms. \<not> overdue parse_moment now max_age m))"
  by (rule key_verdict_iff [OF assms])

definition denied_iam :: iam_client where
  "denied_iam = \<lparr>account_password_policy = Inl denied, user_pages = Inr [[''ann''], [''bob'']], mfa_device_pages = \<lambda>u. Inl denied,
     account_summary = Inl denied, access_keys = \<lambda>u. Inl denied\<rparr>"

theorem key_age_fails_open_witness:
  "\<exists>r. collect_access_key_age denied_iam (\<lambda>t. None) 0 90 = Inr r \<and> key_verdict r = ''PASS'' \<and> active_keys r = 0"
proof -
  have pages: "user_pages denied_iam = Inr [[''ann''], [''bob'']]" by (simp add: denied_iam_def)
  then obtain r where r: "collect_access_key_age denied_iam (\<lambda>t. None) 0 90 = Inr r" by (auto simp: collect_access_key_age_def Let_def)
  from key_age_fails_open [OF r pages] have "key_verdict r = ''PASS''" by (simp add: denied_iam_def)
  moreover have "active_keys r = 0"
    using r pages by (auto simp: collect_access_key_age_def Let_def user_key_rows_def denied_iam_def)
  ultimately show ?thesis using r by blast
qed

text \<open>From AWS to the vault: what a collection tool hands to the agent is what the
  vault vouches for. A call either reports a collection error and registers nothing, or answers
  with a text that holds no account id, and in the same session a quote is accepted if and only if
  it is a part of that text.\<close>
lemma aws_evidence_quotable:
  assumes "fernet_ok (call_fernet vc)" "is_uuid (call_id vc)" "aws_tool vc session call v = Inr (v', txt)"
  shows "(v' = v \<and> (\<exists>what e. txt = ''Error '' @ what @ describe_error e)) \<or>
     (\<exists>out. txt = ''Vault ID: '' @ call_id vc @ [CHR 0x0A] @ ''Raw Output: '' @ out \<and> quotable vc v' session out)"
  by (rule aws_tool_quotable [OF assms])

definition demo_call :: vault_call where
  "demo_call = \<lparr>call_crypto = toy_crypto, call_fernet = toy_fernet, call_env = None, call_id = toy_id, call_now = ''2026-01-05'',
     call_nonce = [], app_version_text = ''1.0''\<rparr>"

theorem aws_evidence_quotable_witness:
  "\<exists>v' txt out. aws_tool demo_call (Some ''S'') (Users_with_mfa (Inr (denied_iam, None))) [] = Inr (v', txt) \<and>
     txt = ''Vault ID: '' @ toy_id @ [CHR 0x0A] @ ''Raw Output: '' @ out \<and> quotable demo_call v' (Some ''S'') out"
proof -
  obtain j where j: "collect_iam_users_mfa denied_iam = Inr j" by (auto simp: collect_iam_users_mfa_def denied_iam_def Let_def)
  have env: "get_fernet toy_crypto None = Inr None" by (simp add: get_fernet_def)
  have tool: "\<exists>v' txt. aws_tool demo_call (Some ''S'') (Users_with_mfa (Inr (denied_iam, None))) [] = Inr (v', txt) \<and> v' \<noteq> []"
    using env by (auto simp: list_iam_users_with_mfa_def j register_and_format_def register_raw_def register_evidence_def Let_def
        demo_call_def plain_digest_of_def collection_metadata_def)
  then obtain v' answer where call: "aws_tool demo_call (Some ''S'') (Users_with_mfa (Inr (denied_iam, None))) [] = Inr (v', answer)" "v' \<noteq> []"
    by blast
  have "fernet_ok (call_fernet demo_call)" "is_uuid (call_id demo_call)"
    by (simp_all add: demo_call_def toy_fernet_ok toy_id_uuid)
  from aws_evidence_quotable [OF this call(1)] call show ?thesis by (auto simp: demo_call_def)
qed

end
