(* ===== verification/Cells.thy ===== *)
theory Cells
  imports Regex CleanText
begin

text \<open>
  How exported text is made harmless: \<open>sanitize_cell\<close>, \<open>sanitize_report\<close>, \<open>_one_line\<close> and \<open>_md_cell\<close> of
  \<open>src/api/exports.py\<close>. A spreadsheet cell never starts a formula; a table row keeps its columns; no
  HTML image survives, a Markdown image may (\<open>ExportProps\<close>).
\<close>

section \<open>Spreadsheet cells\<close>

text \<open>\<open>illegal\<close> is the character class of openpyxl's \<open>ILLEGAL_CHARACTERS_RE\<close>.\<close>

definition FORMULA_PREFIXES :: "char list" where
  "FORMULA_PREFIXES = [CHR ''='', CHR ''+'', CHR ''-'', CHR ''@'', CHR 0x09, CHR 0x0D]"

definition sanitize_cell :: "(char \<Rightarrow> bool) \<Rightarrow> string \<Rightarrow> string" where
  "sanitize_cell illegal v =
     (let t = filter (\<lambda>c. \<not> illegal c) v in
      case t of [] \<Rightarrow> [] | c # _ \<Rightarrow> if c \<in> set FORMULA_PREFIXES then CHR 0x27 # t else t)"

definition inert :: "string \<Rightarrow> bool" where
  "inert s \<longleftrightarrow> (case s of [] \<Rightarrow> True | c # _ \<Rightarrow> c \<notin> set FORMULA_PREFIXES)"

lemma sanitize_cell_inert: "inert (sanitize_cell illegal v)"
  by (auto simp: sanitize_cell_def inert_def Let_def FORMULA_PREFIXES_def split: list.splits)

lemma sanitize_cell_legal: "c \<in> set (sanitize_cell illegal v) \<Longrightarrow> \<not> illegal c \<or> c = CHR 0x27"
proof -
  have "set (filter (\<lambda>c. \<not> illegal c) v) \<subseteq> {c. \<not> illegal c}" by auto
  moreover assume "c \<in> set (sanitize_cell illegal v)"
  ultimately show ?thesis
    by (fastforce simp: sanitize_cell_def Let_def split: list.splits if_splits)
qed

text \<open>What the cell shows is the text, less its illegal characters.\<close>

lemma sanitize_cell_shows:
  "sanitize_cell illegal v \<in> {filter (\<lambda>c. \<not> illegal c) v, CHR 0x27 # filter (\<lambda>c. \<not> illegal c) v}"
  by (auto simp: sanitize_cell_def Let_def split: list.splits)

section \<open>Replacing matches\<close>

text \<open>\<open>re.sub\<close> of a pattern that never matches the empty text.\<close>

function replace_at :: "regex \<Rightarrow> string \<Rightarrow> char option \<Rightarrow> string \<Rightarrow> string" where
  "replace_at r new c s =
     (case run r \<lparr>before = c, left = s, groups = []\<rparr> of
        q # _ \<Rightarrow> (if length (left q) < length s then new @ replace_at r new (before q) (left q) else s)
      | [] \<Rightarrow> (case s of [] \<Rightarrow> [] | x # t \<Rightarrow> x # replace_at r new (Some x) t))"
  by pat_completeness auto

termination
  by (relation "measure (\<lambda>(r, new, c, s). length s)") auto

declare replace_at.simps [simp del]

definition replace_all :: "regex \<Rightarrow> string \<Rightarrow> string \<Rightarrow> string" where
  "replace_all r new s = replace_at r new None s"

lemma replace_at_match:
  "run r \<lparr>before = c, left = s, groups = []\<rparr> = q # qs \<Longrightarrow> length (left q) < length s \<Longrightarrow>
     replace_at r new c s = new @ replace_at r new (before q) (left q)"
  by (subst replace_at.simps) simp

lemma replace_at_skip:
  "run r \<lparr>before = c, left = x # t, groups = []\<rparr> = [] \<Longrightarrow> replace_at r new c (x # t) = x # replace_at r new (Some x) t"
  by (subst replace_at.simps) simp

lemma replace_at_Nil: "replace_at r new c [] = []"
  by (subst replace_at.simps) (simp split: list.splits)

section \<open>Images\<close>

definition IMAGE_REMOVED :: string where "IMAGE_REMOVED = ''[Image removed for security]''"

definition none_of :: "char \<Rightarrow> regex" where "none_of c = Star (Chr (\<lambda>x. x \<noteq> c))"

definition chr :: "char \<Rightarrow> regex" where "chr c = Chr ((=) c)"

text \<open>\<open>_MD_IMAGE\<close> and \<open>_HTML_IMG\<close>\<close>

definition MD_IMAGE :: regex where
  "MD_IMAGE =
     Alt (seq [chr CHR ''!'', chr CHR ''['', none_of CHR '']'', chr CHR '']'', chr CHR ''('', none_of CHR '')'', chr CHR '')''])
         (seq [chr CHR ''!'', chr CHR ''['', none_of CHR '']'', chr CHR '']'', chr CHR ''['', none_of CHR '']'', chr CHR '']''])"

definition HTML_IMG :: regex where
  "HTML_IMG = seq [chr CHR ''<'', ci CHR ''i'', ci CHR ''m'', ci CHR ''g'', Boundary, none_of CHR ''>'', chr CHR ''>'']"

definition sanitize_report :: "string \<Rightarrow> string" where
  "sanitize_report s = replace_all HTML_IMG IMAGE_REMOVED (replace_all MD_IMAGE IMAGE_REMOVED s)"

section \<open>One line and table cells\<close>

definition to_line :: "string \<Rightarrow> string" where
  "to_line v = join_with '' '' (py_split v)"

definition md_cell :: "string \<Rightarrow> string" where
  "md_cell v = sanitize_report (concat (map (\<lambda>c. if c = CHR ''|'' then [CHR 0x5C, CHR ''|''] else [c]) (to_line v)))"

text \<open>\<open>"| " + " | ".join(_md_cell(c) for c in cells) + " |"\<close>\<close>

definition table_row :: "string list \<Rightarrow> string" where
  "table_row cells = ''| '' @ join_with '' | '' (map md_cell cells) @ '' |''"

section \<open>What the replacement keeps\<close>

lemma replace_at_chars: "set (replace_at r new c s) \<subseteq> set new \<union> set s"
proof (induction r new c s rule: replace_at.induct)
  case (1 r new c s)
  show ?case
  proof (cases "run r \<lparr>before = c, left = s, groups = []\<rparr>")
    case Nil
    with 1(1) [OF Nil] show ?thesis by (cases s) (auto simp: replace_at_Nil replace_at_skip)
  next
    case (Cons q qs)
    have "set (left q) \<subseteq> set s"
      using run_sound [of q r "\<lparr>before = c, left = s, groups = []\<rparr>"] Cons by auto
    with 1(2) [OF Cons] Cons show ?thesis by (subst replace_at.simps) auto
  qed
qed

text \<open>The pipes of a text that no backslash guards; \<open>p\<close> is the character before it.\<close>

fun bare_pipes :: "char option \<Rightarrow> string \<Rightarrow> nat" where
  "bare_pipes p [] = 0"
| "bare_pipes p (c # s) = (if c = CHR ''|'' \<and> p \<noteq> Some CHR 0x5C then 1 else 0) + bare_pipes (Some c) s"

lemma bare_pipes_append: "bare_pipes p (a @ b) = bare_pipes p a + bare_pipes (last_char p a) b"
  by (induction a arbitrary: p) (auto simp: last_char_def)

lemma bare_pipes_none: "CHR ''|'' \<notin> set s \<Longrightarrow> bare_pipes p s = 0"
  by (induction s arbitrary: p) auto

text \<open>Every match of the pattern is a text that ends in one of the given characters.\<close>

definition ends_in :: "regex \<Rightarrow> char set \<Rightarrow> bool" where
  "ends_in r X \<longleftrightarrow> (\<forall>c m s. matches r c m s \<longrightarrow> m \<noteq> [] \<and> last m \<in> X)"

lemma ends_inD: "ends_in r X \<Longrightarrow> matches r c m s \<Longrightarrow> m \<noteq> [] \<and> last m \<in> X"
  unfolding ends_in_def by blast

lemma ends_in_chr: "ends_in (chr x) {x}"
  by (auto simp: ends_in_def chr_def elim: matches_chrE)

lemma ends_in_Seq: "ends_in b X \<Longrightarrow> ends_in (Seq a b) X"
  using ends_inD [of b X] unfolding ends_in_def [of "Seq a b"] by (force elim!: matches_seqE)

lemma ends_in_Alt: "ends_in a X \<Longrightarrow> ends_in b X \<Longrightarrow> ends_in (Alt a b) X"
  unfolding ends_in_def by (blast elim: matches_altE)

lemma ends_in_mono: "ends_in r X \<Longrightarrow> X \<subseteq> Y \<Longrightarrow> ends_in r Y"
  unfolding ends_in_def by blast

lemma ends_in_images:
  "ends_in MD_IMAGE {CHR '')'', CHR '']''}" "ends_in HTML_IMG {CHR ''>''}"
  unfolding MD_IMAGE_def HTML_IMG_def seq.simps
  by (intro ends_in_Alt ends_in_Seq ends_in_chr ends_in_chr [THEN ends_in_mono]; simp)+

lemma replace_at_pipes:
  assumes ends: "ends_in r X" "CHR 0x5C \<notin> X" and new: "CHR ''|'' \<notin> set new"
  shows "bare_pipes c s = 0 \<Longrightarrow> d = c \<or> c \<noteq> Some CHR 0x5C \<Longrightarrow> bare_pipes d (replace_at r new c s) = 0"
  using assms
proof (induction r new c s arbitrary: d rule: replace_at.induct)
  case (1 r new c s)
  let ?p = "\<lparr>before = c, left = s, groups = []\<rparr>"
  show ?case
  proof (cases "run r ?p")
    case Nil
    show ?thesis
    proof (cases s)
      case (Cons x t)
      have "bare_pipes (Some x) (replace_at r new (Some x) t) = 0"
        using 1(1) [OF Nil Cons] 1(3,5-7) Cons by simp
      with 1(3,4) Nil Cons show ?thesis by (auto simp: replace_at_skip split: if_splits)
    qed (simp add: replace_at_Nil)
  next
    case (Cons q qs)
    obtain m where m: "s = m @ left q" "before q = last_char c m" "matches r c m (left q)"
      using run_sound [of q r ?p] Cons by auto
    then have last: "m \<noteq> []" "before q \<noteq> Some CHR 0x5C"
      using ends_inD [OF 1(5) m(3)] 1(6) by (auto simp: last_char_def)
    have "bare_pipes (before q) (left q) = 0"
      using 1(3) m(1,2) by (metis add_is_0 bare_pipes_append)
    then have "bare_pipes (last_char d new) (replace_at r new (before q) (left q)) = 0"
      using 1(2) [OF Cons, of "last_char d new"] 1(5-7) last m(1) by simp
    moreover have "length (left q) < length s" using last(1) arg_cong [OF m(1), of length] by simp
    ultimately show ?thesis
      using 1(7) replace_at_match [OF Cons, of new] by (simp add: bare_pipes_append bare_pipes_none)
  qed
qed

section \<open>Table rows\<close>

lemma sanitize_report_chars: "set (sanitize_report s) \<subseteq> set IMAGE_REMOVED \<union> set s"
  using replace_at_chars [of HTML_IMG IMAGE_REMOVED None "replace_all MD_IMAGE IMAGE_REMOVED s"]
    replace_at_chars [of MD_IMAGE IMAGE_REMOVED None s]
  by (auto simp: sanitize_report_def replace_all_def)

lemma sanitize_report_pipes: "bare_pipes None s = 0 \<Longrightarrow> bare_pipes None (sanitize_report s) = 0"
proof -
  assume "bare_pipes None s = 0"
  then have "bare_pipes None (replace_all MD_IMAGE IMAGE_REMOVED s) = 0"
    unfolding replace_all_def by (intro replace_at_pipes [OF ends_in_images(1)]) (simp_all add: IMAGE_REMOVED_def)
  then show ?thesis
    unfolding sanitize_report_def replace_all_def [of HTML_IMG]
    by (intro replace_at_pipes [OF ends_in_images(2)]) (simp_all add: IMAGE_REMOVED_def)
qed

lemma join_chars: "set (join_with sep ws) \<subseteq> set sep \<union> \<Union> (set ` set ws)"
  by (induction sep ws rule: join_with.induct) auto

lemma to_line_chars: "c \<in> set (to_line v) \<Longrightarrow> c = CHR '' '' \<or> \<not> is_space c"
  using join_chars [of "'' ''" "py_split v"] split_ws_words [of "[]" _ v] unfolding to_line_def by fastforce

lemma escaped_pipes:
  "bare_pipes p (concat (map (\<lambda>c. if c = CHR ''|'' then [CHR 0x5C, CHR ''|''] else [c]) s)) = 0"
  by (induction s arbitrary: p) auto

lemma bare_pipes_any: "bare_pipes None s = 0 \<Longrightarrow> bare_pipes p s = 0"
  by (cases s) auto

lemma md_cell_pipes: "bare_pipes p (md_cell v) = 0"
  unfolding md_cell_def by (rule bare_pipes_any, rule sanitize_report_pipes, rule escaped_pipes)

lemma md_cell_chars: "c \<in> set (md_cell v) \<Longrightarrow> c = CHR '' '' \<or> \<not> is_space c"
  using sanitize_report_chars to_line_chars [of c v]
  unfolding md_cell_def by (fastforce simp: IMAGE_REMOVED_def is_space_def split: if_splits)

text \<open>A row has one column per cell, whatever the cells hold, and is one line.\<close>

lemma bare_pipes_row:
  "cells \<noteq> [] \<Longrightarrow> bare_pipes p (join_with '' | '' (map md_cell cells)) + 1 = length cells"
proof (induction cells arbitrary: p rule: induct_list012)
  case (3 x y zs)
  have "bare_pipes q (CHR '' '' # CHR ''|'' # CHR '' '' # s) = Suc (bare_pipes (Some CHR '' '') s)" for q s
    by simp
  with 3 show ?case by (simp add: bare_pipes_append md_cell_pipes del: bare_pipes.simps(2))
qed (simp_all add: md_cell_pipes)

lemma table_row_columns:
  assumes "cells \<noteq> []"
  shows "bare_pipes None (table_row cells) = length cells + 1"
    and "CHR 0x0A \<notin> set (table_row cells)"
proof -
  have "bare_pipes None (table_row cells) = 1 + bare_pipes (Some CHR '' '') (join_with '' | '' (map md_cell cells)) + 1"
    by (simp add: table_row_def bare_pipes_append)
  then show "bare_pipes None (table_row cells) = length cells + 1" using bare_pipes_row [OF assms] by simp
  have "CHR 0x0A \<notin> set (md_cell v)" for v using md_cell_chars [of "CHR 0x0A" v] by (auto simp: is_space_def)
  then have "CHR 0x0A \<notin> set (join_with '' | '' (map md_cell cells))"
    using join_chars [of "'' | ''" "map md_cell cells"] by auto
  then show "CHR 0x0A \<notin> set (table_row cells)" by (simp add: table_row_def)
qed

section \<open>HTML images\<close>

text \<open>Where an HTML image starts, and where one stands.\<close>

definition img_start :: "string \<Rightarrow> bool" where
  "img_start u \<longleftrightarrow> lower (take 4 u) = ''<img'' \<and> \<not> wordy (first_char (drop 4 u))"

definition image_at :: "string \<Rightarrow> bool" where
  "image_at u \<longleftrightarrow> img_start u \<and> CHR ''>'' \<in> set (drop 4 u)"

lemma run_until:
  "run (Seq (none_of y) (chr y)) \<lparr>before = c, left = s, groups = g\<rparr> =
     (if y \<in> set s then [\<lparr>before = Some y, left = tl (dropWhile (\<lambda>x. x \<noteq> y) s), groups = g\<rparr>] else [])"
  by (induction s arbitrary: c) (auto simp: none_of_def chr_def)

lemma lower_g: "lower_char d = CHR ''g'' \<Longrightarrow> wordy (Some d)"
proof -
  assume "lower_char d = CHR ''g''"
  then have "of_char (lower_char d) = (103 :: nat)" by simp
  then have "of_char d = (103 :: nat) \<or> of_char d = (71 :: nat)"
    by (auto simp: lower_char_def Let_def split: if_splits)
  then show ?thesis by (auto simp: wordy_def word_char_def)
qed

lemma lower_lt: "lower_char a = CHR ''<'' \<longleftrightarrow> a = CHR ''<''"
proof
  assume "lower_char a = CHR ''<''"
  then have "of_char (lower_char a) = (60 :: nat)" by simp
  then have "of_char a = (60 :: nat)" by (auto simp: lower_char_def Let_def split: if_splits)
  then have "of_char a = (of_char CHR ''<'' :: nat)" by simp
  then show "a = CHR ''<''" by (simp only: of_char_eq_iff)
qed (simp add: lower_char_def)

lemma run_html_img:
  "run HTML_IMG \<lparr>before = c, left = u, groups = []\<rparr> =
     (if image_at u then [\<lparr>before = Some CHR ''>'', left = tl (dropWhile (\<lambda>x. x \<noteq> CHR ''>'') (drop 4 u)), groups = []\<rparr>]
      else [])"
proof (cases "length u < 4")
  case True
  then have "u = [] \<or> (\<exists>a. u = [a]) \<or> (\<exists>a b. u = [a, b]) \<or> (\<exists>a b d. u = [a, b, d])"
    by (cases u; cases "tl u"; cases "tl (tl u)"; cases "tl (tl (tl u))") auto
  moreover have "\<not> image_at u" using True by (auto simp: image_at_def)
  ultimately show ?thesis by (auto simp: HTML_IMG_def chr_def ci_def)
next
  case False
  then obtain a b d e t where u: "u = a # b # d # e # t"
    by (cases u; cases "tl u"; cases "tl (tl u)"; cases "tl (tl (tl u))") auto
  show ?thesis
  proof (cases "lower [a, b, d, e] = ''<img''")
    case True
    then have abc: "a = CHR ''<''" "lower_char b = CHR ''i''" "lower_char d = CHR ''m''" "lower_char e = CHR ''g''"
      by (auto simp: lower_lt)
    have hit: "image_at u \<longleftrightarrow> \<not> wordy (first_char t) \<and> CHR ''>'' \<in> set t" using True by (simp add: u image_at_def img_start_def)
    have low: "lower_char CHR ''i'' = CHR ''i''" "lower_char CHR ''m'' = CHR ''m''" "lower_char CHR ''g'' = CHR ''g''"
      by (simp_all add: lower_char_def)
    have "run (seq [chr CHR ''<'', ci CHR ''i'', ci CHR ''m'', ci CHR ''g'', Boundary, rest]) \<lparr>before = c, left = u, groups = []\<rparr> =
        (if wordy (first_char t) then [] else run rest \<lparr>before = Some e, left = t, groups = []\<rparr>)" for rest
      using abc low lower_g [OF abc(4)] by (simp add: ci_def chr_def u at_boundary_def)
    from this [of "Seq (none_of CHR ''>'') (chr CHR ''>'')"]
    have "run HTML_IMG \<lparr>before = c, left = u, groups = []\<rparr> =
        (if wordy (first_char t) then [] else run (Seq (none_of CHR ''>'') (chr CHR ''>'')) \<lparr>before = Some e, left = t, groups = []\<rparr>)"
      by (simp only: HTML_IMG_def seq.simps)
    then show ?thesis using hit unfolding run_until by (simp add: u)
  next
    case no: False
    then have "\<not> image_at u" by (auto simp: u image_at_def img_start_def)
    moreover have "lower_char CHR ''i'' = CHR ''i''" "lower_char CHR ''m'' = CHR ''m''" "lower_char CHR ''g'' = CHR ''g''"
      by (simp_all add: lower_char_def)
    ultimately show ?thesis using no by (auto simp: HTML_IMG_def ci_def chr_def u lower_lt)
  qed
qed

lemma dropWhile_tl_shorter: "x \<in> set s \<Longrightarrow> length (tl (dropWhile (\<lambda>y. y \<noteq> x) s)) < length s"
  by (induction s) (auto simp: less_Suc_eq_le length_dropWhile_le intro: le_trans)

abbreviation html_removed :: "char option \<Rightarrow> string \<Rightarrow> string" where
  "html_removed \<equiv> replace_at HTML_IMG IMAGE_REMOVED"

lemma html_removed_at:
  "image_at u \<Longrightarrow> html_removed c u =
     IMAGE_REMOVED @ html_removed (Some CHR ''>'') (tl (dropWhile (\<lambda>x. x \<noteq> CHR ''>'') (drop 4 u)))"
proof -
  assume at: "image_at u"
  then have "length (tl (dropWhile (\<lambda>x. x \<noteq> CHR ''>'') (drop 4 u))) < length (drop 4 u)"
    unfolding image_at_def by (intro dropWhile_tl_shorter) simp
  then have "length (tl (dropWhile (\<lambda>x. x \<noteq> CHR ''>'') (drop 4 u))) < length u" by simp
  then show ?thesis
    using replace_at_match [of HTML_IMG c u _ "[]" IMAGE_REMOVED] at by (simp add: run_html_img)
qed

lemma html_removed_skip: "\<not> image_at (x # t) \<Longrightarrow> html_removed c (x # t) = x # html_removed (Some x) t"
  by (rule replace_at_skip) (simp add: run_html_img)

text \<open>What stands first in the result: the marker, or what stood there before.\<close>

lemma html_removed_first:
  assumes "html_removed c u = x # w" "x \<noteq> CHR ''[''"
  shows "\<exists>t. u = x # t \<and> w = html_removed (Some x) t"
proof (cases "image_at u")
  case True
  with assms html_removed_at [OF True, of c] show ?thesis by (simp add: IMAGE_REMOVED_def)
next
  case False
  with assms show ?thesis by (cases u) (auto simp: replace_at_Nil html_removed_skip)
qed

lemma html_removed_boundary: "\<not> wordy (first_char (html_removed c u)) \<Longrightarrow> \<not> wordy (first_char u)"
proof (cases "image_at u")
  case True
  then have "\<exists>t. u = CHR ''<'' # t" by (cases u) (auto simp: image_at_def img_start_def lower_lt)
  then show ?thesis by (auto simp: first_char_def wordy_def word_char_def)
next
  case False
  then show "\<not> wordy (first_char (html_removed c u)) \<Longrightarrow> ?thesis"
    by (cases u) (auto simp: replace_at_Nil html_removed_skip first_char_def)
qed

lemma suffix_append_cases:
  assumes "suffix b (new @ s)"
  obtains "suffix b s" | x b' where "b = x # b'" "x \<in> set new"
  using assms by (induction new) (auto simp: suffix_Cons)

lemma html_removed_clean: "suffix b (html_removed c u) \<Longrightarrow> \<not> image_at b"
proof (induction "length u" arbitrary: c u b rule: less_induct)
  case less
  show ?case
  proof (cases "image_at u")
    case True
    let ?r = "tl (dropWhile (\<lambda>x. x \<noteq> CHR ''>'') (drop 4 u))"
    from True have "length ?r < length (drop 4 u)" unfolding image_at_def by (intro dropWhile_tl_shorter) simp
    then have "length ?r < length u" by simp
    note IH = less(1) [OF this]
    from less(2) have "suffix b (IMAGE_REMOVED @ html_removed (Some CHR ''>'') ?r)" by (simp add: html_removed_at [OF True])
    then consider "suffix b (html_removed (Some CHR ''>'') ?r)" | x b' where "b = x # b'" "x \<in> set IMAGE_REMOVED"
      by (rule suffix_append_cases)
    then show ?thesis
    proof cases
      case 2
      then have "x \<noteq> CHR ''<''" by (auto simp: IMAGE_REMOVED_def)
      with 2 show ?thesis by (simp add: image_at_def img_start_def lower_lt)
    qed (rule IH)
  next
    case False
    show ?thesis
    proof (cases u)
      case Nil
      with less(2) show ?thesis by (simp add: replace_at_Nil image_at_def)
    next
      case (Cons x t)
      let ?w = "html_removed (Some x) t"
      from less(2) False Cons consider "suffix b ?w" | "b = x # ?w" by (auto simp: html_removed_skip suffix_Cons)
      then show ?thesis
      proof cases
        case 1
        then show ?thesis using less(1) [of t] Cons by simp
      next
        case 2
        show ?thesis
        proof
          assume at: "image_at b"
          then have b: "lower (take 4 b) = ''<img''" "\<not> wordy (first_char (drop 4 b))" "CHR ''>'' \<in> set (drop 4 b)"
            by (auto simp: image_at_def img_start_def)
          then obtain i m g w where w: "?w = i # m # g # w" "b = x # i # m # g # w"
            using 2 by (cases ?w; cases "tl ?w"; cases "tl (tl ?w)") auto
          have ne: "i \<noteq> CHR ''[''" "m \<noteq> CHR ''[''" "g \<noteq> CHR ''[''"
            using b(1) w(2) by (auto simp: lower_char_def)
          obtain t1 where t1: "t = i # t1" "m # g # w = html_removed (Some i) t1" using html_removed_first [OF w(1) ne(1)] by blast
          obtain t2 where t2: "t1 = m # t2" "g # w = html_removed (Some m) t2" using html_removed_first [OF t1(2) [symmetric] ne(2)] by blast
          obtain t3 where t3: "t2 = g # t3" "w = html_removed (Some g) t3" using html_removed_first [OF t2(2) [symmetric] ne(3)] by blast
          have "\<not> wordy (first_char t3)" using html_removed_boundary [of "Some g" t3] b(2) w(2) t3(2) by simp
          moreover have "CHR ''>'' \<in> set t3"
            using replace_at_chars [of HTML_IMG IMAGE_REMOVED "Some g" t3] b(3) w(2) t3(2) by (auto simp: IMAGE_REMOVED_def)
          ultimately have "image_at u" using b(1) w(2) by (simp add: image_at_def img_start_def Cons t1 t2 t3)
          with False show False by simp
        qed
      qed
    qed
  qed
qed

lemma search_image: "search_at HTML_IMG c u \<noteq> None \<longleftrightarrow> (\<exists>b. suffix b u \<and> image_at b)"
proof (induction u arbitrary: c)
  case Nil
  have "\<not> image_at []" by (simp add: image_at_def)
  then show ?case by (subst search_at_step) (simp add: run_html_img)
next
  case (Cons x u)
  then show ?case by (subst search_at_step) (auto simp: run_html_img suffix_Cons)
qed

lemma no_html_image: "\<not> found HTML_IMG (sanitize_report s)"
  using html_removed_clean unfolding found_def search_def search_image sanitize_report_def replace_all_def by blast

end
