(* ===== verification/Exports.thy ===== *)
theory Exports
  imports View Evidence Cells Prompts
begin

text \<open>
  The downloads: \<open>src/api/exports.py\<close>. A workbook is the list of sheets that are written to it, each
  a title with its rows of cells; the file format is openpyxl's. The report is the text the code
  joins. \<open>now\<close> is the time of the export, \<open>illegal\<close> openpyxl's class of illegal characters, \<open>check\<close>
  the quote check of the vault bound to the session.
\<close>

section \<open>The state of an artifact\<close>

record export_context =
  xc_session_id :: string
  xc_session_name :: string
  xc_status :: string

definition artifact_state :: "export_context \<Rightarrow> phase \<Rightarrow> string" where
  "artifact_state ctx p =
     (let n = phase_digit p; status = xc_status ctx in
      if status = ''QA_REJECTED_PHASE_'' @ n then ''DRAFT REJECTED BY QA '' @ em_dash @ '' not approved''
      else if status \<in> {''RUNNING_PHASE_'' @ n, ''ERROR_PHASE_'' @ n}
        then ''Previous draft '' @ em_dash @ '' this phase is being re-run or failed''
      else if status = ''WAITING_HUMAN_GATE_'' @ n then ''Awaiting human approval at Gate '' @ n
      else ''Approved at Gate '' @ n)"

definition slug :: "string \<Rightarrow> string" where
  "slug sid =
     (let s = take 36 (filter (\<lambda>c. c \<in> set ''ABCDEFGHIJKLMNOPQRSTUVWXYZabcdefghijklmnopqrstuvwxyz0123456789-'') sid) in
      if s = [] then ''session'' else s)"

definition export_filename :: "export_context \<Rightarrow> string \<Rightarrow> string \<Rightarrow> string" where
  "export_filename ctx stem ext = stem @ ''-'' @ take 8 (slug (xc_session_id ctx)) @ ''.'' @ ext"

section \<open>Workbooks\<close>

type_synonym sheet = "string \<times> string list list"

definition write_sheet :: "(char \<Rightarrow> bool) \<Rightarrow> string \<Rightarrow> string list \<Rightarrow> string list list \<Rightarrow> sheet" where
  "write_sheet illegal title headers rows = (title, map (map (sanitize_cell illegal)) (headers # rows))"

fun PHASE_LABELS :: "phase \<Rightarrow> string" where
  "PHASE_LABELS P1 = ''Planning''"
| "PHASE_LABELS P2 = ''Fieldwork''"
| "PHASE_LABELS P3 = ''Reporting''"

definition info_rows :: "export_context \<Rightarrow> phase \<Rightarrow> string \<Rightarrow> string list \<Rightarrow> string list list" where
  "info_rows ctx p now notes =
     [[''Session'', xc_session_name ctx],
      [''Session ID'', xc_session_id ctx],
      [''Session status'', xc_status ctx],
      [PHASE_LABELS p @ '' artifact'', artifact_state ctx p],
      [''Exported at (UTC)'', now]] @ map (\<lambda>n. [''Note'', n]) notes"

text \<open>\<open>_steps\<close>, \<open>_yes_no\<close> and \<open>_text\<close>\<close>

definition steps_text :: "test_step list \<Rightarrow> string" where
  "steps_text ts = join_with ''; '' (map (\<lambda>s. step_description s @ '' (Expect: '' @ expected_result s @ '')'') ts)"

definition yes_no :: "bool option \<Rightarrow> string" where
  "yes_no v = (case v of None \<Rightarrow> [] | Some True \<Rightarrow> ''Yes'' | Some False \<Rightarrow> ''No'')"

definition or_blank :: "('a \<Rightarrow> string) \<Rightarrow> 'a option \<Rightarrow> string" where
  "or_blank f v = (case v of None \<Rightarrow> [] | Some x \<Rightarrow> f x)"

abbreviation str_or_blank :: "string option \<Rightarrow> string" where
  "str_or_blank \<equiv> or_blank (\<lambda>s. s)"

subsection \<open>The risk and control matrix\<close>

definition RACM_HEADERS :: "string list" where
  "RACM_HEADERS =
     [''Risk ID'', ''Risk Description'', ''Likelihood'', ''Impact'', ''Rating Rationale'', ''Regulatory Mapping'',
      ''Control ID'', ''Control Description'', ''Control Owner'', ''Frequency'', ''Nature'', ''Type'', ''Key Control'',
      ''Assertions / Objectives'', ''IPE'', ''ToD Steps'', ''ToE Steps'', ''Substantive Steps'', ''Population Source'',
      ''Population Completeness'', ''Sample Size'', ''Sampling Method'', ''Period of Reliance'']"

definition racm_row :: "risk \<Rightarrow> control \<Rightarrow> string list" where
  "racm_row r c =
     (let tp = testing_procedures c; pop = t_population tp in
      [r_risk_id r, r_description r, or_blank rating_value (r_likelihood r), or_blank rating_value (impact r),
       str_or_blank (rating_rationale r), join_with '', '' (regulatory_mapping r),
       c_control_id c, c_description c, str_or_blank (control_owner c), or_blank frequency_value (frequency c),
       or_blank nature_value (nature c), or_blank ctype_value (c_control_type c), yes_no (key_control c),
       join_with ''; '' (assertions c), join_with ''; '' (ipe c), steps_text (test_of_design tp),
       steps_text (test_of_effectiveness tp),
       steps_text (case substantive_testing tp of None \<Rightarrow> [] | Some s \<Rightarrow> s),
       or_blank p_source pop, or_blank completeness_procedure pop, or_blank nat_str (sample_size tp),
       or_blank sampling_value (t_sampling_method tp), str_or_blank (period_of_reliance tp)])"

definition racm_xlsx :: "(char \<Rightarrow> bool) \<Rightarrow> string \<Rightarrow> racm \<Rightarrow> export_context \<Rightarrow> sheet list" where
  "racm_xlsx illegal now m ctx =
     [write_sheet illegal ''Controls'' RACM_HEADERS
        (concat (map (\<lambda>r. map (racm_row r) (controls r)) (risks m))),
      write_sheet illegal ''Export Info'' [''Field'', ''Value''] (info_rows ctx P1 now [''Theme: '' @ rm_theme m])]"

subsection \<open>Who the reviewers are\<close>

definition view_refs :: "effective_view \<Rightarrow> decision_ref option list" where
  "view_refs v =
     ev_conclusion v # concat (map (\<lambda>f. [fv_review f, fv_scope_limitation f]) (ev_findings v)) @
     concat (map (\<lambda>d. [dv_decision d, dv_writeup d, dv_management_response d, dv_remediation d]) (ev_deficiencies v))"

definition identity_sources :: "effective_view option \<Rightarrow> string list" where
  "identity_sources view =
     (case view of None \<Rightarrow> [] | Some v \<Rightarrow>
        remdups (concat (map (\<lambda>r. case r of None \<Rightarrow> [] | Some x \<Rightarrow> [ref_source x]) (view_refs v))))"

definition identity_note :: "string list \<Rightarrow> string" where
  "identity_note sources =
     (if set sources = {''authenticated''} then
        ''Reviewer identities were authenticated with per-reviewer tokens (this application only: not single sign-on, no MFA).''
      else if ''authenticated'' \<in> set sources then
        ''Each reviewer identity is marked declared (typed by the reviewer) or authenticated (per-reviewer token; not single sign-on, no MFA).''
      else ''Identities are declared, not authenticated.'')"

definition SHOW_AI_DRAFT_WHEN_DIFFERENT :: bool where
  "SHOW_AI_DRAFT_WHEN_DIFFERENT = True"

definition decided_by_text :: "decision_ref \<Rightarrow> string" where
  "decided_by_text r =
     to_line (ref_by r) @ '' ('' @ to_line (ref_source r) @ '' identity), '' @ take 10 (to_line (ref_at r))"

definition draft_text :: "finding_view \<Rightarrow> string" where
  "draft_text v =
     (if \<not> (fv_differs v \<and> SHOW_AI_DRAFT_WHEN_DIFFERENT) then []
      else ''ToD '' @ fc_tod (fv_draft v) @ ''; ToE '' @ fc_toe (fv_draft v) @ ''; result '' @ fc_result (fv_draft v))"

fun REVIEW_STATUS_TEXT :: "review_status \<Rightarrow> string" where
  "REVIEW_STATUS_TEXT Signed_off = ''Signed off''"
| "REVIEW_STATUS_TEXT Challenged = ''Challenged''"
| "REVIEW_STATUS_TEXT Not_reviewed = ''Not reviewed''"

subsection \<open>The working papers\<close>

definition WORKING_PAPER_HEADERS :: "string \<Rightarrow> string list" where
  "WORKING_PAPER_HEADERS who =
     [''Control ID'', ''ToD Conclusion'', ''ToE Conclusion'', ''ToE Basis'', ''Items Tested'', ''Exceptions Noted'',
      ''Result'', ''Preliminary Deficiency'', ''Conclusion'', ''Evidence Quote'', ''Vault ID'', ''Quote Verified in Vault'',
      ''Legacy Severity'', ''Reviewer Decision'', who, ''Reviewed At (UTC)'', ''Reviewer Rationale'',
      ''AI Draft (where the record differs)'', ''Scope Limitation'']"

definition reviewer_header :: "string list \<Rightarrow> string" where
  "reviewer_header sources =
     (if set sources = {''authenticated''} then ''Reviewed By (authenticated)''
      else if length sources > 1 then ''Reviewed By'' else ''Reviewed By (declared)'')"

text \<open>\<open>EffectiveView.finding\<close>\<close>
definition view_finding :: "effective_view \<Rightarrow> string \<Rightarrow> finding_view option" where
  "view_finding v cid = find (\<lambda>f. fv_control_id f = cid) (ev_findings v)"

text \<open>The conclusions of record, or those of the draft when there is no view of the finding.\<close>

definition shown_tod :: "finding_view option \<Rightarrow> finding \<Rightarrow> string" where
  "shown_tod fv f = (case fv of Some v \<Rightarrow> fc_tod (fv_effective v) | None \<Rightarrow> tod_value (tod_conclusion f))"

definition shown_toe :: "finding_view option \<Rightarrow> finding \<Rightarrow> string" where
  "shown_toe fv f = (case fv of Some v \<Rightarrow> fc_toe (fv_effective v) | None \<Rightarrow> toe_value (toe_conclusion f))"

definition shown_result :: "finding_view option \<Rightarrow> finding \<Rightarrow> string" where
  "shown_result fv f = (case fv of Some v \<Rightarrow> fc_result (fv_effective v) | None \<Rightarrow> or_blank result_value (f_result f))"

definition quote_text :: "(string \<Rightarrow> string \<Rightarrow> raised + bool) \<Rightarrow> finding \<Rightarrow> raised + string" where
  "quote_text check f =
     (if vault_id_reference f \<noteq> [] \<and> exact_quote f \<noteq> []
      then bindE (check (vault_id_reference f) (exact_quote f)) (\<lambda>b. Inr (if b then ''Yes'' else ''No''))
      else Inr ''n/a (no evidence)'')"

definition paper_row ::
  "(string \<Rightarrow> string \<Rightarrow> raised + bool) \<Rightarrow> effective_view option \<Rightarrow> bool \<Rightarrow> finding \<Rightarrow> raised + string list" where
  "paper_row check view mixed f =
     bindE (quote_text check f) (\<lambda>verified_text.
       let fv = Option.bind view (\<lambda>v. view_finding v (f_control_id f));
           review = Option.bind fv fv_review; scope = Option.bind fv fv_scope_limitation in
       Inr [f_control_id f, shown_tod fv f, shown_toe fv f, str_or_blank (toe_basis f),
         or_blank nat_str (items_tested f), or_blank nat_str (exceptions_noted f), shown_result fv f,
         yes_no (case fv of Some v \<Rightarrow> Some (fc_preliminary (fv_effective v)) | None \<Rightarrow> preliminary_deficiency f),
         test_conclusion f, exact_quote f, vault_id_reference f, verified_text, str_or_blank (legacy_severity f),
         (case fv of Some v \<Rightarrow> REVIEW_STATUS_TEXT (fv_review_status v) | None \<Rightarrow> ''Not reviewed''),
         (case review of None \<Rightarrow> [] | Some r \<Rightarrow> if mixed then ref_by r @ '' ('' @ ref_source r @ '')'' else ref_by r),
         or_blank ref_at review, or_blank ref_rationale review, or_blank draft_text fv, or_blank ref_rationale scope])"

definition paper_notes :: "working_papers \<Rightarrow> string list \<Rightarrow> string list" where
  "paper_notes p sources =
     [''Theme: '' @ wp_theme p,
      ''Quote Verified in Vault is re-checked at export time: the quote must appear verbatim in the stored evidence and the record'' @ [CHR 0x27] @ ''s digest must match.'',
      ''Preliminary Deficiency is a fieldwork flag only. Deficiencies are classified at engagement level in the report'' @ [CHR 0x27] @ ''s deficiency evaluation.'',
      ''ToD / ToE / Result show the conclusion of record: the AI draft, unless a reviewer'' @ [CHR 0x27] @ ''s challenge withdrew a conclusion (the draft is then shown under '' @ [CHR 0x27] @ ''AI Draft'' @ [CHR 0x27] @ ''). '' @ identity_note sources] @
     (if \<exists>f\<in>set (findings p). legacy_severity f \<noteq> None \<and> legacy_severity f \<noteq> Some [] then
        [''Legacy Severity: these findings were recorded before ToD/ToE conclusions existed; their conclusions were derived from the old severity label on load.'']
      else [])"

definition RACM_CROSSWALK_HEADERS :: "string list" where
  "RACM_CROSSWALK_HEADERS =
     [''Risk ID'', ''Regulatory Mapping'', ''Control ID'', ''Control Description'', ''Control Owner'', ''Frequency'', ''Nature'',
      ''Key Control'', ''IPE'', ''Planned Sample Size'', ''Items Tested'', ''Exceptions Noted'', ''ToD Conclusion'',
      ''ToE Conclusion'', ''Result'']"

text \<open>The first control of each id, with its risk.\<close>

definition control_lookup :: "racm \<Rightarrow> (string \<times> risk \<times> control) list" where
  "control_lookup m =
     foldl (\<lambda>out (r, c). if map_of out (c_control_id c) = None then dict_set (c_control_id c) (r, c) out else out) []
       (concat (map (\<lambda>r. map (\<lambda>c. (r, c)) (controls r)) (risks m)))"

definition crosswalk_row :: "racm \<Rightarrow> effective_view option \<Rightarrow> finding \<Rightarrow> string list" where
  "crosswalk_row m view f =
     (let fv = Option.bind view (\<lambda>v. view_finding v (f_control_id f));
          rc = map_of (control_lookup m) (f_control_id f); r = map_option fst rc; c = map_option snd rc in
      [or_blank r_risk_id r, or_blank (\<lambda>x. join_with '', '' (regulatory_mapping x)) r, f_control_id f,
       or_blank c_description c, or_blank (\<lambda>x. str_or_blank (control_owner x)) c,
       or_blank (\<lambda>x. or_blank frequency_value (frequency x)) c, or_blank (\<lambda>x. or_blank nature_value (nature x)) c,
       or_blank (\<lambda>x. yes_no (key_control x)) c, or_blank (\<lambda>x. join_with ''; '' (ipe x)) c,
       or_blank (\<lambda>x. or_blank nat_str (sample_size (testing_procedures x))) c,
       or_blank nat_str (items_tested f), or_blank nat_str (exceptions_noted f),
       shown_tod fv f, shown_toe fv f, shown_result fv f])"

definition working_papers_xlsx ::
  "(char \<Rightarrow> bool) \<Rightarrow> string \<Rightarrow> (string \<Rightarrow> string \<Rightarrow> raised + bool) \<Rightarrow> working_papers \<Rightarrow> export_context \<Rightarrow>
   effective_view option \<Rightarrow> racm option \<Rightarrow> raised + sheet list" where
  "working_papers_xlsx illegal now check p ctx view m =
     (let sources = identity_sources view; mixed = (length sources > 1) in
      bindE (collectE (\<lambda>f. bindE (paper_row check view mixed f) (\<lambda>r. Inr [r])) (findings p)) (\<lambda>rows.
        Inr ([write_sheet illegal ''Findings'' (WORKING_PAPER_HEADERS (reviewer_header sources)) rows] @
          (case m of None \<Rightarrow> []
           | Some rm \<Rightarrow> [write_sheet illegal ''RACM Crosswalk'' RACM_CROSSWALK_HEADERS (map (crosswalk_row rm view) (findings p))]) @
          [write_sheet illegal ''Export Info'' [''Field'', ''Value''] (info_rows ctx P2 now (paper_notes p sources))])))"

end
