(* ===== verification/ReportText.thy ===== *)
theory ReportText
  imports Exports
begin

text \<open>
  The report as Markdown: \<open>report_markdown\<close> of \<open>src/api/exports.py\<close> with its sections, and the line on the
  trail that \<open>src/api/routers/exports.py\<close> inserts. A section is the list of its lines.
\<close>

definition q1 :: string where "q1 = [CHR 0x27]"

definition nl :: string where "nl = [CHR 0x0A]"

section \<open>Deficiencies\<close>

definition with_draft :: "string \<Rightarrow> string \<Rightarrow> string" where
  "with_draft r d = (if r = d \<or> \<not> SHOW_AI_DRAFT_WHEN_DIFFERENT then r else r @ '' (AI draft: '' @ d @ '')'')"

definition DEFICIENCY_HEAD :: "string list" where
  "DEFICIENCY_HEAD =
     [''| ID | Title | Findings | Risks | Likelihood | Magnitude | Classification | Compensating controls | Rationale |'',
      ''|---|---|---|---|---|---|---|---|---|'']"

definition scale_text :: "final_report \<Rightarrow> string" where
  "scale_text r = (let s = to_line (or_blank scale_value (rp_scale r)) in if s = [] then ''not stated'' else s)"

definition proposed_cells :: "deficiency \<Rightarrow> string list" where
  "proposed_cells e =
     [deficiency_id e, e_title e, join_with '', '' (related_findings e), join_with '', '' (related_risks e),
      rating_value (likelihood e), rating_value (magnitude e), classification_value (classification e),
      compensating_controls e, e_rationale e]"

definition proposed_deficiency_section :: "final_report \<Rightarrow> export_context \<Rightarrow> string list" where
  "proposed_deficiency_section r ctx =
     (let why = (if xc_status ctx = ''COMPLETED''
                  then ''Engagement-level evaluation proposed by the reporting crew; the report containing it was approved at Gate 3 (see Approval Trail).''
                  else ''Draft engagement-level evaluation proposed by the reporting crew, for the auditor'' @ q1 @ ''s judgement at Gate 3.'') in
      [''## Deficiency Evaluation (proposed)'', [], ''> '' @ why @ '' Scale: '' @ scale_text r @ ''.'', []] @
      (if deficiency_evaluations r = [] then [''No deficiencies were proposed.'', []]
       else DEFICIENCY_HEAD @ map (\<lambda>e. table_row (proposed_cells e)) (deficiency_evaluations r) @ [[]]))"

text \<open>\<open>{e.deficiency_id: e for e in ...}\<close>: the last evaluation of an id.\<close>

definition evaluation_by_id :: "final_report \<Rightarrow> (string \<times> deficiency) list" where
  "evaluation_by_id r = foldl (\<lambda>m e. dict_set (deficiency_id e) e m) [] (deficiency_evaluations r)"

definition classification_cell :: "deficiency_view \<Rightarrow> string" where
  "classification_cell d =
     (case dv_decision d of
        Some ref \<Rightarrow>
          cl_classification (dv_effective d) @ '' '' @ em_dash @ '' reviewer: '' @ decided_by_text ref @
          (if cl_classification (dv_effective d) \<noteq> cl_classification (dv_draft d)
           then ''; AI draft: '' @ cl_classification (dv_draft d) else [])
      | None \<Rightarrow> cl_classification (dv_draft d) @ '' (proposed)'')"

definition rationale_cell :: "deficiency_view \<Rightarrow> deficiency \<Rightarrow> string" where
  "rationale_cell d e =
     (case dv_decision d of
        Some ref \<Rightarrow>
          ''Reviewer: '' @ (if ref_rationale ref \<noteq> [] then ref_rationale ref else ''agrees with the draft.'') @
          (if dv_differs d then '' AI draft rationale: '' @ e_rationale e else [])
      | None \<Rightarrow> e_rationale e)"

definition decided_cells :: "deficiency_view \<Rightarrow> deficiency \<Rightarrow> string list" where
  "decided_cells d e =
     [deficiency_id e, e_title e, join_with '', '' (related_findings e), join_with '', '' (related_risks e),
      with_draft (cl_likelihood (dv_effective d)) (cl_likelihood (dv_draft d)),
      with_draft (cl_magnitude (dv_effective d)) (cl_magnitude (dv_draft d)),
      classification_cell d, compensating_controls e, rationale_cell d e]"

text \<open>\<open>s.rstrip(".")\<close>, and \<open>s[:1].lower() + s[1:]\<close>\<close>

definition strip_dots :: "string \<Rightarrow> string" where
  "strip_dots s = rev (dropWhile (\<lambda>c. c = CHR ''.'') (rev s))"

definition uncapitalised :: "string \<Rightarrow> string" where
  "uncapitalised s = lower (take 1 s) @ drop 1 s"

definition deficiency_section ::
  "final_report \<Rightarrow> export_context \<Rightarrow> effective_view option \<Rightarrow> raised + string list" where
  "deficiency_section r ctx view =
     (case view of None \<Rightarrow> Inr (proposed_deficiency_section r ctx)
      | Some v \<Rightarrow>
        let decided = filter (\<lambda>d. dv_decision d \<noteq> None) (ev_deficiencies v) in
        if decided = [] then Inr (proposed_deficiency_section r ctx)
        else
          let full = (length decided = length (ev_deficiencies v));
              heading = (if full then ''## Deficiency Evaluation (conclusion of record)''
                         else ''## Deficiency Evaluation (conclusion of record where decided)'');
              identities = strip_dots (identity_note (identity_sources view));
              why = ''Classifications are the reviewer'' @ q1 @ ''s decisions ('' @ uncapitalised identities @
                ''). Where the reviewer departed from the AI-drafted evaluation, the draft is shown alongside.'' @
                (if full then []
                 else '' Rows marked '' @ q1 @ ''proposed'' @ q1 @ '' have no reviewer decision yet: they show the AI draft, for the auditor'' @ q1 @ ''s judgement at Gate 3.'')
          in bindE (collectE (\<lambda>d. bindE (of_option KeyError (map_of (evaluation_by_id r) (dv_id d))) (\<lambda>e.
                Inr [table_row (decided_cells d e)])) (ev_deficiencies v)) (\<lambda>rows.
              Inr ([heading, [], ''> '' @ why @ '' Scale: '' @ scale_text r @ ''.'', []] @ DEFICIENCY_HEAD @ rows @ [[]])))"

definition narrative_note :: "effective_view option \<Rightarrow> string list" where
  "narrative_note view =
     (if (case view of None \<Rightarrow> False | Some v \<Rightarrow> \<exists>d\<in>set (ev_deficiencies v). dv_decision d \<noteq> None) then
        [''> AI-drafted narrative. Where it calls a classification proposed, the conclusion of record is the reviewer'' @ q1 @ ''s decision in the Deficiency Evaluation section.'', []]
      else [])"

section \<open>The engagement and the findings\<close>

text \<open>\<open>_one_line(values.get(k))\<close>\<close>
definition value_line :: "dict \<Rightarrow> string \<Rightarrow> string" where
  "value_line vs k = to_line (dict_get_or vs k [])"

definition engagement_section :: "effective_view \<Rightarrow> string list" where
  "engagement_section v =
     (case ev_conclusion v of None \<Rightarrow> []
      | Some ref \<Rightarrow>
        [''## Engagement Conclusion'', [],
         sanitize_report (''**'' @ value_line (ref_values ref) ''conclusion'' @ ''** '' @ em_dash @ '' decided by '' @ decided_by_text ref @ ''.''), [],
         sanitize_report (to_line (ref_rationale ref)), []])"

definition review_cells :: "finding_view \<Rightarrow> string list" where
  "review_cells f =
     [fv_control_id f,
      fc_result (fv_effective f) @
        (if fv_differs f \<and> SHOW_AI_DRAFT_WHEN_DIFFERENT
         then '' (AI draft: '' @ fc_result (fv_draft f) @ ''; ToD '' @ fc_tod (fv_draft f) @ '', ToE '' @ fc_toe (fv_draft f) @ '')'' else []),
      REVIEW_STATUS_TEXT (fv_review_status f),
      or_blank decided_by_text (fv_review f), or_blank ref_rationale (fv_review f)]"

definition limited_findings :: "effective_view \<Rightarrow> (finding_view \<times> decision_ref) list" where
  "limited_findings v =
     concat (map (\<lambda>f. case fv_scope_limitation f of None \<Rightarrow> [] | Some r \<Rightarrow> [(f, r)]) (ev_findings v))"

definition finding_review_section :: "effective_view \<Rightarrow> string list" where
  "finding_review_section v =
     (if \<not> (\<exists>f\<in>set (ev_findings v). fv_review f \<noteq> None \<or> fv_scope_limitation f \<noteq> None) then []
      else
        [''## Reviewer Sign-off of Findings'', [],
         ''> Per-finding review recorded before Gate 2 (and scope limitations recorded before Gate 3). '' @
           identity_note (identity_sources (Some v)), [],
         ''| Control | Result of record | Review | Reviewer | Rationale |'', ''|---|---|---|---|---|''] @
        map (\<lambda>f. table_row (review_cells f)) (ev_findings v) @ [[]] @
        (if limited_findings v = [] then []
         else [''## Scope Limitations'', []] @
           map (\<lambda>(f, r). sanitize_report (''- **'' @ to_line (fv_control_id f) @ ''** '' @ em_dash @ '' '' @ to_line (ref_rationale r) @
               '' (recorded by '' @ decided_by_text r @ '')'')) (limited_findings v) @ [[]]))"

section \<open>Write-ups and responses\<close>

definition WRITEUP_PARTS :: "string list" where
  "WRITEUP_PARTS = [''criteria'', ''condition'', ''cause'', ''effect'', ''recommendation'']"

definition AGREEMENT_TEXT :: dict where
  "AGREEMENT_TEXT = [(''agree'', ''Management agrees''), (''partial'', ''Management partly agrees''),
     (''disagree'', ''Management disagrees'')]"

definition capitalised :: "string \<Rightarrow> string" where
  "capitalised s = upper (take 1 s) @ lower (drop 1 s)"

definition writeup_lines :: "decision_ref \<Rightarrow> string list" where
  "writeup_lines w =
     map (\<lambda>part. sanitize_report (''- **'' @ capitalised part @ '':** '' @ value_line (ref_values w) part)) WRITEUP_PARTS @
     [[], sanitize_report (''_Written by '' @ decided_by_text w @ ''._''), []]"

definition response_lines :: "decision_ref \<Rightarrow> string list" where
  "response_lines r =
     (let v = ref_values r; agreement = dict_get_or AGREEMENT_TEXT (dict_get_or v ''agreement'' []) ''Response'' in
      [sanitize_report (''**Management response** ('' @ lower agreement @ ''; received from '' @ value_line v ''received_from'' @
         '' on '' @ value_line v ''received_on'' @ '', transcribed by '' @ decided_by_text r @ ''):''),
       [], ''> '' @ sanitize_report (value_line v ''text''), []] @
      (if dict_get_or v ''action_owner_role'' [] \<noteq> [] \<or> dict_get_or v ''target_date'' [] \<noteq> [] then
         [sanitize_report (''- Action owner: '' @ value_line v ''action_owner_role'' @ ''; target date: '' @ value_line v ''target_date''), []]
       else []) @
      (if ref_rationale r \<noteq> [] then
         [sanitize_report (''**'' @ (if management_response_needs_rebuttal (dict_get_or v ''agreement'' [])
             then ''Auditor'' @ q1 @ ''s rebuttal'' else ''Auditor'' @ q1 @ ''s note'') @ '':** '' @ to_line (ref_rationale r)), []]
       else []))"

definition remediation_lines :: "decision_ref \<Rightarrow> string list" where
  "remediation_lines r =
     [sanitize_report (''**Remediation verification** ('' @ value_line (ref_values r) ''status'' @ ''; verified on '' @
        value_line (ref_values r) ''verified_on'' @ '' by '' @ decided_by_text r @ ''): '' @ to_line (ref_rationale r)), []]"

definition findings_detail_section :: "effective_view \<Rightarrow> string list" where
  "findings_detail_section v =
     (let shown = filter (\<lambda>d. dv_writeup d \<noteq> None \<or> dv_management_response d \<noteq> None \<or> dv_remediation d \<noteq> None) (ev_deficiencies v);
          part = (\<lambda>f x. case x of None \<Rightarrow> [] | Some r \<Rightarrow> f r) in
      if shown = [] then []
      else [''## Findings and Management Responses'', []] @
        concat (map (\<lambda>d.
          [sanitize_report (''### '' @ to_line (dv_id d) @ '' '' @ em_dash @ '' '' @ to_line (dv_title d)), []] @
          part writeup_lines (dv_writeup d) @ part response_lines (dv_management_response d) @
          part remediation_lines (dv_remediation d)) shown))"

section \<open>Conclusions of record\<close>

definition has_reviewer_decisions :: "effective_view option \<Rightarrow> bool" where
  "has_reviewer_decisions view =
     (case view of None \<Rightarrow> False
      | Some v \<Rightarrow> ev_conclusion v \<noteq> None \<or> (\<exists>d\<in>set (ev_deficiencies v). dv_decision d \<noteq> None) \<or>
          (\<exists>f\<in>set (ev_findings v). fv_scope_limitation f \<noteq> None))"

definition record_of_classification :: "deficiency_view \<Rightarrow> string" where
  "record_of_classification d =
     (case dv_decision d of
        Some r \<Rightarrow> cl_classification (dv_effective d) @
          (if cl_classification (dv_effective d) \<noteq> cl_classification (dv_draft d)
           then '' (AI draft: '' @ cl_classification (dv_draft d) @ '')'' else []) @
          '' '' @ em_dash @ '' decided by '' @ decided_by_text r
      | None \<Rightarrow> cl_classification (dv_draft d) @ '' (AI draft, proposed)'')"

definition conclusions_of_record_section :: "effective_view option \<Rightarrow> string list" where
  "conclusions_of_record_section view =
     (case view of None \<Rightarrow> []
      | Some v \<Rightarrow>
        if \<not> has_reviewer_decisions view then []
        else
          [''## Conclusions of Record'', [],
           ''> Reviewer decisions recorded for this engagement. Where a conclusion has not been decided, it is still an AI-drafted proposal pending the auditor'' @ q1 @ ''s judgement at Gate 3. '' @ identity_note (identity_sources view), [],
           (case ev_conclusion v of
              Some r \<Rightarrow> sanitize_report (''- **Engagement conclusion:** '' @ value_line (ref_values r) ''conclusion'' @ '' '' @ em_dash @
                '' decided by '' @ decided_by_text r @ ''.'')
            | None \<Rightarrow> ''- **Engagement conclusion:** not yet decided (AI draft proposal only).'')] @
          (if ev_deficiencies v = [] then []
           else [''- **Deficiency classifications of record:**''] @
             map (\<lambda>d. sanitize_report (''  - '' @ dv_id d @ '': '' @ record_of_classification d)) (ev_deficiencies v)) @
          (if limited_findings v = [] then [''- **Scope limitations:** none recorded.'']
           else [''- **Scope limitations:**''] @
             map (\<lambda>(f, r). sanitize_report (''  - '' @ fv_control_id f @ '' '' @ em_dash @ '' decided by '' @ decided_by_text r @ ''.''))
               (limited_findings v)) @ [[]])"

section \<open>The trail and the whole report\<close>

definition trail_text :: "entry \<Rightarrow> string" where
  "trail_text e =
     (let get = (\<lambda>k. dict_get_or e k []) in
      to_line (get ''gate'') @ ''** '' @ em_dash @ '' '' @ to_line (get ''human'') @ '' at '' @ to_line (get ''timestamp'') @
        (if get ''identity_source'' = ''authenticated'' then '' [authenticated reviewer token]'' else []) @
        (if get ''action'' \<noteq> [] then '' ('' @ to_line (get ''action'') @ '')'' else []) @
        (if get ''action'' = ''review_decision'' then
           '' '' @ em_dash @ '' '' @ to_line (get ''decision_type'') @ '' on '' @ to_line (get ''subject'') @
           (if get ''supersedes'' \<noteq> [] then '', superseding '' @ to_line (get ''supersedes'') else []) else []) @
        (if get ''reason'' \<noteq> [] then '' '' @ em_dash @ '' reason: '' @ to_line (get ''reason'') else []) @
        (if get ''qa_rejection_reason'' \<noteq> [] then '' '' @ em_dash @ '' overrode QA: '' @ to_line (get ''qa_rejection_reason'') else []))"

definition trail_line :: "entry \<Rightarrow> string" where
  "trail_line e = sanitize_report (''- **'' @ trail_text e)"

definition trail_lines :: "trail \<Rightarrow> string list" where
  "trail_lines tr = (if tr = [] then [''No approvals recorded.''] else map trail_line tr)"

definition report_head ::
  "final_report \<Rightarrow> export_context \<Rightarrow> effective_view option \<Rightarrow> string list \<Rightarrow> string list" where
  "report_head r ctx view evaluation =
     (let part = (\<lambda>f. case view of None \<Rightarrow> [] | Some v \<Rightarrow> f v) in
      [sanitize_report (''# GRC Audit Report '' @ em_dash @ '' '' @ to_line (xc_session_name ctx)), [],
       ''> Report status: '' @ artifact_state ctx P3 @ '' (session status '' @ xc_status ctx @ '').'', []] @
      conclusions_of_record_section view @
      [if has_reviewer_decisions view then ''## Executive Summary (AI-drafted summary)'' else ''## Executive Summary'', [],
       sanitize_report (executive_summary r), [], ''## Detailed Report'', []] @
      narrative_note view @ [sanitize_report (detailed_report r), []] @
      part engagement_section @ evaluation @ part findings_detail_section @ part finding_review_section)"

definition report_markdown ::
  "final_report \<Rightarrow> trail \<Rightarrow> export_context \<Rightarrow> effective_view option \<Rightarrow> raised + string" where
  "report_markdown r tr ctx view =
     bindE (deficiency_section r ctx view) (\<lambda>evaluation.
       Inr (join_with nl (report_head r ctx view evaluation @ [''## Approval Trail'', []] @ trail_lines tr) @ nl))"

section \<open>The line on the trail\<close>

fun verification_status_text :: "trail_status \<Rightarrow> string" where
  "verification_status_text STATUS_OK = ''ok''"
| "verification_status_text STATUS_LEGACY = ''legacy_unchained''"
| "verification_status_text STATUS_BROKEN = ''broken''"
| "verification_status_text STATUS_TRUNCATED = ''truncated''"
| "verification_status_text STATUS_UNKEYED = ''unkeyed''"
| "verification_status_text STATUS_KEY_UNAVAILABLE = ''key_unavailable''"
| "verification_status_text STATUS_ARTIFACT_CHANGED = ''artifact_changed''"
| "verification_status_text STATUS_DECISION_CHANGED = ''decision_changed''"
| "verification_status_text STATUS_ANCHOR_MISMATCH = ''anchor_mismatch''"

text \<open>\<open>text.rsplit(sep, 1)\<close> where the separator occurs: the parts around its last occurrence.\<close>

fun rsplit_once :: "string \<Rightarrow> string \<Rightarrow> (string \<times> string) option" where
  "rsplit_once sep [] = (if sep = [] then Some ([], []) else None)"
| "rsplit_once sep (c # s) =
     (case rsplit_once sep s of
        Some (h, t) \<Rightarrow> Some (c # h, t)
      | None \<Rightarrow> if prefix sep (c # s) then Some ([], drop (length sep) (c # s)) else None)"

definition TRAIL_HEADING :: string where
  "TRAIL_HEADING = nl @ ''## Approval Trail'' @ nl @ nl"

text \<open>\<open>detail\<close> is the sentence the verification comes with.\<close>

definition verification_line :: "trail_status \<Rightarrow> string \<Rightarrow> string" where
  "verification_line status detail =
     sanitize_report (to_line (''> Trail verification at export: '' @ verification_status_text status @ '' ('' @ detail @ '')''))"

definition with_trail_line :: "string \<Rightarrow> trail_status \<Rightarrow> string \<Rightarrow> string" where
  "with_trail_line markdown status detail =
     (let line = verification_line status detail in
      case rsplit_once TRAIL_HEADING markdown of
        Some (h, t) \<Rightarrow> h @ TRAIL_HEADING @ line @ nl @ nl @ t
      | None \<Rightarrow> rev (lstrip (rev markdown)) @ nl @ nl @ ''## Approval Trail'' @ nl @ nl @ line @ nl)"

end
