(* ===== verification/Downloads.thy ===== *)
theory Downloads
  imports ReportText Api
begin

text \<open>
  The download endpoints: \<open>src/api/routers/exports.py\<close>. Each loads the audit without changing it,
  verifies its trail, and refuses with 409 when the trail shows a change. A response is the file
  name with its content; the OSCAL document is left out.
\<close>

section \<open>Loading an audit to export\<close>

text \<open>The live flow when there is one, else the stored one, which is not cached.\<close>

definition peek_flow :: "flow_env \<Rightarrow> string \<Rightarrow> 'st api \<Rightarrow> 'st api \<times> (http_error + audit_flow option)" where
  "peek_flow env sid st =
     (case map_of (api_flows st) sid of
        Some f \<Rightarrow> (st, Inr (Some f))
      | None \<Rightarrow>
          (let (store', r) = load_flow env sid (api_store st) in
           (st\<lparr>api_store := store'\<rparr>, case r of Inl e \<Rightarrow> Inl Unhandled | Inr x \<Rightarrow> Inr (map_option fst x))))"

text \<open>\<open>_verified_trail\<close>\<close>

definition verified_trail :: "flow_env \<Rightarrow> string \<Rightarrow> audit_flow \<Rightarrow> store \<Rightarrow> http_error + verification" where
  "verified_trail env sid f st =
     (case flow_verify_trail env (get_trail_anchor sid st) f of
        Inl e \<Rightarrow> Inl Unhandled
      | Inr v \<Rightarrow> if tamper_status (v_status v) then Inl (Http 409) else Inr v)"

record loaded_audit =
  ld_flow :: audit_flow
  ld_context :: export_context
  ld_verification :: verification

text \<open>\<open>_load\<close>; a session without a name is called by its id.\<close>

definition load_audit :: "flow_env \<Rightarrow> string \<Rightarrow> 'st api \<Rightarrow> 'st api \<times> (http_error + loaded_audit)" where
  "load_audit env sid st =
     (case require_session sid st of
        (st1, Inl e) \<Rightarrow> (st1, Inl e)
      | (st1, Inr d) \<Rightarrow>
          (let (st2, r) = peek_flow env sid st1 in
           (st2, bindE r (\<lambda>found.
              bindE (of_option (Http 404) found) (\<lambda>f.
              bindE (verified_trail env sid f (api_store st2)) (\<lambda>v.
                Inr \<lparr>ld_flow = f,
                  ld_context = \<lparr>xc_session_id = sid,
                    xc_session_name = (case map_of d ''name'' of Some (Text n) \<Rightarrow> n | _ \<Rightarrow> sid),
                    xc_status = status_text f\<rparr>,
                  ld_verification = v\<rparr>))))))"

section \<open>The endpoints\<close>

type_synonym 'a download = "http_error + string \<times> 'a"

definition export_racm :: "(char \<Rightarrow> bool) \<Rightarrow> flow_env \<Rightarrow> string \<Rightarrow> 'st api \<Rightarrow> 'st api \<times> sheet list download" where
  "export_racm illegal env sid st =
     (let (st', r) = load_audit env sid st in
      (st', bindE r (\<lambda>l.
        bindE (of_option (Http 404) (racm_plan (ld_flow l))) (\<lambda>m.
          Inr (export_filename (ld_context l) ''racm'' ''xlsx'', racm_xlsx illegal (now env) m (ld_context l))))))"

definition unhandled :: "raised + 'a \<Rightarrow> http_error + 'a" where
  "unhandled x = (case x of Inl e \<Rightarrow> Inl Unhandled | Inr y \<Rightarrow> Inr y)"

definition vault_check :: "flow_env \<Rightarrow> string \<Rightarrow> string \<Rightarrow> string \<Rightarrow> raised + bool" where
  "vault_check env sid vid quote =
     verify_exact_quote (crypto_of env) (fernet_of env) (vault_env env) (vault_now env) vid quote (Some sid)"

definition export_working_papers ::
  "(char \<Rightarrow> bool) \<Rightarrow> flow_env \<Rightarrow> string \<Rightarrow> 'st api \<Rightarrow> 'st api \<times> sheet list download" where
  "export_working_papers illegal env sid st =
     (let (st', r) = load_audit env sid st in
      (st', bindE r (\<lambda>l.
        bindE (of_option (Http 404) (papers (ld_flow l))) (\<lambda>p.
        bindE (unhandled (flow_view env (ld_flow l))) (\<lambda>v.
        bindE (unhandled (working_papers_xlsx illegal (now env) (vault_check env sid) p (ld_context l) (Some v)
                 (racm_plan (ld_flow l)))) (\<lambda>sheets.
          Inr (export_filename (ld_context l) ''working-papers'' ''xlsx'', sheets)))))))"

text \<open>\<open>detail\<close> is the sentence that comes with a verification.\<close>

definition export_report ::
  "(verification \<Rightarrow> string) \<Rightarrow> flow_env \<Rightarrow> string \<Rightarrow> 'st api \<Rightarrow> 'st api \<times> string download" where
  "export_report detail env sid st =
     (let (st', r) = load_audit env sid st in
      (st', bindE r (\<lambda>l.
        bindE (of_option (Http 404) (report (ld_flow l))) (\<lambda>rp.
        bindE (unhandled (flow_view env (ld_flow l))) (\<lambda>v.
        bindE (unhandled (report_markdown rp (approval_trail (ld_flow l)) (ld_context l) (Some v))) (\<lambda>markdown.
          Inr (export_filename (ld_context l) ''report'' ''md'',
            with_trail_line markdown (v_status (ld_verification l)) (detail (ld_verification l)))))))))"

end
