(* ===== verification/ExportProps.thy ===== *)
theory ExportProps
  imports Downloads ApiProps FlowGates
begin

text \<open>
  The properties of the downloads: what an export says of an artifact agrees with the trail, no
  stored audit is refused, nothing in a workbook is a formula, tables keep their columns, and the
  verification stands above the recorded trail.
\<close>

section \<open>Drafts belong to reached phases\<close>

fun phase_reached :: "audit_status \<Rightarrow> phase \<Rightarrow> bool" where
  "phase_reached WAITING_FOR_SCOPE p = False"
| "phase_reached (RUNNING_PHASE q) p = (p = q \<or> p \<in> set (gates_before q))"
| "phase_reached (WAITING_HUMAN_GATE q) p = (p = q \<or> p \<in> set (gates_before q))"
| "phase_reached (QA_REJECTED_PHASE q) p = (p = q \<or> p \<in> set (gates_before q))"
| "phase_reached (ERROR_PHASE q) p = (p = q \<or> p \<in> set (gates_before q))"
| "phase_reached COMPLETED p = True"

definition drafted :: "audit_flow \<Rightarrow> bool" where
  "drafted s \<longleftrightarrow> (\<forall>p. artifact_of s p \<noteq> None \<longrightarrow> phase_reached (machine s) p)"

lemma lifecycle_reached: "lifecycle s m t \<Longrightarrow> phase_reached s p \<Longrightarrow> phase_reached t p"
proof (induction rule: lifecycle.induct)
  case (approve q)
  then show ?case by (cases q) auto
qed auto

lemma run_machine_reached: "run_machine s ms = Inr t \<Longrightarrow> phase_reached s p \<Longrightarrow> phase_reached t p"
  by (induction ms arbitrary: s) (auto simp: bindE_Inr_iff machine_step_iff intro: lifecycle_reached)

lemma stamp_artifact_of: "stamp_trail env gate human action src extra s = Inr t \<Longrightarrow> artifact_of t q = artifact_of s q"
  using stamp_trail_frame by fastforce

lemma move_artifact_of: "move m s = Inr t \<Longrightarrow> artifact_of t q = artifact_of s q"
  by (auto simp: move_iff)

lemma review_artifacts:
  assumes "flow_step s (env, op) = Inr t" "\<nexists>p re dump. op = Generate p re dump"
  shows "artifact_of t q = artifact_of s q"
  using assms
  by (cases op)
     (auto simp: record_preparer_def begin_phase_1_def flow_approve_gate_def flow_retry_phase_def flow_return_for_rework_def
       override_qa_rejection_def record_decision_def Let_def bindE_Inr_iff simp del: artifact_of.simps
       dest!: stamp_artifact_of [where q = q] move_artifact_of [where q = q])

text \<open>A planning run has started its phase, however it ends.\<close>

lemma planning_started:
  assumes "generate dump env re P1 s = Inr (t, e)"
  shows "phase_reached (machine t) P1"
proof -
  let ?start = "\<lambda>s0. (detect_skills env s0)\<lparr>qa_reason := None\<rparr>"
  from assms obtain s0 where s0: "machine s0 = RUNNING_PHASE P1"
    "leaving (?start s0) (complete_run P1 planning_done (run_crew_with_qa env re P1
       (seed_feedback P1 (?start s0) (planning_inputs (?start s0))) (?start s0))) = Inr (t, e)"
    by (auto simp: generate_planning_def Let_def bindE_Inr_iff split: if_splits)
  have start: "run_of P1 (?start s0) (?start s0) []" by (rule run_of_still) simp_all
  have "\<exists>ns\<in>{[Complete P1], [Fail P1], [Reject P1]}. run_of P1 (?start s0) u ns"
    if "complete_run P1 planning_done (run_crew_with_qa env re P1
       (seed_feedback P1 (?start s0) (planning_inputs (?start s0))) (?start s0)) = Inr u" for u
    using that by (rule complete_run_run) (rule announcements)
  then obtain ms where "run_of P1 (?start s0) t ms" using leaving_run [OF s0(2) start] by auto
  moreover have "machine (?start s0) = RUNNING_PHASE P1" using detect_skills_kept(2) [of s0 env] s0(1) by (simp add: still_def)
  ultimately show ?thesis using run_machine_reached [of "RUNNING_PHASE P1" ms] by (simp add: run_of_def)
qed

lemma drafted_step: "drafted s \<Longrightarrow> session_step cr key s x = Inr t \<Longrightarrow> drafted t"
proof -
  assume d: "drafted s" and run: "session_step cr key s x = Inr t"
  obtain env op where x: "x = (env, op)" by (cases x)
  have step: "flow_step s (env, op) = Inr t" using run by (simp add: x session_step_def split: if_splits)
  obtain ms where ms: "run_machine (machine s) ms = Inr (machine t)" using flow_step_moved [OF step] by (auto simp: moved_def)
  show "drafted t"
  proof (cases "\<exists>p re dump. op = Generate p re dump")
    case False
    then show ?thesis using review_artifacts [OF step] d run_machine_reached [OF ms] by (simp add: drafted_def)
  next
    case True
    then obtain p re dump e where gen: "generate dump env re p s = Inr (t, e)" using step by (auto simp: bindE_Inr_iff)
    note run = generate_run [OF gen]
    then obtain ns where ns: "run_of p s t ns" by blast
    have "phase_reached (machine t) p"
    proof (cases "machine s = RUNNING_PHASE p")
      case True
      then show ?thesis using run_machine_reached [OF ms] by simp
    next
      case False
      then have start: "p = P1" "machine s = WAITING_FOR_SCOPE" using run by auto
      with gen show ?thesis using planning_started by blast
    qed
    then show ?thesis using ns d run_machine_reached [OF ms] by (metis drafted_def kept_def run_of_def)
  qed
qed

interpretation flow_drafts: step_invariant "session_step cr key" drafted for cr key
  by unfold_locales (rule drafted_step)

lemma reachable_drafted: "drafted (audit_after cr key (new_audit th biz fws sid) xs)"
  unfolding audit_after_def
  by (rule flow_drafts.attempts_inv) (simp add: drafted_def new_audit_def initial_flow_def all_phases)

lemma state_texts:
  "artifact_state ctx p = ''Approved at Gate '' @ phase_digit p \<longleftrightarrow>
     xc_status ctx \<notin> {''QA_REJECTED_PHASE_'' @ phase_digit p, ''RUNNING_PHASE_'' @ phase_digit p,
       ''ERROR_PHASE_'' @ phase_digit p, ''WAITING_HUMAN_GATE_'' @ phase_digit p}"
  "artifact_state ctx p = ''Awaiting human approval at Gate '' @ phase_digit p \<longleftrightarrow>
     xc_status ctx = ''WAITING_HUMAN_GATE_'' @ phase_digit p"
  by (cases p; auto simp: artifact_state_def Let_def em_dash_def)+

lemma reached_passed:
  "phase_reached m p \<Longrightarrow> p \<in> set (gates_passed m) \<longleftrightarrow>
     m \<notin> {QA_REJECTED_PHASE p, RUNNING_PHASE p, ERROR_PHASE p, WAITING_HUMAN_GATE p}"
proof (cases m)
  case (RUNNING_PHASE q)
  then show "phase_reached m p \<Longrightarrow> ?thesis" by (cases p; cases q) auto
next
  case (WAITING_HUMAN_GATE q)
  then show "phase_reached m p \<Longrightarrow> ?thesis" by (cases p; cases q) auto
next
  case (QA_REJECTED_PHASE q)
  then show "phase_reached m p \<Longrightarrow> ?thesis" by (cases p; cases q) auto
next
  case (ERROR_PHASE q)
  then show "phase_reached m p \<Longrightarrow> ?thesis" by (cases p; cases q) auto
next
  case COMPLETED
  then show "phase_reached m p \<Longrightarrow> ?thesis" by (cases p) auto
qed simp

lemma status_is: "status_value m = ''QA_REJECTED_PHASE_'' @ phase_digit p \<longleftrightarrow> m = QA_REJECTED_PHASE p"
  "status_value m = ''RUNNING_PHASE_'' @ phase_digit p \<longleftrightarrow> m = RUNNING_PHASE p"
  "status_value m = ''ERROR_PHASE_'' @ phase_digit p \<longleftrightarrow> m = ERROR_PHASE p"
  "status_value m = ''WAITING_HUMAN_GATE_'' @ phase_digit p \<longleftrightarrow> m = WAITING_HUMAN_GATE p"
  by (metis status_value.simps status_value_inject)+

section \<open>What an export says of its artifact\<close>

text \<open>C11. [exported_state_truthful] An export of an artifact says that the gate approved it exactly when the approval
  of that gate is on the audit's trail, and that it awaits approval exactly when the audit waits at that gate.\<close>

theorem exported_state_truthful:
  assumes "crypto_ok cr" and "s = audit_after cr key (new_audit th biz fws sid) xs"
    and "artifact_of s p \<noteq> None" and "xc_status ctx = status_text s"
  shows "(artifact_state ctx p = ''Approved at Gate '' @ phase_digit p \<longleftrightarrow> gate_label p \<in> set (approvals_in (approval_trail s))) \<and>
     (artifact_state ctx p = ''Awaiting human approval at Gate '' @ phase_digit p \<longleftrightarrow> machine s = WAITING_HUMAN_GATE p)"
proof -
  have inv: "status_text s = status_value (machine s)" "approvals_in (approval_trail s) = map gate_label (gates_passed (machine s))"
    using reachable_inv [OF assms(1)] by (simp_all add: assms(2) flow_inv_def)
  have "phase_reached (machine s) p" using reachable_drafted assms(2,3) by (simp add: drafted_def)
  moreover have "xc_status ctx = status_value (machine s)" using assms(4) inv(1) by simp
  ultimately show ?thesis
    using reached_passed [of "machine s" p] by (simp only: state_texts inv(2) insert_iff empty_iff status_is) auto
qed

lemma exported_state_truthful_witness:
  "artifact_state \<lparr>xc_session_id = ''s'', xc_session_name = ''n'', xc_status = ''WAITING_HUMAN_GATE_1''\<rparr> P1
     = ''Awaiting human approval at Gate 1'' \<and> gate_label P1 \<notin> set (approvals_in (approval_trail demo_drafted))"
proof -
  let ?ctx = "\<lparr>xc_session_id = ''s'', xc_session_name = ''n'', xc_status = ''WAITING_HUMAN_GATE_1''\<rparr>"
  have "status_text demo_drafted = ''WAITING_HUMAN_GATE_1''" using demo_drafted_inv demo_drafted_facts(2) by (simp add: flow_inv_def)
  then have "xc_status ?ctx = status_text demo_drafted" "artifact_of demo_drafted P1 \<noteq> None" by (simp_all add: demo_drafted_facts(3))
  from exported_state_truthful [OF toy_crypto_ok _ this(2,1), of "Some ''k''" "''Access''" "''Payroll''" "[''SOX'']" None "take 2 demo_ops"]
  show ?thesis by (auto simp: demo_drafted_def demo_start_def artifact_state_def)
qed

section \<open>Every stored audit exports\<close>

lemma require_held:
  "holds (api_store st) sid s \<Longrightarrow> \<exists>d. require_session sid st = (st, Inr d)"
  by (auto simp: holds_def require_session_def get_session_def load_sessions_def Let_def)

lemma peek_good:
  assumes inv: "api_inv cr key st" and s: "holds (api_store st) sid s" "flow_good cr key s"
    and live: "\<And>f. map_of (api_flows st) sid = Some f \<Longrightarrow> flow_good cr key f \<and> approval_trail f = approval_trail s"
  shows "\<exists>f. peek_flow env sid st = (st, Inr (Some f)) \<and> flow_good cr key f \<and> approval_trail f = approval_trail s"
proof (cases "map_of (api_flows st) sid")
  case None
  have ok: "status_text s = status_value (machine s)" "artifacts_ok s"
    using s(2) by (auto simp: flow_good_def audit_inv_def flow_inv_def)
  have "same_audit s (reloaded env sid s)"
    by (simp add: same_audit_def reloaded_def restore_skill_context_def detect_skills_def Let_def)
  then have "flow_good cr key (reloaded env sid s)" "approval_trail (reloaded env sid s) = approval_trail s"
    using flow_good_same s(2) by (auto simp: same_audit_def)
  then show ?thesis using None load_holds [OF s(1) ok, of env] by (simp add: peek_flow_def)
next
  case (Some f)
  then show ?thesis using live by (simp add: peek_flow_def)
qed

lemma good_verified:
  assumes f: "flow_good cr key f" and env: "crypto_of env = cr" "trail_key env = key"
    and anchor: "get_trail_anchor sid st = anchor_at [] (approval_trail f) (length (approval_trail f))"
  shows "\<exists>v. verified_trail env sid f st = Inr v \<and> v_status v = STATUS_OK \<and> v_entries v = length (approval_trail f)"
proof (cases "approval_trail f = []")
  case False
  have "flow_inv cr key f" "crypto_ok cr" using f by (auto simp: flow_good_def audit_inv_def)
  from flow_inv_verifies [OF this False order_refl env] anchor show ?thesis
    by (auto simp: verified_trail_def tamper_status_def)
next
  case True
  then show ?thesis
    using anchor by (simp add: verified_trail_def flow_verify_trail_def verify_trail_def anchor_at_def first_chained_def
        verification_result_def trail_head_def tamper_status_def)
qed

lemma stored_loads_audit:
  assumes inv: "api_inv cr key st" and tr: "stored_trail (api_store st) sid = Some tr"
    and env: "crypto_of env = cr" "trail_key env = key"
  shows "\<exists>l. load_audit env sid st = (st, Inr l) \<and> flow_good cr key (ld_flow l) \<and> approval_trail (ld_flow l) = tr \<and>
     v_status (ld_verification l) = STATUS_OK \<and> v_entries (ld_verification l) = length tr \<and>
     xc_status (ld_context l) = status_text (ld_flow l) \<and> xc_session_id (ld_context l) = sid \<and>
     (\<forall>g. map_of (api_flows st) sid = Some g \<longrightarrow> ld_flow l = g)"
proof -
  obtain s where s: "holds (api_store st) sid s" "flow_good cr key s" "approval_trail s = tr"
    "get_trail_anchor sid (api_store st) = anchor_at [] tr (length tr)"
    "\<And>f. map_of (api_flows st) sid = Some f \<Longrightarrow> flow_good cr key f \<and> approval_trail f = tr"
    using stored_good [OF inv tr] by blast
  obtain d where d: "require_session sid st = (st, Inr d)" using require_held [OF s(1)] by blast
  obtain f where f: "peek_flow env sid st = (st, Inr (Some f))" "flow_good cr key f" "approval_trail f = tr"
    using peek_good [OF inv s(1,2)] s(3,5) by metis
  obtain v where "verified_trail env sid f (api_store st) = Inr v" "v_status v = STATUS_OK" "v_entries v = length tr"
    using good_verified [OF f(2) env] s(4) f(3) by blast
  moreover have "map_of (api_flows st) sid = Some g \<Longrightarrow> f = g" for g using f(1) by (simp add: peek_flow_def)
  ultimately show ?thesis using d f by (simp add: load_audit_def)
qed

text \<open>C22. [stored_audits_export] Whatever the service did, no stored audit is refused for export: it loads without
  changing the service, its trail verifies, and its matrix downloads as soon as there is one.\<close>

theorem stored_audits_export:
  assumes "crypto_ok cr" and "st = service_after cr key (new_service l) evs"
    and "stored_trail (api_store st) sid = Some tr" and "crypto_of env = cr" "trail_key env = key"
  shows "\<exists>a. load_audit env sid st = (st, Inr a) \<and> approval_trail (ld_flow a) = tr \<and>
     v_status (ld_verification a) = STATUS_OK \<and> v_entries (ld_verification a) = length tr \<and>
     export_racm illegal env sid st = (st, case racm_plan (ld_flow a) of None \<Rightarrow> Inl (Http 404)
        | Some m \<Rightarrow> Inr (export_filename (ld_context a) ''racm'' ''xlsx'', racm_xlsx illegal (now env) m (ld_context a)))"
proof -
  have "api_inv cr key st" using service_inv [OF assms(1)] assms(2) by simp
  from stored_loads_audit [OF this assms(3-5)] obtain a where "load_audit env sid st = (st, Inr a)"
    "approval_trail (ld_flow a) = tr" "v_status (ld_verification a) = STATUS_OK" "v_entries (ld_verification a) = length tr"
    by blast
  then show ?thesis by (intro exI [of _ a]) (auto simp: export_racm_def split: option.split)
qed

lemma stored_audits_export_witness:
  "\<exists>a. load_audit (demo_flow_env ''d9'') ''s'' demo_planned = (demo_planned, Inr a) \<and>
     v_status (ld_verification a) = STATUS_OK \<and> v_entries (ld_verification a) = 1"
proof -
  obtain x where "stored_trail (api_store demo_planned) ''s'' = Some [x]" using demo_planned_trail by blast
  from stored_audits_export [OF toy_sha_ok _ this, of "Some ''k''" demo_limiter "[demo_create, demo_planning]" "demo_flow_env ''d9''"]
  show ?thesis by (auto simp: demo_planned_def demo_service_def)
qed

section \<open>Workbooks hold no formulas\<close>

definition inert_sheet :: "(char \<Rightarrow> bool) \<Rightarrow> sheet \<Rightarrow> bool" where
  "inert_sheet illegal sh \<longleftrightarrow> (\<forall>row\<in>set (snd sh). \<forall>cell\<in>set row. inert cell \<and> (\<forall>c\<in>set cell. \<not> illegal c \<or> c = CHR 0x27))"

lemma unhandled_Inr: "unhandled x = Inr y \<longleftrightarrow> x = Inr y"
  by (cases x) (simp_all add: unhandled_def)

lemma write_sheet_inert: "inert_sheet illegal (write_sheet illegal title headers rows)"
  using sanitize_cell_inert sanitize_cell_legal by (fastforce simp: inert_sheet_def write_sheet_def)

lemma racm_inert: "\<forall>sh\<in>set (racm_xlsx illegal time m ctx). inert_sheet illegal sh"
  by (simp add: racm_xlsx_def write_sheet_inert)

lemma papers_inert:
  "working_papers_xlsx illegal time check p ctx view m = Inr sheets \<Longrightarrow> \<forall>sh\<in>set sheets. inert_sheet illegal sh"
  by (auto simp: working_papers_xlsx_def Let_def bindE_Inr_iff write_sheet_inert split: option.splits)

text \<open>C35. [downloaded_cells_inert] Whatever a matrix, the working papers or the reviewers' texts hold, no cell of a
  downloaded workbook starts a formula, and none has a character the format forbids (but the quote put in front).\<close>

theorem downloaded_cells_inert:
  assumes "snd (export_racm illegal env sid st) = Inr (filename, sheets) \<or>
     snd (export_working_papers illegal env sid st) = Inr (filename, sheets)"
    and "sh \<in> set sheets" "row \<in> set (snd sh)" "cell \<in> set row"
  shows "(\<forall>c. first_char cell = Some c \<longrightarrow> c \<notin> set FORMULA_PREFIXES) \<and> (\<forall>c\<in>set cell. \<not> illegal c \<or> c = CHR 0x27)"
proof -
  have "\<forall>sh\<in>set sheets. inert_sheet illegal sh"
    using assms(1) racm_inert papers_inert
    by (auto simp: export_racm_def export_working_papers_def Let_def bindE_Inr_iff unhandled_Inr split: prod.splits)
  then have "inert cell" "\<forall>c\<in>set cell. \<not> illegal c \<or> c = CHR 0x27"
    using assms(2-4) by (auto simp: inert_sheet_def)
  then show ?thesis by (auto simp: inert_def first_char_def split: list.splits)
qed

definition no_control :: "char \<Rightarrow> bool" where
  "no_control c = (let n = of_char c :: nat in n < 9 \<or> n = 11 \<or> n = 12 \<or> (14 \<le> n \<and> n < 32))"

lemma downloaded_cells_inert_witness:
  "\<exists>sheets. snd (export_racm no_control (demo_flow_env ''d9'') ''s'' demo_planned) = Inr (''racm-s.xlsx'', sheets) \<and>
     (\<forall>row\<in>set (snd (hd sheets)). \<forall>cell\<in>set row. \<forall>c. first_char cell = Some c \<longrightarrow> c \<notin> set FORMULA_PREFIXES)"
proof -
  obtain f where f: "only_audit f demo_planned" "racm_plan f = Some demo_racm" using demo_planned_service by blast
  have live: "map_of (api_flows demo_planned) ''s'' = Some f" using f(1) by (simp add: only_audit_def)
  obtain x where x: "stored_trail (api_store demo_planned) ''s'' = Some [x]" using demo_planned_trail by blast
  obtain a where a: "load_audit (demo_flow_env ''d9'') ''s'' demo_planned = (demo_planned, Inr a)"
    "ld_flow a = f" "xc_session_id (ld_context a) = ''s''"
    using stored_loads_audit [OF demo_planned_inv x, of "demo_flow_env ''d9''"] live by auto
  then have down: "snd (export_racm no_control (demo_flow_env ''d9'') ''s'' demo_planned) =
      Inr (''racm-s.xlsx'', racm_xlsx no_control (now (demo_flow_env ''d9'')) demo_racm (ld_context a))"
    using a f(2) by (simp add: export_racm_def export_filename_def slug_def)
  then have "snd (export_racm no_control (demo_flow_env ''d9'') ''s'' demo_planned) = Inr (''racm-s.xlsx'', racm_xlsx no_control (now (demo_flow_env ''d9'')) demo_racm (ld_context a)) \<or>
      snd (export_working_papers no_control (demo_flow_env ''d9'') ''s'' demo_planned) = Inr (''racm-s.xlsx'', racm_xlsx no_control (now (demo_flow_env ''d9'')) demo_racm (ld_context a))" by (rule disjI1)
  note inert = downloaded_cells_inert [OF this]
  have "hd (racm_xlsx no_control (now (demo_flow_env ''d9'')) demo_racm (ld_context a)) \<in>
      set (racm_xlsx no_control (now (demo_flow_env ''d9'')) demo_racm (ld_context a))" by (simp add: racm_xlsx_def)
  with inert down show ?thesis by blast
qed

section \<open>Tables keep their columns\<close>

definition nine_columns :: "string \<Rightarrow> bool" where
  "nine_columns row \<longleftrightarrow> bare_pipes None row = 10 \<and> CHR 0x0A \<notin> set row"

lemma table_row_nine: "length cells = 9 \<Longrightarrow> nine_columns (table_row cells)"
  using table_row_columns [of cells] by (fastforce simp: nine_columns_def)

lemma collectE_rows:
  assumes "collectE (\<lambda>d. bindE (g d) (\<lambda>e. Inr [h d e])) xs = Inr rows"
  shows "length rows = length xs \<and> (\<forall>row\<in>set rows. \<exists>d e. row = h d e)"
  using assms by (induction xs arbitrary: rows) (auto simp: bindE_Inr_iff, blast)

lemma decided_section:
  assumes "filter (\<lambda>d. dv_decision d \<noteq> None) (ev_deficiencies v) \<noteq> []"
  shows "\<exists>a b. deficiency_section r ctx (Some v) =
    bindE (collectE (\<lambda>d. bindE (of_option KeyError (map_of (evaluation_by_id r) (dv_id d))) (\<lambda>e.
      Inr [table_row (decided_cells d e)])) (ev_deficiencies v)) (\<lambda>rows. Inr ([a, [], b, []] @ DEFICIENCY_HEAD @ rows @ [[]]))"
  unfolding deficiency_section_def Let_def option.case if_not_P [OF assms] by (intro exI) (rule refl)

text \<open>Whatever the crew and the reviewers wrote, the deficiency table of a report has
  one row per deficiency, each on one line with the nine columns of the heading.\<close>

lemma deficiency_table_aligned:
  assumes "deficiency_section r ctx view = Inr ls" and "deficiency_evaluations r \<noteq> []"
  shows "\<exists>lead rows. ls = lead @ DEFICIENCY_HEAD @ rows @ [[]] \<and> length lead = 4 \<and> (\<forall>row\<in>set rows. nine_columns row) \<and>
     (length rows = length (deficiency_evaluations r) \<or> (\<exists>v. view = Some v \<and> length rows = length (ev_deficiencies v)))"
proof -
  have drafts: "\<exists>lead rows. proposed_deficiency_section r ctx = lead @ DEFICIENCY_HEAD @ rows @ [[]] \<and> length lead = 4 \<and>
      (\<forall>row\<in>set rows. nine_columns row) \<and> length rows = length (deficiency_evaluations r)"
    using assms(2) table_row_nine [of "proposed_cells e" for e]
    by (intro exI [of _ "take 4 (proposed_deficiency_section r ctx)"] exI [of _ "map (\<lambda>e. table_row (proposed_cells e)) (deficiency_evaluations r)"])
       (auto simp: proposed_deficiency_section_def proposed_cells_def Let_def)
  show ?thesis
  proof (cases "\<exists>v. view = Some v \<and> filter (\<lambda>d. dv_decision d \<noteq> None) (ev_deficiencies v) \<noteq> []")
    case False
    then have "ls = proposed_deficiency_section r ctx"
      using assms(1) by (auto simp: deficiency_section_def Let_def split: option.splits)
    then show ?thesis using drafts by blast
  next
    case True
    then obtain v where view: "view = Some v" "filter (\<lambda>d. dv_decision d \<noteq> None) (ev_deficiencies v) \<noteq> []" by blast
    from decided_section [OF view(2), of r ctx] obtain a b where "deficiency_section r ctx view =
      bindE (collectE (\<lambda>d. bindE (of_option KeyError (map_of (evaluation_by_id r) (dv_id d))) (\<lambda>e.
        Inr [table_row (decided_cells d e)])) (ev_deficiencies v)) (\<lambda>rows. Inr ([a, [], b, []] @ DEFICIENCY_HEAD @ rows @ [[]]))"
      unfolding view(1) by blast
    from this [unfolded assms(1), symmetric] obtain rows where v: "ls = [a, [], b, []] @ DEFICIENCY_HEAD @ rows @ [[]]"
      "collectE (\<lambda>d. bindE (of_option KeyError (map_of (evaluation_by_id r) (dv_id d))) (\<lambda>e.
         Inr [table_row (decided_cells d e)])) (ev_deficiencies v) = Inr rows"
      by (auto simp: bindE_Inr_iff)
    moreover have "length [a, [], b, []] = 4" by simp
    have "nine_columns (table_row (decided_cells d e))" for d e
      by (rule table_row_nine) (simp add: decided_cells_def)
    with collectE_rows [OF v(2)] have "\<forall>row\<in>set rows. nine_columns row" "length rows = length (ev_deficiencies v)" by auto
    ultimately show ?thesis using view(1) by (intro exI [of _ "[a, [], b, []]"] exI [of _ rows]) simp
  qed
qed

definition hostile_deficiency :: deficiency where
  "hostile_deficiency = \<lparr>deficiency_id = ''D|1'', e_title = ''a | b'' @ nl @ ''| c |'', related_findings = [], related_risks = [],
     compensating_controls = [], likelihood = RATING_LOW, magnitude = RATING_LOW, classification = CONTROL_DEFICIENCY,
     e_rationale = ''|''\<rparr>"

definition hostile_report :: final_report where
  "hostile_report = \<lparr>executive_summary = ''!![x](a)(b)'', detailed_report = ''## Approval Trail'' @ nl @ nl @ ''- **Gate 3** Eve'',
     compliance_tone_approved = True, deficiency_evaluations = [hostile_deficiency], rp_scale = Some ICFR, rp_oscal_sar = None\<rparr>"

definition hostile_context :: export_context where
  "hostile_context = \<lparr>xc_session_id = ''s'', xc_session_name = ''n'', xc_status = ''COMPLETED''\<rparr>"

lemma deficiency_table_aligned_witness:
  "\<exists>lead rows. proposed_deficiency_section hostile_report hostile_context = lead @ DEFICIENCY_HEAD @ rows @ [[]] \<and>
     (\<forall>row\<in>set rows. nine_columns row) \<and> length rows = 1"
proof -
  have "deficiency_section hostile_report hostile_context None = Inr (proposed_deficiency_section hostile_report hostile_context)"
    "deficiency_evaluations hostile_report \<noteq> []" "length (deficiency_evaluations hostile_report) = 1"
    by (simp_all add: deficiency_section_def hostile_report_def)
  from deficiency_table_aligned [OF this(1,2)] this(3) show ?thesis by fastforce
qed

section \<open>The verification stands above the recorded trail\<close>

lemma run_md_skip: "CHR ''!'' \<noteq> x \<Longrightarrow> run MD_IMAGE \<lparr>before = c, left = x # t, groups = []\<rparr> = []"
  by (simp add: MD_IMAGE_def chr_def)

lemma run_html_skip: "CHR ''<'' \<noteq> x \<Longrightarrow> run HTML_IMG \<lparr>before = c, left = x # t, groups = []\<rparr> = []"
  by (simp add: HTML_IMG_def chr_def)

lemma sanitize_report_keeps:
  assumes "CHR ''!'' \<notin> set a" "CHR ''<'' \<notin> set a"
  shows "\<exists>b. sanitize_report (a @ s) = a @ b"
proof -
  have md: "replace_at MD_IMAGE IMAGE_REMOVED c (a @ s) = a @ replace_at MD_IMAGE IMAGE_REMOVED (last_char c a) s" for c s
    using assms(1) by (induction a arbitrary: c) (simp_all add: replace_at_skip run_md_skip last_char_def)
  have html: "replace_at HTML_IMG IMAGE_REMOVED c (a @ s) = a @ replace_at HTML_IMG IMAGE_REMOVED (last_char c a) s" for c s
    using assms(2) by (induction a arbitrary: c) (simp_all add: replace_at_skip run_html_skip last_char_def)
  show ?thesis by (simp add: sanitize_report_def replace_all_def md html)
qed

definition plain_line :: "string \<Rightarrow> bool" where
  "plain_line s \<longleftrightarrow> CHR 0x0A \<notin> set s \<and> (\<exists>c t. s = c # t \<and> c \<noteq> CHR ''#'')"

lemma to_line_one: "CHR 0x0A \<notin> set (to_line v)"
  using to_line_chars [of "CHR 0x0A" v] by (auto simp: is_space_def)

lemma sanitize_report_line: "CHR 0x0A \<notin> set s \<Longrightarrow> CHR 0x0A \<notin> set (sanitize_report s)"
  using sanitize_report_chars [of s] by (auto simp: IMAGE_REMOVED_def)

lemma trail_line_plain: "plain_line (trail_line e)"
proof -
  have "CHR 0x0A \<notin> set (trail_text e)" by (simp add: trail_text_def Let_def to_line_one em_dash_def)
  then have "CHR 0x0A \<notin> set (trail_line e)" unfolding trail_line_def by (intro sanitize_report_line) simp
  moreover obtain b where "trail_line e = ''- **'' @ b"
    using sanitize_report_keeps [of "''- **''" "trail_text e"] unfolding trail_line_def by auto
  ultimately show ?thesis by (simp add: plain_line_def)
qed

lemma trail_lines_plain: "\<forall>l\<in>set (trail_lines tr). plain_line l"
  by (simp add: trail_lines_def trail_line_plain) (simp add: plain_line_def)

text \<open>\<open>rsplit\<close> finds the separator that has no other behind it.\<close>

lemma rsplit_none: "sep \<noteq> [] \<Longrightarrow> rsplit_once sep s = None \<longleftrightarrow> (\<forall>t. suffix t s \<longrightarrow> \<not> prefix sep t)"
proof (induction s)
  case (Cons c s)
  then show ?case by (cases "rsplit_once sep s") (auto simp: suffix_Cons)
qed auto

lemma rsplit_last:
  assumes "sep \<noteq> []" and none: "rsplit_once sep (tl (sep @ b)) = None"
  shows "rsplit_once sep (a @ sep @ b) = Some (a, b)"
proof (induction a)
  case Nil
  obtain c s where sep: "sep = c # s" using assms(1) by (cases sep) auto
  have "prefix sep (c # tl (sep @ b))" by (simp add: sep)
  then show ?case using none by (simp add: sep)
qed simp

text \<open>No line of the text starts with a hash, but perhaps the first.\<close>

fun no_headings :: "string \<Rightarrow> bool" where
  "no_headings [] = True"
| "no_headings (c # s) \<longleftrightarrow> \<not> (c = CHR 0x0A \<and> first_char s = Some CHR ''#'') \<and> no_headings s"

lemma no_headings_suffix: "no_headings s \<Longrightarrow> suffix t s \<Longrightarrow> no_headings t"
  by (induction s) (auto simp: suffix_Cons)

lemma no_headings_line: "CHR 0x0A \<notin> set a \<Longrightarrow> no_headings (a @ s) = no_headings s"
  by (induction a) auto

lemma no_headings_lines: "\<forall>l\<in>set ls. plain_line l \<Longrightarrow> no_headings (join_with nl ls @ nl)"
proof (induction nl ls rule: join_with.induct)
  case (2 x)
  then show ?case by (simp add: plain_line_def no_headings_line nl_def first_char_def)
next
  case (3 x y ys)
  have "first_char (join_with nl (y # ys) @ nl) \<noteq> Some CHR ''#''"
    using 3(2) by (cases ys) (auto simp: plain_line_def first_char_def)
  with 3 show ?case by (simp add: plain_line_def no_headings_line) (simp add: nl_def)
qed (simp add: nl_def first_char_def)

lemma no_headings_none: "no_headings s \<Longrightarrow> rsplit_once TRAIL_HEADING s = None"
proof -
  assume s: "no_headings s"
  have "\<not> prefix TRAIL_HEADING t" if "suffix t s" for t
    using no_headings_suffix [OF s that] by (auto simp: prefix_def TRAIL_HEADING_def nl_def first_char_def)
  moreover have "TRAIL_HEADING \<noteq> []" by (simp add: TRAIL_HEADING_def)
  ultimately show ?thesis using rsplit_none by blast
qed

lemma trail_body_none: "rsplit_once TRAIL_HEADING (tl (TRAIL_HEADING @ join_with nl (trail_lines tr) @ nl)) = None"
proof (rule no_headings_none)
  let ?body = "join_with nl (trail_lines tr) @ nl"
  have plain: "\<forall>l\<in>set (trail_lines tr). plain_line l" by (rule trail_lines_plain)
  obtain l ls where ls: "trail_lines tr = l # ls" by (cases tr) (auto simp: trail_lines_def)
  have "first_char ?body \<noteq> Some CHR ''#''" using plain by (cases ls) (auto simp: ls plain_line_def first_char_def)
  then have "no_headings (nl @ nl @ ?body)" using no_headings_lines [OF plain] by (simp add: nl_def first_char_def)
  then show "no_headings (tl (TRAIL_HEADING @ ?body))"
    using no_headings_line [of "''## Approval Trail''" "nl @ nl @ ?body"] by (simp add: TRAIL_HEADING_def nl_def)
qed

lemma join_append: "as \<noteq> [] \<Longrightarrow> bs \<noteq> [] \<Longrightarrow> join_with sep (as @ bs) = join_with sep as @ sep @ join_with sep bs"
proof (induction sep as rule: join_with.induct)
  case (2 sep x)
  then show ?case by (cases bs) auto
qed auto

text \<open>Whatever the crew wrote into the report, its verification line is inserted right
  above the recorded trail, which has one line per entry; a trail section forged in the text stays without one.\<close>

lemma verification_above_trail:
  assumes "report_markdown r tr ctx view = Inr markdown"
  shows "\<exists>above. markdown = above @ TRAIL_HEADING @ join_with nl (trail_lines tr) @ nl \<and>
     with_trail_line markdown status detail =
       above @ TRAIL_HEADING @ verification_line status detail @ nl @ nl @ join_with nl (trail_lines tr) @ nl \<and>
     length (trail_lines tr) = max 1 (length tr) \<and> (\<forall>l\<in>set (trail_lines tr). CHR 0x0A \<notin> set l)"
proof -
  obtain evaluation where "markdown = join_with nl (report_head r ctx view evaluation @ [''## Approval Trail'', []] @ trail_lines tr) @ nl"
    using assms by (auto simp: report_markdown_def bindE_Inr_iff)
  moreover have "report_head r ctx view evaluation \<noteq> []" by (simp add: report_head_def Let_def)
  moreover have "trail_lines tr \<noteq> []" by (simp add: trail_lines_def)
  ultimately have md: "markdown = join_with nl (report_head r ctx view evaluation) @ TRAIL_HEADING @ join_with nl (trail_lines tr) @ nl"
    using join_append [of "[''## Approval Trail'', []]" "trail_lines tr" nl] by (simp add: join_append TRAIL_HEADING_def)
  have "TRAIL_HEADING \<noteq> []" by (simp add: TRAIL_HEADING_def)
  from rsplit_last [OF this trail_body_none] md
  have "with_trail_line markdown status detail = join_with nl (report_head r ctx view evaluation) @ TRAIL_HEADING @
      verification_line status detail @ nl @ nl @ join_with nl (trail_lines tr) @ nl"
    by (simp add: with_trail_line_def Let_def)
  moreover have "length (trail_lines tr) = max 1 (length tr)" by (cases tr) (simp_all add: trail_lines_def)
  ultimately show ?thesis
    using md trail_lines_plain
    by (intro exI [of _ "join_with nl (report_head r ctx view evaluation)"]) (simp add: plain_line_def)
qed

lemma verification_above_trail_witness:
  "\<exists>above markdown. report_markdown hostile_report [] hostile_context None = Inr markdown \<and>
     with_trail_line markdown STATUS_OK ''fine'' = above @ TRAIL_HEADING @ verification_line STATUS_OK ''fine'' @ nl @ nl @
       ''No approvals recorded.'' @ nl"
proof -
  obtain markdown where m: "report_markdown hostile_report [] hostile_context None = Inr markdown"
    by (simp add: report_markdown_def deficiency_section_def)
  from verification_above_trail [OF this, of STATUS_OK "''fine''"] m show ?thesis by (auto simp: trail_lines_def)
qed

section \<open>Images\<close>

text \<open>C36. [html_images_removed] No HTML image is left in sanitised text, but a Markdown image that is nested in the right
  way comes out as an image: the marker that replaces the inner one completes the outer one.\<close>

theorem html_images_removed:
  "\<not> found HTML_IMG (sanitize_report s) \<and>
   sanitize_report ''!![x](a)(http://e.test/p)'' = ''![Image removed for security](http://e.test/p)'' \<and>
   found MD_IMAGE (sanitize_report ''!![x](a)(http://e.test/p)'')"
proof (intro conjI no_html_image)
  show "sanitize_report ''!![x](a)(http://e.test/p)'' = ''![Image removed for security](http://e.test/p)''" by code_simp
  then show "found MD_IMAGE (sanitize_report ''!![x](a)(http://e.test/p)'')" by simp code_simp
qed

section \<open>Exported results are those of record\<close>

lemma firsts_distinct: "distinct (map key xs) \<Longrightarrow> key ` set xs \<inter> set seen = {} \<Longrightarrow> firsts key seen xs = xs"
proof (induction xs arbitrary: seen)
  case (Cons x xs)
  then have "key ` set xs \<inter> set (key x # seen) = {}" by auto
  with Cons show ?case by simp
qed simp

lemma view_finding_of:
  assumes v: "view_of cr ctx ds required = Inr v" and p: "x_papers ctx = Some p"
    and ids: "distinct (map f_control_id (findings p))" and f: "f \<in> set (findings p)"
  shows "\<exists>fv. view_finding v (f_control_id f) = Some fv \<and> finding_view_of ctx (active_by_slot cr ctx ds) f = Inr fv \<and>
     f \<in> set (firsts f_control_id [] (context_findings ctx))"
proof -
  have all: "firsts f_control_id [] (context_findings ctx) = findings p"
    using firsts_distinct [OF ids, of "[]"] by (simp add: context_findings_def p)
  note views = view_findings(1) [OF v, unfolded all]
  have cid: "fv_control_id fv = f_control_id g" if "finding_view_of ctx (active_by_slot cr ctx ds) g = Inr fv" for g fv
    using that by (auto simp: finding_view_of_def Let_def bindE_Inr_iff split: prod.splits)
  obtain fv where fv: "fv \<in> set (ev_findings v)" "finding_view_of ctx (active_by_slot cr ctx ds) f = Inr fv"
    using list_all2_set1 [OF views f] by blast
  have "find (\<lambda>x. fv_control_id x = f_control_id f) (ev_findings v) = Some fv"
  proof (rule find_unique)
    fix x assume x: "x \<in> set (ev_findings v)" "fv_control_id x = f_control_id f"
    then obtain g where g: "g \<in> set (findings p)" "finding_view_of ctx (active_by_slot cr ctx ds) g = Inr x"
      using list_all2_set2 [OF views] by blast
    then have "g = f" using cid [OF g(2)] x(2) f ids by (metis distinct_map inj_onD)
    with g(2) fv(2) show "x = fv" by simp
  qed (use fv cid in auto)
  with fv(2) f show ?thesis by (simp add: view_finding_def all)
qed

lemma shown_exception:
  assumes rec: "recorded_on cr cs ds" "drafts_distinct cr cs ctx" and v: "view_of cr ctx ds required = Inr v"
    and p: "x_papers ctx = Some p" "papers_ok p" "distinct (map f_control_id (findings p))" and f: "f \<in> set (findings p)"
  shows "shown_result (view_finding v (f_control_id f)) f = ''Exception'' \<longleftrightarrow> f_result f = Some EXCEPTION"
proof -
  obtain fv where fv: "view_finding v (f_control_id f) = Some fv" "finding_view_of ctx (active_by_slot cr ctx ds) f = Inr fv"
    "f \<in> set (firsts f_control_id [] (context_findings ctx))"
    using view_finding_of [OF v p(1,3) f] by blast
  have ok: "finding_ok f" using p(2) f by (simp add: papers_ok_def)
  have "result_value r = ''Exception'' \<longleftrightarrow> r = EXCEPTION" for r by (cases r) simp_all
  then show ?thesis
    using finding_view_exception [OF rec ok fv(3,2)] by (auto simp: shown_result_def fv(1) draft_conclusions_def result_text_def split: option.splits)
qed

lemma sanitize_exception:
  assumes "\<And>c. illegal c \<Longrightarrow> of_char c < (32 :: nat)" and "r \<in> {''Exception'', ''No exception'', ''Not tested''}"
  shows "sanitize_cell illegal r = r"
proof -
  have legal: "\<not> illegal c" if "c \<in> set r" for c
    using assms(1) [of c] assms(2) that by auto
  then have "filter (\<lambda>c. \<not> illegal c) r = r" by (intro filter_True) simp
  moreover have "r \<noteq> [] \<and> hd r \<notin> set FORMULA_PREFIXES" using assms(2) by (auto simp: FORMULA_PREFIXES_def)
  ultimately show ?thesis by (cases r) (simp_all add: sanitize_cell_def)
qed

lemma paper_row_shape:
  "paper_row check view mixed f = Inr r \<Longrightarrow>
     length r = 19 \<and> r ! 6 = shown_result (Option.bind view (\<lambda>v. view_finding v (f_control_id f))) f"
  by (auto simp: paper_row_def Let_def bindE_Inr_iff)



text \<open>With two findings on one control the second is exported under the conclusions of the first.\<close>

lemma duplicate_exported_clean:
  assumes "view_of toy_crypto (flow_context (demo_gate_2 [demo_clean, demo_exception])) [] True = Inr v"
  shows "shown_result (view_finding v (f_control_id demo_exception)) demo_exception = ''No exception'' \<and>
     f_result demo_exception = Some EXCEPTION"
  using assms
  by (auto simp: shown_result_def view_finding_def demo_gate_2_def demo_clean_def demo_exception_def demo_finding_def view_of_def
      flow_context_def initial_flow_def finding_views_def context_findings_def finding_view_of_def effective_conclusions_def
      decision_states_def active_by_slot_def deficiency_views_def context_evaluations_def Let_def draft_conclusions_def
      active_review_def derive_result_def or_zero_def dict_get_or_def simp del: tod_value.simps toe_value.simps)

end
