(* ===== verification/OriginCheck.thy ===== *)
theory OriginCheck
  imports CleanText
begin

text \<open>
  The check against cross-site requests: \<open>src/api/origin_check.py\<close>. Header names are looked up without
  regard to case, so the headers are a function; \<open>bracket_host\<close> is the check of \<open>urlsplit\<close> on a host in
  brackets.
\<close>

definition STATE_CHANGING_METHODS :: "string list" where
  "STATE_CHANGING_METHODS = [''POST'', ''PUT'', ''PATCH'', ''DELETE'']"

text \<open>\<open>raw.split(",")\<close>\<close>

fun split_at :: "char \<Rightarrow> string \<Rightarrow> string \<Rightarrow> string list" where
  "split_at sep acc [] = [rev acc]"
| "split_at sep acc (c # s) = (if c = sep then rev acc # split_at sep [] s else split_at sep (c # acc) s)"

definition allowed_origins_from_env :: "string option \<Rightarrow> string list" where
  "allowed_origins_from_env raw =
     filter (\<lambda>o'. o' \<noteq> [] \<and> o' \<noteq> ''*'')
       (map strip (split_at CHR '','' [] (case raw of None \<Rightarrow> ''http://localhost:5173'' | Some r \<Rightarrow> r)))"

definition normalise_origin :: "string \<Rightarrow> string" where
  "normalise_origin v = lower (rev (dropWhile (\<lambda>c. c = CHR ''/'') (rev (strip v))))"

text \<open>\<open>urlsplit(url).netloc\<close>, None for a \<open>ValueError\<close>.\<close>

definition scheme_char :: "char \<Rightarrow> bool" where
  "scheme_char c = (let n = of_char c :: nat in
     (97 \<le> n \<and> n \<le> 122) \<or> (65 \<le> n \<and> n \<le> 90) \<or> (48 \<le> n \<and> n \<le> 57) \<or> c \<in> set ''+-.'')"

definition alpha_char :: "char \<Rightarrow> bool" where
  "alpha_char c = (let n = of_char c :: nat in (97 \<le> n \<and> n \<le> 122) \<or> (65 \<le> n \<and> n \<le> 90))"

definition after_scheme :: "string \<Rightarrow> string" where
  "after_scheme url =
     (let scheme = takeWhile (\<lambda>c. c \<noteq> CHR '':'') url in
      if length scheme < length url \<and> scheme \<noteq> [] \<and> alpha_char (hd scheme) \<and> (\<forall>c\<in>set scheme. scheme_char c)
      then drop (length scheme + 1) url else url)"

definition url_netloc :: "(string \<Rightarrow> bool) \<Rightarrow> string \<Rightarrow> string option" where
  "url_netloc bracket_host v =
     (let url = filter (\<lambda>c. c \<notin> {CHR 0x09, CHR 0x0A, CHR 0x0D}) (dropWhile (\<lambda>c. (of_char c :: nat) \<le> 32) v);
          rest = after_scheme url in
      if take 2 rest \<noteq> ''//'' then Some []
      else let netloc = takeWhile (\<lambda>c. c \<notin> set ''/?#'') (drop 2 rest) in
        if (CHR ''['' \<in> set netloc) \<noteq> (CHR '']'' \<in> set netloc) then None
        else if CHR ''['' \<in> set netloc \<and> \<not> bracket_host netloc then None
        else Some netloc)"

definition is_request_allowed ::
  "(string \<Rightarrow> bool) \<Rightarrow> string \<Rightarrow> (string \<Rightarrow> string option) \<Rightarrow> string list \<Rightarrow> bool" where
  "is_request_allowed bracket_host request_method headers allowed =
     (if upper request_method \<notin> set STATE_CHANGING_METHODS then True
      else
        let fetch_site = lower (strip (case headers ''sec-fetch-site'' of None \<Rightarrow> [] | Some v \<Rightarrow> v)) in
        case headers ''origin'' of
          Some origin \<Rightarrow>
            (let normalised = normalise_origin origin in
             if normalised \<in> normalise_origin ` set allowed then True
             else if normalised = ''null'' \<or> normalised = [] then False
             else if fetch_site = ''same-origin'' then True
             else
               let host = lower (strip (case headers ''host'' of None \<Rightarrow> [] | Some v \<Rightarrow> v)) in
               case url_netloc bracket_host normalised of
                 None \<Rightarrow> False
               | Some origin_host \<Rightarrow> host \<noteq> [] \<and> origin_host = host)
        | None \<Rightarrow> fetch_site \<in> {[], ''same-origin'', ''none''})"

text \<open>The wildcard is never in the list, and what the browser says is cross-site is refused unless it is listed.\<close>

lemma no_wildcard: "''*'' \<notin> set (allowed_origins_from_env raw)" "[] \<notin> set (allowed_origins_from_env raw)"
  by (simp_all add: allowed_origins_from_env_def)

lemma cross_site_refused:
  assumes "upper request_method \<in> set STATE_CHANGING_METHODS"
    and "headers ''sec-fetch-site'' = Some ''cross-site''"
    and "case headers ''origin'' of None \<Rightarrow> True
      | Some v \<Rightarrow> normalise_origin v \<notin> normalise_origin ` set allowed \<and>
          (\<forall>h n. headers ''host'' = Some h \<longrightarrow> url_netloc bracket_host (normalise_origin v) = Some n \<longrightarrow> n \<noteq> lower (strip h))"
  shows "\<not> is_request_allowed bracket_host request_method headers allowed"
proof -
  have "lower (strip ''cross-site'') = ''cross-site''" by (simp add: strip_def lstrip_def is_space_def lower_char_def)
  with assms show ?thesis
    by (auto simp: is_request_allowed_def Let_def strip_def lstrip_def split: option.splits)
qed

end
