(* ===== verification/OscalParts.thy ===== *)
theory OscalParts
  imports ReportText Sessions
begin

text \<open>
  The parts of the OSCAL Assessment Results document: \<open>src/swarm/oscal_ar.py\<close> up to the builder, with its
  inputs, times, evidence, parties and reviewed controls. The document is a JSON value. \<open>oe_uuid5\<close> is
  \<open>uuid.uuid5\<close> under the root of the project, \<open>oe_instant\<close> is \<open>datetime.fromisoformat\<close> with
  \<open>astimezone(UTC)\<close>: the instant and its ISO text, None for a \<open>ValueError\<close>; \<open>oe_now\<close> is the clock.
\<close>

section \<open>Inputs\<close>

text \<open>A time is the instant with its text.\<close>

type_synonym utc_time = "int \<times> string"

record evidence_meta =
  em_collected :: "utc_time option"
  em_source :: string

record oscal_env =
  oe_uuid5 :: "string \<Rightarrow> string"
  oe_instant :: "string \<Rightarrow> utc_time option"
  oe_now :: string
  oe_markup :: "string \<Rightarrow> string"
  oe_lookup :: "string \<Rightarrow> evidence_meta option"
  oe_check :: "(string \<Rightarrow> string \<Rightarrow> raised + bool) option"

text \<open>
  The arguments of \<open>build_assessment_results\<close>. \<open>oi_digest\<close> is \<open>_digest\<close> of the artifacts and decisions, the SHA-256 of
  their texts as Pydantic prints them.
\<close>

record oscal_input =
  oi_session_id :: string
  oi_session_name :: string
  oi_status :: string
  oi_report_state :: string
  oi_theme :: string
  oi_report :: final_report
  oi_papers :: working_papers
  oi_racm :: "racm option"
  oi_trail :: trail
  oi_prepared_by :: string
  oi_view :: "effective_view option"
  oi_digest :: string

section \<open>Values\<close>

definition OSCAL_VERSION :: string where "OSCAL_VERSION = ''1.2.1''"

definition PROJECT_NS :: string where
  "PROJECT_NS = ''https://github.com/tvobrachini/grc-audit-swarm/ns/oscal''"

definition XLSX :: string where
  "XLSX = ''application/vnd.openxmlformats-officedocument.spreadsheetml.sheet''"

definition element_uuid :: "oscal_env \<Rightarrow> oscal_input \<Rightarrow> string list \<Rightarrow> string" where
  "element_uuid env x parts = oe_uuid5 env (join_with ''/'' (oi_session_id x # parts))"

definition alpha_letter :: "char \<Rightarrow> bool" where
  "alpha_letter c \<longleftrightarrow> c \<in> set ''ABCDEFGHIJKLMNOPQRSTUVWXYZabcdefghijklmnopqrstuvwxyz''"

definition token_char :: "char \<Rightarrow> bool" where
  "token_char c \<longleftrightarrow> c \<in> set ''ABCDEFGHIJKLMNOPQRSTUVWXYZabcdefghijklmnopqrstuvwxyz0123456789._-''"

text \<open>\<open>_NOT_TOKEN_CHAR.sub("_", ...)\<close> replaces characters, not bytes.\<close>

definition token :: "string \<Rightarrow> string" where
  "token v =
     (let cs = filter (\<lambda>c. \<not> continuation c) (to_line v); t0 = map (\<lambda>c. if token_char c then c else CHR ''_'') cs;
          t = (if t0 = [] then ''_'' else t0) in
      if alpha_letter (hd t) \<or> hd t = CHR ''_'' then t else CHR ''_'' # t)"

definition oscal_prop :: "string \<Rightarrow> string \<Rightarrow> json" where
  "oscal_prop n v = JObj [(''name'', JStr n), (''ns'', JStr PROJECT_NS), (''value'', JStr (to_line v))]"

definition oscal_props :: "(string \<times> string) list \<Rightarrow> json list" where
  "oscal_props pairs = map (\<lambda>(n, v). oscal_prop n v) (filter (\<lambda>(n, v). to_line v \<noteq> []) pairs)"

definition true_false :: "bool option \<Rightarrow> string" where
  "true_false v = (case v of None \<Rightarrow> [] | Some b \<Rightarrow> if b then ''true'' else ''false'')"

definition oscal_datetime :: "oscal_env \<Rightarrow> string \<Rightarrow> utc_time option" where
  "oscal_datetime env v =
     (let t = to_line v in
      if t = [] then None
      else oe_instant env (concat (map (\<lambda>c. if c = CHR ''Z'' then ''+00:00'' else [c]) t)))"

abbreviation time_text :: "utc_time option \<Rightarrow> string" where
  "time_text \<equiv> or_blank snd"

text \<open>An object with the keys that are set.\<close>

definition given_keys :: "(string \<times> json option) list \<Rightarrow> (string \<times> json) list" where
  "given_keys ps = concat (map (\<lambda>(k, v). case v of None \<Rightarrow> [] | Some j \<Rightarrow> [(k, j)]) ps)"

definition unless_empty :: "json list \<Rightarrow> json option" where
  "unless_empty xs = (if xs = [] then None else Some (JList xs))"

section \<open>Evidence\<close>

definition json_line :: "json option \<Rightarrow> string" where
  "json_line v = (case v of None \<Rightarrow> [] | Some JNull \<Rightarrow> [] | Some j \<Rightarrow> to_line (py_str j))"

text \<open>\<open>vault_metadata\<close>: the id is a UUID, so its file is in the vault's directory.\<close>

definition vault_metadata :: "(string \<Rightarrow> utc_time option) \<Rightarrow> vault \<Rightarrow> string \<Rightarrow> evidence_meta option" where
  "vault_metadata datetime_of v vid =
     (if \<not> is_uuid vid then None
      else case map_of v vid of
        Some (File (JObj r)) \<Rightarrow>
          Some \<lparr>em_collected = datetime_of (json_line (map_of r ''timestamp'')), em_source = json_line (map_of r ''mcp_source'')\<rparr>
      | _ \<Rightarrow> None)"

definition cited :: "oscal_input \<Rightarrow> string list" where
  "cited x = firsts (\<lambda>v. v) [] (filter (\<lambda>v. v \<noteq> []) (map (\<lambda>f. to_line (vault_id_reference f)) (findings (oi_papers x))))"

definition evidence_uuid :: "oscal_env \<Rightarrow> oscal_input \<Rightarrow> string \<Rightarrow> string" where
  "evidence_uuid env x vid = element_uuid env x [''evidence'', vid]"

definition evidence_resource :: "oscal_env \<Rightarrow> oscal_input \<Rightarrow> string \<Rightarrow> json" where
  "evidence_resource env x vid =
     (let m = oe_lookup env vid in JObj
      [(''uuid'', JStr (evidence_uuid env x vid)),
       (''title'', JStr (oe_markup env (''Evidence vault record '' @ vid))),
       (''description'', JStr (oe_markup env
          (if m \<noteq> None then ''Raw evidence collected by a read-only tool and stored in the project'' @ q1 @ ''s evidence vault with an integrity digest. The payload is not embedded in this document.''
           else ''The working paper cites this vault ID, but no such record was found in the evidence vault at export time.''))),
       (''props'', JList (oscal_props
          [(''vault-id'', vid), (''evidence-source'', or_blank em_source m),
           (''collected'', or_blank (\<lambda>e. time_text (em_collected e)) m),
           (''vault-record-found'', true_false (Some (m \<noteq> None)))]))])"

definition evidence_times :: "oscal_env \<Rightarrow> oscal_input \<Rightarrow> utc_time list" where
  "evidence_times env x =
     sort_key fst (concat (map (\<lambda>vid. case Option.bind (oe_lookup env vid) em_collected of None \<Rightarrow> [] | Some t \<Rightarrow> [t]) (cited x)))"

section \<open>Times from recorded facts\<close>

definition trail_times :: "oscal_env \<Rightarrow> oscal_input \<Rightarrow> utc_time option list" where
  "trail_times env x = map (\<lambda>e. oscal_datetime env (dict_get_or e ''timestamp'' [])) (oi_trail x)"

definition known_times :: "oscal_env \<Rightarrow> oscal_input \<Rightarrow> utc_time list" where
  "known_times env x = concat (map (\<lambda>t. case t of None \<Rightarrow> [] | Some u \<Rightarrow> [u]) (trail_times env x))"

text \<open>\<open>max(known_times, key=...)\<close>: the first of the latest.\<close>

fun latest :: "utc_time \<Rightarrow> utc_time list \<Rightarrow> utc_time" where
  "latest m [] = m"
| "latest m (t # ts) = latest (if fst m < fst t then t else m) ts"

definition modified_at :: "oscal_env \<Rightarrow> oscal_input \<Rightarrow> string" where
  "modified_at env x =
     (case known_times env x of
        t # ts \<Rightarrow> snd (latest t ts)
      | [] \<Rightarrow>
          (case Option.bind (rp_oscal_sar (oi_report x)) (\<lambda>sar. oscal_datetime env (last_modified (o_metadata sar))) of
             Some t \<Rightarrow> snd t | None \<Rightarrow> oe_now env))"

definition gate2_time :: "oscal_env \<Rightarrow> oscal_input \<Rightarrow> utc_time option" where
  "gate2_time env x =
     Option.bind (find (\<lambda>e. map_of e ''action'' = Some ''gate_approval'' \<and> map_of e ''artifact'' = Some ''working_papers'') (rev (oi_trail x)))
       (\<lambda>e. oscal_datetime env (dict_get_or e ''timestamp'' []))"

section \<open>Parties\<close>

definition party_uuid :: "oscal_env \<Rightarrow> oscal_input \<Rightarrow> string \<Rightarrow> string" where
  "party_uuid env x name = element_uuid env x [''party'', to_line name]"

definition sources_of :: "trail \<Rightarrow> string \<Rightarrow> string list" where
  "sources_of tr name =
     (if name = [] then []
      else map (\<lambda>e. if value_line e ''identity_source'' = [] then ''declared'' else value_line e ''identity_source'')
             (filter (\<lambda>e. value_line e ''human'' = name) tr))"

definition party_remarks :: "string list \<Rightarrow> string" where
  "party_remarks sources =
     (if set sources = {''authenticated''} then
        ''Identity authenticated by a per-reviewer token issued for this application (not single sign-on, no MFA).''
      else if ''authenticated'' \<in> set sources then
        ''Some of this party'' @ q1 @ ''s actions were authenticated by a per-reviewer token (not single sign-on, no MFA), others used a declared name; each assessment-log entry says which.''
      else ''Declared identity as entered in the application. The API did not authenticate this reviewer.'') @
     '' See the hash-chained assessment log for what this party did.''"

text \<open>\<open>_Parties.as_oscal\<close> of the names in the order they were first asked for.\<close>

definition party_json :: "oscal_env \<Rightarrow> oscal_input \<Rightarrow> string \<Rightarrow> json" where
  "party_json env x name = JObj
     [(''uuid'', JStr (party_uuid env x name)), (''type'', JStr ''person''), (''name'', JStr name),
      (''remarks'', JStr (party_remarks (sources_of (oi_trail x) name)))]"

definition reviewer_origin :: "oscal_env \<Rightarrow> oscal_input \<Rightarrow> decision_ref option \<Rightarrow> json list" where
  "reviewer_origin env x ref =
     (case ref of None \<Rightarrow> []
      | Some r \<Rightarrow> [JObj [(''actors'', JList [JObj [(''type'', JStr ''party''), (''actor-uuid'', JStr (party_uuid env x (ref_by r))),
          (''role-id'', JStr ''reviewer'')]])]])"

definition decided_props :: "oscal_env \<Rightarrow> string \<Rightarrow> decision_ref option \<Rightarrow> json list" where
  "decided_props env prefix_text ref =
     (case ref of None \<Rightarrow> []
      | Some r \<Rightarrow> oscal_props [(prefix_text @ ''decided-by'', ref_by r),
          (prefix_text @ ''decided-at'', time_text (oscal_datetime env (ref_at r))),
          (prefix_text @ ''identity-source'', ref_source r), (prefix_text @ ''decision-id'', ref_id r)])"

section \<open>Keys and narratives\<close>

text \<open>\<open>CTRL-01#1\<close>, numbered per id; \<open>before\<close> are the ids seen.\<close>

fun occurrence_keys :: "string list \<Rightarrow> string list \<Rightarrow> string list" where
  "occurrence_keys seen [] = []"
| "occurrence_keys seen (c # cs) = (c @ ''#'' @ nat_str (Suc (count_list seen c))) # occurrence_keys (c # seen) cs"

text \<open>The narratives of the reporting crew: the first that is not blank counts.\<close>

definition llm_narratives :: "final_report \<Rightarrow> (string \<times> string) list" where
  "llm_narratives r =
     (case rp_oscal_sar r of None \<Rightarrow> []
      | Some sar \<Rightarrow> filter (\<lambda>(s, d). to_line d \<noteq> [])
          (concat (map (\<lambda>res. concat (map (\<lambda>obs. map (\<lambda>s. (s, o_description obs)) (subjects obs)) (observations res))) (o_results sar))))"

definition methods_of :: "string \<Rightarrow> string \<Rightarrow> string list" where
  "methods_of tod toe =
     (let ms = (if tod \<noteq> tod_value TOD_NOT_TESTED then [''EXAMINE''] else []) @
               (if toe \<noteq> toe_value TOE_NOT_TESTED then [''TEST''] else []) in
      if ms = [] then [''EXAMINE''] else ms)"

section \<open>Reviewed controls\<close>

definition NIST_FAMILIES :: "string list" where
  "NIST_FAMILIES = [''AC'', ''AT'', ''AU'', ''CA'', ''CM'', ''CP'', ''IA'', ''IR'', ''MA'', ''MP'', ''PE'', ''PL'', ''PM'',
     ''PS'', ''PT'', ''RA'', ''SA'', ''SC'', ''SI'', ''SR'']"

definition NIST_PREFIX :: regex where
  "NIST_PREFIX = Alt
     (seq [lit ''NIST'', plus spc, opt (Seq (lit ''SP'') (plus spc)), lit ''800-53'',
        opt (seq [plus spc, ci CHR ''r'', opt (lit ''ev''), plus dgt]), plus spc])
     (Seq (lit ''NIST'') (one_of ''._-''))"

definition NIST_CONTROL :: regex where
  "NIST_CONTROL = seq [Group (times 2 (Chr alpha_letter)), Chr ((=) CHR ''-''), Group (plus dgt),
     opt (seq [Chr ((=) CHR ''(''), Group (plus dgt), Chr ((=) CHR '')'')])]"

text \<open>\<open>re.sub\<close> of a pattern that is anchored at the start.\<close>

definition drop_nist_prefix :: "string \<Rightarrow> string" where
  "drop_nist_prefix s =
     (case run NIST_PREFIX \<lparr>before = None, left = s, groups = []\<rparr> of [] \<Rightarrow> s | q # _ \<Rightarrow> left q)"

text \<open>The groups of \<open>_NIST_CONTROL_RE.match\<close>.\<close>

definition nist_groups :: "string \<Rightarrow> string list option" where
  "nist_groups s = map_option groups (find (\<lambda>q. left q = []) (run NIST_CONTROL \<lparr>before = None, left = s, groups = []\<rparr>))"

definition cites_nist :: "oscal_input \<Rightarrow> bool" where
  "cites_nist x \<longleftrightarrow>
     (case oi_racm x of None \<Rightarrow> False
      | Some m \<Rightarrow> (\<exists>r\<in>set (risks m). \<exists>c\<in>set (regulatory_mapping r). sublist ''800-53'' (lower c)) \<or> sublist ''800-53'' (lower (rm_theme m)))"

definition nist_link :: "oscal_input \<Rightarrow> string \<Rightarrow> string option" where
  "nist_link x c =
     (case nist_groups (drop_nist_prefix (strip c)) of
        Some (fam # num # rest) \<Rightarrow>
          if upper fam \<in> set NIST_FAMILIES \<and> (cites_nist x \<or> found (Alt (lit ''800-53'') (lit ''nist'')) c)
          then Some (''https://csrc.nist.gov/Projects/risk-management/sp800-53-controls/release-search#!/control?version=5.1&number='' @
            upper fam @ ''-'' @ num @ (case rest of [] \<Rightarrow> [] | e # _ \<Rightarrow> ''('' @ e @ '')''))
          else None
      | _ \<Rightarrow> None)"

definition control_ref :: "oscal_input \<Rightarrow> string \<Rightarrow> json" where
  "control_ref x c = JObj ((''control-id'', JStr (token c)) #
     given_keys [(''links'', map_option (\<lambda>href. JList [JObj [(''href'', JStr href), (''rel'', JStr ''related'')]]) (nist_link x c))])"

definition racm_controls :: "oscal_input \<Rightarrow> (risk \<times> control) list" where
  "racm_controls x = (case oi_racm x of None \<Rightarrow> [] | Some m \<Rightarrow> concat (map (\<lambda>r. map (\<lambda>c. (r, c)) (controls r)) (risks m)))"

definition reviewed_ids :: "oscal_input \<Rightarrow> string list" where
  "reviewed_ids x = firsts (\<lambda>c. c) [] (map (\<lambda>(r, c). c_control_id c) (racm_controls x) @ map f_control_id (findings (oi_papers x)))"

definition reviewed_controls :: "oscal_env \<Rightarrow> oscal_input \<Rightarrow> raised + json" where
  "reviewed_controls env x =
     (if reviewed_ids x = [] then Inl ValueError
      else Inr (JObj
        [(''description'', JStr (oe_markup env (''Controls in the engagement'' @ q1 @ ''s Risk and Control Matrix (RACM). Where control IDs match verified NIST 800-53 families and the engagement cites NIST SP 800-53, standard framework catalog links are attached for interoperability.''))),
         (''control-selections'', JList [JObj [(''include-controls'', JList (map (control_ref x) (reviewed_ids x)))]])]))"

section \<open>Objectives\<close>

definition objective :: "oscal_env \<Rightarrow> risk \<times> control \<Rightarrow> json" where
  "objective env rc =
     (let (r, c) = rc; cid = c_control_id c;
          desc = (if to_line (c_description c) = [] then ''RACM control '' @ to_line cid else to_line (c_description c)) in
      JObj ([(''control-id'', JStr (token cid)), (''description'', JStr (oe_markup env desc)),
        (''parts'', JList [JObj [(''id'', JStr (token cid)), (''name'', JStr ''assessment-objective''), (''ns'', JStr PROJECT_NS),
           (''prose'', JStr (oe_markup env desc))]])] @
        given_keys [(''props'', unless_empty (oscal_props
          [(''racm-control-id'', cid), (''racm-risk-id'', r_risk_id r), (''control-nature'', or_blank nature_value (nature c)),
           (''control-frequency'', or_blank frequency_value (frequency c)),
           (''framework-mapping'', join_with ''; '' (filter (\<lambda>m. to_line m \<noteq> []) (regulatory_mapping r)))]))]))"

definition objectives :: "oscal_env \<Rightarrow> oscal_input \<Rightarrow> json list" where
  "objectives env x =
     map (objective env) (firsts (\<lambda>(r, c). c_control_id c) [] (filter (\<lambda>(r, c). c_control_id c \<noteq> []) (racm_controls x)))"

end
