(* ===== verification/Oscal.thy ===== *)
theory Oscal
  imports OscalParts
begin

text \<open>
  \<open>build_assessment_results\<close> of \<open>src/swarm/oscal_ar.py\<close>: deficiencies as risks, working papers as
  observations and findings, the trail as assessment log, roles and parties, and the document. The
  lists the builder fills as it goes (parties, reviewers) are the concatenation of what each part
  adds, in that order.
\<close>

section \<open>Elements the others refer to\<close>

definition plan_uuid :: "oscal_env \<Rightarrow> oscal_input \<Rightarrow> string" where
  "plan_uuid env x = element_uuid env x [''assessment-plan-reference'']"

definition component_uuid :: "oscal_env \<Rightarrow> oscal_input \<Rightarrow> string" where
  "component_uuid env x = element_uuid env x [''component'', ''audit-scope'']"

definition platform_uuid :: "oscal_env \<Rightarrow> oscal_input \<Rightarrow> string" where
  "platform_uuid env x = element_uuid env x [''assessment-platform'']"

definition finding_keys :: "oscal_input \<Rightarrow> string list" where
  "finding_keys x = occurrence_keys [] (map f_control_id (findings (oi_papers x)))"

definition observation_uuid :: "oscal_env \<Rightarrow> oscal_input \<Rightarrow> string \<Rightarrow> string" where
  "observation_uuid env x key = element_uuid env x [''observation'', key]"

text \<open>\<open>obs_by_control\<close>\<close>

definition observations_of :: "oscal_env \<Rightarrow> oscal_input \<Rightarrow> string \<Rightarrow> string list" where
  "observations_of env x cid =
     map (\<lambda>(f, key). observation_uuid env x key)
       (filter (\<lambda>(f, key). f_control_id f = cid) (zip (findings (oi_papers x)) (finding_keys x)))"

definition deficiency_keys :: "oscal_input \<Rightarrow> string list" where
  "deficiency_keys x = occurrence_keys [] (map deficiency_id (deficiency_evaluations (oi_report x)))"

definition risk_uuid :: "oscal_env \<Rightarrow> oscal_input \<Rightarrow> string \<Rightarrow> string" where
  "risk_uuid env x key = element_uuid env x [''risk'', key]"

text \<open>\<open>risks_by_control\<close>: a control that an evaluation lists twice is in it twice.\<close>

definition risks_of :: "oscal_env \<Rightarrow> oscal_input \<Rightarrow> string \<Rightarrow> string list" where
  "risks_of env x cid =
     concat (map (\<lambda>(e, key). map (\<lambda>_. risk_uuid env x key) (filter ((=) cid) (related_findings e)))
       (zip (deficiency_evaluations (oi_report x)) (deficiency_keys x)))"

definition platform_origin :: "oscal_env \<Rightarrow> oscal_input \<Rightarrow> json" where
  "platform_origin env x = JObj [(''actors'', JList [JObj
     [(''type'', JStr ''assessment-platform''), (''actor-uuid'', JStr (platform_uuid env x))]])]"

section \<open>Deficiency evaluations become risks\<close>

text \<open>\<open>EffectiveView.deficiency\<close>\<close>

definition view_deficiency :: "effective_view \<Rightarrow> string \<Rightarrow> deficiency_view option" where
  "view_deficiency v did = find (\<lambda>d. dv_id d = did) (ev_deficiencies v)"

definition deficiency_record :: "oscal_input \<Rightarrow> deficiency \<Rightarrow> deficiency_view option" where
  "deficiency_record x e = Option.bind (oi_view x) (\<lambda>v. view_deficiency v (deficiency_id e))"

definition oi_approved :: "oscal_input \<Rightarrow> bool" where
  "oi_approved x \<longleftrightarrow> oi_status x = ''COMPLETED''"

definition report_scale :: "oscal_input \<Rightarrow> string" where
  "report_scale x = to_line (or_blank scale_value (rp_scale (oi_report x)))"

text \<open>Classification, likelihood and magnitude: of record, or of the draft without a view.\<close>

definition of_record :: "deficiency_view option \<Rightarrow> deficiency \<Rightarrow> classification_view" where
  "of_record dv e =
     (case dv of Some d \<Rightarrow> dv_effective d
      | None \<Rightarrow> \<lparr>cl_classification = classification_value (classification e), cl_likelihood = rating_value (likelihood e),
          cl_magnitude = rating_value (magnitude e)\<rparr>)"

definition by_on_text :: "decision_ref \<Rightarrow> string" where
  "by_on_text r = to_line (ref_by r) @ '' ('' @ ref_source r @ '' identity)''"

definition risk_state :: "oscal_input \<Rightarrow> deficiency_view option \<Rightarrow> deficiency \<Rightarrow> string" where
  "risk_state x dv e =
     (case Option.bind dv dv_decision of
        Some r \<Rightarrow>
          ''Classification of record: decided by '' @ by_on_text r @ '' on '' @ py_take 10 (to_line (ref_at r)) @
          (if oi_approved x then ''; the report was approved at Gate 3.'' else ''; the report awaits Gate 3 approval.'') @
          (if (case dv of Some d \<Rightarrow> dv_differs d | None \<Rightarrow> False) then
             '' AI draft: '' @ classification_value (classification e) @ '' (likelihood '' @ rating_value (likelihood e) @
             '', magnitude '' @ rating_value (magnitude e) @ '').'' else [])
      | None \<Rightarrow>
          if oi_approved x then ''Proposed by the reporting crew and approved with the report at Gate 3; see the assessment log.''
          else ''DRAFT proposed by the reporting crew for the auditor'' @ q1 @ ''s judgement at Gate 3 '' @ em_dash @ '' not a final conclusion.'')"

definition risk_statement :: "oscal_input \<Rightarrow> deficiency_view option \<Rightarrow> deficiency \<Rightarrow> string" where
  "risk_statement x dv e =
     (let scale = (if report_scale x = [] then ''scale not stated'' else report_scale x); rec = of_record dv e;
          draft = classification_value (classification e) in
      case Option.bind dv dv_decision of
        Some r \<Rightarrow>
          ''Likelihood '' @ cl_likelihood rec @ '', magnitude '' @ cl_magnitude rec @ ''. Classification of record: '' @
          cl_classification rec @ '' ('' @ scale @ ''), reviewer decision. Reviewer rationale: '' @
          (if ref_rationale r = [] then ''agrees with the AI draft.'' else ref_rationale r) @
          '' AI draft ('' @ draft @ '') rationale: '' @ e_rationale e
      | None \<Rightarrow>
          ''Likelihood '' @ rating_value (likelihood e) @ '', magnitude '' @ rating_value (magnitude e) @
          ''. Proposed classification: '' @ draft @ '' ('' @ scale @ ''). Rationale: '' @ e_rationale e)"

definition classification_state :: "oscal_input \<Rightarrow> deficiency_view option \<Rightarrow> string" where
  "classification_state x dv =
     (if Option.bind dv dv_decision \<noteq> None then ''reviewer-decision''
      else if oi_approved x then ''approved-with-report'' else ''draft'')"

definition writeup_text :: "decision_ref \<Rightarrow> string" where
  "writeup_text w = nl @ nl @ ''Finding write-up by '' @ by_on_text w @ '':'' @ nl @ nl @
     join_with nl (map (\<lambda>k. ''- '' @ capitalised k @ '': '' @ value_line (ref_values w) k) [''criteria'', ''condition'', ''cause'', ''effect''])"

definition risk_description :: "oscal_input \<Rightarrow> deficiency_view option \<Rightarrow> deficiency \<Rightarrow> string" where
  "risk_description x dv e =
     risk_state x dv e @ nl @ nl @ ''Findings evaluated together: '' @ join_with '', '' (related_findings e) @
     ''. RACM risks affected: '' @
     (if join_with '', '' (related_risks e) = [] then ''none listed'' else join_with '', '' (related_risks e)) @ ''.'' @ nl @ nl @
     ''Compensating controls considered: '' @ compensating_controls e @ or_blank writeup_text (Option.bind dv dv_writeup)"

definition remediation_props :: "oscal_env \<Rightarrow> decision_ref option \<Rightarrow> json list" where
  "remediation_props env rem =
     (case rem of None \<Rightarrow> []
      | Some r \<Rightarrow> oscal_props [(''remediation-status'', value_line (ref_values r) ''status''),
            (''remediation-verified-on'', dict_get_or (ref_values r) ''verified_on'' []),
            (''remediation-evidence-vault-id'', dict_get_or (ref_values r) ''evidence_vault_id'' [])] @
          decided_props env ''remediation-'' (Some r))"

definition risk_props :: "oscal_env \<Rightarrow> oscal_input \<Rightarrow> deficiency_view option \<Rightarrow> deficiency \<Rightarrow> json list" where
  "risk_props env x dv e =
     (let rec = of_record dv e in
      oscal_props [(''deficiency-id'', deficiency_id e), (''classification'', cl_classification rec),
        (''deficiency-scale'', report_scale x), (''classification-state'', classification_state x dv),
        (''likelihood'', cl_likelihood rec), (''magnitude'', cl_magnitude rec)] @
      (case dv of None \<Rightarrow> []
       | Some d \<Rightarrow>
           oscal_props [(''classification-source'', if dv_decision d \<noteq> None then ''reviewer'' else ''ai-draft''),
             (''ai-draft-classification'', classification_value (classification e))] @
           (if dv_differs d then oscal_props [(''ai-draft-likelihood'', rating_value (likelihood e)),
              (''ai-draft-magnitude'', rating_value (magnitude e))] else []) @
           decided_props env [] (dv_decision d)) @
      map (oscal_prop ''racm-risk-id'') (filter (\<lambda>r. to_line r \<noteq> []) (related_risks e)) @
      remediation_props env (Option.bind dv dv_remediation))"

text \<open>A write-up without a recommendation gives no remediation.\<close>

definition recommendation :: "deficiency_view option \<Rightarrow> decision_ref option" where
  "recommendation dv = Option.bind (Option.bind dv dv_writeup) (\<lambda>w. if value_line (ref_values w) ''recommendation'' = [] then None else Some w)"

definition response_props :: "oscal_env \<Rightarrow> decision_ref \<Rightarrow> json list" where
  "response_props env r =
     (let v = (\<lambda>k. dict_get_or (ref_values r) k []) in
      oscal_props [(''management-agreement'', v ''agreement''), (''action-owner-role'', v ''action_owner_role''),
        (''target-date'', v ''target_date''), (''received-from'', v ''received_from''), (''received-on'', v ''received_on'')] @
      oscal_props [(''transcribed-by'', ref_by r), (''transcribed-at'', time_text (oscal_datetime env (ref_at r))),
        (''identity-source'', ref_source r), (''decision-id'', ref_id r)])"

text \<open>\<open>{k: val for k, val in r.items() if val}\<close>\<close>

definition set_keys :: "(string \<times> json) list \<Rightarrow> json" where
  "set_keys ps = JObj (filter (\<lambda>(k, v). truthy (Some v)) ps)"

definition remediation_list :: "oscal_env \<Rightarrow> oscal_input \<Rightarrow> string \<Rightarrow> deficiency_view option \<Rightarrow> json list" where
  "remediation_list env x ru dv =
     (case recommendation dv of None \<Rightarrow> []
      | Some w \<Rightarrow> [set_keys [(''uuid'', JStr (element_uuid env x [''recommendation'', ru])), (''lifecycle'', JStr ''recommendation''),
          (''title'', JStr (oe_markup env (''Auditor'' @ q1 @ ''s recommendation''))),
          (''description'', JStr (oe_markup env (dict_get_or (ref_values w) ''recommendation'' []))),
          (''props'', JList (decided_props env [] (Some w))), (''origins'', JList (reviewer_origin env x (Some w)))]]) @
     (case Option.bind dv dv_management_response of None \<Rightarrow> []
      | Some r \<Rightarrow>
          if dict_get_or (ref_values r) ''agreement'' [] \<in> {''agree'', ''partial''} then
            [set_keys [(''uuid'', JStr (element_uuid env x [''action-plan'', ru])), (''lifecycle'', JStr ''planned''),
               (''title'', JStr (oe_markup env ''Management action plan'')),
               (''description'', JStr (oe_markup env (dict_get_or (ref_values r) ''text'' []))), (''props'', JList (response_props env r))]]
          else [])"

definition first_time :: "oscal_env \<Rightarrow> oscal_input \<Rightarrow> string list \<Rightarrow> string" where
  "first_time env x texts =
     (case concat (map (\<lambda>t. case oscal_datetime env t of None \<Rightarrow> [] | Some u \<Rightarrow> [snd u]) texts) of
        t # _ \<Rightarrow> t | [] \<Rightarrow> modified_at env x)"

text \<open>In a formatted string a missing value reads None.\<close>

definition response_log_text :: "decision_ref \<Rightarrow> string" where
  "response_log_text r =
     (let v = ref_values r in
      ''Management response ('' @ dict_get_or v ''agreement'' ''None'' @ ''), received from '' @ value_line v ''received_from'' @
      '' on '' @ value_line v ''received_on'' @ '' and transcribed by '' @ by_on_text r @ '':'' @ nl @ nl @ dict_get_or v ''text'' [] @
      (if ref_rationale r = [] then []
       else nl @ nl @ ''Auditor'' @ q1 @ ''s '' @ (if map_of v ''agreement'' = Some ''disagree'' then ''rebuttal'' else ''note'') @
         '': '' @ ref_rationale r))"

definition risk_log :: "oscal_env \<Rightarrow> oscal_input \<Rightarrow> string \<Rightarrow> deficiency_view option \<Rightarrow> json list" where
  "risk_log env x ru dv =
     (case Option.bind dv dv_management_response of None \<Rightarrow> []
      | Some r \<Rightarrow> [JObj [(''uuid'', JStr (element_uuid env x [''management-response'', ru])),
          (''title'', JStr (oe_markup env ''Management response'')), (''description'', JStr (oe_markup env (response_log_text r))),
          (''start'', JStr (first_time env x [dict_get_or (ref_values r) ''received_on'' [], ref_at r])),
          (''props'', JList (response_props env r))]]) @
     (case Option.bind dv dv_remediation of None \<Rightarrow> []
      | Some r \<Rightarrow> [JObj [(''uuid'', JStr (element_uuid env x [''remediation-verification'', ru])),
          (''title'', JStr (oe_markup env ''Remediation verification'')),
          (''description'', JStr (oe_markup env (''Remediation verification ('' @ value_line (ref_values r) ''status'' @ ''), verified on '' @
             value_line (ref_values r) ''verified_on'' @ '' by '' @ by_on_text r @ '': '' @ ref_rationale r))),
          (''start'', JStr (first_time env x [dict_get_or (ref_values r) ''verified_on'' [], ref_at r])),
          (''props'', JList (remediation_props env (Some r)))]])"

definition remediated :: "deficiency_view option \<Rightarrow> bool" where
  "remediated dv \<longleftrightarrow> (case Option.bind dv dv_remediation of None \<Rightarrow> False | Some r \<Rightarrow> value_line (ref_values r) ''status'' = ''remediated'')"

definition risk_deadline :: "oscal_env \<Rightarrow> deficiency_view option \<Rightarrow> string option" where
  "risk_deadline env dv =
     Option.bind (Option.bind dv dv_management_response) (\<lambda>r.
       Option.bind (map_of (ref_values r) ''target_date'') (\<lambda>d. map_option snd (oscal_datetime env d)))"

definition uuid_refs :: "string \<Rightarrow> string list \<Rightarrow> json option" where
  "uuid_refs key us = unless_empty (map (\<lambda>u. JObj [(key, JStr u)]) (firsts (\<lambda>u. u) [] us))"

definition oscal_risk :: "oscal_env \<Rightarrow> oscal_input \<Rightarrow> deficiency \<times> string \<Rightarrow> json" where
  "oscal_risk env x ek =
     (let (e, key) = ek; ru = risk_uuid env x key; dv = deficiency_record x e in
      JObj (given_keys
        [(''uuid'', Some (JStr ru)),
         (''title'', Some (JStr (oe_markup env (if to_line (e_title e) = [] then deficiency_id e else to_line (e_title e))))),
         (''description'', Some (JStr (oe_markup env (risk_description x dv e)))),
         (''statement'', Some (JStr (oe_markup env (risk_statement x dv e)))),
         (''props'', Some (JList (risk_props env x dv e))),
         (''status'', Some (JStr (if remediated dv then ''closed'' else ''open''))),
         (''origins'', map_option (\<lambda>d. JList (platform_origin env x # reviewer_origin env x (dv_decision d))) dv),
         (''deadline'', map_option JStr (risk_deadline env dv)),
         (''risk-log'', map_option (\<lambda>j. JObj [(''entries'', j)]) (unless_empty (risk_log env x ru dv))),
         (''remediations'', unless_empty (remediation_list env x ru dv)),
         (''related-observations'', uuid_refs ''observation-uuid'' (concat (map (observations_of env x) (related_findings e))))]))"

definition oscal_risks :: "oscal_env \<Rightarrow> oscal_input \<Rightarrow> json list" where
  "oscal_risks env x = map (oscal_risk env x) (zip (deficiency_evaluations (oi_report x)) (deficiency_keys x))"

section \<open>Working papers become observations and findings\<close>

definition finding_record :: "oscal_input \<Rightarrow> finding \<Rightarrow> finding_view option" where
  "finding_record x f = Option.bind (oi_view x) (\<lambda>v. view_finding v (f_control_id f))"

text \<open>Without a view an unset result reads None.\<close>

definition result_of_record :: "oscal_input \<Rightarrow> finding \<Rightarrow> string" where
  "result_of_record x f =
     (case finding_record x f of Some v \<Rightarrow> fc_result (fv_effective v)
      | None \<Rightarrow> (case f_result f of None \<Rightarrow> ''None'' | Some r \<Rightarrow> result_value r))"

definition preliminary_of_record :: "oscal_input \<Rightarrow> finding \<Rightarrow> bool option" where
  "preliminary_of_record x f =
     (case finding_record x f of Some v \<Rightarrow> Some (fc_preliminary (fv_effective v)) | None \<Rightarrow> preliminary_deficiency f)"

fun sign_off_text :: "review_status \<Rightarrow> string" where
  "sign_off_text Signed_off = ''signed-off''"
| "sign_off_text Challenged = ''challenged''"
| "sign_off_text Not_reviewed = ''not-reviewed''"

definition review_props :: "oscal_env \<Rightarrow> finding_view option \<Rightarrow> json list" where
  "review_props env fv =
     (case fv of None \<Rightarrow> []
      | Some v \<Rightarrow>
          oscal_props [(''reviewer-sign-off'', sign_off_text (fv_review_status v))] @
          (case fv_review v of None \<Rightarrow> []
           | Some r \<Rightarrow> oscal_props [(''reviewed-by'', ref_by r), (''reviewed-at'', time_text (oscal_datetime env (ref_at r))),
               (''reviewer-identity-source'', ref_source r)]) @
          (if fv_scope_limitation v \<noteq> None then oscal_props [(''scope-limitation'', ''true'')] else []))"

definition finding_meta :: "oscal_env \<Rightarrow> finding \<Rightarrow> evidence_meta option" where
  "finding_meta env f =
     (if to_line (vault_id_reference f) = [] then None else oe_lookup env (to_line (vault_id_reference f)))"

definition exact_collected :: "oscal_env \<Rightarrow> finding \<Rightarrow> utc_time option" where
  "exact_collected env f = Option.bind (finding_meta env f) em_collected"

definition collected_at :: "oscal_env \<Rightarrow> oscal_input \<Rightarrow> finding \<Rightarrow> string" where
  "collected_at env x f =
     (case exact_collected env f of Some t \<Rightarrow> snd t
      | None \<Rightarrow> (case gate2_time env x of Some t \<Rightarrow> snd t
          | None \<Rightarrow> if evidence_times env x \<noteq> [] then snd (last (evidence_times env x)) else modified_at env x))"

definition observation_props :: "oscal_env \<Rightarrow> oscal_input \<Rightarrow> finding \<Rightarrow> json list" where
  "observation_props env x f =
     (let fv = finding_record x f in
      oscal_props [(''control-id'', f_control_id f), (''tod-conclusion'', shown_tod fv f), (''toe-conclusion'', shown_toe fv f),
        (''result'', result_of_record x f), (''items-tested'', or_blank nat_str (items_tested f)),
        (''exceptions-noted'', or_blank nat_str (exceptions_noted f)),
        (''preliminary-deficiency'', true_false (preliminary_of_record x f)), (''legacy-severity'', str_or_blank (legacy_severity f))] @
      (if exact_collected env f = None then oscal_props [(''collected-is-fallback'', ''true'')] else []) @
      (if (case fv of Some v \<Rightarrow> fv_differs v | None \<Rightarrow> False) then
         oscal_props [(''ai-draft-tod-conclusion'', tod_value (tod_conclusion f)), (''ai-draft-toe-conclusion'', toe_value (toe_conclusion f)),
           (''ai-draft-result'', or_blank result_value (f_result f))] else []) @
      review_props env fv)"

definition review_remarks :: "finding_view \<Rightarrow> string list" where
  "review_remarks v =
     (case fv_review v of None \<Rightarrow> []
      | Some r \<Rightarrow> if ref_rationale r = [] then [] else
          [(if fv_review_status v = Challenged then ''Reviewer challenge'' else ''Reviewer sign-off'') @ '' by '' @ by_on_text r @ '': '' @ ref_rationale r]) @
     (case fv_scope_limitation v of None \<Rightarrow> []
      | Some r \<Rightarrow> [''Reported as a scope limitation by '' @ by_on_text r @ '': '' @ ref_rationale r])"

definition observation_remarks :: "oscal_env \<Rightarrow> oscal_input \<Rightarrow> finding \<Rightarrow> string list" where
  "observation_remarks env x f =
     (if exact_collected env f = None then
        [''Notice: Evidence collection timestamp was not recorded in vault; observation '' @ q1 @ ''collected'' @ q1 @ '' timestamp is a fallback to engagement gate/modification time.''] else []) @
     (case finding_record x f of None \<Rightarrow> [] | Some v \<Rightarrow> review_remarks v) @
     (if to_line (str_or_blank (toe_basis f)) \<noteq> [] then [''Basis for the ToE conclusion: '' @ str_or_blank (toe_basis f)] else []) @
     (if result_of_record x f = result_value NOT_TESTED then
        [''Not tested: no evidence covered this control. OSCAL finding targets are only '' @ q1 @ ''satisfied'' @ q1 @ '' or '' @ q1 @ ''not-satisfied'' @ q1 @ '', so this observation has no finding; the result prop records it.''] else []) @
     (case map_of (llm_narratives (oi_report x)) (f_control_id f) of None \<Rightarrow> []
      | Some d \<Rightarrow> [''Reporting-crew narrative (model-drafted): '' @ d])"

definition quote_verified :: "oscal_env \<Rightarrow> finding \<Rightarrow> raised + bool option" where
  "quote_verified env f =
     (let vid = to_line (vault_id_reference f) in
      if vid = [] \<or> exact_quote f = [] then Inr None
      else case oe_check env of None \<Rightarrow> Inr None
        | Some check \<Rightarrow> bindE (check vid (exact_quote f)) (\<lambda>b. Inr (Some b)))"

definition relevant :: "oscal_env \<Rightarrow> oscal_input \<Rightarrow> finding \<Rightarrow> bool option \<Rightarrow> json option" where
  "relevant env x f seen =
     (let vid = to_line (vault_id_reference f); quote = to_line (exact_quote f); src = or_blank em_source (finding_meta env f) in
      if vid = [] then None
      else Some (JList [JObj
        [(''href'', JStr (CHR ''#'' # evidence_uuid env x vid)),
         (''description'', JStr (oe_markup env (''Evidence vault record '' @ vid @ (if src \<noteq> [] then '' ('' @ src @ '')'' else []) @
            (if quote \<noteq> [] then ''. Quoted in the working paper: '' @ [CHR 0xE2, CHR 0x80, CHR 0x9C] @ quote @ [CHR 0xE2, CHR 0x80, CHR 0x9D] else [])))),
         (''props'', JList (oscal_props [(''vault-id'', vid), (''quote-verified-in-vault'', true_false seen)]))]]))"

definition observation_element :: "oscal_env \<Rightarrow> oscal_input \<Rightarrow> finding \<times> string \<Rightarrow> bool option \<Rightarrow> json" where
  "observation_element env x fk seen =
     (let (f, key) = fk; fv = finding_record x f in
      JObj (given_keys
        [(''uuid'', Some (JStr (observation_uuid env x key))),
         (''title'', Some (JStr (oe_markup env (to_line (f_control_id f) @ '' '' @ em_dash @ '' ToD '' @ shown_tod fv f @ ''; ToE '' @ shown_toe fv f)))),
         (''description'', Some (JStr (oe_markup env (test_conclusion f)))),
         (''props'', Some (JList (observation_props env x f))),
         (''methods'', Some (JList (map JStr (methods_of (shown_tod fv f) (shown_toe fv f))))),
         (''types'', Some (JList [JStr ''control-objective''])),
         (''origins'', Some (JList [platform_origin env x])),
         (''subjects'', Some (JList [JObj [(''subject-uuid'', JStr (component_uuid env x)), (''type'', JStr ''component'')]])),
         (''collected'', Some (JStr (collected_at env x f))),
         (''relevant-evidence'', relevant env x f seen),
         (''remarks'', if observation_remarks env x f = [] then None
            else Some (JStr (oe_markup env (join_with (nl @ nl) (observation_remarks env x f)))))]))"

definition oscal_observations :: "oscal_env \<Rightarrow> oscal_input \<Rightarrow> raised + json list" where
  "oscal_observations env x =
     collectE (\<lambda>fk. bindE (quote_verified env (fst fk)) (\<lambda>seen. Inr [observation_element env x fk seen]))
       (zip (findings (oi_papers x)) (finding_keys x))"

text \<open>A control that was not tested has no finding.\<close>

definition has_finding :: "oscal_input \<Rightarrow> finding \<Rightarrow> bool" where
  "has_finding x f \<longleftrightarrow> result_of_record x f \<notin> {result_value NOT_TESTED, ''None'', []}"

definition satisfied :: "oscal_input \<Rightarrow> finding \<Rightarrow> bool" where
  "satisfied x f \<longleftrightarrow> result_of_record x f = result_value NO_EXCEPTION"

definition finding_status :: "oscal_env \<Rightarrow> oscal_input \<Rightarrow> finding \<Rightarrow> json" where
  "finding_status env x f = JObj (given_keys
     [(''state'', Some (JStr (if satisfied x f then ''satisfied'' else ''not-satisfied''))),
      (''reason'', Some (JStr (if satisfied x f then ''pass'' else ''fail''))),
      (''remarks'', if satisfied x f \<and> shown_toe (finding_record x f) f = toe_value TOE_NOT_TESTED
         then Some (JStr (oe_markup env ''Design and implementation only: operating effectiveness over the period was not tested.'')) else None)])"

definition oscal_finding :: "oscal_env \<Rightarrow> oscal_input \<Rightarrow> finding \<times> string \<Rightarrow> json" where
  "oscal_finding env x fk =
     (let (f, key) = fk in
      JObj (given_keys
        [(''uuid'', Some (JStr (element_uuid env x [''finding'', key]))),
         (''title'', Some (JStr (oe_markup env (to_line (f_control_id f) @ '': '' @ result_of_record x f)))),
         (''description'', Some (JStr (oe_markup env (test_conclusion f)))),
         (''props'', Some (JList (oscal_props [(''result'', result_of_record x f),
            (''preliminary-deficiency'', true_false (preliminary_of_record x f))] @ review_props env (finding_record x f)))),
         (''target'', Some (JObj [(''type'', JStr ''objective-id''), (''target-id'', JStr (token (f_control_id f))),
            (''title'', JStr (oe_markup env (''RACM control '' @ to_line (f_control_id f)))), (''status'', finding_status env x f)])),
         (''related-observations'', Some (JList [JObj [(''observation-uuid'', JStr (observation_uuid env x key))]])),
         (''related-risks'', uuid_refs ''risk-uuid'' (risks_of env x (f_control_id f)))]))"

definition oscal_findings :: "oscal_env \<Rightarrow> oscal_input \<Rightarrow> json list" where
  "oscal_findings env x =
     map (oscal_finding env x) (filter (\<lambda>(f, key). has_finding x f) (zip (findings (oi_papers x)) (finding_keys x)))"

end
