(* ===== verification/OscalDoc.thy ===== *)
theory OscalDoc
  imports Oscal Downloads
begin

text \<open>
  The OSCAL document of \<open>src/swarm/oscal_ar.py\<close>, its download (\<open>src/api/routers/exports.py\<close>) and the
  comparison of two documents (\<open>evaluate_oscal_drift\<close>).
\<close>

section \<open>The trail as assessment log\<close>

text \<open>\<open>f"{label}: {e[k]}"\<close> for the details that are not blank.\<close>

definition log_details :: "entry \<Rightarrow> string list" where
  "log_details e =
     map (\<lambda>(k, label). label @ '': '' @ dict_get_or e k [])
       (filter (\<lambda>(k, label). value_line e k \<noteq> [])
         [(''notes'', ''Review notes''), (''reason'', ''Reason''), (''qa_rejection_reason'', ''QA rejection overridden''),
          (''previous_status'', ''Previous status''), (''unverified_controls'', ''Unverified controls accepted'')])"

definition log_entry :: "oscal_env \<Rightarrow> oscal_input \<Rightarrow> nat \<times> entry \<Rightarrow> json" where
  "log_entry env x ie =
     (let (i, e) = ie; human = value_line e ''human''; action = value_line e ''action''; get = (\<lambda>k. dict_get_or e k []) in
      JObj (given_keys
        [(''uuid'', Some (JStr (element_uuid env x [''log'', nat_str i]))),
         (''title'', Some (JStr (oe_markup env (if value_line e ''gate'' \<noteq> [] then value_line e ''gate'' else if action \<noteq> [] then action else ''Trail entry'')))),
         (''start'', Some (JStr (case oscal_datetime env (get ''timestamp'') of Some t \<Rightarrow> snd t | None \<Rightarrow> modified_at env x))),
         (''props'', Some (JList (oscal_props
            [(''trail-action'', action), (''artifact'', get ''artifact''), (''artifact-digest'', get ''artifact_digest''),
             (''trail-hash-alg'', get ''hash_alg''), (''trail-entry-hash'', get ''entry_hash''), (''trail-prev-hash'', get ''prev_hash''),
             (''decision-id'', get ''decision_id''), (''decision-digest'', get ''decision_digest''), (''decision-type'', get ''decision_type''),
             (''decision-subject'', get ''subject''), (''supersedes-decision'', get ''supersedes''),
             (''decisions-digest'', get ''decisions_digest''), (''identity-source'', get ''identity_source'')]))),
         (''description'', Some (JStr (oe_markup env (join_with (nl @ nl)
            (((if action \<noteq> [] then action else ''action'') @ '' by '' @ (if human \<noteq> [] then human else ''unknown'')) # log_details e))))),
         (''logged-by'', if human = [] then None else Some (JList [JObj [(''party-uuid'', JStr (party_uuid env x human))]]))]))"

definition log_entries :: "oscal_env \<Rightarrow> oscal_input \<Rightarrow> json list" where
  "log_entries env x = map (log_entry env x) (zip [0..<length (oi_trail x)] (oi_trail x))"

section \<open>Roles and parties\<close>

definition oscal_preparer :: "oscal_input \<Rightarrow> string" where
  "oscal_preparer x =
     (if to_line (oi_prepared_by x) \<noteq> [] then to_line (oi_prepared_by x)
      else case find (\<lambda>e. map_of e ''action'' = Some ''audit_created'') (oi_trail x) of Some e \<Rightarrow> value_line e ''human'' | None \<Rightarrow> [])"

definition gate_approvals :: "oscal_input \<Rightarrow> entry list" where
  "gate_approvals x = filter (\<lambda>e. value_line e ''human'' \<noteq> [] \<and> value_line e ''action'' = ''gate_approval'') (oi_trail x)"

text \<open>What a risk and a finding add to the reviewers.\<close>

definition risk_reviewers :: "oscal_input \<Rightarrow> deficiency \<Rightarrow> string list" where
  "risk_reviewers x e =
     (let dv = deficiency_record x e; by_of = (\<lambda>r. case r of None \<Rightarrow> [] | Some d \<Rightarrow> [to_line (ref_by d)]) in
      by_of (Option.bind dv dv_decision) @ by_of (recommendation dv) @ by_of (Option.bind dv dv_remediation))"

definition finding_reviewers :: "oscal_input \<Rightarrow> finding \<Rightarrow> string list" where
  "finding_reviewers x f =
     (case finding_record x f of None \<Rightarrow> []
      | Some v \<Rightarrow> (case fv_review v of None \<Rightarrow> [] | Some r \<Rightarrow> [to_line (ref_by r)]) @
          (case fv_scope_limitation v of None \<Rightarrow> [] | Some r \<Rightarrow> [to_line (ref_by r)]))"

definition oscal_conclusion :: "oscal_input \<Rightarrow> decision_ref option" where
  "oscal_conclusion x = Option.bind (oi_view x) ev_conclusion"

definition oscal_reviewers :: "oscal_input \<Rightarrow> string list" where
  "oscal_reviewers x =
     concat (map (risk_reviewers x) (deficiency_evaluations (oi_report x))) @
     concat (map (finding_reviewers x) (findings (oi_papers x))) @
     (case oscal_conclusion x of None \<Rightarrow> [] | Some r \<Rightarrow> [to_line (ref_by r)])"

definition oscal_roles :: "oscal_input \<Rightarrow> (string \<times> string \<times> string list) list" where
  "oscal_roles x =
     filter (\<lambda>(i, title, names). names \<noteq> []) (map (\<lambda>(i, title, names). (i, title, firsts (\<lambda>n. n) [] (filter (\<lambda>n. n \<noteq> []) names)))
       [(''prepared-by'', ''Preparer (created the audit)'', [oscal_preparer x]),
        (''gate-approver'', ''Gate approver (Planning, Fieldwork or Reporting)'', map (\<lambda>e. value_line e ''human'') (gate_approvals x)),
        (''content-approver'', ''Report approver (Gate 3)'',
           map (\<lambda>e. value_line e ''human'') (filter (\<lambda>e. map_of e ''artifact'' = Some ''final_report'') (gate_approvals x))),
        (''reviewer'', ''Recorded reviewer decisions (or transcribed a management response)'', oscal_reviewers x)])"

text \<open>The calls of \<open>uuid_for\<close>, in order.\<close>

definition risk_calls :: "oscal_input \<Rightarrow> deficiency \<Rightarrow> string list" where
  "risk_calls x e =
     (let dv = deficiency_record x e; by_of = (\<lambda>r. case r of None \<Rightarrow> [] | Some d \<Rightarrow> [to_line (ref_by d)]) in
      by_of (Option.bind dv dv_decision) @ by_of (recommendation dv))"

definition party_calls :: "oscal_input \<Rightarrow> string list" where
  "party_calls x =
     concat (map (risk_calls x) (deficiency_evaluations (oi_report x))) @
     filter (\<lambda>n. n \<noteq> []) (oscal_preparer x # map (\<lambda>e. value_line e ''human'') (oi_trail x)) @
     concat (map (\<lambda>(i, title, names). names) (oscal_roles x)) @
     (case oscal_conclusion x of None \<Rightarrow> [] | Some r \<Rightarrow> [to_line (ref_by r)])"

definition party_names :: "oscal_input \<Rightarrow> string list" where
  "party_names x = firsts (\<lambda>n. n) [] (party_calls x)"

definition role_json :: "string \<times> string \<times> string list \<Rightarrow> json" where
  "role_json role = (let (i, title, names) = role in JObj [(''id'', JStr i), (''title'', JStr title)])"

definition responsible_json :: "oscal_env \<Rightarrow> oscal_input \<Rightarrow> string \<times> string \<times> string list \<Rightarrow> json" where
  "responsible_json env x role =
     (let (i, title, names) = role in
      JObj [(''role-id'', JStr i), (''party-uuids'', JList (map (\<lambda>n. JStr (party_uuid env x n)) names))])"

section \<open>The document\<close>

definition plan_resource :: "oscal_env \<Rightarrow> oscal_input \<Rightarrow> json" where
  "plan_resource env x = JObj
     [(''uuid'', JStr (plan_uuid env x)),
      (''title'', JStr (oe_markup env (''Audit programme (RACM) '' @ em_dash @ '' '' @ (if to_line (oi_theme x) = [] then ''audit'' else to_line (oi_theme x))))),
      (''description'', JStr (oe_markup env ''No OSCAL assessment plan exists for this engagement. The Risk and Control Matrix approved at Gate 1 (Planning) served as the plan: the risks, the controls in scope and their test procedures. It is available as an .xlsx export, not as OSCAL.'')),
      (''rlinks'', JList [JObj [(''href'', JStr (''/api/sessions/'' @ oi_session_id x @ ''/export/racm.xlsx'')), (''media-type'', JStr XLSX)]])]"

definition result_definitions :: "oscal_env \<Rightarrow> oscal_input \<Rightarrow> json" where
  "result_definitions env x = JObj
     [(''components'', JList [JObj
        [(''uuid'', JStr (component_uuid env x)), (''type'', JStr ''this-system''),
         (''title'', JStr (oe_markup env (''Audit scope: '' @ (if to_line (oi_theme x) = [] then ''not stated'' else to_line (oi_theme x))))),
         (''description'', JStr (oe_markup env ''The environment in scope for this audit, as described by the audit theme. No system security plan was imported, so the component is described only by the audit scope.'')),
         (''status'', JObj [(''state'', JStr ''other''), (''remarks'', JStr ''Operational status was not recorded by the audit.'')])]]),
      (''assessment-assets'', JObj [(''assessment-platforms'', JList [JObj
        [(''uuid'', JStr (platform_uuid env x)), (''title'', JStr (oe_markup env ''GRC Audit Swarm'')),
         (''props'', JList (oscal_props [(''platform-description'',
            ''LLM agent crews draft the RACM, working papers and report; a human approves each phase at a gate'')]))]])])]"

definition attestation :: "oscal_env \<Rightarrow> oscal_input \<Rightarrow> decision_ref \<Rightarrow> json" where
  "attestation env x r = JObj
     [(''responsible-parties'', JList [JObj [(''role-id'', JStr ''reviewer''), (''party-uuids'', JList [JStr (party_uuid env x (ref_by r))])]]),
      (''parts'', JList [JObj
        [(''uuid'', JStr (element_uuid env x [''engagement-conclusion''])), (''name'', JStr ''engagement-conclusion''), (''ns'', JStr PROJECT_NS),
         (''title'', JStr (oe_markup env (''Engagement conclusion: '' @ value_line (ref_values r) ''conclusion''))),
         (''props'', JList (decided_props env [] (Some r))),
         (''prose'', JStr (oe_markup env (dict_get_or (ref_values r) ''conclusion'' ''None'' @ '' '' @ em_dash @
            '' the reviewer'' @ q1 @ ''s conclusion on the engagement, recorded by '' @ by_on_text r @ '' on '' @ py_take 10 (to_line (ref_at r)) @ ''.'' @
            nl @ nl @ ref_rationale r)))]])]"

definition result_props :: "oscal_env \<Rightarrow> oscal_input \<Rightarrow> json list" where
  "result_props env x =
     oscal_props [(''deficiency-scale'', report_scale x)] @
     (case oscal_conclusion x of None \<Rightarrow> []
      | Some r \<Rightarrow> oscal_props [(''engagement-conclusion'', dict_get_or (ref_values r) ''conclusion'' [])] @
          decided_props env ''engagement-conclusion-'' (Some r))"

definition result_remarks :: "oscal_input \<Rightarrow> string" where
  "result_remarks x =
     ''Observations: one per working-paper finding. Findings: one per tested control; a control concluded '' @ q1 @ ''Not tested'' @ q1 @
     '' has an observation but no finding. Test-of-design / operating-effectiveness conclusions and deficiency classifications are props in the namespace '' @
     PROJECT_NS @ ''. Methods: EXAMINE marks a design and implementation conclusion, TEST an operating-effectiveness conclusion over the period.'' @
     (if oi_view x = None then [] else
        '' Reviewer decisions: each risk'' @ q1 @ ''s classification prop is the conclusion of record (classification-source says whether it is the reviewer'' @ q1 @
        ''s decision or the AI draft; ai-draft-classification keeps the draft); observations and findings carry reviewer-sign-off.'')"

definition result_start :: "oscal_env \<Rightarrow> oscal_input \<Rightarrow> string" where
  "result_start env x = (case evidence_times env x @ known_times env x of t # _ \<Rightarrow> snd t | [] \<Rightarrow> modified_at env x)"

definition result_element :: "oscal_env \<Rightarrow> oscal_input \<Rightarrow> json list \<Rightarrow> json \<Rightarrow> json" where
  "result_element env x observed reviewed = JObj (given_keys
     [(''uuid'', Some (JStr (element_uuid env x [''result'']))),
      (''title'', Some (JStr (oe_markup env (''Audit results '' @ em_dash @ '' '' @
         (if to_line (oi_theme x) = [] then to_line (oi_session_name x) else to_line (oi_theme x)))))),
      (''description'', Some (JStr (oe_markup env (executive_summary (oi_report x))))),
      (''start'', Some (JStr (result_start env x))),
      (''end'', if evidence_times env x = [] then None else Some (JStr (snd (last (evidence_times env x))))),
      (''props'', unless_empty (result_props env x)),
      (''local-definitions'', Some (result_definitions env x)),
      (''reviewed-controls'', Some reviewed),
      (''attestations'', map_option (\<lambda>r. JList [attestation env x r]) (oscal_conclusion x)),
      (''assessment-log'', map_option (\<lambda>j. JObj [(''entries'', j)]) (unless_empty (log_entries env x))),
      (''observations'', Some (JList observed)),
      (''risks'', unless_empty (oscal_risks env x)),
      (''findings'', unless_empty (oscal_findings env x)),
      (''remarks'', Some (JStr (oe_markup env (result_remarks x))))])"

definition metadata_element :: "oscal_env \<Rightarrow> oscal_input \<Rightarrow> json" where
  "metadata_element env x =
     (let title = (case rp_oscal_sar (oi_report x) of None \<Rightarrow> [] | Some sar \<Rightarrow> to_line (o_title (o_metadata sar))) in
      JObj (given_keys
       [(''title'', Some (JStr (oe_markup env (if title = [] then ''Audit results '' @ em_dash @ '' '' @ to_line (oi_session_name x) else title)))),
        (''last-modified'', Some (JStr (modified_at env x))),
        (''version'', Some (JStr (''sha256-'' @ take 16 (oi_digest x)))),
        (''oscal-version'', Some (JStr OSCAL_VERSION)),
        (''props'', Some (JList (oscal_props [(''session-id'', oi_session_id x), (''session-status'', oi_status x), (''report-state'', oi_report_state x)]))),
        (''roles'', unless_empty (map role_json (oscal_roles x))),
        (''parties'', unless_empty (map (party_json env x) (party_names x))),
        (''responsible-parties'', unless_empty (map (responsible_json env x) (oscal_roles x))),
        (''remarks'', Some (JStr (oe_markup env (''Report state: '' @ oi_report_state x @
           ''. Generated by GRC Audit Swarm from the gate-reviewed RACM, working papers and report of this session. The content was drafted by LLM agents and reviewed by the people recorded in the assessment log. last-modified is the time of the latest approval-trail entry, not the export time; version is a digest of the source artifacts.''))))]))"

definition oscal_document :: "oscal_env \<Rightarrow> oscal_input \<Rightarrow> json list \<Rightarrow> json \<Rightarrow> json" where
  "oscal_document env x observed reviewed =
     JObj [(''assessment-results'', JObj (given_keys
       [(''uuid'', Some (JStr (element_uuid env x [''assessment-results'']))),
        (''metadata'', Some (metadata_element env x)),
        (''import-ap'', Some (JObj [(''href'', JStr (CHR ''#'' # plan_uuid env x)),
           (''remarks'', JStr (oe_markup env ''No OSCAL assessment plan document exists. This reference resolves to a back-matter resource describing the RACM, which served as the assessment plan.''))])),
        (''local-definitions'', map_option (\<lambda>j. JObj [(''objectives-and-methods'', j)]) (unless_empty (objectives env x))),
        (''results'', Some (JList [result_element env x observed reviewed])),
        (''back-matter'', Some (JObj [(''resources'', JList (plan_resource env x # map (evidence_resource env x) (cited x)))]))]))]"

definition build_assessment_results :: "oscal_env \<Rightarrow> oscal_input \<Rightarrow> raised + json" where
  "build_assessment_results env x =
     bindE (oscal_observations env x) (\<lambda>observed.
     bindE (reviewed_controls env x) (\<lambda>reviewed.
       Inr (oscal_document env x observed reviewed)))"

section \<open>The download\<close>

definition at_key :: "string \<Rightarrow> (json \<Rightarrow> json) \<Rightarrow> json \<Rightarrow> json" where
  "at_key k g j = (case j of JObj ps \<Rightarrow> JObj (map (\<lambda>(k', v). (k', if k' = k then g v else v)) ps) | _ \<Rightarrow> j)"

definition each_item :: "(json \<Rightarrow> json) \<Rightarrow> json \<Rightarrow> json" where
  "each_item g j = (case j of JList xs \<Rightarrow> JList (map g xs) | _ \<Rightarrow> j)"

text \<open>\<open>result.setdefault("props", []).append(p)\<close>\<close>

definition append_prop :: "json \<Rightarrow> json \<Rightarrow> json" where
  "append_prop p j =
     (case j of JObj ps \<Rightarrow>
        (if map_of ps ''props'' = None then JObj (ps @ [(''props'', JList [p])])
         else at_key ''props'' (\<lambda>v. case v of JList xs \<Rightarrow> JList (xs @ [p]) | _ \<Rightarrow> v) j)
      | _ \<Rightarrow> j)"

definition with_trail_prop :: "json \<Rightarrow> trail_status \<Rightarrow> string \<Rightarrow> json" where
  "with_trail_prop doc status detail =
     (let remarks = (if to_line detail = [] then verification_status_text status else to_line detail) in
      at_key ''assessment-results'' (at_key ''results'' (each_item (append_prop (JObj
        [(''name'', JStr ''trail-verification-status''), (''ns'', JStr PROJECT_NS),
         (''value'', JStr (verification_status_text status)), (''remarks'', JStr remarks)])))) doc)"

text \<open>
  \<open>export_oscal\<close>: a \<open>ValueError\<close> of the builder is 404. \<open>uuid5\<close>, \<open>instant\<close> and \<open>digest_of\<close> are as in \<open>oscal_env\<close> and
  \<open>oscal_input\<close>.
\<close>

definition oscal_handled :: "raised + 'a \<Rightarrow> http_error + 'a" where
  "oscal_handled r = (case r of Inl ValueError \<Rightarrow> Inl (Http 404) | Inl e \<Rightarrow> Inl Unhandled | Inr y \<Rightarrow> Inr y)"

definition oscal_env_of :: "(string \<Rightarrow> string) \<Rightarrow> (string \<Rightarrow> utc_time option) \<Rightarrow> flow_env \<Rightarrow> string \<Rightarrow> oscal_env" where
  "oscal_env_of uuid5 instant env sid =
     (let base = \<lparr>oe_uuid5 = uuid5, oe_instant = instant, oe_now = now env, oe_markup = sanitize_report,
        oe_lookup = (\<lambda>_. None), oe_check = Some (vault_check env sid)\<rparr> in
      base\<lparr>oe_lookup := vault_metadata (oscal_datetime base) (vault_now env)\<rparr>)"

definition oscal_input_of :: "audit_flow \<Rightarrow> export_context \<Rightarrow> final_report \<Rightarrow> working_papers \<Rightarrow> effective_view \<Rightarrow> string \<Rightarrow> oscal_input" where
  "oscal_input_of f ctx rp p v dg =
     \<lparr>oi_session_id = xc_session_id ctx, oi_session_name = xc_session_name ctx, oi_status = xc_status ctx,
      oi_report_state = artifact_state ctx P3, oi_theme = theme f, oi_report = rp, oi_papers = p, oi_racm = racm_plan f,
      oi_trail = approval_trail f, oi_prepared_by = prepared_by f, oi_view = Some v, oi_digest = dg\<rparr>"

definition export_oscal ::
  "(string \<Rightarrow> string) \<Rightarrow> (string \<Rightarrow> utc_time option) \<Rightarrow> (audit_flow \<Rightarrow> string) \<Rightarrow> (verification \<Rightarrow> string) \<Rightarrow> flow_env \<Rightarrow> string \<Rightarrow>
   'st api \<Rightarrow> 'st api \<times> json download" where
  "export_oscal uuid5 instant digest_of detail env sid st =
     (let (st', r) = load_audit env sid st in
      (st', bindE r (\<lambda>l. let f = ld_flow l in
        bindE (of_option (Http 404) (report f)) (\<lambda>rp.
        bindE (of_option (Http 404) (papers f)) (\<lambda>p.
        bindE (oscal_handled (bindE (flow_view env f) (\<lambda>v.
            build_assessment_results (oscal_env_of uuid5 instant env sid) (oscal_input_of f (ld_context l) rp p v (digest_of f))))) (\<lambda>doc.
          Inr (export_filename (ld_context l) ''oscal-sar'' ''json'',
            with_trail_prop doc (v_status (ld_verification l)) (detail (ld_verification l)))))))))"

section \<open>Drift between two documents\<close>

text \<open>Attribute access on what is not a dictionary, and iteration over what cannot be iterated.\<close>

definition get_from :: "json \<Rightarrow> string \<Rightarrow> json \<Rightarrow> raised + json" where
  "get_from j k default_value = (case j of JObj ps \<Rightarrow> Inr (dict_get_or ps k default_value) | _ \<Rightarrow> Inl AttributeError)"

definition json_items :: "json \<Rightarrow> raised + json list" where
  "json_items j = (case j of JList xs \<Rightarrow> Inr xs | JObj ps \<Rightarrow> Inr (map (\<lambda>(k, v). JStr k) ps) | JStr s \<Rightarrow> Inr (map (\<lambda>c. JStr [c]) s) | _ \<Rightarrow> Inl TypeError)"

text \<open>\<open>results[0]\<close> of what is truthy.\<close>

definition first_item :: "json \<Rightarrow> raised + json" where
  "first_item j = (case j of JList (v # _) \<Rightarrow> Inr v | JStr (c # _) \<Rightarrow> Inr (JStr [c]) | JObj _ \<Rightarrow> Inl KeyError | _ \<Rightarrow> Inl TypeError)"

definition first_result :: "json \<Rightarrow> raised + json option" where
  "first_result doc =
     bindE (get_from doc ''assessment-results'' (JObj [])) (\<lambda>ar.
     bindE (get_from ar ''results'' (JList [])) (\<lambda>rs.
       if \<not> truthy (Some rs) then Inr None else bindE (first_item rs) (\<lambda>r. Inr (Some r))))"

definition finding_state :: "json \<Rightarrow> raised + string \<times> string" where
  "finding_state f =
     bindE (get_from f ''target'' (JObj [])) (\<lambda>tgt.
     bindE (get_from tgt ''target-id'' (JStr [])) (\<lambda>tid.
     bindE (get_from tgt ''status'' (JObj [])) (\<lambda>status.
     bindE (get_from status ''state'' (JStr [])) (\<lambda>state. Inr (py_str tid, py_str state)))))"

definition note_state :: "(string \<times> string) list \<Rightarrow> string \<times> string \<Rightarrow> (string \<times> string) list" where
  "note_state out s = (if fst s \<noteq> [] \<and> snd s \<noteq> [] then dict_set (fst s) (snd s) out else out)"

definition findings_map :: "json \<Rightarrow> raised + (string \<times> string) list" where
  "findings_map doc =
     bindE (first_result doc) (\<lambda>r. case r of None \<Rightarrow> Inr []
      | Some res \<Rightarrow>
          bindE (get_from res ''findings'' (JList [])) (\<lambda>fs.
          bindE (json_items fs) (\<lambda>items.
          bindE (collectE (\<lambda>f. bindE (finding_state f) (\<lambda>s. Inr [s])) items) (\<lambda>states.
            Inr (foldl note_state [] states)))))"

text \<open>The last property of the name; a name that is a list or an object cannot be a key.\<close>

definition prop_pair :: "json \<Rightarrow> raised + json \<times> json" where
  "prop_pair p =
     bindE (get_from p ''name'' JNull) (\<lambda>n.
     bindE (get_from p ''value'' JNull) (\<lambda>v.
       case n of JList _ \<Rightarrow> Inl TypeError | JObj _ \<Rightarrow> Inl TypeError | _ \<Rightarrow> Inr (n, v)))"

definition risk_status :: "json \<Rightarrow> raised + string \<times> string" where
  "risk_status r =
     bindE (get_from r ''props'' (JList [])) (\<lambda>ps.
     bindE (json_items ps) (\<lambda>items.
     bindE (collectE (\<lambda>p. bindE (prop_pair p) (\<lambda>s. Inr [s])) items) (\<lambda>pairs.
     bindE (get_from r ''title'' JNull) (\<lambda>title.
     bindE (get_from r ''status'' (JStr ''open'')) (\<lambda>status.
       let did = map_of (rev pairs) (JStr ''deficiency-id'') in
       Inr (if truthy did then py_str (the did) else if truthy (Some title) then py_str title else [], py_str status))))))"

text \<open>A risk counts by its id alone; its status may be empty.\<close>

definition risks_map :: "json \<Rightarrow> raised + (string \<times> string) list" where
  "risks_map doc =
     bindE (first_result doc) (\<lambda>r. case r of None \<Rightarrow> Inr []
      | Some res \<Rightarrow>
          bindE (get_from res ''risks'' (JList [])) (\<lambda>rs.
          bindE (json_items rs) (\<lambda>items.
          bindE (collectE (\<lambda>f. bindE (risk_status f) (\<lambda>s. Inr [s])) items) (\<lambda>states.
            Inr (foldl (\<lambda>out s. if fst s \<noteq> [] then dict_set (fst s) (snd s) out else out) [] states)))))"

record oscal_drift =
  drift_passed :: bool
  regressed_controls :: "string list"
  improved_controls :: "string list"
  remediated_risks :: "string list"
  new_open_risks :: "string list"

definition evaluate_oscal_drift :: "json \<Rightarrow> json \<Rightarrow> raised + oscal_drift" where
  "evaluate_oscal_drift base target =
     bindE (findings_map base) (\<lambda>bf.
     bindE (findings_map target) (\<lambda>tf.
       let regressed = sort (map fst (filter (\<lambda>(c, s). s = ''satisfied'' \<and> map_of tf c = Some ''not-satisfied'') bf));
           improved = sort (map fst (filter (\<lambda>(c, s). s = ''not-satisfied'' \<and> map_of tf c = Some ''satisfied'') bf)) in
     bindE (risks_map base) (\<lambda>br.
     bindE (risks_map target) (\<lambda>tr.
       let closed = sort (map fst (filter (\<lambda>(d, s). s = ''open'' \<and> map_of tr d = Some ''closed'') br));
           opened = sort (map fst (filter (\<lambda>(d, s). s = ''open'' \<and> map_of br d \<noteq> Some ''open'') tr)) in
       Inr \<lparr>drift_passed = (regressed = [] \<and> opened = []), regressed_controls = regressed, improved_controls = improved,
         remediated_risks = closed, new_open_risks = opened\<rparr>))))"

end
