(* ===== verification/OscalProps.thy ===== *)
theory OscalProps
  imports OscalDoc
begin

text \<open>
  The UUIDs and references in an OSCAL document: what each element carries, the names its UUIDs are made from
  (\<open>doc_names\<close>), and that no two elements have the same name.
\<close>

section \<open>UUIDs and references in a document\<close>

text \<open>What \<open>g\<close> finds at the keys of a value, at any depth, in order.\<close>

primrec json_at :: "(string \<Rightarrow> json \<Rightarrow> string list) \<Rightarrow> json \<Rightarrow> string list" where
  "json_at g JNull = []"
| "json_at g (JBool b) = []"
| "json_at g (JInt n) = []"
| "json_at g (JStr s) = []"
| "json_at g (JList xs) = concat (map (json_at g) xs)"
| "json_at g (JObj ps) = concat (map (\<lambda>((k, v), (k', r)). g k v @ r) (zip ps (map (map_prod id (json_at g)) ps)))"

definition text_of :: "json \<Rightarrow> string list" where
  "text_of v = (case v of JStr s \<Rightarrow> [s] | _ \<Rightarrow> [])"

definition uuid_at :: "string \<Rightarrow> json \<Rightarrow> string list" where
  "uuid_at k v = (if k = ''uuid'' then text_of v else [])"

definition link_at :: "string \<Rightarrow> json \<Rightarrow> string list" where
  "link_at k v =
     (if k \<in> {''observation-uuid'', ''risk-uuid'', ''party-uuid'', ''actor-uuid'', ''subject-uuid''} then text_of v
      else if k = ''party-uuids'' then (case v of JList xs \<Rightarrow> concat (map text_of xs) | _ \<Rightarrow> [])
      else if k = ''href'' then (case v of JStr s \<Rightarrow> if take 1 s = ''#'' then [drop 1 s] else [] | _ \<Rightarrow> [])
      else [])"

abbreviation uuids_in :: "json \<Rightarrow> string list" where "uuids_in \<equiv> json_at uuid_at"
abbreviation links_in :: "json \<Rightarrow> string list" where "links_in \<equiv> json_at link_at"

lemma json_at_Cons [simp]: "json_at g (JObj ((k, v) # ps)) = g k v @ json_at g v @ json_at g (JObj ps)"
  by simp

lemma json_at_Nil [simp]: "json_at g (JObj []) = []"
  by simp

declare json_at.simps(6) [simp del]

lemma json_at_given [simp]:
  "json_at g (JObj (given_keys [])) = []"
  "json_at g (JObj (given_keys ((k, Some v) # ps))) = g k v @ json_at g v @ json_at g (JObj (given_keys ps))"
  "json_at g (JObj (given_keys ((k, None) # ps))) = json_at g (JObj (given_keys ps))"
  by (simp_all add: given_keys_def)

text \<open>Keys that carry neither.\<close>

lemma at_other [simp]:
  "k \<noteq> ''uuid'' \<Longrightarrow> uuid_at k v = []"
  "k \<notin> {''observation-uuid'', ''risk-uuid'', ''party-uuid'', ''actor-uuid'', ''subject-uuid'', ''party-uuids'', ''href''} \<Longrightarrow> link_at k v = []"
  by (simp_all add: uuid_at_def link_at_def)

lemma at_key_of [simp]:
  "uuid_at ''uuid'' (JStr s) = [s]" "link_at ''observation-uuid'' (JStr s) = [s]" "link_at ''risk-uuid'' (JStr s) = [s]"
  "link_at ''party-uuid'' (JStr s) = [s]" "link_at ''actor-uuid'' (JStr s) = [s]" "link_at ''subject-uuid'' (JStr s) = [s]"
  "link_at ''href'' (JStr (c # s)) = (if c = CHR ''#'' then [s] else [])"
  by (simp_all add: uuid_at_def link_at_def text_of_def)

lemma at_given_if [simp]:
  "json_at g (JObj (given_keys ((k, if b then None else Some y) # ps))) =
     (if b then [] else g k y @ json_at g y) @ json_at g (JObj (given_keys ps))"
  by simp

lemma at_unless_empty:
  "(\<And>v. g k v = []) \<Longrightarrow>
     json_at g (JObj (given_keys ((k, unless_empty xs) # ps))) = concat (map (json_at g) xs) @ json_at g (JObj (given_keys ps))"
  by (simp add: unless_empty_def)

lemma at_unless_empty_in:
  "(\<And>v. g k v = []) \<Longrightarrow> (\<And>v. g k2 v = []) \<Longrightarrow>
     json_at g (JObj (given_keys ((k, map_option (\<lambda>j. JObj [(k2, j)]) (unless_empty xs)) # ps))) =
       concat (map (json_at g) xs) @ json_at g (JObj (given_keys ps))"
  by (simp add: unless_empty_def)

lemma concat_nothing [simp]: "concat (map (\<lambda>x. []) xs) = []"
  by simp

lemma props_plain [simp]:
  "concat (map uuids_in (oscal_props ps)) = []" "concat (map links_in (oscal_props ps)) = []"
  "concat (map (uuids_in \<circ> oscal_prop n) vs) = []" "concat (map (links_in \<circ> oscal_prop n) vs) = []"
  by (auto simp: oscal_props_def oscal_prop_def)

lemma more_props_plain [simp]:
  "concat (map uuids_in (decided_props env p ref)) = []" "concat (map links_in (decided_props env p ref)) = []"
  "concat (map uuids_in (remediation_props env ref)) = []" "concat (map links_in (remediation_props env ref)) = []"
  "concat (map uuids_in (response_props env r)) = []" "concat (map links_in (response_props env r)) = []"
  "concat (map uuids_in (review_props env fv)) = []" "concat (map links_in (review_props env fv)) = []"
proof -
  show d: "concat (map uuids_in (decided_props env p ref)) = []" "concat (map links_in (decided_props env p ref)) = []" for p ref
    unfolding decided_props_def by (cases ref; simp del: concat_eq_Nil_conv)+
  show "concat (map uuids_in (remediation_props env ref)) = []" "concat (map links_in (remediation_props env ref)) = []"
    unfolding remediation_props_def using d by (cases ref; simp del: concat_eq_Nil_conv)+
  show "concat (map uuids_in (response_props env r)) = []" "concat (map links_in (response_props env r)) = []"
    by (simp_all add: response_props_def Let_def del: concat_eq_Nil_conv)
  show "concat (map uuids_in (review_props env fv)) = []" "concat (map links_in (review_props env fv)) = []"
    unfolding review_props_def by (cases fv; simp split: option.split del: concat_eq_Nil_conv)+
qed

lemma origins_at [simp]:
  "uuids_in (platform_origin env x) = []" "links_in (platform_origin env x) = [platform_uuid env x]"
  "concat (map uuids_in (reviewer_origin env x ref)) = []"
  "concat (map links_in (reviewer_origin env x ref)) = (case ref of None \<Rightarrow> [] | Some r \<Rightarrow> [party_uuid env x (ref_by r)])"
  by (simp add: platform_origin_def, simp add: platform_origin_def, (cases ref; simp add: reviewer_origin_def)+)

section \<open>The elements of a document\<close>

lemma set_keys_at [simp]:
  "json_at g (set_keys []) = []"
  "json_at g (set_keys ((k, v) # ps)) = (if truthy (Some v) then g k v @ json_at g v else []) @ json_at g (set_keys ps)"
  by (simp_all add: set_keys_def)

lemma truthy_simps [simp]: "truthy (Some (JStr s)) \<longleftrightarrow> s \<noteq> []" "truthy (Some (JList xs)) \<longleftrightarrow> xs \<noteq> []"
  by (simp_all add: truthy_def)

definition uuids_nonempty :: "oscal_env \<Rightarrow> bool" where
  "uuids_nonempty env \<longleftrightarrow> (\<forall>t. oe_uuid5 env t \<noteq> [])"

lemma element_nonempty [simp]: "uuids_nonempty env \<Longrightarrow> element_uuid env x parts \<noteq> []"
  by (simp add: uuids_nonempty_def element_uuid_def)

text \<open>The names of the elements below a risk.\<close>

definition risk_names :: "oscal_env \<Rightarrow> oscal_input \<Rightarrow> deficiency \<times> string \<Rightarrow> string list list" where
  "risk_names env x ek =
     (let (e, key) = ek; ru = risk_uuid env x key; dv = deficiency_record x e; res = Option.bind dv dv_management_response in
      [''risk'', key] #
      (if res = None then [] else [[''management-response'', ru]]) @
      (if Option.bind dv dv_remediation = None then [] else [[''remediation-verification'', ru]]) @
      (if recommendation dv = None then [] else [[''recommendation'', ru]]) @
      (case res of None \<Rightarrow> [] | Some r \<Rightarrow>
         if dict_get_or (ref_values r) ''agreement'' [] \<in> {''agree'', ''partial''} then [[''action-plan'', ru]] else []))"

lemma risk_log_at:
  "concat (map uuids_in (risk_log env x ru dv)) =
     (if Option.bind dv dv_management_response = None then [] else [element_uuid env x [''management-response'', ru]]) @
     (if Option.bind dv dv_remediation = None then [] else [element_uuid env x [''remediation-verification'', ru]])"
  "concat (map links_in (risk_log env x ru dv)) = []"
  unfolding risk_log_def
  by (cases "Option.bind dv dv_management_response"; cases "Option.bind dv dv_remediation"; simp del: concat_eq_Nil_conv)+

lemma remediations_at:
  assumes "uuids_nonempty env"
  shows "concat (map uuids_in (remediation_list env x ru dv)) =
     (if recommendation dv = None then [] else [element_uuid env x [''recommendation'', ru]]) @
     (case Option.bind dv dv_management_response of None \<Rightarrow> [] | Some r \<Rightarrow>
         if dict_get_or (ref_values r) ''agreement'' [] \<in> {''agree'', ''partial''} then [element_uuid env x [''action-plan'', ru]] else [])"
    "concat (map links_in (remediation_list env x ru dv)) =
       (case recommendation dv of None \<Rightarrow> [] | Some w \<Rightarrow> [party_uuid env x (ref_by w)])"
  unfolding remediation_list_def using assms
  by (cases "recommendation dv"; cases "Option.bind dv dv_management_response"; simp add: reviewer_origin_def del: concat_eq_Nil_conv)+

lemma to_line_idem: "to_line (to_line v) = to_line v"
proof -
  have "py_split (join_with '' '' (py_split v)) = py_split v"
    by (rule split_join_words) (use split_ws_words [of "[]"] in auto)
  then show ?thesis by (simp add: to_line_def)
qed

lemma to_line_blank: "to_line [] = []"
  by (simp add: to_line_def)

lemma set_firsts: "set (firsts (\<lambda>v. v) seen xs) = set xs - set seen"
  by (induction xs arbitrary: seen) auto

lemma distinct_firsts: "distinct (firsts (\<lambda>v. v) seen xs)"
  by (induction xs arbitrary: seen) (auto simp: set_firsts)

lemma uuid_refs_at:
  assumes "k \<in> {''observation-uuid'', ''risk-uuid''}" "key \<in> {''related-observations'', ''related-risks''}"
  shows "uuids_in (JObj (given_keys ((key, uuid_refs k us) # ps))) = uuids_in (JObj (given_keys ps))"
    "set (links_in (JObj (given_keys ((key, uuid_refs k us) # ps)))) = set us \<union> set (links_in (JObj (given_keys ps)))"
proof -
  have "key \<noteq> ''uuid'' \<and> k \<noteq> ''uuid''" using assms by auto
  then show "uuids_in (JObj (given_keys ((key, uuid_refs k us) # ps))) = uuids_in (JObj (given_keys ps))"
    by (simp add: uuid_refs_def at_unless_empty)
  have key: "link_at key v = []" "link_at k (JStr u) = [u]" for v u using assms by auto
  then show "set (links_in (JObj (given_keys ((key, uuid_refs k us) # ps)))) = set us \<union> set (links_in (JObj (given_keys ps)))"
    by (simp add: uuid_refs_def at_unless_empty set_firsts)
qed

lemma optional_origins [simp]:
  "uuids_in (JObj (given_keys ((''origins'', map_option (\<lambda>d. JList (a # f d)) dv) # ps))) =
     (case dv of None \<Rightarrow> [] | Some d \<Rightarrow> uuids_in a @ concat (map uuids_in (f d))) @ uuids_in (JObj (given_keys ps))"
  "links_in (JObj (given_keys ((''origins'', map_option (\<lambda>d. JList (a # f d)) dv) # ps))) =
     (case dv of None \<Rightarrow> [] | Some d \<Rightarrow> links_in a @ concat (map links_in (f d))) @ links_in (JObj (given_keys ps))"
  by (cases dv; simp)+

lemma optional_deadline [simp]:
  "uuids_in (JObj (given_keys ((''deadline'', map_option JStr d) # ps))) = uuids_in (JObj (given_keys ps))"
  "links_in (JObj (given_keys ((''deadline'', map_option JStr d) # ps))) = links_in (JObj (given_keys ps))"
  by (cases d; simp)+

lemma risk_props_plain [simp]:
  "concat (map uuids_in (risk_props env x dv e)) = []" "concat (map links_in (risk_props env x dv e)) = []"
  by (cases dv; simp add: risk_props_def Let_def del: concat_eq_Nil_conv)+

lemma risk_at:
  assumes "uuids_nonempty env"
  shows "uuids_in (oscal_risk env x ek) = map (element_uuid env x) (risk_names env x ek)"
    "set (links_in (oscal_risk env x ek)) \<subseteq> insert (platform_uuid env x)
       (party_uuid env x ` set (risk_calls x (fst ek)) \<union> (\<Union>c\<in>set (related_findings (fst ek)). set (observations_of env x c)))"
proof -
  obtain e key where ek: "ek = (e, key)" by (cases ek)
  let ?dv = "deficiency_record x e"
  show "uuids_in (oscal_risk env x ek) = map (element_uuid env x) (risk_names env x ek)"
    unfolding oscal_risk_def ek Let_def prod.case
    by (cases ?dv; cases "Option.bind ?dv dv_management_response")
       (simp_all add: uuid_refs_at at_unless_empty at_unless_empty_in risk_names_def Let_def risk_uuid_def
         risk_log_at remediations_at [OF assms] del: concat_eq_Nil_conv)
  have "set (links_in (oscal_risk env x ek)) =
      (case ?dv of None \<Rightarrow> {} | Some d \<Rightarrow> insert (platform_uuid env x) (case dv_decision d of None \<Rightarrow> {} | Some r \<Rightarrow> {party_uuid env x (ref_by r)})) \<union>
      (case recommendation ?dv of None \<Rightarrow> {} | Some w \<Rightarrow> {party_uuid env x (ref_by w)}) \<union>
      (\<Union>c\<in>set (related_findings e). set (observations_of env x c))"
    unfolding oscal_risk_def ek Let_def prod.case
    by (cases ?dv; cases "recommendation ?dv")
       (simp_all add: uuid_refs_at at_unless_empty at_unless_empty_in risk_log_at remediations_at [OF assms] insert_commute
         del: concat_eq_Nil_conv split: option.split)
  moreover have "party_uuid env x (ref_by r) \<in> party_uuid env x ` set (risk_calls x e)"
    if "Option.bind ?dv dv_decision = Some r \<or> recommendation ?dv = Some r" for r
    using that to_line_idem by (auto simp: risk_calls_def Let_def party_uuid_def intro!: image_eqI [of _ _ "to_line (ref_by r)"])
  ultimately show "set (links_in (oscal_risk env x ek)) \<subseteq> insert (platform_uuid env x)
       (party_uuid env x ` set (risk_calls x (fst ek)) \<union> (\<Union>c\<in>set (related_findings (fst ek)). set (observations_of env x c)))"
    by (auto simp: ek split: option.splits)
qed

lemma observation_at:
  "uuids_in (observation_element env x fk seen) = [observation_uuid env x (snd fk)]"
  "set (links_in (observation_element env x fk seen)) = {platform_uuid env x, component_uuid env x} \<union>
     (if to_line (vault_id_reference (fst fk)) = [] then {} else {evidence_uuid env x (to_line (vault_id_reference (fst fk)))})"
proof -
  obtain f key where fk: "fk = (f, key)" by (cases fk)
  have props: "concat (map uuids_in (observation_props env x f)) = []" "concat (map links_in (observation_props env x f)) = []"
    by (simp_all add: observation_props_def Let_def del: concat_eq_Nil_conv)
  show "uuids_in (observation_element env x fk seen) = [observation_uuid env x (snd fk)]"
    by (simp add: observation_element_def fk Let_def relevant_def props comp_def del: concat_eq_Nil_conv)
  show "set (links_in (observation_element env x fk seen)) = {platform_uuid env x, component_uuid env x} \<union>
     (if to_line (vault_id_reference (fst fk)) = [] then {} else {evidence_uuid env x (to_line (vault_id_reference (fst fk)))})"
    by (simp add: observation_element_def fk Let_def relevant_def props comp_def insert_commute del: concat_eq_Nil_conv)
qed

lemma finding_at:
  "uuids_in (oscal_finding env x fk) = [element_uuid env x [''finding'', snd fk]]"
  "set (links_in (oscal_finding env x fk)) = insert (observation_uuid env x (snd fk)) (set (risks_of env x (f_control_id (fst fk))))"
proof -
  obtain f key where fk: "fk = (f, key)" by (cases fk)
  have status: "uuids_in (finding_status env x f) = []" "links_in (finding_status env x f) = []"
    by (simp_all add: finding_status_def)
  show "uuids_in (oscal_finding env x fk) = [element_uuid env x [''finding'', snd fk]]"
    by (simp add: oscal_finding_def fk Let_def status uuid_refs_at del: concat_eq_Nil_conv)
  show "set (links_in (oscal_finding env x fk)) = insert (observation_uuid env x (snd fk)) (set (risks_of env x (f_control_id (fst fk))))"
    by (simp add: oscal_finding_def fk Let_def status uuid_refs_at del: concat_eq_Nil_conv)
qed

lemma log_entry_at:
  "uuids_in (log_entry env x ie) = [element_uuid env x [''log'', nat_str (fst ie)]]"
  "set (links_in (log_entry env x ie)) = (if value_line (snd ie) ''human'' = [] then {} else {party_uuid env x (value_line (snd ie) ''human'')})"
  by (cases ie; simp add: log_entry_def Let_def del: concat_eq_Nil_conv)+

lemma small_at [simp]:
  "uuids_in (party_json env x n) = [party_uuid env x n]" "links_in (party_json env x n) = []"
  "uuids_in (evidence_resource env x v) = [evidence_uuid env x v]" "links_in (evidence_resource env x v) = []"
  "uuids_in (plan_resource env x) = [plan_uuid env x]" "links_in (plan_resource env x) = []"
  "uuids_in (role_json role) = []" "links_in (role_json role) = []"
  "uuids_in (result_definitions env x) = [component_uuid env x, platform_uuid env x]" "links_in (result_definitions env x) = []"
  "uuids_in (attestation env x r) = [element_uuid env x [''engagement-conclusion'']]"
  "uuids_in (responsible_json env x role) = []"
  by (simp_all add: party_json_def evidence_resource_def plan_resource_def role_json_def result_definitions_def attestation_def
      responsible_json_def Let_def comp_def del: concat_eq_Nil_conv split: prod.split)

lemma attestation_links: "set (links_in (attestation env x r)) = {party_uuid env x (ref_by r)}"
  by (simp add: attestation_def link_at_def text_of_def del: concat_eq_Nil_conv)

lemma responsible_links: "set (links_in (responsible_json env x role)) = party_uuid env x ` set (snd (snd role))"
  by (auto simp: responsible_json_def Let_def link_at_def text_of_def comp_def split: prod.split)

lemma objectives_at: "concat (map uuids_in (objectives env x)) = []" "concat (map links_in (objectives env x)) = []"
proof -
  have "uuids_in (objective env rc) = []" "links_in (objective env rc) = []" for rc
    by (auto simp: objective_def Let_def at_unless_empty simp del: concat_eq_Nil_conv split: prod.split)
  then show "concat (map uuids_in (objectives env x)) = []" "concat (map links_in (objectives env x)) = []"
    by (simp_all add: objectives_def comp_def)
qed

lemma control_ref_at: "uuids_in (control_ref x c) = []" "links_in (control_ref x c) = []"
proof -
  have "take 1 h = ''h''" if "nist_link x c = Some h" for h
    using that by (auto simp: nist_link_def split: option.splits list.splits if_splits)
  then show "uuids_in (control_ref x c) = []" "links_in (control_ref x c) = []"
    by (cases "nist_link x c"; force simp: control_ref_def link_at_def)+
qed

lemma reviewed_at:
  assumes "reviewed_controls env x = Inr j"
  shows "uuids_in j = []" "links_in j = []"
proof -
  have "j = JObj [(''description'', JStr d), (''control-selections'', JList [JObj [(''include-controls'', JList (map (control_ref x) (reviewed_ids x)))]])]"
    if "d = oe_markup env (''Controls in the engagement'' @ q1 @ ''s Risk and Control Matrix (RACM). Where control IDs match verified NIST 800-53 families and the engagement cites NIST SP 800-53, standard framework catalog links are attached for interoperability.'')" for d
    using assms that by (simp add: reviewed_controls_def split: if_splits)
  then show "uuids_in j = []" "links_in j = []" by (auto simp: control_ref_at)
qed

section \<open>The document\<close>

lemma metadata_at:
  "uuids_in (metadata_element env x) = map (party_uuid env x) (party_names x)"
  "set (links_in (metadata_element env x)) = party_uuid env x ` (\<Union>role\<in>set (oscal_roles x). set (snd (snd role)))"
  by (simp_all add: metadata_element_def Let_def at_unless_empty comp_def responsible_links image_UN del: concat_eq_Nil_conv)

lemma result_at:
  assumes "uuids_in reviewed = []" "links_in reviewed = []" "uuids_nonempty env"
  shows "uuids_in (result_element env x observed reviewed) =
     [element_uuid env x [''result''], component_uuid env x, platform_uuid env x] @
     (if oscal_conclusion x = None then [] else [element_uuid env x [''engagement-conclusion'']]) @
     concat (map uuids_in (log_entries env x)) @ concat (map uuids_in observed) @ concat (map uuids_in (oscal_risks env x)) @
     concat (map uuids_in (oscal_findings env x))"
    "set (links_in (result_element env x observed reviewed)) =
     (case oscal_conclusion x of None \<Rightarrow> {} | Some r \<Rightarrow> {party_uuid env x (ref_by r)}) \<union>
     (\<Union>j\<in>set (log_entries env x). set (links_in j)) \<union> (\<Union>j\<in>set observed. set (links_in j)) \<union>
     (\<Union>j\<in>set (oscal_risks env x). set (links_in j)) \<union> (\<Union>j\<in>set (oscal_findings env x). set (links_in j))"
proof -
  have props: "concat (map uuids_in (result_props env x)) = []" "concat (map links_in (result_props env x)) = []"
    by (cases "oscal_conclusion x"; simp add: result_props_def del: concat_eq_Nil_conv)+
  show "uuids_in (result_element env x observed reviewed) =
     [element_uuid env x [''result''], component_uuid env x, platform_uuid env x] @
     (if oscal_conclusion x = None then [] else [element_uuid env x [''engagement-conclusion'']]) @
     concat (map uuids_in (log_entries env x)) @ concat (map uuids_in observed) @ concat (map uuids_in (oscal_risks env x)) @
     concat (map uuids_in (oscal_findings env x))"
    using assms unfolding result_element_def
    by (cases "oscal_conclusion x") (simp_all add: at_unless_empty at_unless_empty_in props del: concat_eq_Nil_conv)
  show "set (links_in (result_element env x observed reviewed)) =
     (case oscal_conclusion x of None \<Rightarrow> {} | Some r \<Rightarrow> {party_uuid env x (ref_by r)}) \<union>
     (\<Union>j\<in>set (log_entries env x). set (links_in j)) \<union> (\<Union>j\<in>set observed. set (links_in j)) \<union>
     (\<Union>j\<in>set (oscal_risks env x). set (links_in j)) \<union> (\<Union>j\<in>set (oscal_findings env x). set (links_in j))"
    using assms unfolding result_element_def
    by (cases "oscal_conclusion x") (simp_all add: at_unless_empty at_unless_empty_in props attestation_links Un_assoc del: concat_eq_Nil_conv)
qed

lemma document_at:
  "uuids_in (oscal_document env x observed reviewed) =
     element_uuid env x [''assessment-results''] # map (party_uuid env x) (party_names x) @
     uuids_in (result_element env x observed reviewed) @ plan_uuid env x # map (evidence_uuid env x) (cited x)"
  "set (links_in (oscal_document env x observed reviewed)) =
     insert (plan_uuid env x) (party_uuid env x ` (\<Union>role\<in>set (oscal_roles x). set (snd (snd role))) \<union>
       set (links_in (result_element env x observed reviewed)))"
  unfolding oscal_document_def
  by (simp_all add: at_unless_empty_in objectives_at metadata_at comp_def del: concat_eq_Nil_conv) 

lemma length_keys [simp]: "length (occurrence_keys seen cs) = length cs"
  by (induction cs arbitrary: seen) auto

lemma finding_keys_zip: "map snd (zip (findings (oi_papers x)) (finding_keys x)) = finding_keys x"
  by (rule map_snd_zip) (simp add: finding_keys_def)

lemma collectE_with:
  "collectE (\<lambda>x. bindE (g x) (\<lambda>y. Inr [h x y])) xs = Inr ys \<longleftrightarrow> list_all2 (\<lambda>x j. \<exists>y. g x = Inr y \<and> j = h x y) xs ys"
  by (induction xs arbitrary: ys) (auto simp: bindE_Inr_iff list_all2_Cons1)

lemma observed_at:
  assumes "oscal_observations env x = Inr observed"
  shows "concat (map uuids_in observed) = map (observation_uuid env x) (finding_keys x)"
    "(\<Union>j\<in>set observed. set (links_in j)) \<subseteq> {platform_uuid env x, component_uuid env x} \<union> evidence_uuid env x ` set (cited x)"
proof -
  let ?fks = "zip (findings (oi_papers x)) (finding_keys x)"
  have all: "list_all2 (\<lambda>fk j. \<exists>seen. j = observation_element env x fk seen) ?fks observed"
    using assms unfolding oscal_observations_def collectE_with by (rule list_all2_mono) blast
  have uuids: "list_all2 (\<lambda>fk j. \<exists>seen. j = observation_element env x fk seen) fks js \<Longrightarrow>
      concat (map uuids_in js) = map (observation_uuid env x) (map snd fks)" for fks js
    by (induction fks js rule: list_all2_induct) (auto simp: observation_at)
  from uuids [OF all]
  show "concat (map uuids_in observed) = map (observation_uuid env x) (finding_keys x)" by (simp add: finding_keys_zip)
  have "set (links_in j) \<subseteq> {platform_uuid env x, component_uuid env x} \<union> evidence_uuid env x ` set (cited x)" if j: "j \<in> set observed" for j
  proof -
    from list_all2_set2 [OF all j] obtain fk seen where "fk \<in> set ?fks" "j = observation_element env x fk seen" by blast
    moreover obtain f k where "fk = (f, k)" by (cases fk)
    ultimately have fk: "(f, k) \<in> set ?fks" "j = observation_element env x (f, k) seen" by simp_all
    then have "f \<in> set (findings (oi_papers x))" by (auto dest: set_zip_leftD)
    then have "to_line (vault_id_reference f) \<noteq> [] \<Longrightarrow> to_line (vault_id_reference f) \<in> set (cited x)"
      by (auto simp: cited_def set_firsts)
    then show ?thesis by (auto simp: fk(2) observation_at)
  qed
  then show "(\<Union>j\<in>set observed. set (links_in j)) \<subseteq> {platform_uuid env x, component_uuid env x} \<union> evidence_uuid env x ` set (cited x)"
    by blast
qed

text \<open>The names of all elements, in the order of the document.\<close>

definition doc_names :: "oscal_env \<Rightarrow> oscal_input \<Rightarrow> string list list" where
  "doc_names env x =
     [[''assessment-results'']] @ map (\<lambda>n. [''party'', to_line n]) (party_names x) @
     [[''result''], [''component'', ''audit-scope''], [''assessment-platform'']] @
     (if oscal_conclusion x = None then [] else [[''engagement-conclusion'']]) @
     map (\<lambda>i. [''log'', nat_str i]) [0..<length (oi_trail x)] @
     map (\<lambda>k. [''observation'', k]) (finding_keys x) @
     concat (map (risk_names env x) (zip (deficiency_evaluations (oi_report x)) (deficiency_keys x))) @
     map (\<lambda>(f, k). [''finding'', k]) (filter (\<lambda>(f, k). has_finding x f) (zip (findings (oi_papers x)) (finding_keys x))) @
     [[''assessment-plan-reference'']] @ map (\<lambda>v. [''evidence'', v]) (cited x)"

lemma document_uuids:
  assumes "uuids_nonempty env" "oscal_observations env x = Inr observed" "reviewed_controls env x = Inr reviewed"
  shows "uuids_in (oscal_document env x observed reviewed) = map (element_uuid env x) (doc_names env x)"
proof -
  have log: "concat (map uuids_in (log_entries env x)) = map (\<lambda>i. element_uuid env x [''log'', nat_str i]) [0..<length (oi_trail x)]"
  proof -
    have "concat (map uuids_in (log_entries env x)) = map (\<lambda>i. element_uuid env x [''log'', nat_str i]) (map fst (zip [0..<length (oi_trail x)] (oi_trail x)))"
      unfolding map_map log_entries_def by (simp add: comp_def log_entry_at)
    then show ?thesis unfolding map_fst_zip [OF length_upt [of 0 "length (oi_trail x)", unfolded diff_zero]] .
  qed
  have risks: "concat (map uuids_in (oscal_risks env x)) =
      map (element_uuid env x) (concat (map (risk_names env x) (zip (deficiency_evaluations (oi_report x)) (deficiency_keys x))))"
    using risk_at(1) [OF assms(1)] by (simp add: oscal_risks_def comp_def map_concat)
  have findings: "concat (map uuids_in (oscal_findings env x)) =
      map (\<lambda>(f, k). element_uuid env x [''finding'', k]) (filter (\<lambda>(f, k). has_finding x f) (zip (findings (oi_papers x)) (finding_keys x)))"
    by (simp add: oscal_findings_def comp_def finding_at case_prod_unfold)
  show ?thesis
    unfolding document_at result_at(1) [OF reviewed_at [OF assms(3)] assms(1)] log risks findings observed_at(1) [OF assms(2)]
    by (simp add: doc_names_def comp_def party_uuid_def observation_uuid_def evidence_uuid_def plan_uuid_def component_uuid_def
        platform_uuid_def case_prod_unfold)
qed

section \<open>Every UUID names one element\<close>

lemma no_slash_split: "CHR ''/'' \<notin> set k \<Longrightarrow> CHR ''/'' \<notin> set k' \<Longrightarrow> k @ CHR ''/'' # a = k' @ CHR ''/'' # a' \<Longrightarrow> k = k' \<and> a = a'"
proof -
  assume k: "CHR ''/'' \<notin> set k" "CHR ''/'' \<notin> set k'" and eq: "k @ CHR ''/'' # a = k' @ CHR ''/'' # a'"
  have "takeWhile (\<lambda>c. c \<noteq> CHR ''/'') (k @ CHR ''/'' # a) = k" if "CHR ''/'' \<notin> set k" for k a
    using that by (subst takeWhile_append2) auto
  then have "k = k'" using k eq by metis
  then show "k = k' \<and> a = a'" using eq by simp
qed

definition element_text :: "oscal_input \<Rightarrow> string list \<Rightarrow> string" where
  "element_text x parts = join_with ''/'' (oi_session_id x # parts)"

lemma element_text_inject:
  assumes "m = [k] \<or> m = [k, a]" "n = [k'] \<or> n = [k', a']" "CHR ''/'' \<notin> set k" "CHR ''/'' \<notin> set k'"
    and "element_text x m = element_text x n"
  shows "m = n"
  using assms no_slash_split [OF assms(3,4), of a a'] by (auto simp: element_text_def)

text \<open>A name is a kind, without a slash, and at most one more part.\<close>

definition named :: "string list \<Rightarrow> bool" where
  "named n \<longleftrightarrow> (\<exists>k a. (n = [k] \<or> n = [k, a]) \<and> CHR ''/'' \<notin> set k)"

lemma namedI: "CHR ''/'' \<notin> set k \<Longrightarrow> named [k]" "CHR ''/'' \<notin> set k \<Longrightarrow> named [k, a]"
  by (auto simp: named_def)

lemma risk_names_named: "n \<in> set (risk_names env x ek) \<Longrightarrow> named n"
  by (cases ek) (auto simp: risk_names_def Let_def namedI split: if_splits option.splits)

lemma doc_names_named: "n \<in> set (doc_names env x) \<Longrightarrow> named n"
  unfolding doc_names_def by (auto simp: namedI split: if_splits dest: risk_names_named)

definition uuids_separate :: "oscal_env \<Rightarrow> oscal_input \<Rightarrow> bool" where
  "uuids_separate env x \<longleftrightarrow> inj_on (oe_uuid5 env) (element_text x ` set (doc_names env x))"

lemma uuid_inject:
  assumes "uuids_separate env x" "m \<in> set (doc_names env x)" "n \<in> set (doc_names env x)"
    and "element_uuid env x m = element_uuid env x n"
  shows "m = n"
proof -
  have "element_text x m = element_text x n"
    using assms by (auto simp: uuids_separate_def element_uuid_def element_text_def dest: inj_onD)
  moreover obtain k a k' a' where "m = [k] \<or> m = [k, a]" "CHR ''/'' \<notin> set k" "n = [k'] \<or> n = [k', a']" "CHR ''/'' \<notin> set k'"
    using doc_names_named assms(2,3) unfolding named_def by metis
  ultimately show ?thesis using element_text_inject by metis
qed

lemma hash_split: "\<forall>c\<in>set s. c \<noteq> CHR ''#'' \<Longrightarrow> \<forall>c\<in>set s'. c \<noteq> CHR ''#'' \<Longrightarrow> c @ CHR ''#'' # s = c' @ CHR ''#'' # s' \<Longrightarrow> c = c' \<and> s = s'"
proof -
  assume s: "\<forall>c\<in>set s. c \<noteq> CHR ''#''" "\<forall>c\<in>set s'. c \<noteq> CHR ''#''" and eq: "c @ CHR ''#'' # s = c' @ CHR ''#'' # s'"
  have "takeWhile (\<lambda>c. c \<noteq> CHR ''#'') (rev (c @ CHR ''#'' # s)) = rev s" if "\<forall>c\<in>set s. c \<noteq> CHR ''#''" for c s
    using that by (simp, subst takeWhile_append2) auto
  then have "rev s = rev s'" using s eq by metis
  then show "c = c' \<and> s = s'" using eq by simp
qed

lemma occurrence_key_inject: "c @ ''#'' @ nat_str m = c' @ ''#'' @ nat_str n \<Longrightarrow> c = c' \<and> m = n"
proof -
  assume eq: "c @ ''#'' @ nat_str m = c' @ ''#'' @ nat_str n"
  have "\<forall>d\<in>set (nat_str k). d \<noteq> CHR ''#''" for k using nat_str_digits [of k] by (auto simp: is_digit_def)
  from hash_split [OF this this, of c m c' n] eq have "c = c' \<and> nat_str m = nat_str n" by simp
  then show ?thesis by (metis str_nat_str)
qed

lemma occurrence_keys_from: "k \<in> set (occurrence_keys seen cs) \<Longrightarrow> \<exists>c n. k = c @ ''#'' @ nat_str n \<and> count_list seen c < n"
proof (induction cs arbitrary: seen)
  case (Cons c cs)
  show ?case
  proof (cases "k \<in> set (occurrence_keys (c # seen) cs)")
    case True
    from Cons.IH [OF this] obtain c' n where "k = c' @ ''#'' @ nat_str n" "count_list (c # seen) c' < n" by blast
    then show ?thesis by (intro exI [of _ c'] exI [of _ n]) (simp split: if_splits)
  next
    case False
    with Cons.prems show ?thesis by auto
  qed
qed simp

lemma occurrence_keys_distinct: "distinct (occurrence_keys seen cs)"
proof (induction cs arbitrary: seen)
  case (Cons c cs)
  have "c @ ''#'' @ nat_str (Suc (count_list seen c)) \<notin> set (occurrence_keys (c # seen) cs)"
  proof
    assume "c @ ''#'' @ nat_str (Suc (count_list seen c)) \<in> set (occurrence_keys (c # seen) cs)"
    from occurrence_keys_from [OF this] obtain c' n
      where k: "c @ ''#'' @ nat_str (Suc (count_list seen c)) = c' @ ''#'' @ nat_str n" "count_list (c # seen) c' < n" by blast
    from occurrence_key_inject [OF k(1)] have "c = c'" "Suc (count_list seen c) = n" by blast+
    with k(2) show False by simp
  qed
  with Cons show ?case by simp
qed simp

lemma distinct_concat_keys:
  assumes "distinct (map snd eks)" "\<And>ek. ek \<in> set eks \<Longrightarrow> distinct (F ek)"
    and "\<And>ek ek'. ek \<in> set eks \<Longrightarrow> ek' \<in> set eks \<Longrightarrow> snd ek \<noteq> snd ek' \<Longrightarrow> set (F ek) \<inter> set (F ek') = {}"
  shows "distinct (concat (map F eks))"
  using assms
proof (induction eks)
  case (Cons ek eks)
  have "set (F ek) \<inter> set (F ek') = {}" if "ek' \<in> set eks" for ek'
  proof -
    have "snd ek \<noteq> snd ek'" using Cons.prems(1) that by force
    then show ?thesis using Cons.prems(3) that by simp
  qed
  then have "set (F ek) \<inter> set (concat (map F eks)) = {}" by auto
  moreover have "distinct (concat (map F eks))" by (rule Cons.IH) (use Cons.prems in auto)
  ultimately show ?case using Cons.prems(2) by simp
qed simp

lemma deficiency_zip: "map snd (zip (deficiency_evaluations (oi_report x)) (deficiency_keys x)) = deficiency_keys x"
  by (rule map_snd_zip) (simp add: deficiency_keys_def)

lemma risk_names_in:
  "set (concat (map (risk_names env x) (zip (deficiency_evaluations (oi_report x)) (deficiency_keys x)))) \<subseteq> set (doc_names env x)"
  unfolding doc_names_def set_append by blast

text \<open>Names that differ in their kinds differ.\<close>

definition of_kinds :: "string list \<Rightarrow> string list list \<Rightarrow> bool" where
  "of_kinds ks ns \<longleftrightarrow> distinct ns \<and> hd ` set ns \<subseteq> set ks"

lemma of_kinds_append: "of_kinds ks ms \<Longrightarrow> of_kinds ls ns \<Longrightarrow> set ks \<inter> set ls = {} \<Longrightarrow> of_kinds (ks @ ls) (ms @ ns)"
  unfolding of_kinds_def by auto

lemma risk_names_distinct:
  assumes "uuids_separate env x"
  shows "distinct (concat (map (risk_names env x) (zip (deficiency_evaluations (oi_report x)) (deficiency_keys x))))"
proof (rule distinct_concat_keys)
  let ?eks = "zip (deficiency_evaluations (oi_report x)) (deficiency_keys x)"
  show "distinct (map snd ?eks)" unfolding deficiency_zip by (simp add: deficiency_keys_def occurrence_keys_distinct)
  show "distinct (risk_names env x ek)" for ek
    by (cases ek) (auto simp: risk_names_def Let_def split: option.split)
  fix ek ek' assume ek: "ek \<in> set ?eks" "ek' \<in> set ?eks" "snd ek \<noteq> snd ek'"
  have risk: "[''risk'', snd ek] \<in> set (doc_names env x)" if "ek \<in> set ?eks" for ek
  proof (rule subsetD [OF risk_names_in])
    have "[''risk'', snd ek] \<in> set (risk_names env x ek)" by (cases ek) (simp add: risk_names_def Let_def)
    then show "[''risk'', snd ek] \<in> set (concat (map (risk_names env x) ?eks))" using that by auto
  qed
  have "risk_uuid env x (snd ek) \<noteq> risk_uuid env x (snd ek')"
    using uuid_inject [OF assms risk [OF ek(1)] risk [OF ek(2)]] ek(3) by (auto simp: risk_uuid_def)
  then show "set (risk_names env x ek) \<inter> set (risk_names env x ek') = {}"
    using ek(3) by (cases ek; cases ek') (auto simp: risk_names_def Let_def split: if_splits option.splits)
qed

lemma reviewers_lines: "n \<in> set (oscal_reviewers x) \<Longrightarrow> to_line n = n"
proof -
  have "to_line n = n" if "n \<in> set (risk_reviewers x e)" for n e
    using that by (auto simp: risk_reviewers_def Let_def to_line_idem split: option.splits)
  moreover have "to_line n = n" if "n \<in> set (finding_reviewers x f)" for n f
    using that by (auto simp: finding_reviewers_def to_line_idem split: option.splits)
  moreover have "to_line n = n" if "n \<in> set (case oscal_conclusion x of None \<Rightarrow> [] | Some r \<Rightarrow> [to_line (ref_by r)])" for n
    using that by (cases "oscal_conclusion x") (simp_all add: to_line_idem)
  moreover assume "n \<in> set (oscal_reviewers x)"
  ultimately show ?thesis unfolding oscal_reviewers_def set_append set_concat set_map by blast
qed

lemma preparer_line: "to_line (oscal_preparer x) = oscal_preparer x"
  using to_line_blank by (auto simp: oscal_preparer_def to_line_idem value_line_def split: option.splits)

lemma filtered_names:
  assumes "role \<in> set (filter P (map (\<lambda>(i, t, ns). (i, t, g ns)) roles))"
  obtains i t ns where "(i, t, ns) \<in> set roles" "snd (snd role) = g ns"
proof -
  from assms obtain r where r: "r \<in> set roles" "role = (\<lambda>(i, t, ns). (i, t, g ns)) r" by auto
  obtain i t ns where "r = (i, t, ns)" by (cases r)
  with r show thesis by (intro that [of i t ns]) simp_all
qed

lemma roles_lines:
  assumes "role \<in> set (oscal_roles x)" "n \<in> set (snd (snd role))"
  shows "to_line n = n"
proof -
  obtain i t ns where r: "(i, t, ns) \<in> set
       [(''prepared-by'', ''Preparer (created the audit)'', [oscal_preparer x]),
        (''gate-approver'', ''Gate approver (Planning, Fieldwork or Reporting)'', map (\<lambda>e. value_line e ''human'') (gate_approvals x)),
        (''content-approver'', ''Report approver (Gate 3)'',
           map (\<lambda>e. value_line e ''human'') (filter (\<lambda>e. map_of e ''artifact'' = Some ''final_report'') (gate_approvals x))),
        (''reviewer'', ''Recorded reviewer decisions (or transcribed a management response)'', oscal_reviewers x)]"
      and names: "snd (snd role) = firsts (\<lambda>n. n) [] (filter (\<lambda>n. n \<noteq> []) ns)"
    using assms(1) unfolding oscal_roles_def by (rule filtered_names)
  have n: "n \<in> set ns" using assms(2) unfolding names set_firsts by simp
  have "ns = [oscal_preparer x] \<or> ns = oscal_reviewers x \<or> (\<exists>es. ns = map (\<lambda>e. value_line e ''human'') es)"
    using r unfolding list.set insert_iff prod.inject empty_iff by blast
  then show ?thesis
  proof (elim disjE exE)
    fix es assume "ns = map (\<lambda>e. value_line e ''human'') es"
    then show ?thesis using n by (auto simp: value_line_def to_line_idem)
  qed (use n preparer_line reviewers_lines in simp_all)
qed

lemma party_names_lines: "n \<in> set (party_names x) \<Longrightarrow> to_line n = n"
proof -
  have "to_line n = n" if "n \<in> set (risk_calls x e)" for n e
    using that by (auto simp: risk_calls_def Let_def to_line_idem split: option.splits)
  moreover have "to_line n = n" if "n \<in> set (filter (\<lambda>n. n \<noteq> []) (oscal_preparer x # map (\<lambda>e. value_line e ''human'') (oi_trail x)))" for n
    using that preparer_line by (auto simp: value_line_def to_line_idem split: if_splits)
  moreover have "to_line n = n" if "n \<in> set (concat (map (\<lambda>(i, title, names). names) (oscal_roles x)))" for n
    using that roles_lines by fastforce
  moreover have "to_line n = n" if "n \<in> set (case oscal_conclusion x of None \<Rightarrow> [] | Some r \<Rightarrow> [to_line (ref_by r)])" for n
    using that by (cases "oscal_conclusion x") (simp_all add: to_line_idem)
  moreover assume "n \<in> set (party_names x)"
  then have "n \<in> set (party_calls x)" by (simp add: party_names_def set_firsts)
  ultimately show ?thesis unfolding party_calls_def set_append set_concat set_map by blast
qed

lemma risk_names_kinds:
  "n \<in> set (risk_names env x ek) \<Longrightarrow> hd n \<in> set [''risk'', ''management-response'', ''remediation-verification'', ''recommendation'', ''action-plan'']"
  by (cases ek) (auto simp: risk_names_def Let_def split: if_splits option.splits)

lemma doc_names_distinct:
  assumes "uuids_separate env x"
  shows "distinct (doc_names env x)"
proof -
  let ?eks = "zip (deficiency_evaluations (oi_report x)) (deficiency_keys x)"
  let ?fks = "filter (\<lambda>(f, k). has_finding x f) (zip (findings (oi_papers x)) (finding_keys x))"
  have "distinct (map snd (zip (findings (oi_papers x)) (finding_keys x)))"
    unfolding finding_keys_zip by (simp add: finding_keys_def occurrence_keys_distinct)
  then have "distinct (map snd ?fks)" by (rule distinct_map_filter)
  then have findings: "distinct (map (\<lambda>(f, k). [''finding'', k]) ?fks)"
    by (auto simp: distinct_map inj_on_def)
  have parties: "distinct (map (\<lambda>n. [''party'', to_line n]) (party_names x))"
    using party_names_lines by (auto simp: distinct_map inj_on_def party_names_def distinct_firsts)
  have "distinct (map (\<lambda>i. [''log'', nat_str i]) [0..<length (oi_trail x)])"
    by (auto simp: distinct_map inj_on_def) (metis str_nat_str)
  then have "of_kinds [''log''] (map (\<lambda>i. [''log'', nat_str i]) [0..<length (oi_trail x)])" by (auto simp: of_kinds_def)
  moreover have "of_kinds [''observation''] (map (\<lambda>k. [''observation'', k]) (finding_keys x))"
    "of_kinds [''evidence''] (map (\<lambda>v. [''evidence'', v]) (cited x))"
    by (auto simp: of_kinds_def distinct_map inj_on_def finding_keys_def occurrence_keys_distinct cited_def distinct_firsts)
  moreover have "of_kinds [''risk'', ''management-response'', ''remediation-verification'', ''recommendation'', ''action-plan'']
      (concat (map (risk_names env x) ?eks))"
    unfolding of_kinds_def
    by (intro conjI risk_names_distinct [OF assms] image_subsetI) (unfold set_concat set_map, blast dest: risk_names_kinds)
  moreover have "of_kinds [''finding''] (map (\<lambda>(f, k). [''finding'', k]) ?fks)" "of_kinds [''party''] (map (\<lambda>n. [''party'', to_line n]) (party_names x))"
    using findings parties by (auto simp: of_kinds_def)
  moreover have "of_kinds [''engagement-conclusion''] (if oscal_conclusion x = None then [] else [[''engagement-conclusion'']])"
    "of_kinds [''assessment-results''] [[''assessment-results'']]" "of_kinds [''assessment-plan-reference''] [[''assessment-plan-reference'']]"
    "of_kinds [''result'', ''component'', ''assessment-platform''] [[''result''], [''component'', ''audit-scope''], [''assessment-platform'']]"
    by (simp_all add: of_kinds_def)
  ultimately have "of_kinds ([''assessment-results''] @ [''party''] @ [''result'', ''component'', ''assessment-platform''] @
      [''engagement-conclusion''] @ [''log''] @ [''observation''] @
      [''risk'', ''management-response'', ''remediation-verification'', ''recommendation'', ''action-plan''] @ [''finding''] @
      [''assessment-plan-reference''] @ [''evidence'']) (doc_names env x)"
    unfolding doc_names_def by (intro of_kinds_append) (assumption | simp)+
  then show ?thesis by (simp add: of_kinds_def)
qed

end
