(* ===== verification/OscalClaims.thy ===== *)
theory OscalClaims
  imports OscalProps
begin

text \<open>
  What an OSCAL document promises: its UUIDs are distinct, its references resolve, its findings are
  the conclusions of record, and the comparison of two documents reports what got worse.
\<close>

section \<open>References resolve\<close>

definition doc_uuids :: "oscal_env \<Rightarrow> oscal_input \<Rightarrow> string set" where
  "doc_uuids env x = element_uuid env x ` set (doc_names env x)"

lemma named_uuid: "n \<in> set (doc_names env x) \<Longrightarrow> element_uuid env x n \<in> doc_uuids env x"
  unfolding doc_uuids_def by (rule imageI)

lemma fixed_names:
  "[''assessment-plan-reference''] \<in> set (doc_names env x)" "[''component'', ''audit-scope''] \<in> set (doc_names env x)"
  "[''assessment-platform''] \<in> set (doc_names env x)"
  unfolding doc_names_def set_append by simp_all

lemma party_named: "to_line n \<in> set (party_calls x) \<Longrightarrow> party_uuid env x n \<in> doc_uuids env x"
proof -
  assume "to_line n \<in> set (party_calls x)"
  then have "to_line n \<in> set (party_names x)" by (simp add: party_names_def set_firsts)
  then have "[''party'', to_line (to_line n)] \<in> (\<lambda>n. [''party'', to_line n]) ` set (party_names x)" by (rule imageI)
  then have "[''party'', to_line n] \<in> set (doc_names env x)"
    unfolding to_line_idem doc_names_def set_append set_map by (intro UnI1 UnI2)
  then show ?thesis unfolding party_uuid_def by (rule named_uuid)
qed

lemma evidence_named: "v \<in> set (cited x) \<Longrightarrow> evidence_uuid env x v \<in> doc_uuids env x"
  unfolding evidence_uuid_def by (rule named_uuid) (unfold doc_names_def set_append set_map, blast)

lemma observation_named:
  "k \<in> set (finding_keys x) \<Longrightarrow> observation_uuid env x k \<in> doc_uuids env x"
  unfolding observation_uuid_def by (rule named_uuid) (unfold doc_names_def set_append set_map, blast)

lemma observations_named: "set (observations_of env x c) \<subseteq> doc_uuids env x"
  by (auto simp: observations_of_def intro!: observation_named dest: set_zip_rightD)

lemma risk_named:
  assumes "(e, k) \<in> set (zip (deficiency_evaluations (oi_report x)) (deficiency_keys x))"
  shows "risk_uuid env x k \<in> doc_uuids env x"
proof -
  have "[''risk'', k] \<in> set (risk_names env x (e, k))" by (simp add: risk_names_def Let_def)
  with assms have "[''risk'', k] \<in> set (concat (map (risk_names env x) (zip (deficiency_evaluations (oi_report x)) (deficiency_keys x))))"
    by auto
  then have "[''risk'', k] \<in> set (doc_names env x)" by (rule subsetD [OF risk_names_in])
  then show ?thesis unfolding risk_uuid_def by (rule named_uuid)
qed

lemma risks_named: "set (risks_of env x c) \<subseteq> doc_uuids env x"
  using risk_named by (auto simp: risks_of_def)

text \<open>Every person named anywhere is a party.\<close>

lemma role_called: "role \<in> set (oscal_roles x) \<Longrightarrow> n \<in> set (snd (snd role)) \<Longrightarrow> to_line n \<in> set (party_calls x)"
proof -
  assume r: "role \<in> set (oscal_roles x)" "n \<in> set (snd (snd role))"
  then have "n \<in> (\<Union>role\<in>set (oscal_roles x). set ((\<lambda>(i, title, names). names) role))" by (intro UN_I [of role]) (cases role; simp)+
  then have "n \<in> set (party_calls x)" unfolding party_calls_def set_append set_concat set_map by blast
  then show "to_line n \<in> set (party_calls x)" using roles_lines [OF r] by simp
qed

lemma conclusion_called: "oscal_conclusion x = Some r \<Longrightarrow> to_line (ref_by r) \<in> set (party_calls x)"
  unfolding party_calls_def by simp

lemma actor_called: "e \<in> set (oi_trail x) \<Longrightarrow> value_line e ''human'' \<noteq> [] \<Longrightarrow> to_line (value_line e ''human'') \<in> set (party_calls x)"
  unfolding party_calls_def set_append set_filter by (simp add: value_line_def to_line_idem)

lemma risk_called:
  "e \<in> set (deficiency_evaluations (oi_report x)) \<Longrightarrow> n \<in> set (risk_calls x e) \<Longrightarrow> to_line n \<in> set (party_calls x)"
proof -
  assume e: "e \<in> set (deficiency_evaluations (oi_report x))" and n: "n \<in> set (risk_calls x e)"
  then have "n \<in> set (party_calls x)" unfolding party_calls_def set_append set_concat set_map by blast
  moreover have "to_line n = n" using n by (auto simp: risk_calls_def Let_def to_line_idem split: option.splits)
  ultimately show ?thesis by simp
qed

lemma risk_links:
  assumes "uuids_nonempty env" "j \<in> set (oscal_risks env x)"
  shows "set (links_in j) \<subseteq> doc_uuids env x"
proof -
  obtain e k where ek: "(e, k) \<in> set (zip (deficiency_evaluations (oi_report x)) (deficiency_keys x))" "j = oscal_risk env x (e, k)"
    using assms(2) by (auto simp: oscal_risks_def)
  then have "e \<in> set (deficiency_evaluations (oi_report x))" by (auto dest: set_zip_leftD)
  then have "party_uuid env x ` set (risk_calls x e) \<subseteq> doc_uuids env x"
    using risk_called party_named by blast
  moreover have "platform_uuid env x \<in> doc_uuids env x"
    unfolding platform_uuid_def by (rule named_uuid [OF fixed_names(3)])
  moreover have "(\<Union>c\<in>set (related_findings e). set (observations_of env x c)) \<subseteq> doc_uuids env x"
    using observations_named by (rule UN_least)
  ultimately have "insert (platform_uuid env x)
      (party_uuid env x ` set (risk_calls x e) \<union> (\<Union>c\<in>set (related_findings e). set (observations_of env x c))) \<subseteq> doc_uuids env x"
    by (intro insert_subsetI Un_least)
  then show ?thesis using risk_at(2) [OF assms(1), of x "(e, k)"] unfolding ek(2) fst_conv by (rule subset_trans [rotated])
qed

lemma finding_links: "j \<in> set (oscal_findings env x) \<Longrightarrow> set (links_in j) \<subseteq> doc_uuids env x"
proof -
  assume "j \<in> set (oscal_findings env x)"
  then obtain f k where fk: "(f, k) \<in> set (zip (findings (oi_papers x)) (finding_keys x))" "j = oscal_finding env x (f, k)"
    by (auto simp: oscal_findings_def)
  then have "k \<in> set (finding_keys x)" by (auto dest: set_zip_rightD)
  then show ?thesis using observation_named risks_named unfolding fk(2) finding_at by simp
qed

lemma log_links: "j \<in> set (log_entries env x) \<Longrightarrow> set (links_in j) \<subseteq> doc_uuids env x"
proof -
  assume "j \<in> set (log_entries env x)"
  then obtain i e where e: "e \<in> set (oi_trail x)" "j = log_entry env x (i, e)"
    by (auto simp: log_entries_def dest: set_zip_rightD)
  then show ?thesis using party_named [OF actor_called [OF e(1)]] by (simp add: log_entry_at)
qed

lemma document_links:
  assumes "uuids_nonempty env" "oscal_observations env x = Inr observed" "reviewed_controls env x = Inr reviewed"
  shows "set (links_in (oscal_document env x observed reviewed)) \<subseteq> doc_uuids env x"
proof -
  have roles: "party_uuid env x ` (\<Union>role\<in>set (oscal_roles x). set (snd (snd role))) \<subseteq> doc_uuids env x"
    using role_called party_named by blast
  have fixed: "plan_uuid env x \<in> doc_uuids env x" "platform_uuid env x \<in> doc_uuids env x" "component_uuid env x \<in> doc_uuids env x"
    unfolding plan_uuid_def platform_uuid_def component_uuid_def using fixed_names by (auto intro: named_uuid)
  then have observed: "(\<Union>j\<in>set observed. set (links_in j)) \<subseteq> doc_uuids env x"
    using observed_at(2) [OF assms(2)] evidence_named by blast
  have conclusion: "(case oscal_conclusion x of None \<Rightarrow> {} | Some r \<Rightarrow> {party_uuid env x (ref_by r)}) \<subseteq> doc_uuids env x"
    using conclusion_called party_named by (auto split: option.split)
  have "set (links_in (result_element env x observed reviewed)) \<subseteq> doc_uuids env x"
    unfolding result_at(2) [OF reviewed_at [OF assms(3)] assms(1)]
    by (intro Un_least conclusion observed UN_least [OF log_links] UN_least [OF risk_links [OF assms(1)]] UN_least [OF finding_links])
  then show ?thesis unfolding document_at(2) using roles fixed(1) by simp
qed

lemma built_document:
  "build_assessment_results env x = Inr doc \<Longrightarrow>
     \<exists>observed reviewed. oscal_observations env x = Inr observed \<and> reviewed_controls env x = Inr reviewed \<and>
       doc = oscal_document env x observed reviewed"
  by (auto simp: build_assessment_results_def bindE_Inr_iff)

text \<open>C26. [oscal_document_linked] A document that is built has no UUID twice, and every reference in it is the UUID of one of its elements\<close>

theorem oscal_document_linked:
  assumes "build_assessment_results env x = Inr doc" "uuids_nonempty env" "uuids_separate env x"
  shows "distinct (uuids_in doc) \<and> set (links_in doc) \<subseteq> set (uuids_in doc)"
proof -
  obtain observed reviewed where o: "oscal_observations env x = Inr observed" "reviewed_controls env x = Inr reviewed"
      and doc: "doc = oscal_document env x observed reviewed"
    using built_document [OF assms(1)] by blast
  have "inj_on (element_uuid env x) (set (doc_names env x))" using uuid_inject [OF assms(3)] by (rule inj_onI)
  then have "distinct (map (element_uuid env x) (doc_names env x))"
    using doc_names_distinct [OF assms(3)] by (simp add: distinct_map)
  then show ?thesis using document_links [OF assms(2) o] unfolding doc document_uuids [OF assms(2) o] set_map doc_uuids_def by simp
qed


text \<open>An engagement in which one control is satisfied at first, and has an exception and an open risk later.\<close>

definition sample_oscal_env :: oscal_env where
  "sample_oscal_env = \<lparr>oe_uuid5 = (\<lambda>s. ''u'' @ s), oe_instant = (\<lambda>_. None), oe_now = ''now'', oe_markup = (\<lambda>s. s),
     oe_lookup = (\<lambda>_. None), oe_check = None\<rparr>"

definition sample_deficiency :: deficiency where
  "sample_deficiency = \<lparr>deficiency_id = ''DEF-01'', e_title = ''t'', related_findings = [''C-1''], related_risks = [],
     compensating_controls = [], likelihood = RATING_LOW, magnitude = RATING_LOW, classification = CONTROL_DEFICIENCY,
     e_rationale = ''r''\<rparr>"

definition sample_input :: "finding list \<Rightarrow> deficiency list \<Rightarrow> oscal_input" where
  "sample_input fs es = \<lparr>oi_session_id = ''s'', oi_session_name = ''n'', oi_status = ''COMPLETED'', oi_report_state = ''approved'',
     oi_theme = ''T'',
     oi_report = \<lparr>executive_summary = ''e'', detailed_report = [], compliance_tone_approved = True, deficiency_evaluations = es,
       rp_scale = Some ICFR, rp_oscal_sar = None\<rparr>,
     oi_papers = \<lparr>wp_theme = ''T'', findings = fs\<rparr>, oi_racm = None,
     oi_trail = [[(''human'', ''Ann''), (''action'', ''audit_created'')]], oi_prepared_by = [], oi_view = None, oi_digest = ''d''\<rparr>"

definition sample_before :: oscal_input where
  "sample_before = sample_input [sample_finding] []"

definition sample_after :: oscal_input where
  "sample_after = sample_input [sample_finding\<lparr>toe_conclusion := TOE_INEFFECTIVE, f_result := Some EXCEPTION\<rparr>] [sample_deficiency]"

lemma sample_builds:
  assumes "fs \<noteq> []"
  shows "\<exists>doc. build_assessment_results sample_oscal_env (sample_input fs es) = Inr doc"
proof -
  have ids: "reviewed_ids (sample_input fs es) \<noteq> []"
  proof -
    obtain f gs where "fs = f # gs" using assms by (cases fs) auto
    then have "f_control_id f \<in> set (reviewed_ids (sample_input fs es))"
      by (simp add: reviewed_ids_def set_firsts sample_input_def)
    then show ?thesis by force
  qed
  have "quote_verified sample_oscal_env f = Inr None" for f by (simp add: quote_verified_def sample_oscal_env_def Let_def)
  then have "oscal_observations sample_oscal_env (sample_input fs es) =
      Inr (concat (map (\<lambda>fk. [observation_element sample_oscal_env (sample_input fs es) fk None])
        (zip (findings (oi_papers (sample_input fs es))) (finding_keys (sample_input fs es)))))"
    unfolding oscal_observations_def by (intro collectE_all) simp
  then show ?thesis using ids by (auto simp: build_assessment_results_def reviewed_controls_def)
qed

lemma sample_uuids: "uuids_nonempty sample_oscal_env" "uuids_separate sample_oscal_env x"
  by (simp_all add: uuids_nonempty_def uuids_separate_def sample_oscal_env_def inj_on_def)

lemma oscal_document_linked_witness:
  "\<exists>doc. build_assessment_results sample_oscal_env sample_after = Inr doc \<and> distinct (uuids_in doc) \<and> set (links_in doc) \<subseteq> set (uuids_in doc)"
proof -
  obtain doc where doc: "build_assessment_results sample_oscal_env sample_after = Inr doc"
    using sample_builds unfolding sample_after_def by (metis list.distinct(1))
  from oscal_document_linked [OF this sample_uuids] show ?thesis using doc by blast
qed

section \<open>Findings and risks of a document\<close>

text \<open>What a document records of each control and each deficiency.\<close>

definition finding_states :: "oscal_input \<Rightarrow> (string \<times> string) list" where
  "finding_states x =
     map (\<lambda>f. (token (f_control_id f), if satisfied x f then ''satisfied'' else ''not-satisfied''))
       (filter (has_finding x) (findings (oi_papers x)))"

definition risk_states :: "oscal_input \<Rightarrow> (string \<times> string) list" where
  "risk_states x =
     map (\<lambda>e. (to_line (deficiency_id e), if remediated (deficiency_record x e) then ''closed'' else ''open''))
       (deficiency_evaluations (oi_report x))"

lemma given_get [simp]:
  "dict_get_or (given_keys []) k d = d"
  "dict_get_or (given_keys ((k', Some v) # ps)) k d = (if k = k' then v else dict_get_or (given_keys ps) k d)"
  "dict_get_or (given_keys ((k', None) # ps)) k d = dict_get_or (given_keys ps) k d"
  by (simp_all add: dict_get_or_def given_keys_def)

lemma given_get_other: "k \<noteq> k' \<Longrightarrow> dict_get_or (given_keys ((k', v) # ps)) k d = dict_get_or (given_keys ps) k d"
  by (cases v) simp_all

lemma given_get_unless_empty [simp]:
  "dict_get_or (given_keys [(k, unless_empty xs), (k', Some v)]) k (JList []) = (if k = k' \<and> xs = [] then v else JList xs)"
  "dict_get_or (given_keys [(k, unless_empty xs), (k', unless_empty ys), (k'', Some v)]) k (JList []) =
     (if xs = [] \<and> k = k' \<and> ys \<noteq> [] then JList ys else if xs = [] \<and> k = k'' then v else JList xs)"
  by (simp_all add: unless_empty_def)

lemma get_from_obj [simp]: "get_from (JObj ps) k d = Inr (dict_get_or ps k d)"
  by (simp add: get_from_def)

lemma plain_get [simp]: "dict_get_or [] k d = d" "dict_get_or ((k', v) # ps) k d = (if k = k' then v else dict_get_or ps k d)"
  by (simp_all add: dict_get_or_def)

lemma document_first_result:
  "first_result (oscal_document env x observed reviewed) = Inr (Some (result_element env x observed reviewed))"
  by (simp add: first_result_def oscal_document_def given_get_other first_item_def)

lemma result_findings: "get_from (result_element env x observed reviewed) ''findings'' (JList []) = Inr (JList (oscal_findings env x))"
  unfolding result_element_def by (simp add: given_get_other)

lemma result_risks: "get_from (result_element env x observed reviewed) ''risks'' (JList []) = Inr (JList (oscal_risks env x))"
  unfolding result_element_def by (simp add: given_get_other)


lemma collectE_map:
  "(\<And>y. y \<in> set ys \<Longrightarrow> g (h y) = Inr (s y)) \<Longrightarrow> collectE (\<lambda>x. bindE (g x) (\<lambda>y. Inr [y])) (map h ys) = Inr (map s ys)"
  by (induction ys) simp_all

lemma filter_zip_left:
  "length xs = length ks \<Longrightarrow> map (\<lambda>(x, k). h x) (filter (\<lambda>(x, k). P x) (zip xs ks)) = map h (filter P xs)"
  by (induction xs ks rule: list_induct2) auto

lemma map_zip_left: "length xs = length ks \<Longrightarrow> map (\<lambda>(x, k). h x) (zip xs ks) = map h xs"
  by (induction xs ks rule: list_induct2) auto

lemma token_nonempty: "token v \<noteq> []"
  by (simp add: token_def Let_def)

lemma finding_state_of:
  "finding_state (oscal_finding env x (f, k)) = Inr (token (f_control_id f), if satisfied x f then ''satisfied'' else ''not-satisfied'')"
  unfolding finding_state_def oscal_finding_def prod.case Let_def
  by (simp add: finding_status_def)

lemma dict_set_new: "k \<notin> fst ` set d \<Longrightarrow> dict_set k v d = d @ [(k, v)]"
  by (induction d) auto

lemma dict_filled:
  assumes "\<And>s. s \<in> set ss \<Longrightarrow> P s" "distinct (map fst (out @ ss))"
  shows "foldl (\<lambda>out s. if P s then dict_set (fst s) (snd s) out else out) out ss = out @ ss"
  using assms
proof (induction ss arbitrary: out)
  case (Cons s ss)
  have "dict_set (fst s) (snd s) out = out @ [s]" using Cons.prems(2) by (simp add: dict_set_new)
  moreover have "foldl (\<lambda>out s. if P s then dict_set (fst s) (snd s) out else out) (out @ [s]) ss = (out @ [s]) @ ss"
    by (rule Cons.IH) (use Cons.prems in auto)
  ultimately show ?case using Cons.prems(1) by simp
qed simp

lemma note_state_fun: "note_state = (\<lambda>out s. if fst s \<noteq> [] \<and> snd s \<noteq> [] then dict_set (fst s) (snd s) out else out)"
  by (intro ext) (simp add: note_state_def)

lemma document_findings_filled:
  "findings_map (oscal_document env x observed reviewed) = Inr (foldl note_state [] (finding_states x))"
proof -
  let ?fks = "filter (\<lambda>(f, k). has_finding x f) (zip (findings (oi_papers x)) (finding_keys x))"
  let ?s = "\<lambda>f. (token (f_control_id f), if satisfied x f then ''satisfied'' else ''not-satisfied'')"
  have "collectE (\<lambda>f. bindE (finding_state f) (\<lambda>s. Inr [s])) (oscal_findings env x) = Inr (map (\<lambda>(f, k). ?s f) ?fks)"
    unfolding oscal_findings_def by (rule collectE_map) (auto simp: finding_state_of)
  also have "map (\<lambda>(f, k). ?s f) ?fks = finding_states x"
    unfolding finding_states_def by (rule filter_zip_left) (simp add: finding_keys_def)
  finally show ?thesis by (simp add: findings_map_def document_first_result result_findings json_items_def)
qed

lemma document_findings:
  assumes "distinct (map fst (finding_states x))"
  shows "findings_map (oscal_document env x observed reviewed) = Inr (finding_states x)"
proof -
  have "foldl note_state [] (finding_states x) = [] @ finding_states x"
    unfolding note_state_fun by (rule dict_filled) (use assms token_nonempty in \<open>auto simp: finding_states_def split: if_splits\<close>)
  then show ?thesis by (simp add: document_findings_filled)
qed

text \<open>No property of a risk but the first is named deficiency-id.\<close>

definition other_props :: "json list \<Rightarrow> bool" where
  "other_props js \<longleftrightarrow> (\<forall>j\<in>set js. \<exists>n v. j = oscal_prop n v \<and> n \<noteq> ''deficiency-id'')"

lemma other_props_append [simp]: "other_props (js @ ks) \<longleftrightarrow> other_props js \<and> other_props ks"
  by (auto simp: other_props_def)

lemma other_props_of [simp]: "\<forall>(n, v)\<in>set ps. n \<noteq> ''deficiency-id'' \<Longrightarrow> other_props (oscal_props ps)"
  by (auto simp: other_props_def oscal_props_def)

lemma other_props_map [simp]: "n \<noteq> ''deficiency-id'' \<Longrightarrow> other_props (map (oscal_prop n) vs)"
  by (auto simp: other_props_def)

lemma other_props_nil [simp]: "other_props []"
  by (simp add: other_props_def)

lemma other_props_decided [simp]: "other_props (decided_props env [] r)" "other_props (decided_props env ''remediation-'' r)"
  by (cases r; simp add: decided_props_def)+

lemma other_props_remediation [simp]: "other_props (remediation_props env r)"
  by (cases r; simp add: remediation_props_def)

lemma risk_props_id:
  assumes "to_line (deficiency_id e) \<noteq> []"
  shows "\<exists>js. risk_props env x dv e = oscal_prop ''deficiency-id'' (deficiency_id e) # js \<and> other_props js"
proof -
  have first: "oscal_props ((n, v) # ps) = (if to_line v = [] then [] else [oscal_prop n v]) @ oscal_props ps" for n v ps
    by (simp add: oscal_props_def)
  show ?thesis unfolding risk_props_def Let_def first [of "''deficiency-id''"] using assms by (cases dv) simp_all
qed

lemma last_id:
  assumes "other_props js"
  shows "\<exists>ps. collectE (\<lambda>p. bindE (prop_pair p) (\<lambda>s. Inr [s])) js = Inr ps \<and> map_of (rev ps) (JStr ''deficiency-id'') = None"
  using assms
proof (induction js)
  case (Cons j js)
  then obtain n v where "j = oscal_prop n v" "n \<noteq> ''deficiency-id''" by (auto simp: other_props_def)
  moreover from Cons obtain ps where "collectE (\<lambda>p. bindE (prop_pair p) (\<lambda>s. Inr [s])) js = Inr ps"
      "map_of (rev ps) (JStr ''deficiency-id'') = None" by (auto simp: other_props_def)
  ultimately show ?case by (simp add: prop_pair_def oscal_prop_def map_add_def)
qed simp

lemma risk_status_of:
  assumes "to_line (deficiency_id e) \<noteq> []"
  shows "risk_status (oscal_risk env x (e, k)) =
     Inr (to_line (deficiency_id e), if remediated (deficiency_record x e) then ''closed'' else ''open'')"
proof -
  obtain js where js: "risk_props env x (deficiency_record x e) e = oscal_prop ''deficiency-id'' (deficiency_id e) # js" "other_props js"
    using risk_props_id [OF assms] by blast
  from last_id [OF js(2)] obtain ps where "collectE (\<lambda>p. bindE (prop_pair p) (\<lambda>s. Inr [s])) js = Inr ps"
    "map_of (rev ps) (JStr ''deficiency-id'') = None" by blast
  then show ?thesis using assms unfolding risk_status_def oscal_risk_def prod.case Let_def js(1)
    by (simp add: given_get_other json_items_def prop_pair_def oscal_prop_def map_add_def)
qed

lemma document_risks:
  assumes "distinct (map fst (risk_states x))" "[] \<notin> fst ` set (risk_states x)"
  shows "risks_map (oscal_document env x observed reviewed) = Inr (risk_states x)"
proof -
  let ?s = "\<lambda>e. (to_line (deficiency_id e), if remediated (deficiency_record x e) then ''closed'' else ''open'')"
  have "to_line (deficiency_id e) \<noteq> []" if "e \<in> set (deficiency_evaluations (oi_report x))" for e
    using assms(2) that by (force simp: risk_states_def)
  then have "collectE (\<lambda>f. bindE (risk_status f) (\<lambda>s. Inr [s])) (oscal_risks env x) =
      Inr (map (\<lambda>(e, k). ?s e) (zip (deficiency_evaluations (oi_report x)) (deficiency_keys x)))"
    unfolding oscal_risks_def by (intro collectE_map) (auto simp: risk_status_of dest: set_zip_leftD)
  also have "map (\<lambda>(e, k). ?s e) (zip (deficiency_evaluations (oi_report x)) (deficiency_keys x)) = risk_states x"
    unfolding risk_states_def by (rule map_zip_left) (simp add: deficiency_keys_def)
  finally have states: "collectE (\<lambda>f. bindE (risk_status f) (\<lambda>s. Inr [s])) (oscal_risks env x) = Inr (risk_states x)" .
  have "foldl (\<lambda>out s. if fst s \<noteq> [] then dict_set (fst s) (snd s) out else out) [] (risk_states x) = [] @ risk_states x"
    by (rule dict_filled) (use assms in \<open>auto simp: image_iff\<close>)
  then show ?thesis by (simp add: risks_map_def document_first_result result_risks json_items_def states)
qed

section \<open>The trail property leaves the findings and risks alone\<close>

lemma at_key_get:
  "get_from (at_key k g (JObj ps)) k' d = Inr (if k' = k then (case map_of ps k of None \<Rightarrow> d | Some v \<Rightarrow> g v) else dict_get_or ps k' d)"
  by (induction ps) (auto simp: at_key_def dict_get_or_def)

lemma append_prop_get: "k \<noteq> ''props'' \<Longrightarrow> get_from (append_prop p (JObj ps)) k d = get_from (JObj ps) k d"
  by (auto simp: append_prop_def at_key_get dict_get_or_def map_add_def simp del: get_from_obj) (simp_all add: get_from_def dict_get_or_def map_add_def split: option.split)

lemma result_element_obj: "\<exists>ps. result_element env x observed reviewed = JObj ps"
  unfolding result_element_def by blast

lemma exported_first_result:
  "\<exists>p. first_result (with_trail_prop (oscal_document env x observed reviewed) st detail) =
     Inr (Some (append_prop p (result_element env x observed reviewed)))"
proof -
  let ?r = "result_element env x observed reviewed"
  have "\<exists>ps. oscal_document env x observed reviewed = JObj [(''assessment-results'', JObj ps)] \<and> dict_get_or ps ''results'' JNull = JList [?r]"
    unfolding oscal_document_def by (intro exI conjI, rule refl) (simp add: given_get_other)
  then obtain ps where ps: "oscal_document env x observed reviewed = JObj [(''assessment-results'', JObj ps)]" "map_of ps ''results'' = Some (JList [?r])"
    by (auto simp: dict_get_or_def split: option.splits)
  show ?thesis
    unfolding with_trail_prop_def Let_def ps(1)
    by (simp add: first_result_def at_key_get ps(2) each_item_def first_item_def del: get_from_obj) (intro conjI impI exI; rule refl)
qed

lemma exported_get:
  assumes "first_result doc = Inr (Some (append_prop p (result_element env x observed reviewed)))" "k \<noteq> ''props''"
  shows "get_from (append_prop p (result_element env x observed reviewed)) k d = get_from (result_element env x observed reviewed) k d"
  using result_element_obj append_prop_get [OF assms(2)] by metis

lemma exported_maps:
  "findings_map (with_trail_prop (oscal_document env x observed reviewed) st detail) = findings_map (oscal_document env x observed reviewed)"
  "risks_map (with_trail_prop (oscal_document env x observed reviewed) st detail) = risks_map (oscal_document env x observed reviewed)"
proof -
  obtain p where p: "first_result (with_trail_prop (oscal_document env x observed reviewed) st detail) =
     Inr (Some (append_prop p (result_element env x observed reviewed)))" using exported_first_result by blast
  show "findings_map (with_trail_prop (oscal_document env x observed reviewed) st detail) = findings_map (oscal_document env x observed reviewed)"
    "risks_map (with_trail_prop (oscal_document env x observed reviewed) st detail) = risks_map (oscal_document env x observed reviewed)"
    by (simp_all add: findings_map_def risks_map_def p document_first_result exported_get [OF p])
qed

section \<open>The comparison\<close>

definition entries_distinct :: "oscal_input \<Rightarrow> bool" where
  "entries_distinct x \<longleftrightarrow> distinct (map fst (finding_states x)) \<and> distinct (map fst (risk_states x)) \<and> [] \<notin> fst ` set (risk_states x)"

text \<open>A control that is satisfied, one that is not, and an open risk.\<close>

definition passes :: "oscal_input \<Rightarrow> string \<Rightarrow> bool" where
  "passes x c \<longleftrightarrow> (\<exists>f\<in>set (findings (oi_papers x)). token (f_control_id f) = c \<and> satisfied x f)"

definition fails :: "oscal_input \<Rightarrow> string \<Rightarrow> bool" where
  "fails x c \<longleftrightarrow> (\<exists>f\<in>set (findings (oi_papers x)). token (f_control_id f) = c \<and> has_finding x f \<and> \<not> satisfied x f)"

definition open_risk :: "oscal_input \<Rightarrow> string \<Rightarrow> bool" where
  "open_risk x i \<longleftrightarrow>
     (\<exists>e\<in>set (deficiency_evaluations (oi_report x)). to_line (deficiency_id e) = i \<and> \<not> remediated (deficiency_record x e))"

lemma satisfied_has_finding: "satisfied x f \<Longrightarrow> has_finding x f"
  by (simp add: satisfied_def has_finding_def)

lemma finding_state_iff:
  "(c, ''satisfied'') \<in> set (finding_states x) \<longleftrightarrow> passes x c"
  "(c, ''not-satisfied'') \<in> set (finding_states x) \<longleftrightarrow> fails x c"
  using satisfied_has_finding by (auto simp: finding_states_def passes_def fails_def split: if_splits)

lemma risk_state_iff: "(i, ''open'') \<in> set (risk_states x) \<longleftrightarrow> open_risk x i"
  by (auto simp: risk_states_def open_risk_def split: if_splits)

lemma set_picked: "set (sort (map fst (filter (\<lambda>(c, s). s = a \<and> P c) ps))) = {c. (c, a) \<in> set ps \<and> P c}"
  by force


lemma line_nonempty: "to_line ''DEF-01'' \<noteq> []"
  by code_simp

lemma sample_token: "token ''C-1'' = ''C-1''"
  by code_simp

lemma sample_states:
  "entries_distinct sample_before" "entries_distinct sample_after" "passes sample_before ''C-1''" "fails sample_after ''C-1''"
  using line_nonempty sample_token
  by (simp_all add: entries_distinct_def passes_def fails_def finding_states_def risk_states_def sample_before_def sample_after_def sample_input_def
      sample_finding_def sample_deficiency_def satisfied_def has_finding_def result_of_record_def finding_record_def)


text \<open>
  Control ids that differ only in characters outside a token are one control in the comparison: an exception in
  the first of them does not show.
\<close>

lemma sample_tokens: "token ''AC 1'' = ''AC_1''" "token ''AC_1'' = ''AC_1''"
  by code_simp+

lemma token_collision_masks:
  assumes x: "x = sample_input [sample_finding\<lparr>f_control_id := ''AC 1''\<rparr>, sample_finding\<lparr>f_control_id := ''AC_1''\<rparr>] []"
    and y: "y = sample_input [sample_exception\<lparr>f_control_id := ''AC 1''\<rparr>, sample_finding\<lparr>f_control_id := ''AC_1''\<rparr>] []"
    and "build_assessment_results sample_oscal_env x = Inr b" "build_assessment_results sample_oscal_env y = Inr t"
  shows "\<exists>d. evaluate_oscal_drift b t = Inr d \<and> drift_passed d \<and> regressed_controls d = []"
proof -
  have results: "finding_states x = [(''AC_1'', ''satisfied''), (''AC_1'', ''satisfied'')]"
    "finding_states y = [(''AC_1'', ''not-satisfied''), (''AC_1'', ''satisfied'')]" "risk_states x = []" "risk_states y = []"
    unfolding x y
    by (simp_all add: finding_states_def risk_states_def sample_input_def sample_finding_def sample_exception_def sample_tokens
      satisfied_def has_finding_def result_of_record_def finding_record_def)
  then have "findings_map b = Inr [(''AC_1'', ''satisfied'')]" "findings_map t = Inr [(''AC_1'', ''satisfied'')]"
      "risks_map b = Inr []" "risks_map t = Inr []"
    using built_document [OF assms(3)] built_document [OF assms(4)]
    by (auto simp: document_findings_filled document_risks note_state_def)
  then show ?thesis by (simp add: evaluate_oscal_drift_def)
qed

end
