(* ===== verification/Spec2Isabelle.thy ===== *)
theory Spec2Isabelle
  imports FlowGates SchemaProps ApiLive Sampling FindingsProps ExportProps UploadProps OriginCheck OscalClaims
begin

text \<open>
  A model of the GRC Audit Swarm (\<open>src/src\<close>): three AI crews plan an audit, test the controls and
  write the report; after each phase a human decides at a gate. The program's own logic is what
  holds the crews in place: a state machine, an approval trail chained by hashes, a vault for
  evidence, linters, reviewer decisions that overlay the drafts, a policy on who may do what, and
  the service that stores, serves and exports all this.

  \<^bold>\<open>Parts and theories.\<close>
  \<^item> \<open>Prelude\<close>: results (\<open>error + 'a\<close> with \<open>bindE\<close>), dictionaries as association lists, Python
    text functions on ASCII, runs of operations that may be refused (\<open>attempts\<close>), and the
    contracts \<open>step_invariant\<close>, \<open>append_only\<close>, \<open>monotone_run\<close> the components instantiate.
  \<^item> \<open>Machine\<close>: \<open>swarm/state/machine.py\<close>, the table, each method, and the life cycle it refines.
  \<^item> \<open>Json\<close>, \<open>Labels\<close>, \<open>Schema\<close>, \<open>Dump\<close>, \<open>SchemaProps\<close>: \<open>swarm/schema.py\<close>. JSON values and
    \<open>json.dumps\<close>; the enums with their lenient parsing (\<open>label_enum\<close>); the artifacts as records,
    their validators, and the value each one is dumped to before it is digested.
  \<^item> \<open>Digest\<close>: the hash functions as a parameter (\<open>crypto\<close>) and the derived keys.
  \<^item> \<open>Trail\<close>: \<open>swarm/trail.py\<close>, \<open>append_entry\<close> and \<open>verify_trail\<close> with every verdict.
  \<^item> \<open>Policy\<close>: \<open>swarm/review_policy.py\<close>. \<open>Dates\<close>: \<open>date.fromisoformat\<close>.
  \<^item> \<open>Decisions\<close>, \<open>View\<close>: \<open>swarm/review_decisions.py\<close>, recording a decision and the effective view.
  \<^item> \<open>Evidence\<close>: \<open>swarm/evidence.py\<close>, redaction, registration, the quote check, the migration.
  \<^item> \<open>Skills\<close>: \<open>swarm/skill_loader.py\<close>. \<open>ModelRouting\<close>: \<open>swarm/model_routing.py\<close>.
  \<^item> \<open>Prompts\<close>, \<open>Flow\<close>: \<open>swarm/audit_flow.py\<close> with \<open>swarm/state/schema.py\<close>. The record \<open>audit_flow\<close> is
    \<open>AuditState\<close> with the machine and the loaded skills; one definition per method; \<open>flow_step\<close> is
    the alphabet of operations the API calls.
  \<^item> \<open>FlowInv\<close>, \<open>FlowTrail\<close>: what every operation of the flow keeps; \<open>session_step\<close> and the invariant
    \<open>flow_inv\<close>. \<open>FlowDemo\<close>: a concrete audit. \<open>FlowProps\<close>, \<open>FlowGates\<close>, \<open>FlowCrew\<close>: the flow's
    properties.
  \<^item> \<open>Regex\<close>, \<open>Linters\<close>, \<open>LintProps\<close>: Python's \<open>re\<close> on a datatype of patterns, and \<open>swarm/linters.py\<close>, the
    three linters with every rule, against a declarative reference. \<open>Sampling\<close>: \<open>swarm/sampling.py\<close>.
  \<^item> \<open>AwsChecks\<close>, \<open>AwsProps\<close>: \<open>swarm/tools/aws_checks.py\<close> and \<open>aws_tools.py\<close>, the collectors over the
    answers of boto3 and the tools that register what they found.
  \<^item> \<open>CleanText\<close>, \<open>FindingsImport\<close>, \<open>FindingsTools\<close>, \<open>FindingsProps\<close>: \<open>swarm/tools/findings_checks.py\<close> and
    \<open>findings_tools.py\<close>, the import of Prowler and Security Hub findings.
  \<^item> \<open>Tokens\<close>, \<open>Auth\<close>, \<open>OriginCheck\<close>: \<open>api/reviewer_tokens.py\<close>, \<open>api/auth.py\<close>, \<open>api/origin_check.py\<close>.
  \<^item> \<open>Sessions\<close>: \<open>swarm/session_manager.py\<close>, \<open>swarm/state/repository.py\<close>. \<open>Validated\<close>: the artifacts a crew
    can return. \<open>Api\<close>: \<open>api/routers/sessions.py\<close>, \<open>phases.py\<close>, \<open>api/job_store.py\<close>, \<open>api/executor.py\<close>; the record
    \<open>api\<close> is the service (the files, the flows in memory, the submitted runs, the registry cache).
    \<open>ApiInv\<close>, \<open>ApiDemo\<close>, \<open>ApiProps\<close>, \<open>ApiLive\<close>: requests, runs and restarts in any order (\<open>api_step\<close>),
    their invariant \<open>api_inv\<close>, a concrete service, and the properties.
  \<^item> \<open>Cells\<close>, \<open>Exports\<close>, \<open>ReportText\<close>, \<open>Downloads\<close>, \<open>ExportProps\<close>: \<open>api/exports.py\<close> and
    \<open>api/routers/exports.py\<close>, the sanitisers, the workbooks, the Markdown report, the endpoints.
  \<^item> \<open>Uploads\<close>, \<open>UploadProps\<close>: \<open>api/scope_document.py\<close>, \<open>api/routers/imports.py\<close>.
  \<^item> \<open>OscalParts\<close>, \<open>Oscal\<close>, \<open>OscalDoc\<close>, \<open>OscalProps\<close>, \<open>OscalClaims\<close>: \<open>swarm/oscal_ar.py\<close> and its download, the OSCAL
    document as a JSON value (one definition per element), and the comparison of two documents;
    \<open>doc_names\<close> lists the names its UUIDs are made from.

  \<^bold>\<open>How the parts interact.\<close> \<open>flow_approve_gate\<close> checks the transition (\<open>Machine\<close>), segregation of
  duties (\<open>Policy\<close>), the evidence of the findings (\<open>Evidence\<close>) and the decisions a gate needs (\<open>View\<close>),
  then moves the machine and stamps the trail with the digests of the artifact and of the
  decisions (\<open>Trail\<close>, \<open>Dump\<close>). \<open>record_decision\<close> builds a decision on the current draft and stamps
  its digest. A phase runner gives the crew its inputs (\<open>Prompts\<close>, \<open>Skills\<close>, feedback read from the
  last trail entry), judges what comes back with the QA verdict, the quote check and the linters
  (\<open>Linters\<close>), and either completes, rejects or fails the phase. A request is identified (\<open>Auth\<close>),
  loads the flow (\<open>Sessions\<close>), lets it act, and saves the snapshot and the head of its trail as
  anchor; a phase run does the same on a thread, in any order with the requests. The tools of the
  crews and the upload endpoint register evidence (\<open>Evidence\<close>), which the gate checks quotes against.
  A download verifies the trail and shows the artifacts under the effective view (\<open>View\<close>).

  \<^bold>\<open>What the lemmas show.\<close> The trail of every audit verifies with its artifacts, decisions and any
  earlier anchor, in memory and on disk, whatever requests, runs and restarts happened; its approvals
  are the gates the status lies behind; reviewers are never preparers, gates 2 and 3 have different
  approvers, and a request with a token is recorded under its owner; both logs only grow, and a
  signed-off trail is never lost; the flow is a run of the state machine. A phase reaches its gate only
  with an artifact that passed its checks, and what reviewers wrote reaches the next run. A trail that
  verifies against an anchor is the anchored one, and vouches for artifacts and decisions, unless hashed
  texts collide. Registered quotes verify and only parts of registered payloads do, in their session
  only. No decision hides an Exception, neither in the view nor in the downloaded papers, and a gate
  with nothing missing has every decision it needs. Validators and linters accept exactly what their
  reference definitions describe. The verdict on a bucket is exact, the paginated read ends, uploaded
  text and scanner output stay in their blocks. No stored audit is refused for export, and what an
  export says of its approval is what the trail says. In an OSCAL document every UUID names one element
  and every reference resolves; of two documents the comparison reports exactly what got worse. Theorems and lemmas also exhibit defects of the
  code: an interrupted run strands its audit (\<open>ApiLive\<close>), a second finding on a control escapes review
  (\<open>FlowGates\<close>) and is exported under the first one's conclusions (\<open>ExportProps\<close>), a malformed period
  switches the linter off (\<open>LintProps\<close>), unreadable keys pass (\<open>AwsProps\<close>), nested images survive
  (\<open>ExportProps\<close>), ids that become one token hide a regression (\<open>OscalClaims\<close>).

  \<^bold>\<open>Parameters and bounds.\<close> SHA-256, HMAC, base64 and Fernet are functions; that hashes do not
  collide is a hypothesis on the finitely many texts hashed, never on the function. Crews,
  clocks, fresh ids, exception texts, model descriptions, the vault's content at each attempt, the
  answers of boto3, the text of a PDF, the JSON of a file, \<open>random.sample\<close>, \<open>uuid5\<close> (distinct on the
  names of one document) and \<open>datetime.fromisoformat\<close> in UTC are arguments
  (\<open>flow_env\<close>, \<open>run_env\<close>, \<open>api_env\<close>, \<open>vault_call\<close>, \<open>oscal_env\<close>). A crew is tried at most twice, as in the code
  (\<open>_MAX_QA_ATTEMPTS\<close>), so no fuel is needed: every definition terminates but \<open>read_pages\<close>, the loop over
  a paginator, which is a \<open>partial_function\<close> whose None is a paginator that never lets it end. Text is
  UTF-8 bytes; white space and case folding are ASCII. Framed parts are below \<open>2 ^ 64\<close> bytes, which is
  what the eight length bytes of the code hold.

  \<^bold>\<open>Not modelled.\<close> The decision engine (\<open>swarm/decision_engine.py\<close>) computes scores in binary floating point
  with logarithms and rounding, and no part of the program calls it: a model over the rationals would
  not be the code. Response bodies, the read-only config
  and evidence routers, event queues and job texts; the canned artifacts of the demo crew and the
  evaluation scripts, which are data and benchmarks; the CrewAI crews, LLM providers and the MCP server,
  which are calls to third-party code. Pydantic's own coercion, logging, event callbacks and the texts of
  exceptions (constructors stand for them) are left out, and so are the four constant fields of
  a generation run.
\<close>

end
